(* ===== verification/Kos_Prelude.thy ===== *)
theory Kos_Prelude
  imports Main "HOL-Library.Word"
begin

text \<open>
  Shared vocabulary of the development: the Go integer widths, the collections of rewrite
  rules, and generic lemmas on words, lists, association by key and maps that several
  components use.
\<close>

unbundle bit_operations_syntax

section \<open>Types\<close>

type_synonym uint8 = "8 word"
type_synonym uint16 = "16 word"
type_synonym uint32 = "32 word"

text \<open>A Go function that may panic returns a sum: \<open>Inl\<close> the panic, \<open>Inr\<close> the results.\<close>

type_synonym ('e, 'a) result = "'e + 'a"

text \<open>The run time panics of Go code, apart from those a component raises itself.\<close>

datatype go_panic = IndexOutOfRange | NilPointer | BadTypeAssertion | SetPanic

section \<open>Collections of facts\<close>

named_theorems run_simps \<open>facts on lists of runs\<close>
named_theorems str_simps \<open>facts on Go strings\<close>
named_theorems net_simps \<open>facts on addresses\<close>
named_theorems map_simps \<open>facts on Go maps\<close>

section \<open>Words\<close>

lemma word_le_max [simp]: "(x::uint32) \<le> 4294967295"
proof -
  have "unat x < 2 ^ LENGTH(32)" by (rule unsigned_less)
  then show ?thesis by (simp add: word_le_nat_alt)
qed

lemma unat_lt32: "unat (x::uint32) < 4294967296"
  using unsigned_less [of x] by simp

lemma unat_lt8: "unat (x::uint8) < 256"
  using unsigned_less [of x] by simp

lemma unat_plus_one: "(x::uint32) < y \<Longrightarrow> unat (x + 1) = unat x + 1"
proof -
  assume "x < y"
  then have "x \<noteq> - 1" by (metis max_word_max not_less)
  then have "1 + x \<noteq> 0" by (simp add: add_eq_0_iff eq_commute [of x])
  then show ?thesis using unatSuc [of x] by (simp add: add.commute)
qed

lemma word_plus_one_le: "(x::uint32) < y \<Longrightarrow> x + 1 \<le> y"
  by (simp add: word_le_nat_alt unat_plus_one word_less_nat_alt)

lemma word_less_plus_one: "(x::uint32) < y \<Longrightarrow> x < x + 1"
  by (simp add: word_less_nat_alt unat_plus_one)

lemma unat_minus_one32: "(0::uint32) < x \<Longrightarrow> unat (x - 1) = unat x - 1"
  by (simp add: unat_minus_one word_gt_0)

lemma word_le_minus_one: "(x::uint32) < y \<Longrightarrow> x \<le> y - 1"
proof -
  assume "x < y"
  moreover from this have "0 < y" by (metis word_gt_0 word_not_simps(1))
  ultimately show ?thesis by (simp add: word_le_nat_alt word_less_nat_alt unat_minus_one32)
qed

lemma word_minus_one_less: "(x::uint32) < y \<Longrightarrow> y - 1 < y"
proof -
  assume "x < y"
  then have "0 < y" by (metis word_gt_0 word_not_simps(1))
  then show ?thesis by (simp add: word_less_nat_alt unat_minus_one32)
qed

text \<open>Words are ordered as their natural numbers; this pair of facts moves a goal there.\<close>

lemmas word_to_nat = word_le_nat_alt word_less_nat_alt

end
