(* ===== verification/Go_Strings.thy ===== *)
theory Go_Strings
  imports Kos_Prelude
begin

text \<open>
  The parts of Go's \<open>fmt\<close>, \<open>strconv\<close> and \<open>strings\<close> packages that the program calls, as
  executable functions on \<open>string\<close> (a list of bytes): printing unsigned numbers in a base,
  zero padding, \<open>ParseUint\<close> with its two kinds of error, \<open>Split\<close>, \<open>Join\<close>, \<open>Contains\<close>,
  \<open>TrimLeft\<close>, \<open>TrimRight\<close>, \<open>Trim\<close>, \<open>Replace\<close> and \<open>Fields\<close>. The lemmas are the round trips
  (print then parse, join then split) and the injectivity of printing.
\<close>

section \<open>Numbers in a base\<close>

fun digits :: "nat \<Rightarrow> nat \<Rightarrow> nat list" where
  "digits b n = (if b < 2 \<or> n < b then [n] else digits b (n div b) @ [n mod b])"

declare digits.simps [simp del]

definition undigits :: "nat \<Rightarrow> nat \<Rightarrow> nat list \<Rightarrow> nat" where
  "undigits b = foldl (\<lambda>a d. a * b + d)"

lemma undigits_simps [simp]:
  "undigits b a [] = a"
  "undigits b a (d # ds) = undigits b (a * b + d) ds"
  "undigits b a (ds @ es) = undigits b (undigits b a ds) es"
  by (simp_all add: undigits_def)

lemma undigits_digits: "undigits b 0 (digits b n) = n"
proof (induction b n rule: digits.induct)
  case (1 b n)
  then show ?case by (cases "b < 2 \<or> n < b") (simp_all add: digits.simps [of b n])
qed

lemma digits_bound: "2 \<le> b \<Longrightarrow> d \<in> set (digits b n) \<Longrightarrow> d < b"
proof (induction b n rule: digits.induct)
  case (1 b n)
  then show ?case by (cases "n < b") (auto simp: digits.simps [of b n])
qed

lemma digits_nonempty [simp]: "digits b n \<noteq> []"
  by (subst digits.simps) simp

lemma length_digits_le: "2 \<le> b \<Longrightarrow> n < b ^ k \<Longrightarrow> 0 < k \<Longrightarrow> length (digits b n) \<le> k"
proof (induction k arbitrary: n)
  case (Suc k)
  show ?case
  proof (cases "n < b")
    case True
    then show ?thesis by (simp add: digits.simps [of b n])
  next
    case False
    with Suc.prems have "0 < k" by (cases k) auto
    moreover from Suc.prems have "n div b < b ^ k"
      by (simp add: less_mult_imp_div_less mult.commute)
    ultimately have "length (digits b (n div b)) \<le> k" using Suc by simp
    with False Suc.prems(1) show ?thesis by (simp add: digits.simps [of b n])
  qed
qed simp

lemma undigits_replicate_zero [simp]: "undigits b 0 (replicate k 0) = 0"
  by (induction k) simp_all

section \<open>Digit characters\<close>

definition digit_char :: "nat \<Rightarrow> char" where
  "digit_char d = (if d < 10 then char_of (48 + d) else char_of (87 + d))"

text \<open>\<open>strconv\<close> reads decimal digits and letters of either case.\<close>

definition char_digit :: "char \<Rightarrow> nat option" where
  "char_digit c =
     (let k = of_char c :: nat in
      if 48 \<le> k \<and> k \<le> 57 then Some (k - 48)
      else if 97 \<le> k \<and> k \<le> 122 then Some (k - 87)
      else if 65 \<le> k \<and> k \<le> 90 then Some (k - 55)
      else None)"

lemma of_char_digit_char: "d < 36 \<Longrightarrow> of_char (digit_char d) = (if d < 10 then 48 + d else 87 + d)"
  by (simp add: digit_char_def of_char_of)

lemma char_digit_digit_char [simp]: "d < 36 \<Longrightarrow> char_digit (digit_char d) = Some d"
  by (simp add: char_digit_def Let_def of_char_digit_char)

lemma digit_char_inj: "d < 36 \<Longrightarrow> e < 36 \<Longrightarrow> digit_char d = digit_char e \<Longrightarrow> d = e"
  by (metis char_digit_digit_char option.inject)

definition format_uint :: "nat \<Rightarrow> nat \<Rightarrow> string" where
  "format_uint b n = map digit_char (digits b n)"

text \<open>\<open>fmt\<close>'s width flag with zero padding, as in \<open>%08x\<close>.\<close>

definition pad0 :: "nat \<Rightarrow> string \<Rightarrow> string" where
  "pad0 w s = replicate (w - length s) (digit_char 0) @ s"

definition sprintf_d :: "'a::len word \<Rightarrow> string" where
  "sprintf_d x = format_uint 10 (unat x)"

definition sprintf_x :: "'a::len word \<Rightarrow> string" where
  "sprintf_x x = format_uint 16 (unat x)"

definition sprintf_sharp_x :: "'a::len word \<Rightarrow> string" where
  "sprintf_sharp_x x = ''0x'' @ sprintf_x x"

definition sprintf_08x :: "uint32 \<Rightarrow> string" where
  "sprintf_08x x = pad0 8 (sprintf_x x)"

definition sprintf_02x :: "uint8 \<Rightarrow> string" where
  "sprintf_02x x = pad0 2 (sprintf_x x)"

section \<open>strconv.ParseUint\<close>

datatype num_error = ErrSyntax | ErrRange

text \<open>
  The loop of \<open>ParseUint\<close> for a base from 2 to 36: it stops at the first character that is
  not a digit of the base (the value is then 0) and at the first prefix above the maximum
  (the value is then the maximum).
\<close>

fun parse_uint_loop :: "nat \<Rightarrow> nat \<Rightarrow> nat \<Rightarrow> string \<Rightarrow> nat \<times> num_error option" where
  "parse_uint_loop b maxVal n [] = (n, None)"
| "parse_uint_loop b maxVal n (c # cs) =
     (case char_digit c of
        None \<Rightarrow> (0, Some ErrSyntax)
      | Some d \<Rightarrow>
          if b \<le> d then (0, Some ErrSyntax)
          else if maxVal < n * b + d then (maxVal, Some ErrRange)
          else parse_uint_loop b maxVal (n * b + d) cs)"

definition ParseUint :: "string \<Rightarrow> nat \<Rightarrow> nat \<Rightarrow> nat \<times> num_error option" where
  "ParseUint s b bits =
     (if s = [] then (0, Some ErrSyntax) else parse_uint_loop b (2 ^ bits - 1) 0 s)"

lemma undigits_mono: "0 < b \<Longrightarrow> a \<le> undigits b a ds"
proof (induction ds arbitrary: a)
  case (Cons d ds)
  have "a \<le> a * b + d" using Cons.prems by (simp add: trans_le_add1)
  also have "\<dots> \<le> undigits b (a * b + d) ds" using Cons by simp
  finally show ?case by simp
qed simp

lemma parse_uint_loop_digits:
  assumes "2 \<le> b" "b \<le> 36" "\<forall>d\<in>set ds. d < b" "undigits b n ds \<le> m"
  shows "parse_uint_loop b m n (map digit_char ds) = (undigits b n ds, None)"
  using assms
proof (induction ds arbitrary: n)
  case (Cons d ds)
  have "n * b + d \<le> undigits b (n * b + d) ds"
    using Cons.prems by (intro undigits_mono) simp
  with Cons.prems have "n * b + d \<le> m" by simp
  moreover have "d < 36" using Cons.prems by simp
  ultimately show ?case using Cons by simp
qed simp

lemma ParseUint_format_uint [str_simps]:
  assumes "2 \<le> b" "b \<le> 36" "n < 2 ^ bits"
  shows "ParseUint (format_uint b n) b bits = (n, None)"
proof -
  have "\<forall>d\<in>set (digits b n). d < b" using assms(1) digits_bound by blast
  moreover have "n \<le> 2 ^ bits - 1" using assms(3) by simp
  ultimately have "parse_uint_loop b (2 ^ bits - 1) 0 (map digit_char (digits b n)) = (n, None)"
    using assms parse_uint_loop_digits [of b "digits b n" 0 "2 ^ bits - 1"]
    by (simp add: undigits_digits)
  then show ?thesis by (simp add: ParseUint_def format_uint_def)
qed

lemma ParseUint_bound: "ParseUint s b bits = (n, e) \<Longrightarrow> n < 2 ^ bits"
proof -
  have loop: "m \<le> 2 ^ bits - 1 \<Longrightarrow> parse_uint_loop b (2 ^ bits - 1) m s = (n, e) \<Longrightarrow> n \<le> 2 ^ bits - 1" for m
  proof (induction s arbitrary: m)
    case (Cons c s)
    then show ?case
      by (auto split: option.splits if_splits simp del: One_nat_def) (metis not_less)
  qed simp
  have pos: "(0::nat) < 2 ^ bits" by simp
  assume "ParseUint s b bits = (n, e)"
  with loop [of 0] have "n \<le> 2 ^ bits - 1" by (auto simp: ParseUint_def split: if_splits)
  with pos show ?thesis by linarith
qed

section \<open>Printing is injective\<close>

definition unformat :: "nat \<Rightarrow> string \<Rightarrow> nat" where
  "unformat b s = undigits b 0 (map (\<lambda>c. case char_digit c of None \<Rightarrow> 0 | Some d \<Rightarrow> d) s)"

lemma map_char_digit:
  "\<forall>d\<in>set ds. d < 36 \<Longrightarrow>
   map ((\<lambda>c. case char_digit c of None \<Rightarrow> 0 | Some d \<Rightarrow> d) \<circ> digit_char) ds = ds"
  by (induction ds) simp_all

lemma unformat_pad0: "2 \<le> b \<Longrightarrow> b \<le> 36 \<Longrightarrow> unformat b (pad0 w (format_uint b n)) = n"
proof -
  assume b: "2 \<le> b" "b \<le> 36"
  then have "\<forall>d\<in>set (digits b n). d < 36" by (meson digits_bound less_le_trans)
  with b show ?thesis
    by (simp add: unformat_def pad0_def format_uint_def map_char_digit undigits_digits)
qed

lemma unformat_format: "2 \<le> b \<Longrightarrow> b \<le> 36 \<Longrightarrow> unformat b (format_uint b n) = n"
  using unformat_pad0 [of b 0 n] by (simp add: pad0_def)

lemma format_uint_inj: "2 \<le> b \<Longrightarrow> b \<le> 36 \<Longrightarrow> format_uint b m = format_uint b n \<longleftrightarrow> m = n"
  by (metis unformat_format)

lemma pad0_format_uint_inj:
  "2 \<le> b \<Longrightarrow> b \<le> 36 \<Longrightarrow> pad0 w (format_uint b m) = pad0 w (format_uint b n) \<longleftrightarrow> m = n"
  by (metis unformat_pad0)

lemma sprintf_08x_inj [simp]: "sprintf_08x x = sprintf_08x y \<longleftrightarrow> x = y"
  by (simp add: sprintf_08x_def sprintf_x_def pad0_format_uint_inj flip: word_unat_eq_iff)

lemma sprintf_02x_inj [simp]: "sprintf_02x x = sprintf_02x y \<longleftrightarrow> x = y"
  by (simp add: sprintf_02x_def sprintf_x_def pad0_format_uint_inj flip: word_unat_eq_iff)

lemma sprintf_d_inj [simp]: "sprintf_d x = sprintf_d y \<longleftrightarrow> x = y"
  by (simp add: sprintf_d_def format_uint_inj flip: word_unat_eq_iff)

lemma sprintf_x_inj [simp]: "sprintf_x x = sprintf_x y \<longleftrightarrow> x = y"
  by (simp add: sprintf_x_def format_uint_inj flip: word_unat_eq_iff)

lemma length_format_uint_le:
  "2 \<le> b \<Longrightarrow> n < b ^ k \<Longrightarrow> 0 < k \<Longrightarrow> length (format_uint b n) \<le> k"
  by (simp add: format_uint_def length_digits_le)

lemma length_sprintf_08x [simp]: "length (sprintf_08x x) = 8"
  using length_format_uint_le [of 16 "unat x" 8] unat_lt32 [of x]
  by (simp add: sprintf_08x_def pad0_def sprintf_x_def)

lemma length_sprintf_02x [simp]: "length (sprintf_02x x) = 2"
  using length_format_uint_le [of 16 "unat x" 2] unat_lt8 [of x]
  by (simp add: sprintf_02x_def pad0_def sprintf_x_def)

section \<open>strings.Split and strings.Join\<close>

text \<open>\<open>Split\<close> at a separator of one character, the only kind the program uses.\<close>

fun split_on :: "char \<Rightarrow> string \<Rightarrow> string list" where
  "split_on c [] = [[]]"
| "split_on c (x # xs) =
     (if x = c then [] # split_on c xs
      else (case split_on c xs of [] \<Rightarrow> [[x]] | y # ys \<Rightarrow> (x # y) # ys))"

fun join :: "string \<Rightarrow> string list \<Rightarrow> string" where
  "join sep [] = []"
| "join sep [s] = s"
| "join sep (s # t # ts) = s @ sep @ join sep (t # ts)"

lemma split_on_nonempty [simp]: "split_on c s \<noteq> []"
  by (induction s) (auto split: list.splits)

lemma split_on_no_sep: "c \<notin> set s \<Longrightarrow> split_on c s = [s]"
  by (induction s) auto

lemma split_on_append_sep: "c \<notin> set s \<Longrightarrow> split_on c (s @ c # t) = s # split_on c t"
  by (induction s) auto

lemma split_on_join:
  "ss \<noteq> [] \<Longrightarrow> \<forall>s\<in>set ss. c \<notin> set s \<Longrightarrow> split_on c (join [c] ss) = ss"
  by (induction "[c]" ss rule: join.induct) (auto simp: split_on_no_sep split_on_append_sep)

lemma join_split_on: "join [c] (split_on c s) = s"
proof (induction s)
  case (Cons x s)
  then obtain y ys where "split_on c s = y # ys" by (cases "split_on c s") auto
  with Cons show ?case by (cases ys) auto
qed simp

lemma split_on_parts: "p \<in> set (split_on c s) \<Longrightarrow> c \<notin> set p"
  by (induction s arbitrary: p) (auto split: list.splits if_splits)

lemma digit_char_notin_digits:
  assumes "2 \<le> b" "b \<le> 36" "char_digit c = None"
  shows "c \<notin> set (format_uint b n)"
proof
  assume "c \<in> set (format_uint b n)"
  then obtain d where "d \<in> set (digits b n)" "c = digit_char d" by (auto simp: format_uint_def)
  moreover from this assms have "d < 36" by (meson digits_bound less_le_trans)
  ultimately show False using assms by simp
qed

section \<open>Other functions of package strings\<close>

fun contains :: "string \<Rightarrow> string \<Rightarrow> bool" where
  "contains [] pat = (pat = [])"
| "contains (x # xs) pat = (take (length pat) (x # xs) = pat \<or> contains xs pat)"

definition TrimLeft :: "string \<Rightarrow> string \<Rightarrow> string" where
  "TrimLeft s cutset = dropWhile (\<lambda>c. c \<in> set cutset) s"

definition TrimRight :: "string \<Rightarrow> string \<Rightarrow> string" where
  "TrimRight s cutset = rev (dropWhile (\<lambda>c. c \<in> set cutset) (rev s))"

definition Trim :: "string \<Rightarrow> string \<Rightarrow> string" where
  "Trim s cutset = TrimRight (TrimLeft s cutset) cutset"

text \<open>\<open>Replace\<close> with a non-empty pattern and no bound on the number of replacements.\<close>

function replace_all :: "string \<Rightarrow> string \<Rightarrow> string \<Rightarrow> string" where
  "replace_all s old new =
     (if s = [] \<or> old = [] then s
      else if take (length old) s = old then new @ replace_all (drop (length old) s) old new
      else hd s # replace_all (tl s) old new)"
  by pat_completeness auto
termination
  by (relation "measure (\<lambda>(s, old, new). length s)") auto

declare replace_all.simps [simp del]

definition ToLower :: "string \<Rightarrow> string" where
  "ToLower = map (\<lambda>c. let k = of_char c :: nat in if 65 \<le> k \<and> k \<le> 90 then char_of (k + 32) else c)"

lemma contains_append: "contains (xs @ pat @ ys) pat"
proof (induction xs)
  case Nil
  show ?case
  proof (cases "pat @ ys")
    case (Cons a l)
    then have "take (length pat) (a # l) = pat" by (metis append_eq_conv_conj)
    with Cons show ?thesis by simp
  qed simp
qed auto

lemma contains_iff: "contains s pat \<longleftrightarrow> (\<exists>xs ys. s = xs @ pat @ ys)"
proof
  assume "contains s pat"
  then show "\<exists>xs ys. s = xs @ pat @ ys"
  proof (induction s)
    case (Cons x s)
    then consider "take (length pat) (x # s) = pat" | "contains s pat" by auto
    then show ?case
    proof cases
      case 1
      then have "x # s = [] @ pat @ drop (length pat) (x # s)"
        by (metis append_Nil append_take_drop_id)
      then show ?thesis by blast
    next
      case 2
      with Cons.IH obtain xs ys where "s = xs @ pat @ ys" by blast
      then have "x # s = (x # xs) @ pat @ ys" by simp
      then show ?thesis by blast
    qed
  qed auto
next
  assume "\<exists>xs ys. s = xs @ pat @ ys"
  then show "contains s pat" by (auto simp: contains_append)
qed

section \<open>Byte-wise order\<close>

text \<open>\<open>strings.Compare\<close> and the comparison operators order strings by their bytes.\<close>

fun str_less :: "string \<Rightarrow> string \<Rightarrow> bool" where
  "str_less [] ys = (ys \<noteq> [])"
| "str_less (x # xs) [] = False"
| "str_less (x # xs) (y # ys) =
     ((of_char x :: nat) < of_char y \<or> x = y \<and> str_less xs ys)"

lemma str_less_irrefl [simp]: "\<not> str_less s s"
  by (induction s) auto

lemma str_less_trans: "str_less a b \<Longrightarrow> str_less b c \<Longrightarrow> str_less a c"
proof (induction a b arbitrary: c rule: str_less.induct)
  case (1 ys)
  then show ?case by (cases c; cases ys) auto
next
  case (3 x xs y ys)
  then show ?case by (cases c) auto
qed simp

lemma str_less_linear: "str_less a b \<or> a = b \<or> str_less b a"
proof (induction a b rule: str_less.induct)
  case (1 ys)
  then show ?case by (cases ys) auto
next
  case (3 x xs y ys)
  have "(of_char x :: nat) < of_char y \<or> x = y \<or> (of_char y :: nat) < of_char x"
    by (metis linorder_neqE_nat of_char_eq_iff)
  with 3 show ?case by auto
qed simp

lemma str_less_asym: "str_less a b \<Longrightarrow> \<not> str_less b a"
  using str_less_trans str_less_irrefl by blast

end
