(* ===== verification/Sorted_Set.thy ===== *)
theory Sorted_Set
  imports Go_Strings
begin

text \<open>
  The interface of the library \<open>github.com/wangjia184/sortedset\<close>, which \<open>uint32set\<close> is built
  on and which is not part of the repository. Its operations are the fields of the record
  \<open>sorted_set_ops\<close>, a parameter of every definition that calls them; what its documentation
  promises (keys are unique, nodes are ordered by score and then by key, ranks count from 1,
  0 means not found) is the locale \<open>sorted_set\<close>, over an abstraction function to the list of
  nodes. \<open>list_ops\<close> is a concrete implementation of the interface, on which the locale is
  interpreted.
\<close>

section \<open>Nodes and operations\<close>

record ss_node =
  node_key :: string
  node_score :: int
  node_value :: uint32

record 'ss sorted_set_ops =
  ss_New :: 'ss
  ss_GetCount :: "'ss \<Rightarrow> int"
  ss_GetByKey :: "'ss \<Rightarrow> string \<Rightarrow> ss_node option"
  ss_GetByRank :: "'ss \<Rightarrow> int \<Rightarrow> ss_node option"
  ss_FindRank :: "'ss \<Rightarrow> string \<Rightarrow> int"
  ss_AddOrUpdate :: "'ss \<Rightarrow> string \<Rightarrow> int \<Rightarrow> uint32 \<Rightarrow> 'ss"
  ss_Remove :: "'ss \<Rightarrow> string \<Rightarrow> 'ss"

definition node_less :: "ss_node \<Rightarrow> ss_node \<Rightarrow> bool" where
  "node_less n m \<longleftrightarrow> node_score n < node_score m \<or>
     node_score n = node_score m \<and> str_less (node_key n) (node_key m)"

definition ins_node :: "ss_node \<Rightarrow> ss_node list \<Rightarrow> ss_node list" where
  "ins_node new ns =
     takeWhile (\<lambda>n. node_less n new) ns @ new # dropWhile (\<lambda>n. node_less n new) ns"

definition del_key :: "string \<Rightarrow> ss_node list \<Rightarrow> ss_node list" where
  "del_key k = filter (\<lambda>n. node_key n \<noteq> k)"

definition find_key :: "string \<Rightarrow> ss_node list \<Rightarrow> ss_node option" where
  "find_key k = find (\<lambda>n. node_key n = k)"

definition rank_of :: "string \<Rightarrow> ss_node list \<Rightarrow> int" where
  "rank_of k ns =
     (if k \<in> set (map node_key ns) then int (length (takeWhile (\<lambda>n. node_key n \<noteq> k) ns)) + 1
      else 0)"

definition at_rank :: "ss_node list \<Rightarrow> int \<Rightarrow> ss_node option" where
  "at_rank ns r = (if 1 \<le> r \<and> r \<le> int (length ns) then Some (ns ! nat (r - 1)) else None)"

section \<open>The contract\<close>

locale sorted_set =
  fixes ops :: "'ss sorted_set_ops"
    and nodes :: "'ss \<Rightarrow> ss_node list"
    and invar :: "'ss \<Rightarrow> bool"
  assumes invar_New: "invar (ss_New ops)"
    and invar_AddOrUpdate: "invar s \<Longrightarrow> invar (ss_AddOrUpdate ops s k sc v)"
    and invar_Remove: "invar s \<Longrightarrow> invar (ss_Remove ops s k)"
    and nodes_New: "nodes (ss_New ops) = []"
    and nodes_AddOrUpdate: "invar s \<Longrightarrow>
      nodes (ss_AddOrUpdate ops s k sc v) =
        ins_node \<lparr>node_key = k, node_score = sc, node_value = v\<rparr> (del_key k (nodes s))"
    and nodes_Remove: "invar s \<Longrightarrow> nodes (ss_Remove ops s k) = del_key k (nodes s)"
    and GetCount: "invar s \<Longrightarrow> ss_GetCount ops s = int (length (nodes s))"
    and GetByKey: "invar s \<Longrightarrow> ss_GetByKey ops s k = find_key k (nodes s)"
    and GetByRank: "invar s \<Longrightarrow> 1 \<le> r \<Longrightarrow> ss_GetByRank ops s r = at_rank (nodes s) r"
    and FindRank: "invar s \<Longrightarrow> ss_FindRank ops s k = rank_of k (nodes s)"
begin

lemmas ss_laws = invar_New invar_AddOrUpdate invar_Remove nodes_New nodes_AddOrUpdate nodes_Remove
  GetCount GetByKey GetByRank FindRank

end

section \<open>A concrete implementation\<close>

text \<open>A sorted association list, kept in order by insertion.\<close>

definition list_ops :: "ss_node list sorted_set_ops" where
  "list_ops = \<lparr>ss_New = [],
     ss_GetCount = (\<lambda>ns. int (length ns)),
     ss_GetByKey = (\<lambda>ns k. find_key k ns),
     ss_GetByRank = at_rank,
     ss_FindRank = (\<lambda>ns k. rank_of k ns),
     ss_AddOrUpdate = (\<lambda>ns k sc v.
       ins_node \<lparr>node_key = k, node_score = sc, node_value = v\<rparr> (del_key k ns)),
     ss_Remove = (\<lambda>ns k. del_key k ns)\<rparr>"

interpretation list_ss: sorted_set list_ops "\<lambda>ns. ns" "\<lambda>_. True"
  by unfold_locales (simp_all add: list_ops_def)

lemma list_ops_sorted_set: "sorted_set list_ops (\<lambda>ns. ns) (\<lambda>_. True)"
  by (rule list_ss.sorted_set_axioms)

end
