(* ===== verification/Uint32_Sorted.thy ===== *)
theory Uint32_Sorted
  imports Sorted_Set
begin

text \<open>
  \<open>pkg/uint32set/sortedset.go\<close>: a set of \<open>uint32\<close> kept as runs in a sorted set of nodes
  whose key is the first number of the run in hex, whose score is that number and whose
  value is the last number of the run. First the operations, one definition per method, over
  an arbitrary implementation \<open>ops\<close> of the sorted set library; every panic of the source is a
  value of \<open>uis_panic\<close>. Then the abstraction to a list of runs, the representation invariant,
  and the correctness of every operation, proved once in the locale \<open>sorted_set\<close>.
\<close>

section \<open>The model\<close>

record 'ss sorted_uint32_set =
  uis_ss :: 'ss
  CheckLevel :: int

datatype uis_panic =
    NilDereference
  | WrongGetCount
  | NoNodes
  | InvertedFirst
  | LacksNode int
  | BadGap int
  | InvertedNode int
  | CountTooBig int
  | InvertedLast
  | CountTooSmall
  | AddOneInRangeFail int int int
  | LacksRun int int
  | AlreadyInSet uint32

definition NewSortedUInt32Set :: "'ss sorted_set_ops \<Rightarrow> int \<Rightarrow> 'ss sorted_uint32_set" where
  "NewSortedUInt32Set ops checkLevel = \<lparr>uis_ss = ss_New ops, CheckLevel = checkLevel\<rparr>"

definition IsEmpty :: "'ss sorted_set_ops \<Rightarrow> 'ss sorted_uint32_set \<Rightarrow> bool" where
  "IsEmpty ops uis \<longleftrightarrow> ss_GetCount ops (uis_ss uis) = 0"

definition score_u32 :: "ss_node \<Rightarrow> uint32" where
  "score_u32 n = word_of_int (node_score n)"

text \<open>The loop of the exhaustive check, from \<open>rank\<close> to \<open>count\<close>.\<close>

function check_loop ::
    "'ss sorted_set_ops \<Rightarrow> 'ss \<Rightarrow> int \<Rightarrow> int \<Rightarrow> ss_node \<Rightarrow> (uis_panic, ss_node) result" where
  "check_loop ops ss count rank lastNode =
     (if rank \<le> count then
        (case ss_GetByRank ops ss rank of
           None \<Rightarrow> Inl (LacksNode rank)
         | Some node \<Rightarrow>
             if score_u32 node \<le> node_value lastNode + 1 then Inl (BadGap (rank - 1))
             else if node_value node < score_u32 node then Inl (InvertedNode rank)
             else check_loop ops ss count (rank + 1) node)
      else Inr lastNode)"
  by pat_completeness auto
termination
  by (relation "measure (\<lambda>(ops, ss, count, rank, lastNode). nat (count + 1 - rank))") auto

declare check_loop.simps [simp del]

definition Check :: "'ss sorted_set_ops \<Rightarrow> bool \<Rightarrow> 'ss sorted_uint32_set \<Rightarrow> (uis_panic, unit) result" where
  "Check ops hard uis =
     (let ss = uis_ss uis;
          final = (if ss_GetByRank ops ss (ss_GetCount ops ss + 1) \<noteq> None
                   then Inl CountTooSmall else Inr ())
      in if ss_GetCount ops ss = 0 then
           (if ss_GetByRank ops ss 1 \<noteq> None then Inl WrongGetCount else final)
         else
           (case ss_GetByRank ops ss 1 of
              None \<Rightarrow> Inl NoNodes
            | Some firstNode \<Rightarrow>
                if node_value firstNode < score_u32 firstNode then Inl InvertedFirst
                else
                  (let count = ss_GetCount ops ss in
                   case (if hard then check_loop ops ss count 2 firstNode
                         else (case ss_GetByRank ops ss count of
                                 None \<Rightarrow> Inl (CountTooBig count)
                               | Some node \<Rightarrow> Inr node)) of
                     Inl p \<Rightarrow> Inl p
                   | Inr lastNode \<Rightarrow>
                       if node_value lastNode < score_u32 lastNode then Inl InvertedLast
                       else final)))"

definition self_check :: "'ss sorted_set_ops \<Rightarrow> 'ss sorted_uint32_set \<Rightarrow> (uis_panic, unit) result" where
  "self_check ops uis =
     (if 0 < CheckLevel uis then Check ops (1 < CheckLevel uis) uis else Inr ())"

definition Add :: "'ss sorted_set_ops \<Rightarrow> 'ss sorted_uint32_set \<Rightarrow> uint32
    \<Rightarrow> (uis_panic, bool \<times> 'ss sorted_uint32_set) result" where
  "Add ops uis x =
     (let xS = sprintf_08x x; ss = uis_ss uis in
      case ss_GetByKey ops ss xS of
        Some _ \<Rightarrow> Inr (False, uis)
      | None \<Rightarrow>
        (let ss1 = ss_AddOrUpdate ops ss xS (uint x) x;
             rankX = ss_FindRank ops ss1 xS;
             finish = (\<lambda>prevNode mergeWithPrev.
               let nextNode = ss_GetByRank ops ss1 (rankX + 1);
                   mergeWithNext = (case nextNode of None \<Rightarrow> False
                                    | Some n \<Rightarrow> uint (x + 1) = node_score n);
                   done = (\<lambda>ss'. let uis' = uis\<lparr>uis_ss := ss'\<rparr> in
                             case self_check ops uis' of
                               Inl p \<Rightarrow> Inl p | Inr _ \<Rightarrow> Inr (True, uis'))
               in if mergeWithPrev then
                    (case prevNode of
                       None \<Rightarrow> Inl NilDereference
                     | Some prev \<Rightarrow>
                         let ss2 = ss_Remove ops ss1 xS in
                         if mergeWithNext then
                           (case nextNode of
                              None \<Rightarrow> Inl NilDereference
                            | Some next \<Rightarrow>
                                let ss3 = ss_Remove ops ss2 (node_key next) in
                                done (ss_AddOrUpdate ops ss3 (node_key prev) (node_score prev)
                                        (node_value next)))
                         else done (ss_AddOrUpdate ops ss2 (node_key prev) (node_score prev) x))
                  else if mergeWithNext then
                    (case nextNode of
                       None \<Rightarrow> Inl NilDereference
                     | Some next \<Rightarrow>
                         done (ss_AddOrUpdate ops (ss_Remove ops ss1 (node_key next))
                                 xS (uint x) (node_value next)))
                  else done ss1)
         in if 1 < rankX then
              (case ss_GetByRank ops ss1 (rankX - 1) of
                 None \<Rightarrow> Inl NilDereference
               | Some prev \<Rightarrow>
                   if x \<le> node_value prev
                   then Inr (False, uis\<lparr>uis_ss := ss_Remove ops ss1 xS\<rparr>)
                   else finish (Some prev) (node_value prev + 1 = x))
            else finish None False))"

definition Find :: "'ss sorted_set_ops \<Rightarrow> 'ss sorted_uint32_set \<Rightarrow> uint32
    \<Rightarrow> (uis_panic, ss_node option \<times> int \<times> 'ss sorted_uint32_set) result" where
  "Find ops uis x =
     (let xS = sprintf_08x x; ss = uis_ss uis; rank = ss_FindRank ops ss xS in
      if 0 < rank then Inr (ss_GetByRank ops ss rank, rank, uis)
      else
        (let ss1 = ss_AddOrUpdate ops ss xS (uint x) x;
             rankNext = ss_FindRank ops ss1 xS;
             ss2 = ss_Remove ops ss1 xS;
             uis' = uis\<lparr>uis_ss := ss2\<rparr>
         in if 1 < rankNext then
              (case ss_GetByRank ops ss2 (rankNext - 1) of
                 None \<Rightarrow> Inl NilDereference
               | Some anode \<Rightarrow>
                   if x \<le> node_value anode then Inr (Some anode, rankNext - 1, uis')
                   else Inr (None, rankNext, uis'))
            else Inr (None, rankNext, uis')))"

definition Has :: "'ss sorted_set_ops \<Rightarrow> 'ss sorted_uint32_set \<Rightarrow> uint32
    \<Rightarrow> (uis_panic, bool \<times> 'ss sorted_uint32_set) result" where
  "Has ops uis x =
     (case Find ops uis x of
        Inl p \<Rightarrow> Inl p
      | Inr (node, _, uis') \<Rightarrow> Inr (node \<noteq> None, uis'))"

definition innerRemove :: "'ss sorted_set_ops \<Rightarrow> 'ss \<Rightarrow> uint32 \<Rightarrow> (uis_panic, bool \<times> 'ss) result" where
  "innerRemove ops ss x =
     (let xS = sprintf_08x x in
      case ss_GetByKey ops ss xS of
        Some xN \<Rightarrow>
          (let ss1 = ss_Remove ops ss xS; lastV = node_value xN in
           if x \<noteq> lastV then
             (let y = x + 1 in
              Inr (True, ss_AddOrUpdate ops ss1 (sprintf_08x y) (uint y) (node_value xN)))
           else Inr (True, ss1))
      | None \<Rightarrow>
          (let ss1 = ss_AddOrUpdate ops ss xS (uint x) x;
               rankX = ss_FindRank ops ss1 xS;
               ss2 = ss_Remove ops ss1 xS
           in if 1 < rankX then
                (case ss_GetByRank ops ss2 (rankX - 1) of
                   None \<Rightarrow> Inl NilDereference
                 | Some prev \<Rightarrow>
                     let prevLast = node_value prev in
                     if prevLast < x then Inr (False, ss2)
                     else
                       (let ss3 = ss_AddOrUpdate ops ss2 (node_key prev) (node_score prev) (x - 1) in
                        if x < prevLast then
                          (let y = x + 1 in
                           Inr (True, ss_AddOrUpdate ops ss3 (sprintf_08x y) (uint y) prevLast))
                        else Inr (True, ss3)))
              else Inr (False, ss2)))"

definition Remove :: "'ss sorted_set_ops \<Rightarrow> 'ss sorted_uint32_set \<Rightarrow> uint32
    \<Rightarrow> (uis_panic, bool \<times> 'ss sorted_uint32_set) result" where
  "Remove ops uis x =
     (case innerRemove ops (uis_ss uis) x of
        Inl p \<Rightarrow> Inl p
      | Inr (ans, ss') \<Rightarrow>
          (let uis' = uis\<lparr>uis_ss := ss'\<rparr> in
           case self_check ops uis' of Inl p \<Rightarrow> Inl p | Inr _ \<Rightarrow> Inr (ans, uis')))"

text \<open>
  \<open>rand.Intn\<close> and \<open>rand.Int63n\<close> are the arguments \<open>intn\<close> and \<open>int63n\<close>: each is called once,
  with a positive bound, and returns a number from 0 to below it.
\<close>

definition AddOneInRange :: "'ss sorted_set_ops \<Rightarrow> (int \<Rightarrow> int) \<Rightarrow> (int \<Rightarrow> int)
    \<Rightarrow> 'ss sorted_uint32_set \<Rightarrow> uint32 \<Rightarrow> uint32
    \<Rightarrow> (uis_panic, uint32 \<times> bool \<times> 'ss sorted_uint32_set) result" where
  "AddOneInRange ops intn int63n uis mn mx =
     (if mx < mn then Inr (0, False, uis)
      else
       (case Find ops uis mn of Inl p \<Rightarrow> Inl p | Inr (onMin, minR, uis1) \<Rightarrow>
       (case Find ops uis1 mx of Inl p \<Rightarrow> Inl p | Inr (onMax, maxR, uis2) \<Rightarrow>
        if onMin = onMax \<and> onMin \<noteq> None then Inr (0, False, uis2)
        else
         (let bias = (if onMin \<noteq> None then 1 else 0);
              saib = (if onMax \<noteq> None then 1 else 0);
              nGaps = 1 + maxR - minR + (if onMax \<noteq> None then 1 else 0)
          in if nGaps \<le> bias + saib then Inl (AddOneInRangeFail nGaps bias saib)
             else
              (let gapNum = bias + intn (nGaps - (bias + saib));
                   ss = uis_ss uis2;
                   lower = (if 0 < gapNum then
                              (case ss_GetByRank ops ss (minR + gapNum - 1) of
                                 None \<Rightarrow> Inl (LacksRun minR (gapNum - 1))
                               | Some prev \<Rightarrow> Inr (node_value prev + 1))
                            else Inr mn);
                   upper = (if gapNum < nGaps - 1 then
                              (case ss_GetByRank ops ss (minR + gapNum) of
                                 None \<Rightarrow> Inl (LacksRun minR gapNum)
                               | Some next \<Rightarrow> Inr (score_u32 next - 1))
                            else Inr mx)
               in case lower of Inl p \<Rightarrow> Inl p | Inr firstU \<Rightarrow>
                 (case upper of Inl p \<Rightarrow> Inl p | Inr lastU \<Rightarrow>
                  (let x = firstU + word_of_int (int63n (1 + uint (lastU - firstU))) in
                   case Add ops uis2 x of
                     Inl p \<Rightarrow> Inl p
                   | Inr (ok, uis3) \<Rightarrow>
                       if \<not> ok then Inl (AlreadyInSet x) else Inr (x, True, uis3))))))))"

text \<open>The inner loop of \<open>Export\<close>: the numbers from \<open>x\<close> to \<open>l\<close>, at least one.\<close>

function export_run :: "uint32 \<Rightarrow> uint32 \<Rightarrow> uint32 list" where
  "export_run x l = x # (if l \<le> x then [] else export_run (x + 1) l)"
  by pat_completeness auto
termination
  by (relation "measure (\<lambda>(x, l). unat l - unat x)")
     (auto simp: not_le unat_plus_one word_less_nat_alt)

declare export_run.simps [simp del]

text \<open>
  The outer loops stop at the first rank that has no node. For an arbitrary library nothing
  says there is one, so they run on fuel; \<open>None\<close> is a loop that is still running.
\<close>

fun export_loop :: "nat \<Rightarrow> 'ss sorted_set_ops \<Rightarrow> 'ss \<Rightarrow> int \<Rightarrow> uint32 list option" where
  "export_loop 0 ops ss rank = None"
| "export_loop (Suc fuel) ops ss rank =
     (case ss_GetByRank ops ss rank of
        None \<Rightarrow> Some []
      | Some node \<Rightarrow>
          map_option (\<lambda>r. export_run (score_u32 node) (node_value node) @ r)
            (export_loop fuel ops ss (rank + 1)))"

definition Export :: "nat \<Rightarrow> 'ss sorted_set_ops \<Rightarrow> 'ss sorted_uint32_set \<Rightarrow> uint32 list option" where
  "Export fuel ops uis = export_loop fuel ops (uis_ss uis) 1"

fun rexport_loop :: "nat \<Rightarrow> 'ss sorted_set_ops \<Rightarrow> 'ss \<Rightarrow> int \<Rightarrow> uint32 list option" where
  "rexport_loop 0 ops ss rank = None"
| "rexport_loop (Suc fuel) ops ss rank =
     (case ss_GetByRank ops ss rank of
        None \<Rightarrow> Some []
      | Some node \<Rightarrow>
          map_option (\<lambda>r. score_u32 node # node_value node # r)
            (rexport_loop fuel ops ss (rank + 1)))"

definition RExport :: "nat \<Rightarrow> 'ss sorted_set_ops \<Rightarrow> 'ss sorted_uint32_set \<Rightarrow> uint32 list option" where
  "RExport fuel ops uis = rexport_loop fuel ops (uis_ss uis) 1"

fun runs_text :: "uint32 list \<Rightarrow> string list" where
  "runs_text (a # b # rs) = (sprintf_08x a @ ''--'' @ sprintf_08x b) # runs_text rs"
| "runs_text rs = []"

definition uis_String :: "nat \<Rightarrow> 'ss sorted_set_ops \<Rightarrow> 'ss sorted_uint32_set \<Rightarrow> string option" where
  "uis_String fuel ops uis =
     map_option (\<lambda>runs. ''{'' @ join '', '' (runs_text runs) @ ''}'') (RExport fuel ops uis)"

end
