(* ===== verification/Uint32_Runs.thy ===== *)
theory Uint32_Runs
  imports Uint32_Sorted
begin

text \<open>
  The abstraction of a \<open>SortedUInt32Set\<close>: a list of runs \<open>(first, last)\<close> in order, with at
  least one missing number between two runs. The lemmas say what the operations of the sorted
  set library do to the nodes of such a list when it is split at a number.
\<close>

section \<open>Runs\<close>

type_synonym run = "uint32 \<times> uint32"

definition mk_node :: "run \<Rightarrow> ss_node" where
  "mk_node r = \<lparr>node_key = sprintf_08x (fst r), node_score = uint (fst r), node_value = snd r\<rparr>"

definition good_runs :: "run list \<Rightarrow> bool" where
  "good_runs rs \<longleftrightarrow> sorted_wrt (\<lambda>r s. unat (snd r) + 1 < unat (fst s)) rs \<and>
     (\<forall>r\<in>set rs. fst r \<le> snd r)"

definition runs_set :: "run list \<Rightarrow> uint32 set" where
  "runs_set rs = (\<Union>r\<in>set rs. {fst r..snd r})"

text \<open>The representation relation between a set and its runs.\<close>

definition uis_repr :: "('ss \<Rightarrow> ss_node list) \<Rightarrow> ('ss \<Rightarrow> bool) \<Rightarrow> 'ss sorted_uint32_set
    \<Rightarrow> run list \<Rightarrow> bool" where
  "uis_repr nodes invar uis rs \<longleftrightarrow>
     invar (uis_ss uis) \<and> nodes (uis_ss uis) = map mk_node rs \<and> good_runs rs"

lemma mk_node_sel [simp]:
  "node_key (mk_node r) = sprintf_08x (fst r)"
  "node_score (mk_node r) = uint (fst r)"
  "node_value (mk_node r) = snd r"
  "score_u32 (mk_node r) = fst r"
  by (simp_all add: mk_node_def score_u32_def)

lemma mk_node_inj [simp]: "mk_node r = mk_node s \<longleftrightarrow> r = s"
  by (auto simp: mk_node_def prod_eq_iff)

lemma node_less_mk [simp]: "node_less (mk_node r) (mk_node s) \<longleftrightarrow> fst r < fst s"
proof (cases "fst r = fst s")
  case False
  then have "uint (fst r) \<noteq> uint (fst s)" by (simp add: word_uint_eq_iff)
  then show ?thesis by (auto simp: node_less_def word_less_def)
qed (simp add: node_less_def)

lemma good_runs_Nil [simp]: "good_runs []"
  by (simp add: good_runs_def)

lemma good_runs_append:
  "good_runs (L @ R) \<longleftrightarrow> good_runs L \<and> good_runs R \<and>
     (\<forall>l\<in>set L. \<forall>r\<in>set R. unat (snd l) + 1 < unat (fst r))"
  by (auto simp: good_runs_def sorted_wrt_append)

lemma good_runs_Cons:
  "good_runs (r # R) \<longleftrightarrow> fst r \<le> snd r \<and> good_runs R \<and>
     (\<forall>s\<in>set R. unat (snd r) + 1 < unat (fst s))"
  by (auto simp: good_runs_def)

lemma good_runs_le: "good_runs rs \<Longrightarrow> r \<in> set rs \<Longrightarrow> fst r \<le> snd r"
  by (simp add: good_runs_def)

lemmas good_runs_simps = good_runs_append good_runs_Cons

lemma runs_set_simps [simp]:
  "runs_set [] = {}"
  "runs_set (r # R) = {fst r..snd r} \<union> runs_set R"
  "runs_set (L @ R) = runs_set L \<union> runs_set R"
  by (auto simp: runs_set_def)

lemma runs_set_bound_above: "\<forall>r\<in>set L. snd r < x \<Longrightarrow> y \<in> runs_set L \<Longrightarrow> y < x"
  by (force simp: runs_set_def)

lemma runs_set_bound_below: "\<forall>r\<in>set R. x < fst r \<Longrightarrow> y \<in> runs_set R \<Longrightarrow> x < y"
  by (force simp: runs_set_def)

section \<open>Splitting the runs at a number\<close>

lemma good_runs_sorted_fst: "good_runs rs \<Longrightarrow> sorted_wrt (\<lambda>r s. fst r < fst s) rs"
  unfolding good_runs_def
  by (rule sorted_wrt_mono_rel [where P = "\<lambda>r s. unat (snd r) + 1 < unat (fst s)"])
     (auto simp: word_to_nat)

lemma dropWhile_ge:
  "sorted_wrt (\<lambda>r s. fst r < fst s) rs \<Longrightarrow> r \<in> set (dropWhile (\<lambda>r. fst r < (x::uint32)) rs) \<Longrightarrow>
   x \<le> fst r"
  by (induction rs) (auto split: if_splits simp: not_less)

text \<open>
  Where a number stands with respect to the runs: it is the first of a run, or inside a run
  but not its first, or in the gap between \<open>L\<close> and \<open>R\<close>.
\<close>

lemma runs_cases [consumes 1, case_names first inside gap]:
  assumes "good_runs rs"
  obtains (first) L b R where "rs = L @ (x, b) # R"
  | (inside) L a b R where "rs = L @ (a, b) # R" "a < x" "x \<le> b"
  | (gap) L R where "rs = L @ R" "\<forall>r\<in>set L. snd r < x" "\<forall>r\<in>set R. x < fst r"
proof -
  let ?L = "takeWhile (\<lambda>r. fst r < x) rs" and ?R = "dropWhile (\<lambda>r. fst r < x) rs"
  have rs: "rs = ?L @ ?R" by simp
  have sorted: "sorted_wrt (\<lambda>r s. fst r < fst s) rs" using assms by (rule good_runs_sorted_fst)
  have Lx: "\<And>r. r \<in> set ?L \<Longrightarrow> fst r < x" by (auto dest: set_takeWhileD)
  have Rx: "\<And>r. r \<in> set ?R \<Longrightarrow> x \<le> fst r" using dropWhile_ge [OF sorted] .
  show thesis
  proof (cases "\<exists>r\<in>set ?R. fst r = x")
    case True
    then obtain b A B where "?R = A @ (x, b) # B" by (metis prod.collapse split_list)
    with rs have "rs = (?L @ A) @ (x, b) # B" by (metis append_assoc)
    then show thesis by (rule first)
  next
    case False
    then have Rgt: "\<forall>r\<in>set ?R. x < fst r" using Rx by (metis order_le_less)
    show thesis
    proof (cases "\<exists>r\<in>set ?L. x \<le> snd r")
      case True
      then obtain a b A B where ab: "?L = A @ (a, b) # B" "x \<le> b"
        by (metis prod.collapse split_list snd_conv)
      moreover from ab have "a < x" using Lx [of "(a, b)"] by simp
      moreover have "rs = A @ (a, b) # (B @ ?R)" using rs ab by (metis append_assoc append_Cons)
      ultimately show thesis by (metis inside)
    next
      case False
      then have "\<forall>r\<in>set ?L. snd r < x" by (meson not_less)
      with rs Rgt show thesis by (metis gap)
    qed
  qed
qed

lemma gap_notin:
  assumes "\<forall>r\<in>set L. snd r < x" "\<forall>r\<in>set R. x < fst r"
  shows "x \<notin> runs_set (L @ R)"
  using runs_set_bound_above [OF assms(1)] runs_set_bound_below [OF assms(2)] by auto

lemma good_left_less:
  assumes "good_runs (L @ (a, b) # R)" "r \<in> set L"
  shows "fst r < a \<and> snd r < a"
proof -
  have "fst r \<le> snd r" "unat (snd r) + 1 < unat a"
    using assms by (auto simp: good_runs_def sorted_wrt_append)
  then show ?thesis by (simp add: word_to_nat)
qed

lemma good_right_greater:
  assumes "good_runs (L @ (a, b) # R)" "r \<in> set R"
  shows "a < fst r \<and> b < fst r"
proof -
  have "a \<le> b" "unat b + 1 < unat (fst r)" using assms by (auto simp: good_runs_simps)
  then show ?thesis by (simp add: word_to_nat)
qed

section \<open>Library operations on split runs\<close>

lemma takeWhile_split: "\<forall>r\<in>set L. P r \<Longrightarrow> R = [] \<or> \<not> P (hd R) \<Longrightarrow> takeWhile P (L @ R) = L"
  by (cases R) (auto simp: takeWhile_append2)

lemma dropWhile_split: "\<forall>r\<in>set L. P r \<Longrightarrow> R = [] \<or> \<not> P (hd R) \<Longrightarrow> dropWhile P (L @ R) = R"
  by (cases R) (auto simp: dropWhile_append2)

lemma ins_node_split [run_simps]:
  assumes "\<forall>r\<in>set L. fst r < a" "\<forall>r\<in>set R. a < fst r"
  shows "ins_node (mk_node (a, v)) (map mk_node (L @ R)) = map mk_node (L @ (a, v) # R)"
proof -
  have "R = [] \<or> \<not> fst (hd R) < a" using assms(2) by (cases R) auto
  with assms(1) have "takeWhile (\<lambda>r. fst r < a) (L @ R) = L" "dropWhile (\<lambda>r. fst r < a) (L @ R) = R"
    by (rule takeWhile_split, rule dropWhile_split)
  then show ?thesis
    by (simp only: ins_node_def takeWhile_map dropWhile_map comp_def node_less_mk fst_conv) simp
qed

lemma del_key_other: "a \<notin> fst ` set rs \<Longrightarrow> del_key (sprintf_08x a) (map mk_node rs) = map mk_node rs"
  by (induction rs) (auto simp: del_key_def)

lemma del_key_append: "del_key k (xs @ ys) = del_key k xs @ del_key k ys"
  by (simp add: del_key_def)

lemma del_key_split [run_simps]:
  assumes "\<forall>r\<in>set L. fst r < a" "\<forall>r\<in>set R. a < fst r"
  shows "del_key (sprintf_08x a) (map mk_node (L @ (a, v) # R)) = map mk_node (L @ R)"
proof -
  have "a \<notin> fst ` set L" "a \<notin> fst ` set R" using assms by fastforce+
  then show ?thesis by (simp add: del_key_append del_key_other) (simp add: del_key_def del_key_other [unfolded del_key_def])
qed

lemma find_key_split [run_simps]:
  "\<forall>r\<in>set L. fst r < a \<Longrightarrow>
   find_key (sprintf_08x a) (map mk_node (L @ (a, v) # R)) = Some (mk_node (a, v))"
  by (induction L) (auto simp: find_key_def)

lemma find_key_none [run_simps]:
  "a \<notin> fst ` set rs \<Longrightarrow> find_key (sprintf_08x a) (map mk_node rs) = None"
  by (induction rs) (auto simp: find_key_def)

lemma rank_of_none [run_simps]:
  "a \<notin> fst ` set rs \<Longrightarrow> rank_of (sprintf_08x a) (map mk_node rs) = 0"
  by (force simp: rank_of_def)

lemma rank_of_split [run_simps]:
  assumes "\<forall>r\<in>set L. fst r < a"
  shows "rank_of (sprintf_08x a) (map mk_node (L @ (a, v) # R)) = int (length L) + 1"
proof -
  have "takeWhile (\<lambda>r. fst r \<noteq> a) (L @ (a, v) # R) = L"
    using assms by (intro takeWhile_split) auto
  then show ?thesis
    by (simp add: rank_of_def takeWhile_map comp_def del: map_append)
qed

lemma at_rank_nth [run_simps]:
  "r = int (length L) + 1 \<Longrightarrow> at_rank (map mk_node (L @ s # R)) r = Some (mk_node s)"
  by (simp add: at_rank_def nth_append)

lemma at_rank_beyond [run_simps]:
  "int (length rs) < r \<Longrightarrow> at_rank (map mk_node rs) r = None"
  by (simp add: at_rank_def)

section \<open>Adding a number in a gap\<close>

text \<open>Facts about intervals of words, moved to their natural numbers.\<close>

lemma unat_interval: "y \<in> {a..b} \<longleftrightarrow> unat a \<le> unat y \<and> unat y \<le> unat (b::uint32)"
  by (simp add: word_to_nat)

lemma interval_snoc:
  assumes "a \<le> b" "(b::uint32) < x" "b + 1 = x"
  shows "{a..x} = insert x {a..b}"
proof -
  have "unat x = unat b + 1" using assms unat_plus_one [of b x] by simp
  with assms show ?thesis by (auto simp: word_to_nat word_unat_eq_iff)
qed

lemma interval_Cons:
  assumes "(x::uint32) < c" "c \<le> d" "x + 1 = c"
  shows "{x..d} = insert x {c..d}"
proof -
  have "unat c = unat x + 1" using assms unat_plus_one [of x c] by simp
  with assms show ?thesis by (auto simp: word_to_nat word_unat_eq_iff)
qed

lemma interval_join:
  assumes "a \<le> b" "(b::uint32) < x" "b + 1 = x" "x < c" "c \<le> d" "x + 1 = c"
  shows "{a..d} = insert x ({a..b} \<union> {c..d})"
proof -
  have "unat x = unat b + 1" "unat c = unat x + 1"
    using assms unat_plus_one [of b x] unat_plus_one [of x c] by simp_all
  with assms show ?thesis by (auto simp: word_to_nat word_unat_eq_iff)
qed

definition add_runs :: "run list \<Rightarrow> uint32 \<Rightarrow> run list \<Rightarrow> run list" where
  "add_runs L x R =
     (let mp = (L \<noteq> [] \<and> snd (last L) + 1 = x); mn = (R \<noteq> [] \<and> x + 1 = fst (hd R)) in
      if mp \<and> mn then butlast L @ (fst (last L), snd (hd R)) # tl R
      else if mp then butlast L @ (fst (last L), x) # R
      else if mn then L @ (x, snd (hd R)) # tl R
      else L @ (x, x) # R)"

lemma add_runs_set:
  assumes "good_runs (L @ R)" "\<forall>r\<in>set L. snd r < x" "\<forall>r\<in>set R. x < fst r"
  shows "runs_set (add_runs L x R) = insert x (runs_set (L @ R))"
proof -
  have le: "\<And>r. r \<in> set (L @ R) \<Longrightarrow> fst r \<le> snd r" using assms(1) good_runs_le by blast
  show ?thesis
  proof (cases L rule: rev_cases; cases R)
    fix L' l r R'
    assume "L = L' @ [l]" "R = r # R'"
    with assms(2,3) le show ?thesis
      using interval_join [of "fst l" "snd l" x "fst r" "snd r"]
        interval_snoc [of "fst l" "snd l" x] interval_Cons [of x "fst r" "snd r"]
      by (auto simp: add_runs_def Let_def)
  next
    fix L' l
    assume "L = L' @ [l]" "R = []"
    with assms(2,3) le show ?thesis
      using interval_snoc [of "fst l" "snd l" x] by (auto simp: add_runs_def Let_def)
  next
    fix r R'
    assume "L = []" "R = r # R'"
    with assms(2,3) le show ?thesis
      using interval_Cons [of x "fst r" "snd r"] by (auto simp: add_runs_def Let_def)
  qed (auto simp: add_runs_def Let_def)
qed

lemma gap_nat_left:
  assumes "(b::uint32) < x" "b + 1 \<noteq> x"
  shows "unat b + 1 < unat x"
proof -
  have "unat (b + 1) = unat b + 1" using assms(1) by (rule unat_plus_one)
  with assms show ?thesis by (simp add: word_to_nat word_unat_eq_iff)
qed

lemma add_runs_good:
  assumes good: "good_runs (L @ R)" and L: "\<forall>r\<in>set L. snd r < x" and R: "\<forall>r\<in>set R. x < fst r"
  shows "good_runs (add_runs L x R)"
proof -
  have le: "\<And>r. r \<in> set (L @ R) \<Longrightarrow> fst r \<le> snd r" using good good_runs_le by blast
  have Lgap: "unat (snd l) + 1 < unat x" if "l \<in> set L" "L = L' @ [m] \<and> l \<in> set L' \<or> snd l + 1 \<noteq> x" for l L' m
  proof (cases "snd l + 1 = x")
    case True
    with that have "L = L' @ [m]" "l \<in> set L'" by auto
    with good have "unat (snd l) + 1 < unat (fst m)" "fst m \<le> snd m" "snd m < x"
      using L by (auto simp: good_runs_simps)
    then show ?thesis by (simp add: word_to_nat)
  next
    case False
    with that(1) L show ?thesis by (intro gap_nat_left) auto
  qed
  have Rgap: "unat x + 1 < unat (fst r)" if "r \<in> set R" "R = m # R' \<and> r \<in> set R' \<or> x + 1 \<noteq> fst r" for r R' m
  proof (cases "x + 1 = fst r")
    case True
    with that have "R = m # R'" "r \<in> set R'" by auto
    with good have "unat (snd m) + 1 < unat (fst r)" "fst m \<le> snd m" "x < fst m"
      using R by (auto simp: good_runs_simps)
    then show ?thesis by (simp add: word_to_nat)
  next
    case False
    with that(1) R show ?thesis by (intro gap_nat_left) auto
  qed
  show ?thesis
  proof (cases L rule: rev_cases; cases R)
    fix L' l r R'
    assume *: "L = L' @ [l]" "R = r # R'"
    have "fst l \<le> snd l" "fst r \<le> snd r" "snd l < x" "x < fst r" using * le L R by auto
    with good * show ?thesis
      using Lgap [of _ L' l] Rgap [of _ r R'] Lgap [of l L l] Rgap [of r r R]
      by (auto simp: add_runs_def Let_def good_runs_simps word_to_nat)
  next
    fix L' l
    assume *: "L = L' @ [l]" "R = []"
    have "fst l \<le> snd l" "snd l < x" using * le L by auto
    with good * show ?thesis
      using Lgap [of _ L' l] Lgap [of l L l]
      by (auto simp: add_runs_def Let_def good_runs_simps word_to_nat)
  next
    fix r R'
    assume *: "L = []" "R = r # R'"
    have "fst r \<le> snd r" "x < fst r" using * le R by auto
    with good * show ?thesis
      using Rgap [of _ r R'] Rgap [of r r R]
      by (auto simp: add_runs_def Let_def good_runs_simps word_to_nat)
  qed (auto simp: add_runs_def Let_def good_runs_simps)
qed

section \<open>Removing a number\<close>

lemma interval_tail:
  assumes "(x::uint32) < b"
  shows "{x..b} - {x} = {x + 1..b}" and "x < x + 1" and "x + 1 \<le> b"
proof -
  have "unat (x + 1) = unat x + 1" using assms by (rule unat_plus_one)
  with assms show "{x..b} - {x} = {x + 1..b}" "x < x + 1" "x + 1 \<le> b"
    by (auto simp: word_to_nat word_unat_eq_iff)
qed

lemma interval_insert: "(x::uint32) < b \<Longrightarrow> {x..b} = insert x {x + 1..b}"
  using interval_tail(1) [of x b] insert_Diff [of x "{x..b}"] by simp

lemma interval_init:
  assumes "(a::uint32) < x"
  shows "{a..x} - {x} = {a..x - 1}" and "x - 1 < x" and "a \<le> x - 1"
proof -
  have "0 < x" using assms by (metis word_gt_0 word_not_simps(1))
  then have "unat (x - 1) = unat x - 1" "0 < unat x"
    by (simp_all add: unat_minus_one32 unat_gt_0 word_gt_0)
  with assms show "{a..x} - {x} = {a..x - 1}" "x - 1 < x" "a \<le> x - 1"
    by (auto simp: word_to_nat word_unat_eq_iff)
qed

lemma interval_init_insert: "(a::uint32) < x \<Longrightarrow> {a..x} = insert x {a..x - 1}"
  using interval_init(1) [of a x] insert_Diff [of x "{a..x}"] by simp

lemma interval_punch:
  assumes "(a::uint32) < x" "x < b"
  shows "{a..b} - {x} = {a..x - 1} \<union> {x + 1..b}"
proof -
  have "{a..b} = {a..x} \<union> {x..b}" using assms by auto
  then show ?thesis using interval_init [OF assms(1)] interval_tail [OF assms(2)] by auto
qed

lemma good_runs_disjoint:
  assumes "good_runs (L @ (a, b) # R)" "a \<le> x" "x \<le> b"
  shows "x \<notin> runs_set L" "x \<notin> runs_set R"
proof -
  have "\<forall>r\<in>set L. snd r < x"
    using good_left_less [OF assms(1)] assms(2) by (meson order.strict_trans2)
  then show "x \<notin> runs_set L" using runs_set_bound_above [of L x x] by blast
  have "\<forall>r\<in>set R. x < fst r"
    using good_right_greater [OF assms(1)] assms(3) by (meson order.strict_trans1)
  then show "x \<notin> runs_set R" using runs_set_bound_below [of R x x] by blast
qed

text \<open>The runs that replace the run \<open>(a, b)\<close> when \<open>x\<close> is taken out of it.\<close>

definition punch :: "uint32 \<Rightarrow> uint32 \<Rightarrow> uint32 \<Rightarrow> run list" where
  "punch a x b = (if a < x then [(a, x - 1)] else []) @ (if x < b then [(x + 1, b)] else [])"

lemma punch_set:
  assumes "a \<le> x" "x \<le> b"
  shows "runs_set (punch a x b) = {a..b} - {x}"
proof -
  consider "a = x" "x = b" | "a = x" "x < b" | "a < x" "x = b" | "a < x" "x < b"
    using assms by force
  then show ?thesis
    by cases (auto simp: punch_def interval_tail interval_init interval_punch)
qed

lemma punch_bounds: "a \<le> x \<Longrightarrow> x \<le> b \<Longrightarrow> r \<in> set (punch a x b) \<Longrightarrow> a \<le> fst r \<and> snd r \<le> b"
  using interval_init(2) [of a x] interval_tail(2) [of x b]
  by (auto simp: punch_def split: if_splits)

lemma good_runs_punch:
  assumes "a \<le> x" "x \<le> b"
  shows "good_runs (punch a x b)"
proof -
  have "unat (x - 1) + 1 < unat (x + 1)" if "a < x" "x < b"
  proof -
    have "unat (x + 1) = unat x + 1" using that(2) by (rule unat_plus_one)
    moreover have "unat (x - 1) < unat x" using interval_init(2) [OF that(1)] by (simp add: word_to_nat)
    ultimately show ?thesis by simp
  qed
  then show ?thesis using interval_init(3) [of a x] interval_tail(3) [of x b]
    by (auto simp: punch_def good_runs_simps)
qed

lemma punch_runs:
  assumes good: "good_runs (L @ (a, b) # R)" and x: "a \<le> x" "x \<le> b"
  shows "good_runs (L @ punch a x b @ R)"
    and "runs_set (L @ punch a x b @ R) = runs_set (L @ (a, b) # R) - {x}"
proof -
  have "unat (snd l) + 1 < unat (fst r)" if "l \<in> set L" "r \<in> set (punch a x b)" for l r
    using good punch_bounds [OF x that(2)] that(1) by (fastforce simp: good_runs_simps word_to_nat)
  moreover have "unat (snd r) + 1 < unat (fst s)" if "s \<in> set R" "r \<in> set (punch a x b)" for r s
    using good punch_bounds [OF x that(2)] that(1) by (fastforce simp: good_runs_simps word_to_nat)
  ultimately show "good_runs (L @ punch a x b @ R)"
    using good good_runs_punch [OF x] by (auto simp: good_runs_simps)
  show "runs_set (L @ punch a x b @ R) = runs_set (L @ (a, b) # R) - {x}"
    using good_runs_disjoint [OF good x] punch_set [OF x] by auto
qed

end
