(* ===== verification/Uint32_Correct.thy ===== *)
theory Uint32_Correct
  imports Uint32_Runs
begin

text \<open>
  Correctness of the operations of \<open>SortedUInt32Set\<close>, for every implementation of the sorted
  set library that keeps its contract: on a set that represents the runs \<open>rs\<close> no operation
  panics, the answer is the one the interface \<open>UInt32Set\<close> documents, and the new state
  represents runs for exactly the expected numbers.
\<close>

section \<open>Single library calls on represented runs\<close>

context sorted_set
begin

lemma nodes_ins [run_simps]:
  assumes "invar ss" "nodes ss = map mk_node (L @ R)"
    and "\<forall>r\<in>set L. fst r < a" "\<forall>r\<in>set R. a < fst r"
  shows "nodes (ss_AddOrUpdate ops ss (sprintf_08x a) (uint a) v) = map mk_node (L @ (a, v) # R)"
proof -
  have "a \<notin> fst ` set (L @ R)" using assms(3,4) by fastforce
  then have "del_key (sprintf_08x a) (nodes ss) = map mk_node (L @ R)"
    using assms(2) del_key_other by metis
  then show ?thesis
    using assms ins_node_split [of L a R v] by (simp add: nodes_AddOrUpdate mk_node_def del: map_append)
qed

lemma nodes_upd [run_simps]:
  assumes "invar ss" "nodes ss = map mk_node (L @ (a, u) # R)"
    and "\<forall>r\<in>set L. fst r < a" "\<forall>r\<in>set R. a < fst r"
  shows "nodes (ss_AddOrUpdate ops ss (sprintf_08x a) (uint a) v) = map mk_node (L @ (a, v) # R)"
proof -
  have "del_key (sprintf_08x a) (nodes ss) = map mk_node (L @ R)"
    using assms del_key_split by metis
  then show ?thesis
    using assms ins_node_split [of L a R v] by (simp add: nodes_AddOrUpdate mk_node_def del: map_append)
qed

lemma nodes_del [run_simps]:
  assumes "invar ss" "nodes ss = map mk_node (L @ (a, u) # R)"
    and "\<forall>r\<in>set L. fst r < a" "\<forall>r\<in>set R. a < fst r"
  shows "nodes (ss_Remove ops ss (sprintf_08x a)) = map mk_node (L @ R)"
  using assms del_key_split by (metis nodes_Remove)

section \<open>The self checks never fail\<close>

lemma check_loop_ok:
  assumes "invar ss" "nodes ss = map mk_node rs" "good_runs rs"
    and "1 \<le> i" "i \<le> length rs"
  shows "check_loop ops ss (int (length rs)) (int i + 1) (mk_node (rs ! (i - 1))) =
    Inr (mk_node (last rs))"
  using assms(4,5)
proof (induction "length rs - i" arbitrary: i)
  case 0
  then have "i = length rs" by simp
  moreover have "rs \<noteq> []" using 0 by auto
  ultimately show ?case by (simp add: check_loop.simps last_conv_nth)
next
  case (Suc k)
  then have i: "i < length rs" by simp
  have at: "ss_GetByRank ops ss (int i + 1) = Some (mk_node (rs ! i))"
    using assms i by (simp add: GetByRank at_rank_def)
  have "unat (snd (rs ! (i - 1))) + 1 < unat (fst (rs ! i))"
    using assms(3) Suc.prems i unfolding good_runs_def
    by (metis (no_types, lifting) One_nat_def Suc_pred less_le_trans lessI less_imp_diff_less
        sorted_wrt_nth_less zero_less_one)
  moreover from this have "\<not> fst (rs ! i) \<le> snd (rs ! (i - 1)) + 1"
    using unat_plus_one [of "snd (rs ! (i - 1))" "fst (rs ! i)"] by (simp add: word_to_nat)
  moreover have "fst (rs ! i) \<le> snd (rs ! i)" using assms(3) i by (simp add: good_runs_def)
  moreover have "check_loop ops ss (int (length rs)) (int i + 1 + 1) (mk_node (rs ! i)) =
      Inr (mk_node (last rs))"
    using Suc.hyps(1) [of "Suc i"] Suc.hyps(2) i by (simp add: add.commute)
  ultimately show ?case using i at by (subst check_loop.simps) (simp add: not_less)
qed

lemma Check_ok: "uis_repr nodes invar uis rs \<Longrightarrow> Check ops hard uis = Inr ()"
proof -
  assume r: "uis_repr nodes invar uis rs"
  define ss where "ss = uis_ss uis"
  have inv: "invar ss" and ns: "nodes ss = map mk_node rs" and good: "good_runs rs"
    using r by (simp_all add: uis_repr_def ss_def)
  have count: "ss_GetCount ops ss = int (length rs)" using inv ns by (simp add: GetCount)
  have beyond: "ss_GetByRank ops ss (int (length rs) + 1) = None"
    using inv ns by (simp add: GetByRank at_rank_def)
  show ?thesis
  proof (cases rs)
    case Nil
    then show ?thesis using inv ns count by (simp add: Check_def ss_def GetByRank at_rank_def)
  next
    case (Cons r rs')
    have ok: "fst r \<le> snd r" "fst (last rs) \<le> snd (last rs)"
      using good Cons by (auto simp: good_runs_def)
    have one: "ss_GetByRank ops ss 1 = Some (mk_node r)"
      using inv ns Cons by (simp add: GetByRank at_rank_def)
    have last: "ss_GetByRank ops ss (int (length rs)) = Some (mk_node (last rs))"
      using inv ns Cons by (simp add: GetByRank at_rank_def last_conv_nth nat_diff_distrib)
    have loop: "check_loop ops ss (int (length rs)) 2 (mk_node r) = Inr (mk_node (last rs))"
      using check_loop_ok [OF inv ns good, of 1] Cons by simp
    show ?thesis using count beyond one last loop ok Cons
      by (simp add: Check_def ss_def [symmetric] Let_def not_less)
  qed
qed

lemma self_check_ok: "uis_repr nodes invar uis rs \<Longrightarrow> self_check ops uis = Inr ()"
  by (simp add: self_check_def Check_ok)

lemma repr_update:
  "invar ss \<Longrightarrow> nodes ss = map mk_node rs \<Longrightarrow> good_runs rs \<Longrightarrow>
   uis_repr nodes invar (uis\<lparr>uis_ss := ss\<rparr>) rs"
  by (simp add: uis_repr_def)

section \<open>Find and Has\<close>

lemma Find_first:
  assumes "uis_repr nodes invar uis (L @ (x, b) # R)"
  shows "Find ops uis x = Inr (Some (mk_node (x, b)), int (length L) + 1, uis)"
proof -
  define ss where "ss = uis_ss uis"
  have inv: "invar ss" and ns: "nodes ss = map mk_node (L @ (x, b) # R)"
    and good: "good_runs (L @ (x, b) # R)"
    using assms by (simp_all add: uis_repr_def ss_def)
  have L: "\<forall>r\<in>set L. fst r < x" using good_left_less [OF good] by blast
  have "ss_FindRank ops ss (sprintf_08x x) = int (length L) + 1"
    using inv ns rank_of_split [OF L] by (simp add: FindRank del: map_append)
  moreover have "ss_GetByRank ops ss (int (length L) + 1) = Some (mk_node (x, b))"
    using inv ns at_rank_nth [of _ L "(x, b)" R] by (simp add: GetByRank del: map_append)
  ultimately show ?thesis by (simp add: Find_def ss_def [symmetric])
qed

text \<open>When \<open>x\<close> is not the first of a run, \<open>Find\<close> inserts it, reads its rank and removes it.\<close>

lemma probe:
  assumes "invar ss" "nodes ss = map mk_node (L @ R)"
    and "\<forall>r\<in>set L. fst r < x" "\<forall>r\<in>set R. x < fst r"
  shows "ss_FindRank ops ss (sprintf_08x x) = 0"
    and "ss_GetByKey ops ss (sprintf_08x x) = None"
    and "invar (ss_AddOrUpdate ops ss (sprintf_08x x) (uint x) x)"
    and "nodes (ss_AddOrUpdate ops ss (sprintf_08x x) (uint x) x) = map mk_node (L @ (x, x) # R)"
    and "ss_FindRank ops (ss_AddOrUpdate ops ss (sprintf_08x x) (uint x) x) (sprintf_08x x)
      = int (length L) + 1"
    and "invar (ss_Remove ops (ss_AddOrUpdate ops ss (sprintf_08x x) (uint x) x) (sprintf_08x x))"
    and "nodes (ss_Remove ops (ss_AddOrUpdate ops ss (sprintf_08x x) (uint x) x) (sprintf_08x x))
      = map mk_node (L @ R)"
proof -
  have notin: "x \<notin> fst ` set (L @ R)" using assms(3,4) by fastforce
  show "ss_FindRank ops ss (sprintf_08x x) = 0" "ss_GetByKey ops ss (sprintf_08x x) = None"
    using assms(1,2) rank_of_none [OF notin] find_key_none [OF notin]
    by (simp_all add: FindRank GetByKey del: map_append)
  show inv: "invar (ss_AddOrUpdate ops ss (sprintf_08x x) (uint x) x)"
    using assms(1) by (rule invar_AddOrUpdate)
  show ns: "nodes (ss_AddOrUpdate ops ss (sprintf_08x x) (uint x) x) = map mk_node (L @ (x, x) # R)"
    using assms by (rule nodes_ins)
  show "ss_FindRank ops (ss_AddOrUpdate ops ss (sprintf_08x x) (uint x) x) (sprintf_08x x)
      = int (length L) + 1"
    using inv ns rank_of_split [OF assms(3)] by (simp add: FindRank del: map_append)
  show "invar (ss_Remove ops (ss_AddOrUpdate ops ss (sprintf_08x x) (uint x) x) (sprintf_08x x))"
    using inv by (rule invar_Remove)
  show "nodes (ss_Remove ops (ss_AddOrUpdate ops ss (sprintf_08x x) (uint x) x) (sprintf_08x x))
      = map mk_node (L @ R)"
    using inv ns assms(3,4) by (rule nodes_del)
qed

lemma Find_inside:
  assumes r: "uis_repr nodes invar uis (L @ (a, b) # R)" and "a < x" "x \<le> b"
  shows "\<exists>uis'. Find ops uis x = Inr (Some (mk_node (a, b)), int (length L) + 1, uis') \<and>
    uis_repr nodes invar uis' (L @ (a, b) # R) \<and> CheckLevel uis' = CheckLevel uis"
proof -
  define ss where "ss = uis_ss uis"
  have inv: "invar ss" and ns: "nodes ss = map mk_node ((L @ [(a, b)]) @ R)"
    and good: "good_runs (L @ (a, b) # R)"
    using r by (simp_all add: uis_repr_def ss_def)
  have L: "\<forall>r\<in>set (L @ [(a, b)]). fst r < x"
    using good_left_less [OF good] assms(2) by (auto intro: order.strict_trans)
  have R: "\<forall>r\<in>set R. x < fst r"
    using good_right_greater [OF good] assms(3) by fastforce
  note p = probe [OF inv ns L R]
  have "ss_GetByRank ops (ss_Remove ops (ss_AddOrUpdate ops ss (sprintf_08x x) (uint x) x)
      (sprintf_08x x)) (1 + int (length L)) = Some (mk_node (a, b))"
    using p(6,7) at_rank_nth [of "1 + int (length L)" L "(a, b)" R] by (simp add: GetByRank)
  then show ?thesis
    using p(1,5) assms(3) repr_update [OF p(6,7), of uis] good
    by (simp add: Find_def ss_def [symmetric] Let_def)
qed

lemma Find_gap:
  assumes r: "uis_repr nodes invar uis (L @ R)"
    and "\<forall>r\<in>set L. snd r < x" "\<forall>r\<in>set R. x < fst r"
  shows "\<exists>uis'. Find ops uis x = Inr (None, int (length L) + 1, uis') \<and>
    uis_repr nodes invar uis' (L @ R) \<and> CheckLevel uis' = CheckLevel uis"
proof -
  define ss where "ss = uis_ss uis"
  have inv: "invar ss" and ns: "nodes ss = map mk_node (L @ R)" and good: "good_runs (L @ R)"
    using r by (simp_all add: uis_repr_def ss_def)
  have L: "\<forall>r\<in>set L. fst r < x"
    using good_runs_le [OF good] assms(2) by (auto intro: order.strict_trans1)
  note p = probe [OF inv ns L assms(3)]
  show ?thesis
  proof (cases L rule: rev_cases)
    case Nil
    then show ?thesis using p(1,5) repr_update [OF p(6,7) good, of uis]
      by (simp add: Find_def ss_def [symmetric] Let_def)
  next
    case (snoc L' l)
    then have "ss_GetByRank ops (ss_Remove ops (ss_AddOrUpdate ops ss (sprintf_08x x) (uint x) x)
      (sprintf_08x x)) (1 + int (length L')) = Some (mk_node l)"
      using p(6,7) at_rank_nth [of "1 + int (length L')" L' l R] by (simp add: GetByRank)
    moreover have "\<not> x \<le> snd l" using assms(2) snoc by auto
    ultimately show ?thesis using p(1,5) repr_update [OF p(6,7) good, of uis] snoc
      by (simp add: Find_def ss_def [symmetric] Let_def)
  qed
qed

lemma Has_correct:
  assumes "uis_repr nodes invar uis rs"
  shows "\<exists>uis'. Has ops uis x = Inr (x \<in> runs_set rs, uis') \<and> uis_repr nodes invar uis' rs"
proof -
  have good: "good_runs rs" using assms by (simp add: uis_repr_def)
  from good show ?thesis
  proof (cases rule: runs_cases [where x = x])
    case (first L b R)
    moreover have "x \<le> b" using good first by (simp add: good_runs_simps)
    ultimately show ?thesis using Find_first [of uis L x b R] assms by (simp add: Has_def)
  next
    case (inside L a b R)
    then show ?thesis using Find_inside [of uis L a b R x] assms by (auto simp: Has_def)
  next
    case (gap L R)
    then show ?thesis using Find_gap [of uis L R x] assms gap_notin [of L x R] by (auto simp: Has_def)
  qed
qed

section \<open>Add\<close>

lemma Add_member:
  assumes r: "uis_repr nodes invar uis rs" and "x \<in> runs_set rs"
  shows "\<exists>uis'. Add ops uis x = Inr (False, uis') \<and> uis_repr nodes invar uis' rs \<and>
    CheckLevel uis' = CheckLevel uis"
proof -
  define ss where "ss = uis_ss uis"
  have inv: "invar ss" and ns: "nodes ss = map mk_node rs" and good: "good_runs rs"
    using r by (simp_all add: uis_repr_def ss_def)
  from good show ?thesis
  proof (cases rule: runs_cases [where x = x])
    case (first L b R)
    then have "\<forall>r\<in>set L. fst r < x" using good good_left_less by blast
    then have "ss_GetByKey ops ss (sprintf_08x x) = Some (mk_node (x, b))"
      using inv ns first find_key_split [of L x b R] by (simp add: GetByKey del: map_append)
    with r show ?thesis by (simp add: Add_def ss_def [symmetric])
  next
    case (inside L a b R)
    have L: "\<forall>r\<in>set (L @ [(a, b)]). fst r < x" and R: "\<forall>r\<in>set R. x < fst r"
      using good_left_less [of L a b R] good_right_greater [of L a b R] good inside
      by (auto intro: order.strict_trans order.strict_trans1)
    note p = probe [OF inv _ L R]
    have "ss_GetByRank ops (ss_AddOrUpdate ops ss (sprintf_08x x) (uint x) x) (1 + int (length L))
        = Some (mk_node (a, b))"
      using p(3,4) ns inside at_rank_nth [of "1 + int (length L)" L "(a, b)" "(x, x) # R"]
      by (simp add: GetByRank)
    with inside p(2,5) ns repr_update [OF p(6,7), of uis] good show ?thesis
      by (simp add: Add_def ss_def [symmetric] Let_def)
  next
    case (gap L R)
    with assms(2) gap_notin show ?thesis by blast
  qed
qed

text \<open>The nodes after each way of merging a new number with its neighbours.\<close>

lemma merge_prev:
  assumes "invar ss" "nodes ss = map mk_node (L @ l # R)" "good_runs (L @ l # R)"
  shows "nodes (ss_AddOrUpdate ops ss (sprintf_08x (fst l)) (uint (fst l)) v) =
    map mk_node (L @ (fst l, v) # R)"
  using assms nodes_upd [of ss L "fst l" "snd l" R v]
    good_left_less [of L "fst l" "snd l" R] good_right_greater [of L "fst l" "snd l" R]
  by simp

lemma merge_next:
  assumes "invar ss" "nodes ss = map mk_node (L @ (x, x) # r # R)" "good_runs (L @ r # R)"
    and "\<forall>r\<in>set L. fst r < x" "x < fst r"
  shows "nodes (ss_AddOrUpdate ops (ss_Remove ops ss (sprintf_08x (fst r))) (sprintf_08x x) (uint x) v) =
    map mk_node (L @ (x, v) # R)"
proof -
  have R: "\<forall>s\<in>set R. fst r < fst s" and L: "\<forall>s\<in>set L. fst s < fst r"
    using assms(3) good_left_less [of L "fst r" "snd r" R] good_right_greater [of L "fst r" "snd r" R]
    by simp_all
  then have "nodes (ss_Remove ops ss (sprintf_08x (fst r))) = map mk_node (L @ (x, x) # R)"
    using nodes_del [of ss "L @ [(x, x)]" "fst r" "snd r" R] assms by simp
  moreover have "\<forall>s\<in>set R. x < fst s" using R assms(5) by (auto intro: order.strict_trans)
  ultimately show ?thesis using assms by (intro nodes_upd) (auto intro: invar_Remove)
qed

lemma drop_next:
  assumes "invar ss" "nodes ss = map mk_node (L @ r # R)" "good_runs (L @ r # R)"
  shows "nodes (ss_Remove ops ss (sprintf_08x (fst r))) = map mk_node (L @ R)"
  using assms nodes_del [of ss L "fst r" "snd r" R]
    good_left_less [of L "fst r" "snd r" R] good_right_greater [of L "fst r" "snd r" R]
  by simp

lemma Add_gap:
  assumes r: "uis_repr nodes invar uis (L @ R)"
    and Lx: "\<forall>r\<in>set L. snd r < x" and Rx: "\<forall>r\<in>set R. x < fst r"
  shows "\<exists>uis'. Add ops uis x = Inr (True, uis') \<and> uis_repr nodes invar uis' (add_runs L x R) \<and>
    CheckLevel uis' = CheckLevel uis"
proof -
  define ss where "ss = uis_ss uis"
  have inv: "invar ss" and ns: "nodes ss = map mk_node (L @ R)" and good: "good_runs (L @ R)"
    using r by (simp_all add: uis_repr_def ss_def)
  have L: "\<forall>r\<in>set L. fst r < x"
    using good_runs_le [OF good] Lx by (auto intro: order.strict_trans1)
  define ss1 where "ss1 = ss_AddOrUpdate ops ss (sprintf_08x x) (uint x) x"
  note p = probe [OF inv ns L Rx, folded ss1_def]
  have good': "good_runs (add_runs L x R)" using good Lx Rx by (rule add_runs_good)
  have fin: "self_check ops (uis\<lparr>uis_ss := ss'\<rparr>) = Inr () \<and>
      uis_repr nodes invar (uis\<lparr>uis_ss := ss'\<rparr>) (add_runs L x R)"
    if "invar ss'" "nodes ss' = map mk_node (add_runs L x R)" for ss'
    using self_check_ok [OF repr_update [OF that good', of uis]] repr_update [OF that good', of uis]
    by simp
  have nextN: "ss_GetByRank ops ss1 (2 + int (length L)) =
      (case R of [] \<Rightarrow> None | r # _ \<Rightarrow> Some (mk_node r))"
    using p(3,4) at_rank_nth [of "2 + int (length L)" "L @ [(x, x)]" "hd R" "tl R"]
      at_rank_beyond [of "L @ [(x, x)]" "2 + int (length L)"]
    by (cases R) (simp_all add: GetByRank)
  show ?thesis
  proof (cases L rule: rev_cases)
    case Nil
    show ?thesis
    proof (cases "R \<noteq> [] \<and> x + 1 = fst (hd R)")
      case True
      then obtain r R' where R: "R = r # R'" "x + 1 = fst r" by (cases R) auto
      have "nodes (ss_AddOrUpdate ops (ss_Remove ops ss1 (sprintf_08x (fst r))) (sprintf_08x x) (uint x) (snd r))
          = map mk_node (add_runs L x R)"
        using merge_next [OF p(3), of "[]" x r R' "snd r"] p(4) good Rx R Nil
        by (simp add: add_runs_def)
      from fin [OF invar_AddOrUpdate [OF invar_Remove [OF p(3)]] this] p(2,5) nextN R Nil show ?thesis
        by (simp add: Add_def ss_def [symmetric] Let_def ss1_def [symmetric])
    next
      case False
      then have "nodes ss1 = map mk_node (add_runs L x R)" using p(4) Nil by (auto simp: add_runs_def)
      from fin [OF p(3) this] p(2,5) nextN Nil False show ?thesis
        by (cases R) (simp_all add: Add_def ss_def [symmetric] Let_def ss1_def [symmetric] word_uint_eq_iff)
    qed
  next
    case (snoc L' l)
    have prevN: "ss_GetByRank ops ss1 (1 + int (length L')) = Some (mk_node l)"
      using p(3,4) snoc at_rank_nth [of "1 + int (length L')" L' l "(x, x) # R"] by (simp add: GetByRank)
    have lx: "\<not> x \<le> snd l" using Lx snoc by auto
    show ?thesis
    proof (cases "snd l + 1 = x"; cases "R \<noteq> [] \<and> x + 1 = fst (hd R)")
      assume mp: "snd l + 1 = x" and mn: "R \<noteq> [] \<and> x + 1 = fst (hd R)"
      then obtain r R' where R: "R = r # R'" "x + 1 = fst r" by (cases R) auto
      let ?ss3 = "ss_Remove ops (ss_Remove ops ss1 (sprintf_08x x)) (sprintf_08x (fst r))"
      have "nodes ?ss3 = map mk_node (L @ R')" using drop_next [OF p(6), of L r R'] p(7) good R by simp
      moreover have "good_runs (L @ R')" using good R by (auto simp: good_runs_simps)
      ultimately have "nodes (ss_AddOrUpdate ops ?ss3 (sprintf_08x (fst l)) (uint (fst l)) (snd r)) =
          map mk_node (add_runs L x R)"
        using merge_prev [OF invar_Remove [OF p(6)], of _ L' l R' "snd r"] snoc R mp
        by (simp add: add_runs_def)
      from fin [OF invar_AddOrUpdate [OF invar_Remove [OF p(6)]] this] p(2,5) nextN prevN lx mp R snoc
      show ?thesis by (simp add: Add_def ss_def [symmetric] Let_def ss1_def [symmetric])
    next
      assume mp: "snd l + 1 = x" and mn: "\<not> (R \<noteq> [] \<and> x + 1 = fst (hd R))"
      have "nodes (ss_AddOrUpdate ops (ss_Remove ops ss1 (sprintf_08x x)) (sprintf_08x (fst l)) (uint (fst l)) x) =
          map mk_node (add_runs L x R)"
        using merge_prev [OF p(6), of L' l R x] p(7) good snoc mp mn
        by (auto simp: add_runs_def)
      from fin [OF invar_AddOrUpdate [OF p(6)] this] p(2,5) nextN prevN lx mp mn snoc show ?thesis
        by (cases R) (simp_all add: Add_def ss_def [symmetric] Let_def ss1_def [symmetric] word_uint_eq_iff)
    next
      assume mp: "snd l + 1 \<noteq> x" and mn: "R \<noteq> [] \<and> x + 1 = fst (hd R)"
      then obtain r R' where R: "R = r # R'" "x + 1 = fst r" by (cases R) auto
      have "nodes (ss_AddOrUpdate ops (ss_Remove ops ss1 (sprintf_08x (fst r))) (sprintf_08x x) (uint x) (snd r))
          = map mk_node (add_runs L x R)"
        using merge_next [OF p(3), of L x r R' "snd r"] p(4) good Rx L R snoc mp
        by (simp add: add_runs_def)
      from fin [OF invar_AddOrUpdate [OF invar_Remove [OF p(3)]] this] p(2,5) nextN prevN lx mp R snoc
      show ?thesis by (simp add: Add_def ss_def [symmetric] Let_def ss1_def [symmetric])
    next
      assume mp: "snd l + 1 \<noteq> x" and mn: "\<not> (R \<noteq> [] \<and> x + 1 = fst (hd R))"
      then have "nodes ss1 = map mk_node (add_runs L x R)" using p(4) snoc by (auto simp: add_runs_def)
      from fin [OF p(3) this] p(2,5) nextN prevN lx mp mn snoc show ?thesis
        by (cases R) (simp_all add: Add_def ss_def [symmetric] Let_def ss1_def [symmetric] word_uint_eq_iff)
    qed
  qed
qed

lemma Add_correct:
  assumes "uis_repr nodes invar uis rs"
  shows "\<exists>uis' rs'. Add ops uis x = Inr (x \<notin> runs_set rs, uis') \<and> uis_repr nodes invar uis' rs' \<and>
    runs_set rs' = insert x (runs_set rs) \<and> CheckLevel uis' = CheckLevel uis"
proof (cases "x \<in> runs_set rs")
  case True
  then have "insert x (runs_set rs) = runs_set rs" by blast
  with True Add_member [OF assms True] show ?thesis by auto
next
  case False
  have good: "good_runs rs" using assms by (simp add: uis_repr_def)
  then show ?thesis
  proof (cases rule: runs_cases [where x = x])
    case (gap L R)
    with assms good Add_gap [of uis L R x] add_runs_set [of L R x] False show ?thesis by auto
  qed (use False good in \<open>auto simp: good_runs_simps\<close>)
qed

section \<open>Remove\<close>

lemma innerRemove_first:
  assumes inv: "invar ss" and ns: "nodes ss = map mk_node (L @ (x, b) # R)"
    and good: "good_runs (L @ (x, b) # R)"
  shows "\<exists>ss'. innerRemove ops ss x = Inr (True, ss') \<and> invar ss' \<and>
    nodes ss' = map mk_node (L @ punch x x b @ R)"
proof -
  have L: "\<forall>r\<in>set L. fst r < x" and R: "\<forall>r\<in>set R. x < fst r" and Rb: "\<forall>r\<in>set R. b < fst r"
    using good_left_less [OF good] good_right_greater [OF good] by auto
  have xb: "x \<le> b" using good by (simp add: good_runs_simps)
  have key: "ss_GetByKey ops ss (sprintf_08x x) = Some (mk_node (x, b))"
    using inv ns find_key_split [OF L, of b R] by (simp add: GetByKey del: map_append)
  have inv1: "invar (ss_Remove ops ss (sprintf_08x x))" using inv by (rule invar_Remove)
  have ns1: "nodes (ss_Remove ops ss (sprintf_08x x)) = map mk_node (L @ R)"
    using inv ns L R by (rule nodes_del)
  show ?thesis
  proof (cases "x = b")
    case True
    then show ?thesis using key inv1 ns1 by (simp add: innerRemove_def punch_def)
  next
    case False
    with xb have "x < b" by simp
    note t = interval_tail(2,3) [OF this]
    have "\<forall>r\<in>set L. fst r < x + 1" "\<forall>r\<in>set R. x + 1 < fst r"
      using L Rb t by (meson order.strict_trans, meson order.strict_trans1)
    from nodes_ins [OF inv1 ns1 this] False \<open>x < b\<close> key invar_AddOrUpdate [OF inv1] show ?thesis
      by (simp add: innerRemove_def Let_def punch_def)
  qed
qed

lemma innerRemove_inside:
  assumes inv: "invar ss" and ns: "nodes ss = map mk_node (L @ (a, b) # R)"
    and good: "good_runs (L @ (a, b) # R)" and x: "a < x" "x \<le> b"
  shows "\<exists>ss'. innerRemove ops ss x = Inr (True, ss') \<and> invar ss' \<and>
    nodes ss' = map mk_node (L @ punch a x b @ R)"
proof -
  have La: "\<forall>r\<in>set L. fst r < a" and Ra: "\<forall>r\<in>set R. a < fst r" and Rb: "\<forall>r\<in>set R. b < fst r"
    using good_left_less [OF good] good_right_greater [OF good] by auto
  have L: "\<forall>r\<in>set (L @ [(a, b)]). fst r < x" and R: "\<forall>r\<in>set R. x < fst r"
    using La Rb x by (auto intro: order.strict_trans order.strict_trans1)
  have "nodes ss = map mk_node ((L @ [(a, b)]) @ R)" using ns by simp
  note p = probe [OF inv this L R]
  define ss2 where
    "ss2 = ss_Remove ops (ss_AddOrUpdate ops ss (sprintf_08x x) (uint x) x) (sprintf_08x x)"
  have ss2: "invar ss2" "nodes ss2 = map mk_node (L @ (a, b) # R)" using p(6,7) by (simp_all add: ss2_def)
  have "ss_GetByRank ops ss2 (1 + int (length L)) = Some (mk_node (a, b))"
    using ss2 at_rank_nth [of "1 + int (length L)" L "(a, b)" R] by (simp add: GetByRank)
  then have run: "innerRemove ops ss x =
      (let ss3 = ss_AddOrUpdate ops ss2 (sprintf_08x a) (uint a) (x - 1) in
       if x < b then Inr (True, ss_AddOrUpdate ops ss3 (sprintf_08x (x + 1)) (uint (x + 1)) b)
       else Inr (True, ss3))"
    using leD [OF x(2)] p(2,5) by (simp add: innerRemove_def Let_def ss2_def [symmetric])
  let ?ss3 = "ss_AddOrUpdate ops ss2 (sprintf_08x a) (uint a) (x - 1)"
  have ns3: "nodes ?ss3 = map mk_node (L @ (a, x - 1) # R)" using ss2 La Ra by (rule nodes_upd)
  have inv3: "invar ?ss3" using ss2(1) by (rule invar_AddOrUpdate)
  show ?thesis
  proof (cases "x < b")
    case False
    then show ?thesis using run inv3 ns3 x by (simp add: punch_def Let_def)
  next
    case True
    note t = interval_tail(2,3) [OF True]
    have "\<forall>r\<in>set (L @ [(a, x - 1)]). fst r < x + 1" "\<forall>r\<in>set R. x + 1 < fst r"
      using L Rb t x by (auto intro: order.strict_trans order.strict_trans1)
    from nodes_ins [OF inv3 _ this, of b] ns3 run True x invar_AddOrUpdate [OF inv3] show ?thesis
      by (simp add: Let_def punch_def)
  qed
qed

lemma innerRemove_gap:
  assumes inv: "invar ss" and ns: "nodes ss = map mk_node (L @ R)" and good: "good_runs (L @ R)"
    and x: "\<forall>r\<in>set L. snd r < x" "\<forall>r\<in>set R. x < fst r"
  shows "\<exists>ss'. innerRemove ops ss x = Inr (False, ss') \<and> invar ss' \<and> nodes ss' = map mk_node (L @ R)"
proof -
  have L: "\<forall>r\<in>set L. fst r < x"
    using good_runs_le [OF good] x(1) by (auto intro: order.strict_trans1)
  note p = probe [OF inv ns L x(2)]
  show ?thesis
  proof (cases L rule: rev_cases)
    case Nil
    then show ?thesis using p by (simp add: innerRemove_def Let_def)
  next
    case (snoc L' l)
    then have "snd l < x" using x(1) by simp
    then show ?thesis using p snoc at_rank_nth [of "1 + int (length L')" L' l R]
      by (simp add: innerRemove_def Let_def GetByRank)
  qed
qed

lemma innerRemove_ok:
  assumes "invar ss" "nodes ss = map mk_node rs" and good: "good_runs rs"
  shows "\<exists>ss' rs'. innerRemove ops ss x = Inr (x \<in> runs_set rs, ss') \<and> invar ss' \<and>
    nodes ss' = map mk_node rs' \<and> good_runs rs' \<and> runs_set rs' = runs_set rs - {x}"
  using good
proof (cases rule: runs_cases [where x = x])
  case (first L b R)
  moreover have "x \<le> b" using good first by (simp add: good_runs_simps)
  ultimately show ?thesis
    using innerRemove_first [of ss L x b R] assms punch_runs [of L x b R x]
    by (auto intro!: exI [of _ "L @ punch x x b @ R"])
next
  case (inside L a b R)
  then show ?thesis
    using innerRemove_inside [of ss L a b R x] assms punch_runs [of L a b R x]
    by (auto intro!: exI [of _ "L @ punch a x b @ R"])
next
  case (gap L R)
  then have "x \<notin> runs_set rs" using gap_notin by blast
  then show ?thesis using innerRemove_gap [of ss L R x] assms gap by (auto intro!: exI [of _ "L @ R"])
qed

lemma Remove_correct:
  assumes "uis_repr nodes invar uis rs"
  shows "\<exists>uis' rs'. Remove ops uis x = Inr (x \<in> runs_set rs, uis') \<and> uis_repr nodes invar uis' rs' \<and>
    runs_set rs' = runs_set rs - {x} \<and> CheckLevel uis' = CheckLevel uis"
proof -
  have "invar (uis_ss uis)" "nodes (uis_ss uis) = map mk_node rs" "good_runs rs"
    using assms by (simp_all add: uis_repr_def)
  from innerRemove_ok [OF this, of x] obtain ss' rs' where
    "innerRemove ops (uis_ss uis) x = Inr (x \<in> runs_set rs, ss')"
    and new: "invar ss'" "nodes ss' = map mk_node rs'" "good_runs rs'"
    and "runs_set rs' = runs_set rs - {x}"
    by blast
  moreover from repr_update [OF new, of uis]
  have "uis_repr nodes invar (uis\<lparr>uis_ss := ss'\<rparr>) rs'" .
  ultimately show ?thesis using self_check_ok by (fastforce simp: Remove_def Let_def)
qed

end

end
