(* ===== verification/Uint32_Choose.thy ===== *)
theory Uint32_Choose
  imports Uint32_Correct
begin

text \<open>
  Correctness of \<open>AddOneInRange\<close>, the operation the address allocator is built on, and of the
  exports of a \<open>SortedUInt32Set\<close>.
\<close>

section \<open>The rank of a number among the runs\<close>

definition run_index :: "run list \<Rightarrow> uint32 \<Rightarrow> nat" where
  "run_index rs x = length (takeWhile (\<lambda>r. snd r < x) rs)"

definition on_run :: "run list \<Rightarrow> uint32 \<Rightarrow> bool" where
  "on_run rs x \<longleftrightarrow> run_index rs x < length rs \<and> fst (rs ! run_index rs x) \<le> x"

lemma good_nth: "good_runs rs \<Longrightarrow> m < n \<Longrightarrow> n < length rs \<Longrightarrow>
    unat (snd (rs ! m)) + 1 < unat (fst (rs ! n))"
  unfolding good_runs_def by (metis (no_types, lifting) sorted_wrt_nth_less)

lemma good_nth_le: "good_runs rs \<Longrightarrow> n < length rs \<Longrightarrow> unat (fst (rs ! n)) \<le> unat (snd (rs ! n))"
  by (simp add: good_runs_def word_le_nat_alt)

lemma run_index_le: "run_index rs x \<le> length rs"
  by (simp add: run_index_def length_takeWhile_le)

lemma run_index_before: "m < run_index rs x \<Longrightarrow> unat (snd (rs ! m)) < unat x"
  unfolding run_index_def by (metis nth_mem set_takeWhileD takeWhile_nth word_less_nat_alt)

lemma run_index_after:
  assumes good: "good_runs rs" and "run_index rs x \<le> m" "m < length rs"
  shows "unat x \<le> unat (snd (rs ! m))"
proof -
  let ?i = "run_index rs x"
  have "\<not> snd (rs ! ?i) < x" using assms(2,3) unfolding run_index_def
    by (intro nth_length_takeWhile) simp
  then have "unat x \<le> unat (snd (rs ! ?i))" by (simp add: word_to_nat)
  moreover have "unat (snd (rs ! ?i)) \<le> unat (snd (rs ! m))"
    using good_nth [OF good, of ?i m] good_nth_le [OF good, of m] assms(2,3) by (cases "?i = m") auto
  ultimately show ?thesis by simp
qed

lemma run_index_mono: "good_runs rs \<Longrightarrow> x \<le> y \<Longrightarrow> run_index rs x \<le> run_index rs y"
  using run_index_before [of "run_index rs y" rs x] run_index_after [of rs y "run_index rs y"]
    run_index_le [of rs x]
  by (fastforce simp: word_le_nat_alt not_le intro: leI)

lemma run_index_split:
  assumes "\<forall>r\<in>set L. snd r < x" "R = [] \<or> x \<le> snd (hd R)"
  shows "run_index (L @ R) x = length L"
  using assms takeWhile_split [of L "\<lambda>r. snd r < x" R] by (auto simp: run_index_def not_less)

lemma on_run_mem:
  assumes "good_runs rs"
  shows "on_run rs x \<longleftrightarrow> x \<in> runs_set rs"
proof
  assume "on_run rs x"
  then have "rs ! run_index rs x \<in> set rs" "x \<in> {fst (rs ! run_index rs x)..snd (rs ! run_index rs x)}"
    using run_index_after [OF assms order.refl, of x] by (auto simp: on_run_def word_le_nat_alt)
  then show "x \<in> runs_set rs" unfolding runs_set_def by blast
next
  assume "x \<in> runs_set rs"
  then obtain n where n: "n < length rs" "fst (rs ! n) \<le> x" "x \<le> snd (rs ! n)"
    by (auto simp: runs_set_def in_set_conv_nth)
  then have "\<not> n < run_index rs x" using run_index_before [of n rs x] by (auto simp: word_le_nat_alt)
  moreover have "\<not> run_index rs x < n"
    using good_nth [OF assms _ n(1), of "run_index rs x"] run_index_after [OF assms order.refl, of x] n
    by (auto simp: word_le_nat_alt)
  ultimately show "on_run rs x" using n by (simp add: on_run_def)
qed

section \<open>The gap that is chosen\<close>

text \<open>
  The bounds of gap \<open>k\<close>, the numbers between run \<open>k - 1\<close> and run \<open>k\<close>, cut to the range
  \<open>mn..mx\<close>.
\<close>

definition gap_first :: "run list \<Rightarrow> uint32 \<Rightarrow> nat \<Rightarrow> uint32" where
  "gap_first rs mn k = (if run_index rs mn < k then snd (rs ! (k - 1)) + 1 else mn)"

definition gap_last :: "run list \<Rightarrow> uint32 \<Rightarrow> nat \<Rightarrow> uint32" where
  "gap_last rs mx k =
     (if k < run_index rs mx + (if on_run rs mx then 1 else 0) then fst (rs ! k) - 1 else mx)"

definition chosen_gap :: "run list \<Rightarrow> uint32 \<Rightarrow> uint32 \<Rightarrow> nat \<Rightarrow> bool" where
  "chosen_gap rs mn mx k \<longleftrightarrow> good_runs rs \<and> mn \<le> mx \<and>
     run_index rs mn + (if on_run rs mn then 1 else 0) \<le> k \<and> k \<le> run_index rs mx"

lemma chosen_gapD:
  assumes "chosen_gap rs mn mx k"
  shows "good_runs rs" "mn \<le> mx" "run_index rs mn \<le> k" "on_run rs mn \<Longrightarrow> run_index rs mn < k"
    "k \<le> run_index rs mx"
  using assms by (auto simp: chosen_gap_def split: if_splits)

lemma gap_first_nat:
  assumes "chosen_gap rs mn mx k"
  shows "unat (gap_first rs mn k) =
     (if run_index rs mn < k then unat (snd (rs ! (k - 1))) + 1 else unat mn)"
proof (cases "run_index rs mn < k")
  case True
  then have "snd (rs ! (k - 1)) < mx"
    using run_index_before [of "k - 1" rs mx] chosen_gapD(5) [OF assms]
    by (simp add: word_less_nat_alt)
  then show ?thesis using True unat_plus_one by (simp add: gap_first_def)
qed (simp add: gap_first_def)

lemma gap_next_bounds:
  assumes gap: "chosen_gap rs mn mx k"
    and nxt: "k < run_index rs mx + (if on_run rs mx then 1 else 0)"
  shows "k < length rs" "unat (gap_first rs mn k) < unat (fst (rs ! k))"
    "unat (fst (rs ! k)) \<le> unat mx"
proof -
  note good = chosen_gapD(1) [OF gap]
  show k: "k < length rs"
    using nxt run_index_le [of rs mx] by (auto simp: on_run_def split: if_splits)
  show "unat (gap_first rs mn k) < unat (fst (rs ! k))"
  proof (cases "run_index rs mn < k")
    case True
    then show ?thesis using good_nth [OF good, of "k - 1" k] k by (simp add: gap_first_nat [OF gap])
  next
    case False
    then have "k = run_index rs mn" "\<not> on_run rs mn" using chosen_gapD [OF gap] by auto
    then show ?thesis using k False by (simp add: gap_first_def on_run_def word_to_nat)
  qed
  show "unat (fst (rs ! k)) \<le> unat mx"
  proof (cases "k < run_index rs mx")
    case True
    then show ?thesis using run_index_before [OF True] good_nth_le [OF good k] by simp
  next
    case False
    then have "k = run_index rs mx" "on_run rs mx" using nxt by (auto split: if_splits)
    then show ?thesis by (simp add: on_run_def word_le_nat_alt)
  qed
qed

lemma gap_last_nat:
  assumes "chosen_gap rs mn mx k"
  shows "unat (gap_last rs mx k) =
     (if k < run_index rs mx + (if on_run rs mx then 1 else 0) then unat (fst (rs ! k)) - 1
      else unat mx)"
proof -
  have "unat (fst (rs ! k) - 1) = unat (fst (rs ! k)) - 1"
    if "k < run_index rs mx + (if on_run rs mx then 1 else 0)"
    using gap_next_bounds(2) [OF assms that] by (intro unat_minus_one32) (simp add: word_less_nat_alt)
  then show ?thesis by (auto simp: gap_last_def)
qed

lemma gap_first_le_last:
  assumes gap: "chosen_gap rs mn mx k"
  shows "gap_first rs mn k \<le> gap_last rs mx k"
proof (cases "k < run_index rs mx + (if on_run rs mx then 1 else 0)")
  case True
  then show ?thesis using gap_next_bounds(2) [OF gap True]
    by (simp add: word_le_nat_alt gap_last_nat [OF gap])
next
  case False
  moreover have "unat (snd (rs ! (k - 1))) < unat mx" if "run_index rs mn < k"
    using that chosen_gapD(5) [OF gap] run_index_before [of "k - 1" rs mx] by simp
  ultimately show ?thesis using chosen_gapD(2) [OF gap]
    unfolding word_le_nat_alt gap_last_nat [OF gap] gap_first_nat [OF gap] by (simp add: Suc_le_eq)
qed

lemma gap_in_range:
  assumes gap: "chosen_gap rs mn mx k"
  shows "mn \<le> gap_first rs mn k" "gap_last rs mx k \<le> mx"
proof -
  have "unat mn \<le> unat (snd (rs ! (k - 1)))" if "run_index rs mn < k"
    using that chosen_gapD [OF gap] run_index_le [of rs mx] run_index_after [of rs mn "k - 1"] by simp
  then show "mn \<le> gap_first rs mn k" by (auto simp: word_le_nat_alt gap_first_nat [OF gap])
  show "gap_last rs mx k \<le> mx" using gap_next_bounds(3) [OF gap]
    by (auto simp: word_le_nat_alt gap_last_nat [OF gap])
qed

lemma gap_runs_before:
  assumes gap: "chosen_gap rs mn mx k" and m: "m < k"
  shows "unat (snd (rs ! m)) < unat (gap_first rs mn k)"
proof (cases "run_index rs mn < k")
  case True
  have "k - 1 < length rs" using True chosen_gapD(5) [OF gap] run_index_le [of rs mx] by simp
  moreover have "m < k - 1 \<or> m = k - 1" using m by auto
  ultimately have "unat (snd (rs ! m)) \<le> unat (snd (rs ! (k - 1)))"
    using good_nth [OF chosen_gapD(1) [OF gap], of m "k - 1"]
      good_nth_le [OF chosen_gapD(1) [OF gap], of "k - 1"]
    by auto
  then show ?thesis using True gap_first_nat [OF gap] by simp
next
  case False
  with m show ?thesis using run_index_before [of m rs mn] gap_first_nat [OF gap] by simp
qed

lemma gap_runs_after:
  assumes gap: "chosen_gap rs mn mx k" and m: "k \<le> m" "m < length rs"
  shows "unat (gap_last rs mx k) < unat (fst (rs ! m))"
proof -
  note good = chosen_gapD(1) [OF gap]
  have km: "unat (fst (rs ! k)) \<le> unat (fst (rs ! m))"
    using m good_nth [OF good, of k m] good_nth_le [OF good, of k] by (cases "k = m") auto
  show ?thesis
  proof (cases "k < run_index rs mx + (if on_run rs mx then 1 else 0)")
    case True
    then show ?thesis using km gap_next_bounds(2) [OF gap True] gap_last_nat [OF gap] by simp
  next
    case False
    then have "k = run_index rs mx" "\<not> on_run rs mx"
      using chosen_gapD(5) [OF gap] by (auto split: if_splits)
    then have "unat mx < unat (fst (rs ! k))" using m by (simp add: on_run_def word_to_nat)
    then show ?thesis using False km gap_last_nat [OF gap] by simp
  qed
qed

lemma gap_free:
  assumes gap: "chosen_gap rs mn mx k" and x: "gap_first rs mn k \<le> x" "x \<le> gap_last rs mx k"
  shows "x \<notin> runs_set rs"
proof
  assume "x \<in> runs_set rs"
  then obtain m where "m < length rs" "unat (fst (rs ! m)) \<le> unat x" "unat x \<le> unat (snd (rs ! m))"
    by (auto simp: runs_set_def in_set_conv_nth word_le_nat_alt)
  then show False
    using gap_runs_before [OF gap, of m] gap_runs_after [OF gap, of m] x
    by (cases "m < k") (auto simp: word_le_nat_alt)
qed

section \<open>AddOneInRange\<close>

context sorted_set
begin

lemma Find_correct:
  assumes r: "uis_repr nodes invar uis rs"
  shows "\<exists>uis'. Find ops uis x =
      Inr (if on_run rs x then Some (mk_node (rs ! run_index rs x)) else None,
           int (run_index rs x) + 1, uis') \<and>
    uis_repr nodes invar uis' rs \<and> CheckLevel uis' = CheckLevel uis"
proof -
  have good: "good_runs rs" using r by (simp add: uis_repr_def)
  then show ?thesis
  proof (cases rule: runs_cases [where x = x])
    case (first L b R)
    have "\<forall>r\<in>set L. snd r < x" "x \<le> b"
      using good first good_left_less [of L x b R] by (auto simp: good_runs_simps)
    then have "run_index rs x = length L" using first run_index_split [of L x "(x, b) # R"] by simp
    then show ?thesis using Find_first [of uis L x b R] r first by (simp add: on_run_def)
  next
    case (inside L a b R)
    have "\<forall>r\<in>set L. snd r < x"
      using good inside good_left_less [of L a b R] by (auto intro: order.strict_trans)
    then have "run_index rs x = length L" using inside run_index_split [of L x "(a, b) # R"] by simp
    then show ?thesis using Find_inside [of uis L a b R x] r inside by (simp add: on_run_def less_imp_le)
  next
    case (gap L R)
    have "R = [] \<or> x \<le> snd (hd R)"
      using gap good_runs_le [OF good, of "hd R"] by (cases R) auto
    then have "run_index rs x = length L" using gap run_index_split [of L x R] by simp
    moreover have "\<not> on_run rs x" using on_run_mem [OF good] gap gap_notin by blast
    ultimately show ?thesis using Find_gap [of uis L R x] r gap by simp
  qed
qed

text \<open>A random offset into a range stays in the range.\<close>

lemma offset_in_range:
  assumes "(a::uint32) \<le> b" "0 \<le> d" "d < 1 + uint (b - a)"
  shows "a \<le> a + word_of_int d" "a + word_of_int d \<le> b"
proof -
  have ba: "uint (b - a) = uint b - uint a" using assms(1) by (rule uint_minus_simple_alt [THEN iffD1])
  have "d \<le> uint b - uint a" using assms(3) ba by simp
  moreover have "uint b < 2 ^ LENGTH(32)" "0 \<le> uint a" by (rule unsigned_less, simp)
  ultimately have "d + uint a < 2 ^ 32" by simp
  then have "uint (a + word_of_int d) = uint a + d"
    using assms(2) by (simp add: uint_word_ariths(1) uint_word_of_int add.commute mod_simps)
  then show "a \<le> a + word_of_int d" "a + word_of_int d \<le> b"
    using assms(2) \<open>d \<le> uint b - uint a\<close> by (simp_all add: word_le_def)
qed

lemma same_run_full:
  assumes "good_runs rs" "mn \<le> mx" "on_run rs mn" "on_run rs mx" "run_index rs mn = run_index rs mx"
  shows "{mn..mx} \<subseteq> runs_set rs"
proof -
  let ?r = "rs ! run_index rs mx"
  have "?r \<in> set rs" "fst ?r \<le> mn" "mx \<le> snd ?r"
    using assms run_index_after [OF assms(1) order.refl, of mx]
    by (auto simp: on_run_def word_le_nat_alt)
  then show ?thesis unfolding runs_set_def by fastforce
qed

lemma good_nth_distinct: "good_runs rs \<Longrightarrow> m < n \<Longrightarrow> n < length rs \<Longrightarrow> rs ! m \<noteq> rs ! n"
  using good_nth [of rs m n] good_nth_le [of rs n] by auto

lemma gap_bounds_found:
  assumes gap: "chosen_gap rs mn mx k" and r: "invar ss" "nodes ss = map mk_node rs"
    and g: "g = int k - int (run_index rs mn)"
    and n: "nGaps = 1 + (int (run_index rs mx) - int (run_index rs mn)) + (if on_run rs mx then 1 else 0)"
    and minR: "minR = int (run_index rs mn) + 1"
  shows "(if 0 < g then (case ss_GetByRank ops ss (minR + g - 1) of
            None \<Rightarrow> Inl e1 | Some prev \<Rightarrow> Inr (node_value prev + 1)) else Inr mn)
      = Inr (gap_first rs mn k)"
    and "(if g < nGaps - 1 then (case ss_GetByRank ops ss (minR + g) of
            None \<Rightarrow> Inl e2 | Some nxt \<Rightarrow> Inr (score_u32 nxt - 1)) else Inr mx)
      = Inr (gap_last rs mx k)"
proof -
  have "at_rank (map mk_node rs) (int k) = Some (mk_node (rs ! (k - 1)))" if "run_index rs mn < k"
    using that chosen_gapD(5) [OF gap] run_index_le [of rs mx]
    by (auto simp: at_rank_def nat_diff_distrib)
  then show "(if 0 < g then (case ss_GetByRank ops ss (minR + g - 1) of
            None \<Rightarrow> Inl e1 | Some prev \<Rightarrow> Inr (node_value prev + 1)) else Inr mn)
      = Inr (gap_first rs mn k)"
    using r g minR by (auto simp: gap_first_def GetByRank)
  have "at_rank (map mk_node rs) (1 + int k) = Some (mk_node (rs ! k))"
    if "k < run_index rs mx + (if on_run rs mx then 1 else 0)"
    using gap_next_bounds(1) [OF gap that] by (simp add: at_rank_def)
  then show "(if g < nGaps - 1 then (case ss_GetByRank ops ss (minR + g) of
            None \<Rightarrow> Inl e2 | Some nxt \<Rightarrow> Inr (score_u32 nxt - 1)) else Inr mx)
      = Inr (gap_last rs mx k)"
    using r g minR n by (auto simp: gap_last_def GetByRank)
qed

text \<open>The straight line through \<open>AddOneInRange\<close> when there is something to pick.\<close>

lemma AddOneInRange_line:
  assumes "\<not> mx < mn"
    and "Find ops uis mn = Inr (onMin, minR, uis1)" "Find ops uis1 mx = Inr (onMax, maxR, uis2)"
    and "\<not> (onMin = onMax \<and> onMin \<noteq> None)"
    and bias: "bias = (if onMin \<noteq> None then 1 else 0)" and saib: "saib = (if onMax \<noteq> None then 1 else 0)"
    and n: "nGaps = 1 + maxR - minR + saib" "\<not> nGaps \<le> bias + saib"
    and g: "g = bias + intn (nGaps - (bias + saib))"
    and low: "(if 0 < g then (case ss_GetByRank ops (uis_ss uis2) (minR + g - 1) of
            None \<Rightarrow> Inl (LacksRun minR (g - 1)) | Some prev \<Rightarrow> Inr (node_value prev + 1)) else Inr mn) = Inr a"
    and upp: "(if g < nGaps - 1 then (case ss_GetByRank ops (uis_ss uis2) (minR + g) of
            None \<Rightarrow> Inl (LacksRun minR g) | Some nxt \<Rightarrow> Inr (score_u32 nxt - 1)) else Inr mx) = Inr b"
    and "Add ops uis2 (a + word_of_int (int63n (1 + uint (b - a)))) = Inr (True, uis3)"
  shows "AddOneInRange ops intn int63n uis mn mx =
    Inr (a + word_of_int (int63n (1 + uint (b - a))), True, uis3)"
  unfolding AddOneInRange_def Let_def
  using assms(1-4,12) n(2)
  by (simp add: low [unfolded g n(1) bias saib, simplified] upp [unfolded g n(1) bias saib, simplified]
       n(1) bias saib)

text \<open>The number of the gap that the random choice yields.\<close>

lemma gap_number:
  assumes good: "good_runs rs" and mm: "mn \<le> mx"
    and intn: "\<And>n. 0 < n \<Longrightarrow> 0 \<le> intn n \<and> intn n < n"
    and nf: "\<not> (on_run rs mn \<and> on_run rs mx \<and> run_index rs mn = run_index rs mx)"
    and bs: "bias = (if on_run rs mn then 1 else 0)" "saib = (if on_run rs mx then 1 else 0 :: int)"
    and n: "nGaps = 1 + (int (run_index rs mx) - int (run_index rs mn)) + saib"
    and g: "g = bias + intn (nGaps - (bias + saib))"
  shows "bias + saib < nGaps" "chosen_gap rs mn mx (nat (int (run_index rs mn) + g))"
    "0 \<le> int (run_index rs mn) + g"
proof -
  have ij: "run_index rs mn \<le> run_index rs mx" using good mm by (rule run_index_mono)
  show free: "bias + saib < nGaps"
  proof (cases "run_index rs mn = run_index rs mx")
    case True
    have "on_run rs mx" if "on_run rs mn" using that True mm by (auto simp: on_run_def)
    with True nf have "\<not> on_run rs mn" by auto
    then show ?thesis using True by (simp add: bs n)
  qed (use ij in \<open>simp add: bs n\<close>)
  have "bias \<le> g" "g \<le> int (run_index rs mx) - int (run_index rs mn)"
    using intn [of "nGaps - (bias + saib)"] free by (auto simp: g n)
  then show "chosen_gap rs mn mx (nat (int (run_index rs mn) + g))" "0 \<le> int (run_index rs mn) + g"
    using good mm by (auto simp: chosen_gap_def bs split: if_splits)
qed

lemma AddOneInRange_pick:
  assumes r: "uis_repr nodes invar uis rs" and mm: "mn \<le> mx"
    and intn: "\<And>n. 0 < n \<Longrightarrow> 0 \<le> intn n \<and> intn n < n"
    and int63n: "\<And>n. 0 < n \<Longrightarrow> 0 \<le> int63n n \<and> int63n n < n"
    and nf: "\<not> (on_run rs mn \<and> on_run rs mx \<and> run_index rs mn = run_index rs mx)"
  shows "\<exists>x uis' rs'. AddOneInRange ops intn int63n uis mn mx = Inr (x, True, uis') \<and>
    x \<in> {mn..mx} - runs_set rs \<and> uis_repr nodes invar uis' rs' \<and>
    runs_set rs' = insert x (runs_set rs) \<and> CheckLevel uis' = CheckLevel uis"
proof -
  have good: "good_runs rs" using r by (simp add: uis_repr_def)
  define i j where ij: "i = run_index rs mn" "j = run_index rs mx"
  define onMin onMax where on_def: "onMin = (if on_run rs mn then Some (mk_node (rs ! i)) else None)"
    "onMax = (if on_run rs mx then Some (mk_node (rs ! j)) else None)"
  from Find_correct [OF r, of mn] obtain uis1 where f1: "Find ops uis mn = Inr (onMin, int i + 1, uis1)"
    and r1: "uis_repr nodes invar uis1 rs" and c1: "CheckLevel uis1 = CheckLevel uis"
    by (auto simp: ij on_def)
  from Find_correct [OF r1, of mx] obtain uis2 where f2: "Find ops uis1 mx = Inr (onMax, int j + 1, uis2)"
    and r2: "uis_repr nodes invar uis2 rs" and c2: "CheckLevel uis2 = CheckLevel uis1"
    by (auto simp: ij on_def)
  have neq: "\<not> (onMin = onMax \<and> onMin \<noteq> None)"
    using nf run_index_mono [OF good mm] good_nth_distinct [OF good, of i j]
    by (auto simp: on_def ij on_run_def order_le_less split: if_splits)
  define bias saib :: int where bs: "bias = (if onMin \<noteq> None then 1 else 0)"
    "saib = (if onMax \<noteq> None then 1 else 0)"
  define nGaps where n: "nGaps = 1 + (int j + 1) - (int i + 1) + saib"
  define g where "g = bias + intn (nGaps - (bias + saib))"
  define k where "k = nat (int i + g)"
  have free: "bias + saib < nGaps" and gap: "chosen_gap rs mn mx k" and k: "g = int k - int i"
    using gap_number [OF good mm intn nf _ _ _ g_def] by (auto simp: bs on_def n ij k_def)
  define a b where ab: "a = gap_first rs mn k" "b = gap_last rs mx k"
  let ?x = "a + word_of_int (int63n (1 + uint (b - a)))"
  have "0 < 1 + uint (b - a)" by (simp add: add_pos_nonneg)
  then have "a \<le> ?x" "?x \<le> b"
    using offset_in_range [OF gap_first_le_last [OF gap]] int63n unfolding ab by blast+
  then have free_x: "?x \<in> {mn..mx} - runs_set rs"
    using gap_free [OF gap] gap_in_range [OF gap] unfolding ab by auto
  with Add_correct [OF r2, of ?x] obtain uis3 rs' where add: "Add ops uis2 ?x = Inr (True, uis3)"
    and "uis_repr nodes invar uis3 rs'" "runs_set rs' = insert ?x (runs_set rs)"
      "CheckLevel uis3 = CheckLevel uis" using c1 c2 by auto
  moreover have ss2: "invar (uis_ss uis2)" "nodes (uis_ss uis2) = map mk_node rs"
    using r2 by (simp_all add: uis_repr_def)
  have "nGaps = 1 + (int j - int i) + (if on_run rs mx then 1 else 0)"
    by (simp add: n bs on_def)
  note bounds = gap_bounds_found [OF gap ss2 k [unfolded ij] this [unfolded ij] refl]
  have "AddOneInRange ops intn int63n uis mn mx = Inr (?x, True, uis3)"
    using AddOneInRange_line [where intn = intn and int63n = int63n, OF leD [OF mm] f1 f2 neq bs n
        free [unfolded not_le [symmetric]] g_def bounds(1) [folded ij ab] bounds(2) [folded ij ab] add] .
  ultimately show ?thesis using free_x by blast
qed

lemma AddOneInRange_correct:
  assumes r: "uis_repr nodes invar uis rs"
    and intn: "\<And>n. 0 < n \<Longrightarrow> 0 \<le> intn n \<and> intn n < n"
    and int63n: "\<And>n. 0 < n \<Longrightarrow> 0 \<le> int63n n \<and> int63n n < n"
  shows "\<exists>x uis' rs'. AddOneInRange ops intn int63n uis mn mx =
      Inr (x, \<not> {mn..mx} \<subseteq> runs_set rs, uis') \<and>
    (if {mn..mx} \<subseteq> runs_set rs then x = 0 else x \<in> {mn..mx} - runs_set rs) \<and>
    uis_repr nodes invar uis' rs' \<and> CheckLevel uis' = CheckLevel uis \<and>
    runs_set rs' = (if {mn..mx} \<subseteq> runs_set rs then runs_set rs else insert x (runs_set rs))"
proof -
  have good: "good_runs rs" using r by (simp add: uis_repr_def)
  consider "mx < mn" | "mn \<le> mx" "on_run rs mn \<and> on_run rs mx \<and> run_index rs mn = run_index rs mx"
    | "mn \<le> mx" "\<not> (on_run rs mn \<and> on_run rs mx \<and> run_index rs mn = run_index rs mx)"
    by (meson not_le)
  then show ?thesis
  proof cases
    case 1
    then show ?thesis using r by (auto simp: AddOneInRange_def)
  next
    case 2
    from Find_correct [OF r, of mn] obtain uis1 where
      "Find ops uis mn = Inr (Some (mk_node (rs ! run_index rs mx)), int (run_index rs mx) + 1, uis1)"
      and r1: "uis_repr nodes invar uis1 rs" "CheckLevel uis1 = CheckLevel uis" using 2 by auto
    moreover from Find_correct [OF r1(1), of mx] obtain uis2 where
      "Find ops uis1 mx = Inr (Some (mk_node (rs ! run_index rs mx)), int (run_index rs mx) + 1, uis2)"
      and "uis_repr nodes invar uis2 rs" "CheckLevel uis2 = CheckLevel uis1" using 2 by auto
    ultimately show ?thesis using 2 same_run_full [OF good] by (auto simp: AddOneInRange_def)
  next
    case 3
    from AddOneInRange_pick [OF r 3(1) intn int63n 3(2)] obtain x uis' rs' where
      pick: "AddOneInRange ops intn int63n uis mn mx = Inr (x, True, uis')"
        "x \<in> {mn..mx} - runs_set rs" "uis_repr nodes invar uis' rs'"
        "runs_set rs' = insert x (runs_set rs)" "CheckLevel uis' = CheckLevel uis"
      by blast
    then have "\<not> {mn..mx} \<subseteq> runs_set rs" by blast
    with pick show ?thesis by auto
  qed
qed

end

end
