(* ===== verification/Uint32_Export.thy ===== *)
theory Uint32_Export
  imports Uint32_Choose
begin

text \<open>
  The read-outs of a \<open>SortedUInt32Set\<close>: with more fuel than there are runs, \<open>Export\<close> returns the
  members in strictly increasing order and \<open>RExport\<close> and \<open>String\<close> the runs.
\<close>

lemma export_run_set:
  "x \<le> l \<Longrightarrow> set (export_run x l) = {x..l} \<and> sorted_wrt (<) (export_run x l)"
proof (induction x l rule: export_run.induct)
  case (1 x l)
  show ?case
  proof (cases "x = l")
    case True
    then show ?thesis by (simp add: export_run.simps)
  next
    case False
    with 1(2) have xl: "x < l" by simp
    note t = interval_tail [OF xl]
    note IH = 1(1) [OF xl [unfolded not_le [symmetric]] t(3)]
    moreover note interval_insert [OF xl]
    moreover have "export_run x l = x # export_run (x + 1) l"
      using xl by (subst export_run.simps) (simp add: not_le [symmetric])
    ultimately show ?thesis using t(2) by (auto intro: order.strict_trans2)
  qed
qed

definition run_members :: "run list \<Rightarrow> uint32 list" where
  "run_members rs = concat (map (\<lambda>r. export_run (fst r) (snd r)) rs)"

definition run_bounds :: "run list \<Rightarrow> uint32 list" where
  "run_bounds rs = concat (map (\<lambda>r. [fst r, snd r]) rs)"

lemma run_members_set: "good_runs rs \<Longrightarrow> set (run_members rs) = runs_set rs"
  by (auto simp: run_members_def runs_set_def good_runs_def export_run_set)

lemma run_members_sorted: "good_runs rs \<Longrightarrow> sorted_wrt (<) (run_members rs)"
proof (induction rs)
  case (Cons r rs)
  have le: "fst r \<le> snd r" and good: "good_runs rs" using Cons.prems by (simp_all add: good_runs_simps)
  have "\<forall>s\<in>set rs. snd r < fst s"
    using Cons.prems by (fastforce simp: good_runs_simps word_less_nat_alt)
  then have "\<forall>y\<in>set (run_members rs). snd r < y"
    using run_members_set [OF good] runs_set_bound_below by metis
  then show ?case using Cons.IH [OF good] export_run_set [OF le]
    by (fastforce simp: run_members_def sorted_wrt_append)
qed (simp add: run_members_def)

lemma runs_text_bounds:
  "runs_text (run_bounds rs) = map (\<lambda>r. sprintf_08x (fst r) @ ''--'' @ sprintf_08x (snd r)) rs"
  by (induction rs) (simp_all add: run_bounds_def)

context sorted_set
begin

lemma export_loop_ok:
  assumes "invar ss" "nodes ss = map mk_node rs"
  shows "i \<le> length rs \<Longrightarrow> length rs < i + fuel \<Longrightarrow>
    export_loop fuel ops ss (int i + 1) = Some (run_members (drop i rs)) \<and>
    rexport_loop fuel ops ss (int i + 1) = Some (run_bounds (drop i rs))"
proof (induction fuel arbitrary: i)
  case (Suc fuel)
  show ?case
  proof (cases "i < length rs")
    case True
    then have "ss_GetByRank ops ss (int i + 1) = Some (mk_node (rs ! i))"
      using assms by (simp add: GetByRank at_rank_def)
    moreover have "drop i rs = rs ! i # drop (Suc i) rs" using True by (rule Cons_nth_drop_Suc [symmetric])
    moreover have "export_loop fuel ops ss (2 + int i) = Some (run_members (drop (Suc i) rs))"
      "rexport_loop fuel ops ss (2 + int i) = Some (run_bounds (drop (Suc i) rs))"
      using Suc.IH [of "Suc i"] Suc.prems True by simp_all
    ultimately show ?thesis by (simp add: run_members_def run_bounds_def)
  next
    case False
    then have "i = length rs" using Suc.prems by simp
    then show ?thesis using assms by (simp add: GetByRank at_rank_def run_members_def run_bounds_def)
  qed
qed simp

lemma Export_ok:
  assumes "uis_repr nodes invar uis rs" "length rs < fuel"
  shows "Export fuel ops uis = Some (run_members rs)" "RExport fuel ops uis = Some (run_bounds rs)"
  using export_loop_ok [of "uis_ss uis" rs 0 fuel] assms
  by (simp_all add: Export_def RExport_def uis_repr_def)

lemma Export_correct:
  assumes r: "uis_repr nodes invar uis rs" and "length rs < fuel"
  shows "\<exists>xs. Export fuel ops uis = Some xs \<and> sorted_wrt (<) xs \<and> set xs = runs_set rs"
  using Export_ok(1) [OF assms] r run_members_set run_members_sorted by (simp add: uis_repr_def)

lemma String_correct:
  assumes "uis_repr nodes invar uis rs" "length rs < fuel"
  shows "uis_String fuel ops uis =
    Some (''{'' @ join '', '' (map (\<lambda>r. sprintf_08x (fst r) @ ''--'' @ sprintf_08x (snd r)) rs) @ ''}'')"
  using Export_ok(2) [OF assms] by (simp add: uis_String_def runs_text_bounds)

lemma New_correct: "uis_repr nodes invar (NewSortedUInt32Set ops level) []"
  by (simp add: uis_repr_def NewSortedUInt32Set_def invar_New nodes_New)

lemma IsEmpty_correct:
  assumes "uis_repr nodes invar uis rs"
  shows "IsEmpty ops uis \<longleftrightarrow> runs_set rs = {}"
  using assms by (cases rs) (auto simp: IsEmpty_def uis_repr_def GetCount good_runs_simps)

end

end
