(* ===== verification/Uint32_Hash.thy ===== *)
theory Uint32_Hash
  imports Uint32_Export
begin

text \<open>
  \<open>pkg/uint32set/hashset.go\<close>: the reference implementation of \<open>UInt32Set\<close>, a map with low and
  high water marks, and the checker of the choices a \<open>UInt32SetChooser\<close> makes. The loops go from
  the low to the high mark; they end because the high mark bounds them.
\<close>

section \<open>The model\<close>

record HashUInt32Set =
  low :: uint32
  high :: uint32
  members :: "uint32 set"

definition Last :: uint32 where
  "Last = 4294967295"

definition NewHashUInt32Set :: HashUInt32Set where
  "NewHashUInt32Set = \<lparr>low = Last, high = 0, members = {}\<rparr>"

definition hash_IsEmpty :: "HashUInt32Set \<Rightarrow> bool" where
  "hash_IsEmpty huis \<longleftrightarrow> members huis = {}"

definition hash_Has :: "HashUInt32Set \<Rightarrow> uint32 \<Rightarrow> bool" where
  "hash_Has huis x \<longleftrightarrow> x \<in> members huis"

definition hash_Add :: "HashUInt32Set \<Rightarrow> uint32 \<Rightarrow> bool \<times> HashUInt32Set" where
  "hash_Add huis x =
     (if x \<in> members huis then (False, huis)
      else (True, \<lparr>low = (if x < low huis then x else low huis),
                   high = (if high huis < x then x else high huis),
                   members = insert x (members huis)\<rparr>))"

definition CouldAddInRange :: "HashUInt32Set \<Rightarrow> uint32 \<Rightarrow> uint32 \<Rightarrow> uint32 \<Rightarrow> bool
    \<Rightarrow> bool \<times> HashUInt32Set" where
  "CouldAddInRange huis mn mx x could =
     (if x < mn \<or> mx < x then (False = could, huis)
      else
        (let c = (\<not> hash_Has huis x);
             huis' = (if c then snd (hash_Add huis x) else huis)
         in (c = could, huis')))"

definition hash_Remove :: "HashUInt32Set \<Rightarrow> uint32 \<Rightarrow> bool \<times> HashUInt32Set" where
  "hash_Remove huis x =
     (if x \<notin> members huis then (False, huis)
      else
        (let ms = members huis - {x} in
         if ms = {} then (True, \<lparr>low = Last, high = 0, members = ms\<rparr>)
         else (True, huis\<lparr>members := ms\<rparr>)))"

function hash_export_loop :: "uint32 set \<Rightarrow> uint32 \<Rightarrow> uint32 \<Rightarrow> uint32 list" where
  "hash_export_loop ms h x =
     (if x \<in> ms then [x] else []) @ (if h \<le> x then [] else hash_export_loop ms h (x + 1))"
  by pat_completeness auto
termination
  by (relation "measure (\<lambda>(ms, h, x). unat h - unat x)")
     (auto simp: not_le unat_plus_one word_less_nat_alt)

declare hash_export_loop.simps [simp del]

definition hash_Export :: "HashUInt32Set \<Rightarrow> uint32 list" where
  "hash_Export huis = hash_export_loop (members huis) (high huis) (low huis)"

text \<open>The loop of \<open>RExport\<close>, with the flag \<open>isin\<close>; the last bound is appended after the loop.\<close>

function hash_rexport_loop :: "uint32 set \<Rightarrow> uint32 \<Rightarrow> uint32 \<Rightarrow> bool \<Rightarrow> uint32 list" where
  "hash_rexport_loop ms h x isin =
     (let ok = (x \<in> ms);
          out = (if ok \<and> \<not> isin then [x] else if isin \<and> \<not> ok then [x - 1] else []);
          isin' = (if ok \<and> \<not> isin then True else if isin \<and> \<not> ok then False else isin)
      in out @ (if h \<le> x then (if isin' then [x] else [])
                else hash_rexport_loop ms h (x + 1) isin'))"
  by pat_completeness auto
termination
  by (relation "measure (\<lambda>(ms, h, x, isin). unat h - unat x)")
     (auto simp: not_le unat_plus_one word_less_nat_alt)

declare hash_rexport_loop.simps [simp del]

definition hash_RExport :: "HashUInt32Set \<Rightarrow> uint32 list" where
  "hash_RExport huis = hash_rexport_loop (members huis) (high huis) (low huis) False"

function hash_string_loop :: "uint32 set \<Rightarrow> uint32 \<Rightarrow> uint32 \<Rightarrow> bool \<Rightarrow> string" where
  "hash_string_loop ms h x gotSome =
     (if x \<in> ms then (if gotSome then '', '' else '''') @ sprintf_08x x else '''') @
     (if h \<le> x then '''' else hash_string_loop ms h (x + 1) (gotSome \<or> x \<in> ms))"
  by pat_completeness auto
termination
  by (relation "measure (\<lambda>(ms, h, x, gotSome). unat h - unat x)")
     (auto simp: not_le unat_plus_one word_less_nat_alt)

declare hash_string_loop.simps [simp del]

definition hash_String :: "HashUInt32Set \<Rightarrow> string" where
  "hash_String huis = ''{'' @ hash_string_loop (members huis) (high huis) (low huis) False @ ''}''"

section \<open>The water marks\<close>

definition hash_invar :: "HashUInt32Set \<Rightarrow> bool" where
  "hash_invar huis \<longleftrightarrow>
     (if members huis = {} then low huis = Last \<and> high huis = 0
      else (\<forall>x\<in>members huis. low huis \<le> x \<and> x \<le> high huis))"

lemma hash_invar_New: "hash_invar NewHashUInt32Set"
  by (simp add: hash_invar_def NewHashUInt32Set_def)

lemma hash_Add_invar:
  assumes "hash_invar huis"
  shows "hash_invar (snd (hash_Add huis x))"
  using assms by (cases "members huis = {}")
    (auto simp: hash_invar_def hash_Add_def Last_def word_less_nat_alt word_le_nat_alt
       split: if_splits)

lemma hash_Remove_invar: "hash_invar huis \<Longrightarrow> hash_invar (snd (hash_Remove huis x))"
  by (auto simp: hash_invar_def hash_Remove_def Let_def split: if_splits)

lemma hash_Add_members [simp]:
  "members (snd (hash_Add huis x)) = insert x (members huis)"
  "fst (hash_Add huis x) \<longleftrightarrow> x \<notin> members huis"
  by (auto simp: hash_Add_def)

lemma hash_Remove_members [simp]:
  "members (snd (hash_Remove huis x)) = members huis - {x}"
  "fst (hash_Remove huis x) \<longleftrightarrow> x \<in> members huis"
  by (auto simp: hash_Remove_def Let_def)

section \<open>Export\<close>

lemma hash_export_loop_step:
  "x < h \<Longrightarrow> hash_export_loop ms h x = (if x \<in> ms then [x] else []) @ hash_export_loop ms h (x + 1)"
  by (subst hash_export_loop.simps) (simp add: not_le [symmetric])

lemma hash_export_loop_last: "h \<le> x \<Longrightarrow> hash_export_loop ms h x = (if x \<in> ms then [x] else [])"
  by (subst hash_export_loop.simps) simp

lemma hash_export_loop_set:
  "x \<le> h \<Longrightarrow> set (hash_export_loop ms h x) = {x..h} \<inter> ms \<and> sorted_wrt (<) (hash_export_loop ms h x)"
proof (induction ms h x rule: hash_export_loop.induct)
  case (1 ms h x)
  show ?case
  proof (cases "x = h")
    case True
    then show ?thesis by (simp add: hash_export_loop_last)
  next
    case False
    with 1(2) have xh: "x < h" by simp
    note t = interval_tail [OF xh]
    note IH = 1(1) [OF xh [unfolded not_le [symmetric]] t(3)]
    moreover note interval_insert [OF xh]
    ultimately show ?thesis using t(2)
      by (auto simp: hash_export_loop_step [OF xh] intro: order.strict_trans2)
  qed
qed

lemma hash_Export_correct:
  assumes "hash_invar huis"
  shows "sorted_wrt (<) (hash_Export huis) \<and> set (hash_Export huis) = members huis"
proof (cases "members huis = {}")
  case True
  then show ?thesis using assms
    by (simp add: hash_Export_def hash_invar_def hash_export_loop_last Last_def)
next
  case False
  then have "\<forall>x\<in>members huis. low huis \<le> x \<and> x \<le> high huis" using assms by (simp add: hash_invar_def)
  moreover from this False have "low huis \<le> high huis" by (meson all_not_in_conv order_trans)
  ultimately show ?thesis
    using hash_export_loop_set [of "low huis" "high huis" "members huis"]
    by (auto simp: hash_Export_def)
qed

section \<open>RExport\<close>

lemma run_bounds_simps [simp]:
  "run_bounds [] = []" "run_bounds (r # rs) = fst r # snd r # run_bounds rs"
  by (simp_all add: run_bounds_def)

lemma good_runs_consI:
  assumes "good_runs rs" "runs_set rs \<subseteq> {c..}" "unat b + 1 < unat c" "a \<le> b"
  shows "good_runs ((a, b) # rs)"
proof -
  have "c \<le> fst s" if "s \<in> set rs" for s
    using that assms(1,2) good_runs_le [OF assms(1) that] by (fastforce simp: runs_set_def)
  then show ?thesis using assms(1,3,4) by (fastforce simp: good_runs_simps word_le_nat_alt)
qed

text \<open>One turn of the loop, for each value of the flag and of the membership test.\<close>

lemma hash_rexport_loop_step:
  assumes "x < h"
  shows "x \<in> ms \<Longrightarrow> hash_rexport_loop ms h x False = x # hash_rexport_loop ms h (x + 1) True"
    "x \<notin> ms \<Longrightarrow> hash_rexport_loop ms h x False = hash_rexport_loop ms h (x + 1) False"
    "x \<in> ms \<Longrightarrow> hash_rexport_loop ms h x True = hash_rexport_loop ms h (x + 1) True"
    "x \<notin> ms \<Longrightarrow> hash_rexport_loop ms h x True = (x - 1) # hash_rexport_loop ms h (x + 1) False"
  using assms by (subst hash_rexport_loop.simps, simp add: Let_def not_le [symmetric])+

lemma hash_rexport_loop_last:
  "hash_rexport_loop ms h h False = (if h \<in> ms then [h, h] else [])"
  "hash_rexport_loop ms h h True = (if h \<in> ms then [h] else [h - 1])"
  by (subst hash_rexport_loop.simps, simp add: Let_def)+

definition runs_of :: "uint32 list \<Rightarrow> uint32 set \<Rightarrow> bool" where
  "runs_of xs S \<longleftrightarrow> (\<exists>rs. xs = run_bounds rs \<and> good_runs rs \<and> runs_set rs = S)"

lemma runs_of_Nil: "runs_of [] {}"
  unfolding runs_of_def by (intro exI [of _ "[]"]) simp

lemma runs_of_single: "a \<le> b \<Longrightarrow> runs_of [a, b] {a..b}"
  unfolding runs_of_def by (intro exI [of _ "[(a, b)]"]) (simp add: good_runs_simps)

lemma runs_of_cons:
  assumes "runs_of xs S" "S \<subseteq> {c..}" "unat b + 1 < unat c" "a \<le> b"
  shows "runs_of (a # b # xs) ({a..b} \<union> S)"
proof -
  from assms(1) obtain rs where "xs = run_bounds rs" "good_runs rs" "runs_set rs = S"
    by (auto simp: runs_of_def)
  with assms show ?thesis using good_runs_consI [of rs c b a]
    unfolding runs_of_def by (intro exI [of _ "(a, b) # rs"]) simp
qed

lemma hash_rexport_loop_runs:
  assumes "x \<le> h"
  shows "runs_of (hash_rexport_loop ms h x False) ({x..h} \<inter> ms) \<and>
    (\<forall>a<x. runs_of (a # hash_rexport_loop ms h x True) ({a..x - 1} \<union> ({x..h} \<inter> ms)))"
  using assms
proof (induction "unat h - unat x" arbitrary: x)
  case 0
  then have "x = h" by (simp add: word_le_nat_alt word_unat_eq_iff)
  moreover have "runs_of [a, h] (insert h {a..h - 1})" if "a < h" for a
    using runs_of_single [of a h] interval_init_insert [OF that] that by simp
  ultimately show ?case
    using runs_of_Nil runs_of_single [of h h] runs_of_single interval_init(3)
    by (auto simp: hash_rexport_loop_last Int_insert_left)
next
  case (Suc n)
  then have xh: "x < h" by (simp add: word_less_nat_alt)
  note t = interval_tail [OF xh] and ins = interval_insert [OF xh]
  have nx: "unat (x + 1) = unat x + 1" using xh by (rule unat_plus_one)
  have IH: "runs_of (hash_rexport_loop ms h (x + 1) False) ({x + 1..h} \<inter> ms)"
    "\<And>a. a \<le> x \<Longrightarrow> runs_of (a # hash_rexport_loop ms h (x + 1) True) ({a..x} \<union> ({x + 1..h} \<inter> ms))"
    using Suc.hyps(1) [of "x + 1"] Suc.hyps(2) t(2,3) nx by (simp_all add: order.strict_trans1)
  have "runs_of (hash_rexport_loop ms h x False) ({x..h} \<inter> ms)"
    using IH(1) IH(2) [of x] by (cases "x \<in> ms") (auto simp: hash_rexport_loop_step [OF xh] ins)
  moreover have "runs_of (a # hash_rexport_loop ms h x True) ({a..x - 1} \<union> ({x..h} \<inter> ms))"
    if a: "a < x" for a
  proof (cases "x \<in> ms")
    case True
    have "{a..x} \<union> ({x + 1..h} \<inter> ms) = {a..x - 1} \<union> ({x..h} \<inter> ms)" using True ins interval_init_insert [OF a] by simp
    with IH(2) [of a] a True show ?thesis by (simp add: hash_rexport_loop_step [OF xh])
  next
    case False
    have "unat (x - 1) + 1 < unat (x + 1)"
      using interval_init(2) [OF a] nx by (simp add: word_less_nat_alt)
    moreover have "{x + 1..h} \<inter> ms \<subseteq> {x + 1..}" by auto
    ultimately show ?thesis
      using runs_of_cons [OF IH(1), of "x + 1" "x - 1" a] interval_init(3) [OF a] False ins
      by (simp add: hash_rexport_loop_step [OF xh])
  qed
  ultimately show ?case by blast
qed

lemma hash_RExport_correct:
  assumes "hash_invar huis"
  shows "runs_of (hash_RExport huis) (members huis)"
proof (cases "members huis = {}")
  case True
  then show ?thesis using assms runs_of_Nil
    by (simp add: hash_RExport_def hash_invar_def hash_rexport_loop.simps Last_def)
next
  case False
  then have m: "\<forall>x\<in>members huis. low huis \<le> x \<and> x \<le> high huis" using assms by (simp add: hash_invar_def)
  with False have "low huis \<le> high huis" by (meson all_not_in_conv order_trans)
  moreover have "{low huis..high huis} \<inter> members huis = members huis" using m by auto
  ultimately show ?thesis
    using hash_rexport_loop_runs [of "low huis" "high huis" "members huis"]
    by (simp add: hash_RExport_def)
qed

end
