(* ===== verification/Uint32_Interface.thy ===== *)
theory Uint32_Interface
  imports Uint32_Hash
begin

text \<open>
  \<open>pkg/uint32set/types.go\<close>: the interfaces \<open>UInt32Set\<close> and \<open>UInt32SetChooser\<close> as locales, with
  what their comments promise as laws over the set of members, and their interpretation by the
  two implementations. The client of the interface is a sequence of operations; every
  implementation answers it as a mathematical set does, so the two implementations agree.
\<close>

section \<open>Sequences of operations\<close>

datatype set_op = OpHas uint32 | OpAdd uint32 | OpRemove uint32

fun set_step :: "('s \<Rightarrow> uint32 \<Rightarrow> 'p + bool \<times> 's) \<Rightarrow> ('s \<Rightarrow> uint32 \<Rightarrow> 'p + bool \<times> 's)
    \<Rightarrow> ('s \<Rightarrow> uint32 \<Rightarrow> 'p + bool \<times> 's) \<Rightarrow> 's \<Rightarrow> set_op \<Rightarrow> 'p + bool \<times> 's" where
  "set_step has add remove s (OpHas x) = has s x"
| "set_step has add remove s (OpAdd x) = add s x"
| "set_step has add remove s (OpRemove x) = remove s x"

fun set_run :: "('s \<Rightarrow> set_op \<Rightarrow> 'p + bool \<times> 's) \<Rightarrow> 's \<Rightarrow> set_op list \<Rightarrow> 'p + bool list \<times> 's" where
  "set_run step s [] = Inr ([], s)"
| "set_run step s (op # ops) =
     (case step s op of
        Inl p \<Rightarrow> Inl p
      | Inr (b, s') \<Rightarrow> map_sum id (map_prod (Cons b) id) (set_run step s' ops))"

text \<open>The abstract specification: the operations of a mathematical set.\<close>

fun spec_step :: "uint32 set \<Rightarrow> set_op \<Rightarrow> bool \<times> uint32 set" where
  "spec_step S (OpHas x) = (x \<in> S, S)"
| "spec_step S (OpAdd x) = (x \<notin> S, insert x S)"
| "spec_step S (OpRemove x) = (x \<in> S, S - {x})"

fun spec_run :: "uint32 set \<Rightarrow> set_op list \<Rightarrow> bool list \<times> uint32 set" where
  "spec_run S [] = ([], S)"
| "spec_run S (op # ops) =
     (let (b, S') = spec_step S op; (bs, S'') = spec_run S' ops in (b # bs, S''))"

section \<open>The interfaces\<close>

locale uint32_set =
  fixes new :: 's
    and is_empty :: "'s \<Rightarrow> bool"
    and has :: "'s \<Rightarrow> uint32 \<Rightarrow> 'p + bool \<times> 's"
    and add :: "'s \<Rightarrow> uint32 \<Rightarrow> 'p + bool \<times> 's"
    and remove :: "'s \<Rightarrow> uint32 \<Rightarrow> 'p + bool \<times> 's"
    and export :: "'s \<Rightarrow> uint32 list option"
    and rexport :: "'s \<Rightarrow> uint32 list option"
    and ok :: "'s \<Rightarrow> bool"
    and contents :: "'s \<Rightarrow> uint32 set"
  assumes new_ok: "ok new" "contents new = {}"
    and is_empty: "ok s \<Longrightarrow> is_empty s \<longleftrightarrow> contents s = {}"
    and has: "ok s \<Longrightarrow> \<exists>s'. has s x = Inr (x \<in> contents s, s') \<and> ok s' \<and> contents s' = contents s"
    and add: "ok s \<Longrightarrow> \<exists>s'. add s x = Inr (x \<notin> contents s, s') \<and> ok s' \<and> contents s' = insert x (contents s)"
    and remove: "ok s \<Longrightarrow> \<exists>s'. remove s x = Inr (x \<in> contents s, s') \<and> ok s' \<and> contents s' = contents s - {x}"
    and export: "ok s \<Longrightarrow> \<exists>xs. export s = Some xs \<and> sorted_wrt (<) xs \<and> set xs = contents s"
    and rexport: "ok s \<Longrightarrow> \<exists>xs. rexport s = Some xs \<and> runs_of xs (contents s)"
begin

lemma step_refines:
  assumes "ok s"
  shows "\<exists>s'. set_step has add remove s op = Inr (fst (spec_step (contents s) op), s') \<and> ok s' \<and>
    contents s' = snd (spec_step (contents s) op)"
  using has [OF assms] add [OF assms] remove [OF assms] by (cases op) simp_all

lemma run_refines:
  "ok s \<Longrightarrow> \<exists>s'. set_run (set_step has add remove) s ops = Inr (fst (spec_run (contents s) ops), s') \<and>
    ok s' \<and> contents s' = snd (spec_run (contents s) ops)"
proof (induction ops arbitrary: s)
  case (Cons op ops)
  from step_refines [OF Cons.prems, of op] obtain s1 where s1:
    "set_step has add remove s op = Inr (fst (spec_step (contents s) op), s1)" "ok s1"
    "contents s1 = snd (spec_step (contents s) op)" by blast
  from Cons.IH [OF s1(2)] s1 show ?case by (auto split: prod.split)
qed simp

lemma run_from_new:
  "\<exists>s'. set_run (set_step has add remove) new ops = Inr (fst (spec_run {} ops), s') \<and>
    ok s' \<and> contents s' = snd (spec_run {} ops)"
  using run_refines [OF new_ok(1), of ops] new_ok(2) by simp

end

locale uint32_set_chooser = uint32_set +
  fixes add_one :: "'a \<Rightarrow> uint32 \<Rightarrow> uint32 \<Rightarrow> 'b + uint32 \<times> bool \<times> 'a"
  assumes add_one: "ok s \<Longrightarrow> \<exists>x s'. add_one s mn mx = Inr (x, \<not> {mn..mx} \<subseteq> contents s, s') \<and> ok s' \<and>
      (if {mn..mx} \<subseteq> contents s then x = 0 \<and> contents s' = contents s
       else x \<in> {mn..mx} - contents s \<and> contents s' = insert x (contents s))"
begin

text \<open>
  The checker of the reference implementation accepts every answer of every chooser, and the
  two sets stay equal.
\<close>

lemma checker_accepts:
  assumes "ok s" "contents s = members huis"
  shows "\<exists>x b s' huis'. add_one s mn mx = Inr (x, b, s') \<and>
    CouldAddInRange huis mn mx x b = (True, huis') \<and> ok s' \<and> contents s' = members huis'"
proof -
  from add_one [OF assms(1), of mn mx] obtain x s' where
    s': "add_one s mn mx = Inr (x, \<not> {mn..mx} \<subseteq> contents s, s')" "ok s'"
    and x: "if {mn..mx} \<subseteq> contents s then x = 0 \<and> contents s' = contents s
       else x \<in> {mn..mx} - contents s \<and> contents s' = insert x (contents s)" by blast
  show ?thesis
  proof (cases "{mn..mx} \<subseteq> contents s")
    case True
    then have "0 < mn \<or> 0 \<in> members huis"
      using assms(2) by (cases "mn = 0") (auto simp: word_gt_0 subset_iff)
    then have "CouldAddInRange huis mn mx 0 False = (True, huis)"
      by (auto simp: CouldAddInRange_def hash_Has_def Let_def)
    with True s' x assms(2) show ?thesis by auto
  next
    case False
    then have "CouldAddInRange huis mn mx x True = (True, snd (hash_Add huis x))"
      using x assms(2) by (auto simp: CouldAddInRange_def hash_Has_def Let_def)
    with False s' x assms(2) show ?thesis by (auto intro!: exI)
  qed
qed

end

section \<open>The hash set\<close>

interpretation hash: uint32_set
  NewHashUInt32Set hash_IsEmpty "\<lambda>s x. Inr (hash_Has s x, s)" "\<lambda>s x. Inr (hash_Add s x)"
  "\<lambda>s x. Inr (hash_Remove s x)" "\<lambda>s. Some (hash_Export s)" "\<lambda>s. Some (hash_RExport s)"
  hash_invar members
  by unfold_locales
    (simp_all add: hash_invar_New NewHashUInt32Set_def [THEN arg_cong [where f = members]]
      hash_IsEmpty_def hash_Has_def hash_Add_invar hash_Remove_invar hash_Export_correct
      hash_RExport_correct prod_eq_iff)

section \<open>The sorted set\<close>

text \<open>The abstraction: the runs a set stands for, and the fuel that its exports need.\<close>

definition uis_runs :: "('ss \<Rightarrow> ss_node list) \<Rightarrow> 'ss sorted_uint32_set \<Rightarrow> run list" where
  "uis_runs nodes uis = map (\<lambda>n. (score_u32 n, node_value n)) (nodes (uis_ss uis))"

definition uis_ok :: "('ss \<Rightarrow> ss_node list) \<Rightarrow> ('ss \<Rightarrow> bool) \<Rightarrow> 'ss sorted_uint32_set \<Rightarrow> bool" where
  "uis_ok nodes invar uis \<longleftrightarrow> uis_repr nodes invar uis (uis_runs nodes uis)"

definition uis_fuel :: "'ss sorted_set_ops \<Rightarrow> 'ss sorted_uint32_set \<Rightarrow> nat" where
  "uis_fuel ops uis = Suc (nat (ss_GetCount ops (uis_ss uis)))"

lemma uis_runs_repr: "uis_repr nodes invar uis rs \<Longrightarrow> uis_runs nodes uis = rs"
  by (simp add: uis_repr_def uis_runs_def comp_def)

lemma uis_ok_iff: "uis_ok nodes invar uis \<longleftrightarrow> (\<exists>rs. uis_repr nodes invar uis rs)"
  unfolding uis_ok_def using uis_runs_repr by metis

lemma uis_okI: "uis_repr nodes invar uis rs \<Longrightarrow>
    uis_ok nodes invar uis \<and> runs_set (uis_runs nodes uis) = runs_set rs"
  using uis_runs_repr uis_ok_def by metis

context sorted_set
begin

lemma uis_fuel_enough: "uis_repr nodes invar uis rs \<Longrightarrow> length rs < uis_fuel ops uis"
  by (simp add: uis_repr_def uis_fuel_def GetCount)

end

sublocale sorted_set \<subseteq> uis: uint32_set
  "NewSortedUInt32Set ops level" "IsEmpty ops" "Has ops" "Add ops" "Remove ops"
  "\<lambda>s. Export (uis_fuel ops s) ops s" "\<lambda>s. RExport (uis_fuel ops s) ops s"
  "uis_ok nodes invar" "\<lambda>s. runs_set (uis_runs nodes s)" for level
proof
  show "uis_ok nodes invar (NewSortedUInt32Set ops level)"
    "runs_set (uis_runs nodes (NewSortedUInt32Set ops level)) = {}"
    using uis_okI [OF New_correct] by simp_all
next
  fix s :: "'ss sorted_uint32_set" and x
  assume "uis_ok nodes invar s"
  then have r: "uis_repr nodes invar s (uis_runs nodes s)" by (simp add: uis_ok_def)
  show "IsEmpty ops s = (runs_set (uis_runs nodes s) = {})" using r by (rule IsEmpty_correct)
  show "\<exists>s'. Has ops s x = Inr (x \<in> runs_set (uis_runs nodes s), s') \<and> uis_ok nodes invar s' \<and>
      runs_set (uis_runs nodes s') = runs_set (uis_runs nodes s)"
    using Has_correct [OF r, of x] uis_okI by metis
  show "\<exists>s'. Add ops s x = Inr (x \<notin> runs_set (uis_runs nodes s), s') \<and> uis_ok nodes invar s' \<and>
      runs_set (uis_runs nodes s') = insert x (runs_set (uis_runs nodes s))"
    using Add_correct [OF r, of x] uis_okI by metis
  show "\<exists>s'. Remove ops s x = Inr (x \<in> runs_set (uis_runs nodes s), s') \<and> uis_ok nodes invar s' \<and>
      runs_set (uis_runs nodes s') = runs_set (uis_runs nodes s) - {x}"
    using Remove_correct [OF r, of x] uis_okI by metis
  show "\<exists>xs. Export (uis_fuel ops s) ops s = Some xs \<and> sorted_wrt (<) xs \<and>
      set xs = runs_set (uis_runs nodes s)"
    using r uis_fuel_enough [OF r] by (rule Export_correct)
  show "\<exists>xs. RExport (uis_fuel ops s) ops s = Some xs \<and> runs_of xs (runs_set (uis_runs nodes s))"
    using Export_ok(2) [OF r uis_fuel_enough [OF r]] r by (auto simp: runs_of_def uis_repr_def)
qed

context sorted_set
begin

lemmas set_run_from_new = uis.run_from_new
lemmas set_export = uis.export
lemmas set_rexport = uis.rexport

end

text \<open>The sorted set with a source of random numbers that stays below its bound.\<close>

locale random_sorted_set = sorted_set +
  fixes intn int63n :: "int \<Rightarrow> int"
  assumes intn: "0 < n \<Longrightarrow> 0 \<le> intn n \<and> intn n < n"
    and int63n: "0 < n \<Longrightarrow> 0 \<le> int63n n \<and> int63n n < n"

sublocale random_sorted_set \<subseteq> uis: uint32_set_chooser
  "NewSortedUInt32Set ops level" "IsEmpty ops" "Has ops" "Add ops" "Remove ops"
  "\<lambda>s. Export (uis_fuel ops s) ops s" "\<lambda>s. RExport (uis_fuel ops s) ops s"
  "uis_ok nodes invar" "\<lambda>s. runs_set (uis_runs nodes s)" "AddOneInRange ops intn int63n" for level
proof
  fix s :: "'a sorted_uint32_set" and mn mx
  assume "uis_ok nodes invar s"
  then have r: "uis_repr nodes invar s (uis_runs nodes s)" by (simp add: uis_ok_def)
  from AddOneInRange_correct [OF r intn int63n, of mn mx] obtain x s' rs' where
    "AddOneInRange ops intn int63n s mn mx = Inr (x, \<not> {mn..mx} \<subseteq> runs_set (uis_runs nodes s), s')"
    "if {mn..mx} \<subseteq> runs_set (uis_runs nodes s) then x = 0 else x \<in> {mn..mx} - runs_set (uis_runs nodes s)"
    "uis_repr nodes invar s' rs'"
    "runs_set rs' = (if {mn..mx} \<subseteq> runs_set (uis_runs nodes s) then runs_set (uis_runs nodes s)
       else insert x (runs_set (uis_runs nodes s)))" by blast
  with uis_okI [of nodes invar s' rs']
  show "\<exists>x s'. AddOneInRange ops intn int63n s mn mx =
        Inr (x, \<not> {mn..mx} \<subseteq> runs_set (uis_runs nodes s), s') \<and> uis_ok nodes invar s' \<and>
      (if {mn..mx} \<subseteq> runs_set (uis_runs nodes s)
       then x = 0 \<and> runs_set (uis_runs nodes s') = runs_set (uis_runs nodes s)
       else x \<in> {mn..mx} - runs_set (uis_runs nodes s) \<and>
         runs_set (uis_runs nodes s') = insert x (runs_set (uis_runs nodes s)))"
    by (cases "{mn..mx} \<subseteq> runs_set (uis_runs nodes s)") simp_all
qed

context random_sorted_set
begin

lemmas set_add_one = uis.add_one
lemmas set_checker_accepts = uis.checker_accepts

end

interpretation list_rss: random_sorted_set list_ops "\<lambda>ns. ns" "\<lambda>_. True" "\<lambda>_. 0" "\<lambda>n. n - 1"
  by unfold_locales auto

section \<open>The two implementations agree\<close>

text \<open>A set of numbers has one representation by runs.\<close>

lemma runs_first_unique:
  assumes "good_runs (r # rs)" "good_runs (s # ss)" "runs_set (r # rs) = runs_set (s # ss)"
  shows "fst r \<le> fst s"
proof -
  have "fst s \<in> runs_set (r # rs)" using assms by (simp add: good_runs_simps)
  then show ?thesis
    using assms(1) runs_set_bound_below [of rs "fst r" "fst s"] good_right_greater [of "[]" "fst r" "snd r" rs]
    by auto
qed

lemma runs_last_unique:
  assumes "good_runs (r # rs)" "good_runs (s # ss)" "runs_set (r # rs) = runs_set (s # ss)"
    and "fst r = fst s"
  shows "snd r \<le> snd s"
proof (rule ccontr)
  assume "\<not> snd r \<le> snd s"
  then have "snd s < snd r" by simp
  note t = interval_tail(2,3) [OF this] unat_plus_one [OF this]
  have "fst s \<le> snd s" using assms(2) by (simp add: good_runs_simps)
  then have "snd s + 1 \<in> {fst r..snd r}" using t assms(4) by (auto intro: order_trans less_imp_le)
  then have "snd s + 1 \<in> runs_set (r # rs)" by simp
  then have "snd s + 1 \<in> runs_set (s # ss)" unfolding assms(3) .
  moreover have "\<forall>q\<in>set ss. snd s + 1 < fst q"
    using assms(2) t(3) by (fastforce simp: good_runs_simps word_less_nat_alt)
  ultimately show False
    using runs_set_bound_below [of ss "snd s + 1" "snd s + 1"] t(1) by auto
qed

lemma runs_tail:
  assumes "good_runs (r # rs)"
  shows "runs_set rs = runs_set (r # rs) - {fst r..snd r}"
proof -
  have "x \<notin> runs_set rs" if "x \<in> {fst r..snd r}" for x
    using good_runs_disjoint(2) [of "[]" "fst r" "snd r" rs x] assms that by simp
  then show ?thesis unfolding runs_set_simps by blast
qed

lemma runs_unique: "good_runs rs \<Longrightarrow> good_runs ss \<Longrightarrow> runs_set rs = runs_set ss \<Longrightarrow> rs = ss"
proof (induction rs arbitrary: ss)
  case Nil
  then show ?case by (cases ss) (auto simp: good_runs_simps)
next
  case (Cons r rs)
  then obtain s ss' where ss: "ss = s # ss'" by (cases ss) (auto simp: good_runs_simps)
  note p = Cons.prems [unfolded ss]
  have f: "fst r = fst s"
    using runs_first_unique [OF p] runs_first_unique [OF p(2,1) p(3) [symmetric]] by (rule order.antisym)
  moreover have "snd r = snd s"
    using runs_last_unique [OF p f] runs_last_unique [OF p(2,1) p(3) [symmetric] f [symmetric]]
    by (rule order.antisym)
  ultimately have "runs_set rs = runs_set ss'"
    using runs_tail [OF p(1)] runs_tail [OF p(2)] p(3) by simp
  then have "rs = ss'" using Cons.IH [of ss'] p(1,2) by (simp add: good_runs_simps)
  then show ?case using \<open>fst r = fst s\<close> \<open>snd r = snd s\<close> ss by (simp add: prod_eq_iff)
qed

lemma runs_of_unique: "runs_of xs S \<Longrightarrow> runs_of ys S \<Longrightarrow> xs = ys"
  unfolding runs_of_def using runs_unique by blast

lemma gaps_between_runs:
  assumes good: "good_runs rs"
  shows "sorted_wrt (\<lambda>r q. snd r < snd r + 1 \<and> snd r + 1 < fst q \<and> snd r + 1 \<notin> runs_set rs) rs"
proof (subst sorted_wrt_iff_nth_less, intro allI impI)
  fix i j
  assume ij: "i < j" "j < length rs"
  let ?b = "snd (rs ! i)"
  have gap: "unat ?b + 1 < unat (fst (rs ! m))" if "i < m" "m < length rs" for m
    using good_nth [OF good that] .
  have nat: "unat (?b + 1) = unat ?b + 1"
    using gap [OF ij] by (intro unat_plus_one [of _ "fst (rs ! j)"]) (simp add: word_less_nat_alt)
  have "?b + 1 \<notin> runs_set rs"
  proof
    assume "?b + 1 \<in> runs_set rs"
    then obtain m where m: "m < length rs" "unat (fst (rs ! m)) \<le> unat ?b + 1" "unat ?b + 1 \<le> unat (snd (rs ! m))"
      using nat by (auto simp: runs_set_def in_set_conv_nth word_le_nat_alt)
    then have "\<not> i < m" "m \<noteq> i" using gap [of m] by auto
    then have "m < i" by simp
    then show False using good_nth [OF good, of m i] good_nth_le [OF good, of i] ij m by simp
  qed
  then show "?b < ?b + 1 \<and> ?b + 1 < fst (rs ! j) \<and> ?b + 1 \<notin> runs_set rs"
    using gap [OF ij] nat by (simp add: word_less_nat_alt)
qed

end
