(* ===== verification/Uint32_Props.thy ===== *)
theory Uint32_Props
  imports Uint32_Interface
begin

text \<open>
  The properties of \<open>pkg/uint32set\<close>: for every implementation of the sorted set library that
  keeps its documented contract, the set of runs behaves as a mathematical set, never panics,
  chooses only free numbers, and agrees with the hash set on every sequence of operations.
\<close>

lemma sorted_export_unique:
  "sorted_wrt (<) xs \<Longrightarrow> sorted_wrt (<) ys \<Longrightarrow> set xs = set ys \<Longrightarrow> xs = (ys :: uint32 list)"
  by (rule strict_sorted_equal)

text \<open>
  C2: starting from new sets and for every sequence of membership tests, additions and
  removals, the run based set and the hash set give the answers of a mathematical set, without
  a panic at any self-checking level; afterwards both export the same members in increasing
  order, and the same runs.
\<close>

theorem sets_agree:
  assumes "sorted_set ops nodes invar"
  shows "\<exists>s h. set_run (set_step (Has ops) (Add ops) (Remove ops)) (NewSortedUInt32Set ops level) os =
      Inr (fst (spec_run {} os), s) \<and>
    set_run (set_step (\<lambda>s x. Inr (hash_Has s x, s) :: uis_panic + bool \<times> HashUInt32Set)
        (\<lambda>s x. Inr (hash_Add s x)) (\<lambda>s x. Inr (hash_Remove s x))) NewHashUInt32Set os =
      Inr (fst (spec_run {} os), h) \<and>
    Export (uis_fuel ops s) ops s = Some (hash_Export h) \<and>
    RExport (uis_fuel ops s) ops s = Some (hash_RExport h) \<and>
    set (hash_Export h) = snd (spec_run {} os) \<and> sorted_wrt (<) (hash_Export h)"
proof -
  note ss = sorted_set.set_run_from_new [OF assms, of level os] and hs = hash.run_from_new [of os]
  from ss obtain s where s: "set_run (set_step (Has ops) (Add ops) (Remove ops))
      (NewSortedUInt32Set ops level) os = Inr (fst (spec_run {} os), s)" "uis_ok nodes invar s"
      "runs_set (uis_runs nodes s) = snd (spec_run {} os)" by blast
  from hs obtain h where h: "set_run (set_step (\<lambda>s x. Inr (hash_Has s x, s) :: uis_panic + bool \<times> HashUInt32Set)
        (\<lambda>s x. Inr (hash_Add s x)) (\<lambda>s x. Inr (hash_Remove s x))) NewHashUInt32Set os =
      Inr (fst (spec_run {} os), h)" "hash_invar h" "members h = snd (spec_run {} os)" by blast
  note e = hash_Export_correct [OF h(2)] hash_RExport_correct [OF h(2)]
  have "Export (uis_fuel ops s) ops s = Some (hash_Export h)"
    using sorted_set.set_export [OF assms s(2)] e(1) s(3) h(3) sorted_export_unique by metis
  moreover have "RExport (uis_fuel ops s) ops s = Some (hash_RExport h)"
    using sorted_set.set_rexport [OF assms s(2)] e(2) s(3) h(3) runs_of_unique by metis
  ultimately show ?thesis using s(1) h(1,3) e(1) by blast
qed

theorem sets_agree_witness:
  "sorted_set list_ops (\<lambda>ns. ns) (\<lambda>_. True) \<and>
   (\<exists>s. set_run (set_step (Has list_ops) (Add list_ops) (Remove list_ops)) (NewSortedUInt32Set list_ops 2)
      [OpAdd 5, OpAdd 7, OpAdd 6, OpAdd 6, OpRemove 5, OpHas 5] =
      Inr ([True, True, True, False, True, False], s) \<and>
    Export (uis_fuel list_ops s) list_ops s = Some [6, 7])"
proof -
  have "hash_Export h = [6, 7]" if "set (hash_Export h) = {6, 7}" "sorted_wrt (<) (hash_Export h)" for h
    using that sorted_export_unique [of "hash_Export h" "[6, 7]"] by simp
  then show ?thesis
    using sets_agree [OF list_ops_sorted_set, of 2 "[OpAdd 5, OpAdd 7, OpAdd 6, OpAdd 6, OpRemove 5, OpHas 5]"]
      list_ops_sorted_set
    by (auto simp: insert_Diff_if)
qed

text \<open>
  C10: \<open>AddOneInRange\<close> never panics, whatever the random numbers are; it answers \<open>true\<close> exactly
  when the range has a number that is not in the set, the number it returns is then in the
  range and new, and the set gains that number and nothing else; otherwise the set is unchanged.
\<close>

theorem AddOneInRange_picks_free:
  assumes "random_sorted_set ops nodes invar intn int63n" "uis_ok nodes invar s"
  shows "\<exists>x s'. AddOneInRange ops intn int63n s mn mx =
      Inr (x, \<not> {mn..mx} \<subseteq> runs_set (uis_runs nodes s), s') \<and> uis_ok nodes invar s' \<and>
    (if {mn..mx} \<subseteq> runs_set (uis_runs nodes s)
     then x = 0 \<and> runs_set (uis_runs nodes s') = runs_set (uis_runs nodes s)
     else x \<in> {mn..mx} - runs_set (uis_runs nodes s) \<and>
       runs_set (uis_runs nodes s') = insert x (runs_set (uis_runs nodes s)))"
  using assms by (rule random_sorted_set.set_add_one)

text \<open>A set with the runs 3 to 5 and 9 to 9, for the witnesses.\<close>

definition small_set :: "ss_node list sorted_uint32_set" where
  "small_set = \<lparr>uis_ss = map mk_node [(3, 5), (9, 9)], CheckLevel = 2\<rparr>"

lemma small_set_ok: "uis_ok (\<lambda>ns. ns) (\<lambda>_. True) small_set"
  "runs_set (uis_runs (\<lambda>ns. ns) small_set) = {3..5} \<union> {9}"
proof -
  have "uis_repr (\<lambda>ns. ns) (\<lambda>_. True) small_set [(3, 5), (9, 9)]"
    by (simp add: uis_repr_def small_set_def good_runs_def)
  from uis_okI [OF this] show "uis_ok (\<lambda>ns. ns) (\<lambda>_. True) small_set"
    "runs_set (uis_runs (\<lambda>ns. ns) small_set) = {3..5} \<union> {9}" by auto
qed

theorem AddOneInRange_picks_free_witness:
  "\<exists>x s'. AddOneInRange list_ops (\<lambda>_. 0) (\<lambda>n. n - 1) small_set 4 9 = Inr (x, True, s') \<and>
     x \<in> {4..9} - ({3..5} \<union> {9}) \<and>
     runs_set (uis_runs (\<lambda>ns. ns) s') = insert x ({3..5} \<union> {9})"
proof -
  have "\<not> {4..9::uint32} \<subseteq> {3..5} \<union> {9}"
  proof
    assume "{4..9::uint32} \<subseteq> {3..5} \<union> {9}"
    moreover have "(7::uint32) \<in> {4..9}" by simp
    ultimately have "(7::uint32) \<in> {3..5} \<union> {9}" by blast
    then show False by simp
  qed
  then show ?thesis
    using AddOneInRange_picks_free [OF list_rss.random_sorted_set_axioms small_set_ok(1), of 4 9]
    unfolding small_set_ok(2) by (auto simp del: Un_insert_right)
qed

text \<open>
  Whatever \<open>AddOneInRange\<close> answers, \<open>CouldAddInRange\<close> of a hash set with the same members
  accepts the answer, and the two sets have the same members afterwards.
\<close>

theorem checker_accepts_choice:
  assumes "random_sorted_set ops nodes invar intn int63n" "uis_ok nodes invar s"
    and "runs_set (uis_runs nodes s) = members huis"
  shows "\<exists>x b s' huis'. AddOneInRange ops intn int63n s mn mx = Inr (x, b, s') \<and>
    CouldAddInRange huis mn mx x b = (True, huis') \<and> uis_ok nodes invar s' \<and>
    runs_set (uis_runs nodes s') = members huis'"
  using assms by (rule random_sorted_set.set_checker_accepts)

theorem checker_accepts_choice_witness:
  "\<exists>x b s' huis'. AddOneInRange list_ops (\<lambda>_. 0) (\<lambda>n. n - 1) small_set 3 4 = Inr (x, b, s') \<and>
    CouldAddInRange \<lparr>low = 3, high = 9, members = {3..5} \<union> {9}\<rparr> 3 4 x b = (True, huis')"
  using checker_accepts_choice [OF list_rss.random_sorted_set_axioms small_set_ok(1),
      of "\<lparr>low = 3, high = 9, members = {3..5} \<union> {9}\<rparr>" 3 4] small_set_ok(2)
  by auto

text \<open>
  The checker also accepts answers that the chooser cannot give. On an empty set the checker accepts the answer \<open>(20, false)\<close> for
  the range 0 to 10, which no chooser gives, because there the range has free numbers: for an
  answer \<open>false\<close> the checker does not look whether the range is full.
\<close>

theorem checker_accepts_impossible:
  "fst (CouldAddInRange NewHashUInt32Set 0 10 20 False) \<and>
   (\<forall>nodes invar intn int63n. \<not> (\<exists>(ops :: ss_node list sorted_set_ops) s s'.
      random_sorted_set ops nodes invar intn int63n \<and> uis_ok nodes invar s \<and>
      runs_set (uis_runs nodes s) = {} \<and>
      AddOneInRange ops intn int63n s 0 10 = Inr (20, False, s')))"
proof -
  have False if "random_sorted_set ops nodes invar intn int63n" "uis_ok nodes invar s"
      "runs_set (uis_runs nodes s) = {}" "AddOneInRange ops intn int63n s 0 10 = Inr (20, False, s')"
    for ops :: "ss_node list sorted_set_ops" and nodes invar intn int63n s s'
    using random_sorted_set.set_add_one [OF that(1,2), of 0 10] that(3,4) by auto
  then show ?thesis
    by (auto simp: CouldAddInRange_def)
qed

text \<open>
  The string of a set lists its runs in order, each as two 8 digit hex numbers, and the runs
  are separated by at least one number that is not in the set.
\<close>

theorem String_lists_runs:
  assumes "sorted_set ops nodes invar" "uis_ok nodes invar s"
  shows "uis_String (uis_fuel ops s) ops s =
      Some (''{'' @ join '', '' (map (\<lambda>r. sprintf_08x (fst r) @ ''--'' @ sprintf_08x (snd r))
        (uis_runs nodes s)) @ ''}'') \<and>
    sorted_wrt (\<lambda>r q. snd r < snd r + 1 \<and> snd r + 1 < fst q \<and>
       snd r + 1 \<notin> runs_set (uis_runs nodes s)) (uis_runs nodes s)"
proof -
  have r: "uis_repr nodes invar s (uis_runs nodes s)" using assms(2) by (simp add: uis_ok_def)
  then have good: "good_runs (uis_runs nodes s)" by (simp add: uis_repr_def)
  have "sorted_wrt (\<lambda>r q. snd r < snd r + 1 \<and> snd r + 1 < fst q \<and> snd r + 1 \<notin> runs_set (uis_runs nodes s))
      (uis_runs nodes s)"
    using gaps_between_runs [OF good] .
  then show ?thesis
    using sorted_set.String_correct [OF assms(1) r sorted_set.uis_fuel_enough [OF assms(1) r]] by simp
qed

theorem String_lists_runs_witness:
  "uis_String (uis_fuel list_ops small_set) list_ops small_set =
     Some ''{00000003--00000005, 00000009--00000009}''"
proof -
  have "uis_runs (\<lambda>ns. ns) small_set = [(3, 5), (9, 9)]" by (simp add: uis_runs_def small_set_def)
  then show ?thesis
    using String_lists_runs [OF list_ops_sorted_set small_set_ok(1)]
    by (simp add: sprintf_08x_def) code_simp
qed

end
