(* ===== verification/Go_Net.thy ===== *)
theory Go_Net
  imports Go_Strings
begin

text \<open>
  What the repository uses of Go's package \<open>net\<close>: addresses as byte slices (\<open>nil\<close> is the empty
  list), parsing and printing of IP addresses and of CIDR blocks, masks and hardware addresses,
  as the standard library of the time (Go 1.12) does it.
\<close>

section \<open>Addresses\<close>

type_synonym IP = "uint8 list"

definition v4InV6Prefix :: "uint8 list" where
  "v4InV6Prefix = replicate 10 0 @ [255, 255]"

definition IPv4 :: "uint8 \<Rightarrow> uint8 \<Rightarrow> uint8 \<Rightarrow> uint8 \<Rightarrow> IP" where
  "IPv4 a b c d = v4InV6Prefix @ [a, b, c, d]"

definition To4 :: "IP \<Rightarrow> IP" where
  "To4 ip =
     (if length ip = 4 then ip
      else if length ip = 16 \<and> take 12 ip = v4InV6Prefix then drop 12 ip
      else [])"

definition ip_Equal :: "IP \<Rightarrow> IP \<Rightarrow> bool" where
  "ip_Equal ip x =
     (if length ip = length x then ip = x
      else if length ip = 4 \<and> length x = 16 then take 12 x = v4InV6Prefix \<and> ip = drop 12 x
      else if length ip = 16 \<and> length x = 4 then take 12 ip = v4InV6Prefix \<and> drop 12 ip = x
      else False)"

section \<open>Reading numbers\<close>

text \<open>
  \<open>dtoi\<close> and \<open>xtoi\<close>: the number at the start of a string in base 10 or 16, the number of
  characters read, and whether there was a number that is not too big.
\<close>

fun toi_loop :: "nat \<Rightarrow> nat \<Rightarrow> nat \<Rightarrow> string \<Rightarrow> nat \<times> nat \<times> bool" where
  "toi_loop b n i [] = (n, i, True)"
| "toi_loop b n i (c # cs) =
     (case char_digit c of
        None \<Rightarrow> (n, i, True)
      | Some d \<Rightarrow>
          if d < b then
            (if 16777215 \<le> n * b + d then (0, i, False) else toi_loop b (n * b + d) (Suc i) cs)
          else (n, i, True))"

definition toi :: "nat \<Rightarrow> string \<Rightarrow> nat \<times> nat \<times> bool" where
  "toi b s = (case toi_loop b 0 0 s of (n, i, ok) \<Rightarrow> if i = 0 then (0, 0, False) else (n, i, ok))"

section \<open>Parsing addresses\<close>

fun v4_loop :: "nat \<Rightarrow> bool \<Rightarrow> string \<Rightarrow> (uint8 list \<times> string) option" where
  "v4_loop 0 isFirst s = Some ([], s)"
| "v4_loop (Suc k) isFirst s =
     (if s = [] then None
      else if \<not> isFirst \<and> hd s \<noteq> CHR ''.'' then None
      else
        (let s1 = (if isFirst then s else tl s) in
         case toi 10 s1 of
           (n, c, ok) \<Rightarrow>
             if \<not> ok \<or> 255 < n then None
             else map_option (\<lambda>(bs, r). (of_nat n # bs, r)) (v4_loop k False (drop c s1))))"

definition parseIPv4 :: "string \<Rightarrow> IP" where
  "parseIPv4 s =
     (case v4_loop 4 True s of
        Some ([a, b, c, d], []) \<Rightarrow> IPv4 a b c d
      | _ \<Rightarrow> [])"

text \<open>
  The loop of \<open>parseIPv6\<close>: \<open>acc\<close> are the bytes read so far, \<open>ell\<close> the position of the ellipsis.
  The result is the bytes, the position of the ellipsis and the rest of the string.
\<close>

fun v6_loop :: "nat \<Rightarrow> uint8 list \<Rightarrow> nat option \<Rightarrow> string
    \<Rightarrow> (uint8 list \<times> nat option \<times> string) option" where
  "v6_loop 0 acc ell s = Some (acc, ell, s)"
| "v6_loop (Suc k) acc ell s =
     (case toi 16 s of
        (n, c, ok) \<Rightarrow>
          if \<not> ok \<or> 65535 < n then None
          else if c < length s \<and> s ! c = CHR ''.'' then
            (if ell = None \<and> length acc \<noteq> 12 then None
             else if 16 < length acc + 4 then None
             else
               (let ip4 = parseIPv4 s in
                if ip4 = [] then None else Some (acc @ drop 12 ip4, ell, [])))
          else
            (let acc1 = acc @ [of_nat (n div 256), of_nat (n mod 256)]; s1 = drop c s in
             if s1 = [] then Some (acc1, ell, [])
             else if hd s1 \<noteq> CHR '':'' \<or> length s1 = 1 then None
             else
               (let s2 = tl s1 in
                if hd s2 = CHR '':'' then
                  (if ell \<noteq> None then None
                   else if tl s2 = [] then Some (acc1, Some (length acc1), [])
                   else v6_loop k acc1 (Some (length acc1)) (tl s2))
                else v6_loop k acc1 ell s2)))"

definition v6_finish :: "uint8 list \<Rightarrow> nat option \<Rightarrow> string \<Rightarrow> IP" where
  "v6_finish acc ell s =
     (if s \<noteq> [] then []
      else if length acc < 16 then
        (case ell of
           None \<Rightarrow> []
         | Some e \<Rightarrow> take e acc @ replicate (16 - length acc) 0 @ drop e acc)
      else if ell \<noteq> None then []
      else acc)"

definition parseIPv6 :: "string \<Rightarrow> IP" where
  "parseIPv6 s =
     (let (ell, s1) = (if take 2 s = ''::'' then (Some 0, drop 2 s) else (None, s)) in
      if ell \<noteq> None \<and> s1 = [] then replicate 16 0
      else (case v6_loop 8 [] ell s1 of
              None \<Rightarrow> []
            | Some (acc, ell', rest) \<Rightarrow> v6_finish acc ell' rest))"

definition ParseIP :: "string \<Rightarrow> IP" where
  "ParseIP s =
     (case find (\<lambda>c. c = CHR ''.'' \<or> c = CHR '':'') s of
        None \<Rightarrow> []
      | Some c \<Rightarrow> if c = CHR ''.'' then parseIPv4 s else parseIPv6 s)"

section \<open>Masks and CIDR blocks\<close>

fun mask_bytes :: "nat \<Rightarrow> nat \<Rightarrow> uint8 list" where
  "mask_bytes 0 n = []"
| "mask_bytes (Suc l) n =
     (if 8 \<le> n then 255 # mask_bytes l (n - 8) else NOT (drop_bit n 255) # mask_bytes l 0)"

definition CIDRMask :: "nat \<Rightarrow> nat \<Rightarrow> uint8 list" where
  "CIDRMask ones bits =
     (if bits \<noteq> 32 \<and> bits \<noteq> 128 \<or> bits < ones then [] else mask_bytes (bits div 8) ones)"

fun leading_ones :: "nat \<Rightarrow> uint8 \<Rightarrow> nat \<times> uint8" where
  "leading_ones 0 v = (0, v)"
| "leading_ones (Suc k) v =
     (if v AND 128 \<noteq> 0 then map_prod Suc id (leading_ones k (push_bit 1 v)) else (0, v))"

text \<open>\<open>None\<close> is the answer \<open>-1\<close> of \<open>simpleMaskLength\<close>.\<close>

fun simpleMaskLength :: "uint8 list \<Rightarrow> nat option" where
  "simpleMaskLength [] = Some 0"
| "simpleMaskLength (v # vs) =
     (if v = 255 then map_option ((+) 8) (simpleMaskLength vs)
      else
        (case leading_ones 8 v of
           (n, w) \<Rightarrow> if w \<noteq> 0 \<or> (\<exists>x\<in>set vs. x \<noteq> 0) then None else Some n))"

definition Mask_Size :: "uint8 list \<Rightarrow> nat \<times> nat" where
  "Mask_Size m =
     (case simpleMaskLength m of None \<Rightarrow> (0, 0) | Some n \<Rightarrow> (n, 8 * length m))"

definition ip_Mask :: "IP \<Rightarrow> uint8 list \<Rightarrow> IP" where
  "ip_Mask ip msk =
     (let msk1 = (if length msk = 16 \<and> length ip = 4 \<and> take 12 msk = replicate 12 255
                   then drop 12 msk else msk);
          ip1 = (if length msk1 = 4 \<and> length ip = 16 \<and> take 12 ip = v4InV6Prefix
                 then drop 12 ip else ip)
      in if length ip1 \<noteq> length msk1 then [] else map2 (AND) ip1 msk1)"

record IPNet =
  net_IP :: IP
  net_Mask :: "uint8 list"

text \<open>\<open>Inl\<close> is the error, with its text.\<close>

definition ParseCIDR :: "string \<Rightarrow> (string, IP \<times> IPNet) result" where
  "ParseCIDR s =
     (let err = Inl (''invalid CIDR address: '' @ s) in
      if CHR ''/'' \<notin> set s then err
      else
        (let addr = takeWhile (\<lambda>c. c \<noteq> CHR ''/'') s;
             msk = tl (dropWhile (\<lambda>c. c \<noteq> CHR ''/'') s);
             ip4 = parseIPv4 addr;
             (ip, iplen) = (if ip4 \<noteq> [] then (ip4, 4) else (parseIPv6 addr, 16));
             (n, i, ok) = toi 10 msk
         in if ip = [] \<or> \<not> ok \<or> i \<noteq> length msk \<or> 8 * iplen < n then err
            else
              (let m = CIDRMask n (8 * iplen) in
               Inr (ip, \<lparr>net_IP = ip_Mask ip m, net_Mask = m\<rparr>))))"

section \<open>Printing\<close>

definition v4_String :: "uint8 list \<Rightarrow> string" where
  "v4_String bs = join ''.'' (map sprintf_d bs)"

fun v6_groups :: "uint8 list \<Rightarrow> nat list" where
  "v6_groups (a # b # bs) = (unat a * 256 + unat b) # v6_groups bs"
| "v6_groups bs = []"

text \<open>The longest run of zero groups, \<open>(e0, e1)\<close>, the first one when there are several.\<close>

function v6_zeros :: "nat list \<Rightarrow> nat \<Rightarrow> nat \<times> nat \<Rightarrow> nat \<times> nat" where
  "v6_zeros gs i (e0, e1) =
     (if length gs \<le> i then (e0, e1)
      else
        (let j = i + length (takeWhile (\<lambda>g. g = 0) (drop i gs)) in
         if e1 - e0 < j - i then v6_zeros gs (Suc j) (i, j)
         else v6_zeros gs (Suc i) (e0, e1)))"
  by pat_completeness auto
termination
  by (relation "measure (\<lambda>(gs, i, e). length gs - i)") auto

declare v6_zeros.simps [simp del]

definition v6_text :: "nat list \<Rightarrow> string" where
  "v6_text gs = join '':'' (map (format_uint 16) gs)"

definition v6_String :: "uint8 list \<Rightarrow> string" where
  "v6_String bs =
     (let gs = v6_groups bs; (e0, e1) = v6_zeros gs 0 (0, 0) in
      if e1 - e0 \<le> 1 then v6_text gs
      else v6_text (take e0 gs) @ ''::'' @ v6_text (drop e1 gs))"

definition ip_String :: "IP \<Rightarrow> string" where
  "ip_String ip =
     (if ip = [] then ''<nil>''
      else if To4 ip \<noteq> [] then v4_String (To4 ip)
      else if length ip = 16 then v6_String ip
      else ''?'' @ concat (map sprintf_02x ip))"

definition hw_String :: "uint8 list \<Rightarrow> string" where
  "hw_String mac = join '':'' (map sprintf_02x mac)"

section \<open>Addresses as numbers\<close>

text \<open>\<open>binary.BigEndian.Uint32\<close>: \<open>None\<close> is the index out of range panic.\<close>

fun be_uint32 :: "uint8 list \<Rightarrow> uint32 option" where
  "be_uint32 (a # b # c # d # _) =
     Some (push_bit 24 (ucast a) + push_bit 16 (ucast b) + push_bit 8 (ucast c) + ucast d)"
| "be_uint32 _ = None"

definition be_bytes :: "uint32 \<Rightarrow> uint8 list" where
  "be_bytes i = [ucast (drop_bit 24 i), ucast (drop_bit 16 i), ucast (drop_bit 8 i), ucast i]"

section \<open>Lemmas\<close>

lemma length_v4InV6Prefix [simp]: "length v4InV6Prefix = 12"
  by (simp add: v4InV6Prefix_def)

lemma To4_IPv4 [simp]: "To4 (IPv4 a b c d) = [a, b, c, d]"
  by (simp add: To4_def IPv4_def)

lemma To4_four [simp]: "length ip = 4 \<Longrightarrow> To4 ip = ip"
  by (simp add: To4_def)

lemma length_To4: "length (To4 ip) = 4 \<or> To4 ip = []"
  by (simp add: To4_def)

lemma IPv4_inj [simp]: "IPv4 a b c d = IPv4 a' b' c' d' \<longleftrightarrow> a = a' \<and> b = b' \<and> c = c' \<and> d = d'"
  by (simp add: IPv4_def)

lemma IPv4_not_nil [simp]: "IPv4 a b c d \<noteq> []"
  by (simp add: IPv4_def)

lemma toi_loop_format:
  assumes "2 \<le> b" "b \<le> 36" "\<forall>d\<in>set ds. d < b" "undigits b n ds < 16777215"
    and "r = [] \<or> char_digit (hd r) = None"
  shows "toi_loop b n i (map digit_char ds @ r) = (undigits b n ds, i + length ds, True)"
  using assms
proof (induction ds arbitrary: n i)
  case Nil
  then show ?case by (cases r) auto
next
  case (Cons d ds)
  have "n * b + d \<le> undigits b (n * b + d) ds" using Cons.prems(1) by (intro undigits_mono) simp
  then show ?case using Cons by (simp add: less_le_trans not_le)
qed

lemma toi_format [str_simps]:
  assumes "2 \<le> b" "b \<le> 36" "n < 16777215" "r = [] \<or> char_digit (hd r) = None"
  shows "toi b (format_uint b n @ r) = (n, length (format_uint b n), True)"
proof -
  have "toi_loop b 0 0 (map digit_char (digits b n) @ r) = (n, length (digits b n), True)"
    using toi_loop_format [of b "digits b n" 0 r 0] assms digits_bound undigits_digits by auto
  then show ?thesis by (simp add: toi_def format_uint_def)
qed

lemma format_uint_nonempty [simp]: "format_uint b n \<noteq> []"
  by (simp add: format_uint_def)

lemma char_digit_dot: "char_digit CHR ''.'' = None" "char_digit CHR ''/'' = None"
  "char_digit CHR ''-'' = None"
  by (simp_all add: char_digit_def)

text \<open>Printing an IPv4 address and parsing it again.\<close>

lemma v4_loop_first: "s \<noteq> [] \<Longrightarrow> v4_loop (Suc k) True s =
    (case toi 10 s of (n, c, ok) \<Rightarrow> if \<not> ok \<or> 255 < n then None
       else map_option (\<lambda>(bs, r). (of_nat n # bs, r)) (v4_loop k False (drop c s)))"
  by simp

lemma v4_loop_next: "v4_loop (Suc k) False (CHR ''.'' # s) =
    (case toi 10 s of (n, c, ok) \<Rightarrow> if \<not> ok \<or> 255 < n then None
       else map_option (\<lambda>(bs, r). (of_nat n # bs, r)) (v4_loop k False (drop c s)))"
  by simp

lemma toi_byte: "r = [] \<or> hd r = CHR ''.'' \<or> hd r = CHR ''/'' \<Longrightarrow>
    toi 10 (sprintf_d (a::uint8) @ r) = (unat a, length (sprintf_d a), True)"
  using unat_lt8 [of a] unfolding sprintf_d_def by (intro toi_format) (auto simp: char_digit_dot)

lemma toi_byte_end: "toi 10 (sprintf_d (a::uint8)) = (unat a, length (sprintf_d a), True)"
  using toi_byte [of "[]" a] by simp

lemma sprintf_d_nonempty [simp]: "sprintf_d x \<noteq> []"
  by (simp add: sprintf_d_def)

lemma v4_loop_text:
  "v4_loop 4 True (sprintf_d a @ CHR ''.'' # sprintf_d b @ CHR ''.'' # sprintf_d c @ CHR ''.'' # sprintf_d d) =
    Some ([a, b, c, d], [])"
proof -
  have le: "\<not> 255 < unat (x::uint8)" for x using unat_lt8 [of x] by simp
  have "v4_loop 1 False (CHR ''.'' # sprintf_d d) = Some ([d], [])"
    by (simp only: v4_loop_next One_nat_def) (simp add: toi_byte_end le)
  then have "v4_loop 2 False (CHR ''.'' # sprintf_d c @ CHR ''.'' # sprintf_d d) = Some ([c, d], [])"
    by (simp only: v4_loop_next numeral_2_eq_2) (simp add: toi_byte le del: v4_loop.simps)
  then have "v4_loop 3 False (CHR ''.'' # sprintf_d b @ CHR ''.'' # sprintf_d c @ CHR ''.'' # sprintf_d d)
      = Some ([b, c, d], [])"
    by (simp only: v4_loop_next numeral_3_eq_3) (simp add: toi_byte le numeral_2_eq_2 del: v4_loop.simps)
  then show ?thesis
    using v4_loop_first [of "sprintf_d a @ CHR ''.'' # sprintf_d b @ CHR ''.'' # sprintf_d c @ CHR ''.'' # sprintf_d d" 3]
    by (simp add: toi_byte le del: v4_loop.simps)
qed

lemma v4_String_four: "v4_String [a, b, c, d] =
    sprintf_d a @ CHR ''.'' # sprintf_d b @ CHR ''.'' # sprintf_d c @ CHR ''.'' # sprintf_d d"
  by (simp add: v4_String_def)

lemma parseIPv4_String: "parseIPv4 (v4_String [a, b, c, d]) = IPv4 a b c d"
  by (simp add: parseIPv4_def v4_String_four v4_loop_text del: v4_loop.simps)

lemma dot_colon_notin: "CHR ''.'' \<notin> set (sprintf_d x)" "CHR '':'' \<notin> set (sprintf_d x)"
  "CHR ''/'' \<notin> set (sprintf_d x)" "CHR ''-'' \<notin> set (sprintf_d x)"
  unfolding sprintf_d_def by (intro digit_char_notin_digits; simp add: char_digit_def)+

lemma find_append_notin: "\<forall>x\<in>set xs. \<not> P x \<Longrightarrow> find P (xs @ ys) = find P ys"
  by (induction xs) auto

lemma ParseIP_String [net_simps]:
  assumes "To4 ip \<noteq> []"
  shows "ParseIP (ip_String ip) = v4InV6Prefix @ To4 ip"
proof -
  have "length (To4 ip) = 4" using length_To4 [of ip] assms by auto
  then obtain a b c d where abcd: "To4 ip = [a, b, c, d]"
    by (auto simp: length_Suc_conv numeral_eq_Suc)
  have "ip \<noteq> []" using assms by (auto simp: To4_def)
  then have s: "ip_String ip = v4_String [a, b, c, d]" using abcd by (simp add: ip_String_def)
  have "find (\<lambda>c. c = CHR ''.'' \<or> c = CHR '':'') (v4_String [a, b, c, d]) = Some CHR ''.''"
    unfolding v4_String_four using dot_colon_notin(1,2) [of a]
    by (subst find_append_notin) auto
  then show ?thesis using s abcd parseIPv4_String by (simp add: ParseIP_def IPv4_def)
qed

end
