(* ===== verification/Net_Blocks.thy ===== *)
theory Net_Blocks
  imports Go_Net
begin

text \<open>
  Addresses as 32 bit numbers and CIDR blocks as ranges of such numbers: the range that the
  code computes from a block (base and base plus \<open>2 ^ (bits - ones) - 1\<close>) holds exactly the
  addresses that agree with the block's address on its prefix.
\<close>

section \<open>Big endian bytes\<close>

definition be_or :: "uint8 \<Rightarrow> uint8 \<Rightarrow> uint8 \<Rightarrow> uint8 \<Rightarrow> uint32" where
  "be_or a b c d =
     push_bit 24 (ucast a) OR push_bit 16 (ucast b) OR push_bit 8 (ucast c) OR ucast d"

lemma bit_be_or: "bit (be_or a b c d) n \<longleftrightarrow>
    (if n < 8 then bit d n else if n < 16 then bit c (n - 8) else if n < 24 then bit b (n - 16)
     else n < 32 \<and> bit a (n - 24))"
  by (auto simp: be_or_def bit_simps dest: bit_imp_le_length)

lemma be_uint32_or: "be_uint32 (a # b # c # d # r) = Some (be_or a b c d)"
proof -
  have 1: "push_bit 24 (ucast a :: uint32) + push_bit 16 (ucast b) = push_bit 24 (ucast a) OR push_bit 16 (ucast b)"
    by (rule disjunctive_add) (auto simp: bit_simps dest: bit_imp_le_length)
  have 2: "(push_bit 24 (ucast a :: uint32) OR push_bit 16 (ucast b)) + push_bit 8 (ucast c) =
      push_bit 24 (ucast a) OR push_bit 16 (ucast b) OR push_bit 8 (ucast c)"
    by (subst disjunctive_add) (auto simp: bit_simps or.assoc dest: bit_imp_le_length)
  have 3: "(push_bit 24 (ucast a :: uint32) OR push_bit 16 (ucast b) OR push_bit 8 (ucast c)) + ucast d =
      be_or a b c d"
    unfolding be_or_def
    by (subst disjunctive_add) (auto simp: bit_simps or.assoc dest: bit_imp_le_length)
  show ?thesis by (simp add: 1 2 3)
qed

lemma be_bytes_or: "be_bytes (be_or a b c d) = [a, b, c, d]"
  by (auto simp: be_bytes_def bit_eq_iff bit_be_or bit_simps dest: bit_imp_le_length)

lemma be_or_bytes: "be_or (ucast (drop_bit 24 i)) (ucast (drop_bit 16 i)) (ucast (drop_bit 8 i)) (ucast i) = i"
  by (auto simp: bit_eq_iff bit_be_or bit_simps dest: bit_imp_le_length)

lemma be_or_inj [simp]: "be_or a b c d = be_or a' b' c' d' \<longleftrightarrow> a = a' \<and> b = b' \<and> c = c' \<and> d = d'"
  by (auto dest: arg_cong [where f = be_bytes] simp: be_bytes_or)

lemma be_uint32_bytes [net_simps]: "be_uint32 (be_bytes i) = Some i"
  by (simp add: be_bytes_def be_uint32_or be_or_bytes del: be_uint32.simps)

lemma be_bytes_uint32: "be_uint32 [a, b, c, d] = Some i \<Longrightarrow> be_bytes i = [a, b, c, d]"
  by (auto simp: be_uint32_or be_bytes_or simp del: be_uint32.simps)

lemma be_or_and:
  "be_or (a AND a') (b AND b') (c AND c') (d AND d') = be_or a b c d AND be_or a' b' c' d'"
  by (auto simp: bit_eq_iff bit_be_or bit_simps)

section \<open>Prefixes\<close>

definition prefix_mask :: "nat \<Rightarrow> uint32" where
  "prefix_mask n = push_bit (32 - n) (- 1)"

lemma CIDRMask_32:
  assumes "n \<le> 32"
  shows "\<exists>a b c d. CIDRMask n 32 = [a, b, c, d] \<and> be_or a b c d = prefix_mask n \<and>
    simpleMaskLength [a, b, c, d] = Some n"
proof -
  have "\<forall>n\<in>set [0..<33]. case CIDRMask n 32 of
      [a, b, c, d] \<Rightarrow> be_or a b c d = prefix_mask n \<and> simpleMaskLength [a, b, c, d] = Some n
    | _ \<Rightarrow> False"
    by code_simp
  moreover have "n \<in> set [0..<33]" using assms by simp
  ultimately have "case CIDRMask n 32 of
      [a, b, c, d] \<Rightarrow> be_or a b c d = prefix_mask n \<and> simpleMaskLength [a, b, c, d] = Some n
    | _ \<Rightarrow> False" by blast
  then show ?thesis by (auto split: list.splits simp del: simpleMaskLength.simps)
qed

text \<open>The size of a block as the code computes it, in 64 bit arithmetic cut to 32 bits.\<close>

definition block_delta :: "nat \<Rightarrow> nat \<Rightarrow> uint32" where
  "block_delta ones bits = ucast (push_bit (bits - ones) (1 :: 64 word) - 1)"

lemma block_delta_32:
  assumes "n \<le> 32"
  shows "unat (block_delta n 32) = 2 ^ (32 - n) - 1"
proof -
  let ?k = "32 - n"
  have k: "(2::nat) ^ ?k \<le> 2 ^ 32" by (rule power_increasing) simp_all
  have "push_bit ?k (1 :: 64 word) = of_nat (2 ^ ?k)" by (simp add: push_bit_eq_mult)
  then have "push_bit ?k (1 :: 64 word) - 1 = of_nat (2 ^ ?k - 1)" by (simp add: of_nat_diff)
  then have "block_delta n 32 = ucast (of_nat (2 ^ ?k - 1) :: 64 word)" by (simp add: block_delta_def)
  moreover have "unat (of_nat (2 ^ ?k - 1) :: 64 word) = 2 ^ ?k - 1"
    using k by (subst unat_of_nat) simp
  ultimately show ?thesis using k by (simp add: unsigned_ucast_eq take_bit_eq_mod)
qed

lemma unat_prefix:
  assumes "n \<le> 32"
  shows "unat (x AND prefix_mask n) = unat x div 2 ^ (32 - n) * 2 ^ (32 - n)"
proof -
  have "x AND prefix_mask n = push_bit (32 - n) (drop_bit (32 - n) x)"
    by (auto simp: prefix_mask_def bit_eq_iff bit_simps)
  moreover have "unat (push_bit (32 - n) (drop_bit (32 - n) x)) = unat x div 2 ^ (32 - n) * 2 ^ (32 - n)"
  proof -
    have "unat x div 2 ^ (32 - n) * 2 ^ (32 - n) < 2 ^ 32"
      by (rule order.strict_trans1 [OF div_times_less_eq_dividend]) (use unat_lt32 [of x] in simp)
    then show ?thesis
      by (simp add: unsigned_push_bit_eq unsigned_drop_bit_eq push_bit_eq_mult [where ?'a = nat]
           drop_bit_eq_div [where ?'a = nat] take_bit_eq_mod [where ?'a = nat] unat_lt32)
  qed
  ultimately show ?thesis by simp
qed

lemma div_mult_range:
  assumes "0 < (m::nat)"
  shows "x div m * m \<le> a \<and> a \<le> x div m * m + (m - 1) \<longleftrightarrow> a div m = x div m"
proof
  assume a: "x div m * m \<le> a \<and> a \<le> x div m * m + (m - 1)"
  then have "a < x div m * m + m" using assms by linarith
  then have "a < (x div m + 1) * m" by (simp add: algebra_simps)
  with a show "a div m = x div m"
    by (metis div_nat_eqI mult.commute Suc_eq_plus1)
next
  assume "a div m = x div m"
  moreover have "a = a div m * m + a mod m" "a mod m < m" using assms by simp_all
  ultimately show "x div m * m \<le> a \<and> a \<le> x div m * m + (m - 1)" by (metis Suc_diff_1 add_le_cancel_left assms le_add1 less_Suc_eq_le)
qed

lemma block_last:
  assumes "n \<le> 32"
  shows "unat ((x AND prefix_mask n) + block_delta n 32) =
    unat x div 2 ^ (32 - n) * 2 ^ (32 - n) + (2 ^ (32 - n) - 1)"
proof -
  let ?m = "2 ^ (32 - n) :: nat"
  have pow: "?m * 2 ^ n = 2 ^ 32" using assms by (simp flip: power_add)
  have "unat x < 2 ^ n * ?m" using unat_lt32 [of x] pow by (simp add: mult.commute)
  then have "unat x div ?m < 2 ^ n" by (rule less_mult_imp_div_less)
  then have "(unat x div ?m + 1) * ?m \<le> 2 ^ n * ?m" by (intro mult_le_mono1) simp
  then have "unat x div ?m * ?m + ?m \<le> 2 ^ 32" using pow by (simp add: algebra_simps)
  moreover have "0 < ?m" by simp
  ultimately have "unat x div ?m * ?m + (?m - 1) < 2 ^ 32" by linarith
  then show ?thesis using assms by (simp add: unat_word_ariths unat_prefix block_delta_32)
qed

lemma block_range:
  assumes "n \<le> 32" "base = x AND prefix_mask n"
  shows "base \<le> a \<and> a \<le> base + block_delta n 32 \<longleftrightarrow> a AND prefix_mask n = base"
proof -
  let ?m = "2 ^ (32 - n) :: nat"
  have "a AND prefix_mask n = base \<longleftrightarrow> unat a div ?m = unat x div ?m"
    using assms by (simp add: word_unat_eq_iff unat_prefix)
  moreover have "base \<le> a \<and> a \<le> base + block_delta n 32 \<longleftrightarrow>
      unat x div ?m * ?m \<le> unat a \<and> unat a \<le> unat x div ?m * ?m + (?m - 1)"
    using assms by (simp add: word_le_nat_alt unat_prefix block_last)
  ultimately show ?thesis using div_mult_range [of ?m "unat x" "unat a"] by simp
qed

lemma block_base_le_last:
  assumes "n \<le> 32"
  shows "x AND prefix_mask n \<le> (x AND prefix_mask n) + block_delta n 32"
  using assms unfolding word_le_nat_alt by (simp only: unat_prefix block_last le_add1)

end
