(* ===== verification/Net_API.thy ===== *)
theory Net_API
  imports Net_Blocks "HOL-Library.Code_Target_Nat"
begin

text \<open>
  The API objects of \<open>pkg/apis/network\<close> (the internal types and their \<open>v1alpha1\<close> versions have
  the same fields), as far as the fields are used by the code, and \<open>pkg/util/data.go\<close>. A time is
  a number of nanoseconds; 0 is the zero time. A nil slice and an empty one are both \<open>[]\<close>.
\<close>

section \<open>Metadata\<close>

type_synonym gotime = int

record OwnerReference =
  or_APIVersion :: string
  or_Kind :: string
  or_Name :: string
  or_UID :: string
  or_Controller :: "bool option"

record ObjectMeta =
  meta_Name :: string
  meta_Namespace :: string
  meta_UID :: string
  meta_ResourceVersion :: string
  meta_CreationTimestamp :: gotime
  meta_OwnerReferences :: "OwnerReference list"

record NamespacedName =
  nsn_Namespace :: string
  nsn_Name :: string

section \<open>Network attachments\<close>

record NetworkAttachmentSpec =
  Node :: string
  Subnet_name :: string
  PostCreateExec :: "string list"
  PostDeleteExec :: "string list"

record ExecReport =
  ExitStatus :: int
  StartTime :: gotime
  StopTime :: gotime
  StdOut :: string
  StdErr :: string

record NetworkAttachmentErrors =
  IPAM_errs :: "string list"
  Host_errs :: "string list"

record NetworkAttachmentStatus =
  Errors :: NetworkAttachmentErrors
  LockUID :: string
  AddressVNI :: uint32
  Status_IPv4 :: string
  MACAddress :: string
  IfcName :: string
  HostIP :: string
  PostCreateExecReport :: "ExecReport option"

record NetworkAttachment =
  att_meta :: ObjectMeta
  att_Spec :: NetworkAttachmentSpec
  att_Status :: NetworkAttachmentStatus

text \<open>\<open>time.Time.Truncate(time.Second)\<close>.\<close>

definition truncate_second :: "gotime \<Rightarrow> gotime" where
  "truncate_second t = t - t mod 1000000000"

definition Equiv :: "ExecReport option \<Rightarrow> ExecReport option \<Rightarrow> bool" where
  "Equiv x y =
     (case (x, y) of
        (None, None) \<Rightarrow> True
      | (Some a, Some b) \<Rightarrow>
          ExitStatus a = ExitStatus b \<and> StdOut a = StdOut b \<and> StdErr a = StdErr b \<and>
          truncate_second (StartTime a) = truncate_second (StartTime b) \<and>
          truncate_second (StopTime a) = truncate_second (StopTime b)
      | _ \<Rightarrow> False)"

lemma equivp_Equiv: "equivp Equiv"
  by (intro equivpI reflpI sympI transpI) (auto simp: Equiv_def split: option.splits)

section \<open>Subnets and locks\<close>

record SubnetSpec =
  sn_IPv4 :: string
  sn_VNI :: uint32

record Subnet =
  sn_meta :: ObjectMeta
  sn_Spec :: SubnetSpec
  sn_Errors :: "string list"

record IPLock =
  ipl_meta :: ObjectMeta
  SubnetName :: string

section \<open>Helpers\<close>

definition AttNSN :: "NetworkAttachment \<Rightarrow> NamespacedName" where
  "AttNSN att = \<lparr>nsn_Namespace = meta_Namespace (att_meta att), nsn_Name = meta_Name (att_meta att)\<rparr>"

text \<open>\<open>m\<close> is \<open>None\<close> for a nil map; a missing key reads as the empty string.\<close>

definition MapStringStringGet :: "(string \<rightharpoonup> string) option \<Rightarrow> string \<Rightarrow> string" where
  "MapStringStringGet m i =
     (case m of None \<Rightarrow> [] | Some f \<Rightarrow> (case f i of None \<Rightarrow> [] | Some s \<Rightarrow> s))"

definition MakeUint32FromIPv4 :: "uint8 list \<Rightarrow> (go_panic, uint32) result" where
  "MakeUint32FromIPv4 ip =
     (case be_uint32 (if 4 < length ip then drop (length ip - 4) ip else ip) of
        None \<Rightarrow> Inl IndexOutOfRange
      | Some i \<Rightarrow> Inr i)"

definition MakeIPv4FromUint32 :: "uint32 \<Rightarrow> IP" where
  "MakeIPv4FromUint32 n = be_bytes n"

fun slice_equal_loop :: "string list \<Rightarrow> string list \<Rightarrow> nat \<Rightarrow> bool" where
  "slice_equal_loop [] y i = True"
| "slice_equal_loop (xi # x) y i = (if xi \<noteq> y ! i then False else slice_equal_loop x y (Suc i))"

definition SliceOfString_Equal :: "string list \<Rightarrow> string list \<Rightarrow> bool" where
  "SliceOfString_Equal x y = (if length x \<noteq> length y then False else slice_equal_loop x y 0)"

lemma slice_equal_loop_drop:
  "length y = i + length x \<Longrightarrow> slice_equal_loop x y i \<longleftrightarrow> x = drop i y"
proof (induction x y i rule: slice_equal_loop.induct)
  case (2 xi x y i)
  then have "drop i y = y ! i # drop (Suc i) y" by (simp add: Cons_nth_drop_Suc)
  then show ?case using 2 by auto
qed simp

lemma SliceOfString_Equal_iff [simp]: "SliceOfString_Equal x y \<longleftrightarrow> x = y"
  using slice_equal_loop_drop [of y 0 x] by (auto simp: SliceOfString_Equal_def)

lemma MakeUint32FromIPv4_IPv4:
  "MakeUint32FromIPv4 (IPv4 a b c d) = Inr (be_or a b c d)"
  "MakeUint32FromIPv4 [a, b, c, d] = Inr (be_or a b c d)"
  by (simp_all add: MakeUint32FromIPv4_def IPv4_def be_uint32_or del: be_uint32.simps)

lemma MakeIPv4_roundtrip: "MakeUint32FromIPv4 (MakeIPv4FromUint32 n) = Inr n"
  by (simp add: MakeUint32FromIPv4_def MakeIPv4FromUint32_def be_uint32_bytes)
    (simp add: be_bytes_def be_uint32_or be_or_bytes del: be_uint32.simps)

end
