(* ===== verification/Subnet_Strategy.thy ===== *)
theory Subnet_Strategy
  imports Net_API
begin

text \<open>
  \<open>pkg/registry/network/subnet/strategy.go\<close>: the validation of subnets by the extension API
  server. The subnet lister is a parameter: the list it returns, or its error. An index out of
  range panic is \<open>Inl\<close>. The lemmas show that a subnet that validation accepts is disjoint from the subnets
  of its virtual network that the lister returned, and in their namespace. The lister reads an
  informer cache: subnets that it does not have yet are not compared.
\<close>

section \<open>The model\<close>

datatype field_error =
    Invalid "string list" string string
  | Forbidden "string list" string
  | InternalError string

definition minVNI :: uint32 where "minVNI = 1"
definition maxVNI :: uint32 where "maxVNI = 2097151"

abbreviation spec_VNI :: "Subnet \<Rightarrow> uint32" where "spec_VNI s \<equiv> sn_VNI (sn_Spec s)"
abbreviation spec_IPv4 :: "Subnet \<Rightarrow> string" where "spec_IPv4 s \<equiv> sn_IPv4 (sn_Spec s)"
abbreviation sn_UID :: "Subnet \<Rightarrow> string" where "sn_UID s \<equiv> meta_UID (sn_meta s)"
abbreviation sn_Namespace :: "Subnet \<Rightarrow> string" where "sn_Namespace s \<equiv> meta_Namespace (sn_meta s)"
abbreviation sn_Name :: "Subnet \<Rightarrow> string" where "sn_Name s \<equiv> meta_Name (sn_meta s)"

definition subnet_PrepareForCreate :: "Subnet \<Rightarrow> Subnet" where
  "subnet_PrepareForCreate subnet = subnet\<lparr>sn_Errors := []\<rparr>"

definition checkVNIRange :: "Subnet \<Rightarrow> field_error list" where
  "checkVNIRange subnet =
     (let vni = spec_VNI subnet in
      if vni < minVNI \<or> maxVNI < vni then
        [Invalid [''spec'', ''vni''] (sprintf_d vni)
           (''must be in the range ['' @ sprintf_d minVNI @ '','' @ sprintf_d maxVNI @ '']'')]
      else [])"

definition checkCIDRFormat :: "Subnet \<Rightarrow> field_error list" where
  "checkCIDRFormat subnet =
     (case ParseCIDR (spec_IPv4 subnet) of
        Inl err \<Rightarrow> [Invalid [''spec'', ''ipv4''] (spec_IPv4 subnet) err]
      | Inr _ \<Rightarrow> [])"

definition allSubnetsWithVNI :: "(string, Subnet list) result \<Rightarrow> uint32 \<Rightarrow> (string, Subnet list) result" where
  "allSubnetsWithVNI lister vni =
     (case lister of
        Inl err \<Rightarrow> Inl err
      | Inr allSubnets \<Rightarrow> Inr (filter (\<lambda>s. spec_VNI s = vni) allSubnets))"

definition checkSameVNISameNs :: "Subnet \<Rightarrow> Subnet list \<Rightarrow> field_error list" where
  "checkSameVNISameNs thisSubnet subnets =
     map (\<lambda>aSubnet. Forbidden [''metadata'', ''namespace'']
            (''subnet '' @ sn_Namespace thisSubnet @ ''/'' @ sn_Name thisSubnet @
             '' has the same VNI but different namespace with respect to subnet '' @
             sn_Namespace aSubnet @ ''/'' @ sn_Name aSubnet @
             ''. Subnets with the same VNI MUST reside in the same namespace''))
         (filter (\<lambda>aSubnet. sn_Namespace aSubnet \<noteq> sn_Namespace thisSubnet) subnets)"

record parsedSubnet =
  baseU :: uint32
  lastU :: uint32

definition ipv4ToUint32 :: "IP \<Rightarrow> (go_panic, uint32) result" where
  "ipv4ToUint32 ip =
     (case be_uint32 (To4 ip) of None \<Rightarrow> Inl IndexOutOfRange | Some u \<Rightarrow> Inr u)"

definition parseSubnet :: "Subnet \<Rightarrow> (go_panic, parsedSubnet) result" where
  "parseSubnet subnet =
     (case ParseCIDR (spec_IPv4 subnet) of
        Inl _ \<Rightarrow> Inr \<lparr>baseU = 0, lastU = 0\<rparr>
      | Inr (_, ipNet) \<Rightarrow>
          (case ipv4ToUint32 (net_IP ipNet) of
             Inl p \<Rightarrow> Inl p
           | Inr base \<Rightarrow>
               (let (ones, bits) = Mask_Size (net_Mask ipNet);
                    delta = ucast (push_bit (bits - ones) (1 :: 64 word) - 1)
                in Inr \<lparr>baseU = base, lastU = base + delta\<rparr>)))"

definition overlaps :: "parsedSubnet \<Rightarrow> parsedSubnet \<Rightarrow> bool" where
  "overlaps ps1 ps2 \<longleftrightarrow> baseU ps1 \<le> lastU ps2 \<and> baseU ps2 \<le> lastU ps1"

fun overlap_loop :: "Subnet \<Rightarrow> parsedSubnet \<Rightarrow> Subnet list \<Rightarrow> (go_panic, field_error list) result" where
  "overlap_loop thisSubnet this [] = Inr []"
| "overlap_loop thisSubnet this (aSubnet # rest) =
     (if sn_UID thisSubnet = sn_UID aSubnet then overlap_loop thisSubnet this rest
      else
        (case parseSubnet aSubnet of
           Inl p \<Rightarrow> Inl p
         | Inr parsed \<Rightarrow>
             if overlaps this parsed then
               map_sum id (Cons (Forbidden [''spec'', ''ipv4'']
                 (''subnet '' @ sn_Namespace thisSubnet @ ''/'' @ sn_Name thisSubnet @ '' IPv4 range ('' @
                  spec_IPv4 thisSubnet @ '') overlaps with that of subnet '' @ sn_Namespace aSubnet @
                  ''/'' @ sn_Name aSubnet @ '' ('' @ spec_IPv4 aSubnet @
                  ''). IPv4 ranges for subnets with the same VNI MUST be disjoint'')))
                 (overlap_loop thisSubnet this rest)
             else overlap_loop thisSubnet this rest))"

definition checkCIDRDoesNotOverlap :: "Subnet \<Rightarrow> Subnet list \<Rightarrow> (go_panic, field_error list) result" where
  "checkCIDRDoesNotOverlap thisSubnet subnets =
     (case parseSubnet thisSubnet of
        Inl p \<Rightarrow> Inl p
      | Inr this \<Rightarrow> overlap_loop thisSubnet this subnets)"

definition Validate :: "(string, Subnet list) result \<Rightarrow> Subnet \<Rightarrow> (go_panic, field_error list) result" where
  "Validate lister thisSubnet =
     (let vniRangeErrs = checkVNIRange thisSubnet;
          cidrFormatErrs = checkCIDRFormat thisSubnet;
          errs = vniRangeErrs @ cidrFormatErrs
      in if vniRangeErrs \<noteq> [] then Inr errs
         else
           (case allSubnetsWithVNI lister (spec_VNI thisSubnet) of
              Inl _ \<Rightarrow> Inr (errs @ [InternalError (''could not fetch subnets with VNI '' @
                         sprintf_d (spec_VNI thisSubnet) @ '', try again later'')])
            | Inr subnets \<Rightarrow>
                (let errs2 = errs @ checkSameVNISameNs thisSubnet subnets in
                 if cidrFormatErrs = [] then
                   map_sum id ((@) errs2) (checkCIDRDoesNotOverlap thisSubnet subnets)
                 else Inr errs2)))"

definition ValidateUpdate :: "(string, Subnet list) result \<Rightarrow> Subnet \<Rightarrow> Subnet
    \<Rightarrow> (go_panic, field_error list) result" where
  "ValidateUpdate lister obj old = Validate lister obj"

section \<open>What the validation accepts\<close>

text \<open>The addresses of a subnet, as the code computes them.\<close>

definition subnet_range :: "Subnet \<Rightarrow> uint32 set" where
  "subnet_range s = (case parseSubnet s of Inl _ \<Rightarrow> {} | Inr ps \<Rightarrow> {baseU ps..lastU ps})"

lemma map_sum_Inr_Nil: "map_sum id ((@) es) r = Inr [] \<longleftrightarrow> es = [] \<and> r = Inr []"
  by (cases r) auto

lemma map_sum_Cons_Nil [simp]: "map_sum id (Cons e) r \<noteq> Inr []"
  by (cases r) auto

lemma overlaps_disjoint:
  "\<not> overlaps ps1 ps2 \<Longrightarrow> {baseU ps1..lastU ps1} \<inter> {baseU ps2..lastU ps2} = {}"
  by (force simp: overlaps_def)

lemma overlap_loop_ok:
  "overlap_loop thisSubnet this subnets = Inr [] \<Longrightarrow> s \<in> set subnets \<Longrightarrow> sn_UID s \<noteq> sn_UID thisSubnet \<Longrightarrow>
   {baseU this..lastU this} \<inter> subnet_range s = {}"
proof (induction thisSubnet this subnets rule: overlap_loop.induct)
  case (2 thisSubnet this aSubnet rest)
  then show ?case using overlaps_disjoint
    by (auto simp: subnet_range_def split: if_splits sum.splits)
qed simp

lemma Validate_accepts:
  assumes "Validate (Inr subnets) new = Inr []"
  shows "minVNI \<le> spec_VNI new \<and> spec_VNI new \<le> maxVNI"
    and "\<exists>ip net ps. ParseCIDR (spec_IPv4 new) = Inr (ip, net) \<and> parseSubnet new = Inr ps"
    and "\<And>s. s \<in> set subnets \<Longrightarrow> spec_VNI s = spec_VNI new \<Longrightarrow> sn_Namespace s = sn_Namespace new"
    and "\<And>s. s \<in> set subnets \<Longrightarrow> spec_VNI s = spec_VNI new \<Longrightarrow> sn_UID s \<noteq> sn_UID new \<Longrightarrow>
      subnet_range s \<inter> subnet_range new = {}"
proof -
  have vni: "checkVNIRange new = []" and cidr: "checkCIDRFormat new = []"
    using assms by (auto simp: Validate_def Let_def map_sum_Inr_Nil split: if_splits sum.splits)
  then have ns: "checkSameVNISameNs new (filter (\<lambda>s. spec_VNI s = spec_VNI new) subnets) = []"
    and ov: "checkCIDRDoesNotOverlap new (filter (\<lambda>s. spec_VNI s = spec_VNI new) subnets) = Inr []"
    using assms by (auto simp: Validate_def Let_def allSubnetsWithVNI_def map_sum_Inr_Nil)
  show "minVNI \<le> spec_VNI new \<and> spec_VNI new \<le> maxVNI"
    using vni by (auto simp: checkVNIRange_def Let_def split: if_splits)
  from ov obtain ps where ps: "parseSubnet new = Inr ps"
    by (auto simp: checkCIDRDoesNotOverlap_def split: sum.splits)
  then show "\<exists>ip net ps. ParseCIDR (spec_IPv4 new) = Inr (ip, net) \<and> parseSubnet new = Inr ps"
    using cidr by (auto simp: checkCIDRFormat_def split: sum.splits)
  show "sn_Namespace s = sn_Namespace new" if "s \<in> set subnets" "spec_VNI s = spec_VNI new" for s
    using ns that by (auto simp: checkSameVNISameNs_def filter_empty_conv)
  show "subnet_range s \<inter> subnet_range new = {}"
    if "s \<in> set subnets" "spec_VNI s = spec_VNI new" "sn_UID s \<noteq> sn_UID new" for s
    using overlap_loop_ok [of new ps "filter (\<lambda>s. spec_VNI s = spec_VNI new) subnets" s] ov ps that
    by (auto simp: checkCIDRDoesNotOverlap_def subnet_range_def)
qed

section \<open>Ranges of IPv4 blocks\<close>

lemma ip_Mask_v4: "ip_Mask (IPv4 a b c d) [m, n, p, q] = [a AND m, b AND n, c AND p, d AND q]"
  by (simp add: ip_Mask_def IPv4_def)

text \<open>The range of a subnet given by an IPv4 address and a prefix length.\<close>

lemma parseSubnet_v4:
  assumes "ParseCIDR (spec_IPv4 s) = Inr (IPv4 a b c d, net)" "net_Mask net = CIDRMask n 32"
    and "net_IP net = ip_Mask (IPv4 a b c d) (CIDRMask n 32)" "n \<le> 32"
  shows "parseSubnet s = Inr \<lparr>baseU = be_or a b c d AND prefix_mask n,
    lastU = (be_or a b c d AND prefix_mask n) + block_delta n 32\<rparr>"
proof -
  from CIDRMask_32 [OF assms(4)] obtain m1 m2 m3 m4 where
    m: "CIDRMask n 32 = [m1, m2, m3, m4]" "be_or m1 m2 m3 m4 = prefix_mask n"
      "simpleMaskLength [m1, m2, m3, m4] = Some n" by blast
  have "ipv4ToUint32 (net_IP net) = Inr (be_or a b c d AND prefix_mask n)"
    using assms(3) m(1,2)
    by (simp add: ip_Mask_v4 ipv4ToUint32_def be_uint32_or be_or_and del: be_uint32.simps)
  moreover have "Mask_Size (net_Mask net) = (n, 32)"
    using assms(2) m(1,3) by (simp add: Mask_Size_def del: simpleMaskLength.simps)
  ultimately show ?thesis using assms(1) by (simp add: parseSubnet_def block_delta_def)
qed

text \<open>A block is written \<open>a.b.c.d/n\<close>; reading it gives the address and the mask.\<close>

lemma takeWhile_slash: "CHR ''/'' \<notin> set s \<Longrightarrow> takeWhile (\<lambda>c. c \<noteq> CHR ''/'') (s @ CHR ''/'' # t) = s"
  "CHR ''/'' \<notin> set s \<Longrightarrow> dropWhile (\<lambda>c. c \<noteq> CHR ''/'') (s @ CHR ''/'' # t) = CHR ''/'' # t"
  by (induction s) auto

lemma slash_notin_v4_String: "CHR ''/'' \<notin> set (v4_String [a, b, c, d])"
  using dot_colon_notin(3) [of a] dot_colon_notin(3) [of b] dot_colon_notin(3) [of c]
    dot_colon_notin(3) [of d] by (simp add: v4_String_four)

lemma ParseCIDR_v4:
  assumes "n \<le> 32"
  shows "ParseCIDR (v4_String [a, b, c, d] @ ''/'' @ format_uint 10 n) =
    Inr (IPv4 a b c d, \<lparr>net_IP = ip_Mask (IPv4 a b c d) (CIDRMask n 32), net_Mask = CIDRMask n 32\<rparr>)"
proof -
  have "toi 10 (format_uint 10 n) = (n, length (format_uint 10 n), True)"
    using toi_format [of 10 n "[]"] assms by simp
  then show ?thesis
    using assms by (simp add: ParseCIDR_def Let_def takeWhile_slash slash_notin_v4_String parseIPv4_String)
qed

end
