(* ===== verification/Subnet_Props.thy ===== *)
theory Subnet_Props
  imports Subnet_Strategy
begin

text \<open>
  The properties of the subnet validation: the store of subnets as a state machine whose steps
  are the creations and updates the strategy accepts, each by what its subnet lister had at that
  time, and deletions; its invariant; what concurrent creations can break; the meaning of a
  subnet's range; and the panic on IPv6 blocks.
\<close>

section \<open>The store of subnets\<close>

text \<open>
  The lister of the strategy reads an informer cache, which may lag behind the store and miss what
  is created concurrently. So a step validates against a list \<open>cache\<close> of subnets of which
  \<open>sees\<close> says how it is related to the store: not at all (\<open>\<lambda>_ _. True\<close>), or by containing
  every stored subnet. An entry of the store remembers the cache by which it was accepted last.
  The API machinery gives a new object a fresh UID and keeps the UID of an object that is updated.
\<close>

type_synonym subnet_entry = "Subnet \<times> Subnet list"

inductive subnet_step :: "(Subnet list \<Rightarrow> Subnet list \<Rightarrow> bool) \<Rightarrow> subnet_entry list \<Rightarrow> subnet_entry list \<Rightarrow> bool"
  for sees :: "Subnet list \<Rightarrow> Subnet list \<Rightarrow> bool" where
  create: "new = subnet_PrepareForCreate obj \<Longrightarrow> sn_UID new \<notin> (sn_UID \<circ> fst) ` set db \<Longrightarrow>
    sees (map fst db) cache \<Longrightarrow> Validate (Inr cache) new = Inr [] \<Longrightarrow> subnet_step sees db ((new, cache) # db)"
| update: "db = L @ (old, cache0) # R \<Longrightarrow> sn_UID new = sn_UID old \<Longrightarrow>
    sees (map fst db) cache \<Longrightarrow> ValidateUpdate (Inr cache) new old = Inr [] \<Longrightarrow>
    subnet_step sees db (L @ (new, cache) # R)"
| delete: "subnet_step sees (L @ old # R) (L @ R)"

inductive_cases subnet_stepE: "subnet_step sees db db'"

definition compatible :: "Subnet \<Rightarrow> Subnet \<Rightarrow> bool" where
  "compatible s t \<longleftrightarrow> sn_UID s \<noteq> sn_UID t \<and>
     (spec_VNI s = spec_VNI t \<longrightarrow>
        sn_Namespace s = sn_Namespace t \<and> subnet_range s \<inter> subnet_range t = {})"

definition valid_subnet :: "Subnet \<Rightarrow> bool" where
  "valid_subnet s \<longleftrightarrow> minVNI \<le> spec_VNI s \<and> spec_VNI s \<le> maxVNI \<and>
     (\<exists>ps. parseSubnet s = Inr ps)"

text \<open>In every reachable store UIDs are unique, and every subnet is accepted by its cache.\<close>

definition subnets_ok :: "subnet_entry list \<Rightarrow> bool" where
  "subnets_ok db \<longleftrightarrow> distinct (map (sn_UID \<circ> fst) db) \<and> (\<forall>(s, cache)\<in>set db. Validate (Inr cache) s = Inr [])"

lemma compatible_sym: "compatible s t \<Longrightarrow> compatible t s"
  by (auto simp: compatible_def)

lemma accepted_compatible:
  assumes "Validate (Inr cache) new = Inr []" "s \<in> set cache" "sn_UID s \<noteq> sn_UID new"
  shows "compatible s new"
  using Validate_accepts [OF assms(1)] assms(2,3) by (auto simp: compatible_def)

lemma accepted_valid: "Validate (Inr cache) new = Inr [] \<Longrightarrow> valid_subnet new"
  using Validate_accepts(1,2) by (auto simp: valid_subnet_def)

lemma subnet_step_ok: "subnet_step sees db db' \<Longrightarrow> subnets_ok db \<Longrightarrow> subnets_ok db'"
  by (induction rule: subnet_step.induct) (auto simp: subnets_ok_def ValidateUpdate_def)

lemma subnets_reachable_ok: "(subnet_step sees)\<^sup>*\<^sup>* [] db \<Longrightarrow> subnets_ok db"
  by (induction rule: rtranclp_induct) (auto simp: subnet_step_ok, simp add: subnets_ok_def)

lemma subnets_ok_uid:
  assumes "subnets_ok db" "(s, cs) \<in> set db" "(t, ct) \<in> set db" "s \<noteq> t"
  shows "sn_UID s \<noteq> sn_UID t"
proof
  assume "sn_UID s = sn_UID t"
  moreover have "inj_on (sn_UID \<circ> fst) (set db)" using assms(1) by (simp add: subnets_ok_def distinct_map)
  ultimately have "(s, cs) = (t, ct)" using inj_onD [of "sn_UID \<circ> fst" "set db", OF _ _ assms(2,3)] by simp
  then show False using assms(4) by simp
qed

text \<open>Two subnets of which one was in the cache by which the other was accepted.\<close>

definition acquainted :: "subnet_entry \<Rightarrow> subnet_entry \<Rightarrow> bool" where
  "acquainted e e' \<longleftrightarrow> fst e \<in> set (snd e') \<or> fst e' \<in> set (snd e)"

lemma subnets_ok_pair:
  assumes "subnets_ok db" "(s, cs) \<in> set db" "(t, ct) \<in> set db" "s \<noteq> t" "acquainted (s, cs) (t, ct)"
  shows "compatible s t"
proof -
  have acc: "Validate (Inr cs) s = Inr []" "Validate (Inr ct) t = Inr []"
    using assms(1-3) by (auto simp: subnets_ok_def)
  show ?thesis
    using accepted_compatible [OF acc(1), of t] accepted_compatible [OF acc(2), of s]
      subnets_ok_uid [OF assms(1-4)] assms(5) compatible_sym by (auto simp: acquainted_def)
qed

definition none_concurrent :: "subnet_entry list \<Rightarrow> bool" where
  "none_concurrent db \<longleftrightarrow> (\<forall>e\<in>set db. \<forall>e'\<in>set db. fst e \<noteq> fst e' \<longrightarrow> spec_VNI (fst e) = spec_VNI (fst e') \<longrightarrow>
     acquainted e e')"

lemma none_concurrent_pair:
  assumes "(subnet_step sees)\<^sup>*\<^sup>* [] db" "none_concurrent db" "s \<in> fst ` set db" "t \<in> fst ` set db" "s \<noteq> t"
    and "spec_VNI s = spec_VNI t"
  shows "sn_Namespace s = sn_Namespace t" "subnet_range s \<inter> subnet_range t = {}"
proof -
  from assms(3,4) obtain cs ct where e: "(s, cs) \<in> set db" "(t, ct) \<in> set db" by auto
  with assms(2,5,6) have "acquainted (s, cs) (t, ct)" by (auto simp: none_concurrent_def)
  from subnets_ok_pair [OF subnets_reachable_ok [OF assms(1)] e assms(5) this] assms(6)
  show "sn_Namespace s = sn_Namespace t" "subnet_range s \<inter> subnet_range t = {}" by (simp_all add: compatible_def)
qed

text \<open>When every cache has the whole store, any two subnets are acquainted.\<close>

lemma current_acquainted:
  assumes "(subnet_step (\<lambda>store cache. set store \<subseteq> set cache))\<^sup>*\<^sup>* [] db"
  shows "sorted_wrt acquainted db"
  using assms
proof (induction rule: rtranclp_induct)
  case (step db db')
  from step.hyps(2) show ?case
  proof cases
    case (create new obj cache)
    have "acquainted (new, cache) e" if "e \<in> set db" for e using create(4) that by (auto simp: acquainted_def)
    then show ?thesis unfolding create(1) using step.IH by simp
  next
    case (update L old cache0 R new cache)
    have "acquainted (new, cache) e" "acquainted e (new, cache)" if "e \<in> set (L @ R)" for e
      using update(2,4) that by (auto simp: acquainted_def)
    moreover have "sorted_wrt acquainted (L @ R)" using step.IH unfolding update(2) by (simp add: sorted_wrt_append)
    ultimately show ?thesis unfolding update(1) by (simp add: sorted_wrt_append)
  next
    case (delete L old R)
    then show ?thesis using step.IH by (simp add: sorted_wrt_append)
  qed
qed simp

lemma current_compatible:
  assumes "(subnet_step (\<lambda>store cache. set store \<subseteq> set cache))\<^sup>*\<^sup>* [] db"
    and "(s, cs) \<in> set db" "(t, ct) \<in> set db" "s \<noteq> t"
  shows "compatible s t"
proof -
  have sym: "acquainted e e' \<Longrightarrow> acquainted e' e" for e e' by (auto simp: acquainted_def)
  obtain i j where "i < length db" "j < length db" "db ! i = (s, cs)" "db ! j = (t, ct)"
    using assms(2,3) by (auto simp: in_set_conv_nth)
  then have "acquainted (s, cs) (t, ct)"
    using current_acquainted [OF assms(1)] assms(4) sym sorted_wrt_nth_less [of acquainted db]
    by (metis linorder_neqE_nat prod.inject)
  from subnets_ok_pair [OF subnets_reachable_ok [OF assms(1)] assms(2-4) this] show ?thesis .
qed

text \<open>
  C3: take any store of subnets that creations and updates accepted by the strategy and deletions
  lead to, where each validation may read an informer cache that lags behind the store in any
  way. Every VNI in it is between 1 and 2097151; and two different subnets of one VNI, of which
  one was in the cache by which the other was accepted last, are in the same namespace and have
  no address in common. Without that condition, that is for subnets that were validated
  concurrently, nothing of the kind holds, as the comments of the strategy say:
  \<open>concurrent_creations_overlap\<close> below is an example.
\<close>

theorem subnets_disjoint:
  assumes "(subnet_step sees)\<^sup>*\<^sup>* [] db" "(s, cs) \<in> set db"
  shows "1 \<le> spec_VNI s \<and> spec_VNI s \<le> 2097151 \<and>
    (\<forall>t ct. (t, ct) \<in> set db \<and> s \<noteq> t \<and> spec_VNI s = spec_VNI t \<and> (s \<in> set ct \<or> t \<in> set cs) \<longrightarrow>
       sn_Namespace s = sn_Namespace t \<and> subnet_range s \<inter> subnet_range t = {})"
proof (intro conjI allI impI)
  have ok: "subnets_ok db" using assms(1) by (rule subnets_reachable_ok)
  then have "valid_subnet s" using assms(2) accepted_valid by (auto simp: subnets_ok_def)
  then show "1 \<le> spec_VNI s" "spec_VNI s \<le> 2097151" by (simp_all add: valid_subnet_def minVNI_def maxVNI_def)
  fix t ct assume t: "(t, ct) \<in> set db \<and> s \<noteq> t \<and> spec_VNI s = spec_VNI t \<and> (s \<in> set ct \<or> t \<in> set cs)"
  then have "acquainted (s, cs) (t, ct)" by (auto simp: acquainted_def)
  with t have "compatible s t" using subnets_ok_pair [OF ok assms(2)] by blast
  with t show "sn_Namespace s = sn_Namespace t" "subnet_range s \<inter> subnet_range t = {}" by (simp_all add: compatible_def)
qed

definition sample_subnet :: "string \<Rightarrow> string \<Rightarrow> string \<Rightarrow> uint32 \<Rightarrow> Subnet" where
  "sample_subnet name uid cidr vni =
     \<lparr>sn_meta = \<lparr>meta_Name = name, meta_Namespace = ''ns'', meta_UID = uid, meta_ResourceVersion = ''1'',
        meta_CreationTimestamp = 0, meta_OwnerReferences = []\<rparr>,
      sn_Spec = \<lparr>sn_IPv4 = cidr, sn_VNI = vni\<rparr>, sn_Errors = []\<rparr>"

definition sample_store :: "subnet_entry list" where
  "sample_store = [(sample_subnet ''b'' ''u2'' ''10.0.1.0/24'' 7, [sample_subnet ''a'' ''u1'' ''10.0.0.0/24'' 7]),
     (sample_subnet ''a'' ''u1'' ''10.0.0.0/24'' 7, [])]"

lemma sample_prepared: "sample_subnet name uid cidr vni = subnet_PrepareForCreate (sample_subnet name uid cidr vni)"
  by (simp add: subnet_PrepareForCreate_def sample_subnet_def)

lemma sample_uid [simp]: "sn_UID (sample_subnet name uid cidr vni) = uid"
  by (simp add: sample_subnet_def)

lemma two_creations:
  assumes "Validate (Inr cache1) (sample_subnet name1 ''u1'' cidr1 vni) = Inr []"
    and "Validate (Inr cache2) (sample_subnet name2 ''u2'' cidr2 vni) = Inr []"
  shows "(subnet_step (\<lambda>_ _. True))\<^sup>*\<^sup>* []
    [(sample_subnet name2 ''u2'' cidr2 vni, cache2), (sample_subnet name1 ''u1'' cidr1 vni, cache1)]"
proof -
  let ?a = "sample_subnet name1 ''u1'' cidr1 vni" and ?b = "sample_subnet name2 ''u2'' cidr2 vni"
  have "subnet_step (\<lambda>_ _. True) [] [(?a, cache1)]"
    using create [OF sample_prepared, where db = "[]" and sees = "\<lambda>_ _. True"] assms(1) by simp
  moreover have "subnet_step (\<lambda>_ _. True) [(?a, cache1)] [(?b, cache2), (?a, cache1)]"
    using create [OF sample_prepared, where db = "[(?a, cache1)]" and sees = "\<lambda>_ _. True"] assms(2) by simp
  ultimately show ?thesis by (meson r_into_rtranclp rtranclp.rtrancl_into_rtrancl)
qed

lemma sample_subnets_reachable: "(subnet_step (\<lambda>_ _. True))\<^sup>*\<^sup>* [] sample_store"
proof -
  have "Validate (Inr []) (sample_subnet ''a'' ''u1'' ''10.0.0.0/24'' 7) = Inr []"
    "Validate (Inr [sample_subnet ''a'' ''u1'' ''10.0.0.0/24'' 7]) (sample_subnet ''b'' ''u2'' ''10.0.1.0/24'' 7) = Inr []"
    by code_simp+
  then show ?thesis unfolding sample_store_def by (rule two_creations)
qed

theorem subnets_disjoint_witness:
  "subnet_range (sample_subnet ''a'' ''u1'' ''10.0.0.0/24'' 7) \<inter>
   subnet_range (sample_subnet ''b'' ''u2'' ''10.0.1.0/24'' 7) = {}"
proof -
  have "sample_subnet ''a'' ''u1'' ''10.0.0.0/24'' 7 \<noteq> sample_subnet ''b'' ''u2'' ''10.0.1.0/24'' 7"
    "spec_VNI (sample_subnet ''a'' ''u1'' ''10.0.0.0/24'' 7) = spec_VNI (sample_subnet ''b'' ''u2'' ''10.0.1.0/24'' 7)"
    by (simp_all add: sample_subnet_def)
  with subnets_disjoint [OF sample_subnets_reachable, of "sample_subnet ''a'' ''u1'' ''10.0.0.0/24'' 7" "[]"]
  show ?thesis by (simp add: sample_store_def)
qed

text \<open>
  Two creations whose validations both read an empty cache are both accepted, although their
  blocks overlap: the comments of the strategy admit this, while those of the types promise that
  subnets of one VNI are disjoint.
\<close>

lemma concurrent_creations_overlap:
  "\<exists>db s t. (subnet_step (\<lambda>_ _. True))\<^sup>*\<^sup>* [] db \<and> map fst db = [s, t] \<and> s \<noteq> t \<and> spec_VNI s = spec_VNI t \<and>
     subnet_range s \<inter> subnet_range t \<noteq> {}"
proof -
  let ?a = "sample_subnet ''a'' ''u1'' ''10.0.0.0/24'' 7" and ?b = "sample_subnet ''b'' ''u2'' ''10.0.0.0/25'' 7"
  have "Validate (Inr []) ?a = Inr []" "Validate (Inr []) ?b = Inr []" by code_simp+
  note r = two_creations [OF this]
  have "(case (parseSubnet ?a, parseSubnet ?b) of
      (Inr p, Inr q) \<Rightarrow> baseU p = baseU q \<and> baseU p \<le> lastU p \<and> baseU q \<le> lastU q | _ \<Rightarrow> False)" by code_simp
  then have "subnet_range ?b \<inter> subnet_range ?a \<noteq> {}"
    by (auto simp: subnet_range_def split: sum.splits)
  then show ?thesis using r by (intro exI [of _ ?b] exI [of _ ?a] exI conjI) (auto simp: sample_subnet_def)
qed

text \<open>
  C24: the range of a subnet written \<open>a.b.c.d/n\<close> is exactly the set of addresses that agree with
  \<open>a.b.c.d\<close> on the first \<open>n\<close> bits.
\<close>

theorem subnet_range_prefix:
  assumes "n \<le> 32" "spec_IPv4 s = v4_String [a, b, c, d] @ ''/'' @ format_uint 10 n"
  shows "x \<in> subnet_range s \<longleftrightarrow> x AND prefix_mask n = be_or a b c d AND prefix_mask n"
proof -
  have "parseSubnet s = Inr \<lparr>baseU = be_or a b c d AND prefix_mask n,
      lastU = (be_or a b c d AND prefix_mask n) + block_delta n 32\<rparr>"
    using assms by (intro parseSubnet_v4 [where net = "\<lparr>net_IP = ip_Mask (IPv4 a b c d) (CIDRMask n 32),
        net_Mask = CIDRMask n 32\<rparr>"]) (simp_all only: ParseCIDR_v4 IPNet.simps)
  then show ?thesis using block_range [OF assms(1) refl] by (simp add: subnet_range_def)
qed

theorem subnet_range_prefix_witness:
  "be_or 10 0 0 77 \<in> subnet_range (sample_subnet ''a'' ''u1'' ''10.0.0.5/24'' 7) \<and>
   be_or 10 0 1 0 \<notin> subnet_range (sample_subnet ''a'' ''u1'' ''10.0.0.5/24'' 7)"
proof -
  have "spec_IPv4 (sample_subnet ''a'' ''u1'' ''10.0.0.5/24'' 7) = v4_String [10, 0, 0, 5] @ ''/'' @ format_uint 10 24"
    by code_simp
  moreover have "be_or 10 0 0 77 AND prefix_mask 24 = be_or 10 0 0 5 AND prefix_mask 24"
    "be_or 10 0 1 0 AND prefix_mask 24 \<noteq> be_or 10 0 0 5 AND prefix_mask 24"
    by code_simp+
  ultimately show ?thesis
    using subnet_range_prefix [of 24 "sample_subnet ''a'' ''u1'' ''10.0.0.5/24'' 7" 10 0 0 5 "be_or 10 0 0 77"]
      subnet_range_prefix [of 24 "sample_subnet ''a'' ''u1'' ''10.0.0.5/24'' 7" 10 0 0 5 "be_or 10 0 1 0"]
    by simp
qed

text \<open>
  C38: a subnet with a well-formed CIDR block that is not an IPv4 block passes the format check,
  and then, when its VNI is in range and the lister answers, the overlap check panics with an
  index out of range: the validation has no answer for it.
\<close>

theorem IPv6_block_panics:
  assumes "ParseCIDR (spec_IPv4 s) = Inr (ip, net)" "To4 (net_IP net) = []"
    and "1 \<le> spec_VNI s" "spec_VNI s \<le> 2097151"
  shows "checkCIDRFormat s = [] \<and> Validate (Inr subnets) s = Inl IndexOutOfRange"
proof -
  have "parseSubnet s = Inl IndexOutOfRange" using assms(1,2) by (simp add: parseSubnet_def ipv4ToUint32_def)
  moreover have "checkCIDRFormat s = []" using assms(1) by (simp add: checkCIDRFormat_def)
  moreover have "checkVNIRange s = []"
    using assms(3,4) by (simp add: checkVNIRange_def Let_def minVNI_def maxVNI_def not_less [symmetric])
  ultimately show ?thesis
    by (simp add: Validate_def allSubnetsWithVNI_def checkCIDRDoesNotOverlap_def)
qed

theorem IPv6_block_panics_witness:
  "Validate (Inr []) (sample_subnet ''a'' ''u1'' ''2001:db8::/32'' 7) = Inl IndexOutOfRange"
proof -
  let ?ip = "[0x20, 0x01, 0x0d, 0xb8] @ replicate 12 0 :: uint8 list"
  let ?m = "replicate 4 255 @ replicate 12 0 :: uint8 list"
  have "ParseCIDR ''2001:db8::/32'' = Inr (?ip, \<lparr>net_IP = ?ip, net_Mask = ?m\<rparr>)" by code_simp
  moreover have "To4 ?ip = []" by code_simp
  ultimately show ?thesis
    using IPv6_block_panics [of "sample_subnet ''a'' ''u1'' ''2001:db8::/32'' 7" ?ip
        "\<lparr>net_IP = ?ip, net_Mask = ?m\<rparr>" "[]"]
    by (simp add: sample_subnet_def)
qed

end
