(* ===== verification/IPAM_Locks.thy ===== *)
theory IPAM_Locks
  imports Net_API
begin

text \<open>
  The lock objects of \<open>pkg/controllers/ipam/ipam.go\<close>: the names of locks, which carry the VNI and
  the address, parsed locks and the operations on lists of them. Lock names can be read back;
  the choice of the best lock is a maximum of a strict order, so it does not depend on the order
  in which the locks were found.
\<close>

section \<open>Addresses and lock names\<close>

definition IPv4ToUint32 :: "IP \<Rightarrow> (go_panic, uint32) result" where
  "IPv4ToUint32 ip =
     (case be_uint32 (To4 ip) of None \<Rightarrow> Inl IndexOutOfRange | Some u \<Rightarrow> Inr u)"

definition Uint32ToIPv4 :: "uint32 \<Rightarrow> IP" where
  "Uint32ToIPv4 i =
     IPv4 (ucast (drop_bit 24 i)) (ucast (drop_bit 16 i)) (ucast (drop_bit 8 i)) (ucast i)"

definition makeIPLockName2 :: "uint32 \<Rightarrow> IP \<Rightarrow> (go_panic, string) result" where
  "makeIPLockName2 VNI ip =
     (case To4 ip of
        a # b # c # d # _ \<Rightarrow>
          Inr (''v1-'' @ sprintf_d VNI @ ''-'' @ sprintf_d a @ ''-'' @ sprintf_d b @ ''-'' @
               sprintf_d c @ ''-'' @ sprintf_d d)
      | _ \<Rightarrow> Inl IndexOutOfRange)"

datatype lock_name_error = MalformedName | MalformedVNI num_error | MalformedByte nat num_error

fun parse_addr_bytes :: "string list \<Rightarrow> nat \<Rightarrow> uint32 \<Rightarrow> (lock_name_error, uint32) result" where
  "parse_addr_bytes [] i addrU = Inr addrU"
| "parse_addr_bytes (p # ps) i addrU =
     (case ParseUint p 10 8 of
        (b, Some e) \<Rightarrow> Inl (MalformedByte i e)
      | (b, None) \<Rightarrow> parse_addr_bytes ps (Suc i) (addrU * 256 + of_nat b))"

definition parseIPLockName :: "string \<Rightarrow> (lock_name_error, uint32 \<times> uint32) result" where
  "parseIPLockName lockName =
     (let parts = split_on CHR ''-'' lockName in
      if length parts \<noteq> 6 \<or> parts ! 0 \<noteq> ''v1'' then Inl MalformedName
      else
        (case ParseUint (parts ! 1) 10 21 of
           (vni, Some e) \<Rightarrow> Inl (MalformedVNI e)
         | (vni, None) \<Rightarrow> map_sum id (Pair (of_nat vni)) (parse_addr_bytes (drop 2 parts) 0 0)))"

section \<open>Owners\<close>

definition controlled_by :: "string \<Rightarrow> OwnerReference \<Rightarrow> bool" where
  "controlled_by kind oref \<longleftrightarrow> or_Kind oref = kind \<and> or_Controller oref = Some True"

definition OwningAttachments :: "ObjectMeta \<Rightarrow> string list" where
  "OwningAttachments meta =
     map or_Name (filter (controlled_by ''NetworkAttachment'') (meta_OwnerReferences meta))"

definition GetOwner :: "ObjectMeta \<Rightarrow> string \<Rightarrow> string \<times> string" where
  "GetOwner obj ownerKind =
     foldl (\<lambda>acc oref. if controlled_by ownerKind oref then (or_Name oref, or_UID oref) else acc)
       ([], []) (meta_OwnerReferences obj)"

definition AttachmentSubnets :: "NetworkAttachment \<Rightarrow> string list" where
  "AttachmentSubnets att = [Subnet_name (att_Spec att)]"

section \<open>Parsed locks\<close>

record ParsedLock =
  pl_ns :: string
  pl_name :: string
  pl_VNI :: uint32
  pl_addrU :: uint32
  pl_UID :: string
  pl_CreationTime :: gotime
  pl_Obj :: "IPLock option"

definition zeroParsedLock :: ParsedLock where
  "zeroParsedLock = \<lparr>pl_ns = [], pl_name = [], pl_VNI = 0, pl_addrU = 0, pl_UID = [],
     pl_CreationTime = 0, pl_Obj = None\<rparr>"

definition NewParsedLock :: "IPLock \<Rightarrow> (lock_name_error, ParsedLock) result" where
  "NewParsedLock ipl =
     (case parseIPLockName (meta_Name (ipl_meta ipl)) of
        Inl e \<Rightarrow> Inl e
      | Inr (vni, addrU) \<Rightarrow>
          Inr \<lparr>pl_ns = meta_Namespace (ipl_meta ipl), pl_name = meta_Name (ipl_meta ipl),
            pl_VNI = vni, pl_addrU = addrU, pl_UID = meta_UID (ipl_meta ipl),
            pl_CreationTime = meta_CreationTimestamp (ipl_meta ipl), pl_Obj = Some ipl\<rparr>)"

definition GetIP :: "ParsedLock \<Rightarrow> IP" where
  "GetIP x = Uint32ToIPv4 (pl_addrU x)"

definition pl_Equal :: "ParsedLock \<Rightarrow> ParsedLock \<Rightarrow> bool" where
  "pl_Equal x y \<longleftrightarrow> pl_VNI x = pl_VNI y \<and> pl_UID x = pl_UID y \<and>
     pl_CreationTime x = pl_CreationTime y \<and> pl_addrU x = pl_addrU y"

definition IsBetterThan :: "ParsedLock \<Rightarrow> ParsedLock \<Rightarrow> bool" where
  "IsBetterThan x y =
     (if pl_CreationTime x \<noteq> pl_CreationTime y then pl_CreationTime x < pl_CreationTime y
      else str_less (pl_UID y) (pl_UID x))"

definition Best :: "ParsedLock list \<Rightarrow> ParsedLock" where
  "Best ls =
     (case ls of
        [] \<Rightarrow> zeroParsedLock
      | ans # rest \<Rightarrow> foldl (\<lambda>ans elt. if IsBetterThan elt ans then elt else ans) ans rest)"

fun pl_Has :: "ParsedLock list \<Rightarrow> ParsedLock \<Rightarrow> bool" where
  "pl_Has [] elt = False"
| "pl_Has (x # xs) elt = (if pl_Equal x elt then True else pl_Has xs elt)"

definition pl_Append :: "ParsedLock list \<Rightarrow> ParsedLock list \<Rightarrow> ParsedLock list" where
  "pl_Append ls elts = ls @ elts"

definition AddFunc :: "ParsedLock list \<Rightarrow> ParsedLock \<Rightarrow> ParsedLock list \<times> bool" where
  "AddFunc ls elt =
     (if ls = [] then ([elt], True)
      else if \<exists>x\<in>set ls. pl_Equal x elt then (ls, False)
      else (ls @ [elt], True))"

fun AddListFunc :: "ParsedLock list \<Rightarrow> ParsedLock list \<Rightarrow> ParsedLock list \<times> bool" where
  "AddListFunc with [] = (with, False)"
| "AddListFunc with (elt # rest) =
     (let (with', diffHere) = AddFunc with elt; (with'', diff) = AddListFunc with' rest
      in (with'', diffHere \<or> diff))"

fun rem_loop :: "ParsedLock \<Rightarrow> ParsedLock list \<Rightarrow> ParsedLock list \<times> bool" where
  "rem_loop elt [] = ([], False)"
| "rem_loop elt (x # xs) =
     (if pl_Equal x elt then (xs, True) else map_prod (Cons x) id (rem_loop elt xs))"

definition RemFunc :: "ParsedLock list \<Rightarrow> ParsedLock \<Rightarrow> ParsedLock list \<times> bool" where
  "RemFunc ls elt =
     (case ls of
        [] \<Rightarrow> ([], False)
      | [x] \<Rightarrow> if pl_Equal elt x then ([], True) else (ls, False)
      | _ \<Rightarrow> rem_loop elt ls)"

definition FormatErrVal :: "bool \<Rightarrow> string" where
  "FormatErrVal err = (if err then ''err'' else ''ok'')"

section \<open>Addresses\<close>

lemma IPv4ToUint32_IPv4 [net_simps]: "IPv4ToUint32 (IPv4 a b c d) = Inr (be_or a b c d)"
  by (simp add: IPv4ToUint32_def be_uint32_or del: be_uint32.simps)

lemma IPv4ToUint32_Uint32ToIPv4 [simp]: "IPv4ToUint32 (Uint32ToIPv4 i) = Inr i"
  by (simp add: Uint32ToIPv4_def IPv4ToUint32_IPv4 be_or_bytes)

lemma Uint32ToIPv4_be_or: "Uint32ToIPv4 (be_or a b c d) = IPv4 a b c d"
  using be_bytes_or [of a b c d] by (simp add: Uint32ToIPv4_def be_bytes_def)

lemma Uint32ToIPv4_inj [simp]: "Uint32ToIPv4 i = Uint32ToIPv4 j \<longleftrightarrow> i = j"
  by (metis IPv4ToUint32_Uint32ToIPv4 sum.inject(2))

lemma To4_Uint32ToIPv4 [simp]: "To4 (Uint32ToIPv4 i) = be_bytes i"
  by (simp add: Uint32ToIPv4_def be_bytes_def)

lemma Uint32ToIPv4_not_nil [simp]: "Uint32ToIPv4 i \<noteq> []"
  by (simp add: Uint32ToIPv4_def)

lemma ParseIP_Uint32ToIPv4 [simp]: "ParseIP (ip_String (Uint32ToIPv4 i)) = Uint32ToIPv4 i"
  by (subst ParseIP_String) (simp_all add: be_bytes_def, simp add: Uint32ToIPv4_def IPv4_def)

lemma ip_String_Uint32ToIPv4_inj [simp]:
  "ip_String (Uint32ToIPv4 i) = ip_String (Uint32ToIPv4 j) \<longleftrightarrow> i = j"
  by (metis ParseIP_Uint32ToIPv4 Uint32ToIPv4_inj)

section \<open>Lock names can be read back\<close>

definition lock_name_parts :: "uint32 \<Rightarrow> uint8 list \<Rightarrow> string list" where
  "lock_name_parts vni bs = ''v1'' # sprintf_d vni # map sprintf_d bs"

lemma makeIPLockName2_join:
  "To4 ip = [a, b, c, d] \<Longrightarrow> makeIPLockName2 vni ip = Inr (join ''-'' (lock_name_parts vni [a, b, c, d]))"
  by (simp add: makeIPLockName2_def lock_name_parts_def)

lemma split_lock_name: "split_on CHR ''-'' (join ''-'' (lock_name_parts vni bs)) = lock_name_parts vni bs"
  by (rule split_on_join) (auto simp: lock_name_parts_def dot_colon_notin)

lemma parse_addr_bytes_sprintf:
  "parse_addr_bytes (map sprintf_d (bs :: uint8 list)) i u = Inr (foldl (\<lambda>u b. u * 256 + ucast b) u bs)"
proof (induction bs arbitrary: i u)
  case (Cons b bs)
  have "ParseUint (sprintf_d b) 10 8 = (unat b, None)"
    unfolding sprintf_d_def using unat_lt8 [of b] by (intro ParseUint_format_uint) simp_all
  then show ?case using Cons by simp
qed simp

lemma foldl_be_or:
  "foldl (\<lambda>u b. u * 256 + ucast b) 0 [a, b, c, d] = be_or a b c (d :: uint8)"
proof -
  have "Some (be_or a b c d) = be_uint32 [a, b, c, d]" by (simp only: be_uint32_or)
  then have "be_or a b c d = push_bit 24 (ucast a) + push_bit 16 (ucast b) + push_bit 8 (ucast c) + ucast d"
    by simp
  then show ?thesis by (simp add: push_bit_eq_mult algebra_simps)
qed

lemma parse_lock_name:
  assumes "vni < 2 ^ 21"
  shows "parseIPLockName (join ''-'' (lock_name_parts vni [a, b, c, d])) = Inr (vni, be_or a b c d)"
proof -
  have "unat vni < 2 ^ 21" using assms by (simp add: word_less_nat_alt)
  then have "ParseUint (sprintf_d vni) 10 21 = (unat vni, None)"
    unfolding sprintf_d_def by (intro ParseUint_format_uint) simp_all
  then show ?thesis
    using parse_addr_bytes_sprintf [of "[a, b, c, d]" 0 0] foldl_be_or [of a b c d]
    unfolding parseIPLockName_def split_lock_name Let_def
    by (simp add: lock_name_parts_def del: foldl_Cons)
qed

lemma parse_make_lock_name:
  assumes "vni < 2 ^ 21" "IPv4ToUint32 ip = Inr u" "makeIPLockName2 vni ip = Inr name"
  shows "parseIPLockName name = Inr (vni, u)"
proof -
  have "length (To4 ip) = 4" using assms(2) length_To4 [of ip] by (auto simp: IPv4ToUint32_def)
  then obtain a b c d where abcd: "To4 ip = [a, b, c, d]"
    by (auto simp: length_Suc_conv numeral_eq_Suc)
  then have "u = be_or a b c d" using assms(2) by (simp add: IPv4ToUint32_def be_uint32_or del: be_uint32.simps)
  then show ?thesis
    using assms(3) makeIPLockName2_join [OF abcd, of vni] parse_lock_name [OF assms(1), of a b c d]
    by (metis sum.inject(2))
qed

lemma makeIPLockName2_Uint32: "\<exists>name. makeIPLockName2 vni (Uint32ToIPv4 u) = Inr name"
  by (simp add: makeIPLockName2_def be_bytes_def)

section \<open>The order of locks\<close>

lemma IsBetterThan_irrefl [simp]: "\<not> IsBetterThan x x"
  by (simp add: IsBetterThan_def)

lemma IsBetterThan_trans: "IsBetterThan x y \<Longrightarrow> IsBetterThan y z \<Longrightarrow> IsBetterThan x z"
  using str_less_trans by (auto simp: IsBetterThan_def split: if_splits)

lemma IsBetterThan_total:
  "IsBetterThan x y \<or> IsBetterThan y x \<or> pl_CreationTime x = pl_CreationTime y \<and> pl_UID x = pl_UID y"
  using str_less_linear [of "pl_UID x" "pl_UID y"] by (auto simp: IsBetterThan_def)

text \<open>The negation of a strict weak order composes.\<close>

lemma not_better_trans: "\<not> IsBetterThan x y \<Longrightarrow> \<not> IsBetterThan y z \<Longrightarrow> \<not> IsBetterThan x z"
  using IsBetterThan_total [of x y] IsBetterThan_total [of y z] IsBetterThan_trans [of x z y]
  by (auto simp: IsBetterThan_def split: if_splits dest: str_less_asym str_less_trans)

definition better_of :: "ParsedLock \<Rightarrow> ParsedLock \<Rightarrow> ParsedLock" where
  "better_of ans elt = (if IsBetterThan elt ans then elt else ans)"

lemma Best_better_of: "Best (a # xs) = foldl better_of a xs"
  by (simp add: Best_def better_of_def [abs_def])

lemma better_of_max: "\<not> IsBetterThan x (better_of a x)" "\<not> IsBetterThan a (better_of a x)"
  using IsBetterThan_trans [of a x a] by (auto simp: better_of_def)

lemma best_fold_mem: "foldl better_of a xs \<in> insert a (set xs)"
proof (induction xs arbitrary: a)
  case (Cons x xs)
  then show ?case using Cons [of "better_of a x"] by (auto simp: better_of_def split: if_splits)
qed simp

lemma best_fold_max: "x \<in> insert a (set xs) \<Longrightarrow> \<not> IsBetterThan x (foldl better_of a xs)"
proof (induction xs arbitrary: a x)
  case (Cons y xs)
  have "\<not> IsBetterThan (better_of a y) (foldl better_of (better_of a y) xs)" using Cons.IH by simp
  then have "\<not> IsBetterThan a (foldl better_of (better_of a y) xs)"
    "\<not> IsBetterThan y (foldl better_of (better_of a y) xs)"
    using not_better_trans better_of_max by blast+
  then show ?case using Cons by auto
qed simp

lemma Best_mem: "ls \<noteq> [] \<Longrightarrow> Best ls \<in> set ls"
  using best_fold_mem [of "hd ls" "tl ls"] by (cases ls) (auto simp: Best_better_of)

lemma Best_max: "x \<in> set ls \<Longrightarrow> \<not> IsBetterThan x (Best ls)"
  using best_fold_max [of x "hd ls" "tl ls"] by (cases ls) (auto simp: Best_better_of)

lemma Best_determined:
  assumes "set ls = set ls'" "ls \<noteq> []"
    and "\<And>x y. x \<in> set ls \<Longrightarrow> y \<in> set ls \<Longrightarrow> pl_UID x = pl_UID y \<Longrightarrow> x = y"
  shows "Best ls = Best ls'"
proof -
  have ls': "ls' \<noteq> []" using assms(1,2) by auto
  have mem: "Best ls \<in> set ls" "Best ls' \<in> set ls"
    using Best_mem [OF assms(2)] Best_mem [OF ls'] assms(1) by simp_all
  then have "\<not> IsBetterThan (Best ls) (Best ls')" "\<not> IsBetterThan (Best ls') (Best ls)"
    using Best_max [of "Best ls" ls'] Best_max [of "Best ls'" ls] assms(1) by simp_all
  then show ?thesis using IsBetterThan_total [of "Best ls" "Best ls'"] assms(3) [OF mem] by blast
qed

section \<open>Lists of locks as sets\<close>

lemma pl_Equal_refl [simp]: "pl_Equal x x"
  by (simp add: pl_Equal_def)

lemma pl_Equal_sym: "pl_Equal x y \<Longrightarrow> pl_Equal y x"
  by (simp add: pl_Equal_def)

lemma RemFunc_rem_loop: "RemFunc ls elt = rem_loop elt ls"
  using pl_Equal_sym by (auto simp: RemFunc_def split: list.split)

lemma rem_loop_set:
  "set (fst (rem_loop elt ls)) \<subseteq> set ls"
  "x \<in> set ls \<Longrightarrow> \<not> pl_Equal x elt \<Longrightarrow> x \<in> set (fst (rem_loop elt ls))"
  by (induction ls) auto

lemma RemFunc_kept: "x \<in> set ls \<Longrightarrow> \<not> pl_Equal x elt \<Longrightarrow> x \<in> set (fst (RemFunc ls elt))"
  "set (fst (RemFunc ls elt)) \<subseteq> set ls"
  unfolding RemFunc_rem_loop using rem_loop_set by auto

lemma RemFunc_gone:
  assumes "\<And>x y. x \<in> set ls \<Longrightarrow> y \<in> set ls \<Longrightarrow> pl_Equal x y \<Longrightarrow> x = y" "distinct ls" "elt \<in> set ls"
  shows "set (fst (RemFunc ls elt)) = set ls - {elt}"
  using assms unfolding RemFunc_rem_loop
proof (induction ls)
  case (Cons x xs)
  then show ?case by (cases "pl_Equal x elt") (auto simp: pl_Equal_refl)
qed simp

lemma AddFunc_set: "set (fst (AddFunc ls elt)) \<subseteq> insert elt (set ls)" "set ls \<subseteq> set (fst (AddFunc ls elt))"
  "\<exists>x\<in>set (fst (AddFunc ls elt)). pl_Equal x elt"
  by (auto simp: AddFunc_def)

lemma AddListFunc_set:
  "set (fst (AddListFunc ls ls2)) \<subseteq> set ls \<union> set ls2" "set ls \<subseteq> set (fst (AddListFunc ls ls2))"
proof (induction ls ls2 rule: AddListFunc.induct)
  case (2 wth elt rest)
  {
    case 1
    show ?case using 2(1) [OF refl prod.collapse] AddFunc_set(1) [of wth elt]
      by (fastforce simp: Let_def case_prod_unfold)
  next
    case 2
    show ?case using "2.IH"(2) [OF refl prod.collapse] AddFunc_set(2) [of wth elt]
      by (fastforce simp: Let_def case_prod_unfold)
  }
qed simp_all

end
