(* ===== verification/Kube_Client.thy ===== *)
theory Kube_Client
  imports Net_API
begin

text \<open>
  What the controllers share of the Kubernetes client library: the errors of API calls, the
  operations on a work queue, the objects that notification handlers get
  (\<open>pkg/controllers/utils/utils.go\<close>), and field selectors with the fields of a network attachment
  (\<open>pkg/registry/network/networkattachment/strategy.go\<close>).
\<close>

section \<open>Errors, queues, notifications\<close>

datatype api_reason =
    ReasonNotFound | ReasonAlreadyExists | ReasonGone | ReasonInvalid | ReasonOther

record api_error =
  ae_reason :: api_reason
  ae_text :: string

datatype queue_op =
    QAdd NamespacedName | QForget NamespacedName | QAddRateLimited NamespacedName | QDone NamespacedName

text \<open>An informer hands the last known object, or a tombstone that wraps it.\<close>

datatype 'a notified = Live 'a | DeletedFinalStateUnknown 'a

definition Peel :: "'a notified \<Rightarrow> 'a" where
  "Peel obj = (case obj of Live x \<Rightarrow> x | DeletedFinalStateUnknown x \<Rightarrow> x)"

definition nsn :: "string \<Rightarrow> string \<Rightarrow> NamespacedName" where
  "nsn ns name = \<lparr>nsn_Namespace = ns, nsn_Name = name\<rparr>"

section \<open>Field selectors\<close>

datatype selector =
    OneTermEqualSelector string string
  | OneTermNotEqualSelector string string
  | AndSelectors "selector list"

text \<open>A field that an object does not have reads as the empty string.\<close>

fun sel_Matches :: "(string \<Rightarrow> string) \<Rightarrow> selector \<Rightarrow> bool" where
  "sel_Matches flds (OneTermEqualSelector k v) \<longleftrightarrow> flds k = v"
| "sel_Matches flds (OneTermNotEqualSelector k v) \<longleftrightarrow> flds k \<noteq> v"
| "sel_Matches flds (AndSelectors sels) \<longleftrightarrow> list_all (sel_Matches flds) sels"

definition SelectableFields :: "NetworkAttachment \<Rightarrow> (string \<times> string) list" where
  "SelectableFields obj =
     [(''spec.node'', Node (att_Spec obj)),
      (''spec.subnet'', Subnet_name (att_Spec obj)),
      (''status.ipv4'', Status_IPv4 (att_Status obj)),
      (''status.hostIP'', HostIP (att_Status obj)),
      (''status.addressVNI'', format_uint 10 (unat (AddressVNI (att_Status obj)))),
      (''metadata.name'', meta_Name (att_meta obj)),
      (''metadata.namespace'', meta_Namespace (att_meta obj))]"

definition fields_Get :: "(string \<times> string) list \<Rightarrow> string \<Rightarrow> string" where
  "fields_Get fs k = (case map_of fs k of None \<Rightarrow> [] | Some v \<Rightarrow> v)"

definition MatchNetworkAttachment :: "selector \<Rightarrow> NetworkAttachment \<Rightarrow> bool" where
  "MatchNetworkAttachment sel att = sel_Matches (fields_Get (SelectableFields att)) sel"

text \<open>The labels that the API server accepts in a field selector for network attachments.\<close>

definition convertNetworkAttachmentFields :: "string \<Rightarrow> string \<Rightarrow> (string, string \<times> string) result" where
  "convertNetworkAttachmentFields label value =
     (if label \<in> {''metadata.name'', ''metadata.namespace'', ''spec.node'', ''spec.subnet'', ''status.ipv4'',
         ''status.hostIP'', ''status.addressVNI''}
      then Inr (label, value)
      else Inl (''NetworkAttachment does not have field with label '' @ label))"

fun sel_labels :: "selector \<Rightarrow> string list" where
  "sel_labels (OneTermEqualSelector k v) = [k]"
| "sel_labels (OneTermNotEqualSelector k v) = [k]"
| "sel_labels (AndSelectors sels) = concat (map sel_labels sels)"

end
