(* ===== verification/IPAM.thy ===== *)
theory IPAM
  imports IPAM_Locks Kube_Client Uint32_Interface
begin

text \<open>
  The IPAM controller, \<open>pkg/controllers/ipam/ipam.go\<close>: its address cache, the notification
  handlers, and the processing of one network attachment, call by call. The API server is a
  state \<open>world\<close> and a record of client operations; the informers are a record of lister and
  indexer functions; the sorted set library and the random numbers are those of \<open>Uint32_Sorted\<close>.
  Metrics and log messages are left out. A data record of an attachment is reached through the
  map \<open>atts\<close>, which is how the pointer to it is shared.
\<close>

section \<open>State and environment\<close>

record 'w ipam_api =
  lock_Get :: "'w \<Rightarrow> string \<Rightarrow> string \<Rightarrow> (api_error, IPLock) result \<times> 'w"
  lock_Create :: "'w \<Rightarrow> string \<Rightarrow> IPLock \<Rightarrow> (api_error, IPLock) result \<times> 'w"
  lock_Delete :: "'w \<Rightarrow> string \<Rightarrow> string \<Rightarrow> string \<Rightarrow> api_error option \<times> 'w"
  att_Update :: "'w \<Rightarrow> string \<Rightarrow> NetworkAttachment \<Rightarrow> (api_error, NetworkAttachment) result \<times> 'w"

record ipam_listers =
  att_Lister :: "string \<Rightarrow> string \<Rightarrow> (api_error, NetworkAttachment) result"
  subnet_Lister :: "string \<Rightarrow> string \<Rightarrow> (api_error, Subnet) result"
  lock_ByOwner :: "string \<Rightarrow> (string, IPLock list) result"
  att_BySubnet :: "string \<Rightarrow> (string, NetworkAttachment list) result"

record ('w, 'ss) ipam_env =
  env_ss :: "'ss sorted_set_ops"
  env_intn :: "int \<Rightarrow> int"
  env_int63n :: "int \<Rightarrow> int"
  env_api :: "'w ipam_api"
  env_listers :: ipam_listers

record NetworkAttachmentData =
  anticipatedIPv4 :: IP
  anticipatingResourceVersion :: string
  anticipatedResourceVersion :: string
  anticipationSubnetRV :: string

definition zeroAttData :: NetworkAttachmentData where
  "zeroAttData = \<lparr>anticipatedIPv4 = [], anticipatingResourceVersion = [],
     anticipatedResourceVersion = [], anticipationSubnetRV = []\<rparr>"

record ('w, 'ss) IPAMController =
  atts :: "NamespacedName \<rightharpoonup> NetworkAttachmentData"
  addrCache :: "uint32 \<rightharpoonup> 'ss sorted_uint32_set"
  world :: 'w

datatype ipam_panic = AddressIndex | AddressSet uis_panic | NoAttData | NotThatObject

definition NewIPAMController :: "'w \<Rightarrow> ('w, 'ss) IPAMController" where
  "NewIPAMController w = \<lparr>atts = Map.empty, addrCache = Map.empty, world = w\<rparr>"

section \<open>The address cache\<close>

definition cached_set :: "('w, 'ss) ipam_env \<Rightarrow> ('w, 'ss) IPAMController \<Rightarrow> uint32 \<Rightarrow> 'ss sorted_uint32_set" where
  "cached_set env st vni =
     (case addrCache st vni of
        None \<Rightarrow> NewSortedUInt32Set (env_ss env) 1
      | Some addrs \<Rightarrow> addrs)"

definition TakeAddress :: "('w, 'ss) ipam_env \<Rightarrow> ('w, 'ss) IPAMController \<Rightarrow> uint32 \<Rightarrow> uint32
    \<Rightarrow> (ipam_panic, bool \<times> ('w, 'ss) IPAMController) result" where
  "TakeAddress env st vni addrU =
     (case Add (env_ss env) (cached_set env st vni) addrU of
        Inl p \<Rightarrow> Inl (AddressSet p)
      | Inr (changed, addrs) \<Rightarrow> Inr (changed, st\<lparr>addrCache := (addrCache st)(vni \<mapsto> addrs)\<rparr>))"

definition PickAddress :: "('w, 'ss) ipam_env \<Rightarrow> ('w, 'ss) IPAMController \<Rightarrow> uint32 \<Rightarrow> uint32 \<Rightarrow> uint32
    \<Rightarrow> (ipam_panic, uint32 \<times> bool \<times> ('w, 'ss) IPAMController) result" where
  "PickAddress env st vni mn mx =
     (case AddOneInRange (env_ss env) (env_intn env) (env_int63n env) (cached_set env st vni) mn mx of
        Inl p \<Rightarrow> Inl (AddressSet p)
      | Inr (addrU, ok, addrs) \<Rightarrow> Inr (addrU, ok, st\<lparr>addrCache := (addrCache st)(vni \<mapsto> addrs)\<rparr>))"

definition ReleaseAddress :: "('w, 'ss) ipam_env \<Rightarrow> ('w, 'ss) IPAMController \<Rightarrow> uint32 \<Rightarrow> uint32
    \<Rightarrow> (ipam_panic, bool \<times> ('w, 'ss) IPAMController) result" where
  "ReleaseAddress env st vni addrU =
     (case addrCache st vni of
        None \<Rightarrow> Inr (False, st)
      | Some addrs \<Rightarrow>
          (case Remove (env_ss env) addrs addrU of
             Inl p \<Rightarrow> Inl (AddressSet p)
           | Inr (changed, addrs') \<Rightarrow>
               Inr (changed, st\<lparr>addrCache :=
                 (if IsEmpty (env_ss env) addrs' then (addrCache st)(vni := None)
                  else (addrCache st)(vni \<mapsto> addrs'))\<rparr>)))"

section \<open>Notifications\<close>

definition OnSubnetNotify :: "ipam_listers \<Rightarrow> Subnet \<Rightarrow> queue_op list" where
  "OnSubnetNotify ls subnet =
     (case att_BySubnet ls (meta_Name (sn_meta subnet)) of
        Inl _ \<Rightarrow> []
      | Inr subnetAttachments \<Rightarrow> map (\<lambda>att. QAdd (AttNSN att)) subnetAttachments)"

definition OnSubnetCreate :: "ipam_listers \<Rightarrow> Subnet \<Rightarrow> queue_op list" where
  "OnSubnetCreate ls subnet = OnSubnetNotify ls subnet"

definition OnSubnetUpdate :: "ipam_listers \<Rightarrow> Subnet \<Rightarrow> Subnet \<Rightarrow> queue_op list" where
  "OnSubnetUpdate ls old new = OnSubnetNotify ls new"

definition OnSubnetDelete :: "ipam_listers \<Rightarrow> Subnet notified \<Rightarrow> (ipam_panic, queue_op list) result" where
  "OnSubnetDelete ls obj =
     (case obj of Live subnet \<Rightarrow> Inr (OnSubnetNotify ls subnet) | _ \<Rightarrow> Inl NotThatObject)"

definition OnAttachmentCreate :: "NetworkAttachment \<Rightarrow> queue_op list" where
  "OnAttachmentCreate att = [QAdd (AttNSN att)]"

definition OnAttachmentUpdate :: "NetworkAttachment \<Rightarrow> NetworkAttachment \<Rightarrow> queue_op list" where
  "OnAttachmentUpdate oldAtt newAtt = [QAdd (AttNSN newAtt)]"

definition OnAttachmentDelete :: "NetworkAttachment notified \<Rightarrow> queue_op list" where
  "OnAttachmentDelete obj = [QAdd (AttNSN (Peel obj))]"

definition OnLockNotify :: "('w, 'ss) ipam_env \<Rightarrow> ('w, 'ss) IPAMController \<Rightarrow> IPLock \<Rightarrow> bool
    \<Rightarrow> (ipam_panic, queue_op list \<times> ('w, 'ss) IPAMController) result" where
  "OnLockNotify env st ipl exists =
     (case parseIPLockName (meta_Name (ipl_meta ipl)) of
        Inl _ \<Rightarrow> Inr ([], st)
      | Inr (vni, addrU) \<Rightarrow>
          (case (if exists then TakeAddress env st vni addrU else ReleaseAddress env st vni addrU) of
             Inl p \<Rightarrow> Inl p
           | Inr (changed, st') \<Rightarrow>
               Inr (map (\<lambda>owner. QAdd \<lparr>nsn_Namespace = meta_Namespace (ipl_meta ipl), nsn_Name = owner\<rparr>)
                      (OwningAttachments (ipl_meta ipl)), st')))"

definition OnLockCreate :: "('w, 'ss) ipam_env \<Rightarrow> ('w, 'ss) IPAMController \<Rightarrow> IPLock
    \<Rightarrow> (ipam_panic, queue_op list \<times> ('w, 'ss) IPAMController) result" where
  "OnLockCreate env st ipl = OnLockNotify env st ipl True"

definition OnLockUpdate :: "('w, 'ss) ipam_env \<Rightarrow> ('w, 'ss) IPAMController \<Rightarrow> IPLock \<Rightarrow> IPLock
    \<Rightarrow> (ipam_panic, queue_op list \<times> ('w, 'ss) IPAMController) result" where
  "OnLockUpdate env st old new = OnLockNotify env st new True"

definition OnLockDelete :: "('w, 'ss) ipam_env \<Rightarrow> ('w, 'ss) IPAMController \<Rightarrow> IPLock notified
    \<Rightarrow> (ipam_panic, queue_op list \<times> ('w, 'ss) IPAMController) result" where
  "OnLockDelete env st obj =
     (case obj of Live ipl \<Rightarrow> OnLockNotify env st ipl False | _ \<Rightarrow> Inl NotThatObject)"

section \<open>Data of attachments\<close>

definition getNetworkAttachmentData :: "('w, 'ss) IPAMController \<Rightarrow> string \<Rightarrow> string \<Rightarrow> bool
    \<Rightarrow> NetworkAttachmentData option \<times> ('w, 'ss) IPAMController" where
  "getNetworkAttachmentData st ns name addIfMissing =
     (case atts st (nsn ns name) of
        Some nadata \<Rightarrow> (Some nadata, st)
      | None \<Rightarrow>
          if \<not> addIfMissing then (None, st)
          else (Some zeroAttData, st\<lparr>atts := (atts st)(nsn ns name \<mapsto> zeroAttData)\<rparr>))"

definition clearNetworkAttachmentData :: "('w, 'ss) IPAMController \<Rightarrow> string \<Rightarrow> string
    \<Rightarrow> ('w, 'ss) IPAMController" where
  "clearNetworkAttachmentData st ns name = st\<lparr>atts := (atts st)(nsn ns name := None)\<rparr>"

section \<open>Analysis of the locks of an attachment\<close>

definition IPNetToBoundsU :: "IPNet \<Rightarrow> (go_panic, uint32 \<times> uint32) result" where
  "IPNetToBoundsU ipNet =
     (case IPv4ToUint32 (net_IP ipNet) of
        Inl p \<Rightarrow> Inl p
      | Inr mn \<Rightarrow>
          (let (ones, bits) = Mask_Size (net_Mask ipNet);
               delta = ucast (push_bit (bits - ones) (1 :: 64 word) - 1)
           in Inr (mn, mn + delta)))"

record lock_sets =
  timeSlippers :: "ParsedLock list"
  undesiredLocks :: "ParsedLock list"
  usableLocks :: "ParsedLock list"
  lockInStatus :: ParsedLock
  considered :: "uint32 set"

definition no_locks :: lock_sets where
  "no_locks = \<lparr>timeSlippers = [], undesiredLocks = [], usableLocks = [],
     lockInStatus = zeroParsedLock, considered = {}\<rparr>"

definition other_edition :: "NetworkAttachment option \<Rightarrow> IPLock \<Rightarrow> bool" where
  "other_edition att ipl =
     (case att of
        None \<Rightarrow> False
      | Some a \<Rightarrow> snd (GetOwner (ipl_meta ipl) ''NetworkAttachment'') \<noteq> meta_UID (att_meta a))"

definition is_in_status :: "NetworkAttachment option \<Rightarrow> ParsedLock \<Rightarrow> bool" where
  "is_in_status att parsed =
     (case att of
        None \<Rightarrow> False
      | Some a \<Rightarrow>
          pl_UID parsed = LockUID (att_Status a) \<and> Status_IPv4 (att_Status a) \<noteq> [] \<and>
          Status_IPv4 (att_Status a) = ip_String (GetIP parsed))"

definition consider_lock :: "NetworkAttachment option \<Rightarrow> uint32 \<Rightarrow> uint32 \<Rightarrow> uint32 \<Rightarrow> IPLock
    \<Rightarrow> lock_sets \<Rightarrow> lock_sets" where
  "consider_lock att desiredVNI desiredBaseU desiredLastU ipl ls =
     (case NewParsedLock ipl of
        Inl _ \<Rightarrow> ls
      | Inr parsed \<Rightarrow>
          (let ls1 = ls\<lparr>considered := insert (pl_addrU parsed) (considered ls)\<rparr> in
           if other_edition att ipl then ls1\<lparr>timeSlippers := pl_Append (timeSlippers ls1) [parsed]\<rparr>
           else if pl_VNI parsed \<noteq> desiredVNI \<or> pl_addrU parsed < desiredBaseU \<or> desiredLastU < pl_addrU parsed
           then ls1\<lparr>undesiredLocks := pl_Append (undesiredLocks ls1) [parsed]\<rparr>
           else
             (let ls2 = (if is_in_status att parsed then ls1\<lparr>lockInStatus := parsed\<rparr> else ls1)
              in ls2\<lparr>usableLocks := pl_Append (usableLocks ls2) [parsed]\<rparr>)))"

text \<open>The lock of the address in the status, fetched when no notification told of it yet.\<close>

definition consider_status :: "('w, 'ss) ipam_env \<Rightarrow> string \<Rightarrow> string \<Rightarrow> NetworkAttachment option \<Rightarrow> uint32
    \<Rightarrow> uint32 \<Rightarrow> uint32 \<Rightarrow> lock_sets \<Rightarrow> ('w, 'ss) IPAMController
    \<Rightarrow> (ipam_panic, lock_sets \<times> ('w, 'ss) IPAMController) result" where
  "consider_status env ns name att vni base lastU0 ls st =
     (case att of
        None \<Rightarrow> Inr (ls, st)
      | Some a \<Rightarrow>
          (let statusIP = ParseIP (Status_IPv4 (att_Status a)) in
           if Status_IPv4 (att_Status a) = [] \<or> statusIP = [] then Inr (ls, st)
           else
             (case IPv4ToUint32 statusIP of
                Inl _ \<Rightarrow> Inl AddressIndex
              | Inr statusIPU \<Rightarrow>
                  if statusIPU \<in> considered ls then Inr (ls, st)
                  else
                    (case makeIPLockName2 vni statusIP of
                       Inl _ \<Rightarrow> Inl AddressIndex
                     | Inr antName \<Rightarrow>
                         (case lock_Get (env_api env) (world st) ns antName of
                            (Inl _, w) \<Rightarrow> Inr (ls, st\<lparr>world := w\<rparr>)
                          | (Inr ipl, w) \<Rightarrow>
                              Inr (if fst (GetOwner (ipl_meta ipl) ''NetworkAttachment'') = name
                                   then consider_lock att vni base lastU0 ipl ls else ls,
                                   st\<lparr>world := w\<rparr>))))))"

definition stale_anticipation :: "NetworkAttachment option \<Rightarrow> string \<Rightarrow> NetworkAttachmentData \<Rightarrow> bool" where
  "stale_anticipation att subnetRV nadat =
     (case att of
        None \<Rightarrow> True
      | Some a \<Rightarrow>
          anticipatingResourceVersion nadat \<noteq> meta_ResourceVersion (att_meta a) \<and>
          anticipatedResourceVersion nadat \<noteq> meta_ResourceVersion (att_meta a) \<or>
          anticipationSubnetRV nadat \<noteq> subnetRV)"

definition reset_anticipation :: "string \<Rightarrow> string \<Rightarrow> NetworkAttachment option \<Rightarrow> string
    \<Rightarrow> ('w, 'ss) IPAMController \<Rightarrow> ('w, 'ss) IPAMController" where
  "reset_anticipation ns name att subnetRV st =
     (case atts st (nsn ns name) of
        None \<Rightarrow> st
      | Some nadat \<Rightarrow>
          if stale_anticipation att subnetRV nadat
          then st\<lparr>atts := (atts st)(nsn ns name \<mapsto> zeroAttData)\<rparr> else st)"

definition choose_locks :: "NetworkAttachment option \<Rightarrow> lock_sets \<Rightarrow> ParsedLock \<times> ParsedLock list" where
  "choose_locks att ls =
     (if att = None then (zeroParsedLock, usableLocks ls)
      else if pl_Obj (lockInStatus ls) \<noteq> None
      then (zeroParsedLock, fst (RemFunc (usableLocks ls) (lockInStatus ls)))
      else if usableLocks ls \<noteq> [] then
        (let best = Best (usableLocks ls) in (best, fst (RemFunc (usableLocks ls) best)))
      else (zeroParsedLock, []))"

definition deleteIPLockObject :: "('w, 'ss) ipam_env \<Rightarrow> 'w \<Rightarrow> ParsedLock \<Rightarrow> string option \<times> 'w" where
  "deleteIPLockObject env w parsed =
     (case lock_Delete (env_api env) w (pl_ns parsed) (pl_name parsed) (pl_UID parsed) of
        (None, w') \<Rightarrow> (None, w')
      | (Some err, w') \<Rightarrow>
          if ae_reason err = ReasonNotFound \<or> ae_reason err = ReasonGone then (None, w')
          else (Some (ae_text err), w'))"

fun delete_loop :: "('w, 'ss) ipam_env \<Rightarrow> 'w \<Rightarrow> ParsedLock list \<Rightarrow> string option \<times> 'w" where
  "delete_loop env w [] = (None, w)"
| "delete_loop env w (l # ls) =
     (case deleteIPLockObject env w l of
        (Some err, w') \<Rightarrow> (Some err, w')
      | (None, w') \<Rightarrow> delete_loop env w' ls)"

record analysis =
  an_subnetName :: string
  an_subnetRV :: string
  an_VNI :: uint32
  an_baseU :: uint32
  an_lastU :: uint32
  an_lockInStatus :: ParsedLock
  an_lockForStatus :: ParsedLock
  an_statusErrs :: "string list"
  an_err :: "string option"
  an_ok :: bool

definition analysis0 :: "string \<Rightarrow> string \<Rightarrow> uint32 \<Rightarrow> uint32 \<Rightarrow> uint32 \<Rightarrow> analysis" where
  "analysis0 subnetName subnetRV vni base lastU0 =
     \<lparr>an_subnetName = subnetName, an_subnetRV = subnetRV, an_VNI = vni, an_baseU = base,
      an_lastU = lastU0, an_lockInStatus = zeroParsedLock, an_lockForStatus = zeroParsedLock,
      an_statusErrs = [], an_err = None, an_ok = False\<rparr>"

text \<open>The part of \<open>analyzeAndRelease\<close> after the subnet is known.\<close>

definition analyze_locks :: "('w, 'ss) ipam_env \<Rightarrow> string \<Rightarrow> string \<Rightarrow> NetworkAttachment option
    \<Rightarrow> string \<Rightarrow> string \<Rightarrow> uint32 \<Rightarrow> uint32 \<Rightarrow> uint32 \<Rightarrow> ('w, 'ss) IPAMController
    \<Rightarrow> (ipam_panic, analysis \<times> ('w, 'ss) IPAMController) result" where
  "analyze_locks env ns name att subnetName subnetRV vni base lastU0 st =
     (let an = analysis0 subnetName subnetRV vni base lastU0 in
      case lock_ByOwner (env_listers env) name of
        Inl _ \<Rightarrow> Inr (an, st)
      | Inr ownedObjs \<Rightarrow>
          (case consider_status env ns name att vni base lastU0
                  (fold (consider_lock att vni base lastU0) ownedObjs no_locks) st of
             Inl p \<Rightarrow> Inl p
           | Inr (ls, st1) \<Rightarrow>
               (let st2 = reset_anticipation ns name att subnetRV st1;
                    (lockForStatus, usableToRelease) = choose_locks att ls;
                    locksToRelease = fst (AddListFunc (undesiredLocks ls) usableToRelease);
                    an1 = an\<lparr>an_lockInStatus := lockInStatus ls, an_lockForStatus := lockForStatus\<rparr>
                in case delete_loop env (world st2) locksToRelease of
                     (Some err, w) \<Rightarrow> Inr (an1\<lparr>an_err := Some err\<rparr>, st2\<lparr>world := w\<rparr>)
                   | (None, w) \<Rightarrow> Inr (an1\<lparr>an_ok := True\<rparr>, st2\<lparr>world := w\<rparr>))))"

definition analyzeAndRelease :: "('w, 'ss) ipam_env \<Rightarrow> string \<Rightarrow> string \<Rightarrow> NetworkAttachment option
    \<Rightarrow> ('w, 'ss) IPAMController \<Rightarrow> (ipam_panic, analysis \<times> ('w, 'ss) IPAMController) result" where
  "analyzeAndRelease env ns name att st =
     (case att of
        None \<Rightarrow> analyze_locks env ns name None [] ''.'' 0 0 0 st
      | Some a \<Rightarrow>
          (let subnetName = Subnet_name (att_Spec a) in
           case subnet_Lister (env_listers env) ns subnetName of
             Inl e \<Rightarrow>
               if ae_reason e \<noteq> ReasonNotFound then Inr (analysis0 subnetName ''.'' 0 0 0, st)
               else Inr ((analysis0 subnetName ''.'' 0 0 0)\<lparr>an_ok := True,
                      an_statusErrs := [''Subnet '' @ subnetName @ '' does not exist'']\<rparr>, st)
           | Inr subnet \<Rightarrow>
               (let vni = sn_VNI (sn_Spec subnet); rv = meta_ResourceVersion (sn_meta subnet) in
                case ParseCIDR (sn_IPv4 (sn_Spec subnet)) of
                  Inl _ \<Rightarrow> Inr ((analysis0 subnetName rv vni 0 0)\<lparr>an_ok := True,
                      an_statusErrs := [''Subnet '' @ subnetName @ '' has malformed IPv4 CIDR block ('' @
                        sn_IPv4 (sn_Spec subnet) @ '')'']\<rparr>, st)
                | Inr (_, ipNet) \<Rightarrow>
                    (case IPNetToBoundsU ipNet of
                       Inl _ \<Rightarrow> Inl AddressIndex
                     | Inr (base, lastU0) \<Rightarrow> analyze_locks env ns name att subnetName rv vni base lastU0 st))))"

section \<open>Choosing and locking an address\<close>

datatype lock_outcome = Locked IPLock | Refused string | CreateFailed api_error

fun create_loop :: "nat \<Rightarrow> 'w ipam_api \<Rightarrow> string \<Rightarrow> string \<Rightarrow> string \<Rightarrow> string \<Rightarrow> IPLock \<Rightarrow> 'w
    \<Rightarrow> (lock_outcome \<times> 'w) option" where
  "create_loop 0 api ns name attUID lockName ipl w = None"
| "create_loop (Suc fuel) api ns name attUID lockName ipl w =
     (case lock_Create api w ns ipl of
        (Inr ipl2, w1) \<Rightarrow> Some (Locked ipl2, w1)
      | (Inl err, w1) \<Rightarrow>
          if ae_reason err = ReasonAlreadyExists then
            (case lock_Get api w1 ns lockName of
               (Inr ipl2, w2) \<Rightarrow>
                 if GetOwner (ipl_meta ipl2) ''NetworkAttachment'' = (name, attUID)
                 then Some (Locked ipl2, w2)
                 else Some (Refused (''cache incoherence at '' @ lockName), w2)
             | (Inl err2, w2) \<Rightarrow>
                 if ae_reason err2 = ReasonNotFound
                 then create_loop fuel api ns name attUID lockName ipl w2
                 else Some (Refused (''Failed to fetch allegedly existing IPLock '' @ lockName @ '' for '' @
                              ns @ ''/'' @ name @ '': '' @ ae_text err2 @ [char_of (10 :: nat)]), w2))
          else Some (CreateFailed err, w1))"

definition address_range :: "uint32 \<Rightarrow> uint32 \<Rightarrow> uint32 \<times> uint32" where
  "address_range base lastU0 = (if 4 \<le> lastU0 - base then (base + 2, lastU0 - 1) else (base, lastU0))"

definition new_lock :: "string \<Rightarrow> string \<Rightarrow> string \<Rightarrow> string \<Rightarrow> string \<Rightarrow> IPLock" where
  "new_lock ns lockName name attUID subnetName =
     \<lparr>ipl_meta = \<lparr>meta_Name = lockName, meta_Namespace = ns, meta_UID = [], meta_ResourceVersion = [],
        meta_CreationTimestamp = 0,
        meta_OwnerReferences = [\<lparr>or_APIVersion = ''network.example.com/v1alpha1'',
          or_Kind = ''NetworkAttachment'', or_Name = name, or_UID = attUID, or_Controller = Some True\<rparr>]\<rparr>,
      SubnetName = subnetName\<rparr>"

definition permanent_error :: "api_error \<Rightarrow> bool" where
  "permanent_error err \<longleftrightarrow> ae_reason err = ReasonInvalid \<or> contains (ToLower (ae_text err)) ''invalid''"

record locked_address =
  la_lock :: ParsedLock
  la_ip :: IP
  la_err :: "string option"

definition pickAndLockAddress :: "nat \<Rightarrow> ('w, 'ss) ipam_env \<Rightarrow> string \<Rightarrow> string \<Rightarrow> NetworkAttachment
    \<Rightarrow> string \<Rightarrow> uint32 \<Rightarrow> uint32 \<Rightarrow> uint32 \<Rightarrow> ('w, 'ss) IPAMController
    \<Rightarrow> (ipam_panic, locked_address \<times> ('w, 'ss) IPAMController) result option" where
  "pickAndLockAddress fuel env ns name att subnetName vni base lastU0 st =
     (let (addrMin, addrMax) = address_range base lastU0 in
      case PickAddress env st vni addrMin addrMax of
        Inl p \<Rightarrow> Some (Inl p)
      | Inr (_, False, st1) \<Rightarrow>
          Some (Inr (\<lparr>la_lock = zeroParsedLock, la_ip = [], la_err = Some
            (''No IP address available in '' @ sprintf_x vni @ ''/'' @ sprintf_x base @ ''--'' @
             sprintf_x lastU0 @ '' for '' @ ns @ ''/'' @ name)\<rparr>, st1))
      | Inr (u, True, st1) \<Rightarrow>
          (let ip = Uint32ToIPv4 u; attUID = meta_UID (att_meta att) in
           case makeIPLockName2 vni ip of
             Inl _ \<Rightarrow> Some (Inl AddressIndex)
           | Inr lockName \<Rightarrow>
               (let lock0 = \<lparr>pl_ns = ns, pl_name = lockName, pl_VNI = vni, pl_addrU = u, pl_UID = [],
                      pl_CreationTime = 0, pl_Obj = None\<rparr>
                in case create_loop fuel (env_api env) ns name attUID lockName
                          (new_lock ns lockName name attUID subnetName) (world st1) of
                     None \<Rightarrow> None
                   | Some (Locked ipl2, w) \<Rightarrow>
                       Some (Inr (\<lparr>la_lock = lock0\<lparr>pl_UID := meta_UID (ipl_meta ipl2),
                           pl_CreationTime := meta_CreationTimestamp (ipl_meta ipl2), pl_Obj := Some ipl2\<rparr>,
                         la_ip = ip, la_err = None\<rparr>, st1\<lparr>world := w\<rparr>))
                   | Some (Refused err, w) \<Rightarrow>
                       Some (Inr (\<lparr>la_lock = lock0, la_ip = ip, la_err = Some err\<rparr>, st1\<lparr>world := w\<rparr>))
                   | Some (CreateFailed err, w) \<Rightarrow>
                       (case ReleaseAddress env (st1\<lparr>world := w\<rparr>) vni u of
                          Inl p \<Rightarrow> Some (Inl p)
                        | Inr (_, st2) \<Rightarrow>
                            Some (Inr (\<lparr>la_lock = lock0, la_ip = ip, la_err =
                              (if permanent_error err then None
                               else Some (''Create of IPLock '' @ lockName @ '' for '' @ ns @ ''/'' @ name @
                                      '' failed: '' @ ae_text err))\<rparr>, st2))))))"

section \<open>Processing an attachment\<close>

definition status_update :: "NetworkAttachment \<Rightarrow> string list \<Rightarrow> ParsedLock \<Rightarrow> IP \<Rightarrow> NetworkAttachment" where
  "status_update att statusErrs lockForStatus ipForStatus =
     att\<lparr>att_Status := (att_Status att)\<lparr>
       Errors := (Errors (att_Status att))\<lparr>IPAM_errs := statusErrs\<rparr>,
       LockUID := pl_UID lockForStatus,
       AddressVNI := pl_VNI lockForStatus,
       Status_IPv4 := (if ipForStatus = [] then [] else ip_String ipForStatus)\<rparr>\<rparr>"

definition updateNAStatus :: "('w, 'ss) ipam_env \<Rightarrow> string \<Rightarrow> string \<Rightarrow> NetworkAttachment \<Rightarrow> string list
    \<Rightarrow> string \<Rightarrow> ParsedLock \<Rightarrow> IP \<Rightarrow> ('w, 'ss) IPAMController
    \<Rightarrow> (ipam_panic, string option \<times> ('w, 'ss) IPAMController) result" where
  "updateNAStatus env ns name att statusErrs subnetRV lockForStatus ipForStatus st =
     (case att_Update (env_api env) (world st) ns (status_update att statusErrs lockForStatus ipForStatus) of
        (Inr att3, w) \<Rightarrow>
          (let st1 = st\<lparr>world := w\<rparr> in
           if statusErrs \<noteq> [] then Inr (None, st1)
           else
             (case atts st (nsn ns name) of
                None \<Rightarrow> Inl NoAttData
              | Some _ \<Rightarrow>
                  Inr (None, st1\<lparr>atts := (atts st1)(nsn ns name \<mapsto>
                    \<lparr>anticipatedIPv4 = ipForStatus,
                     anticipatingResourceVersion = meta_ResourceVersion (att_meta att),
                     anticipatedResourceVersion = meta_ResourceVersion (att_meta att3),
                     anticipationSubnetRV = subnetRV\<rparr>)\<rparr>)))
      | (Inl err, w) \<Rightarrow>
          if ae_reason err = ReasonNotFound then Inr (None, st\<lparr>world := w\<rparr>)
          else Inr (Some (''Failed to update status of NetworkAttachment '' @ ns @ ''/'' @ name @
                      '' to record address '' @ ip_String ipForStatus @ '': '' @ ae_text err),
                    st\<lparr>world := w\<rparr>))"

text \<open>The part of \<open>processNetworkAttachment\<close> after the analysis, for an attachment that exists.\<close>

definition assign_address :: "nat \<Rightarrow> ('w, 'ss) ipam_env \<Rightarrow> string \<Rightarrow> string \<Rightarrow> NetworkAttachment \<Rightarrow> analysis
    \<Rightarrow> ('w, 'ss) IPAMController \<Rightarrow> (ipam_panic, string option \<times> ('w, 'ss) IPAMController) result option" where
  "assign_address fuel env ns name att an st =
     (if pl_Obj (an_lockInStatus an) \<noteq> None then Some (Inr (None, st))
      else if an_statusErrs an \<noteq> [] then
        Some (updateNAStatus env ns name att (an_statusErrs an) (an_subnetRV an) (an_lockForStatus an) [] st)
      else
        (case atts st (nsn ns name) of
           None \<Rightarrow> Some (Inl NoAttData)
         | Some nadat \<Rightarrow>
             if pl_Obj (an_lockForStatus an) \<noteq> None then
               (let ip = GetIP (an_lockForStatus an) in
                if ip_Equal ip (anticipatedIPv4 nadat) then Some (Inr (None, st))
                else Some (updateNAStatus env ns name att [] (an_subnetRV an) (an_lockForStatus an) ip st))
             else if anticipatedIPv4 nadat \<noteq> [] then Some (Inr (None, st))
             else
               (case pickAndLockAddress fuel env ns name att (an_subnetName an) (an_VNI an) (an_baseU an)
                       (an_lastU an) st of
                  None \<Rightarrow> None
                | Some (Inl p) \<Rightarrow> Some (Inl p)
                | Some (Inr (la, st1)) \<Rightarrow>
                    (case la_err la of
                       Some err \<Rightarrow> Some (Inr (Some err, st1))
                     | None \<Rightarrow>
                         Some (updateNAStatus env ns name att [] (an_subnetRV an) (la_lock la) (la_ip la) st1)))))"

definition process_found :: "nat \<Rightarrow> ('w, 'ss) ipam_env \<Rightarrow> string \<Rightarrow> string \<Rightarrow> NetworkAttachment option
    \<Rightarrow> ('w, 'ss) IPAMController \<Rightarrow> (ipam_panic, string option \<times> ('w, 'ss) IPAMController) result option" where
  "process_found fuel env ns name att st =
     (let (nadat, st1) = getNetworkAttachmentData st ns name (att \<noteq> None) in
      case analyzeAndRelease env ns name att st1 of
        Inl p \<Rightarrow> Some (Inl p)
      | Inr (an, st2) \<Rightarrow>
          if an_err an \<noteq> None \<or> \<not> an_ok an then Some (Inr (an_err an, st2))
          else
            (case att of
               None \<Rightarrow>
                 Some (Inr (None, if nadat \<noteq> None then clearNetworkAttachmentData st2 ns name else st2))
             | Some a \<Rightarrow> assign_address fuel env ns name a an st2))"

definition processNetworkAttachment :: "nat \<Rightarrow> ('w, 'ss) ipam_env \<Rightarrow> string \<Rightarrow> string
    \<Rightarrow> ('w, 'ss) IPAMController \<Rightarrow> (ipam_panic, string option \<times> ('w, 'ss) IPAMController) result option" where
  "processNetworkAttachment fuel env ns name st =
     (case att_Lister (env_listers env) ns name of
        Inl e \<Rightarrow>
          if ae_reason e \<noteq> ReasonNotFound then Some (Inr (None, st))
          else process_found fuel env ns name None st
      | Inr a \<Rightarrow> process_found fuel env ns name (Some a) st)"

definition processQueueItem :: "nat \<Rightarrow> ('w, 'ss) ipam_env \<Rightarrow> NamespacedName \<Rightarrow> ('w, 'ss) IPAMController
    \<Rightarrow> (ipam_panic, queue_op list \<times> ('w, 'ss) IPAMController) result option" where
  "processQueueItem fuel env n st =
     map_option (map_sum id (\<lambda>(err, st').
         (if err = None then [QForget n, QDone n] else [QAddRateLimited n, QDone n], st')))
       (processNetworkAttachment fuel env (nsn_Namespace n) (nsn_Name n) st)"

end
