(* ===== verification/IPAM_Correct.thy ===== *)
theory IPAM_Correct
  imports IPAM
begin

text \<open>
  Correctness of the IPAM controller: the address cache as a map from a VNI to the set of taken
  addresses, with the effect of every operation on it; the contract of the API server as a
  locale; what holds of an address that was picked and locked; which locks the analysis
  releases and which one it keeps.
\<close>

section \<open>The address cache\<close>

definition env_ok :: "('ss \<Rightarrow> ss_node list) \<Rightarrow> ('ss \<Rightarrow> bool) \<Rightarrow> ('w, 'ss) ipam_env \<Rightarrow> bool" where
  "env_ok nodes invar env \<longleftrightarrow> random_sorted_set (env_ss env) nodes invar (env_intn env) (env_int63n env)"

definition cache_ok :: "('ss \<Rightarrow> ss_node list) \<Rightarrow> ('ss \<Rightarrow> bool) \<Rightarrow> ('w, 'ss) IPAMController \<Rightarrow> bool" where
  "cache_ok nodes invar st \<longleftrightarrow> (\<forall>vni addrs. addrCache st vni = Some addrs \<longrightarrow> uis_ok nodes invar addrs)"

definition taken :: "('ss \<Rightarrow> ss_node list) \<Rightarrow> ('w, 'ss) IPAMController \<Rightarrow> uint32 \<Rightarrow> uint32 set" where
  "taken nodes st vni =
     (case addrCache st vni of None \<Rightarrow> {} | Some addrs \<Rightarrow> runs_set (uis_runs nodes addrs))"

lemma cache_ok_New [simp]: "cache_ok nodes invar (NewIPAMController w)"
  by (simp add: cache_ok_def NewIPAMController_def)

lemma cache_ok_update [simp]:
  "cache_ok nodes invar (st\<lparr>world := w\<rparr>) = cache_ok nodes invar st"
  "cache_ok nodes invar (st\<lparr>atts := a\<rparr>) = cache_ok nodes invar st"
  by (simp_all add: cache_ok_def)

lemma taken_update [simp]:
  "taken nodes (st\<lparr>world := w\<rparr>) = taken nodes st"
  "taken nodes (st\<lparr>atts := a\<rparr>) = taken nodes st"
  by (simp_all add: taken_def fun_eq_iff)

lemma env_ok_sorted: "env_ok nodes invar env \<Longrightarrow> sorted_set (env_ss env) nodes invar"
  by (simp add: env_ok_def random_sorted_set.axioms(1))

lemma cached_set_ok:
  assumes "env_ok nodes invar env" "cache_ok nodes invar st"
  shows "uis_ok nodes invar (cached_set env st vni)"
    "runs_set (uis_runs nodes (cached_set env st vni)) = taken nodes st vni"
proof -
  note new = uis_okI [OF sorted_set.New_correct [OF env_ok_sorted [OF assms(1)], of 1]]
  show "uis_ok nodes invar (cached_set env st vni)"
    "runs_set (uis_runs nodes (cached_set env st vni)) = taken nodes st vni"
    using new assms(2) by (auto simp: cached_set_def cache_ok_def taken_def split: option.splits)
qed

lemma cache_put:
  assumes "cache_ok nodes invar st" "uis_ok nodes invar addrs"
  shows "cache_ok nodes invar (st\<lparr>addrCache := (addrCache st)(vni \<mapsto> addrs)\<rparr>)"
    "taken nodes (st\<lparr>addrCache := (addrCache st)(vni \<mapsto> addrs)\<rparr>) =
      (taken nodes st)(vni := runs_set (uis_runs nodes addrs))"
  using assms by (auto simp: cache_ok_def taken_def fun_eq_iff)

lemma cache_drop:
  assumes "cache_ok nodes invar st"
  shows "cache_ok nodes invar (st\<lparr>addrCache := (addrCache st)(vni := None)\<rparr>)"
    "taken nodes (st\<lparr>addrCache := (addrCache st)(vni := None)\<rparr>) = (taken nodes st)(vni := {})"
  using assms by (auto simp: cache_ok_def taken_def fun_eq_iff)

lemma TakeAddress_ok:
  assumes "env_ok nodes invar env" "cache_ok nodes invar st"
  shows "\<exists>st'. TakeAddress env st vni a = Inr (a \<notin> taken nodes st vni, st') \<and>
    cache_ok nodes invar st' \<and> world st' = world st \<and> atts st' = atts st \<and>
    taken nodes st' = (taken nodes st)(vni := insert a (taken nodes st vni))"
proof -
  note c = cached_set_ok [OF assms, of vni]
  from sorted_set.Add_correct [OF env_ok_sorted [OF assms(1)] c(1) [unfolded uis_ok_def], of a]
  obtain addrs rs where "Add (env_ss env) (cached_set env st vni) a =
      Inr (a \<notin> taken nodes st vni, addrs)" "uis_repr nodes invar addrs rs"
      "runs_set rs = insert a (taken nodes st vni)" unfolding c(2) by blast
  with uis_okI cache_put [OF assms(2)] show ?thesis
    by (fastforce simp: TakeAddress_def)
qed

lemma PickAddress_ok:
  assumes "env_ok nodes invar env" "cache_ok nodes invar st"
  shows "\<exists>u st'. PickAddress env st vni mn mx = Inr (u, \<not> {mn..mx} \<subseteq> taken nodes st vni, st') \<and>
    cache_ok nodes invar st' \<and> world st' = world st \<and> atts st' = atts st \<and>
    (if {mn..mx} \<subseteq> taken nodes st vni then taken nodes st' = taken nodes st
     else u \<in> {mn..mx} - taken nodes st vni \<and>
       taken nodes st' = (taken nodes st)(vni := insert u (taken nodes st vni)))"
proof -
  note c = cached_set_ok [OF assms, of vni]
  let ?S = "taken nodes st vni"
  from random_sorted_set.set_add_one [OF assms(1) [unfolded env_ok_def] c(1), of mn mx]
  obtain u addrs where p: "AddOneInRange (env_ss env) (env_intn env) (env_int63n env) (cached_set env st vni) mn mx =
      Inr (u, \<not> {mn..mx} \<subseteq> ?S, addrs)" "uis_ok nodes invar addrs"
      "if {mn..mx} \<subseteq> ?S then u = 0 \<and> runs_set (uis_runs nodes addrs) = ?S
       else u \<in> {mn..mx} - ?S \<and> runs_set (uis_runs nodes addrs) = insert u ?S"
    unfolding c(2) by blast
  then have "PickAddress env st vni mn mx = Inr (u, \<not> {mn..mx} \<subseteq> ?S,
      st\<lparr>addrCache := (addrCache st)(vni \<mapsto> addrs)\<rparr>)"
    by (simp add: PickAddress_def)
  moreover note cache_put [OF assms(2) p(2), of vni]
  moreover have "(taken nodes st)(vni := ?S) = taken nodes st" by simp
  ultimately show ?thesis using p(3) by (cases "{mn..mx} \<subseteq> ?S") auto
qed

lemma ReleaseAddress_ok:
  assumes "env_ok nodes invar env" "cache_ok nodes invar st"
  shows "\<exists>st'. ReleaseAddress env st vni a = Inr (a \<in> taken nodes st vni, st') \<and>
    cache_ok nodes invar st' \<and> world st' = world st \<and> atts st' = atts st \<and>
    taken nodes st' = (taken nodes st)(vni := taken nodes st vni - {a})"
proof (cases "addrCache st vni")
  case None
  then have "taken nodes st vni = {}" by (simp add: taken_def)
  then show ?thesis using None assms(2) fun_upd_idem [of "taken nodes st" vni "{}"]
    by (auto simp: ReleaseAddress_def)
next
  case (Some addrs)
  then have ok: "uis_ok nodes invar addrs" "runs_set (uis_runs nodes addrs) = taken nodes st vni"
    using assms(2) by (auto simp: cache_ok_def taken_def)
  note ss = env_ok_sorted [OF assms(1)]
  from sorted_set.Remove_correct [OF ss ok(1) [unfolded uis_ok_def], of a]
  obtain addrs' rs where r: "Remove (env_ss env) addrs a = Inr (a \<in> taken nodes st vni, addrs')"
      "uis_repr nodes invar addrs' rs" "runs_set rs = taken nodes st vni - {a}"
    unfolding ok(2) by blast
  note ok' = uis_okI [OF r(2)] and e = sorted_set.IsEmpty_correct [OF ss r(2)]
  show ?thesis
  proof (cases "IsEmpty (env_ss env) addrs'")
    case True
    then have "taken nodes st vni - {a} = {}" using e r(3) by simp
    then show ?thesis using Some r True cache_drop [OF assms(2), of vni]
      by (simp add: ReleaseAddress_def \<open>taken nodes st vni - {a} = {}\<close>)
  next
    case False
    then show ?thesis using Some r ok' cache_put [OF assms(2), of addrs' vni]
      by (simp add: ReleaseAddress_def)
  qed
qed

section \<open>The contract of the API server\<close>

text \<open>
  \<open>locks\<close> reads the lock objects that are stored: a created object is stored under the name and
  in the namespace it was submitted for and keeps its owners, and an object that is fetched is
  stored under the name asked for.
\<close>

locale lock_server =
  fixes api :: "'w ipam_api"
    and locks :: "'w \<Rightarrow> string \<Rightarrow> string \<Rightarrow> IPLock option"
  assumes created: "lock_Create api w ns ipl = (Inr ipl2, w') \<Longrightarrow>
      locks w' ns (meta_Name (ipl_meta ipl)) = Some ipl2 \<and>
      meta_OwnerReferences (ipl_meta ipl2) = meta_OwnerReferences (ipl_meta ipl) \<and>
      meta_Name (ipl_meta ipl2) = meta_Name (ipl_meta ipl) \<and> meta_Namespace (ipl_meta ipl2) = ns"
    and fetched: "lock_Get api w ns name = (Inr ipl, w') \<Longrightarrow>
      locks w' ns name = Some ipl \<and> meta_Name (ipl_meta ipl) = name \<and> meta_Namespace (ipl_meta ipl) = ns"
begin

lemma create_loop_locked:
  assumes "create_loop fuel api ns name attUID lockName ipl w = Some (Locked ipl2, w')"
    and "meta_Name (ipl_meta ipl) = lockName"
    and "GetOwner (ipl_meta ipl) ''NetworkAttachment'' = (name, attUID)"
  shows "locks w' ns lockName = Some ipl2 \<and> meta_Name (ipl_meta ipl2) = lockName \<and>
    meta_Namespace (ipl_meta ipl2) = ns \<and>
    GetOwner (ipl_meta ipl2) ''NetworkAttachment'' = (name, attUID)"
  using assms(1)
proof (induction fuel arbitrary: w)
  case (Suc fuel)
  obtain r w1 where c: "lock_Create api w ns ipl = (r, w1)" by fastforce
  obtain g w2 where get: "lock_Get api w1 ns lockName = (g, w2)" by fastforce
  show ?case
  proof (cases r)
    case (Inr i)
    then show ?thesis using Suc.prems created [of w ns ipl i w1] c assms(2,3) by (simp add: GetOwner_def)
  next
    case (Inl err)
    show ?thesis
    proof (cases g)
      case (Inr i)
      then show ?thesis using Suc.prems c get Inl fetched [of w1 ns lockName i w2]
        by (auto split: if_splits)
    next
      case Inl2: (Inl err2)
      then show ?thesis using Suc c get Inl by (auto split: if_splits)
    qed
  qed
qed simp

end

text \<open>
  A server that stores at most one object under a name: while there is one, a creation under its
  name fails and nothing changes; a fetch returns what is stored and changes nothing.
\<close>

locale exclusive_server = lock_server api locks
  for api :: "'w ipam_api" and locks :: "'w \<Rightarrow> string \<Rightarrow> string \<Rightarrow> IPLock option" +
  assumes create_occupied: "lock_Create api w ns ipl = (r, w') \<Longrightarrow>
      locks w ns (meta_Name (ipl_meta ipl)) \<noteq> None \<Longrightarrow> (\<exists>e. r = Inl e) \<and> locks w' = locks w"
    and get_keeps: "lock_Get api w ns name = (g, w') \<Longrightarrow> locks w' = locks w"
begin

lemma create_loop_exclusive:
  assumes "create_loop fuel api ns name attUID lockName ipl w = Some (out, w')"
    and "meta_Name (ipl_meta ipl) = lockName" "locks w ns lockName = Some obj"
    and "GetOwner (ipl_meta obj) ''NetworkAttachment'' \<noteq> (name, attUID)"
  shows "out \<noteq> Locked ipl2"
  using assms(1,3)
proof (induction fuel arbitrary: w)
  case (Suc fuel)
  obtain r w1 where c: "lock_Create api w ns ipl = (r, w1)" by fastforce
  obtain g w2 where get: "lock_Get api w1 ns lockName = (g, w2)" by fastforce
  from create_occupied [OF c] Suc.prems(2) assms(2) obtain e where r: "r = Inl e"
    and w1: "locks w1 = locks w" by auto
  have w2: "locks w2 ns lockName = Some obj" using get_keeps [OF get] w1 Suc.prems(2) by simp
  show ?case
  proof (cases g)
    case (Inr i)
    then have "i = obj" using fetched [of w1 ns lockName i w2] get w2 by simp
    then show ?thesis using Suc.prems c get r Inr assms(4) by (auto split: if_splits)
  next
    case (Inl e2)
    then show ?thesis using Suc.IH [OF _ w2] Suc.prems c get r by (auto split: if_splits)
  qed
qed simp

text \<open>An address whose lock is held by somebody else is not handed out, whatever the cache says.\<close>

lemma pick_excludes_held:
  assumes run: "pickAndLockAddress fuel env ns name att sn vni base lst st = Some (Inr (la, st'))"
    and api: "env_api env = api" and got: "pl_Obj (la_lock la) \<noteq> None"
    and st1: "\<And>u b s. PickAddress env st vni (fst (address_range base lst)) (snd (address_range base lst)) =
      Inr (u, b, s) \<Longrightarrow> world s = world st"
    and held: "makeIPLockName2 vni (Uint32ToIPv4 u) = Inr lockName" "locks (world st) ns lockName = Some obj"
      "GetOwner (ipl_meta obj) ''NetworkAttachment'' \<noteq> (name, meta_UID (att_meta att))"
  shows "pl_addrU (la_lock la) \<noteq> u"
proof
  assume u: "pl_addrU (la_lock la) = u"
  obtain mn mx where mm: "address_range base lst = (mn, mx)" by fastforce
  from run got obtain s where pick: "PickAddress env st vni mn mx = Inr (u, True, s)"
    using mm u by (auto simp: pickAndLockAddress_def Let_def zeroParsedLock_def
        split: sum.splits prod.splits bool.splits option.splits lock_outcome.splits)
  then have w: "world s = world st" using st1 mm by simp
  from run got mm pick held(1) obtain ipl2 w' where
    "create_loop fuel api ns name (meta_UID (att_meta att)) lockName
       (new_lock ns lockName name (meta_UID (att_meta att)) sn) (world st) = Some (Locked ipl2, w')"
    using api w by (auto simp: pickAndLockAddress_def Let_def
        split: sum.splits option.splits lock_outcome.splits)
  from create_loop_exclusive [OF this _ held(2,3), of ipl2] show False by (simp add: new_lock_def)
qed

end

lemma new_lock_simps [simp]:
  "meta_Name (ipl_meta (new_lock ns lockName name attUID subnetName)) = lockName"
  "GetOwner (ipl_meta (new_lock ns lockName name attUID subnetName)) ''NetworkAttachment'' = (name, attUID)"
  by (simp_all add: new_lock_def GetOwner_def controlled_by_def)

section \<open>A picked and locked address\<close>

lemma address_range_sub:
  assumes "base \<le> lst"
  shows "{fst (address_range base lst)..snd (address_range base lst)} \<subseteq> {base..lst}"
proof (cases "4 \<le> lst - base")
  case True
  have d: "unat (lst - base) = unat lst - unat base" using assms by (rule unat_sub)
  have "4 \<le> unat lst - unat base" using True d by (simp add: word_le_nat_alt)
  moreover from this have "unat (base + 2) = unat base + 2" "unat (lst - 1) = unat lst - 1"
    using unat_lt32 [of lst] by (simp_all add: unat_word_ariths unat_minus_one32 word_less_nat_alt)
  ultimately show ?thesis using True by (auto simp: address_range_def word_le_nat_alt)
qed (simp add: address_range_def)

text \<open>What the controller promises of the result of picking and locking.\<close>

definition well_locked :: "('w \<Rightarrow> string \<Rightarrow> string \<Rightarrow> IPLock option) \<Rightarrow> 'w \<Rightarrow> string \<Rightarrow> string \<Rightarrow> string
    \<Rightarrow> uint32 \<Rightarrow> ParsedLock \<Rightarrow> IP \<Rightarrow> bool" where
  "well_locked locks w ns name attUID vni lock ip \<longleftrightarrow>
     (\<exists>obj. pl_Obj lock = Some obj \<and> locks w ns (pl_name lock) = Some obj \<and>
        meta_Name (ipl_meta obj) = pl_name lock \<and> pl_UID lock = meta_UID (ipl_meta obj) \<and> pl_ns lock = ns \<and>
        GetOwner (ipl_meta obj) ''NetworkAttachment'' = (name, attUID) \<and>
        pl_VNI lock = vni \<and> ip = Uint32ToIPv4 (pl_addrU lock) \<and>
        makeIPLockName2 vni ip = Inr (pl_name lock))"

definition pick_post :: "('ss \<Rightarrow> ss_node list) \<Rightarrow> ('ss \<Rightarrow> bool) \<Rightarrow> ('w \<Rightarrow> string \<Rightarrow> string \<Rightarrow> IPLock option)
    \<Rightarrow> string \<Rightarrow> string \<Rightarrow> string \<Rightarrow> uint32 \<Rightarrow> uint32 \<Rightarrow> uint32 \<Rightarrow> ('w, 'ss) IPAMController
    \<Rightarrow> locked_address \<Rightarrow> ('w, 'ss) IPAMController \<Rightarrow> bool" where
  "pick_post nodes invar locks ns name attUID vni base lst st la st' \<longleftrightarrow>
     cache_ok nodes invar st' \<and> atts st' = atts st \<and>
     (la_err la = None \<longrightarrow>
        pl_addrU (la_lock la) \<in> {base..lst} - taken nodes st vni \<and>
        (if pl_Obj (la_lock la) \<noteq> None
         then well_locked locks (world st') ns name attUID vni (la_lock la) (la_ip la) \<and>
           taken nodes st' = (taken nodes st)(vni := insert (pl_addrU (la_lock la)) (taken nodes st vni))
         else taken nodes st' = taken nodes st \<and> la_ip la = Uint32ToIPv4 (pl_addrU (la_lock la)) \<and>
           pl_UID (la_lock la) = []))"

lemma pickAndLockAddress_ok:
  assumes env: "env_ok nodes invar env" and cache: "cache_ok nodes invar st"
    and srv: "lock_server (env_api env) locks" and le: "base \<le> lst"
    and run: "pickAndLockAddress fuel env ns name att subnetName vni base lst st = Some r"
  shows "\<exists>la st'. r = Inr (la, st') \<and>
    pick_post nodes invar locks ns name (meta_UID (att_meta att)) vni base lst st la st'"
proof -
  obtain mn mx where mm: "address_range base lst = (mn, mx)" by fastforce
  have sub: "{mn..mx} \<subseteq> {base..lst}" using address_range_sub [OF le] mm by simp
  from PickAddress_ok [OF env cache, of vni mn mx] obtain u st1 where
    pick: "PickAddress env st vni mn mx = Inr (u, \<not> {mn..mx} \<subseteq> taken nodes st vni, st1)"
    and st1: "cache_ok nodes invar st1" "world st1 = world st" "atts st1 = atts st"
    and u: "if {mn..mx} \<subseteq> taken nodes st vni then taken nodes st1 = taken nodes st
     else u \<in> {mn..mx} - taken nodes st vni \<and>
       taken nodes st1 = (taken nodes st)(vni := insert u (taken nodes st vni))" by blast
  show ?thesis
  proof (cases "{mn..mx} \<subseteq> taken nodes st vni")
    case True
    then show ?thesis using run pick mm st1 by (auto simp: pickAndLockAddress_def intro!: exI) (simp add: pick_post_def)
  next
    case False
    with u have um: "u \<in> {base..lst} - taken nodes st vni"
      and tk: "taken nodes st1 = (taken nodes st)(vni := insert u (taken nodes st vni))"
      using sub by auto
    from makeIPLockName2_Uint32 obtain lockName where ln: "makeIPLockName2 vni (Uint32ToIPv4 u) = Inr lockName"
      by blast
    let ?ipl = "new_lock ns lockName name (meta_UID (att_meta att)) subnetName"
    from run False pick mm ln obtain out w where
      loop: "create_loop fuel (env_api env) ns name (meta_UID (att_meta att)) lockName ?ipl (world st1) = Some (out, w)"
      by (auto simp: pickAndLockAddress_def Let_def split: option.splits)
    show ?thesis
    proof (cases out)
      case (Locked obj)
      note lk = lock_server.create_loop_locked [OF srv loop [unfolded Locked]]
      then show ?thesis using run False pick mm ln loop Locked st1 um tk
        by (auto simp: pickAndLockAddress_def Let_def) (simp add: pick_post_def well_locked_def)
    next
      case (Refused err)
      then show ?thesis using run False pick mm ln loop st1
        by (auto simp: pickAndLockAddress_def Let_def) (simp add: pick_post_def)
    next
      case (CreateFailed err)
      have "cache_ok nodes invar (st1\<lparr>world := w\<rparr>)" using st1 by simp
      from ReleaseAddress_ok [OF env this, of vni u] obtain st2 where
        rel: "ReleaseAddress env (st1\<lparr>world := w\<rparr>) vni u = Inr (u \<in> taken nodes st1 vni, st2)"
        "cache_ok nodes invar st2" "atts st2 = atts st1"
        "taken nodes st2 = (taken nodes st1)(vni := taken nodes st1 vni - {u})" by auto
      have "taken nodes st2 = taken nodes st" using rel(4) tk um by (simp add: fun_upd_idem_iff)
      then show ?thesis using run False pick mm ln loop CreateFailed st1 um rel
        by (auto simp: pickAndLockAddress_def Let_def) (simp_all add: pick_post_def)
    qed
  qed
qed

section \<open>The locks that are released\<close>

text \<open>The locks an analysis works on: each stands for a known lock object and its parsed name.\<close>

definition lock_of :: "ParsedLock \<Rightarrow> IPLock \<Rightarrow> bool" where
  "lock_of l ipl \<longleftrightarrow> NewParsedLock ipl = Inr l"

definition sets_locks :: "lock_sets \<Rightarrow> ParsedLock set" where
  "sets_locks ls = set (timeSlippers ls) \<union> set (undesiredLocks ls) \<union> set (usableLocks ls)"

definition sets_ok :: "NetworkAttachment option \<Rightarrow> uint32 \<Rightarrow> uint32 \<Rightarrow> uint32 \<Rightarrow> IPLock set \<Rightarrow> lock_sets \<Rightarrow> bool" where
  "sets_ok att vni base lst objs ls \<longleftrightarrow>
     (\<forall>l\<in>sets_locks ls. \<exists>ipl\<in>objs. lock_of l ipl) \<and>
     (\<forall>l\<in>set (undesiredLocks ls) \<union> set (usableLocks ls). \<exists>ipl\<in>objs. lock_of l ipl \<and> \<not> other_edition att ipl) \<and>
     (\<forall>l\<in>set (usableLocks ls). pl_VNI l = vni \<and> base \<le> pl_addrU l \<and> pl_addrU l \<le> lst) \<and>
     (\<forall>l\<in>set (undesiredLocks ls). \<not> (pl_VNI l = vni \<and> base \<le> pl_addrU l \<and> pl_addrU l \<le> lst)) \<and>
     (pl_Obj (lockInStatus ls) \<noteq> None \<longrightarrow>
        lockInStatus ls \<in> set (usableLocks ls) \<and> is_in_status att (lockInStatus ls))"

lemma sets_ok_no_locks [simp]: "sets_ok att vni base lst objs no_locks"
  by (simp add: sets_ok_def no_locks_def sets_locks_def zeroParsedLock_def)

lemma sets_ok_mono: "sets_ok att vni base lst objs ls \<Longrightarrow> objs \<subseteq> objs' \<Longrightarrow> sets_ok att vni base lst objs' ls"
  unfolding sets_ok_def by blast

lemma sets_ok_usable:
  "sets_ok att vni base lst objs ls \<Longrightarrow> l \<in> set (usableLocks ls) \<Longrightarrow>
   (\<exists>ipl\<in>objs. lock_of l ipl \<and> \<not> other_edition att ipl) \<and>
   pl_VNI l = vni \<and> base \<le> pl_addrU l \<and> pl_addrU l \<le> lst"
  unfolding sets_ok_def by blast

lemma sets_ok_owned:
  "sets_ok att vni base lst objs ls \<Longrightarrow> l \<in> set (undesiredLocks ls) \<union> set (usableLocks ls) \<Longrightarrow>
   \<exists>ipl\<in>objs. lock_of l ipl \<and> \<not> other_edition att ipl"
  unfolding sets_ok_def by blast

lemma consider_lock_ok:
  assumes "sets_ok att vni base lst objs ls" "ipl \<in> objs"
  shows "sets_ok att vni base lst objs (consider_lock att vni base lst ipl ls)"
proof (cases "NewParsedLock ipl")
  case (Inl e)
  then show ?thesis using assms by (simp add: consider_lock_def)
next
  case (Inr l)
  then have l: "lock_of l ipl" by (simp add: lock_of_def)
  show ?thesis using assms Inr l
    by (auto simp: consider_lock_def sets_ok_def sets_locks_def Let_def pl_Append_def not_less)
qed

lemma consider_fold_ok:
  "sets_ok att vni base lst objs ls \<Longrightarrow> set ipls \<subseteq> objs \<Longrightarrow>
   sets_ok att vni base lst objs (fold (consider_lock att vni base lst) ipls ls)"
  by (induction ipls arbitrary: ls) (simp_all add: consider_lock_ok)

lemma choose_locks_ok:
  assumes "choose_locks att ls = (keep, rel)" "sets_ok att vni base lst objs ls"
  shows "set rel \<subseteq> set (usableLocks ls)"
    and "pl_Obj keep \<noteq> None \<Longrightarrow> keep \<in> set (usableLocks ls) \<and> pl_Obj (lockInStatus ls) = None \<and> att \<noteq> None"
    and "att = None \<Longrightarrow> set rel = set (usableLocks ls)"
  using assms RemFunc_kept(2) Best_mem
  by (auto simp: choose_locks_def Let_def zeroParsedLock_def split: if_splits)

end
