(* ===== verification/IPAM_Server.thy ===== *)
theory IPAM_Server
  imports IPAM_Correct
begin

text \<open>
  What the IPAM controller does to the API server while it processes one attachment. The
  server's audit log (the deletions and the status updates it was asked for, in order) is part
  of its contract; \<open>store_api\<close> is a server on which the contract is interpreted.
\<close>

section \<open>The audit log of the server\<close>

datatype api_event = EvDelete string string string | EvUpdate NetworkAttachment

locale ipam_server = lock_server api locks
  for api :: "'w ipam_api" and locks :: "'w \<Rightarrow> string \<Rightarrow> string \<Rightarrow> IPLock option" +
  fixes log :: "'w \<Rightarrow> api_event list"
  assumes log_Create: "lock_Create api w ns ipl = (r, w') \<Longrightarrow> log w' = log w"
    and log_Get: "lock_Get api w ns name = (r2, w') \<Longrightarrow> log w' = log w"
    and log_Delete: "lock_Delete api w ns name uid = (e, w') \<Longrightarrow> log w' = log w @ [EvDelete ns name uid]"
    and log_Update: "att_Update api w ns a = (r3, w') \<Longrightarrow> log w' = log w @ [EvUpdate a]"
begin

lemma create_loop_log:
  "create_loop fuel api ns name attUID lockName ipl w = Some (out, w') \<Longrightarrow> log w' = log w"
proof (induction fuel arbitrary: w)
  case (Suc fuel)
  obtain r w1 where c: "lock_Create api w ns ipl = (r, w1)" by fastforce
  obtain g w2 where get: "lock_Get api w1 ns lockName = (g, w2)" by fastforce
  show ?case using Suc c get log_Create [OF c] log_Get [OF get]
    by (auto split: sum.splits if_splits)
qed simp

lemma delete_loop_log:
  "delete_loop env w ls = (e, w') \<Longrightarrow> env_api env = api \<Longrightarrow>
   \<exists>ds. log w' = log w @ map (\<lambda>l. EvDelete (pl_ns l) (pl_name l) (pl_UID l)) ds \<and>
     set ds \<subseteq> set ls \<and> (e = None \<longrightarrow> ds = ls)"
proof (induction ls arbitrary: w)
  case Nil
  then show ?case by simp
next
  case (Cons l ls)
  obtain d w1 where d: "lock_Delete api w (pl_ns l) (pl_name l) (pl_UID l) = (d, w1)" by fastforce
  note log1 = log_Delete [OF d]
  show ?case
  proof (cases "fst (deleteIPLockObject env w l)")
    case (Some err)
    then have "(e, w') = (Some err, w1)" using Cons.prems d
      by (auto simp: deleteIPLockObject_def split: option.splits if_splits)
    then show ?thesis using log1 by (intro exI [of _ "[l]"]) simp
  next
    case None
    then have "delete_loop env w1 ls = (e, w')" using Cons.prems d
      by (auto simp: deleteIPLockObject_def split: option.splits if_splits)
    from Cons.IH [OF this Cons.prems(2)] obtain ds where
      "log w' = log w1 @ map (\<lambda>l. EvDelete (pl_ns l) (pl_name l) (pl_UID l)) ds"
      "set ds \<subseteq> set ls" "e = None \<longrightarrow> ds = ls" by blast
    then show ?thesis using log1 by (intro exI [of _ "l # ds"]) auto
  qed
qed

lemma updateNAStatus_log:
  assumes "updateNAStatus env ns name att errs rv lock ip st = Inr (e, st')" "env_api env = api"
  shows "log (world st') = log (world st) @ [EvUpdate (status_update att errs lock ip)]"
proof -
  obtain r w where "att_Update api (world st) ns (status_update att errs lock ip) = (r, w)" by fastforce
  from this log_Update [OF this] assms show ?thesis
    by (auto simp: updateNAStatus_def Let_def split: sum.splits option.splits if_splits)
qed

end

section \<open>Parts that leave the cache alone\<close>

lemma consider_status_frame:
  assumes "consider_status env ns name att vni base lst ls st = Inr (ls', st')"
  shows "addrCache st' = addrCache st \<and> atts st' = atts st"
  using assms by (auto simp: consider_status_def Let_def split: option.splits if_splits sum.splits prod.splits)

lemma reset_anticipation_frame [simp]:
  "addrCache (reset_anticipation ns name att rv st) = addrCache st"
  "world (reset_anticipation ns name att rv st) = world st"
  by (auto simp: reset_anticipation_def split: option.splits)

lemma analyze_locks_frame:
  assumes "analyze_locks env ns name att sn rv vni base lst st = Inr (an, st')"
  shows "addrCache st' = addrCache st"
  using assms consider_status_frame
  by (fastforce simp: analyze_locks_def Let_def split: sum.splits prod.splits option.splits)

lemma analyzeAndRelease_frame:
  assumes "analyzeAndRelease env ns name att st = Inr (an, st')"
  shows "addrCache st' = addrCache st"
  using assms analyze_locks_frame
  by (fastforce simp: analyzeAndRelease_def Let_def split: option.splits sum.splits prod.splits if_splits)

lemma analyzeAndRelease_panic:
  assumes "analyzeAndRelease env ns name att st = Inl p"
  shows "p = AddressIndex"
  using assms
  by (auto simp: analyzeAndRelease_def analyze_locks_def consider_status_def Let_def
      split: option.splits sum.splits prod.splits if_splits)

lemma updateNAStatus_frame:
  assumes "updateNAStatus env ns name att errs rv lock ip st = Inr (e, st')"
  shows "addrCache st' = addrCache st"
  using assms by (auto simp: updateNAStatus_def Let_def split: sum.splits prod.splits option.splits if_splits)

lemma updateNAStatus_panic:
  "updateNAStatus env ns name att errs rv lock ip st = Inl p \<Longrightarrow> p = NoAttData"
  by (auto simp: updateNAStatus_def Let_def split: sum.splits prod.splits option.splits if_splits)

lemma cache_ok_cong: "addrCache st' = addrCache st \<Longrightarrow> cache_ok nodes invar st' = cache_ok nodes invar st"
  by (simp add: cache_ok_def)

lemma pickAndLockAddress_cache:
  assumes env: "env_ok nodes invar env" and cache: "cache_ok nodes invar st"
    and run: "pickAndLockAddress fuel env ns name att sn vni base lst st = Some r"
  shows "\<exists>la st'. r = Inr (la, st') \<and> cache_ok nodes invar st'"
proof -
  obtain mn mx where mm: "address_range base lst = (mn, mx)" by fastforce
  from PickAddress_ok [OF env cache, of vni mn mx] obtain u st1 where
    pick: "PickAddress env st vni mn mx = Inr (u, \<not> {mn..mx} \<subseteq> taken nodes st vni, st1)"
    and st1: "cache_ok nodes invar st1" by blast
  from makeIPLockName2_Uint32 obtain lockName where ln: "makeIPLockName2 vni (Uint32ToIPv4 u) = Inr lockName"
    by blast
  have rel: "\<exists>b st'. ReleaseAddress env (st1\<lparr>world := w\<rparr>) vni u = Inr (b, st') \<and> cache_ok nodes invar st'" for w
    using ReleaseAddress_ok [OF env, of "st1\<lparr>world := w\<rparr>" vni u] st1 by auto
  note unf = run pick st1 mm ln
  show ?thesis
  proof (cases "{mn..mx} \<subseteq> taken nodes st vni")
    case True
    then show ?thesis using unf by (auto simp: pickAndLockAddress_def)
  next
    case False
    then obtain out w where loop: "create_loop fuel (env_api env) ns name (meta_UID (att_meta att)) lockName
        (new_lock ns lockName name (meta_UID (att_meta att)) sn) (world st1) = Some (out, w)"
      using unf by (auto simp: pickAndLockAddress_def Let_def split: option.splits)
    from rel [of w] obtain b2 st2 where
      "ReleaseAddress env (st1\<lparr>world := w\<rparr>) vni u = Inr (b2, st2)" "cache_ok nodes invar st2" by blast
    then show ?thesis using unf False loop
      by (cases out) (auto simp: pickAndLockAddress_def Let_def)
  qed
qed

lemma updateNAStatus_cache:
  assumes "cache_ok nodes invar st"
  shows "case updateNAStatus env ns name att errs rv lock ip st of
    Inl p \<Rightarrow> p = NoAttData | Inr (e, st') \<Rightarrow> cache_ok nodes invar st'"
proof (cases "updateNAStatus env ns name att errs rv lock ip st")
  case (Inl p)
  then show ?thesis using updateNAStatus_panic by simp
next
  case (Inr x)
  then show ?thesis using updateNAStatus_frame [of env ns name att errs rv lock ip st "fst x" "snd x"] assms
    by (cases x) (simp add: cache_ok_def)
qed

lemma assign_address_cache:
  assumes env: "env_ok nodes invar env" and cache: "cache_ok nodes invar st"
    and run: "assign_address fuel env ns name att an st = Some r"
  shows "case r of Inl p \<Rightarrow> p = NoAttData | Inr (e, st') \<Rightarrow> cache_ok nodes invar st'"
proof -
  note upd = updateNAStatus_cache
  show ?thesis
  proof (cases "pickAndLockAddress fuel env ns name att (an_subnetName an) (an_VNI an) (an_baseU an) (an_lastU an) st")
    case None
    then show ?thesis using run upd [OF cache] cache
      by (auto simp: assign_address_def Let_def split: if_splits option.splits)
  next
    case (Some pr)
    from pickAndLockAddress_cache [OF env cache Some] obtain la st1 where
      "pr = Inr (la, st1)" "cache_ok nodes invar st1" by blast
    then show ?thesis using run upd [OF cache] upd [of nodes invar st1] cache Some
      by (auto simp: assign_address_def Let_def split: if_splits option.splits)
  qed
qed

lemma processNetworkAttachment_cache:
  assumes env: "env_ok nodes invar env" and cache: "cache_ok nodes invar st"
    and run: "processNetworkAttachment fuel env ns name st = Some r"
  shows "case r of Inl p \<Rightarrow> p = AddressIndex \<or> p = NoAttData | Inr (e, st') \<Rightarrow> cache_ok nodes invar st'"
proof -
  have "case r of Inl p \<Rightarrow> p = AddressIndex \<or> p = NoAttData | Inr (e, st') \<Rightarrow> cache_ok nodes invar st'"
    if "process_found fuel env ns name att st = Some r" for att
  proof -
    obtain nadat st1 where g: "getNetworkAttachmentData st ns name (att \<noteq> None) = (nadat, st1)" by fastforce
    then have c1: "cache_ok nodes invar st1" using cache
      by (auto simp: getNetworkAttachmentData_def split: option.splits if_splits)
    show ?thesis
    proof (cases "analyzeAndRelease env ns name att st1")
      case (Inl p)
      then show ?thesis using that g analyzeAndRelease_panic by (fastforce simp: process_found_def)
    next
      case (Inr x)
      obtain an st2 where x: "x = (an, st2)" by fastforce
      have c2: "cache_ok nodes invar st2"
        using analyzeAndRelease_frame [OF Inr [unfolded x]] c1 cache_ok_cong by metis
      then show ?thesis using that g Inr x assign_address_cache [OF env c2]
        by (fastforce simp: process_found_def clearNetworkAttachmentData_def split: if_splits option.splits sum.splits)
    qed
  qed
  then show ?thesis using run cache by (auto simp: processNetworkAttachment_def split: sum.splits if_splits)
qed

end
