(* ===== verification/IPAM_Status.thy ===== *)
theory IPAM_Status
  imports IPAM_Server Subnet_Strategy
begin

text \<open>
  The statuses the IPAM controller writes and the locks it deletes: every address it writes is
  supported by a lock object of the attachment, on an address of the attachment's subnet; it
  deletes only locks of the attachment, and never the one it keeps.
\<close>

section \<open>Ranges\<close>

lemma bounds_subnet_range:
  assumes "ParseCIDR (spec_IPv4 s) = Inr (ip, net)" "IPNetToBoundsU net = Inr (b, l)"
  shows "subnet_range s = {b..l}"
proof -
  have "ipv4ToUint32 (net_IP net) = IPv4ToUint32 (net_IP net)"
    by (simp add: ipv4ToUint32_def IPv4ToUint32_def)
  then show ?thesis using assms
    by (auto simp: subnet_range_def parseSubnet_def IPNetToBoundsU_def Let_def split: sum.splits prod.splits)
qed

definition valid_v4_subnet :: "Subnet \<Rightarrow> bool" where
  "valid_v4_subnet s \<longleftrightarrow> spec_VNI s \<le> maxVNI \<and>
     (\<exists>a b c d n. n \<le> 32 \<and> spec_IPv4 s = v4_String [a, b, c, d] @ ''/'' @ format_uint 10 n)"

lemma v4_bounds:
  assumes "valid_v4_subnet s" "ParseCIDR (spec_IPv4 s) = Inr (ip, net)" "IPNetToBoundsU net = Inr (b, l)"
  shows "b \<le> l"
proof -
  from assms(1) obtain a b' c d n where n: "n \<le> 32"
    and s: "spec_IPv4 s = v4_String [a, b', c, d] @ ''/'' @ format_uint 10 n"
    unfolding valid_v4_subnet_def by blast
  let ?net = "\<lparr>net_IP = ip_Mask (IPv4 a b' c d) (CIDRMask n 32), net_Mask = CIDRMask n 32\<rparr>"
  have cidr: "ParseCIDR (spec_IPv4 s) = Inr (IPv4 a b' c d, ?net)" unfolding s using n by (rule ParseCIDR_v4)
  have "parseSubnet s = Inr \<lparr>baseU = be_or a b' c d AND prefix_mask n,
      lastU = (be_or a b' c d AND prefix_mask n) + block_delta n 32\<rparr>"
    by (rule parseSubnet_v4 [OF cidr _ _ n]) simp_all
  then have "subnet_range s = {be_or a b' c d AND prefix_mask n..
      (be_or a b' c d AND prefix_mask n) + block_delta n 32}" by (simp add: subnet_range_def)
  moreover have "subnet_range s = {b..l}" using assms(2,3) by (rule bounds_subnet_range)
  ultimately have "be_or a b' c d AND prefix_mask n \<in> {b..l}"
    using block_base_le_last [OF n, of "be_or a b' c d"] by (metis atLeastAtMost_iff order.refl)
  then show ?thesis by (auto intro: order_trans)
qed

section \<open>Supported statuses\<close>

text \<open>A lock object on an address of a subnet that is owned by the given edition of an attachment.\<close>

definition supports :: "IPLock \<Rightarrow> Subnet \<Rightarrow> NetworkAttachment \<Rightarrow> uint32 \<Rightarrow> bool" where
  "supports ipl subnet att u \<longleftrightarrow>
     parseIPLockName (meta_Name (ipl_meta ipl)) = Inr (spec_VNI subnet, u) \<and> u \<in> subnet_range subnet \<and>
     snd (GetOwner (ipl_meta ipl) ''NetworkAttachment'') = meta_UID (att_meta att)"

text \<open>
  The lock objects the controller may know of when it processes an attachment: those that its
  index has for the name of the attachment, and those that the server returns for their name in
  the state \<open>w\<close> in which the processing begins.
\<close>

definition known_lock :: "('w, 'ss) ipam_env \<Rightarrow> string \<Rightarrow> string \<Rightarrow> 'w \<Rightarrow> IPLock \<Rightarrow> bool" where
  "known_lock env ns name w ipl \<longleftrightarrow>
     (case lock_ByOwner (env_listers env) name of Inl _ \<Rightarrow> False | Inr ipls \<Rightarrow> ipl \<in> set ipls) \<or>
     fst (lock_Get (env_api env) w ns (meta_Name (ipl_meta ipl))) = Inr ipl"

text \<open>A status whose address, if it has one, is the one of a lock of which \<open>held\<close> holds.\<close>

definition status_supported :: "(IPLock \<Rightarrow> bool) \<Rightarrow> ipam_listers \<Rightarrow> string \<Rightarrow> NetworkAttachment
    \<Rightarrow> NetworkAttachmentStatus \<Rightarrow> bool" where
  "status_supported held lsts ns att s \<longleftrightarrow>
     (if Status_IPv4 s = [] then IPAM_errs (Errors s) \<noteq> [] \<and> LockUID s = []
      else IPAM_errs (Errors s) = [] \<and>
        (\<exists>subnet ipl u. subnet_Lister lsts ns (Subnet_name (att_Spec att)) = Inr subnet \<and>
           held ipl \<and> supports ipl subnet att u \<and> LockUID s = meta_UID (ipl_meta ipl) \<and>
           AddressVNI s = spec_VNI subnet \<and> Status_IPv4 s = ip_String (Uint32ToIPv4 u)))"

text \<open>
  A lock that is known when the processing begins in \<open>w0\<close>, or stored at the server under its name
  in \<open>w\<close>; and an update that the server got in a state \<open>w\<close> and answered with the state \<open>w'\<close>,
  whose status is supported by such a lock.
\<close>

definition held_lock :: "('w, 'ss) ipam_env \<Rightarrow> ('w \<Rightarrow> string \<Rightarrow> string \<Rightarrow> IPLock option) \<Rightarrow> string \<Rightarrow> string
    \<Rightarrow> 'w \<Rightarrow> 'w \<Rightarrow> IPLock \<Rightarrow> bool" where
  "held_lock env locks ns name w0 w ipl \<longleftrightarrow>
     known_lock env ns name w0 ipl \<or> locks w ns (meta_Name (ipl_meta ipl)) = Some ipl"

definition supported_update :: "('w, 'ss) ipam_env \<Rightarrow> ('w \<Rightarrow> string \<Rightarrow> string \<Rightarrow> IPLock option) \<Rightarrow> string \<Rightarrow> string
    \<Rightarrow> NetworkAttachment \<Rightarrow> 'w \<Rightarrow> 'w \<Rightarrow> NetworkAttachment \<Rightarrow> bool" where
  "supported_update env locks ns name att w0 w' u \<longleftrightarrow>
     (\<exists>w r. att_Update (env_api env) w ns u = (r, w') \<and>
        status_supported (held_lock env locks ns name w0 w) (env_listers env) ns att (att_Status u))"

lemma ip_String_nonempty [simp]: "ip_String (Uint32ToIPv4 u) \<noteq> []"
  by (simp add: ip_String_def be_bytes_def v4_String_four)

lemma status_update_errs: "errs \<noteq> [] \<Longrightarrow>
    status_supported held lsts ns att (att_Status (status_update att errs zeroParsedLock []))"
  by (simp add: status_supported_def status_update_def zeroParsedLock_def)

lemma status_update_lock:
  assumes "subnet_Lister lsts ns (Subnet_name (att_Spec att)) = Inr subnet" "held ipl" "supports ipl subnet att u"
    and "pl_UID l = meta_UID (ipl_meta ipl)" "pl_VNI l = spec_VNI subnet"
  shows "status_supported held lsts ns att (att_Status (status_update att [] l (Uint32ToIPv4 u)))"
  using assms by (auto simp: status_supported_def status_update_def)

section \<open>The analysis\<close>

lemma lock_ofD:
  "lock_of l ipl \<Longrightarrow> parseIPLockName (meta_Name (ipl_meta ipl)) = Inr (pl_VNI l, pl_addrU l) \<and>
     pl_UID l = meta_UID (ipl_meta ipl) \<and> pl_Obj l = Some ipl \<and> pl_name l = meta_Name (ipl_meta ipl) \<and>
     pl_ns l = meta_Namespace (ipl_meta ipl)"
  by (auto simp: lock_of_def NewParsedLock_def split: sum.splits)

text \<open>What an analysis that got as far as the locks did.\<close>

definition analysis_post :: "IPLock set \<Rightarrow> NetworkAttachment option \<Rightarrow> uint32 \<Rightarrow> uint32 \<Rightarrow> uint32 \<Rightarrow> lock_sets
    \<Rightarrow> ParsedLock list \<Rightarrow> analysis \<Rightarrow> bool" where
  "analysis_post objs att vni base lst ls ds an \<longleftrightarrow>
     sets_ok att vni base lst objs ls \<and>
     set ds \<subseteq> set (undesiredLocks ls) \<union> set (snd (choose_locks att ls)) \<and>
     an_lockInStatus an = lockInStatus ls \<and> an_lockForStatus an = fst (choose_locks att ls) \<and>
     (an_err an = None \<longrightarrow> set (undesiredLocks ls) \<subseteq> set ds) \<and>
     an_statusErrs an = [] \<and> an_VNI an = vni \<and> an_baseU an = base \<and> an_lastU an = lst"

abbreviation del_event :: "ParsedLock \<Rightarrow> api_event" where
  "del_event l \<equiv> EvDelete (pl_ns l) (pl_name l) (pl_UID l)"

context ipam_server
begin

lemma consider_status_ok:
  assumes "consider_status env ns name att vni base lst ls st = Inr (ls', st')" "env_api env = api"
    and "sets_ok att vni base lst {ipl. known_lock env ns name (world st) ipl} ls"
  shows "sets_ok att vni base lst {ipl. known_lock env ns name (world st) ipl} ls' \<and>
    log (world st') = log (world st) \<and> set (undesiredLocks ls) \<subseteq> set (undesiredLocks ls')"
proof -
  have grow: "set (undesiredLocks ls) \<subseteq> set (undesiredLocks (consider_lock att vni base lst ipl ls))" for ipl
    by (auto simp: consider_lock_def Let_def pl_Append_def split: sum.splits)
  have known: "known_lock env ns name (world st) ipl"
    if "lock_Get api (world st) ns nm = (Inr ipl, w')" for nm ipl w'
    using that fetched [OF that] assms(2) by (simp add: known_lock_def)
  show ?thesis
  proof (cases "\<exists>ipl nm w'. lock_Get api (world st) ns nm = (Inr ipl, w') \<and>
      ls' = consider_lock att vni base lst ipl ls \<and> world st' = w'")
    case True
    then obtain ipl nm w' where "lock_Get api (world st) ns nm = (Inr ipl, w')"
      "ls' = consider_lock att vni base lst ipl ls" "world st' = w'" by blast
    then show ?thesis using log_Get consider_lock_ok [OF assms(3), of ipl] known grow by simp
  next
    case False
    then show ?thesis using assms log_Get
      by (fastforce simp: consider_status_def Let_def split: option.splits if_splits sum.splits prod.splits)
  qed
qed

lemma analyze_locks_ok:
  assumes run: "analyze_locks env ns name att sn rv vni base lst st = Inr (an, st')" and api: "env_api env = api"
    and ok: "an_err an \<noteq> None \<or> an_ok an"
  shows "\<exists>ls ds objs. lock_ByOwner (env_listers env) name = Inr objs \<and>
    log (world st') = log (world st) @ map del_event ds \<and>
    analysis_post {ipl. known_lock env ns name (world st) ipl} att vni base lst ls ds an \<and>
    set (undesiredLocks (fold (consider_lock att vni base lst) objs no_locks)) \<subseteq> set (undesiredLocks ls)"
proof -
  from run ok obtain objs where objs: "lock_ByOwner (env_listers env) name = Inr objs"
    by (auto simp: analyze_locks_def analysis0_def Let_def split: sum.splits)
  let ?ls0 = "fold (consider_lock att vni base lst) objs no_locks"
  from run objs obtain ls st1 where cs: "consider_status env ns name att vni base lst ?ls0 st = Inr (ls, st1)"
    by (auto simp: analyze_locks_def Let_def split: sum.splits)
  have "sets_ok att vni base lst {ipl. known_lock env ns name (world st) ipl} ?ls0"
    by (rule consider_fold_ok) (auto simp: known_lock_def objs)
  note c = consider_status_ok [OF cs api this]
  obtain keep rel where ch: "choose_locks att ls = (keep, rel)" by fastforce
  let ?rel = "fst (AddListFunc (undesiredLocks ls) rel)"
  obtain e w where d: "delete_loop env (world st1) ?rel = (e, w)" by fastforce
  from delete_loop_log [OF d api] obtain ds where ds: "log w = log (world st1) @ map del_event ds"
    "set ds \<subseteq> set ?rel" "e = None \<longrightarrow> ds = ?rel" by blast
  have "log (world st') = log w" "an_err an = e" "an_lockInStatus an = lockInStatus ls"
    "an_lockForStatus an = keep" "an_statusErrs an = []" "an_VNI an = vni" "an_baseU an = base" "an_lastU an = lst"
    using run objs cs ch d by (auto simp: analyze_locks_def analysis0_def Let_def split: option.splits)
  moreover note AddListFunc_set [of "undesiredLocks ls" rel]
  ultimately show ?thesis
    using objs c ds ch by (intro exI [of _ ls] exI [of _ ds] exI [of _ objs]) (auto simp: analysis_post_def)
qed

end

text \<open>A lock that the analysis chose for the status supports it.\<close>

lemma chosen_supports:
  assumes post: "analysis_post objs (Some att) vni base lst ls ds an" and "pl_Obj (an_lockForStatus an) \<noteq> None"
    and "vni = spec_VNI subnet" "subnet_range subnet = {base..lst}"
  shows "\<exists>ipl\<in>objs. supports ipl subnet att (pl_addrU (an_lockForStatus an)) \<and>
    pl_UID (an_lockForStatus an) = meta_UID (ipl_meta ipl) \<and> pl_VNI (an_lockForStatus an) = spec_VNI subnet"
proof -
  have s: "sets_ok (Some att) vni base lst objs ls" and k: "an_lockForStatus an = fst (choose_locks (Some att) ls)"
    using post by (simp_all add: analysis_post_def)
  have l: "an_lockForStatus an \<in> set (usableLocks ls)"
    using choose_locks_ok(2) [OF _ s, of "fst (choose_locks (Some att) ls)" "snd (choose_locks (Some att) ls)"]
      assms(2) k by simp
  then obtain ipl where ipl: "ipl \<in> objs" "lock_of (an_lockForStatus an) ipl" "\<not> other_edition (Some att) ipl"
    and "pl_VNI (an_lockForStatus an) = vni" "pl_addrU (an_lockForStatus an) \<in> {base..lst}"
    using sets_ok_usable [OF s l] by auto
  then show ?thesis using lock_ofD [OF ipl(2)] assms(3,4)
    by (auto simp: supports_def other_edition_def intro!: bexI [OF _ ipl(1)])
qed

text \<open>A lock that was made for a picked address supports it.\<close>

lemma well_locked_supports:
  assumes wl: "well_locked locks w ns name (meta_UID (att_meta att)) vni lock ip"
    and "vni = spec_VNI subnet" "valid_v4_subnet subnet" "pl_addrU lock \<in> subnet_range subnet"
  shows "\<exists>ipl. locks w ns (meta_Name (ipl_meta ipl)) = Some ipl \<and> supports ipl subnet att (pl_addrU lock) \<and>
    pl_UID lock = meta_UID (ipl_meta ipl) \<and> pl_VNI lock = spec_VNI subnet \<and> ip = Uint32ToIPv4 (pl_addrU lock)"
proof -
  from wl obtain obj :: IPLock where st: "locks w ns (pl_name lock) = Some obj" and obj: "meta_Name (ipl_meta obj) = pl_name lock" "pl_UID lock = meta_UID (ipl_meta obj)"
    "GetOwner (ipl_meta obj) ''NetworkAttachment'' = (name, meta_UID (att_meta att))" "pl_VNI lock = vni"
    "ip = Uint32ToIPv4 (pl_addrU lock)" "makeIPLockName2 vni ip = Inr (pl_name lock)"
    unfolding well_locked_def by blast
  have "unat vni \<le> unat maxVNI" using assms(2,3) by (simp add: valid_v4_subnet_def word_le_nat_alt)
  then have "vni < 2 ^ 21" by (simp add: word_less_nat_alt maxVNI_def)
  then have "parseIPLockName (pl_name lock) = Inr (vni, pl_addrU lock)"
    using parse_make_lock_name [of vni ip "pl_addrU lock"] obj(5,6) by simp
  then show ?thesis using st obj assms(2,4) by (intro exI [of _ obj]) (auto simp: supports_def)
qed

section \<open>The statuses that are written\<close>

definition no_permanent_errors :: "'w ipam_api \<Rightarrow> bool" where
  "no_permanent_errors api \<longleftrightarrow>
     (\<forall>w ns ipl e w'. lock_Create api w ns ipl = (Inl e, w') \<longrightarrow> \<not> permanent_error e)"

lemma no_permanentD:
  "no_permanent_errors api \<Longrightarrow> lock_Create api w ns ipl = (Inl e, w') \<Longrightarrow> \<not> permanent_error e"
  unfolding no_permanent_errors_def by blast

lemma create_loop_no_permanent:
  "no_permanent_errors api \<Longrightarrow> create_loop fuel api ns name attUID lockName ipl w = Some (CreateFailed e, w') \<Longrightarrow>
   \<not> permanent_error e"
proof (induction fuel arbitrary: w)
  case (Suc fuel)
  then show ?case
    by (auto dest: no_permanentD split: sum.splits if_splits prod.splits)
qed simp

lemma pick_no_permanent:
  assumes "no_permanent_errors (env_api env)"
    and "pickAndLockAddress fuel env ns name att sn vni base lst st = Some (Inr (la, st'))" "la_err la = None"
  shows "pl_Obj (la_lock la) \<noteq> None"
  using assms(2,3) create_loop_no_permanent [OF assms(1)]
  by (auto simp: pickAndLockAddress_def Let_def
      split: prod.splits sum.splits bool.splits option.splits lock_outcome.splits if_splits)

context ipam_server
begin

lemma pickAndLockAddress_log:
  assumes "pickAndLockAddress fuel env ns name att sn vni base lst st = Some (Inr (la, st'))"
    and "env_api env = api" "env_ok nodes invar env" "cache_ok nodes invar st"
  shows "log (world st') = log (world st)"
proof -
  obtain mn mx where mm: "address_range base lst = (mn, mx)" by fastforce
  from PickAddress_ok [OF assms(3,4), of vni mn mx] obtain u b st1 where
    pick: "PickAddress env st vni mn mx = Inr (u, b, st1)" "world st1 = world st" "cache_ok nodes invar st1"
    by blast
  have rel: "world st2 = w" if "ReleaseAddress env (st1\<lparr>world := w\<rparr>) vni u = Inr (x, st2)" for w x st2
    using that ReleaseAddress_ok [OF assms(3), of "st1\<lparr>world := w\<rparr>" vni u] pick(3) by auto
  show ?thesis using assms(1,2) mm pick(1,2) rel create_loop_log
    by (fastforce simp: pickAndLockAddress_def Let_def
        split: sum.splits bool.splits option.splits lock_outcome.splits if_splits)
qed

lemma updateNAStatus_sent:
  assumes "updateNAStatus env ns name att errs rv lock ip st = Inr (e, st')" "env_api env = a"
  shows "\<exists>r. att_Update a (world st) ns (status_update att errs lock ip) = (r, world st')"
  using assms by (auto simp: updateNAStatus_def Let_def split: sum.splits prod.splits option.splits if_splits)

lemma updateNAStatus_supported:
  assumes run: "updateNAStatus env ns name att [] rv lock (Uint32ToIPv4 (pl_addrU lock)) st = Inr (e, st')"
    and api: "env_api env = api"
    and sub: "subnet_Lister (env_listers env) ns (Subnet_name (att_Spec att)) = Inr subnet"
    and sup: "held_lock env locks ns name w0 (world st) ipl" "supports ipl subnet att (pl_addrU lock)"
      "pl_UID lock = meta_UID (ipl_meta ipl)" "pl_VNI lock = spec_VNI subnet"
  shows "\<exists>us. log (world st') = log (world st) @ map EvUpdate us \<and>
    (\<forall>u\<in>set us. supported_update env locks ns name att w0 (world st') u)"
proof -
  let ?u = "status_update att [] lock (Uint32ToIPv4 (pl_addrU lock))"
  have "status_supported (held_lock env locks ns name w0 (world st)) (env_listers env) ns att (att_Status ?u)"
    using sup status_update_lock [OF sub] by blast
  then have "supported_update env locks ns name att w0 (world st') ?u"
    using updateNAStatus_sent [OF run refl] unfolding supported_update_def by blast
  then show ?thesis using updateNAStatus_log [OF run api] by (intro exI [of _ "[?u]"]) simp
qed

lemma assign_address_log:
  assumes api: "env_api env = api" and env: "env_ok nodes invar env" and cache: "cache_ok nodes invar st"
    and np: "no_permanent_errors api" and valid: "valid_v4_subnet subnet"
    and sub: "subnet_Lister (env_listers env) ns (Subnet_name (att_Spec att)) = Inr subnet"
    and rng: "subnet_range subnet = {an_baseU an..an_lastU an}" "an_baseU an \<le> an_lastU an"
    and vni: "an_VNI an = spec_VNI subnet" and noerr: "an_statusErrs an = []"
    and chosen: "pl_Obj (an_lockForStatus an) \<noteq> None \<Longrightarrow>
      \<exists>ipl\<in>{ipl. known_lock env ns name w0 ipl}. supports ipl subnet att (pl_addrU (an_lockForStatus an)) \<and>
        pl_UID (an_lockForStatus an) = meta_UID (ipl_meta ipl) \<and> pl_VNI (an_lockForStatus an) = spec_VNI subnet"
    and run: "assign_address fuel env ns name att an st = Some (Inr (e, st'))"
  shows "\<exists>us. log (world st') = log (world st) @ map EvUpdate us \<and>
    (\<forall>u\<in>set us. supported_update env locks ns name att w0 (world st') u)"
proof -
  note upd = updateNAStatus_supported [where ?w0.0 = w0, OF _ api sub]
  show ?thesis
  proof (cases "world st' = world st")
    case True
    then show ?thesis by (intro exI [of _ "[]"]) simp
  next
    case False
    from False run noerr obtain nadat where nad: "atts st (nsn ns name) = Some nadat"
      and none: "pl_Obj (an_lockInStatus an) = None"
      by (auto simp: assign_address_def split: if_splits option.splits)
    show ?thesis
    proof (cases "pl_Obj (an_lockForStatus an)")
      case (Some obj)
      then have "updateNAStatus env ns name att [] (an_subnetRV an) (an_lockForStatus an)
          (Uint32ToIPv4 (pl_addrU (an_lockForStatus an))) st = Inr (e, st')"
        using run noerr nad none False by (auto simp: assign_address_def Let_def GetIP_def split: if_splits)
      then show ?thesis using upd chosen Some unfolding held_lock_def by blast
    next
      case None
      then obtain la st1 where
        pick: "pickAndLockAddress fuel env ns name att (an_subnetName an) (an_VNI an) (an_baseU an)
          (an_lastU an) st = Some (Inr (la, st1))"
        and rest: "(la_err la \<noteq> None \<and> st' = st1) \<or> la_err la = None \<and>
          updateNAStatus env ns name att [] (an_subnetRV an) (la_lock la) (la_ip la) st1 = Inr (e, st')"
        using run noerr nad none False
        by (auto simp: assign_address_def split: if_splits option.splits sum.splits)
      note log1 = pickAndLockAddress_log [OF pick api env cache]
      show ?thesis
      proof (cases "la_err la")
        case (Some err)
        then show ?thesis using rest log1 by (intro exI [of _ "[]"]) simp
      next
        case ok: None
        have srv: "lock_server (env_api env) locks" using api lock_server_axioms by simp
        from pickAndLockAddress_ok [OF env cache srv rng(2) pick] ok pick_no_permanent [OF _ pick ok] np api
        have "well_locked locks (world st1) ns name (meta_UID (att_meta att)) (an_VNI an) (la_lock la) (la_ip la)"
          "pl_addrU (la_lock la) \<in> subnet_range subnet"
          by (auto simp: pick_post_def rng(1))
        from well_locked_supports [OF this(1) vni valid this(2)] obtain ipl where
          st: "locks (world st1) ns (meta_Name (ipl_meta ipl)) = Some ipl"
          and sup: "supports ipl subnet att (pl_addrU (la_lock la))"
            "pl_UID (la_lock la) = meta_UID (ipl_meta ipl)" "pl_VNI (la_lock la) = spec_VNI subnet"
          and ip: "la_ip la = Uint32ToIPv4 (pl_addrU (la_lock la))" by blast
        have held: "held_lock env locks ns name w0 (world st1) ipl" using st by (simp add: held_lock_def)
        have "updateNAStatus env ns name att [] (an_subnetRV an) (la_lock la) (la_ip la) st1 = Inr (e, st')"
          using rest ok by simp
        from upd [OF this [unfolded ip] held sup] log1 show ?thesis by simp
      qed
    qed
  qed
qed

end

lemma analyze_cases:
  assumes "analyzeAndRelease env ns name (Some att) st = Inr (an, st')"
  obtains (failed) "an_err an = None" "\<not> an_ok an" "st' = st"
  | (errs) "an_statusErrs an \<noteq> []" "st' = st" "an_lockForStatus an = zeroParsedLock"
      "an_lockInStatus an = zeroParsedLock" "an_err an = None" "an_ok an"
  | (locks) subnet ip net base lst rv where
      "subnet_Lister (env_listers env) ns (Subnet_name (att_Spec att)) = Inr subnet"
      "ParseCIDR (spec_IPv4 subnet) = Inr (ip, net)" "IPNetToBoundsU net = Inr (base, lst)"
      "analyze_locks env ns name (Some att) (Subnet_name (att_Spec att)) rv (spec_VNI subnet) base lst st =
         Inr (an, st')"
  using assms
  by (auto simp: analyzeAndRelease_def analysis0_def Let_def split: sum.splits if_splits prod.splits)

context ipam_server
begin

lemma assign_errs_log:
  assumes "assign_address fuel env ns name att an st = Some (Inr (e, st'))" "env_api env = api"
    and "an_statusErrs an \<noteq> []" "an_lockForStatus an = zeroParsedLock" "an_lockInStatus an = zeroParsedLock"
  shows "\<exists>us. log (world st') = log (world st) @ map EvUpdate us \<and>
    (\<forall>u\<in>set us. supported_update env locks ns name att w0 (world st') u)"
proof -
  have "updateNAStatus env ns name att (an_statusErrs an) (an_subnetRV an) zeroParsedLock [] st = Inr (e, st')"
    using assms by (simp add: assign_address_def zeroParsedLock_def)
  from updateNAStatus_log [OF this assms(2)] updateNAStatus_sent [OF this refl] status_update_errs [OF assms(3)]
  show ?thesis unfolding supported_update_def
    by (intro exI [of _ "[status_update att (an_statusErrs an) zeroParsedLock []]"]) auto
qed

text \<open>All of it: the events that processing one attachment adds to the log.\<close>

lemma process_found_log:
  assumes api: "env_api env = api" and env: "env_ok nodes invar env" and cache: "cache_ok nodes invar st"
    and np: "no_permanent_errors api"
    and valid: "\<And>subnet. subnet_Lister (env_listers env) ns (Subnet_name (att_Spec att)) = Inr subnet \<Longrightarrow>
      valid_v4_subnet subnet"
    and run: "process_found fuel env ns name (Some att) st = Some (Inr (e, st'))"
  shows "\<exists>ds us. log (world st') = log (world st) @ map del_event ds @ map EvUpdate us \<and>
    (\<forall>l\<in>set ds. \<exists>ipl. known_lock env ns name (world st) ipl \<and> lock_of l ipl \<and> \<not> other_edition (Some att) ipl) \<and>
    (\<forall>u\<in>set us. supported_update env locks ns name att (world st) (world st') u)"
proof -
  obtain nadat st1 where g: "getNetworkAttachmentData st ns name True = (nadat, st1)" by fastforce
  then have st1: "world st1 = world st" "cache_ok nodes invar st1" using cache
    by (auto simp: getNetworkAttachmentData_def split: option.splits)
  from run g obtain an st2 where an: "analyzeAndRelease env ns name (Some att) st1 = Inr (an, st2)"
    by (auto simp: process_found_def split: sum.splits)
  have cache2: "cache_ok nodes invar st2"
    using analyzeAndRelease_frame [OF an] st1(2) cache_ok_cong by metis
  have rest: "(an_err an \<noteq> None \<or> \<not> an_ok an) \<and> st' = st2 \<or>
      an_err an = None \<and> an_ok an \<and> assign_address fuel env ns name att an st2 = Some (Inr (e, st'))"
    using run g an by (auto simp: process_found_def split: if_splits)
  from an show ?thesis
  proof (cases rule: analyze_cases)
    case failed
    then show ?thesis using rest st1 by (intro exI [of _ "[]"]) simp
  next
    case errs
    then have "assign_address fuel env ns name att an st2 = Some (Inr (e, st'))" using rest by simp
    from assign_errs_log [OF this api errs(1,3,4)] errs(2) st1 show ?thesis
      by - (rule exI [of _ "[]"], simp)
  next
    case (locks subnet ip net base lst rv)
    note valid' = valid [OF locks(1)]
    show ?thesis
    proof (cases "an_err an \<noteq> None \<or> an_ok an")
      case False
      then have "world st2 = world st1"
        using locks(4) by (auto simp: analyze_locks_def analysis0_def Let_def split: sum.splits prod.splits option.splits)
      then show ?thesis using rest False st1 by (intro exI [of _ "[]"]) simp
    next
      case True
      from analyze_locks_ok [OF locks(4) api True] obtain ls ds where
        log2: "log (world st2) = log (world st) @ map del_event ds"
        and post: "analysis_post {ipl. known_lock env ns name (world st) ipl} (Some att) (spec_VNI subnet)
          base lst ls ds an" using st1 by auto
      then have s: "sets_ok (Some att) (spec_VNI subnet) base lst {ipl. known_lock env ns name (world st) ipl} ls"
        and ds: "set ds \<subseteq> set (undesiredLocks ls) \<union> set (snd (choose_locks (Some att) ls))"
        and an': "an_statusErrs an = []" "an_VNI an = spec_VNI subnet" "an_baseU an = base" "an_lastU an = lst"
        by (simp_all add: analysis_post_def)
      have "set ds \<subseteq> set (undesiredLocks ls) \<union> set (usableLocks ls)"
        using ds choose_locks_ok(1) [OF prod.collapse [symmetric] s] by blast
      then have own: "\<forall>l\<in>set ds. \<exists>ipl. known_lock env ns name (world st) ipl \<and> lock_of l ipl \<and> \<not> other_edition (Some att) ipl"
        using sets_ok_owned [OF s] by blast
      have rng: "subnet_range subnet = {an_baseU an..an_lastU an}" "an_baseU an \<le> an_lastU an"
        using bounds_subnet_range [OF locks(2,3)] v4_bounds [OF valid' locks(2,3)] an' by simp_all
      show ?thesis
      proof (cases "an_err an = None \<and> an_ok an")
        case False
        then show ?thesis using rest log2 own by (intro exI [of _ ds] exI [of _ "[]"]) auto
      next
        case True
        then have "assign_address fuel env ns name att an st2 = Some (Inr (e, st'))" using rest by simp
        from assign_address_log [OF api env cache2 np valid' locks(1) rng an'(2,1)
            chosen_supports [OF post _ refl bounds_subnet_range [OF locks(2,3)]] this] log2 own
        show ?thesis by fastforce
      qed
    qed
  qed
qed

end

end
