(* ===== verification/IPAM_Store.thy ===== *)
theory IPAM_Store
  imports IPAM_Status
begin

text \<open>
  A server that keeps the contract of the API server: lock objects by namespace and name, UIDs
  from a counter, deletion with a UID precondition, and an audit log.
\<close>

record store_world =
  sw_locks :: "string \<Rightarrow> string \<Rightarrow> IPLock option"
  sw_log :: "api_event list"
  sw_next :: nat

definition store0 :: store_world where
  "store0 = \<lparr>sw_locks = (\<lambda>_ _. None), sw_log = [], sw_next = 1\<rparr>"

definition api_err :: "api_reason \<Rightarrow> string \<Rightarrow> api_error" where
  "api_err r t = \<lparr>ae_reason = r, ae_text = t\<rparr>"

definition store_put :: "store_world \<Rightarrow> string \<Rightarrow> string \<Rightarrow> IPLock option \<Rightarrow> store_world" where
  "store_put w ns name v = w\<lparr>sw_locks := (sw_locks w)(ns := (sw_locks w ns)(name := v))\<rparr>"

definition stored_lock :: "store_world \<Rightarrow> string \<Rightarrow> IPLock \<Rightarrow> IPLock" where
  "stored_lock w ns ipl = ipl\<lparr>ipl_meta := (ipl_meta ipl)\<lparr>meta_Namespace := ns,
     meta_UID := ''lock-'' @ format_uint 10 (sw_next w), meta_CreationTimestamp := int (sw_next w)\<rparr>\<rparr>"

definition store_api :: "store_world ipam_api" where
  "store_api = \<lparr>
     lock_Get = (\<lambda>w ns name.
       case sw_locks w ns name of
         Some ipl \<Rightarrow>
           if meta_Name (ipl_meta ipl) = name \<and> meta_Namespace (ipl_meta ipl) = ns then (Inr ipl, w)
           else (Inl (api_err ReasonOther ''corrupt''), w)
       | None \<Rightarrow> (Inl (api_err ReasonNotFound ''not found''), w)),
     lock_Create = (\<lambda>w ns ipl.
       let name = meta_Name (ipl_meta ipl) in
       case sw_locks w ns name of
         Some _ \<Rightarrow> (Inl (api_err ReasonAlreadyExists ''already exists''), w)
       | None \<Rightarrow>
           (let ipl2 = stored_lock w ns ipl in
            (Inr ipl2, (store_put w ns name (Some ipl2))\<lparr>sw_next := Suc (sw_next w)\<rparr>))),
     lock_Delete = (\<lambda>w ns name uid.
       let w1 = w\<lparr>sw_log := sw_log w @ [EvDelete ns name uid]\<rparr> in
       case sw_locks w ns name of
         None \<Rightarrow> (Some (api_err ReasonNotFound ''not found''), w1)
       | Some ipl \<Rightarrow>
           if meta_UID (ipl_meta ipl) \<noteq> uid then (Some (api_err ReasonOther ''conflict''), w1)
           else (None, store_put w1 ns name None)),
     att_Update = (\<lambda>w ns a.
       (Inr (a\<lparr>att_meta := (att_meta a)\<lparr>meta_ResourceVersion := format_uint 10 (sw_next w)\<rparr>\<rparr>),
        w\<lparr>sw_log := sw_log w @ [EvUpdate a], sw_next := Suc (sw_next w)\<rparr>))\<rparr>"

interpretation store: ipam_server store_api sw_locks sw_log
proof
  fix w w' ns ipl ipl2
  assume "lock_Create store_api w ns ipl = (Inr ipl2, w')"
  then show "sw_locks w' ns (meta_Name (ipl_meta ipl)) = Some ipl2 \<and>
      meta_OwnerReferences (ipl_meta ipl2) = meta_OwnerReferences (ipl_meta ipl) \<and>
      meta_Name (ipl_meta ipl2) = meta_Name (ipl_meta ipl) \<and> meta_Namespace (ipl_meta ipl2) = ns"
    by (auto simp: store_api_def Let_def store_put_def stored_lock_def split: option.splits)
qed (auto simp: store_api_def Let_def store_put_def split: option.splits if_splits)

interpretation store: exclusive_server store_api sw_locks
  by unfold_locales (auto simp: store_api_def Let_def store_put_def split: option.splits if_splits)

lemma store_no_permanent: "no_permanent_errors store_api"
  by (auto simp: no_permanent_errors_def store_api_def Let_def permanent_error_def api_err_def
      ToLower_def split: option.splits)

section \<open>Sample objects\<close>

definition sample_meta :: "string \<Rightarrow> string \<Rightarrow> string \<Rightarrow> OwnerReference list \<Rightarrow> ObjectMeta" where
  "sample_meta ns name uid owners = \<lparr>meta_Name = name, meta_Namespace = ns, meta_UID = uid,
     meta_ResourceVersion = ''1'', meta_CreationTimestamp = 0, meta_OwnerReferences = owners\<rparr>"

definition sample_att :: "string \<Rightarrow> string \<Rightarrow> string \<Rightarrow> string \<Rightarrow> NetworkAttachment" where
  "sample_att ns name uid subnet =
     \<lparr>att_meta = sample_meta ns name uid [],
      att_Spec = \<lparr>Node = ''n1'', Subnet_name = subnet, PostCreateExec = [], PostDeleteExec = []\<rparr>,
      att_Status = \<lparr>Errors = \<lparr>IPAM_errs = [], Host_errs = []\<rparr>, LockUID = [], AddressVNI = 0, Status_IPv4 = [],
        MACAddress = [], IfcName = [], HostIP = [], PostCreateExecReport = None\<rparr>\<rparr>"

definition sample_sn :: "string \<Rightarrow> string \<Rightarrow> uint32 \<Rightarrow> Subnet" where
  "sample_sn ns cidr vni = \<lparr>sn_meta = sample_meta ns ''s'' ''us'' [],
     sn_Spec = \<lparr>sn_IPv4 = cidr, sn_VNI = vni\<rparr>, sn_Errors = []\<rparr>"

definition sample_listers :: "(string \<Rightarrow> string \<Rightarrow> NetworkAttachment option) \<Rightarrow> Subnet \<Rightarrow> IPLock list \<Rightarrow> ipam_listers" where
  "sample_listers f subnet ipls =
     \<lparr>att_Lister = (\<lambda>ns name. case f ns name of
        None \<Rightarrow> Inl (api_err ReasonNotFound ''not found'') | Some a \<Rightarrow> Inr a),
      subnet_Lister = (\<lambda>ns name. Inr subnet),
      lock_ByOwner = (\<lambda>name. Inr (filter (\<lambda>ipl. name \<in> set (OwningAttachments (ipl_meta ipl))) ipls)),
      att_BySubnet = (\<lambda>_. Inr [])\<rparr>"

definition sample_env :: "store_world ipam_api \<Rightarrow> ipam_listers \<Rightarrow> (store_world, ss_node list) ipam_env" where
  "sample_env api lsts = \<lparr>env_ss = list_ops, env_intn = (\<lambda>_. 0), env_int63n = (\<lambda>n. n - 1),
     env_api = api, env_listers = lsts\<rparr>"

lemma sample_env_ok: "env_ok (\<lambda>ns. ns) (\<lambda>_. True) (sample_env api lsts)"
  using list_rss.random_sorted_set_axioms by (simp add: env_ok_def sample_env_def)

end
