(* ===== verification/IPAM_Total.thy ===== *)
theory IPAM_Total
  imports IPAM_Store
begin

text \<open>
  Two more groups of facts on the IPAM controller: processing an attachment returns, without a
  panic, unless the server keeps saying of one object that it exists and that it does not; and the lock that holds the address in
  an attachment's status is not among the locks that are released.
\<close>

section \<open>Processing returns\<close>

text \<open>
  The retry loop goes round once more each time the server says of the object that it exists,
  when it is to be created, and then that there is none, when it is to be fetched. The loop
  returns within its fuel exactly if the server does not do so that often in a row.
\<close>

fun flaps :: "nat \<Rightarrow> 'w ipam_api \<Rightarrow> string \<Rightarrow> string \<Rightarrow> IPLock \<Rightarrow> 'w \<Rightarrow> bool" where
  "flaps 0 api ns lockName ipl w = True"
| "flaps (Suc k) api ns lockName ipl w =
     (case lock_Create api w ns ipl of
        (Inr _, _) \<Rightarrow> False
      | (Inl e, w1) \<Rightarrow> ae_reason e = ReasonAlreadyExists \<and>
          (case lock_Get api w1 ns lockName of
             (Inr _, _) \<Rightarrow> False
           | (Inl e2, w2) \<Rightarrow> ae_reason e2 = ReasonNotFound \<and> flaps k api ns lockName ipl w2))"

lemma create_loop_None: "create_loop k api ns name attUID lockName ipl w = None \<longleftrightarrow> flaps k api ns lockName ipl w"
  by (induction k arbitrary: w) (auto split: prod.splits sum.splits)

lemma create_loop_more:
  "create_loop k api ns name attUID lockName ipl w = Some r \<Longrightarrow> k \<le> fuel \<Longrightarrow>
   create_loop fuel api ns name attUID lockName ipl w = Some r"
proof (induction k arbitrary: w fuel)
  case (Suc k)
  from Suc.prems(2) obtain f where "fuel = Suc f" "k \<le> f" by (cases fuel) simp_all
  then show ?case using Suc by (auto split: prod.splits sum.splits if_splits)
qed simp

text \<open>The server stops within \<open>k\<close> rounds, whatever state it is in and whatever the object.\<close>

definition settles :: "nat \<Rightarrow> 'w ipam_api \<Rightarrow> string \<Rightarrow> bool" where
  "settles k api ns \<longleftrightarrow> (\<forall>w ipl. \<not> flaps k api ns (meta_Name (ipl_meta ipl)) ipl w)"

lemma settles_loop:
  assumes "settles k api ns"
  shows "\<exists>r. \<forall>fuel\<ge>k. create_loop fuel api ns name attUID (meta_Name (ipl_meta ipl)) ipl w = Some r"
proof -
  have "create_loop k api ns name attUID (meta_Name (ipl_meta ipl)) ipl w \<noteq> None"
    using assms unfolding create_loop_None settles_def by blast
  then obtain r where "create_loop k api ns name attUID (meta_Name (ipl_meta ipl)) ipl w = Some r" by blast
  from create_loop_more [OF this] show ?thesis by blast
qed

definition v4_or_none :: "string \<Rightarrow> bool" where
  "v4_or_none s \<longleftrightarrow> ParseIP s = [] \<or> To4 (ParseIP s) \<noteq> []"

lemma To4_cases: "To4 ip \<noteq> [] \<Longrightarrow> \<exists>a b c d. To4 ip = [a, b, c, d]"
  using length_To4 [of ip] by (auto simp: length_Suc_conv numeral_eq_Suc)

lemma IPv4ToUint32_total: "To4 ip \<noteq> [] \<Longrightarrow> \<exists>u. IPv4ToUint32 ip = Inr u"
  using To4_cases [of ip] by (auto simp: IPv4ToUint32_def be_uint32_or simp del: be_uint32.simps)

lemma makeIPLockName2_total: "To4 ip \<noteq> [] \<Longrightarrow> \<exists>name. makeIPLockName2 vni ip = Inr name"
  using To4_cases [of ip] by (auto simp: makeIPLockName2_def)

lemma valid_bounds_total:
  assumes "valid_v4_subnet s"
  shows "\<exists>ip net b l. ParseCIDR (spec_IPv4 s) = Inr (ip, net) \<and> IPNetToBoundsU net = Inr (b, l)"
proof -
  from assms obtain a b c d n where n: "n \<le> 32"
    and s: "spec_IPv4 s = v4_String [a, b, c, d] @ ''/'' @ format_uint 10 n"
    unfolding valid_v4_subnet_def by blast
  from CIDRMask_32 [OF n] obtain m1 m2 m3 m4 where m: "CIDRMask n 32 = [m1, m2, m3, m4]" by blast
  show ?thesis unfolding s ParseCIDR_v4 [OF n]
    by (auto simp: m ip_Mask_v4 IPNetToBoundsU_def IPv4ToUint32_def be_uint32_or Let_def
        simp del: be_uint32.simps split: prod.split)
qed

lemma consider_status_total:
  assumes "case att of None \<Rightarrow> True | Some a \<Rightarrow> v4_or_none (Status_IPv4 (att_Status a))"
  shows "\<exists>ls' st'. consider_status env ns name att vni base lst ls st = Inr (ls', st')"
proof (cases att)
  case (Some a)
  let ?ip = "ParseIP (Status_IPv4 (att_Status a))"
  show ?thesis
  proof (cases "?ip = []")
    case False
    with assms Some have "To4 ?ip \<noteq> []" by (simp add: v4_or_none_def)
    with IPv4ToUint32_total makeIPLockName2_total [of ?ip vni] obtain u nm where
      "IPv4ToUint32 ?ip = Inr u" "makeIPLockName2 vni ?ip = Inr nm" by blast
    then show ?thesis using Some
      by (auto simp: consider_status_def Let_def split: prod.splits sum.splits)
  qed (simp add: consider_status_def Some)
qed (simp add: consider_status_def)

lemma analyze_locks_total:
  assumes "case att of None \<Rightarrow> True | Some a \<Rightarrow> v4_or_none (Status_IPv4 (att_Status a))"
  shows "\<exists>an st'. analyze_locks env ns name att sn rv vni base lst st = Inr (an, st') \<and>
    (atts st (nsn ns name) \<noteq> None \<longrightarrow> atts st' (nsn ns name) \<noteq> None)"
proof (cases "lock_ByOwner (env_listers env) name")
  case (Inl e)
  then show ?thesis by (simp add: analyze_locks_def)
next
  case (Inr objs)
  from consider_status_total [OF assms] obtain ls st1 where
    cs: "consider_status env ns name att vni base lst (fold (consider_lock att vni base lst) objs no_locks) st = Inr (ls, st1)"
    by blast
  obtain keep rel where ch: "choose_locks att ls = (keep, rel)" by fastforce
  obtain e w where d: "delete_loop env (world st1) (fst (AddListFunc (undesiredLocks ls) rel)) = (e, w)" by fastforce
  have "atts (reset_anticipation ns name att rv st1) (nsn ns name) \<noteq> None"
    if "atts st (nsn ns name) \<noteq> None"
    using that consider_status_frame [OF cs] by (auto simp: reset_anticipation_def split: option.splits)
  then show ?thesis using Inr cs ch d by (cases e) (auto simp: analyze_locks_def Let_def)
qed

lemma pickAndLockAddress_total:
  assumes env: "env_ok nodes invar env" and cache: "cache_ok nodes invar st"
    and get: "settles k (env_api env) ns"
  shows "\<exists>r. \<forall>fuel\<ge>k. pickAndLockAddress fuel env ns name att sn vni base lst st = Some r"
proof -
  obtain mn mx where mm: "address_range base lst = (mn, mx)" by fastforce
  from PickAddress_ok [OF env cache, of vni mn mx] obtain u b st1 where
    pick: "PickAddress env st vni mn mx = Inr (u, b, st1)" by blast
  from makeIPLockName2_Uint32 obtain lockName where ln: "makeIPLockName2 vni (Uint32ToIPv4 u) = Inr lockName" by blast
  let ?ipl = "new_lock ns lockName name (meta_UID (att_meta att)) sn"
  from settles_loop [OF get, of name "meta_UID (att_meta att)" ?ipl "world st1"] obtain out w' where
    loop: "\<forall>fuel\<ge>k. create_loop fuel (env_api env) ns name (meta_UID (att_meta att)) lockName ?ipl (world st1) = Some (out, w')"
    by auto
  show ?thesis using pick mm ln loop
    by (cases b; cases out)
       (auto simp: pickAndLockAddress_def Let_def simp del: create_loop.simps split: sum.splits)
qed

lemma updateNAStatus_total:
  "atts st (nsn ns name) \<noteq> None \<Longrightarrow>
   \<exists>e st'. updateNAStatus env ns name att errs rv lock ip st = Inr (e, st')"
  by (auto simp: updateNAStatus_def Let_def split: prod.splits sum.splits)

lemma assign_address_total:
  assumes env: "env_ok nodes invar env" and cache: "cache_ok nodes invar st"
    and get: "settles k (env_api env) ns"
    and srv: "lock_server (env_api env) locks" and le: "an_baseU an \<le> an_lastU an" and dat: "atts st (nsn ns name) \<noteq> None"
  shows "\<exists>e st'. \<forall>fuel\<ge>k. assign_address fuel env ns name att an st = Some (Inr (e, st'))"
proof -
  from pickAndLockAddress_total [OF env cache get] obtain r where
    pick: "\<And>fuel. k \<le> fuel \<Longrightarrow>
      pickAndLockAddress fuel env ns name att (an_subnetName an) (an_VNI an) (an_baseU an) (an_lastU an) st = Some r"
    by blast
  from pickAndLockAddress_ok [OF env cache srv le pick [OF order.refl]] obtain la st1 where
    r: "r = Inr (la, st1)" and st1: "atts st1 = atts st" by (auto simp: pick_post_def)
  have "\<exists>e st'. assign_address k env ns name att an st = Some (Inr (e, st'))"
    using pick r st1 dat updateNAStatus_total [of st ns name env att] updateNAStatus_total [of st1 ns name env att]
    by (auto simp: assign_address_def Let_def split: option.splits)
  moreover have "assign_address fuel env ns name att an st = assign_address k env ns name att an st" if "k \<le> fuel" for fuel
    unfolding assign_address_def pick [OF that] pick [OF order.refl] ..
  ultimately show ?thesis by metis
qed

lemma process_found_total:
  assumes env: "env_ok nodes invar env" and cache: "cache_ok nodes invar st"
    and get: "settles k (env_api env) ns"
    and srv: "lock_server (env_api env) locks"
    and valid: "\<And>sn subnet. subnet_Lister (env_listers env) ns sn = Inr subnet \<Longrightarrow> valid_v4_subnet subnet"
    and v4: "case att of None \<Rightarrow> True | Some a \<Rightarrow> v4_or_none (Status_IPv4 (att_Status a))"
  shows "\<exists>e st'. \<forall>fuel\<ge>k. process_found fuel env ns name att st = Some (Inr (e, st'))"
proof -
  obtain nadat st1 where g: "getNetworkAttachmentData st ns name (att \<noteq> None) = (nadat, st1)" by fastforce
  then have st1: "cache_ok nodes invar st1" "att \<noteq> None \<Longrightarrow> atts st1 (nsn ns name) \<noteq> None" using cache
    by (auto simp: getNetworkAttachmentData_def dest: sym split: option.splits if_splits)
  show ?thesis
  proof (cases att)
    case None
    then have "\<exists>e st'. process_found k env ns name att st = Some (Inr (e, st'))"
      using g analyze_locks_total [OF v4, of env ns name "[]" "''.''" 0 0 0 st1]
      by (auto simp: process_found_def analyzeAndRelease_def)
    moreover have "process_found fuel env ns name att st = process_found k env ns name att st" for fuel
      by (simp add: process_found_def None split: prod.splits sum.splits)
    ultimately show ?thesis by metis
  next
    case (Some a)
    have "\<exists>an st2. analyzeAndRelease env ns name att st1 = Inr (an, st2) \<and>
        atts st2 (nsn ns name) \<noteq> None \<and> an_baseU an \<le> an_lastU an"
    proof (cases "subnet_Lister (env_listers env) ns (Subnet_name (att_Spec a))")
      case (Inl e)
      then show ?thesis using st1 Some by (cases "ae_reason e = ReasonNotFound") (auto simp: analyzeAndRelease_def analysis0_def Let_def)
    next
      case (Inr subnet)
      from valid_bounds_total [OF valid [OF Inr]] obtain ip net b l where
        b: "ParseCIDR (spec_IPv4 subnet) = Inr (ip, net)" "IPNetToBoundsU net = Inr (b, l)" by blast
      note le = v4_bounds [OF valid [OF Inr] b]
      let ?rv = "meta_ResourceVersion (sn_meta subnet)"
      from analyze_locks_total [OF v4, of env ns name "Subnet_name (att_Spec a)" ?rv "spec_VNI subnet" b l st1]
      obtain an st2 where an: "analyze_locks env ns name att (Subnet_name (att_Spec a)) ?rv (spec_VNI subnet) b l st1 =
          Inr (an, st2)" "atts st2 (nsn ns name) \<noteq> None" using st1 Some by auto
      then have "an_baseU an = b \<and> an_lastU an = l"
        by (auto simp: analyze_locks_def analysis0_def Let_def split: sum.splits prod.splits option.splits)
      then show ?thesis using Inr Some b an le by (auto simp: analyzeAndRelease_def Let_def)
    qed
    then obtain an st2 where an: "analyzeAndRelease env ns name att st1 = Inr (an, st2)"
      "atts st2 (nsn ns name) \<noteq> None" "an_baseU an \<le> an_lastU an" by blast
    have "cache_ok nodes invar st2" using analyzeAndRelease_frame [OF an(1)] st1(1) by (simp add: cache_ok_def)
    from assign_address_total [OF env this get srv an(3,2)] obtain e st' where
      "\<forall>fuel\<ge>k. assign_address fuel env ns name a an st2 = Some (Inr (e, st'))" by blast
    moreover have "process_found fuel env ns name att st =
        (if an_err an \<noteq> None \<or> \<not> an_ok an then Some (Inr (an_err an, st2))
         else assign_address fuel env ns name a an st2)" for fuel
      using g an(1) Some by (simp add: process_found_def)
    ultimately show ?thesis by (cases "an_err an \<noteq> None \<or> \<not> an_ok an") auto
  qed
qed

section \<open>The lock in the status is kept\<close>

text \<open>How considering a list of lock objects sorts them.\<close>

definition in_block :: "uint32 \<Rightarrow> uint32 \<Rightarrow> uint32 \<Rightarrow> ParsedLock \<Rightarrow> bool" where
  "in_block vni base lst l \<longleftrightarrow> pl_VNI l = vni \<and> base \<le> pl_addrU l \<and> pl_addrU l \<le> lst"

lemma consider_lock_cases:
  "consider_lock att vni base lst ipl ls =
     (case NewParsedLock ipl of
        Inl _ \<Rightarrow> ls
      | Inr l \<Rightarrow>
          let ls1 = ls\<lparr>considered := insert (pl_addrU l) (considered ls)\<rparr> in
          if other_edition att ipl then ls1\<lparr>timeSlippers := timeSlippers ls @ [l]\<rparr>
          else if \<not> in_block vni base lst l then ls1\<lparr>undesiredLocks := undesiredLocks ls @ [l]\<rparr>
          else ls1\<lparr>lockInStatus := (if is_in_status att l then l else lockInStatus ls),
                   usableLocks := usableLocks ls @ [l]\<rparr>)"
  by (auto simp: consider_lock_def in_block_def Let_def pl_Append_def not_le split: sum.split)

lemma fold_consider:
  "set (undesiredLocks (fold (consider_lock att vni base lst) ipls ls)) =
     set (undesiredLocks ls) \<union> {l. \<exists>ipl\<in>set ipls. lock_of l ipl \<and> \<not> other_edition att ipl \<and> \<not> in_block vni base lst l}"
  "set (usableLocks (fold (consider_lock att vni base lst) ipls ls)) =
     set (usableLocks ls) \<union> {l. \<exists>ipl\<in>set ipls. lock_of l ipl \<and> \<not> other_edition att ipl \<and> in_block vni base lst l}"
  "considered (fold (consider_lock att vni base lst) ipls ls) =
     considered ls \<union> {u. \<exists>l. \<exists>ipl\<in>set ipls. lock_of l ipl \<and> u = pl_addrU l}"
proof (induction ipls arbitrary: ls)
  case (Cons ipl ipls)
  {
    case 1
    show ?case using Cons(1) [of "consider_lock att vni base lst ipl ls"]
      by (auto simp: consider_lock_cases lock_of_def Let_def split: sum.splits)
  next
    case 2
    show ?case using Cons(2) [of "consider_lock att vni base lst ipl ls"]
      by (auto simp: consider_lock_cases lock_of_def Let_def split: sum.splits)
  next
    case 3
    show ?case using Cons(3) [of "consider_lock att vni base lst ipl ls"]
      by (auto simp: consider_lock_cases lock_of_def Let_def split: sum.splits)
  }
qed simp_all

lemma fold_consider_status:
  assumes "ipl \<in> set ipls" "lock_of l ipl" "\<not> other_edition att ipl" "in_block vni base lst l" "is_in_status att l"
    and "\<And>ipl' l'. ipl' \<in> set ipls \<Longrightarrow> lock_of l' ipl' \<Longrightarrow> is_in_status att l' \<Longrightarrow> l' = l"
  shows "lockInStatus (fold (consider_lock att vni base lst) ipls ls) = l"
  using assms(1,6)
proof (induction ipls arbitrary: ls rule: rev_induct)
  case (snoc x xs)
  let ?f = "fold (consider_lock att vni base lst) xs ls"
  have step: "lockInStatus (consider_lock att vni base lst x ?f) = l \<or>
      lockInStatus (consider_lock att vni base lst x ?f) = lockInStatus ?f \<and> x \<noteq> ipl"
    using snoc.prems(2) [of x] assms(2-5)
    by (auto simp: consider_lock_cases lock_of_def Let_def split: sum.splits)
  moreover have "lockInStatus ?f = l" if "ipl \<in> set xs"
    by (rule snoc.IH) (use that snoc.prems(2) in auto)
  ultimately show ?case using snoc.prems(1) by auto
qed simp

lemma no_locks_simps [simp]: "usableLocks no_locks = []" "undesiredLocks no_locks = []" "considered no_locks = {}"
  by (simp_all add: no_locks_def)

lemma fold_consider_distinct:
  assumes "distinct ipls" "inj_on (\<lambda>ipl. meta_UID (ipl_meta ipl)) (set ipls)"
  shows "distinct (usableLocks (fold (consider_lock att vni base lst) ipls no_locks))"
  using assms
proof (induction ipls rule: rev_induct)
  case (snoc x xs)
  define F where "F = fold (consider_lock att vni base lst) xs no_locks"
  have new: "l \<notin> set (usableLocks F)" if "lock_of l x" for l
    using that snoc.prems by (auto simp: F_def fold_consider(2) inj_on_def dest!: lock_ofD)
  have "distinct (usableLocks F)" using snoc by (simp add: F_def inj_on_def)
  then show ?case using new
    by (simp add: F_def [symmetric] consider_lock_cases [of att vni base lst x F] lock_of_def Let_def
        split: sum.splits)
qed simp

text \<open>
  When the index has an object for the lock that the status names, on the address of the status,
  no lock with that UID is released.
\<close>

lemma status_lock_kept:
  assumes "ipl \<in> set ipls" "lock_of l ipl" "\<not> other_edition att ipl" "in_block vni base lst l" "is_in_status att l"
    and uids: "distinct ipls" "inj_on (\<lambda>ipl. meta_UID (ipl_meta ipl)) (set ipls)"
    and ls: "ls = fold (consider_lock att vni base lst) ipls no_locks"
    and d: "d \<in> set (undesiredLocks ls) \<union> set (snd (choose_locks att ls))"
  shows "pl_UID d \<noteq> pl_UID l"
proof
  assume uid: "pl_UID d = pl_UID l"
  obtain a where att: "att = Some a" using assms(5) by (cases att) (auto simp: is_in_status_def)
  have uniq: "l' = l \<and> ipl' = ipl" if "ipl' \<in> set ipls" "lock_of l' ipl'" "pl_UID l' = pl_UID l" for l' ipl'
  proof -
    have "ipl' = ipl" using uids(2) that assms(1,2) lock_ofD by (auto simp: inj_on_def dest!: lock_ofD)
    then show ?thesis using that(2) assms(2) by (simp add: lock_of_def)
  qed
  have inst: "lockInStatus ls = l" unfolding ls
  proof (rule fold_consider_status [OF assms(1-5)])
    fix ipl' l' assume "ipl' \<in> set ipls" "lock_of l' ipl'" "is_in_status att l'"
    then show "l' = l" using uniq [of ipl' l'] assms(5) att by (simp add: is_in_status_def)
  qed
  have us: "set (usableLocks ls) = {l. \<exists>ipl\<in>set ipls. lock_of l ipl \<and> \<not> other_edition att ipl \<and> in_block vni base lst l}"
    unfolding ls by (simp add: fold_consider(2))
  have "pl_Obj l \<noteq> None" using lock_ofD [OF assms(2)] by simp
  then have ch: "snd (choose_locks att ls) = fst (RemFunc (usableLocks ls) l)"
    using inst att by (simp add: choose_locks_def)
  have "set (fst (RemFunc (usableLocks ls) l)) = set (usableLocks ls) - {l}"
  proof (rule RemFunc_gone)
    show "distinct (usableLocks ls)" unfolding ls using uids by (rule fold_consider_distinct)
    show "l \<in> set (usableLocks ls)" using us assms(1-4) by blast
    show "x = y" if "x \<in> set (usableLocks ls)" "y \<in> set (usableLocks ls)" "pl_Equal x y" for x y
      using that us uids(2) by (auto simp: pl_Equal_def inj_on_def lock_of_def dest!: lock_ofD) 
        (metis lock_ofD lock_of_def sum.inject(2))
  qed
  moreover have "d \<in> set (usableLocks ls) \<Longrightarrow> d = l" using us uniq uid by auto
  moreover have "d \<notin> set (undesiredLocks ls)" unfolding ls fold_consider(1)
    using uniq uid assms(4) by auto
  ultimately show False using d ch by auto
qed

context ipam_server
begin

lemma analyze_locks_keeps:
  assumes run: "analyze_locks env ns name (Some a) sn rv vni base lst st = Inr (an, st')" and api: "env_api env = api"
    and objs: "lock_ByOwner (env_listers env) name = Inr ipls"
    and l: "ipl \<in> set ipls" "lock_of l ipl" "\<not> other_edition (Some a) ipl" "in_block vni base lst l" "is_in_status (Some a) l"
    and uids: "distinct ipls" "inj_on (\<lambda>ipl. meta_UID (ipl_meta ipl)) (set ipls)"
  shows "\<exists>ds. log (world st') = log (world st) @ map del_event ds \<and> (\<forall>d\<in>set ds. pl_UID d \<noteq> pl_UID l) \<and>
    an_lockInStatus an = l"
proof -
  define ls where "ls = fold (consider_lock (Some a) vni base lst) ipls no_locks"
  have "ParseIP (Status_IPv4 (att_Status a)) = Uint32ToIPv4 (pl_addrU l)"
    using l(5) by (simp add: is_in_status_def GetIP_def)
  moreover have "pl_addrU l \<in> considered ls" unfolding ls_def using l(1,2) by (auto simp: fold_consider(3))
  ultimately have cs: "consider_status env ns name (Some a) vni base lst ls st = Inr (ls, st)"
    by (simp add: consider_status_def Let_def)
  obtain keep rel where ch: "choose_locks (Some a) ls = (keep, rel)" by fastforce
  obtain e w where d: "delete_loop env (world st) (fst (AddListFunc (undesiredLocks ls) rel)) = (e, w)" by fastforce
  from delete_loop_log [OF d api] obtain ds where ds: "log w = log (world st) @ map del_event ds"
    "set ds \<subseteq> set (fst (AddListFunc (undesiredLocks ls) rel))" by blast
  have inst: "lockInStatus ls = l" unfolding ls_def
  proof (rule fold_consider_status [OF l])
    fix ipl' l' assume "ipl' \<in> set ipls" "lock_of l' ipl'" "is_in_status (Some a) l'"
    then have "ipl' = ipl" using uids(2) l(1,2,5)
      by (auto simp: is_in_status_def inj_on_def dest!: lock_ofD)
    then show "l' = l" using \<open>lock_of l' ipl'\<close> l(2) by (simp add: lock_of_def)
  qed
  have "\<forall>d\<in>set ds. pl_UID d \<noteq> pl_UID l"
    using status_lock_kept [OF l uids ls_def] ds(2) AddListFunc_set(1) [of "undesiredLocks ls" rel] ch by fastforce
  moreover have "log (world st') = log w" "an_lockInStatus an = l"
    using run objs cs ch d inst by (auto simp: analyze_locks_def ls_def [symmetric] Let_def split: option.splits)
  ultimately show ?thesis using ds(1) by auto
qed

end

section \<open>Refused locks and namesakes\<close>

text \<open>When the server refuses every lock as invalid, an address is reported without a lock.\<close>

lemma pick_refused:
  assumes env: "env_ok nodes invar env" and cache: "cache_ok nodes invar st"
    and bad: "\<And>w ns ipl. \<exists>e w'. lock_Create (env_api env) w ns ipl = (Inl e, w') \<and> ae_reason e = ReasonInvalid"
    and free: "\<not> {fst (address_range base lst)..snd (address_range base lst)} \<subseteq> taken nodes st vni"
  shows "\<exists>la st'. pickAndLockAddress (Suc fuel) env ns name att sn vni base lst st = Some (Inr (la, st')) \<and>
    la_err la = None \<and> pl_UID (la_lock la) = [] \<and> la_ip la = Uint32ToIPv4 (pl_addrU (la_lock la)) \<and>
    taken nodes st' = taken nodes st \<and> cache_ok nodes invar st' \<and> atts st' = atts st"
proof -
  obtain mn mx where mm: "address_range base lst = (mn, mx)" by fastforce
  from PickAddress_ok [OF env cache, of vni mn mx] free mm obtain u st1 where
    pick: "PickAddress env st vni mn mx = Inr (u, True, st1)" "cache_ok nodes invar st1" "atts st1 = atts st"
    "u \<in> {mn..mx} - taken nodes st vni" "taken nodes st1 = (taken nodes st)(vni := insert u (taken nodes st vni))"
    by auto
  from makeIPLockName2_Uint32 obtain lockName where ln: "makeIPLockName2 vni (Uint32ToIPv4 u) = Inr lockName" by blast
  from bad obtain e w where c: "lock_Create (env_api env) (world st1) ns
      (new_lock ns lockName name (meta_UID (att_meta att)) sn) = (Inl e, w)" "ae_reason e = ReasonInvalid" by blast
  have "cache_ok nodes invar (st1\<lparr>world := w\<rparr>)" using pick(2) by simp
  from ReleaseAddress_ok [OF env this, of vni u] obtain st2 where
    rel: "ReleaseAddress env (st1\<lparr>world := w\<rparr>) vni u = Inr (u \<in> taken nodes st1 vni, st2)"
      "cache_ok nodes invar st2" "atts st2 = atts st1"
      "taken nodes st2 = (taken nodes st1)(vni := taken nodes st1 vni - {u})" by auto
  have "taken nodes st2 = taken nodes st" using rel(4) pick(4,5) by (simp add: fun_upd_idem_iff)
  then show ?thesis using pick mm ln c rel
    by (simp add: pickAndLockAddress_def Let_def permanent_error_def)
qed

end
