(* ===== verification/IPAM_Props.thy ===== *)
theory IPAM_Props
  imports IPAM_Total
begin

text \<open>
  The properties of the IPAM controller, over every API server that keeps its contract and every
  implementation of the sorted set library, with a run on \<open>store_api\<close> as witness; and the
  places where the controller does less than its comments say.
\<close>

definition a0 :: NetworkAttachment where "a0 = sample_att ''ns'' ''a'' ''uid-a'' ''s''"

definition sn0 :: Subnet where "sn0 = sample_sn ''ns'' ''10.0.0.0/29'' 5"

definition env0 :: "(store_world, ss_node list) ipam_env" where
  "env0 = sample_env store_api
     (sample_listers (\<lambda>ns name. if ns = ''ns'' \<and> name = ''a'' then Some a0 else None) sn0 [])"

lemma env0_simps [simp]: "env_api env0 = store_api" "env_ok (\<lambda>ns. ns) (\<lambda>_. True) env0"
  using sample_env_ok by (simp_all add: env0_def) (simp add: sample_env_def)

fun ev_address :: "api_event \<Rightarrow> string option" where
  "ev_address (EvUpdate u) = Some (Status_IPv4 (att_Status u))"
| "ev_address (EvDelete ns name uid) = None"

lemma ev_address_Some: "ev_address ev = Some a \<longleftrightarrow> (\<exists>u. ev = EvUpdate u \<and> Status_IPv4 (att_Status u) = a)"
  by (cases ev) auto

fun got_lock :: "(ipam_panic, locked_address \<times> ('w, 'ss) IPAMController) result option \<Rightarrow> bool" where
  "got_lock (Some (Inr (la, st))) \<longleftrightarrow> la_err la = None \<and> pl_Obj (la_lock la) \<noteq> None"
| "got_lock _ \<longleftrightarrow> False"

lemma got_lockE:
  assumes "got_lock r"
  obtains la st where "r = Some (Inr (la, st))" "la_err la = None" "pl_Obj (la_lock la) \<noteq> None"
  using assms by (cases r rule: got_lock.cases) auto

lemma sn0_valid: "valid_v4_subnet sn0"
proof -
  have "spec_IPv4 sn0 = v4_String [10, 0, 0, 0] @ ''/'' @ format_uint 10 29" by code_simp
  then show ?thesis unfolding valid_v4_subnet_def
    by (intro conjI exI [of _ 10] exI [of _ 0] exI [of _ 29]) (simp_all add: sn0_def sample_sn_def maxVNI_def)
qed

text \<open>
  C1: every status that processing an attachment writes is supported: either it has no address
  and says why, or its address is the one in the name of a lock object that belongs to this
  edition of the attachment, has the VNI of the attachment's subnet and is in the range of that
  subnet, and the status names that lock's UID. That lock object is one that the index has for
  the attachment, or that the server returned when the processing began, or that is stored at the
  server when the update arrives there. Every lock that is deleted on the way is a lock that the
  index or the server had when the processing began, and belongs to this edition of the
  attachment. This needs valid IPv4 subnets, and a server that never refuses a lock as invalid:
  C34 shows what happens otherwise.
\<close>

theorem statuses_supported:
  assumes "ipam_server (env_api env) locks log" "env_ok nodes invar env" "cache_ok nodes invar st"
    and "no_permanent_errors (env_api env)"
    and "\<And>subnet. subnet_Lister (env_listers env) ns (Subnet_name (att_Spec att)) = Inr subnet \<Longrightarrow>
      valid_v4_subnet subnet"
    and "att_Lister (env_listers env) ns name = Inr att"
    and "processNetworkAttachment fuel env ns name st = Some (Inr (e, st'))"
  shows "\<exists>ds us. log (world st') = log (world st) @ map del_event ds @ map EvUpdate us \<and>
    (\<forall>l\<in>set ds. \<exists>ipl. known_lock env ns name (world st) ipl \<and> NewParsedLock ipl = Inr l \<and>
       snd (GetOwner (ipl_meta ipl) ''NetworkAttachment'') = meta_UID (att_meta att)) \<and>
    (\<forall>u\<in>set us. \<exists>w r. att_Update (env_api env) w ns u = (r, world st') \<and>
       status_supported (\<lambda>ipl. known_lock env ns name (world st) ipl \<or>
           locks w ns (meta_Name (ipl_meta ipl)) = Some ipl)
         (env_listers env) ns att (att_Status u))"
proof -
  have "process_found fuel env ns name (Some att) st = Some (Inr (e, st'))"
    using assms(6,7) by (simp add: processNetworkAttachment_def)
  from ipam_server.process_found_log [OF assms(1) refl assms(2-5) this] show ?thesis
    unfolding supported_update_def held_lock_def [abs_def] lock_of_def by (simp add: other_edition_def)
qed

lemma store0_log: "sw_log store0 = []"
  by (simp add: store0_def)

text \<open>An update at the store changes no lock: there the locks of the theorem are those stored afterwards.\<close>

lemma store_update_locks: "att_Update store_api w ns u = (r, w') \<Longrightarrow> sw_locks w = sw_locks w'"
  by (auto simp: store_api_def)

theorem statuses_supported_witness:
  "\<exists>st' u. processNetworkAttachment 1 env0 ''ns'' ''a'' (NewIPAMController store0) = Some (Inr (None, st')) \<and>
    sw_log (world st') = [EvUpdate u] \<and> Status_IPv4 (att_Status u) = ''10.0.0.6'' \<and>
    status_supported (\<lambda>ipl. sw_locks (world st') ''ns'' (meta_Name (ipl_meta ipl)) = Some ipl)
      (env_listers env0) ''ns'' a0 (att_Status u)"
proof -
  have lst: "att_Lister (env_listers env0) ''ns'' ''a'' = Inr a0"
    "subnet_Lister (env_listers env0) ''ns'' x = Inr sn0" for x
    by (simp_all add: env0_def sample_env_def sample_listers_def)
  have "(case processNetworkAttachment 1 env0 ''ns'' ''a'' (NewIPAMController store0) of
      Some (Inr (None, st')) \<Rightarrow>
        map ev_address (sw_log (world st')) = [Some ''10.0.0.6'']
    | _ \<Rightarrow> False)" by code_simp
  then obtain st' u where run: "processNetworkAttachment 1 env0 ''ns'' ''a'' (NewIPAMController store0) =
      Some (Inr (None, st'))" "sw_log (world st') = [EvUpdate u]" "Status_IPv4 (att_Status u) = ''10.0.0.6''"
    by (auto simp: ev_address_Some split: option.splits sum.splits prod.splits)
  have srv: "ipam_server (env_api env0) sw_locks sw_log" using store.ipam_server_axioms by simp
  have np: "no_permanent_errors (env_api env0)" using store_no_permanent by simp
  have v: "valid_v4_subnet s" if "subnet_Lister (env_listers env0) ''ns'' (Subnet_name (att_Spec a0)) = Inr s" for s
    using that lst(2) sn0_valid by simp
  have w0: "world (NewIPAMController store0) = store0" by (simp add: NewIPAMController_def)
  from statuses_supported [OF srv env0_simps(2) cache_ok_New np v lst(1) run(1), unfolded w0 store0_log]
  obtain ds us where us: "sw_log (world st') = [] @ map del_event ds @ map EvUpdate us"
    "\<forall>u\<in>set us. \<exists>w r. att_Update (env_api env0) w ''ns'' u = (r, world st') \<and>
      status_supported (\<lambda>ipl. known_lock env0 ''ns'' ''a'' store0 ipl \<or>
        sw_locks w ''ns'' (meta_Name (ipl_meta ipl)) = Some ipl) (env_listers env0) ''ns'' a0 (att_Status u)"
    by blast
  have "\<not> known_lock env0 ''ns'' ''a'' store0 ipl" for ipl
    by (simp add: known_lock_def env0_def sample_env_def sample_listers_def store_api_def store0_def)
  moreover have "u \<in> set us" using run(2) us(1) by (cases ds) (auto simp: Cons_eq_map_conv)
  ultimately obtain w r where w: "att_Update (env_api env0) w ''ns'' u = (r, world st')"
    "status_supported (\<lambda>ipl. sw_locks w ''ns'' (meta_Name (ipl_meta ipl)) = Some ipl)
      (env_listers env0) ''ns'' a0 (att_Status u)" using us(2) by auto
  then have "sw_locks w = sw_locks (world st')" using store_update_locks by simp
  with run w(2) show ?thesis by auto
qed

text \<open>
  C16: picking and locking an address never panics. When it reports no error and got a lock, the
  address is in the range of the subnet, was not taken before and is taken now, and the lock it
  returns is the one the server stores: it carries the object that is stored in the attachment's
  namespace under the name that encodes the VNI and the address, with that object's UID and with
  the attachment as its owner.
\<close>

theorem pick_locks_free_address:
  assumes "env_ok nodes invar env" "cache_ok nodes invar st" "lock_server (env_api env) locks" "base \<le> lst"
    and "pickAndLockAddress fuel env ns name att subnetName vni base lst st = Some r"
  shows "\<exists>la st'. r = Inr (la, st') \<and> cache_ok nodes invar st' \<and>
    (la_err la = None \<and> pl_Obj (la_lock la) \<noteq> None \<longrightarrow>
       pl_addrU (la_lock la) \<in> {base..lst} - taken nodes st vni \<and>
       taken nodes st' = (taken nodes st)(vni := insert (pl_addrU (la_lock la)) (taken nodes st vni)) \<and>
       la_ip la = Uint32ToIPv4 (pl_addrU (la_lock la)) \<and>
       (\<exists>obj. locks (world st') ns (pl_name (la_lock la)) = Some obj \<and>
          pl_Obj (la_lock la) = Some obj \<and> pl_UID (la_lock la) = meta_UID (ipl_meta obj) \<and>
          meta_Name (ipl_meta obj) = pl_name (la_lock la) \<and>
          pl_ns (la_lock la) = ns \<and> pl_VNI (la_lock la) = vni \<and>
          makeIPLockName2 vni (la_ip la) = Inr (pl_name (la_lock la)) \<and>
          GetOwner (ipl_meta obj) ''NetworkAttachment'' = (name, meta_UID (att_meta att))))"
  using pickAndLockAddress_ok [OF assms] by (force simp: pick_post_def well_locked_def)

theorem pick_locks_free_address_witness:
  "\<exists>la st'. pickAndLockAddress 1 env0 ''ns'' ''a'' a0 ''s'' 5 167772160 167772167 (NewIPAMController store0) =
      Some (Inr (la, st')) \<and> la_err la = None \<and> pl_Obj (la_lock la) \<noteq> None \<and>
    pl_addrU (la_lock la) \<in> {167772160..167772167} \<and>
    sw_locks (world st') ''ns'' (pl_name (la_lock la)) = pl_Obj (la_lock la)"
proof -
  let ?run = "pickAndLockAddress 1 env0 ''ns'' ''a'' a0 ''s'' 5 167772160 167772167 (NewIPAMController store0)"
  have "got_lock ?run" by code_simp
  then obtain la st' where run: "?run = Some (Inr (la, st'))" "la_err la = None" "pl_Obj (la_lock la) \<noteq> None"
    by (rule got_lockE)
  have "lock_server (env_api env0) sw_locks" using store.lock_server_axioms by simp
  from pick_locks_free_address [OF env0_simps(2) cache_ok_New this _ run(1)] run show ?thesis
    by auto
qed

text \<open>
  C23: the name of a lock determines the virtual network and the address: for every VNI a subnet
  may have, parsing the name that is made for it gives back the VNI and the address.
\<close>

theorem lock_name_roundtrip:
  assumes "vni \<le> maxVNI"
  shows "\<exists>name. makeIPLockName2 vni (Uint32ToIPv4 u) = Inr name \<and> parseIPLockName name = Inr (vni, u)"
proof -
  have "vni < 2 ^ 21" using assms by (simp add: maxVNI_def word_le_nat_alt word_less_nat_alt)
  moreover obtain name where "makeIPLockName2 vni (Uint32ToIPv4 u) = Inr name"
    using makeIPLockName2_Uint32 by blast
  ultimately show ?thesis using parse_make_lock_name [of vni "Uint32ToIPv4 u" u name] by simp
qed

theorem lock_name_roundtrip_witness:
  "parseIPLockName ''v1-5-10-0-0-6'' = Inr (5, 167772166)"
proof -
  have "(5::uint32) \<le> maxVNI" by (simp add: maxVNI_def)
  from lock_name_roundtrip [OF this, of 167772166]
  obtain name where "makeIPLockName2 5 (Uint32ToIPv4 167772166) = Inr name" "parseIPLockName name = Inr (5, 167772166)"
    by blast
  moreover have "makeIPLockName2 5 (Uint32ToIPv4 167772166) = Inr ''v1-5-10-0-0-6''" by code_simp
  ultimately show ?thesis by simp
qed

text \<open>
  C6: two controllers that share nothing but the API server do not hand out the same address. If
  one got a lock for one attachment, and that lock object is still stored when another controller,
  whose cache may know nothing of it, picks and locks an address of the same virtual network for
  another attachment, and gets a lock, then the two addresses are different.
\<close>

theorem two_controllers_exclude:
  assumes "env_ok nodes1 invar1 env1" "cache_ok nodes1 invar1 st1" "env_ok nodes2 invar2 env2" "cache_ok nodes2 invar2 st2"
    and "exclusive_server api locks" "env_api env1 = api" "env_api env2 = api" "base1 \<le> lst1"
    and "pickAndLockAddress fuel1 env1 ns name1 att1 sn1 vni base1 lst1 st1 = Some (Inr (la1, st1'))"
    and "la_err la1 = None" "pl_Obj (la_lock la1) = Some obj1"
    and "locks (world st2) ns (pl_name (la_lock la1)) = Some obj1"
    and "(name2, meta_UID (att_meta att2)) \<noteq> (name1, meta_UID (att_meta att1))"
    and "pickAndLockAddress fuel2 env2 ns name2 att2 sn2 vni base2 lst2 st2 = Some (Inr (la2, st2'))"
    and "pl_Obj (la_lock la2) \<noteq> None"
  shows "pl_addrU (la_lock la1) \<noteq> pl_addrU (la_lock la2)"
proof -
  have srv: "lock_server (env_api env1) locks"
    using assms(5,6) by (simp add: exclusive_server.axioms(1))
  from pickAndLockAddress_ok [OF assms(1,2) srv assms(8,9)] assms(10,11)
  have wl: "well_locked locks (world st1') ns name1 (meta_UID (att_meta att1)) vni (la_lock la1) (la_ip la1)"
    by (auto simp: pick_post_def)
  then have held: "makeIPLockName2 vni (Uint32ToIPv4 (pl_addrU (la_lock la1))) = Inr (pl_name (la_lock la1))"
    "GetOwner (ipl_meta obj1) ''NetworkAttachment'' = (name1, meta_UID (att_meta att1))"
    using assms(11) by (auto simp: well_locked_def)
  have "world s = world st2" if "PickAddress env2 st2 vni mn mx = Inr (u, b, s)" for mn mx u b s
    using PickAddress_ok [OF assms(3,4), of vni mn mx] that by auto
  from exclusive_server.pick_excludes_held [OF assms(5,14,7,15) this held(1) assms(12)] held(2) assms(13)
  show ?thesis by auto
qed

definition b0 :: NetworkAttachment where "b0 = sample_att ''ns'' ''b'' ''uid-b'' ''s''"

definition env1 :: "(store_world, ss_node list) ipam_env" where
  "env1 = env0\<lparr>env_int63n := (\<lambda>_. 0)\<rparr>"

lemma env1_simps [simp]: "env_api env1 = store_api" "env_ok (\<lambda>ns. ns) (\<lambda>_. True) env1"
proof -
  have "random_sorted_set list_ops (\<lambda>ns. ns) (\<lambda>_. True) (\<lambda>_. 0) (\<lambda>_. 0)" by unfold_locales auto
  then show "env_api env1 = store_api" "env_ok (\<lambda>ns. ns) (\<lambda>_. True) env1"
    by (simp_all add: env1_def) (simp add: env_ok_def env1_def env0_def sample_env_def)
qed

theorem two_controllers_exclude_witness:
  "\<exists>la1 st1' la2 st2'.
    pickAndLockAddress 1 env0 ''ns'' ''a'' a0 ''s'' 5 167772160 167772167 (NewIPAMController store0) = Some (Inr (la1, st1')) \<and>
    pickAndLockAddress 1 env1 ''ns'' ''b'' b0 ''s'' 5 167772160 167772167 (NewIPAMController (world st1')) = Some (Inr (la2, st2')) \<and>
    pl_Obj (la_lock la1) \<noteq> None \<and> pl_Obj (la_lock la2) \<noteq> None \<and>
    pl_addrU (la_lock la1) \<noteq> pl_addrU (la_lock la2)"
proof -
  let ?run1 = "pickAndLockAddress 1 env0 ''ns'' ''a'' a0 ''s'' 5 167772160 167772167 (NewIPAMController store0)"
  let ?run2 = "\<lambda>w. pickAndLockAddress 1 env1 ''ns'' ''b'' b0 ''s'' 5 167772160 167772167 (NewIPAMController w)"
  have "got_lock ?run1" by code_simp
  then obtain la1 st1' where run: "?run1 = Some (Inr (la1, st1'))" "la_err la1 = None" "pl_Obj (la_lock la1) \<noteq> None"
    by (rule got_lockE)
  have "(case ?run1 of Some (Inr (la, st')) \<Rightarrow> got_lock (?run2 (world st')) | _ \<Rightarrow> False)" by code_simp
  then have "got_lock (?run2 (world st1'))" unfolding run(1) by simp
  then obtain la2 st2' where run2: "?run2 (world st1') = Some (Inr (la2, st2'))" "pl_Obj (la_lock la2) \<noteq> None"
    by (rule got_lockE)
  from run(3) obtain obj where obj: "pl_Obj (la_lock la1) = Some obj" by blast
  have srv: "lock_server (env_api env0) sw_locks" using store.lock_server_axioms by simp
  from pickAndLockAddress_ok [OF env0_simps(2) cache_ok_New srv _ run(1)] run(2) obj
  have "sw_locks (world st1') ''ns'' (pl_name (la_lock la1)) = Some obj"
    by (auto simp: pick_post_def well_locked_def)
  then have "pl_addrU (la_lock la1) \<noteq> pl_addrU (la_lock la2)"
    using two_controllers_exclude [OF env0_simps(2) cache_ok_New env1_simps(2) cache_ok_New
        store.exclusive_server_axioms env0_simps(1) env1_simps(1) _ run(1,2) obj _ _ run2]
    by (simp add: NewIPAMController_def a0_def b0_def sample_att_def sample_meta_def)
  with run run2 show ?thesis by blast
qed

text \<open>
  C22: the lock behind an address in use is never released. When the index has the lock object that
  an attachment's status names, for this edition of the attachment and on the address of the
  status, inside the subnet, then processing the attachment writes no status and none of the
  locks it deletes has that UID.
\<close>

theorem lock_in_use_kept:
  assumes srv: "ipam_server (env_api env) locks log"
    and lst: "att_Lister (env_listers env) ns name = Inr att"
      "subnet_Lister (env_listers env) ns (Subnet_name (att_Spec att)) = Inr subnet"
      "ParseCIDR (spec_IPv4 subnet) = Inr (ip, net)" "IPNetToBoundsU net = Inr (base, lst)"
      "lock_ByOwner (env_listers env) name = Inr ipls"
    and ipl: "ipl \<in> set ipls" "NewParsedLock ipl = Inr l"
      "snd (GetOwner (ipl_meta ipl) ''NetworkAttachment'') = meta_UID (att_meta att)"
      "pl_VNI l = spec_VNI subnet" "base \<le> pl_addrU l" "pl_addrU l \<le> lst"
      "LockUID (att_Status att) = pl_UID l" "Status_IPv4 (att_Status att) = ip_String (Uint32ToIPv4 (pl_addrU l))"
    and uids: "distinct ipls" "inj_on (\<lambda>ipl. meta_UID (ipl_meta ipl)) (set ipls)"
    and run: "processNetworkAttachment fuel env ns name st = Some (Inr (e, st'))"
  shows "\<exists>ds. log (world st') = log (world st) @ map del_event ds \<and>
    (\<forall>d\<in>set ds. pl_UID d \<noteq> LockUID (att_Status att))"
proof -
  obtain nadat st1 where g: "getNetworkAttachmentData st ns name True = (nadat, st1)" by fastforce
  then have w: "world st1 = world st"
    by (auto simp: getNetworkAttachmentData_def split: option.splits)
  let ?rv = "meta_ResourceVersion (sn_meta subnet)" and ?sn = "Subnet_name (att_Spec att)"
  have "analyzeAndRelease env ns name (Some att) st1 = analyze_locks env ns name (Some att) ?sn ?rv (spec_VNI subnet) base lst st1"
    using lst by (simp add: analyzeAndRelease_def Let_def)
  with run lst(1) g obtain an st2 where
    an: "analyze_locks env ns name (Some att) ?sn ?rv (spec_VNI subnet) base lst st1 = Inr (an, st2)"
    and rest: "st' = st2 \<or> assign_address fuel env ns name att an st2 = Some (Inr (e, st'))"
    by (auto simp: processNetworkAttachment_def process_found_def split: sum.splits if_splits)
  have "lock_of l ipl" "\<not> other_edition (Some att) ipl" "in_block (spec_VNI subnet) base lst l" "is_in_status (Some att) l"
    using ipl by (simp_all add: lock_of_def other_edition_def in_block_def is_in_status_def GetIP_def)
  from ipam_server.analyze_locks_keeps [OF srv an refl lst(5) ipl(1) this uids] obtain ds where
    ds: "log (world st2) = log (world st1) @ map del_event ds" "\<forall>d\<in>set ds. pl_UID d \<noteq> pl_UID l"
    "an_lockInStatus an = l" by blast
  have "pl_Obj l \<noteq> None" using lock_ofD [OF \<open>lock_of l ipl\<close>] by simp
  then have "st' = st2" using rest ds(3) by (auto simp: assign_address_def)
  then show ?thesis using ds w ipl(7) by auto
qed

definition lock_obj :: "string \<Rightarrow> string \<Rightarrow> string \<Rightarrow> string \<Rightarrow> string \<Rightarrow> IPLock" where
  "lock_obj ns lockName lockUID owner ownerUID =
     \<lparr>ipl_meta = sample_meta ns lockName lockUID [\<lparr>or_APIVersion = ''v1'', or_Kind = ''NetworkAttachment'',
        or_Name = owner, or_UID = ownerUID, or_Controller = Some True\<rparr>], SubnetName = ''s''\<rparr>"

lemma OwningAttachments_lock_obj [simp]:
  "OwningAttachments (ipl_meta (lock_obj ns lockName lockUID owner ownerUID)) = [owner]"
  by (simp add: OwningAttachments_def lock_obj_def sample_meta_def controlled_by_def)

definition a_in_use :: NetworkAttachment where
  "a_in_use = a0\<lparr>att_Status := (att_Status a0)\<lparr>LockUID := ''L1'', Status_IPv4 := ''10.0.0.6'', AddressVNI := 5\<rparr>\<rparr>"

definition env_in_use :: "(store_world, ss_node list) ipam_env" where
  "env_in_use = sample_env store_api
     (sample_listers (\<lambda>ns name. if ns = ''ns'' \<and> name = ''a'' then Some a_in_use else None) sn0
       [lock_obj ''ns'' ''v1-5-10-0-0-6'' ''L1'' ''a'' ''uid-a'', lock_obj ''ns'' ''v1-5-10-0-0-3'' ''L2'' ''a'' ''uid-a''])"

theorem lock_in_use_kept_witness:
  "\<exists>st' ds. processNetworkAttachment 1 env_in_use ''ns'' ''a'' (NewIPAMController store0) = Some (Inr (None, st')) \<and>
    sw_log (world st') = map del_event ds \<and> (\<forall>d\<in>set ds. pl_UID d \<noteq> ''L1'')"
proof -
  let ?i1 = "lock_obj ''ns'' ''v1-5-10-0-0-6'' ''L1'' ''a'' ''uid-a''" and ?i2 = "lock_obj ''ns'' ''v1-5-10-0-0-3'' ''L2'' ''a'' ''uid-a''"
  let ?l = "\<lparr>pl_ns = ''ns'', pl_name = ''v1-5-10-0-0-6'', pl_VNI = 5, pl_addrU = 167772166, pl_UID = ''L1'',
     pl_CreationTime = 0, pl_Obj = Some ?i1\<rparr>"
  let ?net = "\<lparr>net_IP = [10, 0, 0, 0], net_Mask = [255, 255, 255, 248]\<rparr>"
  have "case processNetworkAttachment 1 env_in_use ''ns'' ''a'' (NewIPAMController store0) of
      Some (Inr (None, st')) \<Rightarrow> True | _ \<Rightarrow> False" by code_simp
  then obtain st' where run: "processNetworkAttachment 1 env_in_use ''ns'' ''a'' (NewIPAMController store0) = Some (Inr (None, st'))"
    by (auto split: option.splits sum.splits prod.splits)
  have 1: "ParseCIDR (spec_IPv4 sn0) = Inr (IPv4 10 0 0 0, ?net)" "IPNetToBoundsU ?net = Inr (167772160, 167772167)"
    "NewParsedLock ?i1 = Inr ?l" "ip_String (Uint32ToIPv4 167772166) = ''10.0.0.6''" by code_simp+
  have 2: "att_Lister (env_listers env_in_use) ''ns'' ''a'' = Inr a_in_use"
    "subnet_Lister (env_listers env_in_use) ''ns'' (Subnet_name (att_Spec a_in_use)) = Inr sn0"
    "lock_ByOwner (env_listers env_in_use) ''a'' = Inr [?i1, ?i2]" "env_api env_in_use = store_api"
    by (simp_all add: env_in_use_def sample_env_def sample_listers_def)
  have 3: "snd (GetOwner (ipl_meta ?i1) ''NetworkAttachment'') = meta_UID (att_meta a_in_use)"
    "LockUID (att_Status a_in_use) = ''L1''" "Status_IPv4 (att_Status a_in_use) = ''10.0.0.6''" "spec_VNI sn0 = 5"
    "distinct [?i1, ?i2]" "inj_on (\<lambda>ipl. meta_UID (ipl_meta ipl)) (set [?i1, ?i2])"
    by (simp_all add: GetOwner_def lock_obj_def sample_meta_def controlled_by_def a_in_use_def a0_def sample_att_def
        sn0_def sample_sn_def)
  have srv: "ipam_server (env_api env_in_use) sw_locks sw_log" using store.ipam_server_axioms 2(4) by simp
  from lock_in_use_kept [OF srv 2(1,2) 1(1,2) 2(3) _ 1(3) 3(1) _ _ _ _ _ 3(5,6) run] 1(4) 3(2-4)
  obtain ds where "sw_log (world st') = map del_event ds" "\<forall>d\<in>set ds. pl_UID d \<noteq> ''L1''"
    by (auto simp: NewIPAMController_def store0_def)
  with run show ?thesis by blast
qed

end
