(* ===== verification/IPAM_Findings.thy ===== *)
theory IPAM_Findings
  imports IPAM_Props
begin

text \<open>
  Totality of the IPAM controller, the choice among several usable locks, and three places where
  the controller does not do what it means to.
\<close>

text \<open>
  C19: processing an attachment returns without a panic, always with the same result once it has
  enough fuel, and keeps the address cache well formed. This is for valid IPv4 subnets, an IPv4
  address or none in the status, and a server that does not say \<open>k\<close> times in a row of the lock
  object both that it exists, when it is to be created, and that it does not, when it is to be
  fetched: then \<open>k\<close> rounds of the retry loop are enough. Without such a bound the loop need not
  end, as \<open>create_loop_None\<close> shows.
\<close>

theorem processing_returns:
  assumes "env_ok nodes invar env" "cache_ok nodes invar st" "settles k (env_api env) ns"
    and "lock_server (env_api env) locks"
    and "\<And>sn subnet. subnet_Lister (env_listers env) ns sn = Inr subnet \<Longrightarrow> valid_v4_subnet subnet"
    and "\<And>att. att_Lister (env_listers env) ns name = Inr att \<Longrightarrow> v4_or_none (Status_IPv4 (att_Status att))"
  shows "\<exists>e st'. cache_ok nodes invar st' \<and>
    (\<forall>fuel\<ge>k. processNetworkAttachment fuel env ns name st = Some (Inr (e, st')))"
proof -
  have "\<exists>e st'. \<forall>fuel\<ge>k. processNetworkAttachment fuel env ns name st = Some (Inr (e, st'))"
  proof (cases "att_Lister (env_listers env) ns name")
    case (Inl e)
    then show ?thesis using process_found_total [OF assms(1-5), where att = None and name = name]
      by (cases "ae_reason e = ReasonNotFound") (auto simp: processNetworkAttachment_def)
  next
    case (Inr a)
    then show ?thesis using process_found_total [OF assms(1-5), where att = "Some a" and name = name] assms(6)
      by (auto simp: processNetworkAttachment_def)
  qed
  then obtain e st' where run: "\<forall>fuel\<ge>k. processNetworkAttachment fuel env ns name st = Some (Inr (e, st'))" by blast
  then have "processNetworkAttachment k env ns name st = Some (Inr (e, st'))" by simp
  from processNetworkAttachment_cache [OF assms(1,2) this] run show ?thesis by auto
qed

text \<open>
  A server on which another controller deletes the object that is in the way just after the
  first creation failed: the second round of the loop succeeds.
\<close>

definition flap_api :: "store_world ipam_api" where
  "flap_api = store_api\<lparr>lock_Create := (\<lambda>w ns ipl.
     if sw_next w = 0 then (Inl (api_err ReasonAlreadyExists ''already exists''), w\<lparr>sw_next := 1\<rparr>)
     else lock_Create store_api w ns ipl)\<rparr>"

interpretation flap: lock_server flap_api sw_locks
  using store.created store.fetched
  by unfold_locales (auto simp: flap_api_def split: if_splits)

lemma flap_settles: "settles 2 flap_api ns"
  by (auto simp: settles_def numeral_2_eq_2 flap_api_def store_api_def Let_def api_err_def
      split: option.splits if_splits prod.splits sum.splits)

lemma flap_flaps: "flaps 1 flap_api ns lockName ipl (store0\<lparr>sw_next := 0\<rparr>)"
  by (simp add: flap_api_def store_api_def store0_def api_err_def)

theorem processing_returns_witness:
  "\<exists>e st'. processNetworkAttachment 2 (env0\<lparr>env_api := flap_api\<rparr>) ''ns'' ''a''
       (NewIPAMController (store0\<lparr>sw_next := 0\<rparr>)) = Some (Inr (e, st')) \<and>
     processNetworkAttachment 1 (env0\<lparr>env_api := flap_api\<rparr>) ''ns'' ''a''
       (NewIPAMController (store0\<lparr>sw_next := 0\<rparr>)) = None"
proof -
  let ?env = "env0\<lparr>env_api := flap_api\<rparr>"
  have env: "env_ok (\<lambda>ns. ns) (\<lambda>_. True) ?env" using env0_simps(2) by (simp add: env_ok_def)
  have srv: "settles 2 (env_api ?env) ''ns''" "lock_server (env_api ?env) sw_locks"
    using flap_settles flap.lock_server_axioms by simp_all
  have "subnet_Lister (env_listers ?env) ''ns'' sn = Inr sn0" for sn
    by (simp add: env0_def sample_env_def sample_listers_def)
  moreover have "att_Lister (env_listers ?env) ''ns'' ''a'' = Inr a0"
    by (simp add: env0_def sample_env_def sample_listers_def)
  moreover have "v4_or_none (Status_IPv4 (att_Status a0))"
    by (simp add: a0_def sample_att_def v4_or_none_def ParseIP_def)
  ultimately obtain e st' where "\<forall>fuel\<ge>2. processNetworkAttachment fuel ?env ''ns'' ''a''
      (NewIPAMController (store0\<lparr>sw_next := 0\<rparr>)) = Some (Inr (e, st'))"
    using processing_returns [OF env cache_ok_New srv, where name = "''a''" and w1 = "store0\<lparr>sw_next := 0\<rparr>"] sn0_valid
    by auto
  moreover have "processNetworkAttachment 1 ?env ''ns'' ''a'' (NewIPAMController (store0\<lparr>sw_next := 0\<rparr>)) = None"
    by code_simp
  ultimately show ?thesis by blast
qed

text \<open>
  Which of several usable locks is chosen depends only on the set of locks, not on the order
  in which they were found, so that controllers with the same view agree; and it is a lock with
  the earliest creation time, although the comment at the choice says that the newest is picked.
\<close>

theorem best_lock_is_oldest:
  assumes "ls \<noteq> []" "set ls' = set ls"
    and "\<And>x y. x \<in> set ls \<Longrightarrow> y \<in> set ls \<Longrightarrow> pl_UID x = pl_UID y \<Longrightarrow> x = y"
  shows "Best ls' = Best ls \<and> Best ls \<in> set ls \<and> (\<forall>x\<in>set ls. pl_CreationTime (Best ls) \<le> pl_CreationTime x)"
proof -
  have "pl_CreationTime (Best ls) \<le> pl_CreationTime x" if "x \<in> set ls" for x
    using Best_max [OF that] by (auto simp: IsBetterThan_def split: if_splits)
  then show ?thesis using Best_determined [of ls ls'] Best_mem [OF assms(1)] assms by auto
qed

theorem best_lock_is_oldest_witness:
  "Best [zeroParsedLock\<lparr>pl_UID := ''new'', pl_CreationTime := 9\<rparr>, zeroParsedLock\<lparr>pl_UID := ''old'', pl_CreationTime := 2\<rparr>]
     = zeroParsedLock\<lparr>pl_UID := ''old'', pl_CreationTime := 2\<rparr>"
proof -
  define n where "n = zeroParsedLock\<lparr>pl_UID := ''new'', pl_CreationTime := 9\<rparr>"
  define ol where "ol = zeroParsedLock\<lparr>pl_UID := ''old'', pl_CreationTime := 2\<rparr>"
  have f: "pl_UID n = ''new''" "pl_UID ol = ''old''" "pl_CreationTime n = 9" "pl_CreationTime ol = 2"
    by (simp_all add: n_def ol_def)
  have "x = y" if "x \<in> set [n, ol]" "y \<in> set [n, ol]" "pl_UID x = pl_UID y" for x y using that f by auto
  then have "Best [n, ol] \<in> set [n, ol]" "\<forall>x\<in>set [n, ol]. pl_CreationTime (Best [n, ol]) \<le> pl_CreationTime x"
    using best_lock_is_oldest [of "[n, ol]" "[n, ol]"] by blast+
  then have "Best [n, ol] = ol" using f by auto
  then show ?thesis unfolding n_def ol_def .
qed

text \<open>
  C34: when the server refuses the lock object as invalid, the controller takes that for a
  permanent error, gives the address back to the pool, and nevertheless goes on to write that
  address into the attachment's status, with an empty lock UID: an address that is not locked
  and that the next attachment can get.
\<close>

theorem refused_lock_written:
  assumes env: "env_ok nodes invar env" "cache_ok nodes invar st" and srv: "ipam_server (env_api env) locks log"
    and bad: "\<And>w ns ipl. \<exists>e w'. lock_Create (env_api env) w ns ipl = (Inl e, w') \<and> ae_reason e = ReasonInvalid"
    and free: "\<not> {fst (address_range (an_baseU an) (an_lastU an))..snd (address_range (an_baseU an) (an_lastU an))}
      \<subseteq> taken nodes st (an_VNI an)"
    and an: "pl_Obj (an_lockInStatus an) = None" "pl_Obj (an_lockForStatus an) = None" "an_statusErrs an = []"
    and dat: "atts st (nsn ns name) = Some zeroAttData"
  shows "\<exists>e st' u. assign_address (Suc fuel) env ns name att an st = Some (Inr (e, st')) \<and>
    log (world st') = log (world st) @ [EvUpdate u] \<and> Status_IPv4 (att_Status u) \<noteq> [] \<and>
    LockUID (att_Status u) = [] \<and> IPAM_errs (Errors (att_Status u)) = [] \<and> taken nodes st' = taken nodes st"
proof -
  from pick_refused [OF env bad free] obtain la st1 where
    pick: "pickAndLockAddress (Suc fuel) env ns name att (an_subnetName an) (an_VNI an) (an_baseU an) (an_lastU an) st =
      Some (Inr (la, st1))"
    and la: "la_err la = None" "pl_UID (la_lock la) = []" "la_ip la = Uint32ToIPv4 (pl_addrU (la_lock la))"
    and st1: "taken nodes st1 = taken nodes st" "atts st1 = atts st" by blast
  from updateNAStatus_total [of st1 ns name env att "[]" "an_subnetRV an" "la_lock la" "la_ip la"] st1 dat
  obtain e st' where upd: "updateNAStatus env ns name att [] (an_subnetRV an) (la_lock la) (la_ip la) st1 = Inr (e, st')"
    by auto
  have "assign_address (Suc fuel) env ns name att an st = Some (Inr (e, st'))"
    using an dat pick la(1) upd by (simp add: assign_address_def zeroAttData_def)
  moreover have "log (world st') = log (world st) @ [EvUpdate (status_update att [] (la_lock la) (la_ip la))]"
    using ipam_server.updateNAStatus_log [OF srv upd refl] ipam_server.pickAndLockAddress_log [OF srv pick refl env] by simp
  moreover have "taken nodes st' = taken nodes st"
    using updateNAStatus_frame [OF upd] st1(1) by (simp add: taken_def fun_eq_iff)
  ultimately show ?thesis using la
    by (intro exI [of _ e] exI [of _ st'] exI [of _ "status_update att [] (la_lock la) (la_ip la)"])
       (simp add: status_update_def)
qed

definition refusing_api :: "store_world ipam_api" where
  "refusing_api = store_api\<lparr>lock_Create := (\<lambda>w ns ipl. (Inl (api_err ReasonInvalid ''refused''), w))\<rparr>"

interpretation refusing: ipam_server refusing_api sw_locks sw_log
  using store.fetched store.log_Get store.log_Delete store.log_Update
  by unfold_locales (auto simp: refusing_api_def)

theorem refused_lock_written_witness:
  "\<exists>e st' u. assign_address 1 (env0\<lparr>env_api := refusing_api\<rparr>) ''ns'' ''a'' a0 (analysis0 ''s'' ''1'' 5 167772160 167772167)
      ((NewIPAMController store0)\<lparr>atts := [nsn ''ns'' ''a'' \<mapsto> zeroAttData]\<rparr>) = Some (Inr (e, st')) \<and>
    sw_log (world st') = [EvUpdate u] \<and> Status_IPv4 (att_Status u) \<noteq> [] \<and> LockUID (att_Status u) = []"
proof -
  let ?env = "env0\<lparr>env_api := refusing_api\<rparr>" and ?an = "analysis0 ''s'' ''1'' 5 167772160 167772167"
  let ?st = "(NewIPAMController store0)\<lparr>atts := [nsn ''ns'' ''a'' \<mapsto> zeroAttData]\<rparr>"
  have env: "env_ok (\<lambda>ns. ns) (\<lambda>_. True) ?env" using env0_simps(2) by (simp add: env_ok_def)
  have srv: "ipam_server (env_api ?env) sw_locks sw_log" using refusing.ipam_server_axioms by simp
  have "\<not> {fst (address_range 167772160 167772167)..snd (address_range 167772160 167772167)} \<subseteq> {}"
    by (simp add: address_range_def)
  moreover have "taken (\<lambda>ns. ns) ?st 5 = {}" by (simp add: taken_def NewIPAMController_def)
  moreover have "cache_ok (\<lambda>ns. ns) (\<lambda>_. True) ?st" by simp
  moreover have "sw_log (world ?st) = []" by (simp add: NewIPAMController_def store0_def)
  moreover have "\<exists>e w'. lock_Create (env_api ?env) w ns ipl = (Inl e, w') \<and> ae_reason e = ReasonInvalid" for w ns ipl
    by (simp add: refusing_api_def api_err_def)
  ultimately show ?thesis
    using refused_lock_written [OF env _ srv, where st = ?st and an = ?an and ns = "''ns''" and name = "''a''" and fuel = 0 and att = a0]
    by (auto simp: analysis0_def zeroParsedLock_def)
qed

text \<open>
  C35: the index of locks is keyed by the owner's name alone. When an attachment does not exist,
  every lock whose owner has that name is deleted, whatever its namespace, its owner's UID and
  its own address: also the lock of a living attachment with the same name in another namespace.
\<close>

theorem namesake_lock_deleted:
  assumes srv: "ipam_server (env_api env) locks log"
    and att: "att_Lister (env_listers env) ns name = Inl e" "ae_reason e = ReasonNotFound"
    and objs: "lock_ByOwner (env_listers env) name = Inr objs" "ipl \<in> set objs"
    and l: "NewParsedLock ipl = Inr l" "pl_VNI l \<noteq> 0"
    and run: "processNetworkAttachment fuel env ns name st = Some (Inr (None, st'))"
  shows "EvDelete (meta_Namespace (ipl_meta ipl)) (meta_Name (ipl_meta ipl)) (meta_UID (ipl_meta ipl)) \<in> set (log (world st'))"
proof -
  obtain nadat st1 where g: "getNetworkAttachmentData st ns name False = (nadat, st1)" by fastforce
  from run att g obtain an st2 where
    an: "analyze_locks env ns name None [] ''.'' 0 0 0 st1 = Inr (an, st2)" "an_err an = None" "world st' = world st2"
    by (auto simp: processNetworkAttachment_def process_found_def analyzeAndRelease_def clearNetworkAttachmentData_def
        split: sum.splits if_splits)
  have ok: "an_ok an" using an(1,2) objs
    by (auto simp: analyze_locks_def analysis0_def Let_def split: sum.splits option.splits prod.splits)
  have "l \<in> set (undesiredLocks (fold (consider_lock None 0 0 0) objs no_locks))"
    using l objs(2) by (auto simp: fold_consider(1) lock_of_def other_edition_def in_block_def)
  with ipam_server.analyze_locks_ok [OF srv an(1) refl] ok an(2) objs(1) obtain ds where
    "log (world st2) = log (world st1) @ map del_event ds" "l \<in> set ds"
    unfolding analysis_post_def by (metis subsetD sum.inject(2))
  moreover have "del_event l = EvDelete (meta_Namespace (ipl_meta ipl)) (meta_Name (ipl_meta ipl)) (meta_UID (ipl_meta ipl))"
    using lock_ofD [of l ipl] l(1) by (simp add: lock_of_def)
  ultimately show ?thesis using an(3) by force
qed

definition a_other :: NetworkAttachment where
  "a_other = a_in_use\<lparr>att_meta := (att_meta a_in_use)\<lparr>meta_Namespace := ''other''\<rparr>\<rparr>"

definition env_namesake :: "(store_world, ss_node list) ipam_env" where
  "env_namesake = sample_env store_api
     (sample_listers (\<lambda>ns name. if ns = ''other'' \<and> name = ''a'' then Some a_other else None) sn0
       [lock_obj ''other'' ''v1-5-10-0-0-6'' ''L1'' ''a'' ''uid-a''])"

theorem namesake_lock_deleted_witness:
  "\<exists>st'. processNetworkAttachment 1 env_namesake ''ns'' ''a'' (NewIPAMController store0) = Some (Inr (None, st')) \<and>
    att_Lister (env_listers env_namesake) ''other'' ''a'' = Inr a_other \<and> LockUID (att_Status a_other) = ''L1'' \<and>
    EvDelete ''other'' ''v1-5-10-0-0-6'' ''L1'' \<in> set (sw_log (world st'))"
proof -
  let ?i = "lock_obj ''other'' ''v1-5-10-0-0-6'' ''L1'' ''a'' ''uid-a''"
  let ?l = "\<lparr>pl_ns = ''other'', pl_name = ''v1-5-10-0-0-6'', pl_VNI = 5, pl_addrU = 167772166, pl_UID = ''L1'',
     pl_CreationTime = 0, pl_Obj = Some ?i\<rparr>"
  have "case processNetworkAttachment 1 env_namesake ''ns'' ''a'' (NewIPAMController store0) of
      Some (Inr (None, st')) \<Rightarrow> True | _ \<Rightarrow> False" by code_simp
  then obtain st' where run: "processNetworkAttachment 1 env_namesake ''ns'' ''a'' (NewIPAMController store0) = Some (Inr (None, st'))"
    by (auto split: option.splits sum.splits prod.splits)
  have l: "NewParsedLock ?i = Inr ?l" by code_simp
  have lst: "att_Lister (env_listers env_namesake) ''ns'' ''a'' = Inl (api_err ReasonNotFound ''not found'')"
    "lock_ByOwner (env_listers env_namesake) ''a'' = Inr [?i]" "env_api env_namesake = store_api"
    "att_Lister (env_listers env_namesake) ''other'' ''a'' = Inr a_other"
    by (simp_all add: env_namesake_def sample_env_def sample_listers_def)
  have srv: "ipam_server (env_api env_namesake) sw_locks sw_log" using store.ipam_server_axioms lst(3) by simp
  have "meta_Namespace (ipl_meta ?i) = ''other''" "meta_Name (ipl_meta ?i) = ''v1-5-10-0-0-6''" "meta_UID (ipl_meta ?i) = ''L1''"
    by (simp_all add: lock_obj_def sample_meta_def)
  with namesake_lock_deleted [OF srv lst(1) _ lst(2) _ l _ run]
  have "EvDelete ''other'' ''v1-5-10-0-0-6'' ''L1'' \<in> set (sw_log (world st'))" by (simp add: api_err_def)
  with run lst(4) show ?thesis by (auto simp: a_other_def a_in_use_def)
qed

end
