(* ===== verification/Fabric.thy ===== *)
theory Fabric
  imports Net_API "HOL-Library.AList" "HOL-Library.Multiset"
begin

text \<open>
  Network fabrics: the interface of \<open>pkg/networkfabric/interfaces.go\<close> as a record of operations
  over the state of the fabric, its contract as the locale \<open>network_fabric\<close>, the registry of
  \<open>factory.go\<close> and the fabric of \<open>logger.go\<close>. A Go map that the code iterates over is an
  association list; the order of the iteration is a parameter \<open>iter\<close> that permutes the keys.
\<close>

section \<open>Interfaces\<close>

type_synonym HardwareAddr = "uint8 list"

record LocalNetIfc =
  li_Name :: string
  li_VNI :: uint32
  li_GuestMAC :: HardwareAddr
  li_GuestIP :: IP

record RemoteNetIfc =
  ri_VNI :: uint32
  ri_GuestMAC :: HardwareAddr
  ri_GuestIP :: IP
  ri_HostIP :: IP

record 'w fabric =
  fabric_Name :: string
  CreateLocalIfc :: "'w \<Rightarrow> LocalNetIfc \<Rightarrow> (go_panic, string option \<times> 'w) result"
  DeleteLocalIfc :: "'w \<Rightarrow> LocalNetIfc \<Rightarrow> (go_panic, string option \<times> 'w) result"
  CreateRemoteIfc :: "'w \<Rightarrow> RemoteNetIfc \<Rightarrow> (go_panic, string option \<times> 'w) result"
  DeleteRemoteIfc :: "'w \<Rightarrow> RemoteNetIfc \<Rightarrow> (go_panic, string option \<times> 'w) result"
  ListLocalIfcs :: "'w \<Rightarrow> (go_panic, (string, LocalNetIfc list) result \<times> 'w) result"
  ListRemoteIfcs :: "'w \<Rightarrow> (go_panic, (string, RemoteNetIfc list) result \<times> 'w) result"

text \<open>
  The contract. A fabric that satisfies \<open>invar\<close> holds local interfaces by their name and remote
  interfaces by their MAC address; an operation that returns an error leaves them alone; the
  deletion of an interface that does not exist returns no error.
\<close>

locale network_fabric =
  fixes fab :: "'w fabric" and invar :: "'w \<Rightarrow> bool"
    and locals :: "'w \<Rightarrow> string \<rightharpoonup> LocalNetIfc" and remotes :: "'w \<Rightarrow> string \<rightharpoonup> RemoteNetIfc"
  assumes create_local: "invar w \<Longrightarrow> CreateLocalIfc fab w li = Inr (e, w') \<Longrightarrow>
      invar w' \<and> remotes w' = remotes w \<and>
      locals w' = (if e = None then (locals w)(li_Name li \<mapsto> li) else locals w)"
    and delete_local: "invar w \<Longrightarrow> DeleteLocalIfc fab w li = Inr (e, w') \<Longrightarrow>
      invar w' \<and> remotes w' = remotes w \<and>
      locals w' = (if e = None then (locals w)(li_Name li := None) else locals w)"
    and create_remote: "invar w \<Longrightarrow> CreateRemoteIfc fab w ri = Inr (e, w') \<Longrightarrow>
      invar w' \<and> locals w' = locals w \<and>
      remotes w' = (if e = None then (remotes w)(hw_String (ri_GuestMAC ri) \<mapsto> ri) else remotes w)"
    and delete_remote: "invar w \<Longrightarrow> DeleteRemoteIfc fab w ri = Inr (e, w') \<Longrightarrow>
      invar w' \<and> locals w' = locals w \<and>
      remotes w' = (if e = None then (remotes w)(hw_String (ri_GuestMAC ri) := None) else remotes w)"
    and delete_missing_local: "invar w \<Longrightarrow> locals w (li_Name li) = None \<Longrightarrow> \<exists>w'. DeleteLocalIfc fab w li = Inr (None, w')"
    and delete_missing_remote: "invar w \<Longrightarrow> remotes w (hw_String (ri_GuestMAC ri)) = None \<Longrightarrow>
      \<exists>w'. DeleteRemoteIfc fab w ri = Inr (None, w')"
    and list_local: "invar w \<Longrightarrow> ListLocalIfcs fab w = Inr (Inr lis, w') \<Longrightarrow>
      invar w' \<and> locals w' = locals w \<and> remotes w' = remotes w \<and>
      distinct (map li_Name lis) \<and> locals w = map_of (map (\<lambda>i. (li_Name i, i)) lis)"
    and list_remote: "invar w \<Longrightarrow> ListRemoteIfcs fab w = Inr (Inr ris, w') \<Longrightarrow>
      invar w' \<and> locals w' = locals w \<and> remotes w' = remotes w \<and>
      distinct (map (hw_String \<circ> ri_GuestMAC) ris) \<and>
      remotes w = map_of (map (\<lambda>i. (hw_String (ri_GuestMAC i), i)) ris)"
begin

lemma create_then_listed:
  assumes "invar w" "CreateLocalIfc fab w li = Inr (None, w1)" "ListLocalIfcs fab w1 = Inr (Inr lis, w2)"
  shows "li \<in> set lis"
proof -
  from create_local [OF assms(1,2)] have w1: "invar w1" "locals w1 (li_Name li) = Some li" by auto
  from list_local [OF w1(1) assms(3)] w1(2) show ?thesis by (auto dest: map_of_SomeD)
qed

lemma delete_then_unlisted:
  assumes "invar w" "DeleteLocalIfc fab w li = Inr (None, w1)" "ListLocalIfcs fab w1 = Inr (Inr lis, w2)"
  shows "li_Name li \<notin> li_Name ` set lis"
proof -
  from delete_local [OF assms(1,2)] have w1: "invar w1" "locals w1 (li_Name li) = None" by auto
  from list_local [OF w1(1) assms(3)] w1(2) show ?thesis
    by (auto simp: map_of_eq_None_iff image_image)
qed

end

section \<open>The registry of factories\<close>

datatype factory_panic = NameInUse string

definition RegisterFactory :: "(string \<times> 'f) list \<Rightarrow> 'f \<Rightarrow> string \<Rightarrow> (factory_panic, (string \<times> 'f) list) result" where
  "RegisterFactory registry factory name =
     (if map_of registry name \<noteq> None then Inl (NameInUse name)
      else Inr (AList.update name factory registry))"

definition NewNetFabricForName :: "(string list \<Rightarrow> string list) \<Rightarrow> (string \<times> ('s \<Rightarrow> (string, 'fab) result \<times> 's)) list
    \<Rightarrow> string \<Rightarrow> 's \<Rightarrow> (string, 'fab) result \<times> 's" where
  "NewNetFabricForName iter registry name s =
     (case map_of registry name of
        None \<Rightarrow>
          (Inl (if registry \<noteq> [] then
                  (let registeredNames = iter (map fst registry)
                   in ''No fabric is registered with name '' @ name @ ''. Registered names are: '' @
                      join '','' registeredNames)
                else ''No fabric is registered with name '' @ name @ '' because there are no registered fabrics''), s)
      | Some newNetfabric \<Rightarrow> newNetfabric s)"

lemma registered_used:
  assumes "RegisterFactory registry f name = Inr registry'"
  shows "NewNetFabricForName iter registry' name s = f s"
    and "name' \<noteq> name \<Longrightarrow> map_of registry' name' = map_of registry name'"
    and "RegisterFactory registry' g name = Inl (NameInUse name)"
  using assms by (auto simp: RegisterFactory_def NewNetFabricForName_def update_conv' split: if_splits)

section \<open>The logger fabric\<close>

record logger =
  localIfcs :: "(string \<times> LocalNetIfc) list"
  remoteIfcs :: "(string \<times> RemoteNetIfc) list"

definition new_logger :: logger where
  "new_logger = \<lparr>localIfcs = [], remoteIfcs = []\<rparr>"

definition logger_name :: string where "logger_name = ''logger''"

definition logger_CreateLocalIfc :: "logger \<Rightarrow> LocalNetIfc \<Rightarrow> (go_panic, string option \<times> logger) result" where
  "logger_CreateLocalIfc l li = Inr (None, l\<lparr>localIfcs := AList.update (li_Name li) li (localIfcs l)\<rparr>)"

definition logger_DeleteLocalIfc :: "logger \<Rightarrow> LocalNetIfc \<Rightarrow> (go_panic, string option \<times> logger) result" where
  "logger_DeleteLocalIfc l li = Inr (None, l\<lparr>localIfcs := AList.delete (li_Name li) (localIfcs l)\<rparr>)"

definition logger_CreateRemoteIfc :: "logger \<Rightarrow> RemoteNetIfc \<Rightarrow> (go_panic, string option \<times> logger) result" where
  "logger_CreateRemoteIfc l ri =
     Inr (None, l\<lparr>remoteIfcs := AList.update (hw_String (ri_GuestMAC ri)) ri (remoteIfcs l)\<rparr>)"

definition logger_DeleteRemoteIfc :: "logger \<Rightarrow> RemoteNetIfc \<Rightarrow> (go_panic, string option \<times> logger) result" where
  "logger_DeleteRemoteIfc l ri =
     Inr (None, l\<lparr>remoteIfcs := AList.delete (hw_String (ri_GuestMAC ri)) (remoteIfcs l)\<rparr>)"

definition logger_ListLocalIfcs :: "(string list \<Rightarrow> string list) \<Rightarrow> logger
    \<Rightarrow> (go_panic, (string, LocalNetIfc list) result \<times> logger) result" where
  "logger_ListLocalIfcs iter l =
     Inr (Inr (map (\<lambda>k. the (map_of (localIfcs l) k)) (iter (map fst (localIfcs l)))), l)"

definition logger_ListRemoteIfcs :: "(string list \<Rightarrow> string list) \<Rightarrow> logger
    \<Rightarrow> (go_panic, (string, RemoteNetIfc list) result \<times> logger) result" where
  "logger_ListRemoteIfcs iter l =
     Inr (Inr (map (\<lambda>k. the (map_of (remoteIfcs l) k)) (iter (map fst (remoteIfcs l)))), l)"

definition logger_fabric :: "(string list \<Rightarrow> string list) \<Rightarrow> logger fabric" where
  "logger_fabric iter = \<lparr>fabric_Name = logger_name,
     CreateLocalIfc = logger_CreateLocalIfc, DeleteLocalIfc = logger_DeleteLocalIfc,
     CreateRemoteIfc = logger_CreateRemoteIfc, DeleteRemoteIfc = logger_DeleteRemoteIfc,
     ListLocalIfcs = logger_ListLocalIfcs iter, ListRemoteIfcs = logger_ListRemoteIfcs iter\<rparr>"

definition permutes_keys :: "(string list \<Rightarrow> string list) \<Rightarrow> bool" where
  "permutes_keys iter \<longleftrightarrow> (\<forall>ks. mset (iter ks) = mset ks)"

definition keyed_by :: "('a \<Rightarrow> string) \<Rightarrow> (string \<times> 'a) list \<Rightarrow> bool" where
  "keyed_by key m \<longleftrightarrow> distinct (map fst m) \<and> (\<forall>(k, x)\<in>set m. key x = k)"

definition logger_ok :: "logger \<Rightarrow> bool" where
  "logger_ok l \<longleftrightarrow> keyed_by li_Name (localIfcs l) \<and> keyed_by (hw_String \<circ> ri_GuestMAC) (remoteIfcs l)"

lemma keyed_by_update: "keyed_by key m \<Longrightarrow> key x = k \<Longrightarrow> keyed_by key (AList.update k x m)"
  unfolding keyed_by_def
  by (auto simp: distinct_update) (metis (mono_tags, lifting) case_prodD distinct_update eq_key_imp_eq_value
      fun_upd_apply map_of_eq_Some_iff map_of_is_SomeI option.sel update_conv')

lemma keyed_by_delete: "keyed_by key m \<Longrightarrow> keyed_by key (AList.delete k m)"
  using distinct_delete [of m k] by (auto simp: keyed_by_def AList.delete_eq)

text \<open>Listing a keyed map in any order gives its elements, each under its own key.\<close>

lemma keyed_by_values:
  assumes "keyed_by key m" "permutes_keys iter" "xs = map (\<lambda>k. the (map_of m k)) (iter (map fst m))"
  shows "distinct (map key xs) \<and> map_of m = map_of (map (\<lambda>x. (key x, x)) xs)"
proof -
  have ks: "mset (iter (map fst m)) = mset (map fst m)" using assms(2) by (simp add: permutes_keys_def)
  have get: "map_of m k = Some x \<Longrightarrow> key x = k" for k x using assms(1) by (auto simp: keyed_by_def dest: map_of_SomeD)
  have dom: "set (iter (map fst m)) = fst ` set m" using mset_eq_setD [OF ks] by simp
  have key: "key (the (map_of m k)) = k" if "k \<in> set (iter (map fst m))" for k
    using that get dom by (metis domIff dom_map_of_conv_image_fst option.collapse)
  then have "map key xs = iter (map fst m)" using assms(3) by (simp add: map_idI)
  moreover have "distinct (iter (map fst m))" using assms(1) mset_eq_imp_distinct_iff [OF ks] by (simp add: keyed_by_def)
  moreover have "map_of (map (\<lambda>x. (key x, x)) xs) k = map_of m k" for k
  proof (cases "k \<in> fst ` set m")
    case True
    have "map (\<lambda>x. (key x, x)) xs = map (\<lambda>k. (k, the (map_of m k))) (iter (map fst m))"
      using assms(3) key by simp
    moreover have "map_of m k \<noteq> None" using True by (simp add: map_of_eq_None_iff)
    ultimately show ?thesis using True dom by (simp add: map_of_map_restrict)
  next
    case False
    then have "map_of m k = None" by (simp add: map_of_eq_None_iff)
    moreover have "k \<notin> key ` set xs" using False \<open>map key xs = _\<close> dom by (metis list.set_map)
    then have "map_of (map (\<lambda>x. (key x, x)) xs) k = None" by (simp add: map_of_eq_None_iff image_image)
    ultimately show ?thesis by simp
  qed
  ultimately show ?thesis by (auto simp: fun_eq_iff)
qed

lemma logger_network_fabric:
  assumes "permutes_keys iter"
  shows "network_fabric (logger_fabric iter) logger_ok (map_of \<circ> localIfcs) (map_of \<circ> remoteIfcs)"
proof
  fix w w' :: logger and lis
  assume "logger_ok w" "ListLocalIfcs (logger_fabric iter) w = Inr (Inr lis, w')"
  then show "logger_ok w' \<and> (map_of \<circ> localIfcs) w' = (map_of \<circ> localIfcs) w \<and>
      (map_of \<circ> remoteIfcs) w' = (map_of \<circ> remoteIfcs) w \<and> distinct (map li_Name lis) \<and>
      (map_of \<circ> localIfcs) w = map_of (map (\<lambda>i. (li_Name i, i)) lis)"
    using keyed_by_values [of li_Name "localIfcs w" iter lis] assms
    by (auto simp: logger_fabric_def logger_ListLocalIfcs_def logger_ok_def)
next
  fix w w' :: logger and ris
  assume "logger_ok w" "ListRemoteIfcs (logger_fabric iter) w = Inr (Inr ris, w')"
  then show "logger_ok w' \<and> (map_of \<circ> localIfcs) w' = (map_of \<circ> localIfcs) w \<and>
      (map_of \<circ> remoteIfcs) w' = (map_of \<circ> remoteIfcs) w \<and> distinct (map (hw_String \<circ> ri_GuestMAC) ris) \<and>
      (map_of \<circ> remoteIfcs) w = map_of (map (\<lambda>i. (hw_String (ri_GuestMAC i), i)) ris)"
    using keyed_by_values [of "hw_String \<circ> ri_GuestMAC" "remoteIfcs w" iter ris] assms
    by (auto simp: logger_fabric_def logger_ListRemoteIfcs_def logger_ok_def)
qed (auto simp: logger_fabric_def logger_CreateLocalIfc_def logger_DeleteLocalIfc_def logger_CreateRemoteIfc_def
    logger_DeleteRemoteIfc_def logger_ok_def keyed_by_update keyed_by_delete update_conv' delete_conv')

interpretation log_fabric: network_fabric "logger_fabric id" logger_ok "map_of \<circ> localIfcs" "map_of \<circ> remoteIfcs"
  by (rule logger_network_fabric) (simp add: permutes_keys_def)

end
