(* ===== verification/Agent.thy ===== *)
theory Agent
  imports Fabric Kube_Client
begin

text \<open>
  The connection agent, \<open>pkg/controllers/connectionagent/connectionagent.go\<close> and
  \<open>attachment-testing.go\<close>: its maps, the virtual network states with their informers, and the
  processing of one attachment. The fabric is a record of operations over the state \<open>'w\<close>; the
  caches of the informers are functions of the environment. An informer, its lister and its stop
  channel are started together and share one number, the position in \<open>ca_informers\<close>; closed stop
  channels are in \<open>ca_closed\<close>. A Go set is a list without repetitions. A forked command is an entry
  of \<open>ca_launched\<close>. Metrics and log messages are left out. Errors carry the values that the source
  formats into their text.
\<close>

section \<open>State and environment\<close>

definition go_set_add :: "'a \<Rightarrow> 'a list \<Rightarrow> 'a list" where
  "go_set_add x xs = (if x \<in> set xs then xs else xs @ [x])"

definition go_set_del :: "'a \<Rightarrow> 'a list \<Rightarrow> 'a list" where
  "go_set_del x xs = removeAll x xs"

record vnState =
  vn_informer :: nat
  vn_namespace :: string
  localAtts :: "string list"
  remoteAtts :: "string list"

record informer =
  inf_namespace :: string
  inf_selector :: selector

record LocalAttachmentMainState =
  LocalIfc :: LocalNetIfc
  MainPostDeleteExec :: "string list"

record LocalAttachmentState =
  MainState :: LocalAttachmentMainState
  StatePostCreateExecReport :: "ExecReport option"

record exec_job =
  job_NSN :: NamespacedName
  job_ifc :: LocalNetIfc
  job_cmd :: "string list"
  job_what :: string
  job_save :: bool

record 'w ConnectionAgent =
  localNodeName :: string
  hostIP :: IP
  allowedPrograms :: "string list"
  vniToVnState :: "uint32 \<rightharpoonup> vnState"
  nsnToVNStateVNI :: "NamespacedName \<rightharpoonup> uint32"
  nsnToLocalMainState :: "NamespacedName \<rightharpoonup> LocalAttachmentMainState"
  nsnToPostCreateExecReport :: "NamespacedName \<rightharpoonup> ExecReport option"
  nsnToRemoteIfc :: "NamespacedName \<rightharpoonup> RemoteNetIfc"
  nsnToVNIs :: "NamespacedName \<rightharpoonup> uint32 list"
  ca_queue :: "queue_op list"
  ca_informers :: "informer list"
  ca_closed :: "nat list"
  ca_launched :: "exec_job list"
  ca_world :: 'w

record 'w agent_env =
  en_fabric :: "'w fabric"
  en_Update :: "'w \<Rightarrow> string \<Rightarrow> NetworkAttachment \<Rightarrow> (api_error, NetworkAttachment) result \<times> 'w"
  en_localLister :: "string \<Rightarrow> string \<Rightarrow> (api_error, NetworkAttachment) result"
  en_localList :: "(string, NetworkAttachment list) result"
  en_localByIndex :: "string \<Rightarrow> (string, NetworkAttachment list) result"
  en_remoteLister :: "nat \<Rightarrow> string \<Rightarrow> (api_error, NetworkAttachment) result"
  en_remoteByIndex :: "nat \<Rightarrow> string \<Rightarrow> (string, NetworkAttachment list) result"
  en_remoteSync :: "nat \<Rightarrow> bool"
  en_iter :: "string list \<Rightarrow> string list"

datatype agent_error =
    OldLocalNotDeleted NamespacedName LocalNetIfc string
  | OldRemoteNotDeleted NamespacedName RemoteNetIfc string
  | LocalNotCreated NamespacedName LocalNetIfc string
  | RemoteNotCreated NamespacedName RemoteNetIfc string
  | FabricError string
  | StatusError api_error
  | LocalIfcsListFailed string
  | LocalIfcIndexFailed string string
  | LocalAttsListFailed string
  | RemoteIfcsListFailed string
  | RemoteCacheNotSynced uint32

datatype agent_panic = FabricPanic go_panic | CloseOfClosedChannel | MACPanic go_panic

definition NewConnectionAgent :: "string \<Rightarrow> IP \<Rightarrow> string list \<Rightarrow> 'w \<Rightarrow> 'w ConnectionAgent" where
  "NewConnectionAgent node ip progs w =
     \<lparr>localNodeName = node, hostIP = ip, allowedPrograms = progs, vniToVnState = Map.empty,
      nsnToVNStateVNI = Map.empty, nsnToLocalMainState = Map.empty, nsnToPostCreateExecReport = Map.empty,
      nsnToRemoteIfc = Map.empty, nsnToVNIs = Map.empty, ca_queue = [], ca_informers = [], ca_closed = [],
      ca_launched = [], ca_world = w\<rparr>"

definition queue_Add :: "NamespacedName \<Rightarrow> 'w ConnectionAgent \<Rightarrow> 'w ConnectionAgent" where
  "queue_Add n ca = ca\<lparr>ca_queue := ca_queue ca @ [QAdd n]\<rparr>"

section \<open>Accessors of the maps\<close>

definition getLocalAttState :: "'w ConnectionAgent \<Rightarrow> NamespacedName \<Rightarrow> LocalAttachmentState option" where
  "getLocalAttState ca n =
     (case nsnToLocalMainState ca n of
        None \<Rightarrow> None
      | Some main \<Rightarrow> Some \<lparr>MainState = main, StatePostCreateExecReport =
          (case nsnToPostCreateExecReport ca n of None \<Rightarrow> None | Some r \<Rightarrow> r)\<rparr>)"

definition setLocalAttMainState :: "NamespacedName \<Rightarrow> LocalAttachmentMainState \<Rightarrow> 'w ConnectionAgent \<Rightarrow> 'w ConnectionAgent" where
  "setLocalAttMainState n state ca = ca\<lparr>nsnToLocalMainState := (nsnToLocalMainState ca)(n \<mapsto> state)\<rparr>"

definition setExecReport :: "NamespacedName \<Rightarrow> ExecReport option \<Rightarrow> 'w ConnectionAgent \<Rightarrow> 'w ConnectionAgent" where
  "setExecReport n er ca =
     (if nsnToLocalMainState ca n \<noteq> None
      then ca\<lparr>nsnToPostCreateExecReport := (nsnToPostCreateExecReport ca)(n \<mapsto> er)\<rparr> else ca)"

definition getRemoteIfc :: "'w ConnectionAgent \<Rightarrow> NamespacedName \<Rightarrow> RemoteNetIfc option" where
  "getRemoteIfc ca n = nsnToRemoteIfc ca n"

definition assignRemoteIfc :: "NamespacedName \<Rightarrow> RemoteNetIfc \<Rightarrow> 'w ConnectionAgent \<Rightarrow> 'w ConnectionAgent" where
  "assignRemoteIfc n ifc ca = ca\<lparr>nsnToRemoteIfc := (nsnToRemoteIfc ca)(n \<mapsto> ifc)\<rparr>"

definition getVNStateVNI :: "'w ConnectionAgent \<Rightarrow> NamespacedName \<Rightarrow> uint32 option" where
  "getVNStateVNI ca n = nsnToVNStateVNI ca n"

definition unsetVNStateVNI :: "NamespacedName \<Rightarrow> 'w ConnectionAgent \<Rightarrow> 'w ConnectionAgent" where
  "unsetVNStateVNI n ca = ca\<lparr>nsnToVNStateVNI := (nsnToVNStateVNI ca)(n := None)\<rparr>"

definition setVNStateVNI :: "NamespacedName \<Rightarrow> uint32 \<Rightarrow> 'w ConnectionAgent \<Rightarrow> 'w ConnectionAgent" where
  "setVNStateVNI n vni ca = ca\<lparr>nsnToVNStateVNI := (nsnToVNStateVNI ca)(n \<mapsto> vni)\<rparr>"

definition unsetLocalAttState :: "NamespacedName \<Rightarrow> 'w ConnectionAgent \<Rightarrow> 'w ConnectionAgent" where
  "unsetLocalAttState n ca =
     ca\<lparr>nsnToLocalMainState := (nsnToLocalMainState ca)(n := None),
        nsnToPostCreateExecReport := (nsnToPostCreateExecReport ca)(n := None)\<rparr>"

definition unsetRemoteIfc :: "NamespacedName \<Rightarrow> 'w ConnectionAgent \<Rightarrow> 'w ConnectionAgent" where
  "unsetRemoteIfc n ca = ca\<lparr>nsnToRemoteIfc := (nsnToRemoteIfc ca)(n := None)\<rparr>"

definition addVNI :: "NamespacedName \<Rightarrow> uint32 \<Rightarrow> 'w ConnectionAgent \<Rightarrow> 'w ConnectionAgent" where
  "addVNI n vni ca =
     (let attVNIs = (case nsnToVNIs ca n of None \<Rightarrow> [] | Some vs \<Rightarrow> vs)
      in ca\<lparr>nsnToVNIs := (nsnToVNIs ca)(n \<mapsto> go_set_add vni attVNIs)\<rparr>)"

definition removeSeenInVNI :: "NamespacedName \<Rightarrow> uint32 \<Rightarrow> 'w ConnectionAgent \<Rightarrow> 'w ConnectionAgent" where
  "removeSeenInVNI n vni ca =
     (case nsnToVNIs ca n of
        None \<Rightarrow> ca
      | Some attVNIs \<Rightarrow>
          (let vs = go_set_del vni attVNIs
           in ca\<lparr>nsnToVNIs := (if vs = [] then (nsnToVNIs ca)(n := None) else (nsnToVNIs ca)(n \<mapsto> vs))\<rparr>))"

definition getAttSeenInVNI :: "'w ConnectionAgent \<Rightarrow> NamespacedName \<Rightarrow> uint32 \<times> nat" where
  "getAttSeenInVNI ca n =
     (case nsnToVNIs ca n of
        None \<Rightarrow> (0, 0)
      | Some attVNIs \<Rightarrow> (if length attVNIs = 1 then hd attVNIs else 0, length attVNIs))"

definition getRemoteAttListerForVNI :: "'w ConnectionAgent \<Rightarrow> uint32 \<Rightarrow> nat option" where
  "getRemoteAttListerForVNI ca vni = map_option vn_informer (vniToVnState ca vni)"

definition getRemoteAttsInformerForVNI :: "'w ConnectionAgent \<Rightarrow> uint32 \<Rightarrow> nat option" where
  "getRemoteAttsInformerForVNI ca vni = map_option vn_informer (vniToVnState ca vni)"

section \<open>Selectors, names and addresses\<close>

definition localAttWithAnIPSelector :: "'w ConnectionAgent \<Rightarrow> selector" where
  "localAttWithAnIPSelector ca =
     AndSelectors [OneTermEqualSelector ''spec.node'' (localNodeName ca), OneTermNotEqualSelector ''status.ipv4'' []]"

definition remoteAttInVNWithVirtualIPHostIPSelector :: "'w ConnectionAgent \<Rightarrow> uint32 \<Rightarrow> selector" where
  "remoteAttInVNWithVirtualIPHostIPSelector ca vni =
     AndSelectors
       [OneTermNotEqualSelector ''spec.node'' (localNodeName ca),
        OneTermNotEqualSelector ''status.hostIP'' (ip_String (hostIP ca)),
        OneTermNotEqualSelector ''status.ipv4'' [],
        OneTermNotEqualSelector ''status.hostIP'' [],
        OneTermEqualSelector ''status.addressVNI'' (sprintf_d vni)]"

definition fromFieldsSelectorToTweakListOptionsFunc :: "string \<Rightarrow> string \<Rightarrow> string" where
  "fromFieldsSelectorToTweakListOptionsFunc customFieldSelector optionsFieldSelector =
     (let allSelectors = (if Trim optionsFieldSelector '' '' \<noteq> [] then [optionsFieldSelector] else [])
      in join '','' (allSelectors @ [customFieldSelector]))"

definition attVNIAndIP :: "uint32 \<Rightarrow> string \<Rightarrow> string" where
  "attVNIAndIP vni ipv4 = format_uint 16 (unat vni) @ ''/'' @ ipv4"

definition attVNIAndIPIndexer :: "NetworkAttachment \<Rightarrow> string list" where
  "attVNIAndIPIndexer att = [attVNIAndIP (AddressVNI (att_Status att)) (Status_IPv4 (att_Status att))]"

definition ifcVNIAndIP :: "uint32 \<Rightarrow> IP \<Rightarrow> string" where
  "ifcVNIAndIP vni ipv4 = format_uint 16 (unat vni) @ ''/'' @ ip_String ipv4"

definition localIfcVNIAndIP :: "LocalNetIfc \<Rightarrow> string" where
  "localIfcVNIAndIP ifc = ifcVNIAndIP (li_VNI ifc) (li_GuestIP ifc)"

definition remoteIfcVNIAndIP :: "RemoteNetIfc \<Rightarrow> string" where
  "remoteIfcVNIAndIP ifc = ifcVNIAndIP (ri_VNI ifc) (ri_GuestIP ifc)"

definition generateMACAddr :: "uint32 \<Rightarrow> IP \<Rightarrow> (go_panic, HardwareAddr) result" where
  "generateMACAddr vni guestIPv4 =
     (case To4 guestIPv4 of
        [b0, b1, b2, b3] \<Rightarrow>
          Inr [((ucast (drop_bit 13 vni) AND 0xF8) OR push_bit 1 (b0 AND 0x02)) OR 2,
               b1, b2, b3, ucast (drop_bit 8 vni), ucast vni]
      | _ \<Rightarrow> Inl IndexOutOfRange)"

definition generateIfcName :: "HardwareAddr \<Rightarrow> string" where
  "generateIfcName macAddr = ''kos'' @ replace_all (hw_String macAddr) '':'' []"

definition ifcNeedsUpdate :: "IP \<Rightarrow> IP \<Rightarrow> HardwareAddr \<Rightarrow> HardwareAddr \<Rightarrow> bool" where
  "ifcNeedsUpdate ifcHostIP newHostIP ifcMAC newMAC \<longleftrightarrow> \<not> ip_Equal ifcHostIP newHostIP \<or> ifcMAC \<noteq> newMAC"

text \<open>An error is \<open>None\<close> or its text. The position of an error counts the nil ones too.\<close>

definition aggregateErrors :: "string \<Rightarrow> string option list \<Rightarrow> string option" where
  "aggregateErrors sep errs =
     (let aggregateErrsSlice = [''error nbr. '' @ format_uint 10 i @ '' '' @ the err.
            (i, err) \<leftarrow> enumerate 0 errs, err \<noteq> None \<and> Trim (the err) '' '' \<noteq> []]
      in if aggregateErrsSlice \<noteq> [] then Some (join sep aggregateErrsSlice) else None)"

section \<open>Commands\<close>

definition LaunchCommand :: "NamespacedName \<Rightarrow> LocalNetIfc \<Rightarrow> string list \<Rightarrow> string \<Rightarrow> bool \<Rightarrow> bool
    \<Rightarrow> 'w ConnectionAgent \<Rightarrow> string list \<times> 'w ConnectionAgent" where
  "LaunchCommand attNSN localIfc cmd what doit saveReport ca =
     (if cmd = [] then ([], ca)
      else if hd cmd \<notin> set (allowedPrograms ca)
      then ([what @ '' specifies non-allowed path '' @ hd cmd], ca)
      else if \<not> doit then ([], ca)
      else ([], ca\<lparr>ca_launched := ca_launched ca @
        [\<lparr>job_NSN = attNSN, job_ifc = localIfc, job_cmd = cmd, job_what = what, job_save = saveReport\<rparr>]\<rparr>))"

datatype exec_sys = WaitStatus int | OtherSys

datatype exec_err = NoExecErr | ExitError exec_sys | OtherExecErr

record exec_outcome =
  xo_start :: gotime
  xo_stop :: gotime
  xo_stdout :: string
  xo_stderr :: string
  xo_err :: exec_err

definition expand_arg :: "LocalNetIfc \<Rightarrow> string \<Rightarrow> string" where
  "expand_arg localIfc argi =
     replace_all (replace_all (replace_all argi ''${ifname}'' (li_Name localIfc))
       ''${ipv4}'' (ip_String (li_GuestIP localIfc)))
       ''${mac}'' (hw_String (li_GuestMAC localIfc))"

definition exec_status :: "exec_err \<Rightarrow> int" where
  "exec_status err =
     (case err of
        NoExecErr \<Rightarrow> 0
      | ExitError (WaitStatus s) \<Rightarrow> s
      | ExitError OtherSys \<Rightarrow> - 3
      | OtherExecErr \<Rightarrow> - 2)"

text \<open>\<open>run\<close> is the operating system: it runs a program on its arguments.\<close>

definition RunCommand :: "(string \<Rightarrow> string list \<Rightarrow> exec_outcome) \<Rightarrow> exec_job \<Rightarrow> 'w ConnectionAgent
    \<Rightarrow> (agent_panic, 'w ConnectionAgent) result" where
  "RunCommand run job ca =
     (case job_cmd job of
        [] \<Rightarrow> Inl (FabricPanic IndexOutOfRange)
      | prog # args \<Rightarrow>
          (let out = run prog (map (expand_arg (job_ifc job)) args);
               cr = \<lparr>ExitStatus = exec_status (xo_err out), StartTime = xo_start out, StopTime = xo_stop out,
                     StdOut = xo_stdout out, StdErr = xo_stderr out\<rparr>
           in if \<not> job_save job then Inr ca
              else Inr (queue_Add (job_NSN job) (setExecReport (job_NSN job) (Some cr) ca))))"

section \<open>Calls on the fabric\<close>

definition fab_call :: "(go_panic, 'a \<times> 'w) result \<Rightarrow> 'w ConnectionAgent
    \<Rightarrow> (agent_panic, 'a \<times> 'w ConnectionAgent) result" where
  "fab_call r ca = (case r of Inl p \<Rightarrow> Inl (FabricPanic p) | Inr (x, w) \<Rightarrow> Inr (x, ca\<lparr>ca_world := w\<rparr>))"

definition agent_DeleteLocalIfc :: "'w agent_env \<Rightarrow> LocalNetIfc \<Rightarrow> 'w ConnectionAgent
    \<Rightarrow> (agent_panic, string option \<times> 'w ConnectionAgent) result" where
  "agent_DeleteLocalIfc env ifc ca = fab_call (DeleteLocalIfc (en_fabric env) (ca_world ca) ifc) ca"

definition agent_DeleteRemoteIfc :: "'w agent_env \<Rightarrow> RemoteNetIfc \<Rightarrow> 'w ConnectionAgent
    \<Rightarrow> (agent_panic, string option \<times> 'w ConnectionAgent) result" where
  "agent_DeleteRemoteIfc env ifc ca = fab_call (DeleteRemoteIfc (en_fabric env) (ca_world ca) ifc) ca"

section \<open>Virtual network states\<close>

definition initVNState :: "uint32 \<Rightarrow> string \<Rightarrow> 'w ConnectionAgent \<Rightarrow> vnState \<times> 'w ConnectionAgent" where
  "initVNState vni namespace ca =
     (\<lparr>vn_informer = length (ca_informers ca), vn_namespace = namespace, localAtts = [], remoteAtts = []\<rparr>,
      ca\<lparr>ca_informers := ca_informers ca @
        [\<lparr>inf_namespace = namespace, inf_selector = remoteAttInVNWithVirtualIPHostIPSelector ca vni\<rparr>]\<rparr>)"

definition clearVNResources :: "'w agent_env \<Rightarrow> vnState \<Rightarrow> uint32 \<Rightarrow> 'w ConnectionAgent
    \<Rightarrow> (agent_panic, 'w ConnectionAgent) result" where
  "clearVNResources env vn vni ca =
     (if vn_informer vn \<in> set (ca_closed ca) then Inl CloseOfClosedChannel
      else Inr (fold (\<lambda>aRemoteAttName ca.
             let aRemoteAttNSN = nsn (vn_namespace vn) aRemoteAttName
             in queue_Add aRemoteAttNSN (removeSeenInVNI aRemoteAttNSN vni ca))
           (en_iter env (remoteAtts vn)) (ca\<lparr>ca_closed := ca_closed ca @ [vn_informer vn]\<rparr>)))"

definition removeAttFromVNState :: "string \<Rightarrow> uint32 \<Rightarrow> 'w ConnectionAgent \<Rightarrow> vnState option \<times> 'w ConnectionAgent" where
  "removeAttFromVNState attName vni ca =
     (case vniToVnState ca vni of
        None \<Rightarrow> (None, ca)
      | Some vn \<Rightarrow>
          (let vn1 = vn\<lparr>localAtts := go_set_del attName (localAtts vn)\<rparr> in
           if localAtts vn1 = [] then (Some vn1, ca\<lparr>vniToVnState := (vniToVnState ca)(vni := None)\<rparr>)
           else (None, ca\<lparr>vniToVnState := (vniToVnState ca)(vni \<mapsto>
                   vn1\<lparr>remoteAtts := go_set_del attName (remoteAtts vn1)\<rparr>)\<rparr>)))"

definition updateVNStateAfterAttDeparture :: "'w agent_env \<Rightarrow> string \<Rightarrow> uint32 \<Rightarrow> 'w ConnectionAgent
    \<Rightarrow> (agent_panic, 'w ConnectionAgent) result" where
  "updateVNStateAfterAttDeparture env attName vni ca =
     (case removeAttFromVNState attName vni ca of
        (None, ca1) \<Rightarrow> Inr ca1
      | (Some vn, ca1) \<Rightarrow> clearVNResources env vn vni ca1)"

definition add_local_att :: "NamespacedName \<Rightarrow> uint32 \<Rightarrow> 'w ConnectionAgent \<Rightarrow> 'w ConnectionAgent" where
  "add_local_att attNSN vni ca =
     (let (vn, ca1) = (case vniToVnState ca vni of
                         Some vn \<Rightarrow> (vn, ca)
                       | None \<Rightarrow> initVNState vni (nsn_Namespace attNSN) ca)
      in ca1\<lparr>vniToVnState := (vniToVnState ca1)(vni \<mapsto>
           vn\<lparr>remoteAtts := go_set_del (nsn_Name attNSN) (remoteAtts vn),
              localAtts := go_set_add (nsn_Name attNSN) (localAtts vn)\<rparr>)\<rparr>)"

definition add_remote_att :: "NamespacedName \<Rightarrow> uint32 \<Rightarrow> vnState \<Rightarrow> 'w ConnectionAgent
    \<Rightarrow> vnState option \<times> 'w ConnectionAgent" where
  "add_remote_att attNSN vni vn ca =
     (let vn1 = vn\<lparr>remoteAtts := go_set_add (nsn_Name attNSN) (remoteAtts vn),
                   localAtts := go_set_del (nsn_Name attNSN) (localAtts vn)\<rparr>
      in if localAtts vn1 = [] then (Some vn1, ca\<lparr>vniToVnState := (vniToVnState ca)(vni := None)\<rparr>)
         else (None, ca\<lparr>vniToVnState := (vniToVnState ca)(vni \<mapsto> vn1)\<rparr>))"

definition updateVNStateForExistingAtt :: "NamespacedName \<Rightarrow> bool \<Rightarrow> uint32 \<Rightarrow> 'w ConnectionAgent
    \<Rightarrow> vnState option \<times> bool \<times> 'w ConnectionAgent" where
  "updateVNStateForExistingAtt attNSN attIsLocal vni ca =
     (if attIsLocal then (None, False, setVNStateVNI attNSN vni (add_local_att attNSN vni ca))
      else
        (case vniToVnState ca vni of
           None \<Rightarrow> (None, True, unsetVNStateVNI attNSN ca)
         | Some vn \<Rightarrow>
             (case add_remote_att attNSN vni vn ca of
                (Some vn1, ca1) \<Rightarrow> (Some vn1, False, unsetVNStateVNI attNSN ca1)
              | (None, ca1) \<Rightarrow> (None, False, setVNStateVNI attNSN vni ca1))))"

definition updateVNState :: "'w agent_env \<Rightarrow> uint32 \<Rightarrow> NamespacedName \<Rightarrow> string \<Rightarrow> 'w ConnectionAgent
    \<Rightarrow> (agent_panic, vnState option \<times> bool \<times> 'w ConnectionAgent) result" where
  "updateVNState env attNewVNI attNSN attNode ca =
     (case (case getVNStateVNI ca attNSN of
              Some attOldVNI \<Rightarrow>
                if attOldVNI \<noteq> attNewVNI then
                  (case updateVNStateAfterAttDeparture env (nsn_Name attNSN) attOldVNI ca of
                     Inl p \<Rightarrow> Inl p
                   | Inr ca1 \<Rightarrow> Inr (unsetVNStateVNI attNSN ca1))
                else Inr ca
            | None \<Rightarrow> Inr ca) of
        Inl p \<Rightarrow> Inl p
      | Inr ca1 \<Rightarrow> Inr (updateVNStateForExistingAtt attNSN (attNode = localNodeName ca1) attNewVNI ca1))"

end
