(* ===== verification/Agent_Process.thy ===== *)
theory Agent_Process
  imports Agent
begin

text \<open>
  The connection agent, second part: notification handlers, the processing of a queue item, and
  the synchronisation of the interfaces that exist when the agent starts.
\<close>

section \<open>Notifications\<close>

definition onLocalAttAdded :: "NetworkAttachment \<Rightarrow> 'w ConnectionAgent \<Rightarrow> 'w ConnectionAgent" where
  "onLocalAttAdded att ca = queue_Add (AttNSN att) ca"

definition onLocalAttUpdated :: "NetworkAttachment \<Rightarrow> NetworkAttachment \<Rightarrow> 'w ConnectionAgent \<Rightarrow> 'w ConnectionAgent" where
  "onLocalAttUpdated oldAtt newAtt ca = queue_Add (AttNSN newAtt) ca"

definition onLocalAttRemoved :: "NetworkAttachment notified \<Rightarrow> 'w ConnectionAgent \<Rightarrow> 'w ConnectionAgent" where
  "onLocalAttRemoved obj ca = queue_Add (AttNSN (Peel obj)) ca"

definition onRemoteAttAdded :: "NetworkAttachment \<Rightarrow> 'w ConnectionAgent \<Rightarrow> 'w ConnectionAgent" where
  "onRemoteAttAdded att ca = queue_Add (AttNSN att) (addVNI (AttNSN att) (AddressVNI (att_Status att)) ca)"

definition onRemoteAttUpdated :: "NetworkAttachment \<Rightarrow> NetworkAttachment \<Rightarrow> 'w ConnectionAgent \<Rightarrow> 'w ConnectionAgent" where
  "onRemoteAttUpdated oldAtt newAtt ca = queue_Add (AttNSN newAtt) ca"

definition onRemoteAttRemoved :: "NetworkAttachment notified \<Rightarrow> 'w ConnectionAgent \<Rightarrow> 'w ConnectionAgent" where
  "onRemoteAttRemoved obj ca =
     (let att = Peel obj
      in queue_Add (AttNSN att) (removeSeenInVNI (AttNSN att) (AddressVNI (att_Status att)) ca))"

section \<open>Finding the current version of an attachment\<close>

definition lookup_failed :: "(api_error, NetworkAttachment) result \<Rightarrow> bool" where
  "lookup_failed r = (case r of Inl e \<Rightarrow> ae_reason e \<noteq> ReasonNotFound | Inr _ \<Rightarrow> False)"

definition found :: "(api_error, NetworkAttachment) result \<Rightarrow> NetworkAttachment option" where
  "found r = (case r of Inl _ \<Rightarrow> None | Inr a \<Rightarrow> Some a)"

definition remote_lookup :: "'w agent_env \<Rightarrow> 'w ConnectionAgent \<Rightarrow> NamespacedName
    \<Rightarrow> (api_error, NetworkAttachment) result option" where
  "remote_lookup env ca attNSN =
     (let (vni, nbrOfVNIs) = getAttSeenInVNI ca attNSN in
      if nbrOfVNIs = 1 then
        (case getRemoteAttListerForVNI ca vni of
           None \<Rightarrow> None
         | Some lister \<Rightarrow> Some (en_remoteLister env lister (nsn_Name attNSN)))
      else None)"

definition getAttachment :: "'w agent_env \<Rightarrow> 'w ConnectionAgent \<Rightarrow> NamespacedName \<Rightarrow> NetworkAttachment option \<times> bool" where
  "getAttachment env ca attNSN =
     (let (vni, nbrOfVNIs) = getAttSeenInVNI ca attNSN in
      if 1 < nbrOfVNIs then (None, False)
      else
        (let remote = remote_lookup env ca attNSN;
             remoteFailed = (case remote of None \<Rightarrow> False | Some r \<Rightarrow> lookup_failed r);
             attAsRemote = (case remote of None \<Rightarrow> None | Some r \<Rightarrow> found r);
             loc = en_localLister env (nsn_Namespace attNSN) (nsn_Name attNSN);
             attAsLocal = found loc
         in if remoteFailed \<or> lookup_failed loc then (None, True)
            else if attAsLocal \<noteq> None \<and> attAsRemote \<noteq> None then (None, True)
            else if attAsLocal \<noteq> None \<and> attAsRemote = None then (attAsLocal, False)
            else if attAsLocal = None \<and> attAsRemote \<noteq> None then (attAsRemote, False)
            else (None, True)))"

section \<open>Interfaces of an attachment\<close>

record ifc_result =
  res_MAC :: string
  res_Name :: string
  res_statusErrs :: "string list"
  res_pcer :: "ExecReport option"

text \<open>The old interface goes first.\<close>

definition delete_old_ifc :: "'w agent_env \<Rightarrow> NamespacedName \<Rightarrow> 'w ConnectionAgent
    \<Rightarrow> (agent_panic, agent_error option \<times> 'w ConnectionAgent) result" where
  "delete_old_ifc env attNSN ca =
     (case getLocalAttState ca attNSN of
        Some old \<Rightarrow>
          (let ifc = LocalIfc (MainState old) in
           case agent_DeleteLocalIfc env ifc ca of
             Inl p \<Rightarrow> Inl p
           | Inr (Some err, ca1) \<Rightarrow> Inr (Some (OldLocalNotDeleted attNSN ifc err), ca1)
           | Inr (None, ca1) \<Rightarrow>
               Inr (None, unsetLocalAttState attNSN
                 (snd (LaunchCommand attNSN ifc (MainPostDeleteExec (MainState old)) ''postDelete'' True False ca1))))
      | None \<Rightarrow>
          (case getRemoteIfc ca attNSN of
             Some ifc \<Rightarrow>
               (case agent_DeleteRemoteIfc env ifc ca of
                  Inl p \<Rightarrow> Inl p
                | Inr (Some err, ca1) \<Rightarrow> Inr (Some (OldRemoteNotDeleted attNSN ifc err), ca1)
                | Inr (None, ca1) \<Rightarrow> Inr (None, unsetRemoteIfc attNSN ca1))
           | None \<Rightarrow> Inr (None, ca)))"

definition create_new_ifc :: "'w agent_env \<Rightarrow> NamespacedName \<Rightarrow> IP \<Rightarrow> IP \<Rightarrow> uint32 \<Rightarrow> HardwareAddr
    \<Rightarrow> string list \<Rightarrow> string list \<Rightarrow> 'w ConnectionAgent
    \<Rightarrow> (agent_panic, (agent_error, string list) result \<times> 'w ConnectionAgent) result" where
  "create_new_ifc env attNSN attGuestIP attHostIP attVNI attMAC postCreate postDelete ca =
     (if ip_Equal attHostIP (hostIP ca) then
        (let ifc = \<lparr>li_Name = generateIfcName attMAC, li_VNI = attVNI, li_GuestMAC = attMAC, li_GuestIP = attGuestIP\<rparr> in
         case fab_call (CreateLocalIfc (en_fabric env) (ca_world ca) ifc) ca of
           Inl p \<Rightarrow> Inl p
         | Inr (Some err, ca1) \<Rightarrow> Inr (Inl (LocalNotCreated attNSN ifc err), ca1)
         | Inr (None, ca1) \<Rightarrow>
             (let (errs, ca2) = LaunchCommand attNSN ifc postCreate ''postCreateExec'' True True
                    (setLocalAttMainState attNSN \<lparr>LocalIfc = ifc, MainPostDeleteExec = postDelete\<rparr> ca1)
              in Inr (Inr errs, ca2)))
      else
        (let ifc = \<lparr>ri_VNI = attVNI, ri_GuestMAC = attMAC, ri_GuestIP = attGuestIP, ri_HostIP = attHostIP\<rparr> in
         case fab_call (CreateRemoteIfc (en_fabric env) (ca_world ca) ifc) ca of
           Inl p \<Rightarrow> Inl p
         | Inr (Some err, ca1) \<Rightarrow> Inr (Inl (RemoteNotCreated attNSN ifc err), ca1)
         | Inr (None, ca1) \<Rightarrow> Inr (Inr [], assignRemoteIfc attNSN ifc ca1)))"

definition newIfcNeedsToBeCreated :: "'w ConnectionAgent \<Rightarrow> NamespacedName \<Rightarrow> IP \<Rightarrow> HardwareAddr \<Rightarrow> bool" where
  "newIfcNeedsToBeCreated ca attNSN attHostIP attMAC \<longleftrightarrow>
     getLocalAttState ca attNSN = None \<and> getRemoteIfc ca attNSN = None \<or>
     (case getLocalAttState ca attNSN of
        None \<Rightarrow> False
      | Some old \<Rightarrow> ifcNeedsUpdate (hostIP ca) attHostIP (li_GuestMAC (LocalIfc (MainState old))) attMAC) \<or>
     (case getRemoteIfc ca attNSN of
        None \<Rightarrow> False
      | Some old \<Rightarrow> ifcNeedsUpdate (ri_HostIP old) attHostIP (ri_GuestMAC old) attMAC)"

definition createOrUpdateIfc :: "'w agent_env \<Rightarrow> IP \<Rightarrow> IP \<Rightarrow> uint32 \<Rightarrow> NamespacedName \<Rightarrow> string list \<Rightarrow> string list
    \<Rightarrow> 'w ConnectionAgent \<Rightarrow> (agent_panic, (agent_error, ifc_result) result \<times> 'w ConnectionAgent) result" where
  "createOrUpdateIfc env attGuestIP attHostIP attVNI attNSN postCreate postDelete ca =
     (case generateMACAddr attVNI attGuestIP of
        Inl p \<Rightarrow> Inl (MACPanic p)
      | Inr attMAC \<Rightarrow>
          (let res0 = \<lparr>res_MAC = hw_String attMAC, res_Name = generateIfcName attMAC, res_statusErrs = [], res_pcer = None\<rparr> in
           if newIfcNeedsToBeCreated ca attNSN attHostIP attMAC then
             (case delete_old_ifc env attNSN ca of
                Inl p \<Rightarrow> Inl p
              | Inr (Some err, ca1) \<Rightarrow> Inr (Inl err, ca1)
              | Inr (None, ca1) \<Rightarrow>
                  (case create_new_ifc env attNSN attGuestIP attHostIP attVNI attMAC postCreate postDelete ca1 of
                     Inl p \<Rightarrow> Inl p
                   | Inr (Inl err, ca2) \<Rightarrow> Inr (Inl err, ca2)
                   | Inr (Inr errs, ca2) \<Rightarrow> Inr (Inr (res0\<lparr>res_statusErrs := errs\<rparr>), ca2)))
           else
             (case getLocalAttState ca attNSN of
                Some old \<Rightarrow>
                  (let (errs, ca1) = LaunchCommand attNSN (LocalIfc (MainState old)) postCreate ''postCreateExec'' False True ca
                   in Inr (Inr (res0\<lparr>res_statusErrs := errs, res_pcer := StatePostCreateExecReport old\<rparr>), ca1))
              | None \<Rightarrow> Inr (Inr res0, ca))))"

definition host_status :: "'w ConnectionAgent \<Rightarrow> NetworkAttachment \<Rightarrow> ifc_result \<Rightarrow> NetworkAttachment" where
  "host_status ca att res =
     att\<lparr>att_Status := (att_Status att)\<lparr>
       Errors := (Errors (att_Status att))\<lparr>Host_errs := res_statusErrs res\<rparr>,
       MACAddress := res_MAC res,
       HostIP := ip_String (hostIP ca),
       IfcName := res_Name res,
       PostCreateExecReport := res_pcer res\<rparr>\<rparr>"

definition setAttStatus :: "'w agent_env \<Rightarrow> NetworkAttachment \<Rightarrow> ifc_result \<Rightarrow> 'w ConnectionAgent
    \<Rightarrow> (api_error, NetworkAttachment) result \<times> 'w ConnectionAgent" where
  "setAttStatus env att res ca =
     (let att2 = host_status ca att res;
          (r, w) = en_Update env (ca_world ca) (meta_Namespace (att_meta att2)) att2
      in (r, ca\<lparr>ca_world := w\<rparr>))"

definition status_differs :: "'w ConnectionAgent \<Rightarrow> NetworkAttachment \<Rightarrow> ifc_result \<Rightarrow> bool" where
  "status_differs ca att res \<longleftrightarrow>
     ip_String (hostIP ca) \<noteq> HostIP (att_Status att) \<or>
     res_Name res \<noteq> IfcName (att_Status att) \<or>
     res_MAC res \<noteq> MACAddress (att_Status att) \<or>
     \<not> Equiv (res_pcer res) (PostCreateExecReport (att_Status att)) \<or>
     \<not> SliceOfString_Equal (res_statusErrs res) (Host_errs (Errors (att_Status att)))"

section \<open>Processing\<close>

definition processDeletedAtt :: "'w agent_env \<Rightarrow> NamespacedName \<Rightarrow> 'w ConnectionAgent
    \<Rightarrow> (agent_panic, agent_error option \<times> 'w ConnectionAgent) result" where
  "processDeletedAtt env attNSN ca =
     (case (case getVNStateVNI ca attNSN of
              None \<Rightarrow> Inr ca
            | Some vni \<Rightarrow>
                (case updateVNStateAfterAttDeparture env (nsn_Name attNSN) vni ca of
                   Inl p \<Rightarrow> Inl p
                 | Inr ca1 \<Rightarrow> Inr (unsetVNStateVNI attNSN ca1))) of
        Inl p \<Rightarrow> Inl p
      | Inr ca1 \<Rightarrow>
          (case getLocalAttState ca1 attNSN of
             Some localState \<Rightarrow>
               (let ifc = LocalIfc (MainState localState) in
                case agent_DeleteLocalIfc env ifc ca1 of
                  Inl p \<Rightarrow> Inl p
                | Inr (Some err, ca2) \<Rightarrow> Inr (Some (FabricError err), ca2)
                | Inr (None, ca2) \<Rightarrow>
                    Inr (None, unsetLocalAttState attNSN (snd (LaunchCommand attNSN ifc
                      (MainPostDeleteExec (MainState localState)) ''postDelete'' True False ca2))))
           | None \<Rightarrow>
               (case getRemoteIfc ca1 attNSN of
                  None \<Rightarrow> Inr (None, ca1)
                | Some remoteIfc \<Rightarrow>
                    (case agent_DeleteRemoteIfc env remoteIfc ca1 of
                       Inl p \<Rightarrow> Inl p
                     | Inr (Some err, ca2) \<Rightarrow> Inr (Some (FabricError err), ca2)
                     | Inr (None, ca2) \<Rightarrow> Inr (None, unsetRemoteIfc attNSN ca2)))))"

definition att_host_ip :: "'w ConnectionAgent \<Rightarrow> NetworkAttachment \<Rightarrow> IP" where
  "att_host_ip ca att =
     (if Node (att_Spec att) = localNodeName ca then hostIP ca else ParseIP (HostIP (att_Status att)))"

text \<open>The part of \<open>processExistingAtt\<close> after the virtual network state is up to date.\<close>

definition process_ifc :: "'w agent_env \<Rightarrow> NetworkAttachment \<Rightarrow> 'w ConnectionAgent
    \<Rightarrow> (agent_panic, agent_error option \<times> 'w ConnectionAgent) result" where
  "process_ifc env att ca =
     (case createOrUpdateIfc env (ParseIP (Status_IPv4 (att_Status att))) (att_host_ip ca att)
             (AddressVNI (att_Status att)) (AttNSN att) (PostCreateExec (att_Spec att)) (PostDeleteExec (att_Spec att)) ca of
        Inl p \<Rightarrow> Inl p
      | Inr (Inl err, ca1) \<Rightarrow> Inr (Some err, ca1)
      | Inr (Inr res, ca1) \<Rightarrow>
          if Node (att_Spec att) \<noteq> localNodeName ca1 then Inr (None, ca1)
          else if status_differs ca1 att res then
            (case setAttStatus env att res ca1 of
               (Inl err, ca2) \<Rightarrow> Inr (Some (StatusError err), ca2)
             | (Inr _, ca2) \<Rightarrow> Inr (None, ca2))
          else Inr (None, ca1))"

definition processExistingAtt :: "'w agent_env \<Rightarrow> NetworkAttachment \<Rightarrow> 'w ConnectionAgent
    \<Rightarrow> (agent_panic, agent_error option \<times> 'w ConnectionAgent) result" where
  "processExistingAtt env att ca =
     (let attNSN = AttNSN att; attVNI = AddressVNI (att_Status att) in
      case updateVNState env attVNI attNSN (Node (att_Spec att)) ca of
        Inl p \<Rightarrow> Inl p
      | Inr (Some vn, _, ca1) \<Rightarrow>
          (case clearVNResources env vn attVNI ca1 of
             Inl p \<Rightarrow> Inl p
           | Inr ca2 \<Rightarrow> Inr (None, ca2))
      | Inr (None, True, ca1) \<Rightarrow> processDeletedAtt env attNSN (removeSeenInVNI attNSN attVNI ca1)
      | Inr (None, False, ca1) \<Rightarrow> process_ifc env att ca1)"

definition agent_processNetworkAttachment :: "'w agent_env \<Rightarrow> NamespacedName \<Rightarrow> 'w ConnectionAgent
    \<Rightarrow> (agent_panic, agent_error option \<times> 'w ConnectionAgent) result" where
  "agent_processNetworkAttachment env attNSN ca =
     (case getAttachment env ca attNSN of
        (Some att, _) \<Rightarrow> processExistingAtt env att ca
      | (None, True) \<Rightarrow> processDeletedAtt env attNSN ca
      | (None, False) \<Rightarrow> Inr (None, ca))"

definition agent_processQueueItem :: "'w agent_env \<Rightarrow> NamespacedName \<Rightarrow> 'w ConnectionAgent
    \<Rightarrow> (agent_panic, 'w ConnectionAgent) result" where
  "agent_processQueueItem env attNSN ca =
     (case agent_processNetworkAttachment env attNSN ca of
        Inl p \<Rightarrow> Inl p
      | Inr (err, ca1) \<Rightarrow>
          Inr (ca1\<lparr>ca_queue := ca_queue ca1 @
            [if err \<noteq> None then QAddRateLimited attNSN else QForget attNSN, QDone attNSN]\<rparr>))"

section \<open>Interfaces that exist at start-up\<close>

text \<open>The deletions are retried without end; \<open>fuel\<close> bounds the attempts, \<open>None\<close> is for no end.\<close>

fun delete_local_retry :: "nat \<Rightarrow> 'w agent_env \<Rightarrow> LocalNetIfc \<Rightarrow> 'w ConnectionAgent
    \<Rightarrow> (agent_panic, 'w ConnectionAgent) result option" where
  "delete_local_retry 0 env ifc ca = None"
| "delete_local_retry (Suc fuel) env ifc ca =
     (case agent_DeleteLocalIfc env ifc ca of
        Inl p \<Rightarrow> Some (Inl p)
      | Inr (None, ca1) \<Rightarrow> Some (Inr ca1)
      | Inr (Some _, ca1) \<Rightarrow> delete_local_retry fuel env ifc ca1)"

fun delete_remote_retry :: "nat \<Rightarrow> 'w agent_env \<Rightarrow> RemoteNetIfc \<Rightarrow> 'w ConnectionAgent
    \<Rightarrow> (agent_panic, 'w ConnectionAgent) result option" where
  "delete_remote_retry 0 env ifc ca = None"
| "delete_remote_retry (Suc fuel) env ifc ca =
     (case agent_DeleteRemoteIfc env ifc ca of
        Inl p \<Rightarrow> Some (Inl p)
      | Inr (None, ca1) \<Rightarrow> Some (Inr ca1)
      | Inr (Some _, ca1) \<Rightarrow> delete_remote_retry fuel env ifc ca1)"

fun sync_local_loop :: "nat \<Rightarrow> 'w agent_env \<Rightarrow> LocalNetIfc list \<Rightarrow> 'w ConnectionAgent
    \<Rightarrow> (agent_panic, agent_error option \<times> 'w ConnectionAgent) result option" where
  "sync_local_loop fuel env [] ca = Some (Inr (None, ca))"
| "sync_local_loop fuel env (ifc # ifcs) ca =
     (case en_localByIndex env (localIfcVNIAndIP ifc) of
        Inl err \<Rightarrow> Some (Inr (Some (LocalIfcIndexFailed (localIfcVNIAndIP ifc) err), ca))
      | Inr ifcOwnerAtts \<Rightarrow>
          (let (orphan, ca1) =
             (case ifcOwnerAtts of
                [ifcOwnerAtt] \<Rightarrow>
                  (let n = AttNSN ifcOwnerAtt
                   in (map_option (LocalIfc \<circ> MainState) (getLocalAttState ca n),
                       setExecReport n (PostCreateExecReport (att_Status ifcOwnerAtt))
                         (setLocalAttMainState n
                           \<lparr>LocalIfc = ifc, MainPostDeleteExec = PostDeleteExec (att_Spec ifcOwnerAtt)\<rparr> ca)))
              | _ \<Rightarrow> (Some ifc, ca))
           in case orphan of
                None \<Rightarrow> sync_local_loop fuel env ifcs ca1
              | Some old \<Rightarrow>
                  (case delete_local_retry fuel env old ca1 of
                     None \<Rightarrow> None
                   | Some (Inl p) \<Rightarrow> Some (Inl p)
                   | Some (Inr ca2) \<Rightarrow> sync_local_loop fuel env ifcs ca2)))"

definition syncPreExistingLocalIfcs :: "nat \<Rightarrow> 'w agent_env \<Rightarrow> 'w ConnectionAgent
    \<Rightarrow> (agent_panic, agent_error option \<times> 'w ConnectionAgent) result option" where
  "syncPreExistingLocalIfcs fuel env ca =
     (case fab_call (ListLocalIfcs (en_fabric env) (ca_world ca)) ca of
        Inl p \<Rightarrow> Some (Inl p)
      | Inr (Inl err, ca1) \<Rightarrow> Some (Inr (Some (LocalIfcsListFailed err), ca1))
      | Inr (Inr ifcs, ca1) \<Rightarrow> sync_local_loop fuel env ifcs ca1)"

fun sync_remote_loop :: "nat \<Rightarrow> 'w agent_env \<Rightarrow> RemoteNetIfc list \<Rightarrow> 'w ConnectionAgent
    \<Rightarrow> (agent_panic, agent_error option \<times> 'w ConnectionAgent) result option" where
  "sync_remote_loop fuel env [] ca = Some (Inr (None, ca))"
| "sync_remote_loop fuel env (ifc # ifcs) ca =
     (let informer = getRemoteAttsInformerForVNI ca (ri_VNI ifc) in
      if (case informer of None \<Rightarrow> False | Some i \<Rightarrow> \<not> en_remoteSync env i)
      then Some (Inr (Some (RemoteCacheNotSynced (ri_VNI ifc)), ca))
      else
        (let ifcOwnerAtts =
           (case informer of
              None \<Rightarrow> []
            | Some i \<Rightarrow> (case en_remoteByIndex env i (remoteIfcVNIAndIP ifc) of Inl _ \<Rightarrow> [] | Inr atts \<Rightarrow> atts))
         in case ifcOwnerAtts of
              [ifcOwnerAtt] \<Rightarrow>
                (let n = AttNSN ifcOwnerAtt; ca1 = assignRemoteIfc n ifc ca in
                 case getRemoteIfc ca n of
                   Some old \<Rightarrow>
                     (case delete_remote_retry fuel env old ca1 of
                        None \<Rightarrow> None
                      | Some (Inl p) \<Rightarrow> Some (Inl p)
                      | Some (Inr ca2) \<Rightarrow> sync_remote_loop fuel env ifcs ca2)
                 | None \<Rightarrow>
                     (case getLocalAttState ca1 n of
                        None \<Rightarrow> sync_remote_loop fuel env ifcs ca1
                      | Some oldLocal \<Rightarrow>
                          (case delete_local_retry fuel env (LocalIfc (MainState oldLocal)) ca1 of
                             None \<Rightarrow> None
                           | Some (Inl p) \<Rightarrow> Some (Inl p)
                           | Some (Inr ca2) \<Rightarrow> sync_remote_loop fuel env ifcs ca2)))
            | _ \<Rightarrow>
                (case delete_remote_retry fuel env ifc ca of
                   None \<Rightarrow> None
                 | Some (Inl p) \<Rightarrow> Some (Inl p)
                 | Some (Inr ca2) \<Rightarrow> sync_remote_loop fuel env ifcs ca2)))"

definition start_remote_caches :: "NetworkAttachment list \<Rightarrow> 'w ConnectionAgent \<Rightarrow> 'w ConnectionAgent" where
  "start_remote_caches atts ca =
     fold (\<lambda>att ca. snd (snd (updateVNStateForExistingAtt (AttNSN att) True (AddressVNI (att_Status att)) ca))) atts ca"

definition syncPreExistingRemoteIfcs :: "nat \<Rightarrow> 'w agent_env \<Rightarrow> 'w ConnectionAgent
    \<Rightarrow> (agent_panic, agent_error option \<times> 'w ConnectionAgent) result option" where
  "syncPreExistingRemoteIfcs fuel env ca =
     (case en_localList env of
        Inl err \<Rightarrow> Some (Inr (Some (LocalAttsListFailed err), ca))
      | Inr allLocalAtts \<Rightarrow>
          (let ca1 = start_remote_caches allLocalAtts ca in
           case fab_call (ListRemoteIfcs (en_fabric env) (ca_world ca1)) ca1 of
             Inl p \<Rightarrow> Some (Inl p)
           | Inr (Inl err, ca2) \<Rightarrow> Some (Inr (Some (RemoteIfcsListFailed err), ca2))
           | Inr (Inr ifcs, ca2) \<Rightarrow> sync_remote_loop fuel env ifcs ca2))"

definition syncPreExistingIfcs :: "nat \<Rightarrow> 'w agent_env \<Rightarrow> 'w ConnectionAgent
    \<Rightarrow> (agent_panic, agent_error option \<times> 'w ConnectionAgent) result option" where
  "syncPreExistingIfcs fuel env ca =
     (case syncPreExistingLocalIfcs fuel env ca of
        None \<Rightarrow> None
      | Some (Inl p) \<Rightarrow> Some (Inl p)
      | Some (Inr (Some err, ca1)) \<Rightarrow> Some (Inr (Some err, ca1))
      | Some (Inr (None, ca1)) \<Rightarrow> syncPreExistingRemoteIfcs fuel env ca1)"

end
