(* ===== verification/Agent_VN.thy ===== *)
theory Agent_VN
  imports Agent_Process
begin

text \<open>
  The invariant of the virtual network states of the connection agent. \<open>ns_of\<close> gives the namespace
  of each virtual network, which the validation of subnets keeps unique.
\<close>

section \<open>The invariant\<close>

definition vn_ok :: "(uint32 \<Rightarrow> string) \<Rightarrow> 'w ConnectionAgent \<Rightarrow> uint32 \<Rightarrow> vnState \<Rightarrow> bool" where
  "vn_ok ns_of ca vni vn \<longleftrightarrow>
     localAtts vn \<noteq> [] \<and> distinct (localAtts vn) \<and> distinct (remoteAtts vn) \<and>
     set (localAtts vn) \<inter> set (remoteAtts vn) = {} \<and>
     vn_namespace vn = ns_of vni \<and>
     vn_informer vn < length (ca_informers ca) \<and> vn_informer vn \<notin> set (ca_closed ca) \<and>
     ca_informers ca ! vn_informer vn =
       \<lparr>inf_namespace = ns_of vni, inf_selector = remoteAttInVNWithVirtualIPHostIPSelector ca vni\<rparr> \<and>
     (\<forall>name \<in> set (localAtts vn) \<union> set (remoteAtts vn). nsnToVNStateVNI ca (nsn (ns_of vni) name) = Some vni)"

definition vn_inv :: "(uint32 \<Rightarrow> string) \<Rightarrow> 'w ConnectionAgent \<Rightarrow> bool" where
  "vn_inv ns_of ca \<longleftrightarrow>
     (\<forall>vni vn. vniToVnState ca vni = Some vn \<longrightarrow> vn_ok ns_of ca vni vn) \<and>
     (\<forall>vni vni' vn vn'. vniToVnState ca vni = Some vn \<longrightarrow> vniToVnState ca vni' = Some vn' \<longrightarrow>
        vn_informer vn = vn_informer vn' \<longrightarrow> vni = vni') \<and>
     (\<forall>i < length (ca_informers ca). i \<notin> set (ca_closed ca) \<longrightarrow>
        (\<exists>vni vn. vniToVnState ca vni = Some vn \<and> vn_informer vn = i)) \<and>
     distinct (ca_closed ca) \<and> (\<forall>i\<in>set (ca_closed ca). i < length (ca_informers ca)) \<and>
     (\<forall>n vni. nsnToVNStateVNI ca n = Some vni \<longrightarrow> nsn_Namespace n = ns_of vni)"

text \<open>Between the removal of a state and the closing of its channel, that one informer is not accounted for.\<close>

definition vn_inv_but :: "(uint32 \<Rightarrow> string) \<Rightarrow> nat \<Rightarrow> 'w ConnectionAgent \<Rightarrow> bool" where
  "vn_inv_but ns_of i ca \<longleftrightarrow>
     i < length (ca_informers ca) \<and> i \<notin> set (ca_closed ca) \<and>
     (\<forall>vni vn. vniToVnState ca vni = Some vn \<longrightarrow> vn_informer vn \<noteq> i) \<and>
     vn_inv ns_of (ca\<lparr>ca_closed := ca_closed ca @ [i]\<rparr>)"

definition vn_view where
  "vn_view ca = (vniToVnState ca, nsnToVNStateVNI ca, ca_informers ca, ca_closed ca, localNodeName ca, hostIP ca)"

lemma vn_ok_cong: "vn_view ca' = vn_view ca \<Longrightarrow> vn_ok ns_of ca' vni vn = vn_ok ns_of ca vni vn"
  by (simp add: vn_view_def vn_ok_def remoteAttInVNWithVirtualIPHostIPSelector_def)

lemma vn_inv_cong: "vn_view ca' = vn_view ca \<Longrightarrow> vn_inv ns_of ca' = vn_inv ns_of ca"
  using vn_ok_cong [of ca' ca] by (simp add: vn_view_def vn_inv_def)

lemma vn_view_simps [simp]:
  "vn_view (queue_Add n ca) = vn_view ca"
  "vn_view (removeSeenInVNI n vni ca) = vn_view ca"
  "vn_view (addVNI n vni ca) = vn_view ca"
  "vn_view (setLocalAttMainState n m ca) = vn_view ca"
  "vn_view (setExecReport n er ca) = vn_view ca"
  "vn_view (assignRemoteIfc n ifc ca) = vn_view ca"
  "vn_view (unsetLocalAttState n ca) = vn_view ca"
  "vn_view (unsetRemoteIfc n ca) = vn_view ca"
  "vn_view (snd (LaunchCommand n li cmd what doit save ca)) = vn_view ca"
  "vn_view (ca\<lparr>ca_world := w\<rparr>) = vn_view ca"
  "vn_view (ca\<lparr>ca_queue := q\<rparr>) = vn_view ca"
  "vn_view (ca\<lparr>ca_launched := js\<rparr>) = vn_view ca"
  by (auto simp: vn_view_def queue_Add_def removeSeenInVNI_def addVNI_def setLocalAttMainState_def setExecReport_def
      assignRemoteIfc_def unsetLocalAttState_def unsetRemoteIfc_def LaunchCommand_def Let_def split: option.split)

lemma fab_call_view: "fab_call r ca = Inr (x, ca') \<Longrightarrow> vn_view ca' = vn_view ca"
  by (auto simp: fab_call_def split: sum.splits)

lemma vn_inv_New [simp]: "vn_inv ns_of (NewConnectionAgent node ip progs w)"
  by (simp add: vn_inv_def NewConnectionAgent_def)

section \<open>Steps on virtual network states\<close>

lemma clearVNResources_view:
  assumes "clearVNResources env vn vni ca = Inr ca'"
  shows "vn_view ca' = vn_view (ca\<lparr>ca_closed := ca_closed ca @ [vn_informer vn]\<rparr>)"
proof -
  have "vn_view (fold (\<lambda>name ca. let n = nsn (vn_namespace vn) name
      in queue_Add n (removeSeenInVNI n vni ca)) names ca) = vn_view ca" for names and ca :: "'w ConnectionAgent"
    by (induction names arbitrary: ca) (simp_all add: Let_def)
  then show ?thesis using assms by (auto simp: clearVNResources_def split: if_splits)
qed

lemma clearVNResources_ok:
  assumes "vn_inv_but ns_of (vn_informer vn) ca"
  shows "\<exists>ca'. clearVNResources env vn vni ca = Inr ca' \<and> vn_inv ns_of ca'"
proof -
  obtain ca' where run: "clearVNResources env vn vni ca = Inr ca'"
    using assms by (auto simp: clearVNResources_def vn_inv_but_def)
  from clearVNResources_view [OF this] have "vn_inv ns_of ca' = vn_inv ns_of (ca\<lparr>ca_closed := ca_closed ca @ [vn_informer vn]\<rparr>)"
    by (rule vn_inv_cong)
  then show ?thesis using run assms by (simp add: vn_inv_but_def)
qed

text \<open>
  An update of one virtual network state that keeps its informer, with the entry of the attachment
  set or unset accordingly, keeps the invariant.
\<close>

lemma selector_update [simp]:
  "remoteAttInVNWithVirtualIPHostIPSelector (ca\<lparr>vniToVnState := m\<rparr>) vni = remoteAttInVNWithVirtualIPHostIPSelector ca vni"
  "remoteAttInVNWithVirtualIPHostIPSelector (ca\<lparr>nsnToVNStateVNI := m'\<rparr>) vni = remoteAttInVNWithVirtualIPHostIPSelector ca vni"
  "remoteAttInVNWithVirtualIPHostIPSelector (ca\<lparr>ca_informers := is\<rparr>) vni = remoteAttInVNWithVirtualIPHostIPSelector ca vni"
  "remoteAttInVNWithVirtualIPHostIPSelector (ca\<lparr>ca_closed := cs\<rparr>) vni = remoteAttInVNWithVirtualIPHostIPSelector ca vni"
  by (simp_all add: remoteAttInVNWithVirtualIPHostIPSelector_def)

lemma vn_invD:
  assumes "vn_inv ns_of ca" "vniToVnState ca vni = Some vn"
  shows "vn_ok ns_of ca vni vn"
  using assms by (simp add: vn_inv_def)

lemma nsn_eq [simp]: "nsn ns a = nsn ns' b \<longleftrightarrow> ns = ns' \<and> a = b"
  by (simp add: nsn_def)

lemma nsn_collapse [simp]: "nsn (nsn_Namespace n) (nsn_Name n) = n"
  by (simp add: nsn_def)

text \<open>An attachment that is in no state, or only in that of \<open>vni\<close>.\<close>

definition only_in :: "(uint32 \<Rightarrow> string) \<Rightarrow> uint32 \<Rightarrow> NamespacedName \<Rightarrow> 'w ConnectionAgent \<Rightarrow> bool" where
  "only_in ns_of vni n ca \<longleftrightarrow> nsn_Namespace n = ns_of vni \<and> nsnToVNStateVNI ca n \<in> {None, Some vni}"

lemma vn_inv_replace:
  assumes inv: "vn_inv ns_of ca" and vn: "vniToVnState ca vni = Some vn" and n: "only_in ns_of vni n ca"
    and vn': "vn_informer vn' = vn_informer vn" "vn_namespace vn' = vn_namespace vn" "localAtts vn' \<noteq> []"
      "distinct (localAtts vn')" "distinct (remoteAtts vn')" "set (localAtts vn') \<inter> set (remoteAtts vn') = {}"
      "set (localAtts vn') \<union> set (remoteAtts vn') = insert (nsn_Name n) (set (localAtts vn) \<union> set (remoteAtts vn)) \<and> e = Some vni \<or>
       set (localAtts vn') \<union> set (remoteAtts vn') = (set (localAtts vn) \<union> set (remoteAtts vn)) - {nsn_Name n} \<and> e = None"
  shows "vn_inv ns_of (ca\<lparr>vniToVnState := (vniToVnState ca)(vni \<mapsto> vn'), nsnToVNStateVNI := (nsnToVNStateVNI ca)(n := e)\<rparr>)"
    (is "vn_inv ns_of ?ca")
proof -
  have nn: "n = nsn (ns_of vni) (nsn_Name n)" using n by (simp add: only_in_def nsn_def)
  have members: "nsnToVNStateVNI ?ca (nsn (ns_of vni) name) = Some vni"
    if "name \<in> set (localAtts vn') \<union> set (remoteAtts vn')" for name
  proof (cases "name = nsn_Name n")
    case True
    then show ?thesis using that vn'(7) nn by auto
  next
    case False
    then have "nsn (ns_of vni) name \<noteq> n" "name \<in> set (localAtts vn) \<union> set (remoteAtts vn)"
      using that vn'(7) nn by (metis nsn_eq, blast)
    then show ?thesis using vn_invD [OF inv vn] by (auto simp: vn_ok_def)
  qed
  have "vn_ok ns_of ?ca v w" if "vniToVnState ?ca v = Some w" for v w
  proof (cases "v = vni")
    case True
    then show ?thesis using that vn_invD [OF inv vn] vn'(1-6) members by (simp add: vn_ok_def)
  next
    case False
    then have "vn_ok ns_of ca v w" using that vn_invD [OF inv] by simp
    moreover have "nsnToVNStateVNI ca n \<noteq> Some v" using n False by (auto simp: only_in_def)
    ultimately show ?thesis by (auto simp: vn_ok_def)
  qed
  moreover have "\<exists>v w. vniToVnState ?ca v = Some w \<and> vn_informer w = i" if "i < length (ca_informers ca)" "i \<notin> set (ca_closed ca)" for i
  proof -
    from that inv obtain v w where "vniToVnState ca v = Some w" "vn_informer w = i" unfolding vn_inv_def by blast
    then show ?thesis using vn vn'(1) by (cases "v = vni") auto
  qed
  ultimately show ?thesis using inv vn vn' n
    by (auto simp: vn_inv_def only_in_def split: if_splits)
qed

text \<open>The removal of a state leaves its informer to be stopped.\<close>

lemma vn_inv_remove:
  assumes inv: "vn_inv ns_of ca" and vn: "vniToVnState ca vni = Some vn" and n: "only_in ns_of vni n ca"
    and e: "e = None \<or> e = nsnToVNStateVNI ca n"
  shows "vn_inv_but ns_of (vn_informer vn)
    (ca\<lparr>vniToVnState := (vniToVnState ca)(vni := None), nsnToVNStateVNI := (nsnToVNStateVNI ca)(n := e)\<rparr>)"
    (is "vn_inv_but ns_of _ ?ca")
proof -
  have uniq: "vn_informer w \<noteq> vn_informer vn" if "vniToVnState ca v = Some w" "v \<noteq> vni" for v w
    using inv vn that unfolding vn_inv_def by metis
  have "vn_ok ns_of (?ca\<lparr>ca_closed := ca_closed ca @ [vn_informer vn]\<rparr>) v w" if "vniToVnState ca v = Some w" "v \<noteq> vni" for v w
  proof -
    have "vn_ok ns_of ca v w" by (rule vn_invD [OF inv that(1)])
    moreover have "nsnToVNStateVNI ca n \<noteq> Some v" using n that(2) by (auto simp: only_in_def)
    ultimately show ?thesis using uniq [OF that] by (auto simp: vn_ok_def)
  qed
  moreover have "\<exists>v w. ((vniToVnState ca)(vni := None)) v = Some w \<and> vn_informer w = i"
    if "i < length (ca_informers ca)" "i \<notin> set (ca_closed ca)" "i \<noteq> vn_informer vn" for i
  proof -
    from that inv obtain v w where "vniToVnState ca v = Some w" "vn_informer w = i" unfolding vn_inv_def by blast
    then show ?thesis using vn that(3) by (cases "v = vni") auto
  qed
  moreover have "vn_ok ns_of ca vni vn" by (rule vn_invD [OF inv vn])
  ultimately show ?thesis using inv vn uniq e
    by (auto simp: vn_inv_but_def vn_inv_def vn_ok_def split: if_splits)
qed

text \<open>A new state, with a new informer, for a first local attachment.\<close>

lemma vn_inv_add:
  assumes inv: "vn_inv ns_of ca" and vn: "vniToVnState ca vni = None" and n: "only_in ns_of vni n ca"
  shows "vn_inv ns_of (ca\<lparr>ca_informers := ca_informers ca @ [\<lparr>inf_namespace = ns_of vni,
        inf_selector = remoteAttInVNWithVirtualIPHostIPSelector ca vni\<rparr>],
      vniToVnState := (vniToVnState ca)(vni \<mapsto>
        \<lparr>vn_informer = length (ca_informers ca), vn_namespace = ns_of vni, localAtts = [nsn_Name n], remoteAtts = []\<rparr>),
      nsnToVNStateVNI := (nsnToVNStateVNI ca)(n \<mapsto> vni)\<rparr>)"
    (is "vn_inv ns_of ?ca")
proof -
  have nn: "nsn (ns_of vni) (nsn_Name n) = n" using n by (simp add: only_in_def nsn_def)
  have closed: "length (ca_informers ca) \<notin> set (ca_closed ca)" using inv by (auto simp: vn_inv_def)
  have old: "vn_ok ns_of ca v w" "vn_informer w < length (ca_informers ca)" if "vniToVnState ca v = Some w" for v w
    using vn_invD [OF inv that] by (simp_all add: vn_ok_def)
  have A: "vn_ok ns_of ?ca v w" if "vniToVnState ?ca v = Some w" for v w
  proof (cases "v = vni")
    case True
    then show ?thesis using that nn closed by (auto simp: vn_ok_def)
  next
    case False
    then have "vn_ok ns_of ca v w" using that old by simp
    moreover have "nsnToVNStateVNI ca n \<noteq> Some v" using n False by (auto simp: only_in_def)
    ultimately show ?thesis by (auto simp: vn_ok_def nth_append)
  qed
  have B: "\<exists>v w. vniToVnState ?ca v = Some w \<and> vn_informer w = i"
    if "i < Suc (length (ca_informers ca))" "i \<notin> set (ca_closed ca)" for i
  proof (cases "i = length (ca_informers ca)")
    case True
    then show ?thesis by (auto intro!: exI [of _ vni])
  next
    case False
    with that inv obtain v w where "vniToVnState ca v = Some w" "vn_informer w = i" unfolding vn_inv_def by (metis less_SucE)
    then show ?thesis using vn by (auto intro!: exI [of _ v])
  qed
  have C: "v = v'" if "vniToVnState ?ca v = Some w" "vniToVnState ?ca v' = Some w'" "vn_informer w = vn_informer w'" for v v' w w'
  proof -
    have "vn_informer u \<noteq> length (ca_informers ca)" if "vniToVnState ca x = Some u" for x u using old(2) [OF that] by simp
    moreover have "vniToVnState ca v = Some w \<Longrightarrow> vniToVnState ca v' = Some w' \<Longrightarrow> v = v'"
      using inv that(3) unfolding vn_inv_def by blast
    ultimately show ?thesis using that by (cases "v = vni"; cases "v' = vni") (auto dest: sym)
  qed
  have D: "i < Suc (length (ca_informers ca))" if "i \<in> set (ca_closed ca)" for i
    using inv that by (auto simp: vn_inv_def less_Suc_eq)
  have E: "\<forall>m v. nsnToVNStateVNI ?ca m = Some v \<longrightarrow> nsn_Namespace m = ns_of v" "distinct (ca_closed ?ca)"
    using inv n by (simp_all add: vn_inv_def only_in_def)
  show ?thesis unfolding vn_inv_def
    by (intro conjI) (use A in blast, use C in blast, use B in simp, rule E(2), use D in simp, rule E(1))
qed

lemma vn_inv_unset:
  assumes inv: "vn_inv ns_of ca" and none: "\<And>vni. nsnToVNStateVNI ca n = Some vni \<Longrightarrow> vniToVnState ca vni = None"
  shows "vn_inv ns_of (unsetVNStateVNI n ca)"
proof -
  have "vn_ok ns_of (unsetVNStateVNI n ca) v w" if "vniToVnState ca v = Some w" for v w
    using vn_invD [OF inv that] none [of v] that by (auto simp: vn_ok_def unsetVNStateVNI_def)
  then show ?thesis using inv by (auto simp: vn_inv_def unsetVNStateVNI_def)
qed

lemma vn_view_unset: "vn_view ca' = vn_view ca \<Longrightarrow> vn_view (unsetVNStateVNI n ca') = vn_view (unsetVNStateVNI n ca)"
  by (simp add: vn_view_def unsetVNStateVNI_def)

lemma set_go_set [simp]: "set (go_set_add x xs) = insert x (set xs)" "set (go_set_del x xs) = set xs - {x}"
  "distinct xs \<Longrightarrow> distinct (go_set_add x xs)" "distinct xs \<Longrightarrow> distinct (go_set_del x xs)"
  "go_set_add x xs \<noteq> []"
  by (auto simp: go_set_add_def go_set_del_def distinct_removeAll)

lemma departure_ok:
  assumes inv: "vn_inv ns_of ca" and n: "nsnToVNStateVNI ca n = Some vni"
  shows "\<exists>ca1. updateVNStateAfterAttDeparture env (nsn_Name n) vni ca = Inr ca1 \<and> vn_inv ns_of (unsetVNStateVNI n ca1)"
proof (cases "vniToVnState ca vni")
  case None
  then show ?thesis using vn_inv_unset [OF inv, of n] n
    by (auto simp: updateVNStateAfterAttDeparture_def removeAttFromVNState_def)
next
  case (Some vn)
  have only: "only_in ns_of vni n ca" using inv n by (auto simp: only_in_def vn_inv_def)
  note ok = vn_invD [OF inv Some]
  let ?vn = "vn\<lparr>localAtts := go_set_del (nsn_Name n) (localAtts vn)\<rparr>"
  show ?thesis
  proof (cases "localAtts ?vn = []")
    case True
    let ?ca = "ca\<lparr>vniToVnState := (vniToVnState ca)(vni := None)\<rparr>"
    have but: "vn_inv_but ns_of (vn_informer ?vn) ?ca" "vn_inv_but ns_of (vn_informer ?vn) (unsetVNStateVNI n ?ca)"
    proof -
      have "(nsnToVNStateVNI ca)(n \<mapsto> vni) = nsnToVNStateVNI ca" using n by (simp add: fun_upd_idem)
      then show "vn_inv_but ns_of (vn_informer ?vn) ?ca" using vn_inv_remove [OF inv Some only, of "Some vni"] n by simp
      show "vn_inv_but ns_of (vn_informer ?vn) (unsetVNStateVNI n ?ca)"
        using vn_inv_remove [OF inv Some only, of None] by (simp add: unsetVNStateVNI_def)
    qed
    from clearVNResources_ok [OF but(1)] obtain ca1 where run: "clearVNResources env ?vn vni ?ca = Inr ca1" by blast
    from clearVNResources_view [OF this] have "vn_view (unsetVNStateVNI n ca1) =
        vn_view ((unsetVNStateVNI n ?ca)\<lparr>ca_closed := ca_closed (unsetVNStateVNI n ?ca) @ [vn_informer ?vn]\<rparr>)"
      by (simp add: vn_view_def unsetVNStateVNI_def)
    from vn_inv_cong [OF this] have "vn_inv ns_of (unsetVNStateVNI n ca1)" using but(2) unfolding vn_inv_but_def by blast
    then show ?thesis using run True Some by (simp add: updateVNStateAfterAttDeparture_def removeAttFromVNState_def)
  next
    case False
    have "vn_inv ns_of (ca\<lparr>vniToVnState := (vniToVnState ca)(vni \<mapsto> ?vn\<lparr>remoteAtts := go_set_del (nsn_Name n) (remoteAtts vn)\<rparr>),
        nsnToVNStateVNI := (nsnToVNStateVNI ca)(n := None)\<rparr>)"
      by (rule vn_inv_replace [OF inv Some only]) (use ok False in \<open>auto simp: vn_ok_def\<close>)
    then show ?thesis using False Some
      by (simp add: updateVNStateAfterAttDeparture_def removeAttFromVNState_def unsetVNStateVNI_def)
  qed
qed

lemma existing_ok:
  assumes inv: "vn_inv ns_of ca" and n: "only_in ns_of vni n ca"
    and run: "updateVNStateForExistingAtt n loc vni ca = (ret, gone, ca')"
  shows "case ret of None \<Rightarrow> vn_inv ns_of ca' | Some vn \<Rightarrow> vn_inv_but ns_of (vn_informer vn) ca'"
proof (cases "vniToVnState ca vni")
  case None
  have "vn_inv ns_of (unsetVNStateVNI n ca)"
    by (rule vn_inv_unset [OF inv]) (use n None in \<open>auto simp: only_in_def\<close>)
  moreover have "nsn_Namespace n = ns_of vni" using n by (simp add: only_in_def)
  ultimately show ?thesis using run None vn_inv_add [OF inv None n]
    by (auto simp: updateVNStateForExistingAtt_def add_local_att_def initVNState_def setVNStateVNI_def
        go_set_add_def go_set_del_def split: if_splits)
next
  case (Some vn)
  note ok = vn_invD [OF inv Some]
  show ?thesis
  proof (cases loc)
    case True
    have "vn_inv ns_of (ca\<lparr>vniToVnState := (vniToVnState ca)(vni \<mapsto>
        vn\<lparr>remoteAtts := go_set_del (nsn_Name n) (remoteAtts vn), localAtts := go_set_add (nsn_Name n) (localAtts vn)\<rparr>),
        nsnToVNStateVNI := (nsnToVNStateVNI ca)(n \<mapsto> vni)\<rparr>)"
      by (rule vn_inv_replace [OF inv Some n]) (use ok in \<open>auto simp: vn_ok_def\<close>)
    then show ?thesis using run True Some
      by (auto simp: updateVNStateForExistingAtt_def add_local_att_def setVNStateVNI_def)
  next
    case False
    let ?vn = "vn\<lparr>remoteAtts := go_set_add (nsn_Name n) (remoteAtts vn), localAtts := go_set_del (nsn_Name n) (localAtts vn)\<rparr>"
    show ?thesis
    proof (cases "localAtts ?vn = []")
      case True
      then show ?thesis using run False Some vn_inv_remove [OF inv Some n, of None]
        by (auto simp: updateVNStateForExistingAtt_def add_remote_att_def unsetVNStateVNI_def)
    next
      case nonempty: False
      have "vn_inv ns_of (ca\<lparr>vniToVnState := (vniToVnState ca)(vni \<mapsto> ?vn), nsnToVNStateVNI := (nsnToVNStateVNI ca)(n \<mapsto> vni)\<rparr>)"
        by (rule vn_inv_replace [OF inv Some n]) (use ok nonempty in \<open>auto simp: vn_ok_def\<close>)
      then show ?thesis using run False Some nonempty
        by (auto simp: updateVNStateForExistingAtt_def add_remote_att_def setVNStateVNI_def)
    qed
  qed
qed

end
