(* ===== verification/Agent_Reach.thy ===== *)
theory Agent_Reach
  imports Agent_VN
begin

text \<open>
  The agent as a transition system: the synchronisation at start-up, then notifications, queue
  items and finished commands in any order. The invariant of the virtual network states holds in
  every reachable state, and every command that was launched is an allowed one.
\<close>

section \<open>Processing keeps the invariant\<close>

definition keeps_vn :: "(uint32 \<Rightarrow> string) \<Rightarrow> (agent_panic, 'a \<times> 'w ConnectionAgent) result \<Rightarrow> bool" where
  "keeps_vn ns_of r = (case r of Inl p \<Rightarrow> p \<noteq> CloseOfClosedChannel | Inr (_, ca) \<Rightarrow> vn_inv ns_of ca)"

definition att_wf :: "(uint32 \<Rightarrow> string) \<Rightarrow> NetworkAttachment \<Rightarrow> bool" where
  "att_wf ns_of att \<longleftrightarrow> meta_Namespace (att_meta att) = ns_of (AddressVNI (att_Status att))"

definition env_wf :: "(uint32 \<Rightarrow> string) \<Rightarrow> 'w agent_env \<Rightarrow> bool" where
  "env_wf ns_of env \<longleftrightarrow>
     (\<forall>ns name att. en_localLister env ns name = Inr att \<longrightarrow> att_wf ns_of att) \<and>
     (\<forall>i name att. en_remoteLister env i name = Inr att \<longrightarrow> att_wf ns_of att) \<and>
     (\<forall>atts. en_localList env = Inr atts \<longrightarrow> distinct (map AttNSN atts) \<and> (\<forall>att\<in>set atts. att_wf ns_of att))"

lemma updateVNState_ok:
  assumes "vn_inv ns_of ca" "nsn_Namespace n = ns_of vni"
  shows "\<exists>ret gone ca'. updateVNState env vni n node ca = Inr (ret, gone, ca') \<and>
    (case ret of None \<Rightarrow> vn_inv ns_of ca' | Some vn \<Rightarrow> vn_inv_but ns_of (vn_informer vn) ca')"
proof -
  have ex: "\<exists>ret gone ca'. updateVNStateForExistingAtt n loc vni c = (ret, gone, ca') \<and>
      (case ret of None \<Rightarrow> vn_inv ns_of ca' | Some vn \<Rightarrow> vn_inv_but ns_of (vn_informer vn) ca')"
    if "vn_inv ns_of c" "nsnToVNStateVNI c n \<in> {None, Some vni}" for c :: "'a ConnectionAgent" and loc
    using existing_ok [OF that(1), of vni n loc] that(2) assms(2) by (metis only_in_def prod.collapse)
  show ?thesis
  proof (cases "\<exists>old. nsnToVNStateVNI ca n = Some old \<and> old \<noteq> vni")
    case True
    then obtain old where old: "nsnToVNStateVNI ca n = Some old" "old \<noteq> vni" by blast
    from departure_ok [OF assms(1) old(1)] obtain ca1 where
      dep: "updateVNStateAfterAttDeparture env (nsn_Name n) old ca = Inr ca1" "vn_inv ns_of (unsetVNStateVNI n ca1)" by blast
    from ex [OF dep(2)] show ?thesis using old dep(1)
      by (simp add: updateVNState_def getVNStateVNI_def) (simp add: unsetVNStateVNI_def)
  next
    case False
    then have "nsnToVNStateVNI ca n \<in> {None, Some vni}" by (cases "nsnToVNStateVNI ca n") auto
    from ex [OF assms(1) this] False show ?thesis
      by (cases "nsnToVNStateVNI ca n") (auto simp: updateVNState_def getVNStateVNI_def)
  qed
qed

text \<open>The calls on the fabric and the bookkeeping around them do not touch the virtual network states.\<close>

definition same_vn :: "'w ConnectionAgent \<Rightarrow> (agent_panic, 'a \<times> 'w ConnectionAgent) result \<Rightarrow> bool" where
  "same_vn ca r = (case r of Inl p \<Rightarrow> p \<noteq> CloseOfClosedChannel | Inr (_, ca') \<Rightarrow> vn_view ca' = vn_view ca)"

lemma same_vn_keeps: "same_vn ca r \<Longrightarrow> vn_inv ns_of ca \<Longrightarrow> keeps_vn ns_of r"
  using vn_inv_cong by (fastforce simp: same_vn_def keeps_vn_def split: sum.splits)

lemma same_vn_simps [simp]: "same_vn ca (Inr (x, ca')) \<longleftrightarrow> vn_view ca' = vn_view ca"
  "same_vn ca (Inl p) \<longleftrightarrow> p \<noteq> CloseOfClosedChannel"
  by (simp_all add: same_vn_def)

lemma fab_call_same: "same_vn ca (fab_call r ca)"
  by (auto simp: fab_call_def split: sum.split)

lemma fab_callD: "fab_call r ca = Inr (x, ca1) \<Longrightarrow> vn_view ca1 = vn_view ca"
  "fab_call r ca = Inl p \<Longrightarrow> p \<noteq> CloseOfClosedChannel"
  by (auto simp: fab_call_def split: sum.splits)

lemma LaunchCommandD: "LaunchCommand n li cmd what doit save ca = (errs, ca1) \<Longrightarrow> vn_view ca1 = vn_view ca"
  using vn_view_simps(9) [of n li cmd what doit save ca] by simp

lemma delete_old_ifc_same: "same_vn ca (delete_old_ifc env n ca)"
  by (auto simp: delete_old_ifc_def agent_DeleteLocalIfc_def agent_DeleteRemoteIfc_def Let_def dest: fab_callD
      split: option.split sum.split)

lemma create_new_ifc_same: "same_vn ca (create_new_ifc env n gip hip vni mac pc pd ca)"
  by (auto simp: create_new_ifc_def Let_def dest!: fab_callD LaunchCommandD split: option.split sum.split prod.splits)

lemma createOrUpdateIfc_same: "same_vn ca (createOrUpdateIfc env gip hip vni n pc pd ca)"
proof (cases "generateMACAddr vni gip")
  case (Inr mac)
  note d = delete_old_ifc_same [of ca env n] and c = create_new_ifc_same [of _ env n gip hip vni mac pc pd]
  show ?thesis
  proof (cases "newIfcNeedsToBeCreated ca n hip mac")
    case True
    then show ?thesis using Inr d
      by (auto simp: createOrUpdateIfc_def Let_def split: option.split sum.split)
        (metis c same_vn_simps)+
  next
    case False
    then show ?thesis using Inr
      by (auto simp: createOrUpdateIfc_def Let_def split: option.split sum.split prod.split dest!: LaunchCommandD)
  qed
qed (simp add: createOrUpdateIfc_def)

lemma process_ifc_same: "same_vn ca (process_ifc env att ca)"
  using createOrUpdateIfc_same [of ca env "ParseIP (Status_IPv4 (att_Status att))" "att_host_ip ca att"
      "AddressVNI (att_Status att)" "AttNSN att" "PostCreateExec (att_Spec att)" "PostDeleteExec (att_Spec att)"]
  by (auto simp: process_ifc_def setAttStatus_def Let_def split: option.split sum.split prod.split)

text \<open>The second half of \<open>processDeletedAtt\<close>.\<close>

lemma processDeletedAtt_keeps:
  assumes "vn_inv ns_of ca"
  shows "keeps_vn ns_of (processDeletedAtt env n ca)"
proof -
  obtain ca1 where ca1: "vn_inv ns_of ca1" "(case getVNStateVNI ca n of None \<Rightarrow> Inr ca | Some vni \<Rightarrow>
      (case updateVNStateAfterAttDeparture env (nsn_Name n) vni ca of
         Inl p \<Rightarrow> Inl p | Inr ca1 \<Rightarrow> Inr (unsetVNStateVNI n ca1))) = (Inr ca1 :: (agent_panic, _) result)"
    using departure_ok [OF assms, of n] assms
    by (cases "nsnToVNStateVNI ca n") (auto simp: getVNStateVNI_def, metis sum.simps(6))
  have "same_vn ca1 (processDeletedAtt env n ca)"
    unfolding processDeletedAtt_def ca1(2)
    by (auto simp: agent_DeleteLocalIfc_def agent_DeleteRemoteIfc_def Let_def dest: fab_callD
        split: option.split sum.split)
  then show ?thesis using ca1(1) by (rule same_vn_keeps)
qed

lemma processExistingAtt_keeps:
  assumes inv: "vn_inv ns_of ca" and wf: "att_wf ns_of att"
  shows "keeps_vn ns_of (processExistingAtt env att ca)"
proof -
  let ?n = "AttNSN att" and ?vni = "AddressVNI (att_Status att)"
  have "nsn_Namespace ?n = ns_of ?vni" using wf by (simp add: att_wf_def AttNSN_def)
  from updateVNState_ok [OF inv this] obtain ret gone ca1 where
    upd: "updateVNState env ?vni ?n (Node (att_Spec att)) ca = Inr (ret, gone, ca1)"
    and ok: "case ret of None \<Rightarrow> vn_inv ns_of ca1 | Some vn \<Rightarrow> vn_inv_but ns_of (vn_informer vn) ca1" by blast
  show ?thesis
  proof (cases ret)
    case (Some vn)
    then show ?thesis using upd ok clearVNResources_ok [of ns_of vn ca1 env ?vni]
      by (auto simp: processExistingAtt_def keeps_vn_def)
  next
    case None
    then have inv1: "vn_inv ns_of ca1" "vn_inv ns_of (removeSeenInVNI ?n ?vni ca1)"
      using ok vn_inv_cong [of "removeSeenInVNI ?n ?vni ca1" ca1] by simp_all
    then show ?thesis using None upd processDeletedAtt_keeps [OF inv1(2)] same_vn_keeps [OF process_ifc_same inv1(1)]
      by (cases gone) (simp_all add: processExistingAtt_def Let_def)
  qed
qed

lemma getAttachment_wf:
  assumes "env_wf ns_of env" "getAttachment env ca n = (Some att, d)"
  shows "att_wf ns_of att"
  using assms by (auto simp: getAttachment_def env_wf_def remote_lookup_def found_def Let_def
      split: if_splits option.splits sum.splits prod.splits)

lemma processNetworkAttachment_keeps:
  assumes "vn_inv ns_of ca" "env_wf ns_of env"
  shows "keeps_vn ns_of (agent_processNetworkAttachment env n ca)"
proof (cases "fst (getAttachment env ca n)")
  case None
  then show ?thesis using processDeletedAtt_keeps [OF assms(1)] assms(1)
    by (cases "getAttachment env ca n") (auto simp: agent_processNetworkAttachment_def keeps_vn_def split: bool.split)
next
  case (Some att)
  then have "getAttachment env ca n = (Some att, snd (getAttachment env ca n))" by (metis prod.collapse)
  with getAttachment_wf [OF assms(2) this] processExistingAtt_keeps [OF assms(1)] show ?thesis
    unfolding agent_processNetworkAttachment_def by (metis (no_types, lifting) option.simps(5) prod.simps(2))
qed

section \<open>Start-up\<close>

lemma delete_local_retry_view: "delete_local_retry fuel env ifc ca = Some r \<Longrightarrow>
  case r of Inl p \<Rightarrow> p \<noteq> CloseOfClosedChannel | Inr ca' \<Rightarrow> vn_view ca' = vn_view ca"
proof (induction fuel arbitrary: ca)
  case (Suc fuel)
  show ?case
  proof (cases "agent_DeleteLocalIfc env ifc ca")
    case (Inr x)
    then show ?thesis using Suc by (cases x) (auto simp: agent_DeleteLocalIfc_def dest!: fab_callD split: option.splits sum.splits)
  qed (use Suc.prems in \<open>auto simp: agent_DeleteLocalIfc_def dest!: fab_callD\<close>)
qed simp

lemma delete_remote_retry_view: "delete_remote_retry fuel env ifc ca = Some r \<Longrightarrow>
  case r of Inl p \<Rightarrow> p \<noteq> CloseOfClosedChannel | Inr ca' \<Rightarrow> vn_view ca' = vn_view ca"
proof (induction fuel arbitrary: ca)
  case (Suc fuel)
  show ?case
  proof (cases "agent_DeleteRemoteIfc env ifc ca")
    case (Inr x)
    then show ?thesis using Suc by (cases x) (auto simp: agent_DeleteRemoteIfc_def dest!: fab_callD split: option.splits sum.splits)
  qed (use Suc.prems in \<open>auto simp: agent_DeleteRemoteIfc_def dest!: fab_callD\<close>)
qed simp

lemma sync_local_loop_view:
  "sync_local_loop fuel env ifcs ca = Some (Inr (e, ca')) \<Longrightarrow> vn_view ca' = vn_view ca"
proof (induction ifcs arbitrary: ca)
  case (Cons ifc ifcs)
  then show ?case
    by (auto simp: Let_def split: sum.splits list.splits option.splits dest!: delete_local_retry_view)
qed simp

lemma sync_remote_loop_view:
  "sync_remote_loop fuel env ifcs ca = Some (Inr (e, ca')) \<Longrightarrow> vn_view ca' = vn_view ca"
proof (induction ifcs arbitrary: ca)
  case (Cons ifc ifcs)
  then show ?case
    by (auto simp: Let_def split: sum.splits list.splits option.splits if_splits
        dest!: delete_local_retry_view delete_remote_retry_view)
qed simp

lemma start_remote_caches_ok:
  assumes "vn_inv ns_of ca" "\<forall>att\<in>set atts. att_wf ns_of att \<and> nsnToVNStateVNI ca (AttNSN att) = None" "distinct (map AttNSN atts)"
  shows "vn_inv ns_of (start_remote_caches atts ca)"
  using assms
proof (induction atts arbitrary: ca)
  case (Cons att atts)
  let ?n = "AttNSN att" and ?vni = "AddressVNI (att_Status att)"
  let ?ca = "snd (snd (updateVNStateForExistingAtt ?n True ?vni ca))"
  have "nsn_Namespace ?n = ns_of ?vni" using Cons.prems(2) by (simp add: att_wf_def AttNSN_def)
  then have "only_in ns_of ?vni ?n ca" using Cons.prems(2) by (simp add: only_in_def)
  moreover have "updateVNStateForExistingAtt ?n True ?vni ca = (None, False, ?ca)"
    by (simp add: updateVNStateForExistingAtt_def)
  ultimately have inv: "vn_inv ns_of ?ca" using existing_ok [OF Cons.prems(1)] by fastforce
  have other: "nsnToVNStateVNI ?ca m = nsnToVNStateVNI ca m" if "m \<noteq> ?n" for m
    using that by (auto simp: updateVNStateForExistingAtt_def setVNStateVNI_def add_local_att_def initVNState_def
        Let_def split: option.split prod.split)
  have "\<forall>a\<in>set atts. att_wf ns_of a \<and> nsnToVNStateVNI ?ca (AttNSN a) = None"
  proof
    fix a assume "a \<in> set atts"
    then have "AttNSN a \<in> AttNSN ` set atts" "att_wf ns_of a \<and> nsnToVNStateVNI ca (AttNSN a) = None" using Cons.prems(2) by auto
    moreover have "?n \<notin> AttNSN ` set atts" using Cons.prems(3) by simp
    ultimately have "AttNSN a \<noteq> ?n" "att_wf ns_of a \<and> nsnToVNStateVNI ca (AttNSN a) = None" by metis+
    then show "att_wf ns_of a \<and> nsnToVNStateVNI ?ca (AttNSN a) = None" using other by simp
  qed
  from Cons.IH [OF inv this] Cons.prems(3) show ?case by (simp add: start_remote_caches_def)
qed (simp add: start_remote_caches_def)

lemma syncPreExistingLocalIfcs_view:
  "syncPreExistingLocalIfcs fuel env ca = Some (Inr (e, ca')) \<Longrightarrow> vn_view ca' = vn_view ca"
  by (auto simp: syncPreExistingLocalIfcs_def split: sum.splits prod.splits dest!: fab_callD sync_local_loop_view)

lemma sync_ok:
  assumes "vn_inv ns_of ca" "nsnToVNStateVNI ca = Map.empty" "env_wf ns_of env"
    and run: "syncPreExistingIfcs fuel env ca = Some (Inr (e, ca'))"
  shows "vn_inv ns_of ca'"
proof -
  obtain e1 ca1 where l: "syncPreExistingLocalIfcs fuel env ca = Some (Inr (e1, ca1))"
    using run by (auto simp: syncPreExistingIfcs_def split: option.splits sum.splits)
  from syncPreExistingLocalIfcs_view [OF l] have v1: "vn_view ca1 = vn_view ca" .
  then have inv1: "vn_inv ns_of ca1" "nsnToVNStateVNI ca1 = Map.empty"
    using assms(1,2) vn_inv_cong [OF v1] by (auto simp: vn_view_def)
  show ?thesis
  proof (cases "e1 = None \<and> (\<exists>atts. en_localList env = Inr atts)")
    case True
    then obtain atts where atts: "e1 = None" "en_localList env = Inr atts" by blast
    then have "vn_inv ns_of (start_remote_caches atts ca1)"
      using start_remote_caches_ok [OF inv1(1), of atts] inv1(2) assms(3) by (auto simp: env_wf_def)
    moreover have "vn_view ca' = vn_view (start_remote_caches atts ca1)"
      using run l atts by (auto simp: syncPreExistingIfcs_def syncPreExistingRemoteIfcs_def Let_def
          split: sum.splits prod.splits dest!: fab_callD sync_remote_loop_view)
    ultimately show ?thesis using vn_inv_cong by blast
  next
    case False
    then have "ca' = ca1" using run l
      by (auto simp: syncPreExistingIfcs_def syncPreExistingRemoteIfcs_def split: option.splits sum.splits)
    then show ?thesis using inv1 by simp
  qed
qed

section \<open>Reachable states\<close>

inductive reachable :: "(uint32 \<Rightarrow> string) \<Rightarrow> string \<Rightarrow> IP \<Rightarrow> string list \<Rightarrow> 'w ConnectionAgent \<Rightarrow> bool"
  for ns_of :: "uint32 \<Rightarrow> string" and node :: string and ip :: IP and progs :: "string list" where
  start: "env_wf ns_of env \<Longrightarrow>
    syncPreExistingIfcs fuel env (NewConnectionAgent node ip progs w) = Some (Inr (None, ca)) \<Longrightarrow>
    reachable ns_of node ip progs ca"
| local_added: "reachable ns_of node ip progs ca \<Longrightarrow> reachable ns_of node ip progs (onLocalAttAdded att ca)"
| local_updated: "reachable ns_of node ip progs ca \<Longrightarrow> reachable ns_of node ip progs (onLocalAttUpdated old new ca)"
| local_removed: "reachable ns_of node ip progs ca \<Longrightarrow> reachable ns_of node ip progs (onLocalAttRemoved obj ca)"
| remote_added: "reachable ns_of node ip progs ca \<Longrightarrow> reachable ns_of node ip progs (onRemoteAttAdded att ca)"
| remote_updated: "reachable ns_of node ip progs ca \<Longrightarrow> reachable ns_of node ip progs (onRemoteAttUpdated old new ca)"
| remote_removed: "reachable ns_of node ip progs ca \<Longrightarrow> reachable ns_of node ip progs (onRemoteAttRemoved obj ca)"
| item: "reachable ns_of node ip progs ca \<Longrightarrow> env_wf ns_of env \<Longrightarrow> agent_processQueueItem env n ca = Inr ca' \<Longrightarrow>
    reachable ns_of node ip progs ca'"
| command: "reachable ns_of node ip progs ca \<Longrightarrow> job \<in> set (ca_launched ca) \<Longrightarrow>
    RunCommand run job (ca\<lparr>ca_launched := remove1 job (ca_launched ca)\<rparr>) = Inr ca' \<Longrightarrow> reachable ns_of node ip progs ca'"
| outside: "reachable ns_of node ip progs ca \<Longrightarrow> reachable ns_of node ip progs (ca\<lparr>ca_world := w\<rparr>)"

lemma RunCommand_view: "RunCommand run job ca = Inr ca' \<Longrightarrow> vn_view ca' = vn_view ca"
  by (auto simp: RunCommand_def Let_def split: list.splits if_splits)

lemma processQueueItem_keeps:
  assumes "vn_inv ns_of ca" "env_wf ns_of env"
  shows "agent_processQueueItem env n ca \<noteq> Inl CloseOfClosedChannel"
    and "agent_processQueueItem env n ca = Inr ca' \<Longrightarrow> vn_inv ns_of ca'"
proof -
  note k = processNetworkAttachment_keeps [OF assms, of n]
  show "agent_processQueueItem env n ca \<noteq> Inl CloseOfClosedChannel"
    using k by (auto simp: agent_processQueueItem_def keeps_vn_def split: sum.splits prod.splits)
  assume "agent_processQueueItem env n ca = Inr ca'"
  then obtain e ca1 where "agent_processNetworkAttachment env n ca = Inr (e, ca1)" "vn_view ca' = vn_view ca1"
    by (auto simp: agent_processQueueItem_def split: sum.splits prod.splits)
  then show "vn_inv ns_of ca'" using k vn_inv_cong [of ca' ca1] by (simp add: keeps_vn_def)
qed

lemma reachable_vn_inv: "reachable ns_of node ip progs ca \<Longrightarrow> vn_inv ns_of ca"
proof (induction rule: reachable.induct)
  case (start env fuel w ca)
  then show ?case using sync_ok [OF vn_inv_New] by (metis ConnectionAgent.select_convs(5) NewConnectionAgent_def)
next
  case (item ca env n ca')
  then show ?case using processQueueItem_keeps(2) by blast
next
  case (command ca job run ca')
  then show ?case using RunCommand_view vn_inv_cong vn_view_simps(12) by metis
qed (use vn_inv_cong in \<open>simp_all add: onLocalAttAdded_def onLocalAttUpdated_def onLocalAttRemoved_def
    onRemoteAttAdded_def onRemoteAttUpdated_def onRemoteAttRemoved_def Let_def vn_inv_cong [OF vn_view_simps(1)]
    vn_inv_cong [OF vn_view_simps(2)] vn_inv_cong [OF vn_view_simps(3)] vn_inv_cong [OF vn_view_simps(10)]\<close>)

section \<open>Launched commands\<close>

definition jobs_ok :: "'w ConnectionAgent \<Rightarrow> bool" where
  "jobs_ok ca \<longleftrightarrow> (\<forall>job\<in>set (ca_launched ca). job_cmd job \<noteq> [] \<and> hd (job_cmd job) \<in> set (allowedPrograms ca))"

definition job_view where "job_view ca = (ca_launched ca, allowedPrograms ca)"

lemma jobs_ok_cong: "job_view ca' = job_view ca \<Longrightarrow> jobs_ok ca' = jobs_ok ca"
  by (simp add: job_view_def jobs_ok_def)

lemma job_view_simps [simp]:
  "job_view (queue_Add n ca) = job_view ca"
  "job_view (removeSeenInVNI n vni ca) = job_view ca"
  "job_view (addVNI n vni ca) = job_view ca"
  "job_view (setLocalAttMainState n m ca) = job_view ca"
  "job_view (setExecReport n er ca) = job_view ca"
  "job_view (assignRemoteIfc n ifc ca) = job_view ca"
  "job_view (unsetLocalAttState n ca) = job_view ca"
  "job_view (unsetRemoteIfc n ca) = job_view ca"
  "job_view (setVNStateVNI n vni ca) = job_view ca"
  "job_view (unsetVNStateVNI n ca) = job_view ca"
  "job_view (add_local_att n vni ca) = job_view ca"
  "job_view (ca\<lparr>ca_world := w\<rparr>) = job_view ca"
  "job_view (ca\<lparr>ca_queue := q\<rparr>) = job_view ca"
  "job_view (ca\<lparr>ca_closed := cs\<rparr>) = job_view ca"
  "job_view (ca\<lparr>vniToVnState := m'\<rparr>) = job_view ca"
  by (auto simp: job_view_def queue_Add_def removeSeenInVNI_def addVNI_def setLocalAttMainState_def setExecReport_def
      assignRemoteIfc_def unsetLocalAttState_def unsetRemoteIfc_def setVNStateVNI_def unsetVNStateVNI_def add_local_att_def
      initVNState_def Let_def split: option.split)

lemma jobs_ok_simps [simp]:
  "jobs_ok (queue_Add n ca) = jobs_ok ca" "jobs_ok (removeSeenInVNI n vni ca) = jobs_ok ca"
  "jobs_ok (addVNI n vni ca) = jobs_ok ca" "jobs_ok (setLocalAttMainState n m ca) = jobs_ok ca"
  "jobs_ok (setExecReport n er ca) = jobs_ok ca" "jobs_ok (assignRemoteIfc n ifc ca) = jobs_ok ca"
  "jobs_ok (unsetLocalAttState n ca) = jobs_ok ca" "jobs_ok (unsetRemoteIfc n ca) = jobs_ok ca"
  "jobs_ok (setVNStateVNI n vni ca) = jobs_ok ca" "jobs_ok (unsetVNStateVNI n ca) = jobs_ok ca"
  "jobs_ok (add_local_att n vni ca) = jobs_ok ca" "jobs_ok (ca\<lparr>ca_world := w\<rparr>) = jobs_ok ca"
  "jobs_ok (ca\<lparr>ca_queue := q\<rparr>) = jobs_ok ca" "jobs_ok (ca\<lparr>ca_closed := cs\<rparr>) = jobs_ok ca"
  "jobs_ok (ca\<lparr>vniToVnState := m'\<rparr>) = jobs_ok ca"
  by (rule jobs_ok_cong, simp)+

lemma LaunchCommand_jobs: "LaunchCommand n li cmd what doit save ca = (errs, ca') \<Longrightarrow> jobs_ok ca \<Longrightarrow> jobs_ok ca'"
  by (auto simp: LaunchCommand_def jobs_ok_def split: if_splits)

lemma LaunchCommand_jobs' [simp]: "jobs_ok ca \<Longrightarrow> jobs_ok (snd (LaunchCommand n li cmd what doit save ca))"
  by (rule LaunchCommand_jobs [OF prod.collapse [symmetric]])

lemma fab_call_jobs: "fab_call r ca = Inr (x, ca') \<Longrightarrow> jobs_ok ca' = jobs_ok ca"
  by (auto simp: fab_call_def split: sum.splits)

lemma clearVNResources_jobs:
  fixes ca :: "'w ConnectionAgent"
  assumes "clearVNResources env vn vni ca = Inr ca'"
  shows "jobs_ok ca' = jobs_ok ca"
proof -
  have "jobs_ok (fold (\<lambda>name ca. let n = nsn (vn_namespace vn) name
      in queue_Add n (removeSeenInVNI n vni ca)) names ca) = jobs_ok ca" for names and ca :: "'w ConnectionAgent"
    by (induction names arbitrary: ca) (simp_all add: Let_def)
  then show ?thesis using assms by (auto simp: clearVNResources_def split: if_splits)
qed

lemma departure_jobs: "updateVNStateAfterAttDeparture env name vni ca = Inr ca' \<Longrightarrow> jobs_ok ca' = jobs_ok ca"
  by (auto simp: updateVNStateAfterAttDeparture_def removeAttFromVNState_def Let_def
      split: option.splits if_splits dest!: clearVNResources_jobs)

lemma existing_jobs: "updateVNStateForExistingAtt n loc vni ca = (ret, gone, ca') \<Longrightarrow> jobs_ok ca' = jobs_ok ca"
  by (auto simp: updateVNStateForExistingAtt_def add_remote_att_def Let_def split: option.splits if_splits)

lemma updateVNState_jobs: "updateVNState env vni n node ca = Inr (ret, gone, ca') \<Longrightarrow> jobs_ok ca' = jobs_ok ca"
  by (auto simp: updateVNState_def split: option.splits if_splits sum.splits dest!: departure_jobs existing_jobs)

lemma delete_old_ifc_jobs: "delete_old_ifc env n ca = Inr (e, ca') \<Longrightarrow> jobs_ok ca \<Longrightarrow> jobs_ok ca'"
  by (auto simp: delete_old_ifc_def agent_DeleteLocalIfc_def agent_DeleteRemoteIfc_def Let_def
      split: option.splits sum.splits dest!: fab_call_jobs)

lemma create_new_ifc_jobs: "create_new_ifc env n gip hip vni mac pc pd ca = Inr (e, ca') \<Longrightarrow> jobs_ok ca \<Longrightarrow> jobs_ok ca'"
  by (auto simp: create_new_ifc_def Let_def split: option.splits sum.splits if_splits prod.splits
      dest!: fab_call_jobs LaunchCommand_jobs)

lemma createOrUpdateIfc_jobs: "createOrUpdateIfc env gip hip vni n pc pd ca = Inr (e, ca') \<Longrightarrow> jobs_ok ca \<Longrightarrow> jobs_ok ca'"
  by (auto simp: createOrUpdateIfc_def Let_def split: option.splits sum.splits if_splits prod.splits
      dest!: delete_old_ifc_jobs create_new_ifc_jobs LaunchCommand_jobs)

lemma processDeletedAtt_jobs: "processDeletedAtt env n ca = Inr (e, ca') \<Longrightarrow> jobs_ok ca \<Longrightarrow> jobs_ok ca'"
  by (auto simp: processDeletedAtt_def agent_DeleteLocalIfc_def agent_DeleteRemoteIfc_def Let_def
      split: option.splits sum.splits dest!: fab_call_jobs departure_jobs)

lemma process_ifc_jobs: "process_ifc env att ca = Inr (e, ca') \<Longrightarrow> jobs_ok ca \<Longrightarrow> jobs_ok ca'"
  by (auto simp: process_ifc_def setAttStatus_def Let_def split: sum.splits if_splits prod.splits
      dest!: createOrUpdateIfc_jobs)

lemma processExistingAtt_jobs: "processExistingAtt env att ca = Inr (e, ca') \<Longrightarrow> jobs_ok ca \<Longrightarrow> jobs_ok ca'"
  by (auto simp: processExistingAtt_def Let_def split: option.splits sum.splits bool.splits
      dest!: updateVNState_jobs clearVNResources_jobs processDeletedAtt_jobs process_ifc_jobs)

lemma processQueueItem_jobs: "agent_processQueueItem env n ca = Inr ca' \<Longrightarrow> jobs_ok ca \<Longrightarrow> jobs_ok ca'"
  by (auto simp: agent_processQueueItem_def agent_processNetworkAttachment_def split: option.splits sum.splits bool.splits prod.splits
      dest!: processExistingAtt_jobs processDeletedAtt_jobs)

lemma delete_local_retry_jobs: "delete_local_retry fuel env ifc ca = Some (Inr ca') \<Longrightarrow> jobs_ok ca' = jobs_ok ca"
  by (induction fuel arbitrary: ca) (auto simp: agent_DeleteLocalIfc_def split: sum.splits option.splits dest!: fab_call_jobs)

lemma delete_remote_retry_jobs: "delete_remote_retry fuel env ifc ca = Some (Inr ca') \<Longrightarrow> jobs_ok ca' = jobs_ok ca"
  by (induction fuel arbitrary: ca) (auto simp: agent_DeleteRemoteIfc_def split: sum.splits option.splits dest!: fab_call_jobs)

lemma sync_local_loop_jobs: "sync_local_loop fuel env ifcs ca = Some (Inr (e, ca')) \<Longrightarrow> jobs_ok ca' = jobs_ok ca"
  by (induction ifcs arbitrary: ca)
     (auto simp: Let_def split: sum.splits list.splits option.splits dest!: delete_local_retry_jobs)

lemma sync_remote_loop_jobs: "sync_remote_loop fuel env ifcs ca = Some (Inr (e, ca')) \<Longrightarrow> jobs_ok ca' = jobs_ok ca"
  by (induction ifcs arbitrary: ca)
     (auto simp: Let_def split: sum.splits list.splits option.splits if_splits
       dest!: delete_local_retry_jobs delete_remote_retry_jobs)

lemma start_remote_caches_jobs: "jobs_ok (start_remote_caches atts ca) = jobs_ok ca"
  unfolding start_remote_caches_def
  by (induction atts arbitrary: ca) (simp_all add: updateVNStateForExistingAtt_def)

lemma sync_jobs: "syncPreExistingIfcs fuel env ca = Some (Inr (e, ca')) \<Longrightarrow> jobs_ok ca' = jobs_ok ca"
  by (auto simp: syncPreExistingIfcs_def syncPreExistingLocalIfcs_def syncPreExistingRemoteIfcs_def Let_def
      start_remote_caches_jobs split: option.splits sum.splits dest!: fab_call_jobs sync_local_loop_jobs sync_remote_loop_jobs)

lemma reachable_jobs_ok: "reachable ns_of node ip progs ca \<Longrightarrow> jobs_ok ca"
proof (induction rule: reachable.induct)
  case (start env fuel w ca)
  then show ?case by (auto dest!: sync_jobs simp: jobs_ok_def NewConnectionAgent_def)
next
  case (item ca env n ca')
  then show ?case using processQueueItem_jobs by blast
next
  case (command ca job run ca')
  have "jobs_ok (ca\<lparr>ca_launched := remove1 job (ca_launched ca)\<rparr>)"
    using command.IH by (auto simp: jobs_ok_def dest: in_set_takeD set_remove1_subset [THEN subsetD])
  then show ?case using command.hyps by (auto simp: RunCommand_def Let_def split: list.splits if_splits)
qed (simp_all add: onLocalAttAdded_def onLocalAttUpdated_def onLocalAttRemoved_def
    onRemoteAttAdded_def onRemoteAttUpdated_def onRemoteAttRemoved_def Let_def)

end
