(* ===== verification/Agent_Ifc.thy ===== *)
theory Agent_Ifc
  imports Agent_Reach
begin

text \<open>
  The interfaces of the connection agent over a fabric that keeps the contract \<open>network_fabric\<close>:
  what processing an attachment leaves in the maps of the agent and in the fabric.
\<close>

section \<open>What the agent records for an attachment\<close>

text \<open>An interface whose MAC address and name are those that the agent computes.\<close>

definition well_made :: "uint32 \<Rightarrow> IP \<Rightarrow> HardwareAddr \<Rightarrow> bool" where
  "well_made vni ip mac \<longleftrightarrow> vni < 2 ^ 21 \<and> generateMACAddr vni ip = Inr mac"

definition held :: "('w \<Rightarrow> string \<rightharpoonup> LocalNetIfc) \<Rightarrow> ('w \<Rightarrow> string \<rightharpoonup> RemoteNetIfc) \<Rightarrow> 'w ConnectionAgent
    \<Rightarrow> NamespacedName \<Rightarrow> bool" where
  "held locals remotes ca n \<longleftrightarrow>
     (nsnToLocalMainState ca n = None \<or> nsnToRemoteIfc ca n = None) \<and>
     (\<forall>main. nsnToLocalMainState ca n = Some main \<longrightarrow>
        well_made (li_VNI (LocalIfc main)) (li_GuestIP (LocalIfc main)) (li_GuestMAC (LocalIfc main)) \<and>
        li_Name (LocalIfc main) = generateIfcName (li_GuestMAC (LocalIfc main)) \<and>
        locals (ca_world ca) (li_Name (LocalIfc main)) = Some (LocalIfc main)) \<and>
     (\<forall>ri. nsnToRemoteIfc ca n = Some ri \<longrightarrow>
        well_made (ri_VNI ri) (ri_GuestIP ri) (ri_GuestMAC ri) \<and> \<not> ip_Equal (ri_HostIP ri) (hostIP ca) \<and>
        remotes (ca_world ca) (hw_String (ri_GuestMAC ri)) = Some ri)"

definition local_done :: "('w \<Rightarrow> string \<rightharpoonup> LocalNetIfc) \<Rightarrow> 'w ConnectionAgent \<Rightarrow> NamespacedName \<Rightarrow> uint32
    \<Rightarrow> HardwareAddr \<Rightarrow> bool" where
  "local_done locals ca n vni mac \<longleftrightarrow>
     (\<exists>main. nsnToLocalMainState ca n = Some main \<and> li_VNI (LocalIfc main) = vni \<and> li_GuestMAC (LocalIfc main) = mac \<and>
        locals (ca_world ca) (generateIfcName mac) = Some (LocalIfc main)) \<and> nsnToRemoteIfc ca n = None"

definition remote_done :: "('w \<Rightarrow> string \<rightharpoonup> RemoteNetIfc) \<Rightarrow> 'w ConnectionAgent \<Rightarrow> NamespacedName \<Rightarrow> uint32
    \<Rightarrow> HardwareAddr \<Rightarrow> IP \<Rightarrow> bool" where
  "remote_done remotes ca n vni mac host \<longleftrightarrow>
     (\<exists>ri. nsnToRemoteIfc ca n = Some ri \<and> ri_VNI ri = vni \<and> ri_GuestMAC ri = mac \<and> ip_Equal (ri_HostIP ri) host \<and>
        remotes (ca_world ca) (hw_String mac) = Some ri) \<and> nsnToLocalMainState ca n = None"

section \<open>MAC addresses\<close>

lemma generateMACAddr_four: "generateMACAddr vni (IPv4 a b c d) =
    Inr [((ucast (drop_bit 13 vni) AND 0xF8) OR push_bit 1 (a AND 2)) OR 2, b, c, d, ucast (drop_bit 8 vni), ucast vni]"
  by (simp add: generateMACAddr_def)

lemma generateMACAddr_Inr:
  "generateMACAddr vni ip = Inr mac \<longleftrightarrow> (\<exists>a b c d. To4 ip = [a, b, c, d] \<and> generateMACAddr vni (IPv4 a b c d) = Inr mac)"
  by (auto simp: generateMACAddr_def split: list.splits)

text \<open>The bits of the first octet.\<close>

lemma mac_octet_bits:
  "bit (((ucast (drop_bit 13 vni) AND 0xF8) OR push_bit 1 (a AND 2)) OR 2 :: uint8) n \<longleftrightarrow>
     n < 8 \<and> (3 \<le> n \<and> bit (vni :: uint32) (n + 13) \<or> n = 2 \<and> bit (a :: uint8) 1 \<or> n = 1)"
proof -
  have const: "bit (0xF8 :: uint8) k \<longleftrightarrow> 3 \<le> k \<and> k < 8" "bit (2 :: uint8) k \<longleftrightarrow> k = 1" for k
    by (simp_all add: bit_numeral_iff [symmetric]) (auto simp: numeral_eq_Suc less_Suc_eq bit_simps)
  have len: "bit x k \<Longrightarrow> k < 8" for x :: uint8 and k using bit_imp_le_length [of x k] by simp
  show ?thesis
    unfolding bit_or_iff bit_and_iff bit_push_bit_iff bit_unsigned_iff bit_drop_bit_eq const o_def
    using len [of a] by (auto simp: add.commute)
qed

lemma bit_lt_21: "(vni :: uint32) < 2 ^ 21 \<Longrightarrow> bit vni k \<Longrightarrow> k < 21"
proof (rule ccontr)
  assume a: "vni < 2 ^ 21" "bit vni k" "\<not> k < 21"
  have "drop_bit 21 vni = 0" unfolding drop_bit_eq_div by (rule div_word_less) (use a(1) in simp)
  moreover have "bit (drop_bit 21 vni) (k - 21)" using a(2,3) by (simp add: bit_drop_bit_eq)
  ultimately show False by simp
qed

text \<open>The MAC address carries the VNI, the last three octets and one bit of the first.\<close>

lemma generateMACAddr_eq_iff:
  assumes "vni < 2 ^ 21" "vni' < 2 ^ 21"
  shows "generateMACAddr vni (IPv4 a b c d) = generateMACAddr vni' (IPv4 a' b' c' d') \<longleftrightarrow>
    vni = vni' \<and> b = b' \<and> c = c' \<and> d = d' \<and> bit a 1 = bit a' 1"
    (is "?eq \<longleftrightarrow> ?rhs")
proof
  assume ?eq
  then have low: "(ucast vni :: uint8) = ucast vni'" "(ucast (drop_bit 8 vni) :: uint8) = ucast (drop_bit 8 vni')"
    and bytes: "b = b'" "c = c'" "d = d'"
    and top: "(((ucast (drop_bit 13 vni) AND 0xF8) OR push_bit 1 (a AND 2)) OR 2 :: uint8) =
      ((ucast (drop_bit 13 vni') AND 0xF8) OR push_bit 1 (a' AND 2)) OR 2"
    by (simp_all add: generateMACAddr_four)
  have oct: "n < 8 \<and> (3 \<le> n \<and> bit vni (n + 13) \<or> n = 2 \<and> bit a 1 \<or> n = 1) \<longleftrightarrow>
      n < 8 \<and> (3 \<le> n \<and> bit vni' (n + 13) \<or> n = 2 \<and> bit a' 1 \<or> n = 1)" for n
    using arg_cong [OF top, of "\<lambda>x. bit x n"] unfolding mac_octet_bits .
  have "bit vni k = bit vni' k" for k
  proof -
    consider "k < 8" | "8 \<le> k" "k < 16" | "16 \<le> k" "k < 21" | "21 \<le> k" by linarith
    then show ?thesis
    proof cases
      case 1
      then show ?thesis using arg_cong [OF low(1), of "\<lambda>x. bit x k"] by (simp add: bit_unsigned_iff)
    next
      case 2
      then show ?thesis using arg_cong [OF low(2), of "\<lambda>x. bit x (k - 8)"] by (simp add: bit_unsigned_iff bit_drop_bit_eq less_diff_conv2)
    next
      case 3
      then show ?thesis using oct [of "k - 13"] by auto
    next
      case 4
      then show ?thesis using bit_lt_21 [OF assms(1), of k] bit_lt_21 [OF assms(2), of k] by auto
    qed
  qed
  then show ?rhs using bytes oct [of 2] by (auto intro: bit_eqI)
next
  assume ?rhs
  moreover from this have "(((ucast (drop_bit 13 vni) AND 0xF8) OR push_bit 1 (a AND 2)) OR 2 :: uint8) =
      ((ucast (drop_bit 13 vni') AND 0xF8) OR push_bit 1 (a' AND 2)) OR 2"
    by (intro bit_eqI) (simp only: mac_octet_bits)
  ultimately show ?eq by (simp add: generateMACAddr_four)
qed

lemma same_mac_same_vni:
  assumes "well_made vni ip mac" "well_made vni' ip' mac"
  shows "vni = vni'"
proof -
  from assms obtain a b c d a' b' c' d' where
    "generateMACAddr vni (IPv4 a b c d) = Inr mac" "generateMACAddr vni' (IPv4 a' b' c' d') = Inr mac"
    unfolding well_made_def generateMACAddr_Inr [of _ ip] generateMACAddr_Inr [of _ ip'] by blast
  then show ?thesis
    using generateMACAddr_eq_iff [of vni vni' a b c d a' b' c' d'] assms by (simp add: well_made_def)
qed

section \<open>Interfaces and the fabric\<close>

lemma ip_Equal_sym: "ip_Equal x y \<Longrightarrow> ip_Equal y x"
  by (auto simp: ip_Equal_def split: if_splits)

lemma LaunchCommand_frame:
  assumes "LaunchCommand n li cmd what doit save ca = (errs, ca')"
  shows "nsnToLocalMainState ca' = nsnToLocalMainState ca \<and> nsnToRemoteIfc ca' = nsnToRemoteIfc ca \<and>
    ca_world ca' = ca_world ca \<and> hostIP ca' = hostIP ca \<and> localNodeName ca' = localNodeName ca"
  using assms by (auto simp: LaunchCommand_def split: if_splits)

lemma LaunchCommand_snd [simp]:
  "nsnToLocalMainState (snd (LaunchCommand n li cmd what doit save ca)) = nsnToLocalMainState ca"
  "nsnToRemoteIfc (snd (LaunchCommand n li cmd what doit save ca)) = nsnToRemoteIfc ca"
  "ca_world (snd (LaunchCommand n li cmd what doit save ca)) = ca_world ca"
  "hostIP (snd (LaunchCommand n li cmd what doit save ca)) = hostIP ca"
  "localNodeName (snd (LaunchCommand n li cmd what doit save ca)) = localNodeName ca"
  by (auto simp: LaunchCommand_def)

lemma ip_Equal_trans: "ip_Equal x y \<Longrightarrow> ip_Equal y z \<Longrightarrow> ip_Equal x z"
  by (auto simp: ip_Equal_def split: if_splits) (metis append_take_drop_id)

lemma held_cong:
  assumes "nsnToLocalMainState ca' = nsnToLocalMainState ca" "nsnToRemoteIfc ca' = nsnToRemoteIfc ca"
    "locals (ca_world ca') = locals (ca_world ca)" "remotes (ca_world ca') = remotes (ca_world ca)" "hostIP ca' = hostIP ca"
  shows "held locals remotes ca' n = held locals remotes ca n"
  unfolding held_def assms ..

lemma getLocalAttState_None: "getLocalAttState ca n = None \<longleftrightarrow> nsnToLocalMainState ca n = None"
  by (simp add: getLocalAttState_def split: option.split)

lemma getLocalAttState_Some: "getLocalAttState ca n = Some st \<Longrightarrow> nsnToLocalMainState ca n = Some (MainState st)"
  by (auto simp: getLocalAttState_def split: option.splits)

lemma fab_call_Inr: "fab_call r ca = Inr (x, ca1) \<longleftrightarrow> (\<exists>w. r = Inr (x, w) \<and> ca1 = ca\<lparr>ca_world := w\<rparr>)"
  by (auto simp: fab_call_def split: sum.splits)

lemmas ifc_defs = setLocalAttMainState_def assignRemoteIfc_def unsetLocalAttState_def unsetRemoteIfc_def
  getRemoteIfc_def

context network_fabric
begin

lemma delete_old_ifc_done:
  assumes "delete_old_ifc env n ca = Inr (None, ca1)" "en_fabric env = fab" "invar (ca_world ca)"
    and one: "nsnToLocalMainState ca n = None \<or> nsnToRemoteIfc ca n = None"
  shows "invar (ca_world ca1) \<and> nsnToLocalMainState ca1 n = None \<and> nsnToRemoteIfc ca1 n = None \<and> hostIP ca1 = hostIP ca"
proof (cases "getLocalAttState ca n")
  case None
  show ?thesis
  proof (cases "nsnToRemoteIfc ca n")
    case (Some ri)
    with None assms obtain w where "DeleteRemoteIfc fab (ca_world ca) ri = Inr (None, w)" "ca1 = unsetRemoteIfc n (ca\<lparr>ca_world := w\<rparr>)"
      by (auto simp: delete_old_ifc_def agent_DeleteRemoteIfc_def fab_call_Inr getRemoteIfc_def split: sum.splits option.splits)
    with delete_remote [OF assms(3)] None show ?thesis by (auto simp: ifc_defs getLocalAttState_None)
  qed (use None None [unfolded getLocalAttState_None] assms in \<open>auto simp: delete_old_ifc_def getRemoteIfc_def\<close>)
next
  case (Some st)
  let ?li = "LocalIfc (MainState st)"
  from Some assms obtain w where "DeleteLocalIfc fab (ca_world ca) ?li = Inr (None, w)"
    and ca1: "ca1 = unsetLocalAttState n (snd (LaunchCommand n ?li (MainPostDeleteExec (MainState st)) ''postDelete'' True False
        (ca\<lparr>ca_world := w\<rparr>)))"
    by (auto simp: delete_old_ifc_def agent_DeleteLocalIfc_def fab_call_Inr Let_def split: sum.splits option.splits)
  with delete_local [OF assms(3)] one Some show ?thesis by (auto simp: ifc_defs dest: getLocalAttState_Some)
qed

lemma create_new_ifc_done:
  assumes run: "create_new_ifc env n gip hip vni mac pc pd ca = Inr (Inr errs, ca2)" and env: "en_fabric env = fab" "invar (ca_world ca)"
    and none: "nsnToLocalMainState ca n = None" "nsnToRemoteIfc ca n = None" and mac: "well_made vni gip mac"
  shows "invar (ca_world ca2) \<and> held locals remotes ca2 n \<and>
    (if ip_Equal hip (hostIP ca) then local_done locals ca2 n vni mac else remote_done remotes ca2 n vni mac hip)"
proof (cases "ip_Equal hip (hostIP ca)")
  case True
  let ?li = "\<lparr>li_Name = generateIfcName mac, li_VNI = vni, li_GuestMAC = mac, li_GuestIP = gip\<rparr>"
  from True run env obtain w ca1 where c: "CreateLocalIfc fab (ca_world ca) ?li = Inr (None, w)"
    and l: "LaunchCommand n ?li pc ''postCreateExec'' True True
        (setLocalAttMainState n \<lparr>LocalIfc = ?li, MainPostDeleteExec = pd\<rparr> (ca\<lparr>ca_world := w\<rparr>)) = (errs, ca2)"
    by (auto simp: create_new_ifc_def fab_call_Inr Let_def split: sum.splits option.splits prod.splits)
  from create_local [OF env(2) c] LaunchCommand_frame [OF l] True none mac show ?thesis
    by (simp add: held_def local_done_def ifc_defs)
next
  case False
  let ?ri = "\<lparr>ri_VNI = vni, ri_GuestMAC = mac, ri_GuestIP = gip, ri_HostIP = hip\<rparr>"
  from False run env obtain w where c: "CreateRemoteIfc fab (ca_world ca) ?ri = Inr (None, w)"
    and ca2: "ca2 = assignRemoteIfc n ?ri (ca\<lparr>ca_world := w\<rparr>)"
    by (auto simp: create_new_ifc_def fab_call_Inr Let_def split: sum.splits option.splits prod.splits)
  moreover have "ip_Equal hip hip" by (simp add: ip_Equal_def)
  ultimately show ?thesis using create_remote [OF env(2) c] False none mac
    by (simp add: held_def remote_done_def ifc_defs)
qed

lemma createOrUpdateIfc_done:
  assumes run: "createOrUpdateIfc env gip hip vni n pc pd ca = Inr (Inr res, ca')"
    and env: "en_fabric env = fab" "invar (ca_world ca)" and held: "held locals remotes ca n"
    and mac: "well_made vni gip mac"
  shows "invar (ca_world ca') \<and> held locals remotes ca' n \<and> hostIP ca' = hostIP ca \<and>
    res_MAC res = hw_String mac \<and> res_Name res = generateIfcName mac \<and>
    (if ip_Equal hip (hostIP ca) then local_done locals ca' n vni mac else remote_done remotes ca' n vni mac hip)"
proof -
  have m: "generateMACAddr vni gip = Inr mac" using mac by (simp add: well_made_def)
  have host: "hostIP ca' = hostIP ca"
    using createOrUpdateIfc_same [of ca env gip hip vni n pc pd] run by (simp add: vn_view_def)
  show ?thesis
  proof (cases "newIfcNeedsToBeCreated ca n hip mac")
    case True
    with run m obtain ca1 errs where d: "delete_old_ifc env n ca = Inr (None, ca1)"
      and c: "create_new_ifc env n gip hip vni mac pc pd ca1 = Inr (Inr errs, ca')"
      and res: "res_MAC res = hw_String mac" "res_Name res = generateIfcName mac"
      by (auto simp: createOrUpdateIfc_def Let_def split: sum.splits option.splits)
    from delete_old_ifc_done [OF d env] held have d1: "invar (ca_world ca1)" "nsnToLocalMainState ca1 n = None"
      "nsnToRemoteIfc ca1 n = None" "hostIP ca1 = hostIP ca" by (auto simp: held_def)
    from create_new_ifc_done [OF c env(1) d1(1-3) mac] res host d1(4) show ?thesis by simp
  next
    case False
    then have keep: "nsnToLocalMainState ca' = nsnToLocalMainState ca" "nsnToRemoteIfc ca' = nsnToRemoteIfc ca"
      "ca_world ca' = ca_world ca" "res_MAC res = hw_String mac" "res_Name res = generateIfcName mac"
      using run m by (auto simp: createOrUpdateIfc_def Let_def dest!: LaunchCommand_frame
          split: sum.splits option.splits prod.splits)
    then have "held locals remotes ca' n" using held host held_cong [of ca' ca locals remotes n] by simp
    moreover have "if ip_Equal hip (hostIP ca) then local_done locals ca' n vni mac else remote_done remotes ca' n vni mac hip"
    proof (cases "nsnToLocalMainState ca n")
      case (Some main)
      then have "ip_Equal (hostIP ca) hip" "li_GuestMAC (LocalIfc main) = mac" "nsnToRemoteIfc ca n = None"
        using False held by (auto simp: newIfcNeedsToBeCreated_def getLocalAttState_def ifcNeedsUpdate_def held_def)
      moreover have "ip_Equal hip (hostIP ca)" using \<open>ip_Equal (hostIP ca) hip\<close> ip_Equal_sym by blast
      ultimately show ?thesis using Some held keep mac same_mac_same_vni
        by (fastforce simp: local_done_def held_def)
    next
      case None
      then obtain ri where ri: "nsnToRemoteIfc ca n = Some ri" "ip_Equal (ri_HostIP ri) hip" "ri_GuestMAC ri = mac"
        using False by (auto simp: newIfcNeedsToBeCreated_def getRemoteIfc_def ifcNeedsUpdate_def getLocalAttState_def
            split: option.splits)
      then have "ri_VNI ri = vni" using held mac same_mac_same_vni by (fastforce simp: held_def)
      moreover have "\<not> ip_Equal hip (hostIP ca)" using ri held ip_Equal_trans by (auto simp: held_def)
      ultimately show ?thesis using ri None held keep by (auto simp: remote_done_def held_def)
    qed
    ultimately show ?thesis using keep host env(2) by simp
  qed
qed

text \<open>
  A local interface that is created is exactly the one asked for; it is created unless there is a
  local one with the same MAC address.
\<close>

lemma create_local_exact:
  assumes run: "createOrUpdateIfc env gip hip vni n pc pd ca = Inr (Inr res, ca')"
    and env: "en_fabric env = fab" "invar (ca_world ca)" and held: "held locals remotes ca n"
    and mac: "generateMACAddr vni gip = Inr mac" and host: "ip_Equal hip (hostIP ca)"
    and new: "\<And>old. nsnToLocalMainState ca n = Some old \<Longrightarrow> li_GuestMAC (LocalIfc old) \<noteq> mac"
  shows "nsnToLocalMainState ca' n = Some \<lparr>LocalIfc = \<lparr>li_Name = generateIfcName mac, li_VNI = vni, li_GuestMAC = mac,
    li_GuestIP = gip\<rparr>, MainPostDeleteExec = pd\<rparr>"
proof -
  have "\<not> ip_Equal (ri_HostIP ri) hip" if "nsnToRemoteIfc ca n = Some ri" for ri
    using that held host ip_Equal_trans by (auto simp: held_def)
  then have "newIfcNeedsToBeCreated ca n hip mac"
    using new by (auto simp: newIfcNeedsToBeCreated_def ifcNeedsUpdate_def getRemoteIfc_def getLocalAttState_def
        split: option.split)
  with run mac obtain ca1 errs where d: "delete_old_ifc env n ca = Inr (None, ca1)"
    and c: "create_new_ifc env n gip hip vni mac pc pd ca1 = Inr (Inr errs, ca')"
    by (auto simp: createOrUpdateIfc_def Let_def split: sum.splits option.splits)
  from delete_old_ifc_done [OF d env] held have "hostIP ca1 = hostIP ca" by (auto simp: held_def)
  with c host obtain ca2 errs where
    "LaunchCommand n \<lparr>li_Name = generateIfcName mac, li_VNI = vni, li_GuestMAC = mac, li_GuestIP = gip\<rparr> pc ''postCreateExec'' True True
       (setLocalAttMainState n \<lparr>LocalIfc = \<lparr>li_Name = generateIfcName mac, li_VNI = vni, li_GuestMAC = mac, li_GuestIP = gip\<rparr>,
          MainPostDeleteExec = pd\<rparr> ca2) = (errs, ca')"
    by (auto simp: create_new_ifc_def fab_call_Inr Let_def split: sum.splits option.splits prod.splits)
  from LaunchCommand_frame [OF this] show ?thesis by (simp add: setLocalAttMainState_def)
qed

end

text \<open>The guest address of an interface with a given MAC address, up to what the MAC address has of it.\<close>

lemma same_mac_guest:
  assumes "well_made vni ip mac" "generateMACAddr vni (IPv4 a b c d) = Inr mac"
  shows "\<exists>a'. To4 ip = [a', b, c, d] \<and> bit a' 1 = bit a 1"
proof -
  from assms(1) obtain a' b' c' d' where ip: "To4 ip = [a', b', c', d']" and m: "generateMACAddr vni (IPv4 a' b' c' d') = Inr mac"
    unfolding well_made_def generateMACAddr_Inr [of vni ip] by blast
  have "b' = b \<and> c' = c \<and> d' = d \<and> bit a' 1 = bit a 1"
    using generateMACAddr_eq_iff [of vni vni a' b' c' d' a b c d] assms m by (simp add: well_made_def)
  then show ?thesis using ip by simp
qed

section \<open>Processing an attachment\<close>

text \<open>The bookkeeping of virtual networks does not touch interfaces.\<close>

definition ifc_view where
  "ifc_view ca = (nsnToLocalMainState ca, nsnToRemoteIfc ca, ca_world ca, hostIP ca, localNodeName ca)"

lemma ifc_view_simps [simp]:
  "ifc_view (queue_Add n ca) = ifc_view ca" "ifc_view (removeSeenInVNI n vni ca) = ifc_view ca"
  "ifc_view (setVNStateVNI n vni ca) = ifc_view ca" "ifc_view (unsetVNStateVNI n ca) = ifc_view ca"
  "ifc_view (add_local_att n vni ca) = ifc_view ca" "ifc_view (ca\<lparr>ca_closed := cs\<rparr>) = ifc_view ca"
  "ifc_view (ca\<lparr>vniToVnState := m'\<rparr>) = ifc_view ca"
  by (auto simp: ifc_view_def queue_Add_def removeSeenInVNI_def setVNStateVNI_def unsetVNStateVNI_def add_local_att_def
      initVNState_def Let_def split: option.split)

lemma clearVNResources_ifc:
  fixes ca :: "'w ConnectionAgent"
  assumes "clearVNResources env vn vni ca = Inr ca'"
  shows "ifc_view ca' = ifc_view ca"
proof -
  have "ifc_view (fold (\<lambda>name ca. let n = nsn (vn_namespace vn) name
      in queue_Add n (removeSeenInVNI n vni ca)) names ca) = ifc_view ca" for names and ca :: "'w ConnectionAgent"
    by (induction names arbitrary: ca) (simp_all add: Let_def)
  then show ?thesis using assms by (auto simp: clearVNResources_def split: if_splits)
qed

lemma departure_ifc: "updateVNStateAfterAttDeparture env name vni ca = Inr ca' \<Longrightarrow> ifc_view ca' = ifc_view ca"
  by (auto simp: updateVNStateAfterAttDeparture_def removeAttFromVNState_def Let_def
      split: option.splits if_splits dest!: clearVNResources_ifc)

text \<open>A deleted attachment takes its own report with it, and no other.\<close>

lemma departure_reports:
  fixes ca :: "'w ConnectionAgent"
  assumes "updateVNStateAfterAttDeparture env name vni ca = Inr ca'"
  shows "nsnToPostCreateExecReport ca' = nsnToPostCreateExecReport ca"
proof -
  have reports: "nsnToPostCreateExecReport (fold (\<lambda>name ca. queue_Add (nsn ns name) (removeSeenInVNI (nsn ns name) vni ca)) names ca) =
      nsnToPostCreateExecReport ca" for ns names and ca :: "'w ConnectionAgent"
    by (induction names arbitrary: ca) (simp_all add: Let_def queue_Add_def removeSeenInVNI_def split: option.split)
  show ?thesis using assms
    by (auto simp: updateVNStateAfterAttDeparture_def removeAttFromVNState_def clearVNResources_def Let_def reports
        split: option.splits if_splits)
qed

lemma processDeletedAtt_reports:
  assumes "processDeletedAtt env n ca = Inr (e, ca')" "m \<noteq> n"
  shows "nsnToPostCreateExecReport ca' m = nsnToPostCreateExecReport ca m"
  using assms by (auto simp: processDeletedAtt_def Let_def fab_call_def unsetLocalAttState_def unsetRemoteIfc_def
    LaunchCommand_def unsetVNStateVNI_def agent_DeleteLocalIfc_def agent_DeleteRemoteIfc_def
    dest!: departure_reports split: option.splits sum.splits if_splits prod.splits)

lemma existing_ifc: "updateVNStateForExistingAtt n loc vni ca = (ret, gone, ca') \<Longrightarrow> ifc_view ca' = ifc_view ca"
  by (auto simp: updateVNStateForExistingAtt_def add_remote_att_def Let_def split: option.splits if_splits)

lemma updateVNState_ifc: "updateVNState env vni n node ca = Inr (ret, gone, ca') \<Longrightarrow> ifc_view ca' = ifc_view ca"
  by (auto simp: updateVNState_def split: option.splits if_splits sum.splits dest!: departure_ifc existing_ifc)

lemma held_view: "ifc_view ca' = ifc_view ca \<Longrightarrow> held locals remotes ca' n = held locals remotes ca n"
  by (rule held_cong) (simp_all add: ifc_view_def)

text \<open>An API server whose updates leave the fabric alone.\<close>

definition update_apart :: "'w agent_env \<Rightarrow> ('w \<Rightarrow> bool) \<Rightarrow> ('w \<Rightarrow> string \<rightharpoonup> LocalNetIfc)
    \<Rightarrow> ('w \<Rightarrow> string \<rightharpoonup> RemoteNetIfc) \<Rightarrow> bool" where
  "update_apart env invar locals remotes \<longleftrightarrow>
     (\<forall>w ns a. invar w \<longrightarrow> (let w' = snd (en_Update env w ns a)
        in invar w' \<and> locals w' = locals w \<and> remotes w' = remotes w))"

text \<open>The status of a local attachment says what the agent did, or the agent has just written that.\<close>

definition status_reported :: "'w agent_env \<Rightarrow> 'w ConnectionAgent \<Rightarrow> NetworkAttachment \<Rightarrow> HardwareAddr \<Rightarrow> bool" where
  "status_reported env ca att mac \<longleftrightarrow>
     (\<exists>st. HostIP st = ip_String (hostIP ca) \<and> MACAddress st = hw_String mac \<and> IfcName st = generateIfcName mac \<and>
        (st = att_Status att \<or>
         (\<exists>w r. en_Update env w (meta_Namespace (att_meta att)) (att\<lparr>att_Status := st\<rparr>) = (Inr r, ca_world ca))))"

context network_fabric
begin

lemma process_ifc_done:
  assumes run: "process_ifc env att ca = Inr (None, ca')" and env: "en_fabric env = fab" "invar (ca_world ca)"
    and upd: "update_apart env invar locals remotes" and held: "held locals remotes ca (AttNSN att)"
    and mac: "well_made (AddressVNI (att_Status att)) (ParseIP (Status_IPv4 (att_Status att))) mac"
  shows "invar (ca_world ca') \<and> held locals remotes ca' (AttNSN att) \<and>
    (if ip_Equal (att_host_ip ca att) (hostIP ca) then local_done locals ca' (AttNSN att) (AddressVNI (att_Status att)) mac
     else remote_done remotes ca' (AttNSN att) (AddressVNI (att_Status att)) mac (att_host_ip ca att)) \<and>
    (Node (att_Spec att) = localNodeName ca \<longrightarrow> status_reported env ca' att mac)"
proof -
  obtain res ca1 where c: "createOrUpdateIfc env (ParseIP (Status_IPv4 (att_Status att))) (att_host_ip ca att)
      (AddressVNI (att_Status att)) (AttNSN att) (PostCreateExec (att_Spec att)) (PostDeleteExec (att_Spec att)) ca = Inr (Inr res, ca1)"
    using run by (auto simp: process_ifc_def split: sum.splits)
  from createOrUpdateIfc_done [OF c env held mac] have fin: "invar (ca_world ca1)" "held locals remotes ca1 (AttNSN att)"
    "hostIP ca1 = hostIP ca" "res_MAC res = hw_String mac" "res_Name res = generateIfcName mac"
    "if ip_Equal (att_host_ip ca att) (hostIP ca) then local_done locals ca1 (AttNSN att) (AddressVNI (att_Status att)) mac
     else remote_done remotes ca1 (AttNSN att) (AddressVNI (att_Status att)) mac (att_host_ip ca att)" by auto
  have "same_vn ca (Inr (Inr res, ca1) :: (agent_panic, (agent_error, ifc_result) result \<times> _) result)"
    unfolding c [symmetric] by (rule createOrUpdateIfc_same)
  then have node: "localNodeName ca1 = localNodeName ca" by (simp add: vn_view_def)
  show ?thesis
  proof (cases "Node (att_Spec att) = localNodeName ca \<and> status_differs ca1 att res")
    case True
    then obtain r w where u: "en_Update env (ca_world ca1) (meta_Namespace (att_meta att)) (host_status ca1 att res) = (Inr r, w)"
      and ca': "ca' = ca1\<lparr>ca_world := w\<rparr>"
      using run c node by (auto simp: process_ifc_def setAttStatus_def host_status_def Let_def split: sum.splits prod.splits)
    from upd fin(1) u have w: "invar w" "locals w = locals (ca_world ca1)" "remotes w = remotes (ca_world ca1)"
      unfolding update_apart_def by (metis snd_conv)+
    then have "held locals remotes ca' (AttNSN att)"
      using fin(2) held_cong [of ca' ca1 locals remotes "AttNSN att"] by (simp add: ca')
    moreover have "status_reported env ca' att mac"
      unfolding status_reported_def using u fin
      by (intro exI [of _ "att_Status (host_status ca1 att res)"]) (auto simp: host_status_def ca')
    ultimately show ?thesis using w fin by (auto simp: local_done_def remote_done_def ca' split: if_splits)
  next
    case False
    then have "ca' = ca1" using run c node by (auto simp: process_ifc_def split: if_splits)
    moreover have "Node (att_Spec att) = localNodeName ca \<longrightarrow> status_reported env ca1 att mac"
      using False fin by (auto simp: status_reported_def status_differs_def)
    ultimately show ?thesis using fin by simp
  qed
qed

lemma process_ifc_exact:
  assumes run: "process_ifc env att ca = Inr (None, ca')" and env: "en_fabric env = fab" "invar (ca_world ca)"
    and held: "held locals remotes ca (AttNSN att)" and host: "ip_Equal (att_host_ip ca att) (hostIP ca)"
    and mac: "generateMACAddr (AddressVNI (att_Status att)) (ParseIP (Status_IPv4 (att_Status att))) = Inr mac"
    and new: "\<And>old. nsnToLocalMainState ca (AttNSN att) = Some old \<Longrightarrow> li_GuestMAC (LocalIfc old) \<noteq> mac"
  shows "nsnToLocalMainState ca' (AttNSN att) = Some \<lparr>LocalIfc = \<lparr>li_Name = generateIfcName mac,
    li_VNI = AddressVNI (att_Status att), li_GuestMAC = mac, li_GuestIP = ParseIP (Status_IPv4 (att_Status att))\<rparr>,
    MainPostDeleteExec = PostDeleteExec (att_Spec att)\<rparr>"
proof -
  obtain res ca1 where c: "createOrUpdateIfc env (ParseIP (Status_IPv4 (att_Status att))) (att_host_ip ca att)
      (AddressVNI (att_Status att)) (AttNSN att) (PostCreateExec (att_Spec att)) (PostDeleteExec (att_Spec att)) ca = Inr (Inr res, ca1)"
    using run by (auto simp: process_ifc_def split: sum.splits)
  have "nsnToLocalMainState ca' = nsnToLocalMainState ca1"
    using run c by (auto simp: process_ifc_def setAttStatus_def Let_def split: if_splits sum.splits prod.splits)
  with create_local_exact [OF c env held mac host new] show ?thesis by simp
qed

lemma processDeletedAtt_done:
  assumes run: "processDeletedAtt env n ca = Inr (None, ca')" and env: "en_fabric env = fab" "invar (ca_world ca)"
    and held: "held locals remotes ca n"
  shows "invar (ca_world ca') \<and> nsnToLocalMainState ca' n = None \<and> nsnToRemoteIfc ca' n = None \<and>
    (\<forall>m. m \<noteq> n \<longrightarrow> nsnToLocalMainState ca' m = nsnToLocalMainState ca m \<and> nsnToRemoteIfc ca' m = nsnToRemoteIfc ca m) \<and>
    locals (ca_world ca') = (case nsnToLocalMainState ca n of None \<Rightarrow> locals (ca_world ca)
      | Some main \<Rightarrow> (locals (ca_world ca))(li_Name (LocalIfc main) := None)) \<and>
    remotes (ca_world ca') = (case nsnToRemoteIfc ca n of None \<Rightarrow> remotes (ca_world ca)
      | Some ri \<Rightarrow> (remotes (ca_world ca))(hw_String (ri_GuestMAC ri) := None))"
proof -
  obtain ca1 where ca1: "ifc_view ca1 = ifc_view ca" "(case getVNStateVNI ca n of None \<Rightarrow> Inr ca | Some vni \<Rightarrow>
      (case updateVNStateAfterAttDeparture env (nsn_Name n) vni ca of
         Inl p \<Rightarrow> Inl p | Inr ca1 \<Rightarrow> Inr (unsetVNStateVNI n ca1))) = (Inr ca1 :: (agent_panic, _) result)"
  proof (cases "getVNStateVNI ca n")
    case (Some vni)
    then obtain x where "updateVNStateAfterAttDeparture env (nsn_Name n) vni ca = Inr x"
      using run by (auto simp: processDeletedAtt_def split: sum.splits)
    from that [of "unsetVNStateVNI n x"] departure_ifc [OF this] this Some show ?thesis by simp
  qed (use that [of ca] in simp)
  then have view: "nsnToLocalMainState ca1 = nsnToLocalMainState ca" "nsnToRemoteIfc ca1 = nsnToRemoteIfc ca"
    "ca_world ca1 = ca_world ca" by (simp_all add: ifc_view_def)
  note run1 = run [unfolded processDeletedAtt_def ca1(2) sum.case]
  show ?thesis
  proof (cases "getLocalAttState ca1 n")
    case (Some st)
    let ?li = "LocalIfc (MainState st)"
    from run1 Some env view obtain w where d: "DeleteLocalIfc fab (ca_world ca) ?li = Inr (None, w)"
      and ca': "ca' = unsetLocalAttState n (snd (LaunchCommand n ?li (MainPostDeleteExec (MainState st)) ''postDelete'' True False
        (ca1\<lparr>ca_world := w\<rparr>)))"
      by (auto simp: agent_DeleteLocalIfc_def fab_call_Inr Let_def split: sum.splits option.splits)
    from delete_local [OF env(2) d] ca' getLocalAttState_Some [OF Some] held view show ?thesis
      by (simp add: held_def ifc_defs)
  next
    case None
    then have l: "nsnToLocalMainState ca n = None" using view by (simp add: getLocalAttState_None)
    show ?thesis
    proof (cases "nsnToRemoteIfc ca n")
      case (Some ri)
      with run1 None env view obtain w where d: "DeleteRemoteIfc fab (ca_world ca) ri = Inr (None, w)"
        and "ca' = unsetRemoteIfc n (ca1\<lparr>ca_world := w\<rparr>)"
        by (auto simp: agent_DeleteRemoteIfc_def fab_call_Inr getRemoteIfc_def split: sum.splits option.splits)
      with delete_remote [OF env(2) d] Some l view show ?thesis by (simp add: ifc_defs)
    qed (use run1 None l env view in \<open>simp add: getRemoteIfc_def\<close>)
  qed
qed

end

end
