(* ===== verification/Agent_Props.thy ===== *)
theory Agent_Props
  imports Agent_Ifc
begin

text \<open>
  The properties of the connection agent, over every fabric that keeps the contract
  \<open>network_fabric\<close>, with runs on the logger fabric as witnesses.
\<close>

section \<open>Sample objects\<close>

definition node_att :: "string \<Rightarrow> string \<Rightarrow> string \<Rightarrow> uint32 \<Rightarrow> string \<Rightarrow> string \<Rightarrow> NetworkAttachment" where
  "node_att node ns name vni ipv4 host =
     \<lparr>att_meta = \<lparr>meta_Name = name, meta_Namespace = ns, meta_UID = ''u'', meta_ResourceVersion = ''1'',
        meta_CreationTimestamp = 0, meta_OwnerReferences = []\<rparr>,
      att_Spec = \<lparr>Node = node, Subnet_name = ''s'', PostCreateExec = [''/bin/ping'', ''-I'', ''${ifname}''], PostDeleteExec = []\<rparr>,
      att_Status = \<lparr>Errors = \<lparr>IPAM_errs = [], Host_errs = []\<rparr>, LockUID = [], AddressVNI = vni, Status_IPv4 = ipv4,
        MACAddress = [], IfcName = [], HostIP = host, PostCreateExecReport = None\<rparr>\<rparr>"

definition agent_sample_env :: "(string \<Rightarrow> string \<Rightarrow> NetworkAttachment option) \<Rightarrow> (nat \<Rightarrow> string \<Rightarrow> NetworkAttachment option)
    \<Rightarrow> logger agent_env" where
  "agent_sample_env loc rem =
     \<lparr>en_fabric = logger_fabric id, en_Update = (\<lambda>w ns a. (Inr a, w)),
      en_localLister = (\<lambda>ns name. case loc ns name of
        Some a \<Rightarrow> Inr a | None \<Rightarrow> Inl \<lparr>ae_reason = ReasonNotFound, ae_text = ''not found''\<rparr>),
      en_localList = Inr [], en_localByIndex = (\<lambda>_. Inr []),
      en_remoteLister = (\<lambda>i name. case rem i name of
        Some a \<Rightarrow> Inr a | None \<Rightarrow> Inl \<lparr>ae_reason = ReasonNotFound, ae_text = ''not found''\<rparr>),
      en_remoteByIndex = (\<lambda>_ _. Inr []), en_remoteSync = (\<lambda>_. True), en_iter = id\<rparr>"

definition agent0 :: "logger ConnectionAgent" where
  "agent0 = NewConnectionAgent ''n1'' [192, 168, 0, 1] [''/bin/ping''] new_logger"

lemma agent_sample_env_simps [simp]:
  "en_fabric (agent_sample_env loc rem) = logger_fabric id"
  "update_apart (agent_sample_env loc rem) logger_ok (map_of \<circ> localIfcs) (map_of \<circ> remoteIfcs)"
  by (simp_all add: agent_sample_env_def update_apart_def)

lemma agent0_simps [simp]:
  "logger_ok (ca_world agent0)" "held locals remotes agent0 n" "localNodeName agent0 = ''n1''"
  "hostIP agent0 = [192, 168, 0, 1]"
  by (simp_all add: agent0_def NewConnectionAgent_def new_logger_def logger_ok_def keyed_by_def held_def)

section \<open>Interfaces\<close>

lemma updateVNState_local:
  assumes "updateVNState env vni n (localNodeName ca) ca = Inr (ret, gone, ca1)"
  shows "ret = None \<and> \<not> gone"
proof -
  have "localNodeName x = localNodeName ca" if "updateVNStateAfterAttDeparture env name v ca = Inr x" for name v x
    using departure_ifc [OF that] by (simp add: ifc_view_def)
  then show ?thesis using assms
    by (auto simp: updateVNState_def updateVNStateForExistingAtt_def unsetVNStateVNI_def
        split: option.splits if_splits sum.splits)
qed

text \<open>
  C4: let an attachment of the agent's own node have a VNI below 2^21 and an IPv4 address in its
  status, let the fabric hold the interface that the agent has recorded for it, if any, and let
  updates at the API server leave the fabric alone. Processing that returns no error leaves the
  attachment with exactly one interface, a local one, which the fabric holds under the name and with the VNI
  and MAC address computed from the attachment's status; and the status of the attachment gives
  the host IP, MAC address and interface name, or the agent has just written them. The guest
  address of the interface is the one of the status, unless the attachment had a local interface
  with the same MAC address before: that interface is kept (C36), and its guest address agrees
  with the one of the status in the last three octets and in one bit of the first.
\<close>

theorem local_attachment_implemented:
  assumes "network_fabric fab invar locals remotes" "en_fabric env = fab" "invar (ca_world ca)"
    and "update_apart env invar locals remotes" "held locals remotes ca (AttNSN att)"
    and "Node (att_Spec att) = localNodeName ca"
    and "AddressVNI (att_Status att) < 2 ^ 21" "ParseIP (Status_IPv4 (att_Status att)) = IPv4 a b c d"
    and "generateMACAddr (AddressVNI (att_Status att)) (IPv4 a b c d) = Inr mac"
    and "processExistingAtt env att ca = Inr (None, ca')"
  shows "local_done locals ca' (AttNSN att) (AddressVNI (att_Status att)) mac \<and>
    held locals remotes ca' (AttNSN att) \<and> invar (ca_world ca') \<and> status_reported env ca' att mac \<and>
    ((\<forall>old. nsnToLocalMainState ca (AttNSN att) = Some old \<longrightarrow> li_GuestMAC (LocalIfc old) \<noteq> mac) \<longrightarrow>
       nsnToLocalMainState ca' (AttNSN att) = Some \<lparr>LocalIfc = \<lparr>li_Name = generateIfcName mac,
         li_VNI = AddressVNI (att_Status att), li_GuestMAC = mac, li_GuestIP = IPv4 a b c d\<rparr>,
         MainPostDeleteExec = PostDeleteExec (att_Spec att)\<rparr>) \<and>
    (\<forall>main. nsnToLocalMainState ca' (AttNSN att) = Some main \<longrightarrow>
       (\<exists>a'. To4 (li_GuestIP (LocalIfc main)) = [a', b, c, d] \<and> bit a' 1 = bit a 1))"
proof -
  let ?n = "AttNSN att" and ?vni = "AddressVNI (att_Status att)"
  have mac: "well_made ?vni (ParseIP (Status_IPv4 (att_Status att))) mac" using assms by (simp add: well_made_def)
  then have gen: "generateMACAddr ?vni (ParseIP (Status_IPv4 (att_Status att))) = Inr mac" by (simp add: well_made_def)
  obtain ret gone ca1 where u: "updateVNState env ?vni ?n (localNodeName ca) ca = Inr (ret, gone, ca1)"
    using assms(6,10) by (auto simp: processExistingAtt_def Let_def split: sum.splits)
  from updateVNState_local [OF u] have run: "process_ifc env att ca1 = Inr (None, ca')"
    using u assms(6,10) by (simp add: processExistingAtt_def)
  note view = updateVNState_ifc [OF u]
  have same: "invar (ca_world ca1)" "Node (att_Spec att) = localNodeName ca1" "nsnToLocalMainState ca1 = nsnToLocalMainState ca"
    using view assms(3,6) by (simp_all add: ifc_view_def)
  have held: "held locals remotes ca1 ?n" using assms(5) held_view [OF view] by simp
  have host: "ip_Equal (att_host_ip ca1 att) (hostIP ca1)" using same(2) by (simp add: att_host_ip_def ip_Equal_def)
  from network_fabric.process_ifc_done [OF assms(1) run assms(2) same(1) assms(4) held mac] host same(2)
  have fin: "local_done locals ca' ?n ?vni mac" "held locals remotes ca' ?n" "invar (ca_world ca')"
    "status_reported env ca' att mac" by auto
  have "\<exists>a'. To4 (li_GuestIP (LocalIfc main)) = [a', b, c, d] \<and> bit a' 1 = bit a 1"
    if "nsnToLocalMainState ca' ?n = Some main" for main
    using that fin(1,2) assms(9) same_mac_guest [of ?vni "li_GuestIP (LocalIfc main)" mac a b c d]
    by (auto simp: local_done_def held_def)
  with fin network_fabric.process_ifc_exact [OF assms(1) run assms(2) same(1) held host gen] same(3) assms(8)
  show ?thesis by auto
qed

theorem local_attachment_implemented_witness:
  "\<exists>ca'. processExistingAtt (agent_sample_env (\<lambda>_ _. None) (\<lambda>_ _. None)) (node_att ''n1'' ''ns'' ''a'' 5 ''10.0.0.6'' []) agent0 =
      Inr (None, ca') \<and>
    local_done (map_of \<circ> localIfcs) ca' (nsn ''ns'' ''a'') 5 [6, 0, 0, 6, 0, 5] \<and>
    map_option (li_GuestIP \<circ> LocalIfc) (nsnToLocalMainState ca' (nsn ''ns'' ''a'')) = Some (IPv4 10 0 0 6)"
proof -
  let ?env = "agent_sample_env (\<lambda>_ _. None) (\<lambda>_ _. None)" and ?att = "node_att ''n1'' ''ns'' ''a'' 5 ''10.0.0.6'' []"
  have "case processExistingAtt ?env ?att agent0 of Inr (None, _) \<Rightarrow> True | _ \<Rightarrow> False" by code_simp
  then obtain ca' where run: "processExistingAtt ?env ?att agent0 = Inr (None, ca')"
    by (auto split: sum.splits option.splits prod.splits)
  have ip: "ParseIP (Status_IPv4 (att_Status ?att)) = IPv4 10 0 0 6"
    "generateMACAddr (AddressVNI (att_Status ?att)) (IPv4 10 0 0 6) = Inr [6, 0, 0, 6, 0, 5]" by code_simp+
  have "AttNSN ?att = nsn ''ns'' ''a''" "AddressVNI (att_Status ?att) = 5" "Node (att_Spec ?att) = ''n1''"
    by (simp_all add: node_att_def AttNSN_def nsn_def)
  moreover have "nsnToLocalMainState agent0 m = None" for m by (simp add: agent0_def NewConnectionAgent_def)
  ultimately show ?thesis
    using local_attachment_implemented [OF log_fabric.network_fabric_axioms _ _ _ _ _ _ ip run] run by auto
qed

text \<open>
  C17: processing an attachment of another node that returns no error, while the virtual network has
  another local attachment, leaves the attachment with exactly one interface, a remote one, which
  the fabric holds with the VNI, the MAC address and the host IP of the attachment's status.
\<close>

theorem remote_attachment_implemented:
  assumes "network_fabric fab invar locals remotes" "en_fabric env = fab" "invar (ca_world ca)"
    and "update_apart env invar locals remotes" "held locals remotes ca (AttNSN att)"
    and "Node (att_Spec att) \<noteq> localNodeName ca" "\<not> ip_Equal (ParseIP (HostIP (att_Status att))) (hostIP ca)"
    and "AddressVNI (att_Status att) < 2 ^ 21" "ParseIP (Status_IPv4 (att_Status att)) = IPv4 a b c d"
    and "generateMACAddr (AddressVNI (att_Status att)) (IPv4 a b c d) = Inr mac"
    and "vniToVnState ca (AddressVNI (att_Status att)) = Some vn" "set (localAtts vn) - {nsn_Name (AttNSN att)} \<noteq> {}"
    and "nsnToVNStateVNI ca (AttNSN att) \<in> {None, Some (AddressVNI (att_Status att))}"
    and "processExistingAtt env att ca = Inr (None, ca')"
  shows "remote_done remotes ca' (AttNSN att) (AddressVNI (att_Status att)) mac (ParseIP (HostIP (att_Status att))) \<and>
    held locals remotes ca' (AttNSN att) \<and> invar (ca_world ca')"
proof -
  let ?n = "AttNSN att" and ?vni = "AddressVNI (att_Status att)"
  have mac: "well_made ?vni (ParseIP (Status_IPv4 (att_Status att))) mac" using assms by (simp add: well_made_def)
  have "go_set_del (nsn_Name ?n) (localAtts vn) \<noteq> []" using assms(12) by (metis set_empty2 set_go_set(2))
  then obtain ca1 where u: "updateVNState env ?vni ?n (Node (att_Spec att)) ca = Inr (None, False, ca1)"
    using assms(6,11,13) by (auto simp: updateVNState_def getVNStateVNI_def updateVNStateForExistingAtt_def add_remote_att_def
        split: option.splits)
  have "process_ifc env att ca1 = Inr (None, ca')" using u assms(14) by (simp add: processExistingAtt_def)
  moreover note view = updateVNState_ifc [OF u]
  moreover have "invar (ca_world ca1)" "Node (att_Spec att) \<noteq> localNodeName ca1" "hostIP ca1 = hostIP ca"
    using view assms(3,6) by (simp_all add: ifc_view_def)
  moreover have "held locals remotes ca1 ?n" using assms(5) held_view [OF view] by simp
  ultimately show ?thesis
    using network_fabric.process_ifc_done [OF assms(1) _ assms(2) _ assms(4) _ mac, of ca1 ca'] assms(7)
    by (auto simp: att_host_ip_def)
qed

definition agent_with_local :: "logger ConnectionAgent" where
  "agent_with_local = agent0\<lparr>
     vniToVnState := [5 \<mapsto> \<lparr>vn_informer = 0, vn_namespace = ''ns'', localAtts = [''a''], remoteAtts = []\<rparr>],
     ca_informers := [\<lparr>inf_namespace = ''ns'', inf_selector = remoteAttInVNWithVirtualIPHostIPSelector agent0 5\<rparr>]\<rparr>"

theorem remote_attachment_implemented_witness:
  "\<exists>ca'. processExistingAtt (agent_sample_env (\<lambda>_ _. None) (\<lambda>_ _. None))
        (node_att ''n2'' ''ns'' ''b'' 5 ''10.0.0.7'' ''192.168.0.2'') agent_with_local = Inr (None, ca') \<and>
    remote_done (map_of \<circ> remoteIfcs) ca' (nsn ''ns'' ''b'') 5 [6, 0, 0, 7, 0, 5] (IPv4 192 168 0 2)"
proof -
  let ?env = "agent_sample_env (\<lambda>_ _. None) (\<lambda>_ _. None)" and ?att = "node_att ''n2'' ''ns'' ''b'' 5 ''10.0.0.7'' ''192.168.0.2''"
  have "case processExistingAtt ?env ?att agent_with_local of Inr (None, _) \<Rightarrow> True | _ \<Rightarrow> False" by code_simp
  then obtain ca' where run: "processExistingAtt ?env ?att agent_with_local = Inr (None, ca')"
    by (auto split: sum.splits option.splits prod.splits)
  have ip: "ParseIP (Status_IPv4 (att_Status ?att)) = IPv4 10 0 0 7" "ParseIP (HostIP (att_Status ?att)) = IPv4 192 168 0 2"
    "generateMACAddr (AddressVNI (att_Status ?att)) (IPv4 10 0 0 7) = Inr [6, 0, 0, 7, 0, 5]"
    "\<not> ip_Equal (IPv4 192 168 0 2) [192, 168, 0, 1]" by code_simp+
  have att: "AttNSN ?att = nsn ''ns'' ''b''" "AddressVNI (att_Status ?att) = 5" "Node (att_Spec ?att) = ''n2''"
    by (simp_all add: node_att_def AttNSN_def nsn_def)
  have ca: "ca_world agent_with_local = ca_world agent0" "localNodeName agent_with_local = ''n1''"
    "hostIP agent_with_local = [192, 168, 0, 1]" "nsnToVNStateVNI agent_with_local (nsn ''ns'' ''b'') = None"
    "vniToVnState agent_with_local 5 = Some \<lparr>vn_informer = 0, vn_namespace = ''ns'', localAtts = [''a''], remoteAtts = []\<rparr>"
    "held locals remotes agent_with_local n" for locals remotes n
    using held_cong [of agent_with_local agent0 locals remotes n] agent0_simps(2)
    by (simp_all add: agent_with_local_def) (simp add: agent0_def NewConnectionAgent_def)
  from remote_attachment_implemented [OF log_fabric.network_fabric_axioms, of ?env agent_with_local ?att 10 0 0 7 _ _ ca']
  show ?thesis using run ip att ca by (simp add: nsn_def)
qed

text \<open>
  C18: let the fabric hold the interface that the agent has recorded for an attachment, if it has
  recorded one. Processing the attachment as deleted, when it returns no error, leaves it with no
  recorded interface, and the interface that it had is gone from the fabric. The interfaces and the
  reports recorded for other attachments, and every other interface in the fabric, local or remote,
  are as they were.
\<close>

theorem deleted_attachment_removed:
  assumes "network_fabric fab invar locals remotes" "en_fabric env = fab" "invar (ca_world ca)"
    and "held locals remotes ca n" "processDeletedAtt env n ca = Inr (None, ca')"
  shows "nsnToLocalMainState ca' = (nsnToLocalMainState ca)(n := None) \<and>
    nsnToRemoteIfc ca' = (nsnToRemoteIfc ca)(n := None) \<and>
    (\<forall>m. m \<noteq> n \<longrightarrow> nsnToPostCreateExecReport ca' m = nsnToPostCreateExecReport ca m) \<and> invar (ca_world ca') \<and>
    locals (ca_world ca') = (case nsnToLocalMainState ca n of None \<Rightarrow> locals (ca_world ca)
      | Some main \<Rightarrow> (locals (ca_world ca))(li_Name (LocalIfc main) := None)) \<and>
    remotes (ca_world ca') = (case nsnToRemoteIfc ca n of None \<Rightarrow> remotes (ca_world ca)
      | Some ri \<Rightarrow> (remotes (ca_world ca))(hw_String (ri_GuestMAC ri) := None))"
proof -
  note d = network_fabric.processDeletedAtt_done [OF assms(1,5,2,3,4)]
  have "nsnToLocalMainState ca' = (nsnToLocalMainState ca)(n := None)" "nsnToRemoteIfc ca' = (nsnToRemoteIfc ca)(n := None)"
    using d by auto
  with d show ?thesis using processDeletedAtt_reports [OF assms(5)] by simp
qed

definition li0 :: LocalNetIfc where
  "li0 = \<lparr>li_Name = ''kos060000060005'', li_VNI = 5, li_GuestMAC = [6, 0, 0, 6, 0, 5], li_GuestIP = IPv4 10 0 0 6\<rparr>"

definition agent_with_ifc :: "logger ConnectionAgent" where
  "agent_with_ifc = agent0\<lparr>nsnToLocalMainState := [nsn ''ns'' ''a'' \<mapsto> \<lparr>LocalIfc = li0, MainPostDeleteExec = []\<rparr>],
     ca_world := \<lparr>localIfcs = [(li_Name li0, li0)], remoteIfcs = []\<rparr>\<rparr>"

lemma agent_with_ifc_held: "held (map_of \<circ> localIfcs) (map_of \<circ> remoteIfcs) agent_with_ifc (nsn ''ns'' ''a'')"
proof -
  have "well_made (li_VNI li0) (li_GuestIP li0) (li_GuestMAC li0)" "li_Name li0 = generateIfcName (li_GuestMAC li0)"
    unfolding well_made_def by code_simp+
  then show ?thesis by (simp add: held_def agent_with_ifc_def agent0_def NewConnectionAgent_def)
qed

theorem deleted_attachment_removed_witness:
  "\<exists>ca'. processDeletedAtt (agent_sample_env (\<lambda>_ _. None) (\<lambda>_ _. None)) (nsn ''ns'' ''a'') agent_with_ifc = Inr (None, ca') \<and>
    nsnToLocalMainState ca' (nsn ''ns'' ''a'') = None \<and> map_of (localIfcs (ca_world ca')) ''kos060000060005'' = None"
proof -
  let ?env = "agent_sample_env (\<lambda>_ _. None) (\<lambda>_ _. None)"
  have "case processDeletedAtt ?env (nsn ''ns'' ''a'') agent_with_ifc of Inr (None, _) \<Rightarrow> True | _ \<Rightarrow> False" by code_simp
  then obtain ca' where run: "processDeletedAtt ?env (nsn ''ns'' ''a'') agent_with_ifc = Inr (None, ca')"
    by (auto split: sum.splits option.splits prod.splits)
  have "logger_ok (ca_world agent_with_ifc)" "nsnToLocalMainState agent_with_ifc (nsn ''ns'' ''a'') =
      Some \<lparr>LocalIfc = li0, MainPostDeleteExec = []\<rparr>"
    by (simp_all add: agent_with_ifc_def logger_ok_def keyed_by_def)
  with deleted_attachment_removed [OF log_fabric.network_fabric_axioms _ _ agent_with_ifc_held run]
  show ?thesis using run by (auto simp: li0_def)
qed

section \<open>Virtual networks\<close>

lemma agent0_reachable: "reachable (\<lambda>_. ''ns'') ''n1'' [192, 168, 0, 1] [''/bin/ping''] agent0"
proof (rule reachable.start [of _ "agent_sample_env (\<lambda>_ _. None) (\<lambda>_ _. None)" 0])
  show "env_wf (\<lambda>_. ''ns'') (agent_sample_env (\<lambda>_ _. None) (\<lambda>_ _. None))"
    by (simp add: env_wf_def agent_sample_env_def)
  show "syncPreExistingIfcs 0 (agent_sample_env (\<lambda>_ _. None) (\<lambda>_ _. None))
      (NewConnectionAgent ''n1'' [192, 168, 0, 1] [''/bin/ping''] new_logger) = Some (Inr (None, agent0))"
    by (simp add: syncPreExistingIfcs_def syncPreExistingLocalIfcs_def syncPreExistingRemoteIfcs_def agent_sample_env_def
        fab_call_def logger_fabric_def logger_ListLocalIfcs_def logger_ListRemoteIfcs_def new_logger_def
        start_remote_caches_def agent0_def NewConnectionAgent_def)
qed

text \<open>
  C9: in every state that the agent can reach, the informers that are running are exactly those of
  the virtual networks that the agent has a state for, one each; every such network has a local
  attachment, and its informer watches its namespace and VNI. Stop channels are closed once only:
  no item of the queue makes the agent close a channel that is closed.
\<close>

theorem informers_match_networks:
  assumes "reachable ns_of node ip progs ca"
  shows "(\<forall>i. i < length (ca_informers ca) \<and> i \<notin> set (ca_closed ca) \<longleftrightarrow>
       (\<exists>vni vn. vniToVnState ca vni = Some vn \<and> vn_informer vn = i))
    \<and> (\<forall>vni vni' vn vn'. vniToVnState ca vni = Some vn \<longrightarrow> vniToVnState ca vni' = Some vn' \<longrightarrow>
         vn_informer vn = vn_informer vn' \<longrightarrow> vni = vni')
    \<and> (\<forall>vni vn. vniToVnState ca vni = Some vn \<longrightarrow> localAtts vn \<noteq> [] \<and>
         ca_informers ca ! vn_informer vn =
           \<lparr>inf_namespace = ns_of vni, inf_selector = remoteAttInVNWithVirtualIPHostIPSelector ca vni\<rparr>)
    \<and> (\<forall>env n. env_wf ns_of env \<longrightarrow> agent_processQueueItem env n ca \<noteq> Inl CloseOfClosedChannel)"
proof -
  note inv = reachable_vn_inv [OF assms]
  have "vn_ok ns_of ca vni vn" if "vniToVnState ca vni = Some vn" for vni vn by (rule vn_invD [OF inv that])
  moreover have "agent_processQueueItem env n ca \<noteq> Inl CloseOfClosedChannel" if "env_wf ns_of env" for env n
    by (rule processQueueItem_keeps(1) [OF inv that])
  moreover have "\<exists>vni vn. vniToVnState ca vni = Some vn \<and> vn_informer vn = i"
    if "i < length (ca_informers ca)" "i \<notin> set (ca_closed ca)" for i
    using inv that unfolding vn_inv_def by blast
  moreover have "\<forall>vni vni' vn vn'. vniToVnState ca vni = Some vn \<longrightarrow> vniToVnState ca vni' = Some vn' \<longrightarrow>
         vn_informer vn = vn_informer vn' \<longrightarrow> vni = vni'"
    using inv unfolding vn_inv_def by (elim conjE) assumption
  ultimately show ?thesis unfolding vn_ok_def by blast
qed

definition sample_queue_env :: "logger agent_env" where
  "sample_queue_env = agent_sample_env (\<lambda>ns name. if ns = ''ns'' \<and> name = ''a''
     then Some (node_att ''n1'' ''ns'' ''a'' 5 ''10.0.0.6'' []) else None) (\<lambda>_ _. None)"

lemma sample_queue_env_wf: "env_wf (\<lambda>_. ''ns'') sample_queue_env"
  by (auto simp: env_wf_def sample_queue_env_def agent_sample_env_def att_wf_def node_att_def split: if_splits option.splits)

theorem informers_match_networks_witness:
  "\<exists>ca. agent_processQueueItem sample_queue_env (nsn ''ns'' ''a'') agent0 = Inr ca \<and>
     length (ca_informers ca) = 1 \<and> (\<exists>vni vn. vniToVnState ca vni = Some vn \<and> vn_informer vn = 0 \<and> localAtts vn \<noteq> [])"
proof -
  have "case agent_processQueueItem sample_queue_env (nsn ''ns'' ''a'') agent0 of
      Inr ca \<Rightarrow> length (ca_informers ca) = 1 \<and> ca_closed ca = [] | _ \<Rightarrow> False" by code_simp
  then obtain ca where run: "agent_processQueueItem sample_queue_env (nsn ''ns'' ''a'') agent0 = Inr ca"
    and ca: "length (ca_informers ca) = 1" "ca_closed ca = []" by (auto split: sum.splits)
  have "reachable (\<lambda>_. ''ns'') ''n1'' [192, 168, 0, 1] [''/bin/ping''] ca"
    by (rule reachable.item [OF agent0_reachable sample_queue_env_wf run])
  from informers_match_networks [OF this] ca obtain vni vn where
    "vniToVnState ca vni = Some vn" "vn_informer vn = 0" "localAtts vn \<noteq> []" by (metis less_one list.set(1) empty_iff)
  with run ca show ?thesis by blast
qed

text \<open>
  C21: in every state that the agent can reach, every command that it has launched names a program
  that the agent allows, and running it does not panic. If its report is to be kept and the
  attachment that it was launched for still has a local interface, the agent's state has the
  report of that run under that attachment afterwards, and the attachment is queued; otherwise no
  report changes. The reports of other attachments are as they were in every case.
\<close>

theorem commands_allowed:
  assumes "reachable ns_of node ip progs ca" "job \<in> set (ca_launched ca)"
  shows "\<exists>prog args. job_cmd job = prog # args \<and> prog \<in> set (allowedPrograms ca) \<and>
    (let out = run prog (map (expand_arg (job_ifc job)) args);
         report = \<lparr>ExitStatus = exec_status (xo_err out), StartTime = xo_start out, StopTime = xo_stop out,
           StdOut = xo_stdout out, StdErr = xo_stderr out\<rparr>
     in \<exists>ca'. RunCommand run job ca = Inr ca' \<and>
       nsnToPostCreateExecReport ca' =
         (if job_save job \<and> nsnToLocalMainState ca (job_NSN job) \<noteq> None
          then (nsnToPostCreateExecReport ca)(job_NSN job \<mapsto> Some report) else nsnToPostCreateExecReport ca) \<and>
       ca_queue ca' = ca_queue ca @ (if job_save job then [QAdd (job_NSN job)] else []) \<and>
       nsnToLocalMainState ca' = nsnToLocalMainState ca \<and> nsnToRemoteIfc ca' = nsnToRemoteIfc ca \<and>
       ca_world ca' = ca_world ca)"
proof -
  from reachable_jobs_ok [OF assms(1)] assms(2) obtain prog args where
    "job_cmd job = prog # args" "prog \<in> set (allowedPrograms ca)" by (cases "job_cmd job") (auto simp: jobs_ok_def)
  then show ?thesis by (simp add: RunCommand_def Let_def queue_Add_def setExecReport_def)
qed

definition run_ok :: "string \<Rightarrow> string list \<Rightarrow> exec_outcome" where
  "run_ok prog args = \<lparr>xo_start = 3, xo_stop = 4, xo_stdout = join '' '' (prog # args), xo_stderr = [], xo_err = NoExecErr\<rparr>"

theorem commands_allowed_witness:
  "\<exists>ca job ca' cr. agent_processQueueItem sample_queue_env (nsn ''ns'' ''a'') agent0 = Inr ca \<and>
     ca_launched ca = [job] \<and> RunCommand run_ok job ca = Inr ca' \<and>
     nsnToPostCreateExecReport ca' (nsn ''ns'' ''a'') = Some (Some cr) \<and> ExitStatus cr = 0 \<and> StartTime cr = 3"
proof -
  have "case agent_processQueueItem sample_queue_env (nsn ''ns'' ''a'') agent0 of
      Inr ca \<Rightarrow> (case ca_launched ca of [job] \<Rightarrow> job_NSN job = nsn ''ns'' ''a'' \<and> job_save job | _ \<Rightarrow> False) \<and>
        map_option (li_VNI \<circ> LocalIfc) (nsnToLocalMainState ca (nsn ''ns'' ''a'')) = Some 5 | _ \<Rightarrow> False" by code_simp
  then obtain ca job where run: "agent_processQueueItem sample_queue_env (nsn ''ns'' ''a'') agent0 = Inr ca"
    and ca: "ca_launched ca = [job]" "job_NSN job = nsn ''ns'' ''a''" "job_save job"
      "nsnToLocalMainState ca (nsn ''ns'' ''a'') \<noteq> None"
    by (auto split: sum.splits list.splits)
  have "reachable (\<lambda>_. ''ns'') ''n1'' [192, 168, 0, 1] [''/bin/ping''] ca"
    by (rule reachable.item [OF agent0_reachable sample_queue_env_wf run])
  from commands_allowed [OF this, of job run_ok] ca run show ?thesis
    by (auto simp: Let_def exec_status_def run_ok_def)
qed

section \<open>Addresses, selectors, caches\<close>

text \<open>
  the MAC address of an interface carries the VNI, the last three octets of the guest address
  and one bit of its first octet, and nothing more: for VNIs of 21 bits, two interfaces have the
  same MAC address exactly when these agree. So the attachments of a virtual network within one
  block of 24 bits or less have different MAC addresses, and two addresses that differ in other
  bits of the first octet only share one. The address is a locally administered unicast address.
\<close>

lemma mac_address_contents:
  assumes "vni < 2 ^ 21" "vni' < 2 ^ 21"
  shows "(generateMACAddr vni (IPv4 a b c d) = generateMACAddr vni' (IPv4 a' b' c' d') \<longleftrightarrow>
      vni = vni' \<and> b = b' \<and> c = c' \<and> d = d' \<and> bit a 1 = bit a' 1) \<and>
    (\<exists>mac. generateMACAddr vni (IPv4 a b c d) = Inr mac \<and> length mac = 6 \<and> \<not> bit (hd mac) 0 \<and> bit (hd mac) 1)"
  using generateMACAddr_eq_iff [OF assms, of a b c d a' b' c' d'] mac_octet_bits [of vni a 0] mac_octet_bits [of vni a 1]
  by (simp add: generateMACAddr_four)

lemma mac_address_contents_witness:
  "generateMACAddr 5 (IPv4 10 0 0 6) \<noteq> generateMACAddr 5 (IPv4 10 0 0 7) \<and>
   generateMACAddr 5 (IPv4 10 0 0 6) = generateMACAddr 5 (IPv4 14 0 0 6)"
  using mac_address_contents [of 5 5 10 0 0 6 10 0 0 7] mac_address_contents [of 5 5 10 0 0 6 14 0 0 6] by simp

text \<open>
  C36: when the address of an attachment with a local interface changes to one that has the same
  MAC address, processing takes the interface for current: the agent keeps the interface with the
  old guest address, in the fabric and in its state, and reports no error.
\<close>

theorem guest_address_kept:
  assumes "nsnToLocalMainState ca n = Some main" "nsnToRemoteIfc ca n = None"
    and "generateMACAddr vni gip = Inr (li_GuestMAC (LocalIfc main))" "ip_Equal (hostIP ca) hip"
  shows "\<exists>res ca'. createOrUpdateIfc env gip hip vni n pc pd ca = Inr (Inr res, ca') \<and>
    nsnToLocalMainState ca' n = Some main \<and> ca_world ca' = ca_world ca"
proof -
  obtain errs ca1 where l: "LaunchCommand n (LocalIfc main) pc ''postCreateExec'' False True ca = (errs, ca1)" by fastforce
  have "\<not> newIfcNeedsToBeCreated ca n hip (li_GuestMAC (LocalIfc main))"
    using assms by (simp add: newIfcNeedsToBeCreated_def getLocalAttState_def getRemoteIfc_def ifcNeedsUpdate_def)
  then show ?thesis using assms l LaunchCommand_frame [OF l]
    by (simp add: createOrUpdateIfc_def getLocalAttState_def Let_def)
qed

theorem guest_address_kept_witness:
  "\<exists>res ca'. createOrUpdateIfc sample_queue_env (IPv4 14 0 0 6) [192, 168, 0, 1] 5 (nsn ''ns'' ''a'') [] [] agent_with_ifc =
      Inr (Inr res, ca') \<and>
    map_option (li_GuestIP \<circ> LocalIfc) (nsnToLocalMainState ca' (nsn ''ns'' ''a'')) = Some (IPv4 10 0 0 6)"
proof -
  have "nsnToLocalMainState agent_with_ifc (nsn ''ns'' ''a'') = Some \<lparr>LocalIfc = li0, MainPostDeleteExec = []\<rparr>"
    "nsnToRemoteIfc agent_with_ifc (nsn ''ns'' ''a'') = None" "hostIP agent_with_ifc = [192, 168, 0, 1]"
    by (simp_all add: agent_with_ifc_def) (simp add: agent0_def NewConnectionAgent_def)
  moreover have "generateMACAddr 5 (IPv4 14 0 0 6) = Inr (li_GuestMAC li0)" by code_simp
  ultimately show ?thesis
    using guest_address_kept [of agent_with_ifc "nsn ''ns'' ''a''" _ 5 "IPv4 14 0 0 6" "[192, 168, 0, 1]" sample_queue_env "[]" "[]"]
    by (fastforce simp: li0_def ip_Equal_def)
qed

text \<open>
  C32: no attachment matches both the selector of the agent's local cache and that of one of its
  remote caches; an attachment in the remote cache for a VNI has that VNI, an address and the host
  IP of another node; and the API server accepts every label that the selectors use.
\<close>

theorem selectors_apart:
  assumes "MatchNetworkAttachment (remoteAttInVNWithVirtualIPHostIPSelector ca vni) att"
  shows "\<not> MatchNetworkAttachment (localAttWithAnIPSelector ca) att \<and> AddressVNI (att_Status att) = vni \<and>
    Status_IPv4 (att_Status att) \<noteq> [] \<and> HostIP (att_Status att) \<notin> {[], ip_String (hostIP ca)} \<and>
    (\<forall>l \<in> set (sel_labels (localAttWithAnIPSelector ca) @ sel_labels (remoteAttInVNWithVirtualIPHostIPSelector ca vni)).
       convertNetworkAttachmentFields l v = Inr (l, v))"
proof -
  from assms have "sprintf_d vni = format_uint 10 (unat (AddressVNI (att_Status att)))"
    by (simp add: MatchNetworkAttachment_def remoteAttInVNWithVirtualIPHostIPSelector_def fields_Get_def SelectableFields_def)
  then have "sprintf_d vni = sprintf_d (AddressVNI (att_Status att))" by (simp only: sprintf_d_def)
  then have "AddressVNI (att_Status att) = vni" by simp
  with assms show ?thesis
    by (simp add: MatchNetworkAttachment_def remoteAttInVNWithVirtualIPHostIPSelector_def localAttWithAnIPSelector_def
        fields_Get_def SelectableFields_def convertNetworkAttachmentFields_def)
qed

theorem selectors_apart_witness:
  "\<not> MatchNetworkAttachment (localAttWithAnIPSelector agent0) (node_att ''n2'' ''ns'' ''b'' 5 ''10.0.0.7'' ''192.168.0.2'')"
proof -
  have "MatchNetworkAttachment (remoteAttInVNWithVirtualIPHostIPSelector agent0 5)
      (node_att ''n2'' ''ns'' ''b'' 5 ''10.0.0.7'' ''192.168.0.2'')" by code_simp
  from selectors_apart [OF this] show ?thesis by simp
qed

text \<open>
  Which version of an attachment the agent works on, when no lookup fails: with more than one
  VNI where it was seen, none, and it is not taken for deleted; otherwise the one of the local
  cache or of the remote cache when exactly one of them has it; it is taken for deleted when none
  of them has it, and also when both have it.
\<close>

theorem current_version:
  assumes "\<not> lookup_failed (en_localLister env (nsn_Namespace n) (nsn_Name n))"
    and "\<And>r. remote_lookup env ca n = Some r \<Longrightarrow> \<not> lookup_failed r"
  shows "getAttachment env ca n =
    (if 1 < snd (getAttSeenInVNI ca n) then (None, False)
     else case (found (en_localLister env (nsn_Namespace n) (nsn_Name n)), Option.bind (remote_lookup env ca n) found) of
       (Some a, None) \<Rightarrow> (Some a, False)
     | (None, Some a) \<Rightarrow> (Some a, False)
     | (None, None) \<Rightarrow> (None, True)
     | (Some _, Some _) \<Rightarrow> (None, True))"
  using assms by (cases "remote_lookup env ca n") (auto simp: getAttachment_def Let_def split: option.split prod.split)

definition both_env :: "logger agent_env" where
  "both_env = agent_sample_env (\<lambda>ns name. if name = ''a'' then Some (node_att ''n1'' ''ns'' ''a'' 5 ''10.0.0.6'' []) else None)
     (\<lambda>i name. if name = ''a'' then Some (node_att ''n2'' ''ns'' ''a'' 5 ''10.0.0.6'' ''192.168.0.2'') else None)"

definition both_agent :: "logger ConnectionAgent" where
  "both_agent = agent_with_ifc\<lparr>vniToVnState := vniToVnState agent_with_local, ca_informers := ca_informers agent_with_local,
     nsnToVNStateVNI := [nsn ''ns'' ''a'' \<mapsto> 5], nsnToVNIs := [nsn ''ns'' ''a'' \<mapsto> [5]]\<rparr>"

lemma both_lookups:
  "remote_lookup both_env both_agent (nsn ''ns'' ''a'') = Some (Inr (node_att ''n2'' ''ns'' ''a'' 5 ''10.0.0.6'' ''192.168.0.2''))"
  "en_localLister both_env (nsn_Namespace (nsn ''ns'' ''a'')) (nsn_Name (nsn ''ns'' ''a'')) =
     Inr (node_att ''n1'' ''ns'' ''a'' 5 ''10.0.0.6'' [])"
  "snd (getAttSeenInVNI both_agent (nsn ''ns'' ''a'')) = 1"
  by (simp_all add: remote_lookup_def getAttSeenInVNI_def both_agent_def both_env_def agent_sample_env_def
      getRemoteAttListerForVNI_def agent_with_local_def nsn_def)

theorem current_version_witness:
  "getAttachment sample_queue_env agent0 (nsn ''ns'' ''a'') = (Some (node_att ''n1'' ''ns'' ''a'' 5 ''10.0.0.6'' []), False) \<and>
   getAttachment both_env both_agent (nsn ''ns'' ''a'') = (None, True)"
proof -
  have 1: "en_localLister sample_queue_env (nsn_Namespace (nsn ''ns'' ''a'')) (nsn_Name (nsn ''ns'' ''a'')) =
      Inr (node_att ''n1'' ''ns'' ''a'' 5 ''10.0.0.6'' [])" "remote_lookup sample_queue_env agent0 (nsn ''ns'' ''a'') = None"
    "snd (getAttSeenInVNI agent0 (nsn ''ns'' ''a'')) = 0"
    by (simp_all add: sample_queue_env_def agent_sample_env_def nsn_def remote_lookup_def getAttSeenInVNI_def agent0_def
        NewConnectionAgent_def)
  have "\<not> lookup_failed (Inr a)" "found (Inr a) = Some a" for a by (simp_all add: lookup_failed_def found_def)
  then show ?thesis
    using current_version [of sample_queue_env "nsn ''ns'' ''a''" agent0] current_version [of both_env "nsn ''ns'' ''a''" both_agent]
    by (simp add: 1 both_lookups)
qed

text \<open>
  when the local cache and a remote cache both have an attachment, which the comment of
  \<open>getAttachment\<close> calls ambiguous and leaves for later, processing treats the attachment as
  deleted: it takes down the interface of an attachment that exists.
\<close>

lemma ambiguous_taken_for_deleted:
  assumes "remote_lookup env ca n = Some (Inr r)" "en_localLister env (nsn_Namespace n) (nsn_Name n) = Inr l"
  shows "agent_processNetworkAttachment env n ca = processDeletedAtt env n ca"
proof -
  have "snd (getAttSeenInVNI ca n) = 1" using assms(1) by (auto simp: remote_lookup_def split: prod.splits if_splits)
  then show ?thesis using assms
    by (auto simp: agent_processNetworkAttachment_def getAttachment_def lookup_failed_def found_def Let_def split: prod.splits)
qed

lemma ambiguous_taken_for_deleted_witness:
  "case agent_processNetworkAttachment both_env (nsn ''ns'' ''a'') both_agent of
     Inr (None, ca') \<Rightarrow> localIfcs (ca_world both_agent) \<noteq> [] \<and> localIfcs (ca_world ca') = []
   | _ \<Rightarrow> False"
  unfolding ambiguous_taken_for_deleted [OF both_lookups(1,2)] by code_simp

end
