(* ===== verification/Agent_Sync.thy ===== *)
theory Agent_Sync
  imports Agent_Props
begin

text \<open>
  The start-up of the connection agent: after the synchronisation of the local interfaces, the
  interfaces of the fabric are exactly those that the agent has recorded for an attachment.
\<close>

definition recorded :: "'w ConnectionAgent \<Rightarrow> NamespacedName \<Rightarrow> LocalNetIfc \<Rightarrow> bool" where
  "recorded ca n li \<longleftrightarrow> (\<exists>main. nsnToLocalMainState ca n = Some main \<and> LocalIfc main = li)"

definition sync_inv :: "('w \<Rightarrow> bool) \<Rightarrow> ('w \<Rightarrow> string \<rightharpoonup> LocalNetIfc) \<Rightarrow> 'w agent_env \<Rightarrow> LocalNetIfc list
    \<Rightarrow> 'w ConnectionAgent \<Rightarrow> bool" where
  "sync_inv invar locals env lis ca \<longleftrightarrow>
     invar (ca_world ca) \<and> distinct (map li_Name lis) \<and>
     (\<forall>name li. locals (ca_world ca) name = Some li \<longleftrightarrow> name = li_Name li \<and> (li \<in> set lis \<or> (\<exists>n. recorded ca n li))) \<and>
     (\<forall>n li. recorded ca n li \<longrightarrow> li_Name li \<notin> li_Name ` set lis) \<and>
     (\<forall>n li. recorded ca n li \<longrightarrow> (\<exists>att. en_localByIndex env (localIfcVNIAndIP li) = Inr [att] \<and> AttNSN att = n))"

lemma sync_invD:
  assumes "sync_inv invar locals env lis ca" "recorded ca n li"
  shows "locals (ca_world ca) (li_Name li) = Some li" "li_Name li \<notin> li_Name ` set lis"
    "\<exists>att. en_localByIndex env (localIfcVNIAndIP li) = Inr [att] \<and> AttNSN att = n"
  using assms by (auto simp: sync_inv_def)

text \<open>Two recorded or remaining interfaces with one name are the same, and an interface has one owner.\<close>

lemma sync_inv_unique:
  assumes "sync_inv invar locals env lis ca" "recorded ca n li" "recorded ca n' li'" "li_Name li = li_Name li'"
  shows "li = li' \<and> n = n'"
proof -
  have "Some li = locals (ca_world ca) (li_Name li)" by (rule sync_invD(1) [OF assms(1,2), symmetric])
  also have "\<dots> = Some li'" unfolding assms(4) by (rule sync_invD(1) [OF assms(1,3)])
  finally have li: "li = li'" by (rule option.inject [THEN iffD1])
  obtain att where "en_localByIndex env (localIfcVNIAndIP li) = Inr [att]" "AttNSN att = n"
    using sync_invD(3) [OF assms(1,2)] by blast
  moreover obtain att' where "en_localByIndex env (localIfcVNIAndIP li') = Inr [att']" "AttNSN att' = n'"
    using sync_invD(3) [OF assms(1,3)] by blast
  ultimately show ?thesis using li by simp
qed

lemma recorded_set:
  "recorded (setExecReport m er (setLocalAttMainState m main ca)) n li \<longleftrightarrow>
     (if n = m then li = LocalIfc main else recorded ca n li)"
  "recorded (ca\<lparr>ca_world := w\<rparr>) n li \<longleftrightarrow> recorded ca n li"
  by (auto simp: recorded_def setExecReport_def setLocalAttMainState_def)

lemma set_world [simp]: "ca_world (setExecReport m er (setLocalAttMainState m main ca)) = ca_world ca"
  by (simp add: setExecReport_def setLocalAttMainState_def)

lemma sync_step_claim:
  assumes inv: "sync_inv invar locals env (li # lis) ca" and own: "en_localByIndex env (localIfcVNIAndIP li) = Inr [att]"
    and new: "nsnToLocalMainState ca (AttNSN att) = None"
    and ca1: "ca1 = setExecReport (AttNSN att) er (setLocalAttMainState (AttNSN att) \<lparr>LocalIfc = li, MainPostDeleteExec = pd\<rparr> ca)"
  shows "sync_inv invar locals env lis ca1"
proof -
  have "\<not> recorded ca (AttNSN att) x" for x using new by (simp add: recorded_def)
  then have rec: "recorded ca1 n x \<longleftrightarrow> n = AttNSN att \<and> x = li \<or> recorded ca n x" for n x
    by (auto simp: ca1 recorded_set)
  have "\<forall>name x. locals (ca_world ca) name = Some x \<longleftrightarrow> name = li_Name x \<and> (x \<in> set lis \<or> (\<exists>n. recorded ca1 n x))"
    using inv unfolding sync_inv_def rec by auto
  moreover have "\<forall>n x. recorded ca1 n x \<longrightarrow> li_Name x \<notin> li_Name ` set lis"
    using inv unfolding sync_inv_def rec by auto
  moreover have "\<forall>n x. recorded ca1 n x \<longrightarrow> (\<exists>a. en_localByIndex env (localIfcVNIAndIP x) = Inr [a] \<and> AttNSN a = n)"
    using inv own unfolding sync_inv_def rec by auto
  ultimately show ?thesis using inv unfolding sync_inv_def ca1 set_world by simp
qed

lemma sync_step_swap:
  assumes inv: "sync_inv invar locals env (li # lis) ca" and own: "en_localByIndex env (localIfcVNIAndIP li) = Inr [att]"
    and old: "nsnToLocalMainState ca (AttNSN att) = Some main"
    and ca1: "ca1 = setExecReport (AttNSN att) er (setLocalAttMainState (AttNSN att) \<lparr>LocalIfc = li, MainPostDeleteExec = pd\<rparr> ca)"
    and w: "invar w" "locals w = (locals (ca_world ca))(li_Name (LocalIfc main) := None)"
  shows "sync_inv invar locals env lis (ca1\<lparr>ca_world := w\<rparr>)"
proof -
  let ?n = "AttNSN att" and ?old = "LocalIfc main"
  have rec: "recorded (ca1\<lparr>ca_world := w\<rparr>) n x \<longleftrightarrow> (if n = ?n then x = li else recorded ca n x)" for n x
    by (simp add: ca1 recorded_set)
  have o: "recorded ca ?n ?old" "recorded ca ?n x \<Longrightarrow> x = ?old" for x using old by (auto simp: recorded_def)
  have names: "li_Name x \<noteq> li_Name ?old" if "recorded ca n x" "n \<noteq> ?n" for n x
    using sync_inv_unique [OF inv that(1) o(1)] that(2) by auto
  have li: "li_Name li \<noteq> li_Name ?old" "li_Name ?old \<notin> li_Name ` set lis" using sync_invD(2) [OF inv o(1)] by auto
  have "locals w name = Some x \<longleftrightarrow> name = li_Name x \<and> (x \<in> set lis \<or> (\<exists>n. recorded (ca1\<lparr>ca_world := w\<rparr>) n x))" for name x
  proof (cases "name = li_Name ?old")
    case True
    then show ?thesis using w(2) li names unfolding rec by (metis fun_upd_same imageI option.distinct(1))
  next
    case False
    then have "locals w name = Some x \<longleftrightarrow> name = li_Name x \<and> (x \<in> set (li # lis) \<or> (\<exists>n. recorded ca n x))"
      using inv w(2) unfolding sync_inv_def by simp
    moreover have "(x \<in> set (li # lis) \<or> (\<exists>n. recorded ca n x)) \<longleftrightarrow>
        (x \<in> set lis \<or> (\<exists>n. recorded (ca1\<lparr>ca_world := w\<rparr>) n x))" if "name = li_Name x"
      unfolding rec using False that o(2) by (metis list.set_intros(1) set_ConsD list.set_intros(2))
    ultimately show ?thesis by blast
  qed
  moreover have "\<forall>n x. recorded (ca1\<lparr>ca_world := w\<rparr>) n x \<longrightarrow> li_Name x \<notin> li_Name ` set lis"
    using inv unfolding sync_inv_def rec by auto
  moreover have "\<forall>n x. recorded (ca1\<lparr>ca_world := w\<rparr>) n x \<longrightarrow>
      (\<exists>a. en_localByIndex env (localIfcVNIAndIP x) = Inr [a] \<and> AttNSN a = n)"
    using inv own unfolding sync_inv_def rec by auto
  ultimately show ?thesis using inv w(1) unfolding sync_inv_def by simp
qed

lemma sync_step_orphan:
  assumes inv: "sync_inv invar locals env (li # lis) ca"
    and w: "invar w" "locals w = (locals (ca_world ca))(li_Name li := None)"
  shows "sync_inv invar locals env lis (ca\<lparr>ca_world := w\<rparr>)"
proof -
  have "locals w name = Some x \<longleftrightarrow> name = li_Name x \<and> (x \<in> set lis \<or> (\<exists>n. recorded ca n x))" for name x
  proof (cases "name = li_Name li")
    case True
    have "li_Name li \<notin> li_Name ` set lis" "\<And>n y. recorded ca n y \<Longrightarrow> li_Name y \<noteq> li_Name li"
      using inv sync_invD(2) [OF inv] by (auto simp: sync_inv_def)
    then show ?thesis using True w(2) by (metis fun_upd_same imageI option.distinct(1))
  next
    case False
    then show ?thesis using inv w(2) unfolding sync_inv_def by auto
  qed
  then show ?thesis using inv w(1) unfolding sync_inv_def recorded_set by auto
qed

section \<open>Deletions that are retried\<close>

text \<open>
  A deletion is tried again until it succeeds. \<open>deletion_fails k\<close> says that the next \<open>k\<close> attempts fail;
  the loop returns within its fuel exactly if not that many attempts fail in a row.
\<close>

fun deletion_fails :: "nat \<Rightarrow> 'w fabric \<Rightarrow> LocalNetIfc \<Rightarrow> 'w \<Rightarrow> bool" where
  "deletion_fails 0 fab li w = True"
| "deletion_fails (Suc k) fab li w =
     (case DeleteLocalIfc fab w li of Inr (Some _, w') \<Rightarrow> deletion_fails k fab li w' | _ \<Rightarrow> False)"

lemma delete_local_retry_None: "delete_local_retry k env li ca = None \<longleftrightarrow> deletion_fails k (en_fabric env) li (ca_world ca)"
  by (induction k arbitrary: ca) (auto simp: agent_DeleteLocalIfc_def fab_call_def split: sum.splits prod.splits option.splits)

lemma delete_local_retry_more:
  "delete_local_retry k env li ca = Some r \<Longrightarrow> k \<le> fuel \<Longrightarrow> delete_local_retry fuel env li ca = Some r"
proof (induction k arbitrary: ca fuel)
  case (Suc k)
  from Suc.prems(2) obtain f where "fuel = Suc f" "k \<le> f" by (cases fuel) simp_all
  then show ?case using Suc by (auto split: prod.splits sum.splits option.splits)
qed simp

text \<open>A fabric that deletes every interface within \<open>k\<close> attempts and without a panic.\<close>

definition deletes_within :: "nat \<Rightarrow> 'w fabric \<Rightarrow> ('w \<Rightarrow> bool) \<Rightarrow> bool" where
  "deletes_within k fab invar \<longleftrightarrow>
     (\<forall>w li. invar w \<longrightarrow> \<not> deletion_fails k fab li w \<and> (\<exists>e w'. DeleteLocalIfc fab w li = Inr (e, w')))"

context network_fabric
begin

lemma delete_local_retry_result:
  assumes "delete_local_retry k env li ca = Some r" "en_fabric env = fab" "invar (ca_world ca)"
    and "\<And>w. invar w \<Longrightarrow> \<exists>e w'. DeleteLocalIfc fab w li = Inr (e, w')"
  shows "\<exists>w. r = Inr (ca\<lparr>ca_world := w\<rparr>) \<and> invar w \<and> locals w = (locals (ca_world ca))(li_Name li := None)"
  using assms(1,3)
proof (induction k arbitrary: ca)
  case (Suc k)
  obtain e w where d: "DeleteLocalIfc fab (ca_world ca) li = Inr (e, w)" using assms(4) [OF Suc.prems(2)] by blast
  note w = delete_local [OF Suc.prems(2) d]
  show ?case
  proof (cases e)
    case None
    then show ?thesis using Suc.prems(1) assms(2) d w by (auto simp: agent_DeleteLocalIfc_def fab_call_def)
  next
    case (Some err)
    then have "delete_local_retry k env li (ca\<lparr>ca_world := w\<rparr>) = Some r"
      using Suc.prems(1) assms(2) d by (simp add: agent_DeleteLocalIfc_def fab_call_def)
    from Suc.IH [OF this] w Some show ?thesis by simp
  qed
qed simp

lemma delete_local_retry_done:
  assumes "en_fabric env = fab" "invar (ca_world ca)" "deletes_within k fab invar"
  shows "\<exists>w. (\<forall>fuel\<ge>k. delete_local_retry fuel env li ca = Some (Inr (ca\<lparr>ca_world := w\<rparr>))) \<and> invar w \<and>
    locals w = (locals (ca_world ca))(li_Name li := None)"
proof -
  have "\<not> deletion_fails k (en_fabric env) li (ca_world ca)" using assms by (simp add: deletes_within_def)
  then obtain r where r: "delete_local_retry k env li ca = Some r" using delete_local_retry_None [of k env li ca] by auto
  from delete_local_retry_result [OF this assms(1,2)] assms(3) obtain w where
    "r = Inr (ca\<lparr>ca_world := w\<rparr>)" "invar w" "locals w = (locals (ca_world ca))(li_Name li := None)"
    unfolding deletes_within_def by blast
  then show ?thesis using delete_local_retry_more [OF r] by blast
qed

lemma sync_local_loop_done:
  assumes "en_fabric env = fab" "deletes_within k fab invar"
    and "\<And>k. \<exists>atts. en_localByIndex env k = Inr atts" "sync_inv invar locals env lis ca"
  shows "\<exists>ca'. (\<forall>fuel\<ge>k. sync_local_loop fuel env lis ca = Some (Inr (None, ca'))) \<and> sync_inv invar locals env [] ca'"
  using assms(4)
proof (induction lis arbitrary: ca)
  case Nil
  then show ?case by (intro exI [of _ ca]) simp
next
  case (Cons li lis)
  have w: "invar (ca_world ca)" using Cons.prems by (simp add: sync_inv_def)
  obtain atts where atts: "en_localByIndex env (localIfcVNIAndIP li) = Inr atts" using assms(3) by blast
  show ?case
  proof (cases "\<exists>att. atts = [att]")
    case False
    from delete_local_retry_done [OF assms(1) w assms(2), of li] obtain w' where
      d: "\<forall>fuel\<ge>k. delete_local_retry fuel env li ca = Some (Inr (ca\<lparr>ca_world := w'\<rparr>))" "invar w'"
      "locals w' = (locals (ca_world ca))(li_Name li := None)" by blast
    from Cons.IH [OF sync_step_orphan [OF Cons.prems d(2,3)]] show ?thesis using False atts d(1)
      by (auto split: list.splits)
  next
    case True
    then obtain att where own: "en_localByIndex env (localIfcVNIAndIP li) = Inr [att]" using atts by blast
    let ?ca = "setExecReport (AttNSN att) (PostCreateExecReport (att_Status att)) (setLocalAttMainState (AttNSN att)
        \<lparr>LocalIfc = li, MainPostDeleteExec = PostDeleteExec (att_Spec att)\<rparr> ca)"
    show ?thesis
    proof (cases "nsnToLocalMainState ca (AttNSN att)")
      case None
      from Cons.IH [OF sync_step_claim [OF Cons.prems own None refl]] show ?thesis using own None
        by (simp add: getLocalAttState_def Let_def)
    next
      case (Some main)
      have "invar (ca_world ?ca)" using w by simp
      from delete_local_retry_done [OF assms(1) this assms(2), of "LocalIfc main"] obtain w' where
        d: "\<forall>fuel\<ge>k. delete_local_retry fuel env (LocalIfc main) ?ca = Some (Inr (?ca\<lparr>ca_world := w'\<rparr>))" "invar w'"
        "locals w' = (locals (ca_world ca))(li_Name (LocalIfc main) := None)" by auto
      from Cons.IH [OF sync_step_swap [OF Cons.prems own Some refl d(2,3)]] show ?thesis using own Some d(1)
        by (simp add: getLocalAttState_def Let_def)
    qed
  qed
qed

lemma listed_sync_inv:
  assumes "invar (ca_world ca)" "ListLocalIfcs fab (ca_world ca) = Inr (Inr lis, w)" "nsnToLocalMainState ca = Map.empty"
  shows "sync_inv invar locals env lis (ca\<lparr>ca_world := w\<rparr>)"
proof -
  from list_local [OF assms(1,2)] have l: "invar w" "locals w = map_of (map (\<lambda>i. (li_Name i, i)) lis)" "distinct (map li_Name lis)"
    by auto
  have "map_of (map (\<lambda>i. (li_Name i, i)) lis) name = Some li \<longleftrightarrow> name = li_Name li \<and> li \<in> set lis" for name li
    using l(3) by (subst map_of_eq_Some_iff) (auto simp: comp_def)
  then show ?thesis using l assms(3) by (simp add: sync_inv_def recorded_def)
qed

end

text \<open>
  C11: the synchronisation of the local interfaces at start-up deletes an interface again and again
  until that succeeds. For a fabric on which a deletion may fail, but not \<open>k\<close> times in a row, \<open>k\<close>
  attempts are enough for each deletion, and the synchronisation returns, if the listing of the
  interfaces succeeds and the index of attachments answers. Afterwards the interfaces of the fabric
  are exactly those recorded for an attachment, each for the only attachment with its VNI and
  address: interfaces without such an attachment, and all but one of those of an attachment, are
  deleted. Without the bound it need not return: as \<open>delete_local_retry_None\<close> shows, it hangs on an
  interface whose deletion fails for ever.
\<close>

theorem startup_leaves_no_orphans:
  assumes "network_fabric fab invar locals remotes" "en_fabric env = fab" "invar (ca_world ca)"
    and "deletes_within k fab invar"
    and "ListLocalIfcs fab (ca_world ca) = Inr (Inr lis, w)" "\<And>i. \<exists>atts. en_localByIndex env i = Inr atts"
    and "nsnToLocalMainState ca = Map.empty"
  shows "\<exists>ca'. (\<forall>fuel\<ge>k. syncPreExistingLocalIfcs fuel env ca = Some (Inr (None, ca'))) \<and> invar (ca_world ca') \<and>
    (\<forall>name li. locals (ca_world ca') name = Some li \<longleftrightarrow> name = li_Name li \<and> (\<exists>n. recorded ca' n li)) \<and>
    (\<forall>n li. recorded ca' n li \<longrightarrow> (\<exists>att. en_localByIndex env (localIfcVNIAndIP li) = Inr [att] \<and> AttNSN att = n))"
proof -
  have "sync_inv invar locals env lis (ca\<lparr>ca_world := w\<rparr>)"
    by (rule network_fabric.listed_sync_inv [OF assms(1,3,5,7)])
  from network_fabric.sync_local_loop_done [OF assms(1,2,4,6) this] obtain ca' where
    "\<forall>fuel\<ge>k. sync_local_loop fuel env lis (ca\<lparr>ca_world := w\<rparr>) = Some (Inr (None, ca'))" "sync_inv invar locals env [] ca'" by blast
  then show ?thesis using assms(2,5)
    by (intro exI [of _ ca']) (simp add: syncPreExistingLocalIfcs_def fab_call_def sync_inv_def)
qed

text \<open>A logger fabric that refuses to delete an interface as often as its second component says.\<close>

definition busy_DeleteLocalIfc :: "logger \<times> nat \<Rightarrow> LocalNetIfc \<Rightarrow> (go_panic, string option \<times> logger \<times> nat) result" where
  "busy_DeleteLocalIfc w li =
     (if snd w \<noteq> 0 \<and> map_of (localIfcs (fst w)) (li_Name li) \<noteq> None then Inr (Some ''busy'', fst w, snd w - 1)
      else Inr (None, (fst w)\<lparr>localIfcs := AList.delete (li_Name li) (localIfcs (fst w))\<rparr>, snd w))"

definition on_logger :: "(logger \<Rightarrow> 'a \<Rightarrow> (go_panic, 'b \<times> logger) result) \<Rightarrow> logger \<times> nat \<Rightarrow> 'a
    \<Rightarrow> (go_panic, 'b \<times> logger \<times> nat) result" where
  "on_logger f w x = map_sum id (map_prod id (\<lambda>l. (l, snd w))) (f (fst w) x)"

definition busy_fabric :: "(logger \<times> nat) fabric" where
  "busy_fabric = \<lparr>fabric_Name = logger_name,
     CreateLocalIfc = on_logger logger_CreateLocalIfc, DeleteLocalIfc = busy_DeleteLocalIfc,
     CreateRemoteIfc = on_logger logger_CreateRemoteIfc, DeleteRemoteIfc = on_logger logger_DeleteRemoteIfc,
     ListLocalIfcs = (\<lambda>w. on_logger (\<lambda>l _. logger_ListLocalIfcs id l) w ()),
     ListRemoteIfcs = (\<lambda>w. on_logger (\<lambda>l _. logger_ListRemoteIfcs id l) w ())\<rparr>"

definition busy_ok :: "logger \<times> nat \<Rightarrow> bool" where
  "busy_ok w \<longleftrightarrow> logger_ok (fst w) \<and> snd w \<le> 2"

lemmas busy_defs = busy_fabric_def busy_ok_def on_logger_def busy_DeleteLocalIfc_def

interpretation busy: network_fabric busy_fabric busy_ok "map_of \<circ> localIfcs \<circ> fst" "map_of \<circ> remoteIfcs \<circ> fst"
proof
  fix w w' :: "logger \<times> nat" and lis
  assume "busy_ok w" "ListLocalIfcs busy_fabric w = Inr (Inr lis, w')"
  then show "busy_ok w' \<and> (map_of \<circ> localIfcs \<circ> fst) w' = (map_of \<circ> localIfcs \<circ> fst) w \<and>
      (map_of \<circ> remoteIfcs \<circ> fst) w' = (map_of \<circ> remoteIfcs \<circ> fst) w \<and> distinct (map li_Name lis) \<and>
      (map_of \<circ> localIfcs \<circ> fst) w = map_of (map (\<lambda>i. (li_Name i, i)) lis)"
    using log_fabric.list_local [of "fst w" lis "fst w"]
    by (auto simp: busy_defs logger_fabric_def logger_ListLocalIfcs_def)
next
  fix w w' :: "logger \<times> nat" and ris
  assume "busy_ok w" "ListRemoteIfcs busy_fabric w = Inr (Inr ris, w')"
  then show "busy_ok w' \<and> (map_of \<circ> localIfcs \<circ> fst) w' = (map_of \<circ> localIfcs \<circ> fst) w \<and>
      (map_of \<circ> remoteIfcs \<circ> fst) w' = (map_of \<circ> remoteIfcs \<circ> fst) w \<and> distinct (map (hw_String \<circ> ri_GuestMAC) ris) \<and>
      (map_of \<circ> remoteIfcs \<circ> fst) w = map_of (map (\<lambda>i. (hw_String (ri_GuestMAC i), i)) ris)"
    using log_fabric.list_remote [of "fst w" ris "fst w"]
    by (auto simp: busy_defs logger_fabric_def logger_ListRemoteIfcs_def)
qed (auto simp: busy_defs logger_CreateLocalIfc_def logger_CreateRemoteIfc_def logger_DeleteRemoteIfc_def
    logger_ok_def keyed_by_update keyed_by_delete update_conv' delete_conv' split: if_splits)

lemma busy_deletes: "deletes_within 3 busy_fabric busy_ok"
proof -
  have "\<not> deletion_fails k busy_fabric li w" if "snd w < k" for k li w
    using that by (induction k arbitrary: w) (auto simp: busy_fabric_def busy_DeleteLocalIfc_def split: if_splits)
  then show ?thesis by (auto simp: deletes_within_def busy_ok_def) (simp add: busy_fabric_def busy_DeleteLocalIfc_def)
qed

definition startup_env :: "(logger \<times> nat) agent_env" where
  "startup_env =
     \<lparr>en_fabric = busy_fabric, en_Update = (\<lambda>w ns a. (Inr a, w)),
      en_localLister = (\<lambda>ns name. Inl \<lparr>ae_reason = ReasonNotFound, ae_text = ''not found''\<rparr>), en_localList = Inr [],
      en_localByIndex = (\<lambda>k. Inr (if k = ''5/10.0.0.6'' then [node_att ''n1'' ''ns'' ''a'' 5 ''10.0.0.6'' []] else [])),
      en_remoteLister = (\<lambda>i name. Inl \<lparr>ae_reason = ReasonNotFound, ae_text = ''not found''\<rparr>),
      en_remoteByIndex = (\<lambda>_ _. Inr []), en_remoteSync = (\<lambda>_. True), en_iter = id\<rparr>"

definition startup_agent :: "(logger \<times> nat) ConnectionAgent" where
  "startup_agent = NewConnectionAgent ''n1'' [192, 168, 0, 1] [''/bin/ping'']
     (\<lparr>localIfcs = [(''kos1'', li0\<lparr>li_Name := ''kos1''\<rparr>), (''kos2'', li0\<lparr>li_Name := ''kos2'', li_VNI := 6\<rparr>), (li_Name li0, li0)],
       remoteIfcs = []\<rparr>, 2)"

theorem startup_leaves_no_orphans_witness:
  "syncPreExistingLocalIfcs 1 startup_env startup_agent = None \<and>
   (\<exists>ca'. syncPreExistingLocalIfcs 3 startup_env startup_agent = Some (Inr (None, ca')) \<and>
    (\<forall>name li. map_of (localIfcs (fst (ca_world ca'))) name = Some li \<longleftrightarrow> name = li_Name li \<and> (\<exists>n. recorded ca' n li)))"
proof -
  have ok: "busy_ok (ca_world startup_agent)" "nsnToLocalMainState startup_agent = Map.empty"
    by (simp_all add: startup_agent_def NewConnectionAgent_def busy_ok_def logger_ok_def keyed_by_def li0_def)
  have env: "en_fabric startup_env = busy_fabric" "\<exists>atts. en_localByIndex startup_env i = Inr atts" for i
    by (simp_all add: startup_env_def)
  have "\<exists>lis. ListLocalIfcs busy_fabric w = Inr (Inr lis, w)" for w
    by (simp add: busy_fabric_def on_logger_def logger_ListLocalIfcs_def)
  then obtain lis where lst: "ListLocalIfcs busy_fabric (ca_world startup_agent) = Inr (Inr lis, ca_world startup_agent)"
    by blast
  have "syncPreExistingLocalIfcs 1 startup_env startup_agent = None" by code_simp
  with startup_leaves_no_orphans [OF busy.network_fabric_axioms env(1) ok(1) busy_deletes lst env(2) ok(2)]
  show ?thesis by auto
qed

text \<open>
  C37: when a remote interface found at start-up belongs to an attachment for which a local
  interface was recorded before, the local interface is deleted from the fabric but stays in the
  agent's state, which then has two interfaces for that attachment, one of them gone.
\<close>

theorem startup_keeps_deleted_interface:
  assumes "getRemoteAttsInformerForVNI ca (ri_VNI ri) = Some i" "en_remoteSync env i"
    and "en_remoteByIndex env i (remoteIfcVNIAndIP ri) = Inr [att]"
    and "nsnToRemoteIfc ca (AttNSN att) = None" "nsnToLocalMainState ca (AttNSN att) = Some main"
    and "DeleteLocalIfc (en_fabric env) (ca_world ca) (LocalIfc main) = Inr (None, w)"
  shows "\<exists>ca'. sync_remote_loop (Suc fuel) env [ri] ca = Some (Inr (None, ca')) \<and> ca_world ca' = w \<and>
    nsnToLocalMainState ca' (AttNSN att) = Some main \<and> nsnToRemoteIfc ca' (AttNSN att) = Some ri"
  using assms
  by (simp add: getRemoteIfc_def getLocalAttState_def assignRemoteIfc_def agent_DeleteLocalIfc_def fab_call_def Let_def)

definition moved_env :: "logger agent_env" where
  "moved_env = (agent_sample_env (\<lambda>_ _. None) (\<lambda>_ _. None))\<lparr>en_remoteByIndex :=
     (\<lambda>_ _. Inr [node_att ''n2'' ''ns'' ''a'' 5 ''10.0.0.6'' ''192.168.0.2''])\<rparr>"

theorem startup_keeps_deleted_interface_witness:
  "\<exists>ca' ri. sync_remote_loop 1 moved_env [ri] both_agent = Some (Inr (None, ca')) \<and> localIfcs (ca_world ca') = [] \<and>
     nsnToLocalMainState ca' (nsn ''ns'' ''a'') \<noteq> None \<and> nsnToRemoteIfc ca' (nsn ''ns'' ''a'') = Some ri"
proof -
  let ?ri = "\<lparr>ri_VNI = 5, ri_GuestMAC = [6, 0, 0, 6, 0, 5], ri_GuestIP = IPv4 10 0 0 6, ri_HostIP = IPv4 192 168 0 2\<rparr>"
  let ?att = "node_att ''n2'' ''ns'' ''a'' 5 ''10.0.0.6'' ''192.168.0.2''"
  have n: "AttNSN ?att = nsn ''ns'' ''a''" by (simp add: node_att_def AttNSN_def nsn_def)
  have "getRemoteAttsInformerForVNI both_agent (ri_VNI ?ri) = Some 0" "en_remoteSync moved_env 0"
    "en_remoteByIndex moved_env 0 (remoteIfcVNIAndIP ?ri) = Inr [?att]"
    "nsnToLocalMainState both_agent (AttNSN ?att) = Some \<lparr>LocalIfc = li0, MainPostDeleteExec = []\<rparr>"
    by (simp_all add: n getRemoteAttsInformerForVNI_def both_agent_def agent_with_local_def agent_with_ifc_def moved_env_def
        agent_sample_env_def)
  moreover have "nsnToRemoteIfc both_agent (AttNSN ?att) = None"
    by (simp add: n both_agent_def agent_with_ifc_def agent0_def NewConnectionAgent_def)
  moreover have "DeleteLocalIfc (en_fabric moved_env) (ca_world both_agent) li0 = Inr (None, \<lparr>localIfcs = [], remoteIfcs = []\<rparr>)"
    by (simp add: both_agent_def agent_with_ifc_def moved_env_def logger_fabric_def logger_DeleteLocalIfc_def)
  ultimately obtain ca' where "sync_remote_loop (Suc 0) moved_env [?ri] both_agent = Some (Inr (None, ca'))"
    "ca_world ca' = \<lparr>localIfcs = [], remoteIfcs = []\<rparr>" "nsnToLocalMainState ca' (AttNSN ?att) = Some \<lparr>LocalIfc = li0, MainPostDeleteExec = []\<rparr>"
    "nsnToRemoteIfc ca' (AttNSN ?att) = Some ?ri"
    using startup_keeps_deleted_interface [of both_agent ?ri 0 moved_env ?att "\<lparr>LocalIfc = li0, MainPostDeleteExec = []\<rparr>" _ 0]
    by force
  then show ?thesis by (intro exI [of _ ca'] exI [of _ ?ri]) (simp add: n del: sync_remote_loop.simps)
qed

end
