(* ===== verification/Go_Regexp.thy ===== *)
theory Go_Regexp
  imports Go_Net
begin

text \<open>
  What the Open vSwitch fabric uses of Go's packages \<open>regexp\<close>, \<open>encoding/binary\<close> and of the
  rest of \<open>strings\<close> and \<open>net\<close>: regular expressions over bytes with the leftmost-first choice of
  a match (\<open>FindString\<close>), \<open>Uvarint\<close>, \<open>Fields\<close> and \<open>ParseMAC\<close>.
\<close>

section \<open>Regular expressions\<close>

text \<open>
  A class is a list of ranges of character codes. \<open>Many\<close> is a greedy \<open>+\<close> on a class, the only
  unbounded repetition in the program.
\<close>

type_synonym char_class = "(nat \<times> nat) list"

definition in_class :: "char_class \<Rightarrow> char \<Rightarrow> bool" where
  "in_class rs c \<longleftrightarrow> list_ex (\<lambda>(a, b). a \<le> of_char c \<and> of_char c \<le> b) rs"

datatype regexp = Cls char_class | Lit string | Seq regexp regexp | Alt regexp regexp | Opt regexp
  | Many char_class | Rep nat regexp

text \<open>The rests of the input after a match, the preferred one first.\<close>

fun many_rests :: "char_class \<Rightarrow> string \<Rightarrow> string list" where
  "many_rests cl [] = []"
| "many_rests cl (c # s) = (if in_class cl c then many_rests cl s @ [s] else [])"

fun iterate_rests :: "(string \<Rightarrow> string list) \<Rightarrow> nat \<Rightarrow> string \<Rightarrow> string list" where
  "iterate_rests m 0 s = [s]"
| "iterate_rests m (Suc n) s = concat (map (iterate_rests m n) (m s))"

fun rests :: "regexp \<Rightarrow> string \<Rightarrow> string list" where
  "rests (Cls cl) s = (case s of [] \<Rightarrow> [] | c # t \<Rightarrow> if in_class cl c then [t] else [])"
| "rests (Lit l) s = (if take (length l) s = l then [drop (length l) s] else [])"
| "rests (Seq r q) s = concat (map (rests q) (rests r s))"
| "rests (Alt r q) s = rests r s @ rests q s"
| "rests (Opt r) s = rests r s @ [s]"
| "rests (Many cl) s = many_rests cl s"
| "rests (Rep n r) s = iterate_rests (rests r) n s"

fun FindString :: "regexp \<Rightarrow> string \<Rightarrow> string" where
  "FindString r s =
     (case rests r s of
        t # _ \<Rightarrow> take (length s - length t) s
      | [] \<Rightarrow> (case s of [] \<Rightarrow> [] | _ # s' \<Rightarrow> FindString r s'))"

declare FindString.simps [simp del]

section \<open>Other functions\<close>

text \<open>\<open>Fields\<close> on ASCII text.\<close>

definition ascii_space :: "char \<Rightarrow> bool" where
  "ascii_space c \<longleftrightarrow> of_char c \<in> {9::nat, 10, 11, 12, 13, 32}"

function string_fields :: "string \<Rightarrow> string list" where
  "string_fields s =
     (case dropWhile ascii_space s of
        [] \<Rightarrow> []
      | t \<Rightarrow> takeWhile (Not \<circ> ascii_space) t # string_fields (dropWhile (Not \<circ> ascii_space) t))"
  by pat_completeness auto
termination
proof (relation "measure length")
  fix s t :: string and c
  assume t: "dropWhile ascii_space s = c # t"
  then have "\<not> ascii_space c" by (metis hd_dropWhile list.distinct(1) list.sel(1))
  then have "length (dropWhile (Not \<circ> ascii_space) (c # t)) \<le> length t" by (simp add: length_dropWhile_le)
  moreover have "length (c # t) \<le> length s" unfolding t [symmetric] by (rule length_dropWhile_le)
  ultimately show "(dropWhile (Not \<circ> ascii_space) (c # t), s) \<in> measure length" by simp
qed simp

declare string_fields.simps [simp del]

text \<open>\<open>Uvarint\<close>: the value and the number of bytes read, not positive on an error.\<close>

fun Uvarint_loop :: "nat \<Rightarrow> 64 word \<Rightarrow> uint8 list \<Rightarrow> 64 word \<times> int" where
  "Uvarint_loop i x [] = (0, 0)"
| "Uvarint_loop i x (b # bs) =
     (if b < 128 then
        (if 9 < i \<or> i = 9 \<and> 1 < b then (0, - (int i + 1))
         else (or x (push_bit (7 * i) (ucast b)), int i + 1))
      else Uvarint_loop (Suc i) (or x (push_bit (7 * i) (ucast (and b 127)))) bs)"

definition Uvarint :: "uint8 list \<Rightarrow> 64 word \<times> int" where
  "Uvarint buf = Uvarint_loop 0 0 buf"

text \<open>\<open>xtoi2\<close> reads two hexadecimal digits that the byte \<open>e\<close> has to follow if anything does.\<close>

definition xtoi2 :: "string \<Rightarrow> char \<Rightarrow> uint8 option" where
  "xtoi2 s e =
     (if 2 < length s \<and> s ! 2 \<noteq> e then None
      else case toi 16 (take 2 s) of (n, ei, ok) \<Rightarrow> if ok \<and> ei = 2 then Some (of_nat n) else None)"

fun mac_bytes :: "nat \<Rightarrow> char \<Rightarrow> string \<Rightarrow> uint8 list option" where
  "mac_bytes 0 sep s = Some []"
| "mac_bytes (Suc n) sep s =
     (case xtoi2 s sep of
        None \<Rightarrow> None
      | Some b \<Rightarrow> map_option ((#) b) (mac_bytes n sep (drop 3 s)))"

fun mac_words :: "nat \<Rightarrow> char \<Rightarrow> string \<Rightarrow> uint8 list option" where
  "mac_words 0 sep s = Some []"
| "mac_words (Suc n) sep s =
     (case xtoi2 (take 2 s) (CHR 0x00) of
        None \<Rightarrow> None
      | Some a \<Rightarrow>
          (case xtoi2 (drop 2 s) sep of
             None \<Rightarrow> None
           | Some b \<Rightarrow> map_option (\<lambda>bs. a # b # bs) (mac_words n sep (drop 5 s))))"

definition ParseMAC :: "string \<Rightarrow> (string, uint8 list) result" where
  "ParseMAC s =
     (let err = Inl (''address '' @ s @ '': invalid MAC address'');
          found = (\<lambda>r. case r of None \<Rightarrow> err | Some hw \<Rightarrow> Inr hw) in
      if length s < 14 then err
      else if s ! 2 = CHR '':'' \<or> s ! 2 = CHR ''-'' then
        (let n = (length s + 1) div 3 in
         if (length s + 1) mod 3 \<noteq> 0 \<or> n \<notin> {6, 8, 20} then err else found (mac_bytes n (s ! 2) s))
      else if s ! 4 = CHR ''.'' then
        (let n = 2 * (length s + 1) div 5 in
         if (length s + 1) mod 5 \<noteq> 0 \<or> n \<notin> {6, 8, 20} then err else found (mac_words (n div 2) (s ! 4) s))
      else err)"

section \<open>Lemmas\<close>

text \<open>A match leaves a suffix of the input.\<close>

lemma many_rests_suffix: "t \<in> set (many_rests cl s) \<Longrightarrow> \<exists>p. s = p @ t"
  by (induction s) (auto split: if_splits)

lemma iterate_rests_suffix:
  "(\<And>s t. t \<in> set (m s) \<Longrightarrow> \<exists>p. s = p @ t) \<Longrightarrow> t \<in> set (iterate_rests m n s) \<Longrightarrow> \<exists>p. s = p @ t"
proof (induction n arbitrary: s)
  case (Suc n)
  then obtain u where u: "u \<in> set (m s)" "t \<in> set (iterate_rests m n u)" by auto
  from Suc.prems(1) [OF u(1)] Suc.IH [OF Suc.prems(1) u(2)] show ?case by (metis append.assoc)
qed simp

lemma rests_suffix: "t \<in> set (rests r s) \<Longrightarrow> \<exists>p. s = p @ t"
proof (induction r arbitrary: s t)
  case (Lit l)
  then show ?case by (auto split: if_splits) (metis append_take_drop_id)
next
  case (Seq r q)
  then obtain u where "u \<in> set (rests r s)" "t \<in> set (rests q u)" by auto
  with Seq.IH show ?case by (metis append.assoc)
next
  case (Many cl)
  then show ?case using many_rests_suffix by simp
next
  case (Rep n r)
  then show ?case using iterate_rests_suffix [of "rests r"] by simp
qed (auto split: list.splits if_splits)

text \<open>The preferred match of a greedy repetition is the longest run.\<close>

lemma many_rests_run:
  assumes "ds \<noteq> []" "list_all (in_class cl) ds" "s = [] \<or> \<not> in_class cl (hd s)"
  shows "\<exists>ts. many_rests cl (ds @ s) = s # ts"
  using assms
proof (induction ds)
  case (Cons d ds)
  show ?case
  proof (cases ds)
    case Nil
    with Cons.prems show ?thesis by (cases s) auto
  next
    case (Cons e es)
    with Cons.IH Cons.prems obtain ts where "many_rests cl (ds @ s) = s # ts" by auto
    then show ?thesis using Cons.prems by simp
  qed
qed simp

lemma many_rests_hd: "many_rests cl s \<noteq> [] \<Longrightarrow> s \<noteq> [] \<and> in_class cl (hd s)"
  by (cases s) (auto split: if_splits)

text \<open>\<open>FindString\<close> skips positions without a match.\<close>

lemma FindString_skip: "rests r (c # s) = [] \<Longrightarrow> FindString r (c # s) = FindString r s"
  by (subst FindString.simps) simp

lemma FindString_here: "rests r (m @ s) = s # ts \<Longrightarrow> FindString r (m @ s) = m"
  by (subst FindString.simps) simp

lemma FindString_empty: "rests r [] = [] \<Longrightarrow> FindString r [] = []"
  by (subst FindString.simps) simp

lemma FindString_after:
  assumes "\<And>p q. pre = p @ q \<Longrightarrow> q \<noteq> [] \<Longrightarrow> rests r (q @ s) = []"
  shows "FindString r (pre @ s) = FindString r s"
  using assms
proof (induction pre)
  case (Cons c pre)
  have "rests r (c # pre @ s) = []" using Cons.prems [of "[]" "c # pre"] by simp
  moreover have "rests r (q @ s) = []" if "pre = p @ q" "q \<noteq> []" for p q
    using Cons.prems [of "c # p" q] that by simp
  ultimately show ?case using Cons.IH FindString_skip by simp
qed simp

end
