(* ===== verification/OVS.thy ===== *)
theory OVS
  imports Go_Regexp Fabric
begin

text \<open>
  The Open vSwitch fabric, \<open>pkg/networkfabric/ovs/ovs.go\<close>. The command line tools of the switch
  are a parameter: \<open>CombinedOutput\<close> runs a command in the state of the switch and returns its
  output and the error. The orders in which Go iterates over the maps keyed by ports and by
  cookies are parameters too. Logging is left out, except that its arguments may panic.
\<close>

section \<open>State\<close>

definition ovs_name :: string where "ovs_name = ''ovs''"

definition decNbrRegexp :: regexp where "decNbrRegexp = Many [(48, 57)]"
definition hexNbrRegexp :: regexp where
  "hexNbrRegexp = Seq (Lit ''0'') (Seq (Cls [(120, 120), (88, 88)]) (Many [(48, 57), (97, 102), (65, 70)]))"
definition inPortRegexp :: regexp where "inPortRegexp = Seq (Lit ''in_port='') decNbrRegexp"
definition outputRegexp :: regexp where "outputRegexp = Seq (Lit ''output:'') decNbrRegexp"
definition tunIDRegexp :: regexp where "tunIDRegexp = Seq (Lit ''tun_id='') hexNbrRegexp"
definition loadRegexp :: regexp where "loadRegexp = Seq (Lit ''load:'') hexNbrRegexp"
definition cookieRegexp :: regexp where "cookieRegexp = Seq (Lit ''cookie='') hexNbrRegexp"

text \<open>The alternatives of an octet: \<open>25[0-5]\<close>, \<open>2[0-4][0-9]\<close>, \<open>[01]?[0-9][0-9]?\<close>.\<close>

definition octetRegexp :: regexp where
  "octetRegexp =
     Alt (Seq (Lit ''25'') (Cls [(48, 53)]))
      (Alt (Seq (Lit ''2'') (Seq (Cls [(48, 52)]) (Cls [(48, 57)])))
       (Seq (Opt (Cls [(48, 49)])) (Seq (Cls [(48, 57)]) (Opt (Cls [(48, 57)])))))"

definition ipv4Regexp :: regexp where
  "ipv4Regexp = Seq (Rep 3 (Seq octetRegexp (Lit ''.''))) octetRegexp"
definition arpTPARegexp :: regexp where "arpTPARegexp = Seq (Lit ''arp_tpa='') ipv4Regexp"

definition hexCls :: char_class where "hexCls = [(48, 57), (65, 70), (97, 102)]"
definition macRegexp :: regexp where
  "macRegexp = Seq (Rep 5 (Seq (Rep 2 (Cls hexCls)) (Cls [(58, 58), (45, 45)]))) (Rep 2 (Cls hexCls))"

definition hexPrefixChars :: string where "hexPrefixChars = ''0xX''"
definition remoteFlowsFingerprint :: string where "remoteFlowsFingerprint = ''NXM_NX_TUN_IPV4_DST''"
definition arpFlowsFingerprint :: string where "arpFlowsFingerprint = ''arp''"

record regexpKit =
  kit_decNbr :: regexp
  kit_inPort :: regexp
  kit_output :: regexp
  kit_hexNbr :: regexp
  kit_tunID :: regexp
  kit_load :: regexp
  kit_cookie :: regexp
  kit_ipv4 :: regexp
  kit_arpTPA :: regexp
  kit_mac :: regexp

record vniAndIP =
  pair_vni :: uint32
  pair_ip :: uint32

record ovsFabric =
  bridge :: string
  vtep :: string
  vtepOFport :: uint16
  flowParsingKit :: regexpKit
  lockedVNIIPPairs :: "vniAndIP set"

record exec_cmd =
  cmd_path :: string
  cmd_args :: "string list"
  cmd_stdin :: string

record 's ovs_env =
  CombinedOutput :: "'s \<Rightarrow> exec_cmd \<Rightarrow> (string \<times> string option) \<times> 's"
  port_order :: "uint16 list \<Rightarrow> uint16 list"
  cookie_order :: "string list \<Rightarrow> string list"

definition kit :: regexpKit where
  "kit = \<lparr>kit_decNbr = decNbrRegexp, kit_inPort = inPortRegexp, kit_output = outputRegexp,
     kit_hexNbr = hexNbrRegexp, kit_tunID = tunIDRegexp, kit_load = loadRegexp, kit_cookie = cookieRegexp,
     kit_ipv4 = ipv4Regexp, kit_arpTPA = arpTPARegexp, kit_mac = macRegexp\<rparr>"

definition initFlowsParsingKit :: "ovsFabric \<Rightarrow> ovsFabric" where
  "initFlowsParsingKit f = f\<lparr>flowParsingKit := kit\<rparr>"

section \<open>Commands\<close>

definition exec_Command :: "string \<Rightarrow> string list \<Rightarrow> exec_cmd" where
  "exec_Command path args = \<lparr>cmd_path = path, cmd_args = args, cmd_stdin = []\<rparr>"

definition newCreateBridgeCmd :: "ovsFabric \<Rightarrow> exec_cmd" where
  "newCreateBridgeCmd f = exec_Command ''ovs-vsctl''
     [''--may-exist'', ''add-br'', bridge f, ''--'', ''set'', ''bridge'', bridge f,
      ''protocols=OpenFlow10,OpenFlow11,OpenFlow12,OpenFlow13,OpenFlow14,OpenFlow15'']"

definition newAddVTEPCmd :: "ovsFabric \<Rightarrow> exec_cmd" where
  "newAddVTEPCmd f = exec_Command ''ovs-vsctl''
     [''--may-exist'', ''add-port'', bridge f, vtep f, ''--'', ''set'', ''interface'', vtep f,
      ''type=vxlan'', ''option:key=flow'', ''option:remote_ip=flow'']"

definition newGetIfcOFportCmd :: "string \<Rightarrow> exec_cmd" where
  "newGetIfcOFportCmd ifc = exec_Command ''ovs-vsctl'' [''get'', ''interface'', ifc, ''ofport'']"

definition newCreateIfcCmd :: "ovsFabric \<Rightarrow> string \<Rightarrow> HardwareAddr \<Rightarrow> exec_cmd" where
  "newCreateIfcCmd f ifc mac = exec_Command ''ovs-vsctl''
     [''add-port'', bridge f, ifc, ''--'', ''set'', ''interface'', ifc, ''type=internal'',
      ''mac='' @ replace_all (hw_String mac) '':'' [CHR 0x5C, CHR '':'']]"

definition newDeleteBridgePortCmd :: "ovsFabric \<Rightarrow> string \<Rightarrow> exec_cmd" where
  "newDeleteBridgePortCmd f ifc = exec_Command ''ovs-vsctl'' [''del-port'', bridge f, ifc]"

abbreviation "newline \<equiv> CHR 0x0A"

definition newAddFlowsCmd :: "ovsFabric \<Rightarrow> string list \<Rightarrow> exec_cmd" where
  "newAddFlowsCmd f flows =
     (exec_Command ''ovs-ofctl'' [''--bundle'', ''add-flows'', bridge f, ''-''])\<lparr>cmd_stdin := join [newline] flows @ [newline]\<rparr>"

definition newDelFlowsCmd :: "ovsFabric \<Rightarrow> string list \<Rightarrow> exec_cmd" where
  "newDelFlowsCmd f flows =
     (exec_Command ''ovs-ofctl'' [''--bundle'', ''del-flows'', bridge f, ''-''])\<lparr>cmd_stdin := join [newline] flows @ [newline]\<rparr>"

definition newGetFlowsCmd :: "ovsFabric \<Rightarrow> exec_cmd" where
  "newGetFlowsCmd f = exec_Command ''ovs-ofctl'' [''dump-flows'', bridge f]"

definition newListOFportsAndIfcNamesCmd :: exec_cmd where
  "newListOFportsAndIfcNamesCmd = exec_Command ''ovs-vsctl''
     [''-f'', ''table'', ''--no-heading'', ''--'', ''--columns=ofport,name'', ''list'', ''Interface'']"

definition newAddFlowsErr :: "string \<Rightarrow> string \<Rightarrow> string list \<Rightarrow> string" where
  "newAddFlowsErr flows br msgs =
     ''transaction to add OpenFlow flows '' @ flows @ '' to bridge '' @ br @ '' failed: '' @ join '' '' msgs"

definition newDelFlowsErr :: "string \<Rightarrow> string \<Rightarrow> string list \<Rightarrow> string" where
  "newDelFlowsErr flows br msgs =
     ''transaction to delete OpenFlow flows '' @ flows @ '' to bridge '' @ br @ '' failed: '' @ join '' '' msgs"

text \<open>A command of which only the error matters; \<open>msg\<close> makes the error from the one of the command and its output.\<close>

definition run_cmd :: "'s ovs_env \<Rightarrow> exec_cmd \<Rightarrow> (string \<Rightarrow> string \<Rightarrow> string) \<Rightarrow> 's \<Rightarrow> string option \<times> 's" where
  "run_cmd env c msg s =
     (case CombinedOutput env s c of
        ((out, Some err), s') \<Rightarrow> (Some (msg err out), s')
      | ((out, None), s') \<Rightarrow> (None, s'))"

section \<open>Locking of addresses\<close>

text \<open>\<open>%d\<close> on a byte slice.\<close>

definition sprintf_d_bytes :: "uint8 list \<Rightarrow> string" where
  "sprintf_d_bytes bs = ''['' @ join '' '' (map sprintf_d bs) @ '']''"

definition lockVNIIPPair :: "uint32 \<Rightarrow> IP \<Rightarrow> ovsFabric \<Rightarrow> (go_panic, string option \<times> ovsFabric) result" where
  "lockVNIIPPair vni ip f =
     (case MakeUint32FromIPv4 ip of
        Inl p \<Rightarrow> Inl p
      | Inr i \<Rightarrow>
          (let vniIP = \<lparr>pair_vni = vni, pair_ip = i\<rparr> in
           if vniIP \<in> lockedVNIIPPairs f then
             Inr (Some (''there's already an interface in VNI '' @ sprintf_sharp_x vni @ '' with IP '' @ sprintf_d_bytes ip), f)
           else Inr (None, f\<lparr>lockedVNIIPPairs := insert vniIP (lockedVNIIPPairs f)\<rparr>)))"

definition unlockVNIIPPair :: "uint32 \<Rightarrow> IP \<Rightarrow> ovsFabric \<Rightarrow> (go_panic, ovsFabric) result" where
  "unlockVNIIPPair vni ip f =
     (case MakeUint32FromIPv4 ip of
        Inl p \<Rightarrow> Inl p
      | Inr i \<Rightarrow> Inr (f\<lparr>lockedVNIIPPairs := lockedVNIIPPairs f - {\<lparr>pair_vni = vni, pair_ip = i\<rparr>}\<rparr>))"

section \<open>Changing the switch\<close>

definition parseOFport :: "string \<Rightarrow> uint16" where
  "parseOFport ofPort = of_nat (fst (ParseUint ofPort 10 16))"

definition createBridge :: "'s ovs_env \<Rightarrow> ovsFabric \<Rightarrow> 's \<Rightarrow> string option \<times> 's" where
  "createBridge env f = run_cmd env (newCreateBridgeCmd f)
     (\<lambda>err out. ''failed to create bridge '' @ bridge f @ '': '' @ err @ '': '' @ out)"

definition addVTEP :: "'s ovs_env \<Rightarrow> ovsFabric \<Rightarrow> 's \<Rightarrow> string option \<times> 's" where
  "addVTEP env f = run_cmd env (newAddVTEPCmd f)
     (\<lambda>err out. ''failed to add VTEP port and interface to bridge '' @ bridge f @ '': '' @ err @ '': '' @ out)"

definition getIfcOFport :: "'s ovs_env \<Rightarrow> ovsFabric \<Rightarrow> string \<Rightarrow> 's \<Rightarrow> (string, uint16) result \<times> 's" where
  "getIfcOFport env f ifc s =
     (case CombinedOutput env s (newGetIfcOFportCmd ifc) of
        ((outBytes, err), s') \<Rightarrow>
          (let out = TrimRight outBytes [newline] in
           case err of
             Some e \<Rightarrow> (Inl (''failed to retrieve OpenFlow port of interface '' @ ifc @ '' in bridge '' @ bridge f @ '': ''
               @ e @ '': '' @ out), s')
           | None \<Rightarrow> (Inr (parseOFport out), s')))"

definition addDefaultFlows :: "'s ovs_env \<Rightarrow> ovsFabric \<Rightarrow> 's \<Rightarrow> string option \<times> 's" where
  "addDefaultFlows env f =
     (let flows = [''table=0,priority=1,actions=resubmit(,1)'', ''table=1,priority=1,actions=drop'']
      in run_cmd env (newAddFlowsCmd f flows) (\<lambda>err out. newAddFlowsErr (join '' '' flows) (bridge f) [err, out]))"

definition createIfc :: "'s ovs_env \<Rightarrow> ovsFabric \<Rightarrow> string \<Rightarrow> HardwareAddr \<Rightarrow> 's \<Rightarrow> string option \<times> 's" where
  "createIfc env f ifc mac = run_cmd env (newCreateIfcCmd f ifc mac)
     (\<lambda>err out. ''failed to create local ifc '' @ ifc @ '' with MAC '' @ hw_String mac @ '' and plug it into bridge '' @
        bridge f @ '': '' @ err @ '': '' @ out)"

definition deleteIfc :: "'s ovs_env \<Rightarrow> ovsFabric \<Rightarrow> string \<Rightarrow> 's \<Rightarrow> string option \<times> 's" where
  "deleteIfc env f ifc = run_cmd env (newDeleteBridgePortCmd f ifc)
     (\<lambda>err out. ''failed to delete local ifc '' @ ifc @ '' attached to bridge '' @ bridge f @ '': '' @ err @ '': '' @ out)"

definition localIfcFlows :: "uint16 \<Rightarrow> uint32 \<Rightarrow> HardwareAddr \<Rightarrow> IP \<Rightarrow> string list" where
  "localIfcFlows ofPort tunID dlDst arpTPA =
     [''table=0,in_port='' @ sprintf_d ofPort @ '',actions=set_field:'' @ sprintf_sharp_x tunID @ ''->tun_id,resubmit(,1)'',
      ''table=1,tun_id='' @ sprintf_sharp_x tunID @ '',dl_dst='' @ hw_String dlDst @ '',actions=output:'' @ sprintf_d ofPort,
      ''table=1,tun_id='' @ sprintf_sharp_x tunID @ '',arp,arp_tpa='' @ ip_String arpTPA @ '',actions=output:'' @ sprintf_d ofPort]"

definition addLocalIfcFlows :: "'s ovs_env \<Rightarrow> ovsFabric \<Rightarrow> uint16 \<Rightarrow> uint32 \<Rightarrow> HardwareAddr \<Rightarrow> IP \<Rightarrow> 's \<Rightarrow> string option \<times> 's" where
  "addLocalIfcFlows env f ofPort tunID dlDst arpTPA =
     (let flows = localIfcFlows ofPort tunID dlDst arpTPA
      in run_cmd env (newAddFlowsCmd f flows) (\<lambda>err out. newAddFlowsErr (join '' '' flows) (bridge f) [err, out]))"

definition localIfcMatches :: "uint16 \<Rightarrow> uint32 \<Rightarrow> HardwareAddr \<Rightarrow> IP \<Rightarrow> string list" where
  "localIfcMatches ofPort tunID dlDst arpTPA =
     [''in_port='' @ sprintf_d ofPort,
      ''tun_id='' @ sprintf_sharp_x tunID @ '',dl_dst='' @ hw_String dlDst,
      ''tun_id='' @ sprintf_sharp_x tunID @ '',arp,arp_tpa='' @ ip_String arpTPA]"

definition deleteLocalIfcFlows :: "'s ovs_env \<Rightarrow> ovsFabric \<Rightarrow> uint16 \<Rightarrow> uint32 \<Rightarrow> HardwareAddr \<Rightarrow> IP \<Rightarrow> 's \<Rightarrow> string option \<times> 's" where
  "deleteLocalIfcFlows env f ofPort tunID dlDst arpTPA =
     (let flows = localIfcMatches ofPort tunID dlDst arpTPA
      in run_cmd env (newDelFlowsCmd f flows)
           (\<lambda>err out. newDelFlowsErr (TrimRight (join '' '' flows) '' '') (bridge f) [err, out]))"

definition flowCookie :: "HardwareAddr \<Rightarrow> 64 word" where
  "flowCookie dlDst = fst (Uvarint dlDst)"

definition remoteIfcFlows :: "ovsFabric \<Rightarrow> uint32 \<Rightarrow> HardwareAddr \<Rightarrow> IP \<Rightarrow> IP \<Rightarrow> string list" where
  "remoteIfcFlows f tunID dlDst tunDst arpTPA =
     (let cookie = flowCookie dlDst in
      [''table=1,cookie='' @ sprintf_d cookie @ '',tun_id='' @ sprintf_sharp_x tunID @ '',dl_dst='' @ hw_String dlDst @
         '',actions=set_field:'' @ ip_String tunDst @ ''->tun_dst,output:'' @ sprintf_d (vtepOFport f),
       ''table=1,cookie='' @ sprintf_d cookie @ '',tun_id='' @ sprintf_sharp_x tunID @ '',arp,arp_tpa='' @ ip_String arpTPA @
         '',actions=set_field:'' @ ip_String tunDst @ ''->tun_dst,output:'' @ sprintf_d (vtepOFport f)])"

definition addRemoteIfcFlows :: "'s ovs_env \<Rightarrow> ovsFabric \<Rightarrow> uint32 \<Rightarrow> HardwareAddr \<Rightarrow> IP \<Rightarrow> IP \<Rightarrow> 's \<Rightarrow> string option \<times> 's" where
  "addRemoteIfcFlows env f tunID dlDst tunDst arpTPA =
     (let flows = remoteIfcFlows f tunID dlDst tunDst arpTPA
      in run_cmd env (newAddFlowsCmd f flows) (\<lambda>err out. newAddFlowsErr (join '' '' flows) (bridge f) [err, out]))"

definition remoteIfcMatches :: "uint32 \<Rightarrow> HardwareAddr \<Rightarrow> IP \<Rightarrow> string list" where
  "remoteIfcMatches tunID dlDst arpTPA =
     [''table=1,tun_id='' @ sprintf_sharp_x tunID @ '',dl_dst='' @ hw_String dlDst,
      ''table=1,tun_id='' @ sprintf_sharp_x tunID @ '',arp,arp_tpa='' @ ip_String arpTPA]"

definition deleteRemoteIfcFlows :: "'s ovs_env \<Rightarrow> ovsFabric \<Rightarrow> uint32 \<Rightarrow> HardwareAddr \<Rightarrow> IP \<Rightarrow> 's \<Rightarrow> string option \<times> 's" where
  "deleteRemoteIfcFlows env f tunID dlDst arpTPA =
     (let flows = remoteIfcMatches tunID dlDst arpTPA
      in run_cmd env (newDelFlowsCmd f flows) (\<lambda>err out. newDelFlowsErr (join '' '' flows) (bridge f) [err, out]))"

section \<open>Creation and deletion of interfaces\<close>

text \<open>The deferred release of the address when the operation fails.\<close>

definition unlock_on_error :: "uint32 \<Rightarrow> IP \<Rightarrow> string option \<Rightarrow> ovsFabric \<times> 's \<Rightarrow> (go_panic, string option \<times> ovsFabric \<times> 's) result" where
  "unlock_on_error vni ip err w =
     (case err of
        None \<Rightarrow> Inr (None, w)
      | Some e \<Rightarrow>
          (case unlockVNIIPPair vni ip (fst w) of
             Inl p \<Rightarrow> Inl p
           | Inr f \<Rightarrow> Inr (Some e, f, snd w)))"

text \<open>The deferred deletion of the device when its port is not found or its flows are not added.\<close>

definition delete_on_error :: "'s ovs_env \<Rightarrow> ovsFabric \<Rightarrow> string \<Rightarrow> string option \<Rightarrow> 's \<Rightarrow> string option \<times> 's" where
  "delete_on_error env f ifc err s =
     (case err of None \<Rightarrow> (None, s) | Some e \<Rightarrow> (Some e, snd (deleteIfc env f ifc s)))"

definition plug_local :: "'s ovs_env \<Rightarrow> ovsFabric \<Rightarrow> LocalNetIfc \<Rightarrow> 's \<Rightarrow> string option \<times> 's" where
  "plug_local env f ifc s =
     (case createIfc env f (li_Name ifc) (li_GuestMAC ifc) s of
        (Some e, s1) \<Rightarrow> (Some e, s1)
      | (None, s1) \<Rightarrow>
          (case getIfcOFport env f (li_Name ifc) s1 of
             (Inl e, s2) \<Rightarrow> delete_on_error env f (li_Name ifc) (Some e) s2
           | (Inr ofPort, s2) \<Rightarrow>
               (case addLocalIfcFlows env f ofPort (li_VNI ifc) (li_GuestMAC ifc) (li_GuestIP ifc) s2 of
                  (err, s3) \<Rightarrow> delete_on_error env f (li_Name ifc) err s3)))"

definition lock_failed :: "IP \<Rightarrow> uint32 \<Rightarrow> string \<Rightarrow> string" where
  "lock_failed ip vni e = ''failed to lock IP '' @ ip_String ip @ '' in VNI '' @ sprintf_sharp_x vni @ '': '' @ e"

definition ovs_CreateLocalIfc :: "'s ovs_env \<Rightarrow> ovsFabric \<times> 's \<Rightarrow> LocalNetIfc \<Rightarrow> (go_panic, string option \<times> ovsFabric \<times> 's) result" where
  "ovs_CreateLocalIfc env w ifc =
     (case lockVNIIPPair (li_VNI ifc) (li_GuestIP ifc) (fst w) of
        Inl p \<Rightarrow> Inl p
      | Inr (Some e, f) \<Rightarrow> Inr (Some (lock_failed (li_GuestIP ifc) (li_VNI ifc) e), f, snd w)
      | Inr (None, f) \<Rightarrow>
          (case plug_local env f ifc (snd w) of
             (err, s) \<Rightarrow> unlock_on_error (li_VNI ifc) (li_GuestIP ifc) err (f, s)))"

definition ovs_DeleteLocalIfc :: "'s ovs_env \<Rightarrow> ovsFabric \<times> 's \<Rightarrow> LocalNetIfc \<Rightarrow> (go_panic, string option \<times> ovsFabric \<times> 's) result" where
  "ovs_DeleteLocalIfc env w ifc =
     (let f = fst w in
      case getIfcOFport env f (li_Name ifc) (snd w) of
        (Inl e, s1) \<Rightarrow> Inr (Some e, f, s1)
      | (Inr ofPort, s1) \<Rightarrow>
          (case deleteLocalIfcFlows env f ofPort (li_VNI ifc) (li_GuestMAC ifc) (li_GuestIP ifc) s1 of
             (Some e, s2) \<Rightarrow> Inr (Some e, f, s2)
           | (None, s2) \<Rightarrow>
               (case deleteIfc env f (li_Name ifc) s2 of
                  (Some e, s3) \<Rightarrow> Inr (Some e, f, s3)
                | (None, s3) \<Rightarrow>
                    (case unlockVNIIPPair (li_VNI ifc) (li_GuestIP ifc) f of
                       Inl p \<Rightarrow> Inl p
                     | Inr f' \<Rightarrow> Inr (None, f', s3)))))"

definition ovs_CreateRemoteIfc :: "'s ovs_env \<Rightarrow> ovsFabric \<times> 's \<Rightarrow> RemoteNetIfc \<Rightarrow> (go_panic, string option \<times> ovsFabric \<times> 's) result" where
  "ovs_CreateRemoteIfc env w ifc =
     (case lockVNIIPPair (ri_VNI ifc) (ri_GuestIP ifc) (fst w) of
        Inl p \<Rightarrow> Inl p
      | Inr (Some e, f) \<Rightarrow> Inr (Some (lock_failed (ri_GuestIP ifc) (ri_VNI ifc) e), f, snd w)
      | Inr (None, f) \<Rightarrow>
          (case addRemoteIfcFlows env f (ri_VNI ifc) (ri_GuestMAC ifc) (ri_HostIP ifc) (ri_GuestIP ifc) (snd w) of
             (err, s) \<Rightarrow> unlock_on_error (ri_VNI ifc) (ri_GuestIP ifc) err (f, s)))"

definition ovs_DeleteRemoteIfc :: "'s ovs_env \<Rightarrow> ovsFabric \<times> 's \<Rightarrow> RemoteNetIfc \<Rightarrow> (go_panic, string option \<times> ovsFabric \<times> 's) result" where
  "ovs_DeleteRemoteIfc env w ifc =
     (let f = fst w in
      case deleteRemoteIfcFlows env f (ri_VNI ifc) (ri_GuestMAC ifc) (ri_GuestIP ifc) (snd w) of
        (Some e, s1) \<Rightarrow> Inr (Some e, f, s1)
      | (None, s1) \<Rightarrow>
          (case unlockVNIIPPair (ri_VNI ifc) (ri_GuestIP ifc) f of
             Inl p \<Rightarrow> Inl p
           | Inr f' \<Rightarrow> Inr (None, f', s1)))"

end
