(* ===== verification/OVS_Listing.thy ===== *)
theory OVS_Listing
  imports OVS
begin

text \<open>
  The listing of interfaces of the Open vSwitch fabric: the flows and the ports that the tools
  print are parsed, paired and turned into interfaces. Also the start of the fabric and the
  fabric as a record of operations.
\<close>

section \<open>Kinds of flows\<close>

definition isTunneling :: "string \<Rightarrow> bool" where
  "isTunneling flow \<longleftrightarrow> contains flow ''in_port''"

definition isLocal :: "string \<Rightarrow> bool" where
  "isLocal flow \<longleftrightarrow> contains flow ''in_port'' \<or> contains flow ''actions=output:''"

definition isRemote :: "string \<Rightarrow> bool" where
  "isRemote flow \<longleftrightarrow> contains flow remoteFlowsFingerprint"

definition isARP :: "string \<Rightarrow> bool" where
  "isARP flow \<longleftrightarrow> contains flow arpFlowsFingerprint"

fun onlyUsefulLocalFlowsFunc :: "string list \<Rightarrow> string list" where
  "onlyUsefulLocalFlowsFunc [] = []"
| "onlyUsefulLocalFlowsFunc (aFlow # flows) =
     (if isLocal aFlow \<and> \<not> isTunneling aFlow then aFlow # onlyUsefulLocalFlowsFunc flows
      else onlyUsefulLocalFlowsFunc flows)"

fun onlyRemoteFlowsFunc :: "string list \<Rightarrow> string list" where
  "onlyRemoteFlowsFunc [] = []"
| "onlyRemoteFlowsFunc (aFlow # flows) =
     (if isRemote aFlow then aFlow # onlyRemoteFlowsFunc flows else onlyRemoteFlowsFunc flows)"

definition parseGetFlowsOutput :: "string \<Rightarrow> string list" where
  "parseGetFlowsOutput output = split_on newline output"

section \<open>Fields of flows\<close>

definition arpOrDlTrafficFlowOFport :: "ovsFabric \<Rightarrow> string \<Rightarrow> string" where
  "arpOrDlTrafficFlowOFport f flow =
     FindString (kit_decNbr (flowParsingKit f)) (FindString (kit_output (flowParsingKit f)) flow)"

definition usefulLocalFlowOFport :: "ovsFabric \<Rightarrow> string \<Rightarrow> uint16" where
  "usefulLocalFlowOFport f flow = parseOFport (arpOrDlTrafficFlowOFport f flow)"

definition extractVNI :: "ovsFabric \<Rightarrow> string \<Rightarrow> uint32" where
  "extractVNI f flow =
     (let vniHex = FindString (kit_hexNbr (flowParsingKit f)) (FindString (kit_tunID (flowParsingKit f)) flow)
      in of_nat (fst (ParseUint (TrimLeft vniHex hexPrefixChars) 16 32)))"

definition hexStrToIPv4 :: "string \<Rightarrow> IP" where
  "hexStrToIPv4 hexStr =
     (let i = of_nat (fst (ParseUint (TrimLeft hexStr hexPrefixChars) 16 32)) :: uint32
      in IPv4 (ucast (drop_bit 24 i)) (ucast (drop_bit 16 i)) (ucast (drop_bit 8 i)) (ucast i))"

definition extractHostIP :: "ovsFabric \<Rightarrow> string \<Rightarrow> IP" where
  "extractHostIP f flow =
     hexStrToIPv4 (FindString (kit_hexNbr (flowParsingKit f)) (FindString (kit_load (flowParsingKit f)) flow))"

definition extractGuestIP :: "ovsFabric \<Rightarrow> string \<Rightarrow> IP" where
  "extractGuestIP f flow =
     ParseIP (FindString (kit_ipv4 (flowParsingKit f)) (FindString (kit_arpTPA (flowParsingKit f)) flow))"

definition extractGuestMAC :: "ovsFabric \<Rightarrow> string \<Rightarrow> HardwareAddr" where
  "extractGuestMAC f flow =
     (case ParseMAC (FindString (kit_mac (flowParsingKit f)) flow) of Inl _ \<Rightarrow> [] | Inr mac \<Rightarrow> mac)"

definition extractCookie :: "ovsFabric \<Rightarrow> string \<Rightarrow> string" where
  "extractCookie f flow =
     FindString (kit_hexNbr (flowParsingKit f)) (FindString (kit_cookie (flowParsingKit f)) flow)"

section \<open>Pairs of flows\<close>

text \<open>Appending a flow to the list under its key, as \<open>m[key] = append(m[key], flow)\<close>.\<close>

definition add_to_group :: "('f \<Rightarrow> 'k) \<Rightarrow> 'f \<Rightarrow> ('k \<times> 'f list) list \<Rightarrow> ('k \<times> 'f list) list" where
  "add_to_group key aFlow m =
     AList.update (key aFlow) ((case map_of m (key aFlow) of None \<Rightarrow> [] | Some fs \<Rightarrow> fs) @ [aFlow]) m"

fun group_flows :: "('f \<Rightarrow> 'k) \<Rightarrow> 'f list \<Rightarrow> ('k \<times> 'f list) list \<Rightarrow> ('k \<times> 'f list) list" where
  "group_flows key [] m = m"
| "group_flows key (aFlow # flows) m = group_flows key flows (add_to_group key aFlow m)"

definition ofPortToLocalFlowsPairs :: "ovsFabric \<Rightarrow> string list \<Rightarrow> (uint16 \<times> string list) list" where
  "ofPortToLocalFlowsPairs f flows = group_flows (usefulLocalFlowOFport f) flows []"

definition pairRemoteFlowsPerIfc :: "(string list \<Rightarrow> string list) \<Rightarrow> ovsFabric \<Rightarrow> string list \<Rightarrow> string list list" where
  "pairRemoteFlowsPerIfc iter f flows =
     (let flowPairs = group_flows (extractCookie f) flows []
      in map (\<lambda>cookie. the (map_of flowPairs cookie)) (iter (map fst flowPairs)))"

fun parse_local_flows :: "ovsFabric \<Rightarrow> string list \<Rightarrow> LocalNetIfc \<Rightarrow> LocalNetIfc" where
  "parse_local_flows f [] ifc = ifc"
| "parse_local_flows f (aFlow # flows) ifc =
     parse_local_flows f flows
       (if isARP aFlow then ifc\<lparr>li_GuestIP := extractGuestIP f aFlow\<rparr>
        else ifc\<lparr>li_GuestMAC := extractGuestMAC f aFlow\<rparr>)"

definition parseLocalFlowPair :: "ovsFabric \<Rightarrow> string list \<Rightarrow> (go_panic, LocalNetIfc) result" where
  "parseLocalFlowPair f flowsPair =
     (if flowsPair = [] then Inl IndexOutOfRange
      else Inr (parse_local_flows f flowsPair
        \<lparr>li_Name = [], li_VNI = extractVNI f (hd flowsPair), li_GuestMAC = [], li_GuestIP = []\<rparr>))"

fun parse_remote_flows :: "ovsFabric \<Rightarrow> string list \<Rightarrow> RemoteNetIfc \<Rightarrow> RemoteNetIfc" where
  "parse_remote_flows f [] ifc = ifc"
| "parse_remote_flows f (aFlow # flows) ifc =
     parse_remote_flows f flows
       (if isARP aFlow then ifc\<lparr>ri_GuestIP := extractGuestIP f aFlow\<rparr>
        else ifc\<lparr>ri_GuestMAC := extractGuestMAC f aFlow\<rparr>)"

definition parseRemoteFlowPair :: "ovsFabric \<Rightarrow> string list \<Rightarrow> (go_panic, RemoteNetIfc) result" where
  "parseRemoteFlowPair f flowsPair =
     (if flowsPair = [] then Inl IndexOutOfRange
      else Inr (parse_remote_flows f flowsPair
        \<lparr>ri_VNI = extractVNI f (hd flowsPair), ri_GuestMAC = [], ri_GuestIP = [],
         ri_HostIP = extractHostIP f (hd flowsPair)\<rparr>))"

text \<open>Both elements of a pair are arguments of a log call, so a pair with one flow panics.\<close>

definition log_pair :: "string list \<Rightarrow> (go_panic, unit) result" where
  "log_pair aPair = (if length aPair < 2 then Inl IndexOutOfRange else Inr ())"

fun parseLocalFlowsPairs :: "ovsFabric \<Rightarrow> (uint16 \<times> string list) list \<Rightarrow> (go_panic, (uint16 \<times> LocalNetIfc) list) result" where
  "parseLocalFlowsPairs f [] = Inr []"
| "parseLocalFlowsPairs f ((ofPort, aPair) # pairs) =
     (case log_pair aPair of
        Inl p \<Rightarrow> Inl p
      | Inr _ \<Rightarrow>
          (case parseLocalFlowPair f aPair of
             Inl p \<Rightarrow> Inl p
           | Inr ifc \<Rightarrow>
               (case parseLocalFlowsPairs f pairs of Inl p \<Rightarrow> Inl p | Inr ifcs \<Rightarrow> Inr ((ofPort, ifc) # ifcs))))"

fun parseRemoteFlowsPairs :: "ovsFabric \<Rightarrow> string list list \<Rightarrow> (go_panic, RemoteNetIfc list) result" where
  "parseRemoteFlowsPairs f [] = Inr []"
| "parseRemoteFlowsPairs f (aPair # pairs) =
     (case log_pair aPair of
        Inl p \<Rightarrow> Inl p
      | Inr _ \<Rightarrow>
          (case parseRemoteFlowPair f aPair of
             Inl p \<Rightarrow> Inl p
           | Inr ifc \<Rightarrow> (case parseRemoteFlowsPairs f pairs of Inl p \<Rightarrow> Inl p | Inr ifcs \<Rightarrow> Inr (ifc # ifcs))))"

section \<open>Ports and names\<close>

definition parseOFportAndIfcName :: "ovsFabric \<Rightarrow> string \<Rightarrow> (uint16 \<times> string) list \<Rightarrow> (go_panic, (uint16 \<times> string) list) result" where
  "parseOFportAndIfcName f ofPortAndNameJoined ofPortToIfcName =
     (case string_fields ofPortAndNameJoined of
        port # quoted # _ \<Rightarrow>
          (let name = Trim quoted [CHR 0x22] in
           Inr (if name \<noteq> vtep f \<and> name \<noteq> bridge f then AList.update (parseOFport port) name ofPortToIfcName
                else ofPortToIfcName))
      | _ \<Rightarrow> Inl IndexOutOfRange)"

fun parse_ports :: "ovsFabric \<Rightarrow> string list \<Rightarrow> (uint16 \<times> string) list \<Rightarrow> (go_panic, (uint16 \<times> string) list) result" where
  "parse_ports f [] m = Inr m"
| "parse_ports f (pair # pairs) m =
     (case parseOFportAndIfcName f pair m of Inl p \<Rightarrow> Inl p | Inr m' \<Rightarrow> parse_ports f pairs m')"

definition parseOFportsAndIfcNames :: "ovsFabric \<Rightarrow> string \<Rightarrow> (go_panic, (uint16 \<times> string) list) result" where
  "parseOFportsAndIfcNames f raw = parse_ports f (split_on newline raw) []"

fun nameIfcs :: "(uint16 \<times> string) list \<Rightarrow> (uint16 \<rightharpoonup> LocalNetIfc) \<Rightarrow> LocalNetIfc list \<times> string list" where
  "nameIfcs [] ofPortToIfc = ([], [])"
| "nameIfcs ((ofPort, name) # names) ofPortToIfc =
     (let (completeIfcs, incompleteIfcs) = nameIfcs names ofPortToIfc in
      case ofPortToIfc ofPort of
        None \<Rightarrow> (completeIfcs, name # incompleteIfcs)
      | Some ifc \<Rightarrow> (ifc\<lparr>li_Name := name\<rparr> # completeIfcs, incompleteIfcs))"

fun deleteIncompleteIfcs :: "'s ovs_env \<Rightarrow> ovsFabric \<Rightarrow> string list \<Rightarrow> 's \<Rightarrow> 's" where
  "deleteIncompleteIfcs env f [] s = s"
| "deleteIncompleteIfcs env f (anIfc # ifcs) s = deleteIncompleteIfcs env f ifcs (snd (deleteIfc env f anIfc s))"

section \<open>Listing\<close>

definition getOFportsToLocalIfcNames :: "'s ovs_env \<Rightarrow> ovsFabric \<Rightarrow> 's
    \<Rightarrow> (go_panic, (string, (uint16 \<times> string) list) result \<times> 's) result" where
  "getOFportsToLocalIfcNames env f s =
     (case CombinedOutput env s newListOFportsAndIfcNamesCmd of
        ((out, err), s') \<Rightarrow>
          (let outStr = TrimRight out [newline] in
           case err of
             Some e \<Rightarrow> Inr (Inl (''failed to list local ifcs names and ofPorts: '' @ e @ '': '' @ outStr), s')
           | None \<Rightarrow>
               (case parseOFportsAndIfcNames f outStr of Inl p \<Rightarrow> Inl p | Inr m \<Rightarrow> Inr (Inr m, s'))))"

definition getFlows :: "'s ovs_env \<Rightarrow> ovsFabric \<Rightarrow> 's \<Rightarrow> (string, string list) result \<times> 's" where
  "getFlows env f s =
     (case CombinedOutput env s (newGetFlowsCmd f) of
        ((out, err), s') \<Rightarrow>
          (let outStr = TrimRight out [newline] in
           case err of
             Some e \<Rightarrow> (Inl (''failed to list flows for bridge '' @ bridge f @ '': '' @ e @ '': '' @ outStr), s')
           | None \<Rightarrow> (Inr (parseGetFlowsOutput outStr), s')))"

definition getUsefulLocalFlows :: "'s ovs_env \<Rightarrow> ovsFabric \<Rightarrow> 's \<Rightarrow> (string, string list) result \<times> 's" where
  "getUsefulLocalFlows env f s =
     (case getFlows env f s of
        (Inl e, s') \<Rightarrow> (Inl e, s')
      | (Inr flows, s') \<Rightarrow> (Inr (onlyUsefulLocalFlowsFunc flows), s'))"

definition getRemoteFlows :: "'s ovs_env \<Rightarrow> ovsFabric \<Rightarrow> 's \<Rightarrow> (string, string list) result \<times> 's" where
  "getRemoteFlows env f s =
     (case getFlows env f s of
        (Inl e, s') \<Rightarrow> (Inl e, s')
      | (Inr flows, s') \<Rightarrow> (Inr (onlyRemoteFlowsFunc flows), s'))"

text \<open>The loops that lock the addresses of what was found; the errors are dropped.\<close>

fun lock_pairs :: "(uint32 \<times> IP) list \<Rightarrow> ovsFabric \<Rightarrow> (go_panic, ovsFabric) result" where
  "lock_pairs [] f = Inr f"
| "lock_pairs ((vni, ip) # pairs) f =
     (case lockVNIIPPair vni ip f of Inl p \<Rightarrow> Inl p | Inr (_, f') \<Rightarrow> lock_pairs pairs f')"

definition in_order :: "('k list \<Rightarrow> 'k list) \<Rightarrow> ('k \<times> 'v) list \<Rightarrow> ('k \<times> 'v) list" where
  "in_order iter m = map (\<lambda>k. (k, the (map_of m k))) (iter (map fst m))"

definition ovs_ListLocalIfcs :: "'s ovs_env \<Rightarrow> ovsFabric \<times> 's \<Rightarrow> (go_panic, (string, LocalNetIfc list) result \<times> ovsFabric \<times> 's) result" where
  "ovs_ListLocalIfcs env w =
     (let f = fst w in
      case getOFportsToLocalIfcNames env f (snd w) of
        Inl p \<Rightarrow> Inl p
      | Inr (Inl e, s1) \<Rightarrow> Inr (Inl e, f, s1)
      | Inr (Inr ofPortToIfcName, s1) \<Rightarrow>
          (case getUsefulLocalFlows env f s1 of
             (Inl e, s2) \<Rightarrow> Inr (Inl e, f, s2)
           | (Inr localFlows, s2) \<Rightarrow>
               (case parseLocalFlowsPairs f (in_order (port_order env) (ofPortToLocalFlowsPairs f localFlows)) of
                  Inl p \<Rightarrow> Inl p
                | Inr ofPortToNamelessIfc \<Rightarrow>
                    (let (completeIfcs, incompleteIfcs) =
                           nameIfcs (in_order (port_order env) ofPortToIfcName) (map_of ofPortToNamelessIfc);
                         s3 = deleteIncompleteIfcs env f incompleteIfcs s2
                     in case lock_pairs (map (\<lambda>i. (li_VNI i, li_GuestIP i)) completeIfcs) f of
                          Inl p \<Rightarrow> Inl p
                        | Inr f' \<Rightarrow> Inr (Inr completeIfcs, f', s3)))))"

definition ovs_ListRemoteIfcs :: "'s ovs_env \<Rightarrow> ovsFabric \<times> 's \<Rightarrow> (go_panic, (string, RemoteNetIfc list) result \<times> ovsFabric \<times> 's) result" where
  "ovs_ListRemoteIfcs env w =
     (let f = fst w in
      case getRemoteFlows env f (snd w) of
        (Inl e, s1) \<Rightarrow> Inr (Inl e, f, s1)
      | (Inr flows, s1) \<Rightarrow>
          (case parseRemoteFlowsPairs f (pairRemoteFlowsPerIfc (cookie_order env) f flows) of
             Inl p \<Rightarrow> Inl p
           | Inr ifcs \<Rightarrow>
               (case lock_pairs (map (\<lambda>i. (ri_VNI i, ri_GuestIP i)) ifcs) f of
                  Inl p \<Rightarrow> Inl p
                | Inr f' \<Rightarrow> Inr (Inr ifcs, f', s1))))"

section \<open>Start\<close>

definition initBridge :: "'s ovs_env \<Rightarrow> string \<Rightarrow> ovsFabric \<Rightarrow> 's \<Rightarrow> (string option \<times> ovsFabric) \<times> 's" where
  "initBridge env name f0 s =
     (let f = f0\<lparr>bridge := name, vtep := ''vtep''\<rparr> in
      case createBridge env f s of
        (Some e, s1) \<Rightarrow> ((Some e, f), s1)
      | (None, s1) \<Rightarrow>
          (case addVTEP env f s1 of
             (Some e, s2) \<Rightarrow> ((Some e, f), s2)
           | (None, s2) \<Rightarrow>
               (case getIfcOFport env f (vtep f) s2 of
                  (Inl e, s3) \<Rightarrow> ((Some e, f), s3)
                | (Inr port, s3) \<Rightarrow>
                    (let f' = f\<lparr>vtepOFport := port\<rparr> in
                     case addDefaultFlows env f' s3 of (err, s4) \<Rightarrow> ((err, f'), s4)))))"

definition newFactory :: "'s ovs_env \<Rightarrow> string \<Rightarrow> 's \<Rightarrow> (string, ovsFabric) result \<times> 's" where
  "newFactory env br s =
     (let f = initFlowsParsingKit \<lparr>bridge = [], vtep = [], vtepOFport = 0, flowParsingKit = kit, lockedVNIIPPairs = {}\<rparr> in
      case initBridge env br f s of
        ((Some e, _), s') \<Rightarrow> (Inl (''failed to create OvS network fabric: '' @ e), s')
      | ((None, f'), s') \<Rightarrow> (Inr f', s'))"

definition ovs_fabric :: "'s ovs_env \<Rightarrow> (ovsFabric \<times> 's) fabric" where
  "ovs_fabric env = \<lparr>fabric_Name = ovs_name,
     CreateLocalIfc = ovs_CreateLocalIfc env, DeleteLocalIfc = ovs_DeleteLocalIfc env,
     CreateRemoteIfc = ovs_CreateRemoteIfc env, DeleteRemoteIfc = ovs_DeleteRemoteIfc env,
     ListLocalIfcs = ovs_ListLocalIfcs env, ListRemoteIfcs = ovs_ListRemoteIfcs env\<rparr>"

definition ovs_init :: "'s ovs_env \<Rightarrow> (string \<times> ('s \<Rightarrow> (string, ovsFabric) result \<times> 's)) list
    \<Rightarrow> (factory_panic, (string \<times> ('s \<Rightarrow> (string, ovsFabric) result \<times> 's)) list) result" where
  "ovs_init env registry = RegisterFactory registry (newFactory env ''kos'') ovs_name"

end
