(* ===== verification/OVS_Text.thy ===== *)
theory OVS_Text
  imports OVS_Listing
begin

text \<open>
  The text of flows: a number, an address or a hardware address printed after its key is found
  again by the regular expressions and parsed to the same value, whatever surrounds it.
\<close>

section \<open>Preferred matches\<close>

text \<open>\<open>r\<close> prefers to match \<open>m\<close> when \<open>s\<close> follows.\<close>

definition prefers :: "regexp \<Rightarrow> string \<Rightarrow> string \<Rightarrow> bool" where
  "prefers r m s \<longleftrightarrow> (\<exists>ts. rests r (m @ s) = s # ts)"

lemma prefers_Lit [simp]: "prefers (Lit l) l s"
  by (simp add: prefers_def)

lemma prefers_Seq: "prefers r m (n @ s) \<Longrightarrow> prefers q n s \<Longrightarrow> prefers (Seq r q) (m @ n) s"
  unfolding prefers_def by fastforce

lemma prefers_Rep_0: "prefers (Rep 0 r) [] s"
  by (simp add: prefers_def)

lemma prefers_Rep_Suc: "prefers r m (n @ s) \<Longrightarrow> prefers (Rep k r) n s \<Longrightarrow> prefers (Rep (Suc k) r) (m @ n) s"
  unfolding prefers_def by fastforce

lemma FindString_prefers: "prefers r m s \<Longrightarrow> FindString r (m @ s) = m"
  unfolding prefers_def using FindString_here by blast

lemma prefers_Many:
  "ds \<noteq> [] \<Longrightarrow> list_all (in_class cl) ds \<Longrightarrow> s = [] \<or> \<not> in_class cl (hd s) \<Longrightarrow> prefers (Many cl) ds s"
  unfolding prefers_def using many_rests_run by simp

section \<open>Finding a key\<close>

lemma contains_suffix: "contains q pat \<Longrightarrow> contains (p @ q) pat"
  unfolding contains_iff by (metis append.assoc)

lemma key_not_earlier:
  assumes key: "key = k @ [e]" "e \<notin> set k" and q: "q \<noteq> []" "\<not> contains q key"
  shows "take (length key) (q @ key @ s) \<noteq> key"
proof
  assume t: "take (length key) (q @ key @ s) = key"
  show False
  proof (cases "length key \<le> length q")
    case True
    with t have "q = [] @ key @ drop (length key) q" by (metis append_Nil append_take_drop_id take_append
          diff_is_0_eq' take0 append_Nil2)
    with q(2) show False unfolding contains_iff by blast
  next
    case False
    let ?i = "length k - length q"
    have "0 < length q" "length key = Suc (length k)" using q(1) key(1) by simp_all
    then have i: "length k = length q + ?i" "?i < length k" using False by linarith+
    have "e = (take (length key) (q @ key @ s)) ! length k" unfolding t by (simp add: key(1))
    also have "\<dots> = (q @ key @ s) ! length k" by (rule nth_take) (simp add: key(1))
    also have "\<dots> = (key @ s) ! ?i" using i by (metis add_diff_cancel_left' nth_append not_add_less1)
    also have "\<dots> = k ! ?i" using i(2) key(1) by (simp add: nth_append)
    finally show False using key(2) i(2) nth_mem by metis
  qed
qed

lemma FindString_key:
  assumes "key = k @ [e]" "e \<notin> set k" "\<not> contains pre key" "prefers r m s"
  shows "FindString (Seq (Lit key) r) (pre @ key @ m @ s) = key @ m"
proof -
  have "FindString (Seq (Lit key) r) (pre @ key @ m @ s) = FindString (Seq (Lit key) r) (key @ m @ s)"
  proof (rule FindString_after)
    fix p q
    assume "pre = p @ q" "q \<noteq> []"
    then have "take (length key) (q @ key @ m @ s) \<noteq> key"
      using key_not_earlier [OF assms(1,2), of q "m @ s"] contains_suffix assms(3) by blast
    then show "rests (Seq (Lit key) r) (q @ key @ m @ s) = []" by simp
  qed
  also have "\<dots> = key @ m"
    using FindString_prefers [OF prefers_Seq [OF prefers_Lit assms(4)], of key] by simp
  finally show ?thesis .
qed

text \<open>A prefix none of whose characters starts a match is skipped.\<close>

lemma FindString_skip_prefix:
  "(\<And>c t. c \<in> set pre \<Longrightarrow> rests r (c # t) = []) \<Longrightarrow> FindString r (pre @ s) = FindString r s"
  by (induction pre) (simp_all add: FindString_skip)

section \<open>Numbers\<close>

lemma in_class_digit:
  "d < 10 \<Longrightarrow> in_class [(48, 57)] (digit_char d)"
  "d < 16 \<Longrightarrow> in_class [(48, 57), (97, 102), (65, 70)] (digit_char d)"
  "d < 16 \<Longrightarrow> in_class hexCls (digit_char d)"
  by (auto simp: in_class_def of_char_digit_char hexCls_def)

lemma format_uint_class: "(\<And>d. d < b \<Longrightarrow> in_class cl (digit_char d)) \<Longrightarrow> 2 \<le> b \<Longrightarrow> list_all (in_class cl) (format_uint b n)"
  using digits_bound by (auto simp: format_uint_def list_all_iff)

definition no_digit :: "string \<Rightarrow> bool" where
  "no_digit s \<longleftrightarrow> s = [] \<or> \<not> in_class [(48, 57), (97, 102), (65, 70)] (hd s)"

lemma no_digit_dec: "no_digit s \<Longrightarrow> s = [] \<or> \<not> in_class [(48, 57)] (hd s)"
  by (auto simp: no_digit_def in_class_def)

lemma prefers_dec: "no_digit s \<Longrightarrow> prefers decNbrRegexp (sprintf_d x) s"
  unfolding decNbrRegexp_def sprintf_d_def
  by (rule prefers_Many) (auto simp: no_digit_dec intro: format_uint_class in_class_digit)

lemma prefers_hex: "no_digit s \<Longrightarrow> prefers hexNbrRegexp (sprintf_sharp_x x) s"
proof -
  assume s: "no_digit s"
  have "prefers (Many [(48, 57), (97, 102), (65, 70)]) (sprintf_x x) s" unfolding sprintf_x_def
    by (rule prefers_Many) (use s in \<open>auto simp: no_digit_def intro: format_uint_class in_class_digit\<close>)
  moreover have "prefers (Cls [(120, 120), (88, 88)]) ''x'' t" for t by (simp add: prefers_def in_class_def)
  ultimately have "prefers (Seq (Cls [(120, 120), (88, 88)]) (Many [(48, 57), (97, 102), (65, 70)])) (''x'' @ sprintf_x x) s"
    by (intro prefers_Seq)
  then have "prefers hexNbrRegexp (''0'' @ ''x'' @ sprintf_x x) s"
    unfolding hexNbrRegexp_def using prefers_Seq [OF prefers_Lit] by blast
  then show ?thesis by (simp add: sprintf_sharp_x_def)
qed

lemma FindString_dec: "\<forall>c\<in>set pre. \<not> in_class [(48, 57)] c \<Longrightarrow> FindString decNbrRegexp (pre @ sprintf_d x) = sprintf_d x"
  using FindString_prefers [OF prefers_dec [of "[]" x]]
  by (subst FindString_skip_prefix) (auto simp: decNbrRegexp_def no_digit_def)

lemma FindString_hex: "CHR ''0'' \<notin> set pre \<Longrightarrow> FindString hexNbrRegexp (pre @ sprintf_sharp_x x) = sprintf_sharp_x x"
  using FindString_prefers [OF prefers_hex [of "[]" x]]
  by (subst FindString_skip_prefix) (auto simp: hexNbrRegexp_def no_digit_def)

lemma hd_digits_pos: "2 \<le> b \<Longrightarrow> 0 < n \<Longrightarrow> hd (digits b n) \<noteq> 0"
proof (induction b n rule: digits.induct)
  case (1 b n)
  show ?case
  proof (cases "n < b")
    case True
    then show ?thesis using "1.prems" by (simp add: digits.simps [of b n])
  next
    case False
    then have "0 < n div b" using "1.prems" by (simp add: div_greater_zero_iff)
    with 1 False show ?thesis by (subst digits.simps) simp
  qed
qed

lemma digit_char_0: "d < 16 \<Longrightarrow> digit_char d \<in> set hexPrefixChars \<longleftrightarrow> d = 0"
proof -
  assume d: "d < 16"
  have "digit_char d = c \<longleftrightarrow> of_char (digit_char d) = (of_char c :: nat)" for c by simp
  then show ?thesis using d by (simp add: hexPrefixChars_def of_char_digit_char)
qed

lemma ParseUint_hex: "fst (ParseUint (TrimLeft (sprintf_sharp_x (x::uint32)) hexPrefixChars) 16 32) = unat x"
proof -
  have pre: "TrimLeft (sprintf_sharp_x x) hexPrefixChars = TrimLeft (sprintf_x x) hexPrefixChars"
    by (simp add: TrimLeft_def sprintf_sharp_x_def hexPrefixChars_def)
  show ?thesis
  proof (cases "unat x = 0")
    case True
    then have "TrimLeft (sprintf_x x) hexPrefixChars = []"
      by (simp add: TrimLeft_def sprintf_x_def format_uint_def digits.simps digit_char_0)
    with pre True show ?thesis by (simp add: ParseUint_def)
  next
    case False
    obtain d ds where ds: "digits 16 (unat x) = d # ds" by (cases "digits 16 (unat x)") auto
    have "d \<noteq> 0" "d < 16" using hd_digits_pos [of 16 "unat x"] digits_bound [of 16 d "unat x"] False ds by auto
    then have "digit_char d \<notin> set hexPrefixChars" by (simp add: digit_char_0)
    then have "TrimLeft (sprintf_x x) hexPrefixChars = format_uint 16 (unat x)"
      using ds by (simp add: TrimLeft_def sprintf_x_def format_uint_def)
    with pre show ?thesis using unat_lt32 [of x] by (simp add: ParseUint_format_uint)
  qed
qed

lemma parseOFport_text: "parseOFport (sprintf_d (p::uint16)) = p"
proof -
  have "unat p < 2 ^ 16" using unsigned_less [of p] by simp
  then show ?thesis by (simp add: parseOFport_def sprintf_d_def ParseUint_format_uint)
qed

section \<open>Addresses\<close>

lemma dec_byte: "sprintf_d (a::uint8) =
    (if unat a < 10 then [digit_char (unat a)]
     else if unat a < 100 then [digit_char (unat a div 10), digit_char (unat a mod 10)]
     else [digit_char (unat a div 100), digit_char (unat a div 10 mod 10), digit_char (unat a mod 10)])"
  using unat_lt8 [of a]
  by (simp add: sprintf_d_def format_uint_def digits.simps [of 10 "unat a"] digits.simps [of 10 "unat a div 10"]
      digits.simps [of 10 "unat a div 100"] div_mult2_eq [symmetric])
    (auto simp: digits.simps [of 10 "unat a div 100"])

lemma in_class_range: "d < 10 \<Longrightarrow> in_class [(a, b)] (digit_char d) \<longleftrightarrow> a \<le> 48 + d \<and> 48 + d \<le> b"
  by (simp add: in_class_def of_char_digit_char)

lemma digit_char_eq: "d < 10 \<Longrightarrow> digit_char d = CHR ''2'' \<longleftrightarrow> d = 2" "d < 10 \<Longrightarrow> digit_char d = CHR ''5'' \<longleftrightarrow> d = 5"
proof -
  assume d: "d < 10"
  have "digit_char d = c \<longleftrightarrow> of_char (digit_char d) = (of_char c :: nat)" for c by simp
  then show "digit_char d = CHR ''2'' \<longleftrightarrow> d = 2" "digit_char d = CHR ''5'' \<longleftrightarrow> d = 5"
    using d by (simp_all add: of_char_digit_char)
qed

lemma not_in_class_dec:
  "\<not> in_class [(48, 57)] c \<Longrightarrow> \<not> in_class [(48, 53)] c \<and> \<not> in_class [(48, 52)] c \<and> \<not> in_class [(48, 49)] c \<and> c \<noteq> CHR ''5'' \<and> c \<noteq> CHR ''2''"
  by (auto simp: in_class_def)

lemma octet_fails: "\<not> in_class [(48, 57)] c \<Longrightarrow> rests octetRegexp (c # t) = []"
  using not_in_class_dec [of c] by (simp add: octetRegexp_def)

lemma prefers_octet_cases:
  assumes s: "s = [] \<or> \<not> in_class [(48, 57)] (hd s)"
  shows "d < 10 \<Longrightarrow> prefers octetRegexp [digit_char d] s"
    and "0 < d \<Longrightarrow> d < 10 \<Longrightarrow> e < 10 \<Longrightarrow> prefers octetRegexp [digit_char d, digit_char e] s"
    and "d < 3 \<Longrightarrow> 0 < d \<Longrightarrow> e < 10 \<Longrightarrow> g < 10 \<Longrightarrow> 100 * d + 10 * e + g < 256 \<Longrightarrow>
      prefers octetRegexp [digit_char d, digit_char e, digit_char g] s"
  using s not_in_class_dec [of "hd s"]
  by (cases s; auto simp: prefers_def octetRegexp_def in_class_range digit_char_eq)+

lemma decimal_places: "(n::nat) = 100 * (n div 100) + 10 * (n div 10 mod 10) + n mod 10"
proof -
  have "n div 100 = n div 10 div 10" by (simp add: div_mult2_eq [symmetric])
  moreover have "n = 10 * (n div 10) + n mod 10" "n div 10 = 10 * (n div 10 div 10) + n div 10 mod 10" by simp_all
  ultimately show ?thesis by linarith
qed

lemma prefers_octet: "no_digit s \<Longrightarrow> prefers octetRegexp (sprintf_d (a::uint8)) s"
proof -
  assume "no_digit s"
  then have s: "s = [] \<or> \<not> in_class [(48, 57)] (hd s)" by (rule no_digit_dec)
  let ?n = "unat a"
  have n: "100 * (?n div 100) + 10 * (?n div 10 mod 10) + ?n mod 10 < 256" "?n < 256"
    using unat_lt8 [of a] decimal_places [of ?n] by simp_all
  consider "?n < 10" | "10 \<le> ?n" "?n < 100" | "100 \<le> ?n" by linarith
  then show ?thesis
  proof cases
    case 2
    then show ?thesis using prefers_octet_cases(2) [OF s, of "?n div 10" "?n mod 10"] by (simp add: dec_byte)
  next
    case 3
    have "?n div 100 < 3" "0 < ?n div 100" using 3 n(2) by linarith+
    then show ?thesis using prefers_octet_cases(3) [OF s, of "?n div 100" "?n div 10 mod 10" "?n mod 10"] 3 n
      by (simp add: dec_byte)
  qed (simp add: dec_byte prefers_octet_cases(1) [OF s])
qed

lemma prefers_ipv4: "no_digit s \<Longrightarrow> prefers ipv4Regexp (v4_String [a, b, c, d]) s"
proof -
  assume s: "no_digit s"
  have dot: "prefers (Seq octetRegexp (Lit ''.'')) (sprintf_d x @ ''.'') t" for x :: uint8 and t
    by (intro prefers_Seq prefers_octet) (simp_all add: no_digit_def in_class_def)
  have "prefers (Rep 3 (Seq octetRegexp (Lit ''.'')))
      ((sprintf_d a @ ''.'') @ (sprintf_d b @ ''.'') @ (sprintf_d c @ ''.'') @ []) t" for t
    unfolding numeral_3_eq_3 by (intro prefers_Rep_Suc prefers_Rep_0 dot)
  from prefers_Seq [OF this prefers_octet [OF s]] show ?thesis
    by (simp add: ipv4Regexp_def v4_String_four)
qed

lemma FindString_ipv4:
  assumes "\<forall>c\<in>set pre. \<not> in_class [(48, 57)] c"
  shows "FindString ipv4Regexp (pre @ v4_String [a, b, c, d]) = v4_String [a, b, c, d]"
proof -
  have "rests ipv4Regexp (x # t) = []" if "x \<in> set pre" for x t
    using octet_fails [of x t] assms that by (simp add: ipv4Regexp_def numeral_3_eq_3)
  then show ?thesis using FindString_prefers [OF prefers_ipv4 [of "[]"]]
    by (subst FindString_skip_prefix) (auto simp: no_digit_def)
qed

section \<open>Hardware addresses\<close>

lemma hex_byte: "sprintf_02x (b::uint8) = [digit_char (unat b div 16), digit_char (unat b mod 16)]"
  using unat_lt8 [of b]
  by (auto simp: sprintf_02x_def sprintf_x_def format_uint_def pad0_def digits.simps [of 16 "unat b"]
      digits.simps [of 16 "unat b div 16"])

lemma xtoi2_hex: "xtoi2 (sprintf_02x b @ s) e = (if s \<noteq> [] \<and> hd s \<noteq> e then None else Some b)"
proof -
  have d: "unat b div 16 < 16" "unat b mod 16 < 16" using unat_lt8 [of b] by linarith+
  have "toi 16 (sprintf_02x b) = (unat b, 2, True)"
    using d unat_lt8 [of b] by (simp add: hex_byte toi_def)
  then show ?thesis by (cases s) (simp_all add: xtoi2_def hex_byte)
qed

lemma hw_String_Cons: "hw_String (b # bs) = sprintf_02x b @ (if bs = [] then [] else CHR '':'' # hw_String bs)"
  by (cases bs) (simp_all add: hw_String_def)

lemma mac_bytes_String: "mac_bytes (length mac) (CHR '':'') (hw_String mac) = Some mac"
proof (induction mac)
  case (Cons b mac)
  then show ?case by (simp add: xtoi2_hex hw_String_Cons [of b mac])
qed simp

lemma length_hw_String: "mac \<noteq> [] \<Longrightarrow> length (hw_String mac) = 3 * length mac - 1"
  by (induction mac) (auto simp: hw_String_Cons)

lemma ParseMAC_String: "length mac = 6 \<Longrightarrow> ParseMAC (hw_String mac) = Inr mac"
proof -
  assume mac: "length mac = 6"
  then obtain b c bs where "mac = b # c # bs" by (cases mac; cases "tl mac") auto
  then have "hw_String mac ! 2 = CHR '':''" by (simp add: hw_String_Cons nth_append)
  moreover have "length (hw_String mac) = 17" using mac length_hw_String [of mac] by force
  ultimately show ?thesis using mac_bytes_String [of mac] mac by (simp add: ParseMAC_def Let_def)
qed

end
