(* ===== verification/OVS_Flows.thy ===== *)
theory OVS_Flows
  imports OVS_Text
begin

text \<open>
  The lines that \<open>ovs-ofctl dump-flows\<close> prints for the flows of an interface, and what the
  fabric reads out of them. Every line starts with the statistics of the flow, of which only
  what they do not contain matters.
\<close>

section \<open>Substrings\<close>

lemma contains_notin: "c \<in> set pat \<Longrightarrow> c \<notin> set s \<Longrightarrow> \<not> contains s pat"
  by (auto simp: contains_iff)

lemma contains_prefix: "contains p pat \<Longrightarrow> contains (p @ q) pat"
  unfolding contains_iff by (metis append.assoc)

text \<open>A pattern without the separator lies on one side of it.\<close>

lemma contains_sep:
  assumes "c \<notin> set pat" "pat \<noteq> []"
  shows "contains (xs @ c # ys) pat \<longleftrightarrow> contains xs pat \<or> contains ys pat"
proof
  assume "contains (xs @ c # ys) pat"
  then obtain us vs where e: "xs @ c # ys = us @ pat @ vs" unfolding contains_iff by blast
  with assms(2) consider ws where "us = xs @ c # ws" "ys = ws @ pat @ vs" | ws where "xs = us @ ws" "ws @ c # ys = pat @ vs"
    by (auto simp: append_eq_append_conv2 Cons_eq_append_conv)
  then show "contains xs pat \<or> contains ys pat"
  proof cases
    case 1
    then show ?thesis unfolding contains_iff by blast
  next
    case 2
    from 2(2) consider zs where "ws = pat @ zs" | zs where "pat = ws @ c # zs" | "pat = ws"
      by (auto simp: append_eq_append_conv2 Cons_eq_append_conv)
    then show ?thesis using assms(1) 2(1) unfolding contains_iff by cases (auto intro: exI [of _ us])
  qed
next
  assume "contains xs pat \<or> contains ys pat"
  then show "contains (xs @ c # ys) pat"
    using contains_prefix [of xs pat "c # ys"] contains_suffix [of ys pat "xs @ [c]"] by auto
qed

section \<open>The lines\<close>

definition dl_line :: "string \<Rightarrow> uint32 \<Rightarrow> HardwareAddr \<Rightarrow> string \<Rightarrow> string" where
  "dl_line stats vni mac actions =
     stats @ '' tun_id='' @ sprintf_sharp_x vni @ '',dl_dst='' @ hw_String mac @ '' actions='' @ actions"

definition arp_line :: "string \<Rightarrow> uint32 \<Rightarrow> IP \<Rightarrow> string \<Rightarrow> string" where
  "arp_line stats vni ip actions =
     stats @ '' arp,tun_id='' @ sprintf_sharp_x vni @ '',arp_tpa='' @ ip_String ip @ '' actions='' @ actions"

definition output_action :: "uint16 \<Rightarrow> string" where
  "output_action ofPort = ''output:'' @ sprintf_d ofPort"

text \<open>The switch prints the tunnel destination as a number that it loads into a register.\<close>

definition tunnel_action :: "uint32 \<Rightarrow> uint16 \<Rightarrow> string" where
  "tunnel_action hostIP ofPort = ''load:'' @ sprintf_sharp_x hostIP @ ''->NXM_NX_TUN_IPV4_DST[],output:'' @ sprintf_d ofPort"

definition plain_stats :: "string \<Rightarrow> bool" where
  "plain_stats stats \<longleftrightarrow> CHR '':'' \<notin> set stats \<and> CHR ''-'' \<notin> set stats \<and> newline \<notin> set stats \<and>
     \<not> contains stats ''tun_id'' \<and> \<not> contains stats ''arp'' \<and> \<not> contains stats ''in_port'' \<and>
     \<not> contains stats remoteFlowsFingerprint"

text \<open>The statistics of a remote flow: the cookie in hexadecimal first.\<close>

definition cookie_stats :: "64 word \<Rightarrow> string \<Rightarrow> string" where
  "cookie_stats cookie rest = '' cookie='' @ sprintf_sharp_x cookie @ '', '' @ rest"

section \<open>Characters of the parts\<close>

definition hex_char :: "char \<Rightarrow> bool" where
  "hex_char c \<longleftrightarrow> c \<in> set ''0123456789abcdef''"

lemma digit_char_hex: "d < 16 \<Longrightarrow> hex_char (digit_char d)"
proof -
  have "\<forall>d\<in>set [0..<16]. hex_char (digit_char d)" by code_simp
  then show "d < 16 \<Longrightarrow> hex_char (digit_char d)" by simp
qed

lemma format_uint_hex: "c \<in> set (format_uint b n) \<Longrightarrow> 2 \<le> b \<Longrightarrow> b \<le> 16 \<Longrightarrow> hex_char c"
  using digits_bound [of b] digit_char_hex by (fastforce simp: format_uint_def)

lemma set_hw_String: "c \<in> set (hw_String mac) \<Longrightarrow> hex_char c \<or> c = CHR '':''"
proof (induction mac)
  case (Cons b mac)
  have "unat b div 16 < 16" "unat b mod 16 < 16" using unat_lt8 [of b] by linarith+
  then have "hex_char x" if "x \<in> set (sprintf_02x b)" for x using that digit_char_hex by (auto simp: hex_byte)
  with Cons show ?case by (auto simp: hw_String_Cons split: if_splits)
qed (simp add: hw_String_def)

lemma set_v4_String: "c \<in> set (v4_String [a, b, d, e]) \<Longrightarrow> hex_char c \<or> c = CHR ''.''"
  using format_uint_hex [of c 10] by (auto simp: v4_String_four sprintf_d_def)

lemma part_chars:
  "hex_char c \<or> c = CHR '':'' \<or> c \<notin> set (hw_String mac)"
  "hex_char c \<or> c \<notin> set (sprintf_d x)"
  "hex_char c \<or> c \<notin> set (sprintf_x x)"
  "hex_char c \<or> c = CHR ''.'' \<or> c \<notin> set (v4_String [i, j, k, l])"
  using set_hw_String [of c mac] set_v4_String [of c i j k l] format_uint_hex [of c 10] format_uint_hex [of c 16]
  by (auto simp: sprintf_d_def sprintf_x_def)

lemma part_lacks:
  "\<not> hex_char c \<Longrightarrow> c \<noteq> CHR '':'' \<Longrightarrow> c \<notin> set (hw_String mac)"
  "\<not> hex_char c \<Longrightarrow> c \<notin> set (sprintf_d x)"
  "\<not> hex_char c \<Longrightarrow> c \<notin> set (sprintf_x x)"
  "\<not> hex_char c \<Longrightarrow> c \<noteq> CHR ''.'' \<Longrightarrow> c \<notin> set (v4_String [i, j, k, l])"
  using part_chars by blast+

lemma part_contains:
  "list_ex (\<lambda>c. \<not> hex_char c) pat \<Longrightarrow> \<not> contains (sprintf_d x) pat"
  "list_ex (\<lambda>c. \<not> hex_char c) pat \<Longrightarrow> \<not> contains (sprintf_x x) pat"
  "list_ex (\<lambda>c. \<not> hex_char c \<and> c \<noteq> CHR '':'') pat \<Longrightarrow> \<not> contains (hw_String mac) pat"
  "list_ex (\<lambda>c. \<not> hex_char c \<and> c \<noteq> CHR ''.'') pat \<Longrightarrow> \<not> contains (v4_String [i, j, k, l]) pat"
  using contains_notin part_lacks by (fastforce simp: list_ex_iff)+

lemma stats_lack:
  assumes "plain_stats stats"
  shows "\<not> contains stats ''tun_id=''" "\<not> contains stats ''arp_tpa=''" "\<not> contains stats ''output:''"
    "\<not> contains stats ''actions=output:''" "\<not> contains stats ''load:''" "\<not> contains stats ''arp''"
    "\<not> contains stats ''in_port''" "\<not> contains stats ''NXM_NX_TUN_IPV4_DST''"
proof -
  have longer: "contains s (p @ q) \<Longrightarrow> contains s p" for s p q unfolding contains_iff by auto
  show "\<not> contains stats ''tun_id=''" "\<not> contains stats ''arp_tpa=''"
    using assms longer [of stats "''tun_id''" "''=''"] longer [of stats "''arp''" "''_tpa=''"] by (auto simp: plain_stats_def)
qed (use assms contains_notin [of "CHR '':''" _ stats] in \<open>auto simp: plain_stats_def remoteFlowsFingerprint_def\<close>)

lemmas line_defs = dl_line_def arp_line_def output_action_def tunnel_action_def sprintf_sharp_x_def

lemmas line_simps = line_defs contains_sep part_contains hex_char_def

section \<open>Kinds of lines\<close>

lemma local_line_kinds:
  assumes "plain_stats stats"
  shows "isLocal (dl_line stats vni mac (output_action p))" "\<not> isTunneling (dl_line stats vni mac (output_action p))"
    "\<not> isARP (dl_line stats vni mac (output_action p))"
    and "isLocal (arp_line stats vni (IPv4 a b c d) (output_action p))"
      "\<not> isTunneling (arp_line stats vni (IPv4 a b c d) (output_action p))"
      "isARP (arp_line stats vni (IPv4 a b c d) (output_action p))"
  using stats_lack [OF assms]
  by (simp_all add: isLocal_def isTunneling_def isARP_def arpFlowsFingerprint_def ip_String_def line_simps)

lemma remote_line_kinds:
  assumes "plain_stats stats"
  shows "isRemote (dl_line stats vni mac (tunnel_action h p))" "\<not> isARP (dl_line stats vni mac (tunnel_action h p))"
    "\<not> isLocal (dl_line stats vni mac (tunnel_action h p))"
    and "isRemote (arp_line stats vni (IPv4 a b c d) (tunnel_action h p))"
      "isARP (arp_line stats vni (IPv4 a b c d) (tunnel_action h p))"
      "\<not> isLocal (arp_line stats vni (IPv4 a b c d) (tunnel_action h p))"
  using stats_lack [OF assms]
  by (simp_all add: isLocal_def isARP_def isRemote_def arpFlowsFingerprint_def remoteFlowsFingerprint_def ip_String_def line_simps)

section \<open>Fields\<close>

lemma extractVNI_at:
  assumes "flowParsingKit f = kit" "\<not> contains pre ''tun_id=''" "no_digit s"
  shows "extractVNI f (pre @ ''tun_id='' @ sprintf_sharp_x vni @ s) = vni"
proof -
  have "FindString tunIDRegexp (pre @ ''tun_id='' @ sprintf_sharp_x vni @ s) = ''tun_id='' @ sprintf_sharp_x vni"
    unfolding tunIDRegexp_def by (rule FindString_key [of _ "''tun_id''" "CHR ''=''", OF _ _ assms(2) prefers_hex [OF assms(3)]]) simp_all
  then show ?thesis using assms(1) FindString_hex [of "''tun_id=''" vni] ParseUint_hex [of vni]
    by (simp add: extractVNI_def kit_def)
qed

lemma hexStrToIPv4_text: "hexStrToIPv4 (sprintf_sharp_x (be_or a b c d)) = IPv4 a b c d"
proof -
  have "of_nat (fst (ParseUint (TrimLeft (sprintf_sharp_x (be_or a b c d)) hexPrefixChars) 16 32)) = be_or a b c d"
    by (simp add: ParseUint_hex)
  then show ?thesis using be_bytes_or [of a b c d] by (simp add: hexStrToIPv4_def be_bytes_def)
qed

lemma extractHostIP_at:
  assumes "flowParsingKit f = kit" "\<not> contains pre ''load:''" "no_digit s"
  shows "extractHostIP f (pre @ ''load:'' @ sprintf_sharp_x (be_or a b c d) @ s) = IPv4 a b c d"
proof -
  let ?x = "sprintf_sharp_x (be_or a b c d)"
  have "FindString loadRegexp (pre @ ''load:'' @ ?x @ s) = ''load:'' @ ?x"
    unfolding loadRegexp_def by (rule FindString_key [of _ "''load''" "CHR '':''", OF _ _ assms(2) prefers_hex [OF assms(3)]]) simp_all
  then show ?thesis using assms(1) FindString_hex [of "''load:''" "be_or a b c d"] hexStrToIPv4_text
    by (simp add: extractHostIP_def kit_def)
qed

lemma extractCookie_at:
  assumes "flowParsingKit f = kit" "\<not> contains pre ''cookie=''" "no_digit s"
  shows "extractCookie f (pre @ ''cookie='' @ sprintf_sharp_x c @ s) = sprintf_sharp_x c"
proof -
  have "FindString cookieRegexp (pre @ ''cookie='' @ sprintf_sharp_x c @ s) = ''cookie='' @ sprintf_sharp_x c"
    unfolding cookieRegexp_def by (rule FindString_key [of _ "''cookie''" "CHR ''=''", OF _ _ assms(2) prefers_hex [OF assms(3)]]) simp_all
  then show ?thesis using assms(1) FindString_hex [of "''cookie=''" c]
    by (simp add: extractCookie_def kit_def)
qed

lemma extractGuestIP_at:
  assumes "flowParsingKit f = kit" "\<not> contains pre ''arp_tpa=''" "no_digit s"
  shows "extractGuestIP f (pre @ ''arp_tpa='' @ ip_String (IPv4 a b c d) @ s) = IPv4 a b c d"
proof -
  let ?x = "v4_String [a, b, c, d]"
  have ip: "ip_String (IPv4 a b c d) = ?x" by (simp add: ip_String_def)
  have "FindString arpTPARegexp (pre @ ''arp_tpa='' @ ?x @ s) = ''arp_tpa='' @ ?x"
    unfolding arpTPARegexp_def by (rule FindString_key [of _ "''arp_tpa''" "CHR ''=''", OF _ _ assms(2) prefers_ipv4 [OF assms(3)]]) simp_all
  moreover have "FindString ipv4Regexp (''arp_tpa='' @ ?x) = ?x"
    by (rule FindString_ipv4) (simp add: in_class_def)
  moreover have "ParseIP ?x = IPv4 a b c d" using ParseIP_String [of "IPv4 a b c d"] ip by (simp add: IPv4_def [symmetric])
  ultimately show ?thesis using assms(1) ip by (simp add: extractGuestIP_def kit_def)
qed

lemma usefulLocalFlowOFport_at:
  assumes "flowParsingKit f = kit" "\<not> contains pre ''output:''" "no_digit s"
  shows "usefulLocalFlowOFport f (pre @ ''output:'' @ sprintf_d p @ s) = p"
proof -
  have "FindString outputRegexp (pre @ ''output:'' @ sprintf_d p @ s) = ''output:'' @ sprintf_d p"
    unfolding outputRegexp_def by (rule FindString_key [of _ "''output''" "CHR '':''", OF _ _ assms(2) prefers_dec [OF assms(3)]]) simp_all
  moreover have "FindString decNbrRegexp (''output:'' @ sprintf_d p) = sprintf_d p"
    by (rule FindString_dec) (simp add: in_class_def)
  ultimately show ?thesis using assms(1) parseOFport_text
    by (simp add: usefulLocalFlowOFport_def arpOrDlTrafficFlowOFport_def kit_def)
qed

text \<open>The first pair of hexadecimal digits before a colon or a dash starts the hardware address.\<close>

lemma prefers_mac_byte: "prefers (Rep 2 (Cls hexCls)) (sprintf_02x b) s"
proof -
  have "unat b div 16 < 16" "unat b mod 16 < 16" using unat_lt8 [of b] by linarith+
  then show ?thesis using in_class_digit(3) by (simp add: prefers_def hex_byte numeral_2_eq_2)
qed

lemma prefers_mac: "length mac = 6 \<Longrightarrow> prefers macRegexp (hw_String mac) s"
proof -
  let ?sep = "Seq (Rep 2 (Cls hexCls)) (Cls [(58, 58), (45, 45)])"
  have sep: "prefers ?sep (sprintf_02x x @ '':'') t" for x t
    by (intro prefers_Seq prefers_mac_byte) (simp add: prefers_def in_class_def)
  assume "length mac = 6"
  then obtain a b c d e f where mac: "mac = [a, b, c, d, e, f]" by (auto simp: length_Suc_conv numeral_eq_Suc)
  have five: "5 = Suc (Suc (Suc (Suc (Suc 0))))" by simp
  have "prefers (Rep 5 ?sep) ((sprintf_02x a @ '':'') @ (sprintf_02x b @ '':'') @ (sprintf_02x c @ '':'') @
      (sprintf_02x d @ '':'') @ (sprintf_02x e @ '':'') @ []) t" for t
    unfolding five by (intro prefers_Rep_Suc prefers_Rep_0 sep)
  from prefers_Seq [OF this prefers_mac_byte [of f]] show ?thesis
    by (simp add: macRegexp_def mac hw_String_def)
qed

lemma mac_third:
  assumes "\<not> in_class [(58, 58), (45, 45)] z"
  shows "rests macRegexp (x # y # z # t) = []"
proof -
  have five: "5 = Suc (Suc (Suc (Suc (Suc 0))))" by simp
  have "rests (Seq (Rep 2 (Cls hexCls)) (Cls [(58, 58), (45, 45)])) (x # y # z # t) = []"
    using assms by (simp add: numeral_2_eq_2)
  then show ?thesis unfolding macRegexp_def five by simp
qed

lemma mac_not_earlier:
  assumes "mac \<noteq> []" "q \<noteq> []" "CHR '':'' \<notin> set q" "CHR ''-'' \<notin> set q"
  shows "rests macRegexp (q @ hw_String mac @ s) = []"
proof -
  obtain b bs where mac: "mac = b # bs" using assms(1) by (cases mac) auto
  have d: "unat b div 16 < 16" "unat b mod 16 < 16" using unat_lt8 [of b] by linarith+
  have nosep: "\<not> in_class [(58, 58), (45, 45)] (digit_char x)" if "x < 16" for x
    using that by (simp add: in_class_def of_char_digit_char)
  have sep: "\<not> in_class [(58, 58), (45, 45)] x" if "CHR '':'' \<noteq> x" "CHR ''-'' \<noteq> x" for x
  proof
    assume "in_class [(58, 58), (45, 45)] x"
    then have "of_char x = (of_char CHR '':'' :: nat) \<or> of_char x = (of_char CHR ''-'' :: nat)" by (auto simp: in_class_def)
    then show False using that unfolding of_char_eq_iff by blast
  qed
  consider x where "q = [x]" | x y where "q = [x, y]" | x y z t where "q = x # y # z # t"
    using assms(2) by (metis list.exhaust)
  then show ?thesis
    by cases (use assms(3,4) d nosep sep mac_third in \<open>simp_all add: mac hw_String_Cons hex_byte\<close>)
qed

lemma extractGuestMAC_at:
  assumes "flowParsingKit f = kit" "CHR '':'' \<notin> set pre" "CHR ''-'' \<notin> set pre" "length mac = 6"
  shows "extractGuestMAC f (pre @ hw_String mac @ s) = mac"
proof -
  have "FindString macRegexp (pre @ hw_String mac @ s) = FindString macRegexp (hw_String mac @ s)"
    using assms by (intro FindString_after mac_not_earlier) auto
  also have "\<dots> = hw_String mac" by (rule FindString_prefers [OF prefers_mac [OF assms(4)]])
  finally show ?thesis using assms(1,4) by (simp add: extractGuestMAC_def kit_def ParseMAC_String)
qed

section \<open>Reading the lines\<close>

lemma no_digit_literal: "no_digit []" "no_digit (CHR '','' # s)" "no_digit (CHR '' '' # s)" "no_digit (CHR ''-'' # s)"
  by (simp_all add: no_digit_def in_class_def)

lemma dl_line_fields:
  assumes "flowParsingKit f = kit" "plain_stats stats" "length mac = 6"
  shows "extractVNI f (dl_line stats vni mac act) = vni" "extractGuestMAC f (dl_line stats vni mac act) = mac"
proof -
  have "\<not> contains (stats @ '' '') ''tun_id=''" using stats_lack(1) [OF assms(2)] by (simp add: contains_sep)
  from extractVNI_at [OF assms(1) this no_digit_literal(2)] show "extractVNI f (dl_line stats vni mac act) = vni"
    by (simp add: dl_line_def)
  have "CHR '':'' \<notin> set (stats @ '' tun_id='' @ sprintf_sharp_x vni @ '',dl_dst='')"
    "CHR ''-'' \<notin> set (stats @ '' tun_id='' @ sprintf_sharp_x vni @ '',dl_dst='')"
    using assms(2) by (simp_all add: plain_stats_def part_lacks hex_char_def sprintf_sharp_x_def)
  from extractGuestMAC_at [OF assms(1) this assms(3)] show "extractGuestMAC f (dl_line stats vni mac act) = mac"
    by (simp add: dl_line_def)
qed

lemma arp_line_fields:
  assumes "flowParsingKit f = kit" "plain_stats stats"
  shows "extractVNI f (arp_line stats vni ip act) = vni"
    "extractGuestIP f (arp_line stats vni (IPv4 a b c d) act) = IPv4 a b c d"
proof -
  have "\<not> contains (stats @ '' arp,'') ''tun_id=''" using stats_lack(1) [OF assms(2)] by (simp add: contains_sep)
  from extractVNI_at [OF assms(1) this no_digit_literal(2)] show "extractVNI f (arp_line stats vni ip act) = vni"
    by (simp add: arp_line_def)
  have "\<not> contains (stats @ '' arp,tun_id='' @ sprintf_sharp_x vni @ '','') ''arp_tpa=''"
    using stats_lack(2) [OF assms(2)] by (simp add: line_simps)
  from extractGuestIP_at [OF assms(1) this no_digit_literal(3)]
  show "extractGuestIP f (arp_line stats vni (IPv4 a b c d) act) = IPv4 a b c d" by (simp add: arp_line_def)
qed

lemma local_line_ports:
  assumes "flowParsingKit f = kit" "plain_stats stats"
  shows "usefulLocalFlowOFport f (dl_line stats vni mac (output_action p)) = p"
    "usefulLocalFlowOFport f (arp_line stats vni (IPv4 a b c d) (output_action p)) = p"
proof -
  have "\<not> contains (stats @ '' tun_id='' @ sprintf_sharp_x vni @ '',dl_dst='' @ hw_String mac @ '' actions='') ''output:''"
    using stats_lack(3) [OF assms(2)] by (simp add: line_simps)
  from usefulLocalFlowOFport_at [OF assms(1) this no_digit_literal(1), of p]
  show "usefulLocalFlowOFport f (dl_line stats vni mac (output_action p)) = p" by (simp add: dl_line_def output_action_def)
  have "\<not> contains (stats @ '' arp,tun_id='' @ sprintf_sharp_x vni @ '',arp_tpa='' @ ip_String (IPv4 a b c d) @ '' actions='') ''output:''"
    using stats_lack(3) [OF assms(2)] by (simp add: line_simps ip_String_def)
  from usefulLocalFlowOFport_at [OF assms(1) this no_digit_literal(1), of p]
  show "usefulLocalFlowOFport f (arp_line stats vni (IPv4 a b c d) (output_action p)) = p"
    by (simp add: arp_line_def output_action_def)
qed

lemma remote_line_hosts:
  assumes "flowParsingKit f = kit" "plain_stats stats"
  shows "extractHostIP f (dl_line stats vni mac (tunnel_action (be_or i j k l) p)) = IPv4 i j k l"
    "extractHostIP f (arp_line stats vni (IPv4 a b c d) (tunnel_action (be_or i j k l) p)) = IPv4 i j k l"
proof -
  have "\<not> contains (stats @ '' tun_id='' @ sprintf_sharp_x vni @ '',dl_dst='' @ hw_String mac @ '' actions='') ''load:''"
    using stats_lack(5) [OF assms(2)] by (simp add: line_simps)
  from extractHostIP_at [OF assms(1) this no_digit_literal(4)]
  show "extractHostIP f (dl_line stats vni mac (tunnel_action (be_or i j k l) p)) = IPv4 i j k l"
    by (simp add: dl_line_def tunnel_action_def)
  have "\<not> contains (stats @ '' arp,tun_id='' @ sprintf_sharp_x vni @ '',arp_tpa='' @ ip_String (IPv4 a b c d) @ '' actions='') ''load:''"
    using stats_lack(5) [OF assms(2)] by (simp add: line_simps ip_String_def)
  from extractHostIP_at [OF assms(1) this no_digit_literal(4)]
  show "extractHostIP f (arp_line stats vni (IPv4 a b c d) (tunnel_action (be_or i j k l) p)) = IPv4 i j k l"
    by (simp add: arp_line_def tunnel_action_def)
qed

lemma line_cookies:
  assumes "flowParsingKit f = kit"
  shows "extractCookie f (dl_line (cookie_stats c rest) vni mac act) = sprintf_sharp_x c"
    "extractCookie f (arp_line (cookie_stats c rest) vni ip act) = sprintf_sharp_x c"
  using extractCookie_at [OF assms, of "'' ''" _ c] no_digit_literal(2)
  by (simp_all add: dl_line_def arp_line_def cookie_stats_def)

end
