(* ===== verification/OVS_Pairs.thy ===== *)
theory OVS_Pairs
  imports OVS_Flows
begin

text \<open>
  Grouping of flows by a key, the listing of ports and names, and the text of several lines: the
  lemmas from which the listings of local and remote interfaces are proved.
\<close>

section \<open>Groups\<close>

lemma map_of_group_flows:
  "map_of (group_flows key xs m) k =
     (let ys = filter (\<lambda>x. key x = k) xs in
      case map_of m k of None \<Rightarrow> if ys = [] then None else Some ys | Some zs \<Rightarrow> Some (zs @ ys))"
  by (induction xs arbitrary: m) (auto simp: add_to_group_def update_conv' Let_def split: option.splits)

lemma distinct_group_flows: "distinct (map fst m) \<Longrightarrow> distinct (map fst (group_flows key xs m))"
  by (induction xs arbitrary: m) (simp_all add: add_to_group_def distinct_update)

lemma group_flows_new: "map_of (group_flows key xs []) k =
    (let ys = filter (\<lambda>x. key x = k) xs in if ys = [] then None else Some ys)"
  by (simp add: map_of_group_flows)

lemma group_flows_keys: "set (map fst (group_flows key xs [])) = key ` set xs"
proof -
  have "k \<in> set (map fst (group_flows key xs [])) \<longleftrightarrow> k \<in> key ` set xs" for k
    using group_flows_new [of key xs k] map_of_eq_None_iff [of "group_flows key xs []" k]
    by (auto simp: Let_def filter_empty_conv image_iff split: if_splits)
  then show ?thesis by blast
qed

lemma filter_group:
  assumes "distinct (map fst ents)" "\<And>e l. e \<in> set ents \<Longrightarrow> l \<in> set (ll e) \<Longrightarrow> key l = fst e" "e \<in> set ents"
  shows "filter (\<lambda>l. key l = fst e) (concat (map ll ents)) = ll e"
  using assms
proof (induction ents)
  case (Cons d ents)
  have "key l = fst d" if "l \<in> set (ll d)" for l using Cons.prems(2) [of d l] that by simp
  then have d: "filter (\<lambda>l. key l = fst e) (ll d) = (if fst d = fst e then ll d else [])"
    by (simp add: filter_empty_conv filter_id_conv)
  show ?case
  proof (cases "e = d")
    case True
    have "key l \<noteq> fst e" if "e' \<in> set ents" "l \<in> set (ll e')" for e' l
    proof -
      have "key l = fst e'" using Cons.prems(2) [of e' l] that by simp
      then show ?thesis using Cons.prems(1) True that(1) by (auto simp: image_iff)
    qed
    then have "filter (\<lambda>l. key l = fst e) (concat (map ll ents)) = []" by (auto simp: filter_empty_conv)
    then show ?thesis using d True by simp
  next
    case False
    then have "e \<in> set ents" "fst d \<noteq> fst e" using Cons.prems by (auto simp: image_iff)
    then show ?thesis using Cons d by simp
  qed
qed simp

section \<open>Iteration over a map\<close>

definition permutes :: "('k list \<Rightarrow> 'k list) \<Rightarrow> bool" where
  "permutes iter \<longleftrightarrow> (\<forall>ks. mset (iter ks) = mset ks)"

lemma mset_in_order:
  assumes "permutes iter" "distinct (map fst m)"
  shows "mset (in_order iter m) = mset m"
proof -
  have "mset (in_order iter m) = image_mset (\<lambda>k. (k, the (map_of m k))) (mset (map fst m))"
    using assms(1) by (simp add: in_order_def permutes_def)
  also have "\<dots> = mset (map (\<lambda>e. (fst e, the (map_of m (fst e)))) m)" by (simp add: image_mset.compositionality comp_def)
  also have "map (\<lambda>e. (fst e, the (map_of m (fst e)))) m = m"
    using assms(2) by (intro map_idI) (auto simp: prod_eq_iff)
  finally show ?thesis .
qed

lemma map_of_in_order: "permutes iter \<Longrightarrow> distinct (map fst m) \<Longrightarrow> map_of (in_order iter m) = map_of m"
proof -
  assume a: "permutes iter" "distinct (map fst m)"
  have ms: "mset (in_order iter m) = mset m" by (rule mset_in_order [OF a])
  then have "mset (map fst (in_order iter m)) = mset (map fst m)" by (simp flip: image_mset_union)
  then have "distinct (map fst (in_order iter m))" using a(2) mset_eq_imp_distinct_iff by blast
  then show ?thesis using a(2) mset_eq_setD [OF ms] by (simp add: map_of_inject_set)
qed

section \<open>Pairs\<close>

abbreviation read_local :: "ovsFabric \<Rightarrow> string list \<Rightarrow> LocalNetIfc" where
  "read_local f q \<equiv> parse_local_flows f q \<lparr>li_Name = [], li_VNI = extractVNI f (hd q), li_GuestMAC = [], li_GuestIP = []\<rparr>"

abbreviation read_remote :: "ovsFabric \<Rightarrow> string list \<Rightarrow> RemoteNetIfc" where
  "read_remote f q \<equiv> parse_remote_flows f q
     \<lparr>ri_VNI = extractVNI f (hd q), ri_GuestMAC = [], ri_GuestIP = [], ri_HostIP = extractHostIP f (hd q)\<rparr>"

lemma parseLocalFlowsPairs_map:
  "\<forall>(k, pair)\<in>set m. 2 \<le> length pair \<Longrightarrow>
   parseLocalFlowsPairs f m = Inr (map (\<lambda>(k, pair). (k, read_local f pair)) m)"
  by (induction m) (auto simp: log_pair_def parseLocalFlowPair_def)

lemma parseRemoteFlowsPairs_map:
  "\<forall>pair\<in>set m. 2 \<le> length pair \<Longrightarrow>
   parseRemoteFlowsPairs f m = Inr (map (read_remote f) m)"
  by (induction m) (auto simp: log_pair_def parseRemoteFlowPair_def)

lemma mset_pair: "mset xs = {#a, b#} \<Longrightarrow> xs = [a, b] \<or> xs = [b, a]"
proof -
  assume ms: "mset xs = {#a, b#}"
  then have "length xs = 2" by (metis size_mset size_add_mset size_empty One_nat_def Suc_1)
  then obtain x y where "xs = [x, y]" by (auto simp: length_Suc_conv numeral_2_eq_2)
  with ms show ?thesis by (auto simp: add_eq_conv_ex)
qed

section \<open>Lines\<close>

lemma TrimRight_line: "s = [] \<or> last s \<noteq> c \<Longrightarrow> TrimRight (s @ [c]) [c] = s"
proof -
  assume "s = [] \<or> last s \<noteq> c"
  then have "dropWhile (\<lambda>x. x = c) (rev s) = rev s" by (cases s rule: rev_cases) auto
  then show ?thesis by (simp add: TrimRight_def)
qed

lemma last_join: "ss \<noteq> [] \<Longrightarrow> last ss \<noteq> [] \<Longrightarrow> join sep ss \<noteq> [] \<and> last (join sep ss) = last (last ss)"
  by (induction sep ss rule: join.induct) auto

lemma lines_of_output:
  assumes "ls \<noteq> []" "\<forall>l\<in>set ls. l \<noteq> [] \<and> newline \<notin> set l"
  shows "split_on newline (TrimRight (join [newline] ls @ [newline]) [newline]) = ls"
proof -
  have "last ls \<in> set ls" using assms(1) by simp
  then have "last ls \<noteq> []" "last (last ls) \<noteq> newline" using assms(2) last_in_set by (fastforce, metis last_in_set)
  then have "TrimRight (join [newline] ls @ [newline]) [newline] = join [newline] ls"
    using last_join [OF assms(1)] by (intro TrimRight_line) simp
  then show ?thesis using split_on_join [of ls newline] assms by simp
qed

section \<open>Ports and names\<close>

text \<open>A line of the table of ports: the port, some spaces and the quoted name.\<close>

definition port_line :: "(uint16 \<Rightarrow> nat) \<Rightarrow> uint16 \<times> string \<Rightarrow> string" where
  "port_line pad e = sprintf_d (fst e) @ replicate (Suc (pad (fst e))) CHR '' '' @ CHR 0x22 # snd e @ [CHR 0x22]"

definition plain_name :: "string \<Rightarrow> bool" where
  "plain_name name \<longleftrightarrow> (\<forall>c\<in>set name. \<not> ascii_space c \<and> c \<noteq> CHR 0x22)"

lemma Trim_quotes: "plain_name name \<Longrightarrow> Trim (CHR 0x22 # name @ [CHR 0x22]) [CHR 0x22] = name"
proof (cases name)
  case (Cons c cs)
  assume "plain_name name"
  then have n: "c \<noteq> CHR 0x22" "last name \<noteq> CHR 0x22" using Cons last_in_set [of name] by (auto simp: plain_name_def)
  then have "TrimLeft (CHR 0x22 # name @ [CHR 0x22]) [CHR 0x22] = name @ [CHR 0x22]" using Cons by (simp add: TrimLeft_def)
  then show ?thesis using n(2) by (simp add: Trim_def TrimRight_line)
qed (simp add: Trim_def TrimLeft_def TrimRight_def)

lemma hex_not_space: "hex_char c \<Longrightarrow> \<not> ascii_space c"
  by (auto simp: hex_char_def ascii_space_def)

lemma string_fields_token:
  assumes "\<forall>c\<in>set sp. ascii_space c" "t \<noteq> []" "\<forall>c\<in>set t. \<not> ascii_space c" "s = [] \<or> ascii_space (hd s)"
  shows "string_fields (sp @ t @ s) = t # string_fields s"
proof -
  have d: "dropWhile ascii_space (sp @ t @ s) = t @ s" using assms(1-3) by (cases t) simp_all
  have "takeWhile (Not \<circ> ascii_space) (t @ s) = t" "dropWhile (Not \<circ> ascii_space) (t @ s) = s"
    using assms(3,4) by (cases s; simp)+
  moreover have "string_fields (sp @ t @ s) =
      takeWhile (Not \<circ> ascii_space) (t @ s) # string_fields (dropWhile (Not \<circ> ascii_space) (t @ s))"
    using d assms(2) by (subst string_fields.simps) (auto split: list.splits)
  ultimately show ?thesis by simp
qed

lemma fields_port_line:
  assumes "plain_name (snd e)"
  shows "string_fields (port_line pad e) = [sprintf_d (fst e), CHR 0x22 # snd e @ [CHR 0x22]]"
proof -
  let ?q = "CHR 0x22 # snd e @ [CHR 0x22]" and ?p = "sprintf_d (fst e)" and ?sp = "replicate (Suc (pad (fst e))) CHR '' ''"
  have q: "\<forall>c\<in>set ?q. \<not> ascii_space c" using assms by (auto simp: plain_name_def ascii_space_def)
  have p: "\<forall>c\<in>set ?p. \<not> ascii_space c" using part_chars(2) hex_not_space by blast
  have sp: "\<forall>c\<in>set ?sp. ascii_space c" by (simp add: ascii_space_def)
  have "string_fields (?sp @ ?q @ []) = [?q]"
    using string_fields_token [OF sp _ q, of "[]"] by (simp add: string_fields.simps [of "[]"])
  moreover have "string_fields ([] @ ?p @ (?sp @ ?q)) = ?p # string_fields (?sp @ ?q)"
    by (rule string_fields_token) (use p in \<open>simp_all add: ascii_space_def\<close>)
  ultimately show ?thesis by (simp add: port_line_def)
qed

lemma update_fresh: "k \<notin> fst ` set m \<Longrightarrow> AList.update k v m = m @ [(k, v)]"
  by (induction m) auto

lemma parse_ports_lines:
  assumes "\<forall>e\<in>set es. plain_name (snd e)" "distinct (map fst es)" "fst ` set es \<inter> fst ` set m = {}"
  shows "parse_ports f (map (port_line pad) es) m =
    Inr (m @ filter (\<lambda>e. snd e \<noteq> vtep f \<and> snd e \<noteq> bridge f) es)"
  using assms
proof (induction es arbitrary: m)
  case (Cons e es)
  have upd: "AList.update (fst e) (snd e) m = m @ [e]" using Cons.prems(3) by (simp add: update_fresh)
  have "parseOFportAndIfcName f (port_line pad e) m =
      Inr (m @ filter (\<lambda>e. snd e \<noteq> vtep f \<and> snd e \<noteq> bridge f) [e])"
    using Cons.prems(1) upd by (simp add: parseOFportAndIfcName_def fields_port_line Trim_quotes parseOFport_text Let_def)
  moreover have "fst ` set es \<inter> fst ` set (m @ filter (\<lambda>e. snd e \<noteq> vtep f \<and> snd e \<noteq> bridge f) [e]) = {}"
    using Cons.prems(2,3) by auto
  ultimately show ?case using Cons by simp
qed simp

lemma nameIfcs_eq:
  "nameIfcs nms M = (map (\<lambda>(p, n). (the (M p))\<lparr>li_Name := n\<rparr>) (filter (\<lambda>(p, n). M p \<noteq> None) nms),
     map snd (filter (\<lambda>(p, n). M p = None) nms))"
  by (induction nms M rule: nameIfcs.induct) (auto split: option.splits)

section \<open>Locks of a list\<close>

definition pair_of :: "uint32 \<Rightarrow> IP \<Rightarrow> vniAndIP" where
  "pair_of vni ip = \<lparr>pair_vni = vni, pair_ip = (case MakeUint32FromIPv4 ip of Inl _ \<Rightarrow> 0 | Inr i \<Rightarrow> i)\<rparr>"

definition addressable :: "IP \<Rightarrow> bool" where
  "addressable ip \<longleftrightarrow> (\<exists>i. MakeUint32FromIPv4 ip = Inr i)"

lemma addressable_IPv4 [simp]: "addressable (IPv4 a b c d)"
  by (simp add: addressable_def MakeUint32FromIPv4_IPv4)

lemma lock_pairs_eq:
  "\<forall>(vni, ip)\<in>set ps. addressable ip \<Longrightarrow>
   lock_pairs ps f = Inr (f\<lparr>lockedVNIIPPairs := lockedVNIIPPairs f \<union> (\<lambda>(vni, ip). pair_of vni ip) ` set ps\<rparr>)"
proof (induction ps arbitrary: f)
  case (Cons p ps)
  obtain vni ip where p: "p = (vni, ip)" by force
  then obtain i where i: "MakeUint32FromIPv4 ip = Inr i" using Cons.prems by (auto simp: addressable_def)
  have "\<exists>e. lockVNIIPPair vni ip f = Inr (e, f\<lparr>lockedVNIIPPairs := insert (pair_of vni ip) (lockedVNIIPPairs f)\<rparr>)"
    using i by (auto simp: lockVNIIPPair_def pair_of_def Let_def insert_absorb)
  then show ?case using Cons p by auto
qed simp

lemma lock_list:
  assumes "\<forall>i\<in>set xs. addressable (ip i)"
  shows "lock_pairs (map (\<lambda>i. (vni i, ip i)) xs) f =
    Inr (f\<lparr>lockedVNIIPPairs := lockedVNIIPPairs f \<union> (\<lambda>i. pair_of (vni i) (ip i)) ` set xs\<rparr>)"
  using assms lock_pairs_eq [of "map (\<lambda>i. (vni i, ip i)) xs" f] by (simp add: image_image)

end
