(* ===== verification/OVS_List.thy ===== *)
theory OVS_List
  imports OVS_Pairs
begin

text \<open>
  The listings of the Open vSwitch fabric: from the flows and ports of a switch they recover the
  interfaces, in whatever order the switch prints them and Go iterates over the maps.
\<close>

section \<open>Local interfaces\<close>

definition ifc_ok :: "LocalNetIfc \<Rightarrow> bool" where
  "ifc_ok i \<longleftrightarrow> length (li_GuestMAC i) = 6 \<and> (\<exists>a b c d. li_GuestIP i = IPv4 a b c d)"

definition local_lines :: "(uint16 \<Rightarrow> string) \<Rightarrow> (uint16 \<Rightarrow> string) \<Rightarrow> uint16 \<times> LocalNetIfc \<Rightarrow> string list" where
  "local_lines st st' e =
     [dl_line (st (fst e)) (li_VNI (snd e)) (li_GuestMAC (snd e)) (output_action (fst e)),
      arp_line (st' (fst e)) (li_VNI (snd e)) (li_GuestIP (snd e)) (output_action (fst e))]"

lemma onlyUseful_filter: "onlyUsefulLocalFlowsFunc ls = filter (\<lambda>l. isLocal l \<and> \<not> isTunneling l) ls"
  by (induction ls) simp_all

lemma onlyRemote_filter: "onlyRemoteFlowsFunc ls = filter isRemote ls"
  by (induction ls) simp_all

definition stats_ok :: "(uint16 \<Rightarrow> string) \<Rightarrow> bool" where
  "stats_ok st \<longleftrightarrow> (\<forall>p. plain_stats (st p))"

lemma local_lines_useful:
  assumes "stats_ok st" "stats_ok st'" "ifc_ok (snd e)" "l \<in> set (local_lines st st' e)"
  shows "isLocal l \<and> \<not> isTunneling l"
proof -
  obtain a b c d where ip: "li_GuestIP (snd e) = IPv4 a b c d" using assms(3) by (auto simp: ifc_ok_def)
  have "plain_stats (st (fst e))" "plain_stats (st' (fst e))" using assms(1,2) by (auto simp: stats_ok_def)
  then show ?thesis using assms(4) local_line_kinds unfolding local_lines_def ip by auto
qed

lemma local_lines_port:
  assumes "flowParsingKit f = kit" "stats_ok st" "stats_ok st'" "ifc_ok (snd e)" "l \<in> set (local_lines st st' e)"
  shows "usefulLocalFlowOFport f l = fst e"
proof -
  obtain a b c d where ip: "li_GuestIP (snd e) = IPv4 a b c d" using assms(4) by (auto simp: ifc_ok_def)
  have "plain_stats (st (fst e))" "plain_stats (st' (fst e))" using assms(2,3) by (auto simp: stats_ok_def)
  then show ?thesis using assms(5) local_line_ports [OF assms(1)] unfolding local_lines_def ip by auto
qed

text \<open>Both orders of the two lines give the interface without its name.\<close>

lemma parse_local_pair:
  assumes "flowParsingKit f = kit" "stats_ok st" "stats_ok st'" "ifc_ok (snd e)" "mset pair = mset (local_lines st st' e)"
  shows "read_local f pair = (snd e)\<lparr>li_Name := []\<rparr>"
proof -
  obtain a b c d where ip: "li_GuestIP (snd e) = IPv4 a b c d" and mac: "length (li_GuestMAC (snd e)) = 6"
    using assms(4) by (auto simp: ifc_ok_def)
  have ps: "plain_stats (st (fst e))" "plain_stats (st' (fst e))" using assms(2,3) by (auto simp: stats_ok_def)
  have "pair = local_lines st st' e \<or> pair = rev (local_lines st st' e)"
    using mset_pair [of pair] assms(5) by (simp add: local_lines_def)
  then show ?thesis
    using local_line_kinds [OF ps(1)] local_line_kinds [OF ps(2)] dl_line_fields [OF assms(1) ps(1) mac] arp_line_fields [OF assms(1) ps(2)]
    by (auto simp: local_lines_def ip intro!: LocalNetIfc.equality)
qed

text \<open>The groups of the flows of a switch: the two lines of an interface under its port, nothing else.\<close>

lemma local_groups:
  assumes f: "flowParsingKit f = kit" and st: "stats_ok st" "stats_ok st'"
    and ents: "distinct (map fst ents)" "\<forall>e\<in>set ents. ifc_ok (snd e)"
    and ls: "mset ls = mset (concat (map (local_lines st st') ents))"
  shows "e \<in> set ents \<Longrightarrow> \<exists>q. map_of (ofPortToLocalFlowsPairs f ls) (fst e) = Some q \<and> mset q = mset (local_lines st st' e)"
    and "p \<notin> fst ` set ents \<Longrightarrow> map_of (ofPortToLocalFlowsPairs f ls) p = None"
proof -
  let ?port = "usefulLocalFlowOFport f"
  have port: "?port l = fst e" if "e \<in> set ents" "l \<in> set (local_lines st st' e)" for e l
    using local_lines_port [OF f st] ents(2) that by blast
  have get: "map_of (ofPortToLocalFlowsPairs f ls) p =
      (if filter (\<lambda>l. ?port l = p) ls = [] then None else Some (filter (\<lambda>l. ?port l = p) ls))" for p
    by (simp add: ofPortToLocalFlowsPairs_def group_flows_new)
  { assume e: "e \<in> set ents"
    have eq: "mset (filter (\<lambda>l. ?port l = fst e) ls) = mset (local_lines st st' e)"
      using filter_group [where key = ?port and ll = "local_lines st st'" and e = e, OF ents(1) _ e] port ls by (metis mset_filter)
    then have "filter (\<lambda>l. ?port l = fst e) ls \<noteq> []" by (metis local_lines_def list.distinct(1) mset_zero_iff)
    then show "\<exists>q. map_of (ofPortToLocalFlowsPairs f ls) (fst e) = Some q \<and> mset q = mset (local_lines st st' e)"
      using eq get [of "fst e"] by auto }
  { assume p: "p \<notin> fst ` set ents"
    have "?port l \<noteq> p" if "l \<in> set ls" for l
    proof -
      have "l \<in> set (concat (map (local_lines st st') ents))" using that mset_eq_setD [OF ls] by simp
      then show ?thesis using port p by force
    qed
    then show "map_of (ofPortToLocalFlowsPairs f ls) p = None" using get by (simp add: filter_empty_conv) }
qed

text \<open>The nameless interfaces that the flows of a switch give.\<close>

lemma nameless_ifcs:
  assumes f: "flowParsingKit f = kit" and st: "stats_ok st" "stats_ok st'" and it: "permutes iter"
    and ents: "distinct (map fst ents)" "\<forall>e\<in>set ents. ifc_ok (snd e)"
    and ls: "mset ls = mset (concat (map (local_lines st st') ents))"
  obtains ifcs where "parseLocalFlowsPairs f (in_order iter (ofPortToLocalFlowsPairs f ls)) = Inr ifcs"
    "map_of ifcs = (\<lambda>p. map_option (\<lambda>i. i\<lparr>li_Name := []\<rparr>) (map_of ents p))"
proof -
  let ?m = "ofPortToLocalFlowsPairs f ls"
  have dist: "distinct (map fst ?m)" unfolding ofPortToLocalFlowsPairs_def by (rule distinct_group_flows) simp
  note groups = local_groups [OF f st ents ls]
  have found: "\<exists>e\<in>set ents. fst e = p \<and> mset q = mset (local_lines st st' e)" if q: "map_of ?m p = Some q" for p q
  proof -
    have "p \<in> fst ` set ents" using groups(2) [of p] q by (cases "p \<in> fst ` set ents") auto
    then obtain e where e: "e \<in> set ents" "fst e = p" by auto
    then show ?thesis using groups(1) [of e] q by auto
  qed
  have "2 \<le> length q" if "(p, q) \<in> set (in_order iter ?m)" for p q
  proof -
    have "map_of ?m p = Some q" using that mset_eq_setD [OF mset_in_order [OF it dist]] dist by simp
    then show ?thesis using found by (metis local_lines_def mset_eq_length length_Cons list.size(3) numeral_2_eq_2 order_refl)
  qed
  then have parse: "parseLocalFlowsPairs f (in_order iter ?m) = Inr (map (\<lambda>(k, q). (k, read_local f q)) (in_order iter ?m))"
    by (intro parseLocalFlowsPairs_map) auto
  have "map_of (map (\<lambda>(k, q). (k, read_local f q)) (in_order iter ?m)) p = map_option (\<lambda>i. i\<lparr>li_Name := []\<rparr>) (map_of ents p)" for p
  proof (cases "p \<in> fst ` set ents")
    case True
    then obtain e where e: "e \<in> set ents" "p = fst e" by auto
    then obtain q where q: "map_of ?m p = Some q" "mset q = mset (local_lines st st' e)" using groups(1) by blast
    have "map_of ents p = Some (snd e)" using e ents(1) by (simp add: map_of_eq_Some_iff)
    moreover have "read_local f q = (snd e)\<lparr>li_Name := []\<rparr>" using parse_local_pair [OF f st] ents(2) e(1) q(2) by blast
    ultimately show ?thesis using q(1) by (simp add: map_of_map map_of_in_order [OF it dist])
  next
    case False
    then have "map_of ?m p = None" "map_of ents p = None" by (rule groups(2), simp add: map_of_eq_None_iff)
    then show ?thesis by (simp add: map_of_map map_of_in_order [OF it dist])
  qed
  then show ?thesis using that parse by blast
qed

text \<open>The ports and the flows that the tools of the switch print.\<close>

definition ports_text :: "(uint16 \<Rightarrow> nat) \<Rightarrow> (uint16 \<times> string) list \<Rightarrow> string" where
  "ports_text pad ports = join [newline] (map (port_line pad) ports) @ [newline]"

definition flows_text :: "string list \<Rightarrow> string" where
  "flows_text ls = join [newline] ls @ [newline]"

definition ports_shown :: "ovsFabric \<Rightarrow> (uint16 \<times> string) list \<Rightarrow> (uint16 \<times> LocalNetIfc) list \<Rightarrow> (uint16 \<times> string) list \<Rightarrow> bool" where
  "ports_shown f ports ents orphans \<longleftrightarrow> ports \<noteq> [] \<and> distinct (map fst ports) \<and> (\<forall>e\<in>set ports. plain_name (snd e)) \<and>
     mset (filter (\<lambda>e. snd e \<noteq> vtep f \<and> snd e \<noteq> bridge f) ports) =
       mset (map (\<lambda>e. (fst e, li_Name (snd e))) ents) + mset orphans"

definition lines_ok :: "string list \<Rightarrow> bool" where
  "lines_ok ls \<longleftrightarrow> ls \<noteq> [] \<and> (\<forall>l\<in>set ls. l \<noteq> [] \<and> newline \<notin> set l)"

definition local_flows_shown :: "(uint16 \<Rightarrow> string) \<Rightarrow> (uint16 \<Rightarrow> string) \<Rightarrow> string list \<Rightarrow> (uint16 \<times> LocalNetIfc) list \<Rightarrow> bool" where
  "local_flows_shown st st' ls ents \<longleftrightarrow> stats_ok st \<and> stats_ok st' \<and> lines_ok ls \<and>
     mset (filter (\<lambda>l. isLocal l \<and> \<not> isTunneling l) ls) = mset (concat (map (local_lines st st') ents))"

lemma port_line_ok: "plain_name (snd e) \<Longrightarrow> port_line pad e \<noteq> [] \<and> newline \<notin> set (port_line pad e)"
proof -
  assume name: "plain_name (snd e)"
  have "ascii_space newline" by (simp add: ascii_space_def)
  then have "newline \<notin> set (snd e)" using name by (auto simp: plain_name_def)
  moreover have "newline \<notin> set (sprintf_d (fst e))" by (rule part_lacks(2)) (simp add: hex_char_def)
  ultimately show ?thesis by (simp add: port_line_def)
qed

lemma getOFports_shown:
  assumes "ports_shown f ports ents orphans"
    and "CombinedOutput env s newListOFportsAndIfcNamesCmd = ((ports_text pad ports, None), s1)"
  shows "getOFportsToLocalIfcNames env f s =
    Inr (Inr (filter (\<lambda>e. snd e \<noteq> vtep f \<and> snd e \<noteq> bridge f) ports), s1)"
proof -
  have "split_on newline (TrimRight (ports_text pad ports) [newline]) = map (port_line pad) ports"
    unfolding ports_text_def using assms(1) port_line_ok by (intro lines_of_output) (auto simp: ports_shown_def)
  then show ?thesis using assms parse_ports_lines [of ports "[]" f pad]
    by (simp add: getOFportsToLocalIfcNames_def parseOFportsAndIfcNames_def ports_shown_def)
qed

lemma getFlows_shown:
  assumes "lines_ok ls" "CombinedOutput env s (newGetFlowsCmd f) = ((flows_text ls, None), s1)"
  shows "getFlows env f s = (Inr ls, s1)"
  using assms lines_of_output [of ls] by (simp add: getFlows_def parseGetFlowsOutput_def flows_text_def lines_ok_def)

lemma ports_distinct:
  assumes "ports_shown f ports ents orphans"
  shows "distinct (map fst ents)" "fst ` set orphans \<inter> fst ` set ents = {}"
proof -
  let ?ps = "filter (\<lambda>e. snd e \<noteq> vtep f \<and> snd e \<noteq> bridge f) ports"
  let ?es = "map (\<lambda>e. (fst e, li_Name (snd e))) ents @ orphans"
  have ps: "mset ?ps = mset ?es" "distinct (map fst ?ps)" using assms by (simp_all add: ports_shown_def distinct_map_filter)
  have "mset (map fst ?ps) = mset (map fst ?es)" unfolding mset_map ps(1) ..
  then have "distinct (map fst ?es)" using ps(2) mset_eq_imp_distinct_iff by blast
  then show "distinct (map fst ents)" "fst ` set orphans \<inter> fst ` set ents = {}" by (auto simp: comp_def)
qed

text \<open>Naming the interfaces: those with flows get their names, the others are left over.\<close>

lemma named_ifcs:
  assumes it: "permutes iter" and shown: "ports_shown f ports ents orphans"
    and M: "M = (\<lambda>p. map_option (\<lambda>i. i\<lparr>li_Name := []\<rparr>) (map_of ents p))"
    and r: "nameIfcs (in_order iter (filter (\<lambda>e. snd e \<noteq> vtep f \<and> snd e \<noteq> bridge f) ports)) M = (lis, os)"
  shows "mset lis = mset (map snd ents)" "mset os = mset (map snd orphans)"
proof -
  let ?ps = "filter (\<lambda>e. snd e \<noteq> vtep f \<and> snd e \<noteq> bridge f) ports"
  let ?named = "map (\<lambda>e. (fst e, li_Name (snd e))) ents"
  have dist: "distinct (map fst ?ps)" using shown by (simp add: ports_shown_def distinct_map_filter)
  have ps: "mset ?ps = mset (?named @ orphans)" using shown by (simp add: ports_shown_def)
  then have ms: "mset (in_order iter ?ps) = mset (?named @ orphans)" using mset_in_order [OF it dist] by simp
  note d = ports_distinct [OF shown]
  have in_ents: "M (fst e) = Some ((snd e)\<lparr>li_Name := []\<rparr>)" if "e \<in> set ents" for e
  proof -
    have "map_of ents (fst e) = Some (snd e)" using that d(1) by simp
    then show ?thesis by (simp add: M)
  qed
  have not_in: "M (fst e) = None" if "e \<in> set orphans" for e using that d(2) by (auto simp: M map_of_eq_None_iff)
  have flt: "mset (filter P (in_order iter ?ps)) = mset (filter P (?named @ orphans))" for P using ms by (simp only: mset_filter)
  have "filter (\<lambda>(p, n). M p \<noteq> None) (?named @ orphans) = ?named" "filter (\<lambda>(p, n). M p = None) (?named @ orphans) = orphans"
    using in_ents not_in by (auto simp: filter_empty_conv filter_id_conv)
  then have parts: "mset (filter (\<lambda>(p, n). M p \<noteq> None) (in_order iter ?ps)) = mset ?named"
    "mset (filter (\<lambda>(p, n). M p = None) (in_order iter ?ps)) = mset orphans" unfolding flt by simp_all
  have "mset lis = mset (map (\<lambda>(p, n). (the (M p))\<lparr>li_Name := n\<rparr>) ?named)"
    using r parts(1) by (auto simp: nameIfcs_eq simp del: map_map)
  also have "map (\<lambda>(p, n). (the (M p))\<lparr>li_Name := n\<rparr>) ?named = map snd ents" using in_ents by simp
  finally show "mset lis = mset (map snd ents)" .
  show "mset os = mset (map snd orphans)" using r parts(2) by (auto simp: nameIfcs_eq)
qed

lemma list_local_shown:
  assumes f: "flowParsingKit f = kit" and it: "permutes (port_order env)"
    and ports: "ports_shown f ports ents orphans" and flows: "local_flows_shown st st' ls ents"
    and ok: "\<forall>e\<in>set ents. ifc_ok (snd e)"
    and run: "CombinedOutput env s newListOFportsAndIfcNamesCmd = ((ports_text pad ports, None), s1)"
      "CombinedOutput env s1 (newGetFlowsCmd f) = ((flows_text ls, None), s2)"
  shows "\<exists>lis os. ovs_ListLocalIfcs env (f, s) =
      Inr (Inr lis, f\<lparr>lockedVNIIPPairs := lockedVNIIPPairs f \<union> (\<lambda>i. pair_of (li_VNI i) (li_GuestIP i)) ` set lis\<rparr>,
        deleteIncompleteIfcs env f os s2) \<and>
    mset lis = mset (map snd ents) \<and> mset os = mset (map snd orphans)"
proof -
  let ?ps = "filter (\<lambda>e. snd e \<noteq> vtep f \<and> snd e \<noteq> bridge f) ports" and ?ls = "onlyUsefulLocalFlowsFunc ls"
  have dist: "distinct (map fst ents)" by (rule ports_distinct(1) [OF ports])
  have ls: "mset ?ls = mset (concat (map (local_lines st st') ents))"
    using flows unfolding onlyUseful_filter local_flows_shown_def by blast
  have st: "stats_ok st" "stats_ok st'" "lines_ok ls" using flows by (simp_all add: local_flows_shown_def)
  obtain ifcs where ifcs: "parseLocalFlowsPairs f (in_order (port_order env) (ofPortToLocalFlowsPairs f ?ls)) = Inr ifcs"
    "map_of ifcs = (\<lambda>p. map_option (\<lambda>i. i\<lparr>li_Name := []\<rparr>) (map_of ents p))"
    using nameless_ifcs [OF f st(1,2) it dist ok ls] by blast
  obtain lis os where n: "nameIfcs (in_order (port_order env) ?ps) (map_of ifcs) = (lis, os)" by force
  note named = named_ifcs [OF it ports ifcs(2) n]
  have "\<forall>i\<in>set lis. addressable (li_GuestIP i)"
    using mset_eq_setD [OF named(1)] ok by (auto simp: ifc_ok_def)
  then have "lock_pairs (map (\<lambda>i. (li_VNI i, li_GuestIP i)) lis) f =
      Inr (f\<lparr>lockedVNIIPPairs := lockedVNIIPPairs f \<union> (\<lambda>i. pair_of (li_VNI i) (li_GuestIP i)) ` set lis\<rparr>)"
    by (rule lock_list)
  then have "ovs_ListLocalIfcs env (f, s) =
      Inr (Inr lis, f\<lparr>lockedVNIIPPairs := lockedVNIIPPairs f \<union> (\<lambda>i. pair_of (li_VNI i) (li_GuestIP i)) ` set lis\<rparr>,
        deleteIncompleteIfcs env f os s2)"
    using getOFports_shown [OF ports run(1)] getFlows_shown [OF st(3) run(2)] ifcs(1) n
    by (simp add: ovs_ListLocalIfcs_def getUsefulLocalFlows_def Let_def)
  with named show ?thesis by blast
qed

section \<open>Remote interfaces\<close>

definition remote_ok :: "RemoteNetIfc \<Rightarrow> bool" where
  "remote_ok i \<longleftrightarrow> length (ri_GuestMAC i) = 6 \<and> (\<exists>a b c d. ri_GuestIP i = IPv4 a b c d) \<and> (\<exists>a b c d. ri_HostIP i = IPv4 a b c d)"

definition ip_number :: "IP \<Rightarrow> uint32" where
  "ip_number ip = (case MakeUint32FromIPv4 ip of Inl _ \<Rightarrow> 0 | Inr i \<Rightarrow> i)"

text \<open>The lines of a remote interface carry the cookie with which its flows were added.\<close>

definition remote_lines :: "(RemoteNetIfc \<Rightarrow> string) \<Rightarrow> uint16 \<Rightarrow> RemoteNetIfc \<Rightarrow> string list" where
  "remote_lines st vt i =
     (let stats = cookie_stats (flowCookie (ri_GuestMAC i)) (st i); act = tunnel_action (ip_number (ri_HostIP i)) vt in
      [dl_line stats (ri_VNI i) (ri_GuestMAC i) act, arp_line stats (ri_VNI i) (ri_GuestIP i) act])"

definition remote_flows_shown :: "ovsFabric \<Rightarrow> (RemoteNetIfc \<Rightarrow> string) \<Rightarrow> string list \<Rightarrow> RemoteNetIfc list \<Rightarrow> bool" where
  "remote_flows_shown f st ls ris \<longleftrightarrow> (\<forall>i. plain_stats (st i)) \<and> lines_ok ls \<and>
     mset (filter isRemote ls) = mset (concat (map (remote_lines st (vtepOFport f)) ris))"

lemma plain_cookie_stats: "plain_stats st \<Longrightarrow> plain_stats (cookie_stats c st)"
  by (simp add: plain_stats_def cookie_stats_def contains_sep part_contains part_lacks hex_char_def sprintf_sharp_x_def
      remoteFlowsFingerprint_def)

lemma remote_lines_cookie:
  assumes "flowParsingKit f = kit" "l \<in> set (remote_lines st vt i)"
  shows "extractCookie f l = sprintf_sharp_x (flowCookie (ri_GuestMAC i))"
  using assms(2) line_cookies [OF assms(1)] by (auto simp: remote_lines_def Let_def)

lemma parse_remote_pair:
  assumes f: "flowParsingKit f = kit" and st: "plain_stats (st i)" and ok: "remote_ok i"
    and pair: "mset pair = mset (remote_lines st vt i)"
  shows "read_remote f pair = i"
proof -
  obtain a b c d p q r t where ip: "ri_GuestIP i = IPv4 a b c d" "ri_HostIP i = IPv4 p q r t" and mac: "length (ri_GuestMAC i) = 6"
    using ok by (auto simp: remote_ok_def)
  have host: "ip_number (ri_HostIP i) = be_or p q r t" by (simp add: ip ip_number_def MakeUint32FromIPv4_IPv4)
  note ps = plain_cookie_stats [OF st, of "flowCookie (ri_GuestMAC i)"]
  have "pair = remote_lines st vt i \<or> pair = rev (remote_lines st vt i)"
    using mset_pair [of pair] pair by (simp add: remote_lines_def Let_def)
  then show ?thesis
    using remote_line_kinds [OF ps] dl_line_fields [OF f ps mac] arp_line_fields [OF f ps] remote_line_hosts [OF f ps]
    by (auto simp: remote_lines_def Let_def ip(1) host intro!: RemoteNetIfc.equality) (simp_all add: ip)
qed

text \<open>A group of lines of several remote interfaces is read as one interface with some address.\<close>

lemma parse_remote_addressable:
  assumes "\<forall>l\<in>set q. isARP l \<longrightarrow> addressable (extractGuestIP f l)" "addressable (ri_GuestIP ifc) \<or> (\<exists>l\<in>set q. isARP l)"
  shows "addressable (ri_GuestIP (parse_remote_flows f q ifc))"
  using assms
proof (induction f q ifc rule: parse_remote_flows.induct)
  case (2 f l q ifc)
  have "\<forall>l\<in>set q. isARP l \<longrightarrow> addressable (extractGuestIP f l)" using 2 by simp
  moreover have "addressable (ri_GuestIP (if isARP l then ifc\<lparr>ri_GuestIP := extractGuestIP f l\<rparr>
      else ifc\<lparr>ri_GuestMAC := extractGuestMAC f l\<rparr>)) \<or> (\<exists>l\<in>set q. isARP l)" using 2 by auto
  ultimately show ?case using "2.IH" by simp
qed simp

lemma remote_lines_remote:
  assumes "flowParsingKit f = kit" "plain_stats (st i)" "remote_ok i"
  shows "\<exists>l\<in>set (remote_lines st vt i). isARP l"
    and "l \<in> set (remote_lines st vt i) \<Longrightarrow> isARP l \<Longrightarrow> addressable (extractGuestIP f l)"
proof -
  obtain a b c d where ip: "ri_GuestIP i = IPv4 a b c d" using assms(3) by (auto simp: remote_ok_def)
  note ps = plain_cookie_stats [OF assms(2), of "flowCookie (ri_GuestMAC i)"]
  note kinds = remote_line_kinds [OF ps]
  show "\<exists>l\<in>set (remote_lines st vt i). isARP l" using kinds by (simp add: remote_lines_def Let_def ip)
  show "l \<in> set (remote_lines st vt i) \<Longrightarrow> isARP l \<Longrightarrow> addressable (extractGuestIP f l)"
    using kinds arp_line_fields(2) [OF assms(1) ps] by (auto simp: remote_lines_def Let_def ip)
qed

definition remote_groups :: "ovsFabric \<Rightarrow> string list \<Rightarrow> (string \<times> string list) list" where
  "remote_groups f ls = group_flows (extractCookie f) (onlyRemoteFlowsFunc ls) []"

lemma remote_groups_keys:
  assumes "flowParsingKit f = kit" "remote_flows_shown f st ls ris"
  shows "distinct (map fst (remote_groups f ls))"
    and "set (map fst (remote_groups f ls)) = (\<lambda>i. sprintf_sharp_x (flowCookie (ri_GuestMAC i))) ` set ris"
proof -
  show "distinct (map fst (remote_groups f ls))" unfolding remote_groups_def by (rule distinct_group_flows) simp
  have "set (map fst (remote_groups f ls)) = extractCookie f ` set (concat (map (remote_lines st (vtepOFport f)) ris))"
    using assms(2) mset_eq_setD unfolding remote_groups_def group_flows_keys onlyRemote_filter remote_flows_shown_def by metis
  also have "\<dots> = (\<lambda>i. sprintf_sharp_x (flowCookie (ri_GuestMAC i))) ` set ris"
    using remote_lines_cookie [OF assms(1)] by (force simp: image_iff remote_lines_def Let_def)
  finally show "set (map fst (remote_groups f ls)) = (\<lambda>i. sprintf_sharp_x (flowCookie (ri_GuestMAC i))) ` set ris" .
qed

text \<open>Every group has the two lines of each interface with its cookie.\<close>

lemma remote_group:
  assumes f: "flowParsingKit f = kit" and sh: "remote_flows_shown f st ls ris" and q: "(c, q) \<in> set (remote_groups f ls)"
  shows "mset q = mset (concat (map (remote_lines st (vtepOFport f))
    (filter (\<lambda>i. sprintf_sharp_x (flowCookie (ri_GuestMAC i)) = c) ris)))"
proof -
  let ?k = "\<lambda>i. sprintf_sharp_x (flowCookie (ri_GuestMAC i))"
  have "map_of (remote_groups f ls) c = Some q" using q remote_groups_keys(1) [OF f sh] by simp
  then have "q = filter (\<lambda>l. extractCookie f l = c) (filter isRemote ls)"
    by (simp add: remote_groups_def group_flows_new onlyRemote_filter Let_def split: if_splits)
  then have "mset q = mset (filter (\<lambda>l. extractCookie f l = c) (concat (map (remote_lines st (vtepOFport f)) ris)))"
    using sh by (simp add: remote_flows_shown_def del: filter_filter)
  also have "filter (\<lambda>l. extractCookie f l = c) (concat (map (remote_lines st (vtepOFport f)) ris)) =
      concat (map (remote_lines st (vtepOFport f)) (filter (\<lambda>i. ?k i = c) ris))"
  proof (induction ris)
    case (Cons i ris)
    have "filter (\<lambda>l. extractCookie f l = c) (remote_lines st (vtepOFport f) i) =
        (if ?k i = c then remote_lines st (vtepOFport f) i else [])"
      using remote_lines_cookie [OF f] by (simp add: filter_empty_conv filter_id_conv)
    then show ?case using Cons by simp
  qed simp
  finally show ?thesis .
qed

lemma remote_group_read:
  assumes f: "flowParsingKit f = kit" and sh: "remote_flows_shown f st ls ris" and ok: "\<forall>i\<in>set ris. remote_ok i"
    and g: "(c, q) \<in> set (remote_groups f ls)"
  shows "2 \<le> length q \<and> addressable (ri_GuestIP (read_remote f q))"
proof -
  let ?is = "filter (\<lambda>i. sprintf_sharp_x (flowCookie (ri_GuestMAC i)) = c) ris"
  have "c \<in> (\<lambda>i. sprintf_sharp_x (flowCookie (ri_GuestMAC i))) ` set ris"
    using g remote_groups_keys(2) [OF f sh] by (metis image_eqI fst_conv set_map)
  then obtain i where i: "i \<in> set ?is" by auto
  note ms = remote_group [OF f sh g]
  have st: "plain_stats (st j)" for j using sh by (simp add: remote_flows_shown_def)
  have sub: "set (remote_lines st (vtepOFport f) i) \<subseteq> set q" using mset_eq_setD [OF ms] i by auto
  have "\<forall>l\<in>set q. isARP l \<longrightarrow> addressable (extractGuestIP f l)"
    using mset_eq_setD [OF ms] remote_lines_remote(2) [OF f st] ok by auto
  moreover have "\<exists>l\<in>set q. isARP l" using sub remote_lines_remote(1) [OF f st] ok i by fastforce
  moreover have "length q = length (concat (map (remote_lines st (vtepOFport f)) ?is))" using ms by (rule mset_eq_length)
  then have "length q = 2 * length ?is" by (simp add: length_concat comp_def remote_lines_def Let_def sum_list_triv)
  then have "2 \<le> length q" using i by (cases ?is) auto
  ultimately show ?thesis using parse_remote_addressable by blast
qed

lemma list_remote_shown:
  assumes f: "flowParsingKit f = kit" and it: "permutes (cookie_order env)"
    and sh: "remote_flows_shown f st ls ris" and ok: "\<forall>i\<in>set ris. remote_ok i"
    and run: "CombinedOutput env s (newGetFlowsCmd f) = ((flows_text ls, None), s1)"
  obtains lis where "ovs_ListRemoteIfcs env (f, s) =
      Inr (Inr lis, f\<lparr>lockedVNIIPPairs := lockedVNIIPPairs f \<union> (\<lambda>i. pair_of (ri_VNI i) (ri_GuestIP i)) ` set lis\<rparr>, s1)"
    "lis = map (\<lambda>(c, q). read_remote f q) (in_order (cookie_order env) (remote_groups f ls))"
proof -
  let ?m = "in_order (cookie_order env) (remote_groups f ls)"
  have sm: "set ?m = set (remote_groups f ls)" using mset_eq_setD [OF mset_in_order [OF it remote_groups_keys(1) [OF f sh]]] .
  have group: "2 \<le> length q \<and> addressable (ri_GuestIP (read_remote f q))" if "(c, q) \<in> set ?m" for c q
    using remote_group_read [OF f sh ok] that sm by blast
  let ?lis = "map (\<lambda>(c, q). read_remote f q) ?m"
  have pairs: "pairRemoteFlowsPerIfc (cookie_order env) f (onlyRemoteFlowsFunc ls) = map snd ?m"
    by (simp add: pairRemoteFlowsPerIfc_def in_order_def remote_groups_def comp_def Let_def)
  have "parseRemoteFlowsPairs f (map snd ?m) = Inr ?lis"
    using group by (subst parseRemoteFlowsPairs_map) (auto simp: case_prod_beta)
  moreover have "lock_pairs (map (\<lambda>i. (ri_VNI i, ri_GuestIP i)) ?lis) f =
      Inr (f\<lparr>lockedVNIIPPairs := lockedVNIIPPairs f \<union> (\<lambda>i. pair_of (ri_VNI i) (ri_GuestIP i)) ` set ?lis\<rparr>)"
    using group by (intro lock_list) auto
  moreover have "getFlows env f s = (Inr ls, s1)" using getFlows_shown [OF _ run] sh by (simp add: remote_flows_shown_def)
  ultimately have "ovs_ListRemoteIfcs env (f, s) =
      Inr (Inr ?lis, f\<lparr>lockedVNIIPPairs := lockedVNIIPPairs f \<union> (\<lambda>i. pair_of (ri_VNI i) (ri_GuestIP i)) ` set ?lis\<rparr>, s1)"
    using pairs by (simp add: ovs_ListRemoteIfcs_def getRemoteFlows_def Let_def)
  then show ?thesis using that by blast
qed

lemma remote_listing_length:
  assumes f: "flowParsingKit f = kit" and it: "permutes iter" and sh: "remote_flows_shown f st ls ris"
  shows "length (in_order iter (remote_groups f ls)) = card ((\<lambda>i. flowCookie (ri_GuestMAC i)) ` set ris)"
proof -
  note keys = remote_groups_keys [OF f sh]
  have "length (in_order iter (remote_groups f ls)) = length (map fst (remote_groups f ls))"
    using mset_eq_length [OF mset_in_order [OF it keys(1)]] by simp
  also have "\<dots> = card (set (map fst (remote_groups f ls)))" using keys(1) distinct_card by metis
  also have "\<dots> = card (sprintf_sharp_x ` (\<lambda>i. flowCookie (ri_GuestMAC i)) ` set ris)" unfolding keys(2) image_image ..
  also have "\<dots> = card ((\<lambda>i. flowCookie (ri_GuestMAC i)) ` set ris)"
    by (rule card_image) (simp add: inj_on_def sprintf_sharp_x_def)
  finally show ?thesis .
qed

lemma filter_key: "distinct (map k xs) \<Longrightarrow> i \<in> set xs \<Longrightarrow> filter (\<lambda>j. k j = k i) xs = [i]"
proof (induction xs)
  case (Cons x xs)
  then show ?case by (cases "i = x") (auto simp: filter_empty_conv image_iff)
qed simp

lemma remote_listing_exact:
  assumes f: "flowParsingKit f = kit" and it: "permutes iter" and sh: "remote_flows_shown f st ls ris"
    and ok: "\<forall>i\<in>set ris. remote_ok i" and cookies: "distinct (map (\<lambda>i. flowCookie (ri_GuestMAC i)) ris)"
  shows "mset (map (\<lambda>(c, q). read_remote f q) (in_order iter (remote_groups f ls))) = mset ris"
proof -
  let ?k = "\<lambda>i. sprintf_sharp_x (flowCookie (ri_GuestMAC i))" and ?m = "remote_groups f ls"
  have dk: "distinct (map ?k ris)"
    using cookies by (auto simp: distinct_map inj_on_def sprintf_sharp_x_def)
  have st: "plain_stats (st j)" for j using sh by (simp add: remote_flows_shown_def)
  have parse: "?k (read_remote f q) = c \<and> read_remote f q \<in> set ris" if "(c, q) \<in> set ?m" for c q
  proof -
    have "c \<in> ?k ` set ris" using that remote_groups_keys(2) [OF f sh] by (metis image_eqI fst_conv set_map)
    then obtain i where i: "i \<in> set ris" "?k i = c" by auto
    have "filter (\<lambda>j. ?k j = c) ris = [i]" using filter_key [OF dk i(1)] i(2) by simp
    then have "mset q = mset (remote_lines st (vtepOFport f) i)" using remote_group [OF f sh that] by simp
    from parse_remote_pair [OF f st _ this] i ok show ?thesis by simp
  qed
  let ?xs = "map (\<lambda>(c, q). read_remote f q) (in_order iter ?m)"
  have ms: "mset (in_order iter ?m) = mset ?m" by (rule mset_in_order [OF it remote_groups_keys(1) [OF f sh]])
  have keys: "map ?k ?xs = map fst (in_order iter ?m)" using parse mset_eq_setD [OF ms] by auto
  have "mset (map fst (in_order iter ?m)) = mset (map fst ?m)" unfolding mset_map ms ..
  then have k: "distinct (map ?k ?xs)" "?k ` set ?xs = ?k ` set ris"
    using remote_groups_keys [OF f sh] mset_eq_imp_distinct_iff mset_eq_setD unfolding keys by (metis, metis keys set_map)
  have "set ?xs \<subseteq> set ris" using parse mset_eq_setD [OF ms] by auto
  then have "set ?xs = set ris" using k(2) dk by (auto simp: distinct_map dest: inj_on_image_eq_iff [THEN iffD1, rotated -1])
  then show ?thesis using k(1) dk by (meson distinct_map set_eq_iff_mset_eq_distinct)
qed

end
