(* ===== verification/OVS_Locks.thy ===== *)
theory OVS_Locks
  imports OVS_List
begin

text \<open>
  The locking of pairs of a VNI and an address: the contract of a fabric in which no two
  interfaces have the same pair, and the Open vSwitch fabric as an instance of it.
\<close>

section \<open>Sequences of operations\<close>

datatype fab_op = CreateLocal LocalNetIfc | DeleteLocal LocalNetIfc | CreateRemote RemoteNetIfc | DeleteRemote RemoteNetIfc

fun fab_apply :: "'w fabric \<Rightarrow> fab_op \<Rightarrow> 'w \<Rightarrow> (go_panic, string option \<times> 'w) result" where
  "fab_apply fab (CreateLocal li) w = CreateLocalIfc fab w li"
| "fab_apply fab (DeleteLocal li) w = DeleteLocalIfc fab w li"
| "fab_apply fab (CreateRemote ri) w = CreateRemoteIfc fab w ri"
| "fab_apply fab (DeleteRemote ri) w = DeleteRemoteIfc fab w ri"

text \<open>The operations done and their errors.\<close>

fun fab_run :: "'w fabric \<Rightarrow> fab_op list \<Rightarrow> 'w \<Rightarrow> (go_panic, (fab_op \<times> string option) list \<times> 'w) result" where
  "fab_run fab [] w = Inr ([], w)"
| "fab_run fab (x # ops) w =
     (case fab_apply fab x w of
        Inl p \<Rightarrow> Inl p
      | Inr (e, w1) \<Rightarrow> (case fab_run fab ops w1 of Inl p \<Rightarrow> Inl p | Inr (log, w2) \<Rightarrow> Inr ((x, e) # log, w2)))"

lemma fab_run_split:
  "fab_run fab ops w = Inr (l1 @ l2, w') \<Longrightarrow>
   \<exists>ops1 ops2 w1. fab_run fab ops1 w = Inr (l1, w1) \<and> fab_run fab ops2 w1 = Inr (l2, w')"
proof (induction ops arbitrary: w l1)
  case Nil
  then show ?case by (intro exI [of _ "[]"]) auto
next
  case (Cons x ops)
  show ?case
  proof (cases l1)
    case Nil
    then show ?thesis using Cons.prems by (intro exI [of _ "[]"] exI [of _ "x # ops"]) simp
  next
    case (Cons q l)
    with Cons.prems obtain e w1 where a: "fab_apply fab x w = Inr (e, w1)" and q: "q = (x, e)"
      and r: "fab_run fab ops w1 = Inr (l @ l2, w')" by (auto split: sum.splits prod.splits)
    from Cons.IH [OF r] obtain ops1 ops2 w2 where "fab_run fab ops1 w1 = Inr (l, w2)" "fab_run fab ops2 w2 = Inr (l2, w')" by blast
    then show ?thesis using a q Cons by (intro exI [of _ "x # ops1"] exI [of _ ops2] exI [of _ w2]) simp
  qed
qed

fun op_pair :: "fab_op \<Rightarrow> vniAndIP" where
  "op_pair (CreateLocal li) = pair_of (li_VNI li) (li_GuestIP li)"
| "op_pair (DeleteLocal li) = pair_of (li_VNI li) (li_GuestIP li)"
| "op_pair (CreateRemote ri) = pair_of (ri_VNI ri) (ri_GuestIP ri)"
| "op_pair (DeleteRemote ri) = pair_of (ri_VNI ri) (ri_GuestIP ri)"

fun creates :: "fab_op \<Rightarrow> bool" where
  "creates (CreateLocal _) = True"
| "creates (CreateRemote _) = True"
| "creates _ = False"

section \<open>The contract\<close>

locale exclusive_fabric =
  fixes fab :: "'w fabric" and held :: "'w \<Rightarrow> vniAndIP set"
  assumes create_ok: "creates x \<Longrightarrow> fab_apply fab x w = Inr (None, w') \<Longrightarrow>
      op_pair x \<notin> held w \<and> held w' = insert (op_pair x) (held w)"
    and delete_ok: "\<not> creates x \<Longrightarrow> fab_apply fab x w = Inr (None, w') \<Longrightarrow> held w' = held w - {op_pair x}"
    and failed: "fab_apply fab x w = Inr (Some e, w') \<Longrightarrow> held w' = held w"
begin

lemma held_until_deleted:
  assumes "fab_run fab ops w = Inr (log, w')" "p \<in> held w"
    and "\<forall>(x, e)\<in>set log. \<not> creates x \<and> e = None \<longrightarrow> op_pair x \<noteq> p"
  shows "p \<in> held w' \<and> (\<forall>(x, e)\<in>set log. creates x \<and> e = None \<longrightarrow> op_pair x \<noteq> p)"
  using assms
proof (induction ops arbitrary: w log)
  case (Cons x ops)
  from Cons.prems(1) obtain e w1 log1 where a: "fab_apply fab x w = Inr (e, w1)"
    and r: "fab_run fab ops w1 = Inr (log1, w')" and log: "log = (x, e) # log1"
    by (auto split: sum.splits prod.splits)
  have "p \<in> held w1 \<and> (creates x \<and> e = None \<longrightarrow> op_pair x \<noteq> p)"
    using a Cons.prems(2,3) log create_ok [of x w w1] delete_ok [of x w w1] failed [of x w _ w1]
    by (cases e; cases "creates x") auto
  then show ?case using Cons.IH [OF r] Cons.prems(3) log by simp
qed simp

text \<open>Between two successful creations for a pair there is a successful deletion for it.\<close>

lemma creations_apart:
  assumes run: "fab_run fab ops w = Inr (l1 @ (x, None) # l2 @ (y, None) # l3, w')"
    and xy: "creates x" "creates y" "op_pair x = op_pair y"
  shows "\<exists>z. (z, None) \<in> set l2 \<and> \<not> creates z \<and> op_pair z = op_pair x"
proof (rule ccontr)
  assume no: "\<not> (\<exists>z. (z, None) \<in> set l2 \<and> \<not> creates z \<and> op_pair z = op_pair x)"
  from fab_run_split [of fab ops w "l1 @ [(x, None)]"] run obtain ops1 ops2 w1 where
    1: "fab_run fab ops1 w = Inr (l1 @ [(x, None)], w1)" "fab_run fab ops2 w1 = Inr (l2 @ (y, None) # l3, w')" by auto
  from fab_run_split [OF 1(1)] obtain ops3 w0 where "fab_run fab ops3 w0 = Inr ([(x, None)], w1)" by blast
  then have "fab_apply fab x w0 = Inr (None, w1)" by (cases ops3) (auto split: sum.splits prod.splits elim: fab_run.elims)
  then have held: "op_pair x \<in> held w1" using create_ok [OF xy(1)] by simp
  from fab_run_split [of fab ops2 w1 "l2 @ [(y, None)]"] 1(2) obtain ops4 w2 where
    "fab_run fab ops4 w1 = Inr (l2 @ [(y, None)], w2)" by auto
  from held_until_deleted [OF this held] no xy show False by auto
qed

end

section \<open>The Open vSwitch fabric\<close>

lemma lockVNIIPPair_cases:
  assumes "lockVNIIPPair vni ip f = Inr (e, f')"
  shows "e = None \<and> pair_of vni ip \<notin> lockedVNIIPPairs f \<and> f' = f\<lparr>lockedVNIIPPairs := insert (pair_of vni ip) (lockedVNIIPPairs f)\<rparr>
    \<or> e \<noteq> None \<and> f' = f"
  using assms by (auto simp: lockVNIIPPair_def pair_of_def Let_def split: sum.splits if_splits)

lemma unlockVNIIPPair_eq:
  "unlockVNIIPPair vni ip f = Inr f' \<Longrightarrow> f' = f\<lparr>lockedVNIIPPairs := lockedVNIIPPairs f - {pair_of vni ip}\<rparr>"
  by (auto simp: unlockVNIIPPair_def pair_of_def split: sum.splits)

lemma unlock_on_error_cases:
  assumes "unlock_on_error vni ip err (f, s) = Inr (e, w')"
  shows "e = err \<and> snd w' = s \<and> (if err = None then fst w' = f
    else fst w' = f\<lparr>lockedVNIIPPairs := lockedVNIIPPairs f - {pair_of vni ip}\<rparr>)"
  using assms by (auto simp: unlock_on_error_def dest: unlockVNIIPPair_eq split: option.splits sum.splits)

lemma locked_create:
  assumes "(case lockVNIIPPair vni ip (fst w) of
        Inl p \<Rightarrow> Inl p
      | Inr (Some e, f) \<Rightarrow> Inr (Some (msg e), f, snd w)
      | Inr (None, f) \<Rightarrow> (case act f (snd w) of (err, s) \<Rightarrow> unlock_on_error vni ip err (f, s))) = Inr (e, w')"
  shows "if e = None then pair_of vni ip \<notin> lockedVNIIPPairs (fst w) \<and>
      lockedVNIIPPairs (fst w') = insert (pair_of vni ip) (lockedVNIIPPairs (fst w))
    else lockedVNIIPPairs (fst w') = lockedVNIIPPairs (fst w)"
proof -
  obtain e1 f1 where l: "lockVNIIPPair vni ip (fst w) = Inr (e1, f1)" using assms by (auto split: sum.splits)
  show ?thesis
  proof (cases e1)
    case None
    then obtain err s where "act f1 (snd w) = (err, s)" "unlock_on_error vni ip err (f1, s) = Inr (e, w')"
      using assms l by (auto split: prod.splits)
    then have u: "e = err" "fst w' = (if err = None then f1 else f1\<lparr>lockedVNIIPPairs := lockedVNIIPPairs f1 - {pair_of vni ip}\<rparr>)"
      using unlock_on_error_cases [of vni ip err f1 s e w'] by (auto split: if_splits)
    have "pair_of vni ip \<notin> lockedVNIIPPairs (fst w)"
      "lockedVNIIPPairs f1 = insert (pair_of vni ip) (lockedVNIIPPairs (fst w))"
      using lockVNIIPPair_cases [OF l] None by simp_all
    then show ?thesis using u by simp
  next
    case (Some m)
    then have "e = Some (msg m)" "fst w' = f1" using assms l by auto
    moreover have "f1 = fst w" using lockVNIIPPair_cases [OF l] Some by simp
    ultimately show ?thesis by simp
  qed
qed

lemma ovs_delete_cases:
  "ovs_DeleteLocalIfc env w li = Inr (e, w') \<Longrightarrow> lockedVNIIPPairs (fst w') =
     (if e = None then lockedVNIIPPairs (fst w) - {pair_of (li_VNI li) (li_GuestIP li)} else lockedVNIIPPairs (fst w))"
  "ovs_DeleteRemoteIfc env w ri = Inr (e, w') \<Longrightarrow> lockedVNIIPPairs (fst w') =
     (if e = None then lockedVNIIPPairs (fst w) - {pair_of (ri_VNI ri) (ri_GuestIP ri)} else lockedVNIIPPairs (fst w))"
  by (auto simp: ovs_DeleteLocalIfc_def ovs_DeleteRemoteIfc_def Let_def dest!: unlockVNIIPPair_eq
      split: prod.splits sum.splits option.splits)

lemma ovs_create_cases:
  "ovs_CreateLocalIfc env w li = Inr (e, w') \<Longrightarrow>
     if e = None then pair_of (li_VNI li) (li_GuestIP li) \<notin> lockedVNIIPPairs (fst w) \<and>
       lockedVNIIPPairs (fst w') = insert (pair_of (li_VNI li) (li_GuestIP li)) (lockedVNIIPPairs (fst w))
     else lockedVNIIPPairs (fst w') = lockedVNIIPPairs (fst w)"
  "ovs_CreateRemoteIfc env w ri = Inr (e, w') \<Longrightarrow>
     if e = None then pair_of (ri_VNI ri) (ri_GuestIP ri) \<notin> lockedVNIIPPairs (fst w) \<and>
       lockedVNIIPPairs (fst w') = insert (pair_of (ri_VNI ri) (ri_GuestIP ri)) (lockedVNIIPPairs (fst w))
     else lockedVNIIPPairs (fst w') = lockedVNIIPPairs (fst w)"
  unfolding ovs_CreateLocalIfc_def ovs_CreateRemoteIfc_def by (rule locked_create, assumption)+

lemma ovs_apply:
  assumes "fab_apply (ovs_fabric env) x w = Inr (e, w')"
  shows "if e \<noteq> None then lockedVNIIPPairs (fst w') = lockedVNIIPPairs (fst w)
    else if creates x then op_pair x \<notin> lockedVNIIPPairs (fst w) \<and> lockedVNIIPPairs (fst w') = insert (op_pair x) (lockedVNIIPPairs (fst w))
    else lockedVNIIPPairs (fst w') = lockedVNIIPPairs (fst w) - {op_pair x}"
proof (cases x)
  case (CreateLocal li)
  then show ?thesis using assms ovs_create_cases(1) [of env w li e w'] by (simp add: ovs_fabric_def split: if_splits)
next
  case (DeleteLocal li)
  then show ?thesis using assms ovs_delete_cases(1) [of env w li e w'] by (simp add: ovs_fabric_def)
next
  case (CreateRemote ri)
  then show ?thesis using assms ovs_create_cases(2) [of env w ri e w'] by (simp add: ovs_fabric_def split: if_splits)
next
  case (DeleteRemote ri)
  then show ?thesis using assms ovs_delete_cases(2) [of env w ri e w'] by (simp add: ovs_fabric_def)
qed

lemma ovs_exclusive: "exclusive_fabric (ovs_fabric env) (lockedVNIIPPairs \<circ> fst)"
  by unfold_locales (use ovs_apply [of env] in fastforce)+

interpretation ovs_excl: exclusive_fabric "ovs_fabric env" "lockedVNIIPPairs \<circ> fst" for env
  by (rule ovs_exclusive)

end
