(* ===== verification/OVS_Props.thy ===== *)
theory OVS_Props
  imports OVS_Locks
begin

text \<open>
  What the Open vSwitch fabric guarantees, and where it does not keep what its comments and the
  interface of network fabrics say.
\<close>

section \<open>A sample switch\<close>

text \<open>A switch whose state is ignored: the answers to commands are given by a list, all others succeed.\<close>

definition scripted :: "(exec_cmd \<times> string \<times> string option) list \<Rightarrow> unit ovs_env" where
  "scripted answers =
     \<lparr>CombinedOutput = (\<lambda>s c. (case map_of answers c of None \<Rightarrow> ([], None) | Some r \<Rightarrow> r, s)),
      port_order = id, cookie_order = id\<rparr>"

definition fabric0 :: ovsFabric where
  "fabric0 = \<lparr>bridge = ''kos'', vtep = ''vtep'', vtepOFport = 1, flowParsingKit = kit, lockedVNIIPPairs = {}\<rparr>"

definition sample_ifc :: LocalNetIfc where
  "sample_ifc = \<lparr>li_Name = ''kosa'', li_VNI = 5, li_GuestMAC = [2, 0, 0, 6, 0, 5], li_GuestIP = IPv4 10 0 0 6\<rparr>"

definition sample_remote :: RemoteNetIfc where
  "sample_remote = \<lparr>ri_VNI = 5, ri_GuestMAC = [2, 0, 0, 7, 0, 5], ri_GuestIP = IPv4 10 0 0 7, ri_HostIP = IPv4 192 168 0 2\<rparr>"

definition sample_remote2 :: RemoteNetIfc where
  "sample_remote2 = \<lparr>ri_VNI = 5, ri_GuestMAC = [2, 0, 0, 8, 0, 5], ri_GuestIP = IPv4 10 0 0 8, ri_HostIP = IPv4 192 168 0 3\<rparr>"

definition sample_stats :: string where
  "sample_stats = ''duration=4.2s, table=1, n_packets=0, n_bytes=0,''"

lemma plain_sample_stats: "plain_stats sample_stats"
  by code_simp

lemma permutes_id [simp]: "permutes id"
  by (simp add: permutes_def)

section \<open>Exclusion of addresses\<close>

text \<open>
  C7: in every sequence of creations and deletions of local and remote interfaces, between two
  successful creations for the same VNI and guest address there is a successful deletion for
  them; a failed operation never changes which pairs are taken.
\<close>

theorem creations_need_deletion:
  assumes "fab_run (ovs_fabric env) ops w = Inr (l1 @ (x, None) # l2 @ (y, None) # l3, w')"
    and "creates x" "creates y" "op_pair x = op_pair y"
  shows "\<exists>z. (z, None) \<in> set l2 \<and> \<not> creates z \<and> op_pair z = op_pair x"
  by (rule ovs_excl.creations_apart [OF assms])

theorem creations_need_deletion_witness:
  "\<exists>w'. fab_run (ovs_fabric (scripted [])) [CreateLocal sample_ifc, DeleteLocal sample_ifc, CreateLocal sample_ifc] (fabric0, ())
      = Inr ([] @ (CreateLocal sample_ifc, None) # [(DeleteLocal sample_ifc, None)] @ (CreateLocal sample_ifc, None) # [], w') \<and>
    (\<exists>z. (z, None) \<in> set [(DeleteLocal sample_ifc, None :: string option)] \<and> \<not> creates z \<and> op_pair z = op_pair (CreateLocal sample_ifc))"
proof -
  have run: "run_cmd (scripted []) c m () = (None, ())" for c m by (simp add: run_cmd_def scripted_def)
  have port: "getIfcOFport (scripted []) f n () = (Inr 0, ())" for f n
    by (simp add: getIfcOFport_def scripted_def TrimRight_def parseOFport_def ParseUint_def)
  have ip: "MakeUint32FromIPv4 (li_GuestIP sample_ifc) = Inr (be_or 10 0 0 6)" by (simp add: sample_ifc_def MakeUint32FromIPv4_IPv4)
  obtain w' where r: "fab_run (ovs_fabric (scripted [])) [CreateLocal sample_ifc, DeleteLocal sample_ifc, CreateLocal sample_ifc] (fabric0, ())
      = Inr ([] @ (CreateLocal sample_ifc, None) # [(DeleteLocal sample_ifc, None)] @ (CreateLocal sample_ifc, None) # [], w')"
    by (simp add: ovs_fabric_def ovs_CreateLocalIfc_def ovs_DeleteLocalIfc_def plug_local_def createIfc_def addLocalIfcFlows_def
        deleteLocalIfcFlows_def deleteIfc_def delete_on_error_def unlock_on_error_def lockVNIIPPair_def unlockVNIIPPair_def
        ip run port fabric0_def Let_def)
  have "\<exists>z. (z, None) \<in> set [(DeleteLocal sample_ifc, None :: string option)] \<and> \<not> creates z \<and>
      op_pair z = op_pair (CreateLocal sample_ifc)" using creations_need_deletion [OF r] by simp
  with r show ?thesis by blast
qed

text \<open>
  C31: when a device was created but its port cannot be found or its flows cannot be added,
  \<open>CreateLocalIfc\<close> returns that error after it has tried to delete the device as its last
  command, and the VNI and address are free again.
\<close>

theorem failed_creation_undone:
  assumes "ovs_CreateLocalIfc env (f, s) ifc = Inr (Some e, f', s')" "pair_of (li_VNI ifc) (li_GuestIP ifc) \<notin> lockedVNIIPPairs f"
    and "CombinedOutput env s (newCreateIfcCmd f (li_Name ifc) (li_GuestMAC ifc)) = ((out, None), s1)"
  shows "f' = f \<and> (\<exists>s2. s' = snd (CombinedOutput env s2 (newDeleteBridgePortCmd f (li_Name ifc))))"
proof -
  obtain e1 f1 where l: "lockVNIIPPair (li_VNI ifc) (li_GuestIP ifc) f = Inr (e1, f1)"
    using assms(1) by (auto simp: ovs_CreateLocalIfc_def split: sum.splits)
  have f1: "e1 = None" "f1 = f\<lparr>lockedVNIIPPairs := insert (pair_of (li_VNI ifc) (li_GuestIP ifc)) (lockedVNIIPPairs f)\<rparr>"
    using l assms(2) by (auto simp: lockVNIIPPair_def pair_of_def Let_def split: sum.splits if_splits)
  obtain err s3 where p: "plug_local env f1 ifc s = (err, s3)" by force
  then have "unlock_on_error (li_VNI ifc) (li_GuestIP ifc) err (f1, s3) = Inr (Some e, f', s')"
    using assms(1) l f1(1) by (simp add: ovs_CreateLocalIfc_def)
  then have u: "err = Some e" "s' = s3" "f' = f"
    using unlock_on_error_cases [of "li_VNI ifc" "li_GuestIP ifc" err f1 s3] assms(2) by (auto simp: f1(2))
  have same: "newCreateIfcCmd f1 = newCreateIfcCmd f" "newDeleteBridgePortCmd f1 = newDeleteBridgePortCmd f"
    by (simp_all add: f1(2) newCreateIfcCmd_def newDeleteBridgePortCmd_def fun_eq_iff)
  have del: "snd (deleteIfc env f1 n t) = snd (CombinedOutput env t (newDeleteBridgePortCmd f n))" for n t
    by (simp add: deleteIfc_def run_cmd_def same split: prod.splits option.splits)
  have "createIfc env f1 (li_Name ifc) (li_GuestMAC ifc) s = (None, s1)"
    using assms(3) by (simp add: createIfc_def run_cmd_def same)
  then have "\<exists>t. s3 = snd (deleteIfc env f1 (li_Name ifc) t)"
    using p u(1) by (auto simp: plug_local_def delete_on_error_def split: prod.splits sum.splits option.splits)
  then show ?thesis using u del by auto
qed

theorem failed_creation_undone_witness:
  "\<exists>e s'. ovs_CreateLocalIfc (scripted [(newGetIfcOFportCmd ''kosa'', ''no port'', Some ''exit status 1'')]) (fabric0, ()) sample_ifc
      = Inr (Some e, fabric0, s')"
proof -
  let ?env = "scripted [(newGetIfcOFportCmd ''kosa'', ''no port'', Some ''exit status 1'')]"
  have ip: "MakeUint32FromIPv4 (li_GuestIP sample_ifc) = Inr (be_or 10 0 0 6)" by (simp add: sample_ifc_def MakeUint32FromIPv4_IPv4)
  have cr: "CombinedOutput ?env () (newCreateIfcCmd f (li_Name sample_ifc) (li_GuestMAC sample_ifc)) = (([], None), ())" for f
    by (simp add: scripted_def newCreateIfcCmd_def newGetIfcOFportCmd_def exec_Command_def)
  have port: "getIfcOFport ?env f (li_Name sample_ifc) () =
      (Inl (''failed to retrieve OpenFlow port of interface kosa in bridge '' @ bridge f @ '': exit status 1: no port''), ())" for f
    by (simp add: getIfcOFport_def scripted_def sample_ifc_def TrimRight_def)
  have "\<exists>e f' s'. ovs_CreateLocalIfc ?env (fabric0, ()) sample_ifc = Inr (Some e, f', s')"
    by (simp add: ovs_CreateLocalIfc_def lockVNIIPPair_def ip fabric0_def plug_local_def createIfc_def run_cmd_def cr port
        unlock_on_error_def delete_on_error_def unlockVNIIPPair_def Let_def)
  then obtain e f' s' where r: "ovs_CreateLocalIfc ?env (fabric0, ()) sample_ifc = Inr (Some e, f', s')" by blast
  have "f' = fabric0" using failed_creation_undone [OF r _ cr] by (simp add: fabric0_def)
  then show ?thesis using r by blast
qed

section \<open>Listing\<close>

text \<open>
  C8: given a switch that prints the ports and the flows of some local interfaces, in any order
  and between other flows, the listing returns exactly these interfaces, locks their addresses,
  and deletes the devices of the bridge that have no flows.
\<close>

theorem local_listing_recovers:
  assumes "flowParsingKit f = kit" "permutes (port_order env)"
    and "ports_shown f ports ents orphans" "local_flows_shown st st' ls ents" "\<forall>e\<in>set ents. ifc_ok (snd e)"
    and "CombinedOutput env s newListOFportsAndIfcNamesCmd = ((ports_text pad ports, None), s1)"
    and "CombinedOutput env s1 (newGetFlowsCmd f) = ((flows_text ls, None), s2)"
  shows "\<exists>lis os. ovs_ListLocalIfcs env (f, s) =
      Inr (Inr lis, f\<lparr>lockedVNIIPPairs := lockedVNIIPPairs f \<union> (\<lambda>i. pair_of (li_VNI i) (li_GuestIP i)) ` set lis\<rparr>,
        deleteIncompleteIfcs env f os s2) \<and>
    mset lis = mset (map snd ents) \<and> mset os = mset (map snd orphans)"
  by (rule list_local_shown [OF assms])

definition sample_ports :: "(uint16 \<times> string) list" where
  "sample_ports = [(65534, ''kos''), (4, ''kosb''), (3, ''kosa''), (1, ''vtep'')]"

definition sample_local_lines :: "string list" where
  "sample_local_lines = ''NXST_FLOW reply (xid=0x4)'' # rev (local_lines (\<lambda>_. sample_stats) (\<lambda>_. sample_stats) (3, sample_ifc))"

definition list_env :: "unit ovs_env" where
  "list_env = scripted [(newListOFportsAndIfcNamesCmd, ports_text (\<lambda>_. 2) sample_ports, None),
     (newGetFlowsCmd fabric0, flows_text sample_local_lines, None)]"

lemma sample_lines_ok: "lines_ok sample_local_lines"
  by code_simp

lemma sample_header: "\<not> isLocal ''NXST_FLOW reply (xid=0x4)''" "\<not> isRemote ''NXST_FLOW reply (xid=0x4)''"
  by code_simp+

theorem local_listing_recovers_witness:
  "\<exists>f'. ovs_ListLocalIfcs list_env (fabric0, ()) = Inr (Inr [sample_ifc], f', ())"
proof -
  have st: "stats_ok (\<lambda>_. sample_stats)" by (simp add: stats_ok_def plain_sample_stats)
  have ok: "ifc_ok sample_ifc" by (simp add: ifc_ok_def sample_ifc_def)
  have "plain_name ''kos'' \<and> plain_name ''kosb'' \<and> plain_name ''kosa'' \<and> plain_name ''vtep''" by code_simp
  then have "ports_shown fabric0 sample_ports [(3, sample_ifc)] [(4, ''kosb'')]"
    by (simp add: ports_shown_def sample_ports_def fabric0_def sample_ifc_def add_mset_commute)
  moreover have "filter (\<lambda>l. isLocal l \<and> \<not> isTunneling l) sample_local_lines = rev (local_lines (\<lambda>_. sample_stats) (\<lambda>_. sample_stats) (3, sample_ifc))"
    using local_lines_useful [OF st st, of "(3, sample_ifc)"] ok sample_header by (simp add: sample_local_lines_def filter_id_conv)
  then have "local_flows_shown (\<lambda>_. sample_stats) (\<lambda>_. sample_stats) sample_local_lines [(3, sample_ifc)]"
    using st sample_lines_ok by (simp add: local_flows_shown_def)
  moreover have "CombinedOutput list_env () newListOFportsAndIfcNamesCmd = ((ports_text (\<lambda>_. 2) sample_ports, None), ())"
    "CombinedOutput list_env () (newGetFlowsCmd fabric0) = ((flows_text sample_local_lines, None), ())"
    by (simp_all add: list_env_def scripted_def newGetFlowsCmd_def newListOFportsAndIfcNamesCmd_def exec_Command_def)
  ultimately obtain lis f' s' where "ovs_ListLocalIfcs list_env (fabric0, ()) = Inr (Inr lis, f', s')" "mset lis = mset [sample_ifc]"
    using local_listing_recovers [of fabric0 list_env sample_ports "[(3, sample_ifc)]" "[(4, ''kosb'')]" "\<lambda>_. sample_stats"
        "\<lambda>_. sample_stats" sample_local_lines "()" "\<lambda>_. 2" "()" "()"] ok
    by (auto simp: list_env_def scripted_def fabric0_def)
  then show ?thesis by auto
qed

text \<open>
  C20: given a switch that prints the flows of some remote interfaces whose hardware addresses
  have different cookies, the listing returns exactly these interfaces and locks their addresses.
\<close>

theorem remote_listing_recovers:
  assumes "flowParsingKit f = kit" "permutes (cookie_order env)" "remote_flows_shown f st ls ris" "\<forall>i\<in>set ris. remote_ok i"
    and "CombinedOutput env s (newGetFlowsCmd f) = ((flows_text ls, None), s1)"
    and "distinct (map (\<lambda>i. flowCookie (ri_GuestMAC i)) ris)"
  shows "\<exists>lis. ovs_ListRemoteIfcs env (f, s) =
      Inr (Inr lis, f\<lparr>lockedVNIIPPairs := lockedVNIIPPairs f \<union> (\<lambda>i. pair_of (ri_VNI i) (ri_GuestIP i)) ` set lis\<rparr>, s1) \<and>
    mset lis = mset ris"
proof (rule list_remote_shown [OF assms(1-5)])
  fix lis
  assume "lis = map (\<lambda>(c, q). read_remote f q) (in_order (cookie_order env) (remote_groups f ls))"
  then have "mset lis = mset ris" using remote_listing_exact [OF assms(1-4,6)] by simp
  moreover assume "ovs_ListRemoteIfcs env (f, s) =
      Inr (Inr lis, f\<lparr>lockedVNIIPPairs := lockedVNIIPPairs f \<union> (\<lambda>i. pair_of (ri_VNI i) (ri_GuestIP i)) ` set lis\<rparr>, s1)"
  ultimately show ?thesis by blast
qed

text \<open>A switch that shows the flows of the given remote interfaces.\<close>

definition remote_dump :: "RemoteNetIfc list \<Rightarrow> string list" where
  "remote_dump ris = ''NXST_FLOW reply (xid=0x4)'' # concat (map (remote_lines (\<lambda>_. sample_stats) 1) ris)"

definition remote_env :: "RemoteNetIfc list \<Rightarrow> unit ovs_env" where
  "remote_env ris = scripted [(newGetFlowsCmd fabric0, flows_text (remote_dump ris), None)]"

lemma remote_dump_shown:
  assumes "\<forall>i\<in>set ris. remote_ok i" "lines_ok (remote_dump ris)"
  shows "remote_flows_shown fabric0 (\<lambda>_. sample_stats) (remote_dump ris) ris"
proof -
  have "isRemote l" if "i \<in> set ris" "l \<in> set (remote_lines (\<lambda>_. sample_stats) 1 i)" for i l
  proof -
    obtain a b c d where "ri_GuestIP i = IPv4 a b c d" using assms(1) \<open>i \<in> set ris\<close> by (auto simp: remote_ok_def)
    then show ?thesis using that(2) remote_line_kinds [OF plain_cookie_stats [OF plain_sample_stats]]
      by (auto simp: remote_lines_def Let_def)
  qed
  then have "filter isRemote (remote_dump ris) = concat (map (remote_lines (\<lambda>_. sample_stats) 1) ris)"
    using sample_header(2) by (auto simp: remote_dump_def filter_id_conv)
  then show ?thesis using assms(2) plain_sample_stats by (simp add: remote_flows_shown_def fabric0_def)
qed

lemma remote_env_facts:
  "flowParsingKit fabric0 = kit" "permutes (cookie_order (remote_env ris))"
  "CombinedOutput (remote_env ris) () (newGetFlowsCmd fabric0) = ((flows_text (remote_dump ris), None), ())"
  by (simp_all add: fabric0_def remote_env_def scripted_def)

lemma sample_remotes_ok: "remote_ok sample_remote" "remote_ok sample_remote2"
  by (simp_all add: remote_ok_def sample_remote_def sample_remote2_def)

theorem remote_listing_recovers_witness:
  "\<exists>f'. ovs_ListRemoteIfcs (remote_env [sample_remote]) (fabric0, ()) = Inr (Inr [sample_remote], f', ())"
proof -
  have "lines_ok (remote_dump [sample_remote])" by code_simp
  then have "remote_flows_shown fabric0 (\<lambda>_. sample_stats) (remote_dump [sample_remote]) [sample_remote]"
    using sample_remotes_ok by (intro remote_dump_shown) simp_all
  from remote_listing_recovers [OF remote_env_facts(1,2) this _ remote_env_facts(3)] sample_remotes_ok show ?thesis by force
qed

text \<open>
  The number of remote interfaces that a listing returns is the number of cookies of the
  interfaces, so interfaces with equal cookies are read as one.
\<close>

theorem remote_listing_merges:
  assumes "flowParsingKit f = kit" "permutes (cookie_order env)" "remote_flows_shown f st ls ris" "\<forall>i\<in>set ris. remote_ok i"
    and "CombinedOutput env s (newGetFlowsCmd f) = ((flows_text ls, None), s1)"
  shows "\<exists>lis f'. ovs_ListRemoteIfcs env (f, s) = Inr (Inr lis, f', s1) \<and>
    length lis = card ((\<lambda>i. flowCookie (ri_GuestMAC i)) ` set ris)"
proof (rule list_remote_shown [OF assms])
  fix lis
  assume "lis = map (\<lambda>(c, q). read_remote f q) (in_order (cookie_order env) (remote_groups f ls))"
  then have "length lis = card ((\<lambda>i. flowCookie (ri_GuestMAC i)) ` set ris)"
    using remote_listing_length [OF assms(1-3)] by simp
  moreover assume "ovs_ListRemoteIfcs env (f, s) =
      Inr (Inr lis, f\<lparr>lockedVNIIPPairs := lockedVNIIPPairs f \<union> (\<lambda>i. pair_of (ri_VNI i) (ri_GuestIP i)) ` set lis\<rparr>, s1)"
  ultimately show ?thesis by blast
qed

theorem remote_listing_merges_witness:
  "\<exists>i f'. sample_remote \<noteq> sample_remote2 \<and>
     ovs_ListRemoteIfcs (remote_env [sample_remote, sample_remote2]) (fabric0, ()) = Inr (Inr [i], f', ())"
proof -
  have "lines_ok (remote_dump [sample_remote, sample_remote2])" by code_simp
  then have sh: "remote_flows_shown fabric0 (\<lambda>_. sample_stats) (remote_dump [sample_remote, sample_remote2]) [sample_remote, sample_remote2]"
    using sample_remotes_ok by (intro remote_dump_shown) simp_all
  have "(\<lambda>i. flowCookie (ri_GuestMAC i)) ` set [sample_remote, sample_remote2] = {2}"
    by (simp add: flowCookie_def Uvarint_def sample_remote_def sample_remote2_def)
  then obtain lis f' where "ovs_ListRemoteIfcs (remote_env [sample_remote, sample_remote2]) (fabric0, ()) = Inr (Inr lis, f', ())" "length lis = 1"
    using remote_listing_merges [OF remote_env_facts(1,2) sh _ remote_env_facts(3)] sample_remotes_ok by auto
  then show ?thesis by (auto simp: length_Suc_conv sample_remote_def sample_remote2_def)
qed

text \<open>
  A listing of remote interfaces panics when some cookie has a single flow, as after one of
  the two flows of an interface expired or was removed by hand.
\<close>

theorem half_pair_panics:
  assumes "permutes (cookie_order env)" "getFlows env f s = (Inr ls, s1)"
    and "filter (\<lambda>l. isRemote l \<and> extractCookie f l = c) ls = [l]"
  shows "ovs_ListRemoteIfcs env (f, s) = Inl IndexOutOfRange"
proof -
  let ?m = "remote_groups f ls"
  have "filter (\<lambda>l. extractCookie f l = c) (onlyRemoteFlowsFunc ls) = [l]" using assms(3) by (simp add: onlyRemote_filter conj_commute)
  then have "map_of ?m c = Some [l]" by (simp add: remote_groups_def group_flows_new)
  moreover have "set (in_order (cookie_order env) ?m) = set ?m"
    unfolding remote_groups_def by (intro mset_eq_setD mset_in_order assms(1) distinct_group_flows) simp
  ultimately have "[l] \<in> set (map snd (in_order (cookie_order env) ?m))" by (force dest: map_of_SomeD)
  moreover have "pairRemoteFlowsPerIfc (cookie_order env) f (onlyRemoteFlowsFunc ls) = map snd (in_order (cookie_order env) ?m)"
    by (simp add: pairRemoteFlowsPerIfc_def in_order_def remote_groups_def comp_def Let_def)
  moreover have "[l] \<in> set qs \<Longrightarrow> parseRemoteFlowsPairs f qs = Inl IndexOutOfRange" for qs
    by (induction qs) (auto simp: log_pair_def parseRemoteFlowPair_def split: sum.splits)
  ultimately show ?thesis using assms(2) by (simp add: ovs_ListRemoteIfcs_def getRemoteFlows_def Let_def)
qed

definition half_line :: string where
  "half_line = hd (remote_lines (\<lambda>_. sample_stats) 1 sample_remote)"

definition half_env :: "unit ovs_env" where
  "half_env = scripted [(newGetFlowsCmd fabric0, half_line, None)]"

theorem half_pair_panics_witness: "ovs_ListRemoteIfcs half_env (fabric0, ()) = Inl IndexOutOfRange"
proof -
  have "TrimRight half_line [newline] = half_line \<and> newline \<notin> set half_line" by code_simp
  then have "getFlows half_env fabric0 () = (Inr [half_line], ())"
    by (simp add: getFlows_def half_env_def scripted_def parseGetFlowsOutput_def split_on_no_sep)
  moreover have "isRemote half_line" by code_simp
  moreover have "permutes (cookie_order half_env)" by (simp add: half_env_def scripted_def)
  ultimately show ?thesis
    by (intro half_pair_panics [where c = "extractCookie fabric0 half_line" and ls = "[half_line]" and l = half_line]) simp_all
qed

section \<open>Deletion of missing interfaces\<close>

text \<open>
  The interface of network fabrics demands that the deletion of an interface that does not
  exist succeeds; \<open>DeleteLocalIfc\<close> first asks the switch for the port of the device and returns
  its error, so the fabric does not satisfy the contract once the switch reports missing devices.
\<close>

theorem missing_delete_fails:
  fixes li :: LocalNetIfc and f :: ovsFabric
  assumes "CombinedOutput env s (newGetIfcOFportCmd (li_Name li)) = ((out, Some e), s')"
    and "invar (f, s)" "locals (f, s) (li_Name li) = None"
  shows "\<not> network_fabric (ovs_fabric env) invar locals remotes"
proof
  assume "network_fabric (ovs_fabric env) invar locals remotes"
  from network_fabric.delete_missing_local [OF this assms(2,3)]
  show False using assms(1) by (auto simp: ovs_fabric_def ovs_DeleteLocalIfc_def getIfcOFport_def Let_def)
qed

theorem missing_delete_fails_witness:
  "\<not> network_fabric (ovs_fabric (scripted [(newGetIfcOFportCmd ''kosa'', ''no row \"kosa\" in table Interface'', Some ''exit status 1'')]))
     (\<lambda>_. True) (\<lambda>_. Map.empty) (\<lambda>_. Map.empty)"
  by (rule missing_delete_fails [where li = sample_ifc]) (simp_all add: scripted_def sample_ifc_def)

section \<open>Start\<close>

text \<open>
  The fabric that the registry gives for the name of this fabric works on the bridge
  \<open>kos\<close> with all the regular expressions set and no address locked, whatever the switch answers,
  and it knows the port that the switch reports for the tunnel device.
\<close>

theorem started_fabric_ready:
  assumes "ovs_init env registry = Inr registry'" "NewNetFabricForName iter registry' ovs_name s = (Inr f, s')"
  shows "bridge f = ''kos'' \<and> vtep f = ''vtep'' \<and> flowParsingKit f = kit \<and> lockedVNIIPPairs f = {} \<and>
    (\<exists>s1 out s2. CombinedOutput env s1 (newGetIfcOFportCmd ''vtep'') = ((out, None), s2) \<and>
       vtepOFport f = parseOFport (TrimRight out [newline]))"
proof -
  have "newFactory env ''kos'' s = (Inr f, s')"
    using assms registered_used(1) [of registry "newFactory env ''kos''" ovs_name registry' iter s] by (simp add: ovs_init_def)
  then obtain out s1 s2 where "CombinedOutput env s1 (newGetIfcOFportCmd ''vtep'') = ((out, None), s2)"
    "f = \<lparr>bridge = ''kos'', vtep = ''vtep'', vtepOFport = parseOFport (TrimRight out [newline]), flowParsingKit = kit,
       lockedVNIIPPairs = {}\<rparr>"
    by (auto simp: newFactory_def initFlowsParsingKit_def initBridge_def getIfcOFport_def Let_def
        split: prod.splits option.splits sum.splits)
  then show ?thesis by auto
qed

theorem started_fabric_ready_witness:
  "\<exists>registry' f s'. ovs_init (scripted [(newGetIfcOFportCmd ''vtep'', [CHR ''1'', newline], None)]) [] = Inr registry' \<and>
     NewNetFabricForName id registry' ovs_name () = (Inr f, s') \<and> f = fabric0"
proof -
  let ?env = "scripted [(newGetIfcOFportCmd ''vtep'', [CHR ''1'', newline], None)]"
  obtain registry' where r: "ovs_init ?env [] = Inr registry'" by (simp add: ovs_init_def RegisterFactory_def)
  have port: "parseOFport (TrimRight [CHR ''1'', newline] [newline]) = 1" by code_simp
  have out: "CombinedOutput ?env s c = ((if c = newGetIfcOFportCmd ''vtep'' then ([CHR ''1'', newline], None) else ([], None)), s)" for s c
    by (simp add: scripted_def)
  obtain f s' where n: "NewNetFabricForName id registry' ovs_name () = (Inr f, s')"
    using r by (auto simp: ovs_init_def RegisterFactory_def NewNetFabricForName_def newFactory_def initBridge_def createBridge_def addVTEP_def
        addDefaultFlows_def run_cmd_def getIfcOFport_def out Let_def split: prod.splits option.splits)
  from started_fabric_ready [OF r n] have "f = fabric0" using port by (auto simp: out fabric0_def intro!: ovsFabric.equality)
  with r n show ?thesis by blast
qed

end
