(* ===== verification/Driver_Work.thy ===== *)
theory Driver_Work
  imports Kos_Prelude "HOL-Library.Multiset"
begin

text \<open>
  How the throughput driver (\<open>cmd/attachment-tput-driver/main.go\<close>) splits its slots among its
  threads: the list of all slots that \<open>main\<close> builds, \<open>shuffle\<close>, \<open>selectWork\<close> and the number of
  attachments of a thread. The results of \<open>rand.Intn\<close> are an argument. An index out of range is
  a panic.
\<close>

section \<open>Definitions\<close>

text \<open>\<open>VirtNetAttachment\<close>: the index of a virtual network and of a slot in it.\<close>

type_synonym VirtNetAttachment = "nat \<times> nat"

definition go_nth :: "'a list \<Rightarrow> nat \<Rightarrow> (go_panic, 'a) result" where
  "go_nth xs i = (if i < length xs then Inr (xs ! i) else Inl IndexOutOfRange)"

text \<open>The loops of \<open>main\<close> that fill \<open>vnAttachments\<close>, given the sizes of the networks.\<close>

definition vn_attachments :: "nat list \<Rightarrow> VirtNetAttachment list" where
  "vn_attachments sizes = concat (map (\<lambda>i. map (Pair i) [0..<sizes ! i]) [0..<length sizes])"

definition thread_share :: "nat \<Rightarrow> nat \<Rightarrow> nat \<Rightarrow> nat" where
  "thread_share tot num_threads thd = (tot + num_threads - 1 - thd) div num_threads"

fun select_loop :: "nat \<Rightarrow> nat \<Rightarrow> 'a list \<Rightarrow> nat \<Rightarrow> nat \<Rightarrow> (go_panic, 'a list) result" where
  "select_loop thd num_threads frum i 0 = Inr []"
| "select_loop thd num_threads frum i (Suc left) =
     (case go_nth frum (thd + i * num_threads) of
        Inl p \<Rightarrow> Inl p
      | Inr x \<Rightarrow> map_sum id (Cons x) (select_loop thd num_threads frum (Suc i) left))"

definition selectWork :: "nat \<Rightarrow> nat \<Rightarrow> 'a list \<Rightarrow> (go_panic, 'a list) result" where
  "selectWork thd num_threads frum =
     select_loop thd num_threads frum 0 (thread_share (length frum) num_threads thd)"

text \<open>
  The loop of \<open>shuffle\<close> by the number \<open>rem\<close> of elements that remain, which identifies the call
  of \<open>rand.Intn(rem)\<close>, whose result is \<open>intn rem\<close>.
\<close>

fun shuffle_loop :: "(nat \<Rightarrow> nat) \<Rightarrow> nat \<Rightarrow> 'a list \<Rightarrow> (go_panic, 'a list) result" where
  "shuffle_loop intn (Suc (Suc r)) x =
     (let j = intn (Suc (Suc r)) in
      case go_nth x j of
        Inl p \<Rightarrow> Inl p
      | Inr a \<Rightarrow>
          map_sum id (Cons a)
            (shuffle_loop intn (Suc r) (if j \<noteq> Suc r then x[j := x ! Suc r] else x)))"
| "shuffle_loop intn r x = map_sum id (\<lambda>a. [a]) (go_nth x 0)"

definition shuffle :: "(nat \<Rightarrow> nat) \<Rightarrow> 'a list \<Rightarrow> (go_panic, 'a list) result" where
  "shuffle intn x = (if length x < 2 then Inr x else shuffle_loop intn (length x) x)"

section \<open>Shuffling is a permutation\<close>

lemma mset_take_swap_last:
  assumes "j \<le> r" "r < length x"
  shows "mset (take (Suc r) x) = add_mset (x ! j) (mset (take r (if j \<noteq> r then x[j := x ! r] else x)))"
proof (cases "j = r")
  case True
  then show ?thesis using assms by (simp add: take_Suc_conv_app_nth)
next
  case False
  then have "j < length (take r x)" using assms by simp
  then have "mset ((take r x)[j := x ! r]) = add_mset (x ! r) (mset (take r x) - {#x ! j#})"
    using assms False by (simp add: mset_update)
  moreover have "x ! j \<in># mset (take r x)"
    using False assms by (auto simp: in_set_conv_nth intro!: exI [of _ j])
  ultimately show ?thesis
    using assms False by (simp add: take_Suc_conv_app_nth take_update_swap)
qed

lemma shuffle_loop_mset:
  assumes "\<forall>m>0. intn m < m" "0 < r" "r \<le> length x"
  shows "\<exists>y. shuffle_loop intn r x = Inr y \<and> mset y = mset (take r x)"
  using assms
proof (induction intn r x rule: shuffle_loop.induct)
  case (1 intn r x)
  let ?j = "intn (Suc (Suc r))"
  let ?x = "if ?j \<noteq> Suc r then x[?j := x ! Suc r] else x"
  have j: "?j < Suc (Suc r)" using "1.prems" by blast
  then have nth: "go_nth x ?j = Inr (x ! ?j)" 
    using "1.prems"(3) less_le_trans by (fastforce simp: go_nth_def)
  moreover have le: "Suc r \<le> length ?x" using "1.prems"(3) by simp
  ultimately obtain y where y: "shuffle_loop intn (Suc r) ?x = Inr y" "mset y = mset (take (Suc r) ?x)"
    using "1.IH" [OF refl nth "1.prems"(1) _ le] by blast
  have "mset (take (Suc (Suc r)) x) = add_mset (x ! ?j) (mset (take (Suc r) ?x))"
    using j "1.prems"(3) by (intro mset_take_swap_last) simp_all
  then have "mset (x ! ?j # y) = mset (take (Suc (Suc r)) x)" using y(2) by (simp only: mset.simps)
  moreover have "shuffle_loop intn (Suc (Suc r)) x = Inr (x ! ?j # y)"
    by (simp only: shuffle_loop.simps Let_def nth y(1) sum.case map_sum.simps)
  ultimately show ?case by blast
qed (auto simp: go_nth_def take_Suc_conv_app_nth)

lemma shuffle_permutes:
  assumes "\<forall>m>0. intn m < m"
  shows "\<exists>y. shuffle intn x = Inr y \<and> mset y = mset x"
proof (cases "length x < 2")
  case False
  then have "0 < length x" by linarith
  then show ?thesis using shuffle_loop_mset [OF assms, of "length x" x] False by (simp add: shuffle_def)
qed (simp add: shuffle_def)

section \<open>The shares of the threads\<close>

text \<open>The share of a thread counts the numbers below the tot that are congruent to it.\<close>

lemma thread_share_less:
  assumes "thd < nt"
  shows "i < thread_share tot nt thd \<longleftrightarrow> thd + i * nt < tot"
proof -
  have "i < thread_share tot nt thd \<longleftrightarrow> Suc i * nt \<le> tot + nt - 1 - thd"
    using assms unfolding thread_share_def Suc_le_eq [symmetric]
    by (subst less_eq_div_iff_mult_less_eq) auto
  also have "\<dots> \<longleftrightarrow> thd + i * nt < tot" using assms by (auto simp: algebra_simps)
  finally show ?thesis .
qed

lemma select_loop_run:
  assumes "\<forall>k<left. thd + (i + k) * nt < length frum"
  shows "select_loop thd nt frum i left = Inr (map (\<lambda>k. frum ! (thd + k * nt)) [i..<i + left])"
  using assms
proof (induction left arbitrary: i)
  case (Suc left)
  have "\<forall>k<left. thd + (Suc i + k) * nt < length frum"
    using Suc.prems by (metis Suc_less_eq add_Suc add_Suc_right)
  moreover have "thd + i * nt < length frum" using Suc.prems by force
  moreover have "[i..<i + Suc left] = i # [Suc i..<Suc i + left]" by (simp add: upt_conv_Cons del: upt_Suc)
  ultimately show ?case using Suc.IH [of "Suc i"] by (simp add: go_nth_def del: upt_Suc)
qed simp

lemma selectWork_runs:
  assumes "thd < nt"
  shows "selectWork thd nt frum =
    Inr (map (\<lambda>k. frum ! (thd + k * nt)) [0..<thread_share (length frum) nt thd])"
  using select_loop_run [of "thread_share (length frum) nt thd" thd 0 nt frum] thread_share_less [OF assms]
  by (simp add: selectWork_def)

definition work_of :: "nat \<Rightarrow> nat \<Rightarrow> 'a list \<Rightarrow> 'a list" where
  "work_of nt thd frum = map (\<lambda>k. frum ! (thd + k * nt)) [0..<thread_share (length frum) nt thd]"

lemma share_indices:
  assumes "thd < nt"
  shows "mset (map (\<lambda>k. thd + k * nt) [0..<thread_share tot nt thd]) =
    mset_set {i. i < tot \<and> i mod nt = thd}"
proof -
  have inj: "inj_on (\<lambda>k. thd + k * nt) {0..<thread_share tot nt thd}" using assms by (auto simp: inj_on_def)
  have "(\<lambda>k. thd + k * nt) ` {0..<thread_share tot nt thd} = {i. i < tot \<and> i mod nt = thd}"
  proof (intro equalityI subsetI)
    fix i assume i: "i \<in> {i. i < tot \<and> i mod nt = thd}"
    then have "i = thd + (i div nt) * nt" by auto
    then show "i \<in> (\<lambda>k. thd + k * nt) ` {0..<thread_share tot nt thd}"
      using i thread_share_less [OF assms] by (metis (mono_tags, lifting) atLeast0LessThan imageI lessThan_iff mem_Collect_eq)
  qed (use assms thread_share_less [OF assms] in auto)
  then show ?thesis using image_mset_mset_set [OF inj] by simp
qed

lemma partition_mod:
  fixes k :: nat
  shows
  "(\<Sum>thd<k. mset_set {i. i < tot \<and> i mod nt = thd}) = mset_set {i. i < tot \<and> i mod nt < k}"
proof (induction k)
  case (Suc k)
  have "{i. i < tot \<and> i mod nt < Suc k} = {i. i < tot \<and> i mod nt < k} \<union> {i. i < tot \<and> i mod nt = k}"
    by auto
  moreover have "mset_set \<dots> = mset_set {i. i < tot \<and> i mod nt < k} + mset_set {i. i < tot \<and> i mod nt = k}"
    by (rule mset_set_Union) auto
  ultimately show ?case using Suc by simp
qed simp

lemma image_mset_sum_less: "image_mset f (\<Sum>i<(n::nat). A i) = (\<Sum>i<n. image_mset f (A i))"
  by (induction n) auto

lemma work_partitions:
  assumes "0 < nt"
  shows "(\<Sum>thd<nt. mset (work_of nt thd frum)) = mset frum"
proof -
  have "mset (work_of nt thd frum) =
      image_mset ((!) frum) (mset_set {i. i < length frum \<and> i mod nt = thd})" if "thd < nt" for thd
    unfolding share_indices [OF that, symmetric] work_of_def mset_map [symmetric] map_map comp_def ..
  then have "(\<Sum>thd<nt. mset (work_of nt thd frum)) =
      image_mset ((!) frum) (\<Sum>thd<nt. mset_set {i. i < length frum \<and> i mod nt = thd})"
    by (simp add: image_mset_sum_less)
  also have "\<dots> = image_mset ((!) frum) (mset_set {0..<length frum})"
    using partition_mod [of "length frum" nt nt] assms by (simp add: atLeast0LessThan lessThan_def)
  also have "\<dots> = mset frum"
    by (metis map_nth mset_map mset_upt)
  finally show ?thesis .
qed

lemma thread_shares_sum:
  assumes "0 < nt"
  shows "(\<Sum>thd<nt. thread_share tot nt thd) = tot"
proof -
  have "thread_share tot nt thd = size (mset (work_of nt thd (replicate tot ())))" for thd
    by (simp add: work_of_def)
  then have "(\<Sum>thd<nt. thread_share tot nt thd) = size (\<Sum>thd<nt. mset (work_of nt thd (replicate tot ())))"
    by (simp only: size_multiset_sum)
  then show ?thesis using work_partitions [OF assms, of "replicate tot ()"] by simp
qed

section \<open>The slots of the networks\<close>

lemma vn_attachments_slots:
  "distinct (vn_attachments sizes) \<and> set (vn_attachments sizes) = {(i, j). i < length sizes \<and> j < sizes ! i}"
proof
  have "distinct (concat (map (\<lambda>i. map (Pair i) [0..<sizes ! i]) is))" if "distinct is" for "is"
    using that by (induction "is") (auto simp: distinct_map inj_on_def)
  then show "distinct (vn_attachments sizes)" by (simp add: vn_attachments_def)
qed (auto simp: vn_attachments_def)

end
