(* ===== verification/Driver.thy ===== *)
theory Driver
  imports Driver_Work Kube_Client
begin

text \<open>
  The state that the threads and notification handlers of the throughput driver
  (\<open>cmd/attachment-tput-driver/main.go\<close>) share, and the operations on it, in the order of the
  source: tracking histograms, connectivity domains, slots, the two indices of addresses of a
  virtual network, and the handlers. Each operation is what runs under the mutex that the code
  holds. A time and a duration are numbers of nanoseconds; \<open>now\<close> is what \<open>time.Now()\<close> returns.
  The log lines are events, in the order in which they are written.
\<close>

section \<open>Attachments with their annotations and labels\<close>

record drv_attachment = NetworkAttachment +
  att_Annotations :: "(string \<rightharpoonup> string) option"
  att_Labels :: "string \<rightharpoonup> string"

abbreviation natt_Name :: "drv_attachment \<Rightarrow> string" where
  "natt_Name a \<equiv> meta_Name (att_meta a)"
abbreviation natt_Namespace :: "drv_attachment \<Rightarrow> string" where
  "natt_Namespace a \<equiv> meta_Namespace (att_meta a)"
abbreviation natt_IPv4 :: "drv_attachment \<Rightarrow> string" where
  "natt_IPv4 a \<equiv> Status_IPv4 (att_Status a)"

definition slotKey :: string where
  "slotKey = ''slot''"

text \<open>\<open>strconv.Atoi\<close>: an optional sign and decimal digits, in the range of a 64 bit integer.\<close>

definition Atoi :: "string \<Rightarrow> int option" where
  "Atoi s =
     (let neg = (s \<noteq> [] \<and> hd s = CHR ''-'');
          t = (if s \<noteq> [] \<and> (hd s = CHR ''-'' \<or> hd s = CHR ''+'') then tl s else s)
      in case ParseUint t 10 64 of
           (m, None) \<Rightarrow>
             if neg then (if m \<le> 2 ^ 63 then Some (- int m) else None)
             else (if m < 2 ^ 63 then Some (int m) else None)
         | (_, Some _) \<Rightarrow> None)"

section \<open>Flags and counters\<close>

record driver_flags =
  fl_kubeNS :: string
  fl_omitTest :: bool
  fl_pendingWait :: int
  fl_pingCount :: int
  fl_stopOnPingFail :: bool
  fl_stopOnBreak :: bool
  fl_waitAfterCreate :: int
  fl_num_attachments :: nat
  fl_threads :: nat
  fl_onlyNode :: string
  fl_roundRobin :: bool
  fl_runID :: string

datatype drv_event =
    Tardy string string
  | GotAddress string string
  | ChangedAddress string string string
  | BadIPv4 string string
  | NotInRange string string
  | MultipleOwners string "string set"
  | OldAddressTaken string string string
  | NewAddressTaken string string string
  | BecameReady string
  | Remaining uint32
  | FailedTest string int
  | WasTested string int
  | ObservedBroken string
  | GotNoAddress string
  | GotNoState string
  | TestIncomplete string

datatype hist_name =
    CreateLatency | CreateToAddressed | CreateToReady | CreateToBroken | CreateToTested
  | ReadyToTested | DeleteLatency

record trackingHistogram =
  th_observed :: "int list"
  th_maxX :: int
  th_maxNS :: string
  th_maxName :: string

definition NewTrackingHistogram :: trackingHistogram where
  "NewTrackingHistogram = \<lparr>th_observed = [], th_maxX = 0, th_maxNS = [], th_maxName = []\<rparr>"

definition ObserveAt :: "int \<Rightarrow> string \<Rightarrow> string \<Rightarrow> trackingHistogram \<Rightarrow> trackingHistogram" where
  "ObserveAt x ns name th =
     (let th1 = th\<lparr>th_observed := th_observed th @ [x]\<rparr> in
      if th_maxX th < x then th1\<lparr>th_maxX := x, th_maxNS := ns, th_maxName := name\<rparr> else th1)"

text \<open>What a call to the API server was for.\<close>

datatype api_call = CreateCall drv_attachment | DeleteCall string

record drv_globals =
  multiOwnerWarnings :: uint32
  stoppers :: uint32
  readyCount :: uint32
  nnsCount :: uint32
  xtraDelayI :: int
  hists :: "hist_name \<Rightarrow> trackingHistogram"
  testESs :: "(int \<times> bool) list"
  successfulCreates :: nat
  failedCreates :: nat
  successfulDeletes :: nat
  failedDeletes :: nat
  drv_log :: "drv_event list"
  api_calls :: "api_call list"

definition log_event :: "drv_event list \<Rightarrow> drv_globals \<Rightarrow> drv_globals" where
  "log_event es g = g\<lparr>drv_log := drv_log g @ es\<rparr>"

definition observe_hist :: "hist_name \<Rightarrow> int \<Rightarrow> string \<Rightarrow> string \<Rightarrow> drv_globals \<Rightarrow> drv_globals" where
  "observe_hist h x ns name g = g\<lparr>hists := (hists g)(h := ObserveAt x ns name (hists g h))\<rparr>"

section \<open>Connectivity domains\<close>

record ConnectivityDomain =
  cd_VNI :: uint32
  numWaiters :: int
  startOfFirstWait :: gotime
  latestIndex :: int
  pendingIndices :: "nat set"

definition NoteTested :: "nat \<Rightarrow> ConnectivityDomain option \<Rightarrow> ConnectivityDomain option" where
  "NoteTested slotIndex = map_option (\<lambda>cd.
     cd\<lparr>pendingIndices := pendingIndices cd - {slotIndex}, latestIndex := int slotIndex\<rparr>)"

definition NotePending :: "nat \<Rightarrow> ConnectivityDomain option \<Rightarrow> ConnectivityDomain option" where
  "NotePending slotIndex = map_option (\<lambda>cd.
     cd\<lparr>pendingIndices := insert slotIndex (pendingIndices cd)\<rparr>)"

definition NoteNoTest :: "nat \<Rightarrow> ConnectivityDomain option \<Rightarrow> ConnectivityDomain option" where
  "NoteNoTest slotIndex = map_option (\<lambda>cd.
     let cd1 = cd\<lparr>pendingIndices := pendingIndices cd - {slotIndex}\<rparr> in
     if latestIndex cd1 = int slotIndex then cd1\<lparr>latestIndex := -1\<rparr> else cd1)"

section \<open>Slots\<close>

record Slot =
  nextIndex :: uint32
  currentAttachmentName :: string
  currentNodeName :: string
  preCreateTime :: gotime
  postCreateTime :: gotime
  addressedTime :: gotime
  readyTime :: gotime
  fullTest :: bool
  testES :: int
  testedTime :: gotime
  brokenTime :: gotime
  slot_natt :: "drv_attachment option"

definition setCurrentName :: "nat \<Rightarrow> string \<Rightarrow> string \<Rightarrow> Slot \<Rightarrow> ConnectivityDomain option
    \<Rightarrow> Slot \<times> ConnectivityDomain option" where
  "setCurrentName slotIndex attName nodeName slot cd =
     (slot\<lparr>currentAttachmentName := attName, currentNodeName := nodeName,
           preCreateTime := 0, postCreateTime := 0, addressedTime := 0, readyTime := 0,
           testedTime := 0, brokenTime := 0, slot_natt := None, testES := -5\<rparr>,
      if attName = [] then NoteNoTest slotIndex cd else NotePending slotIndex cd)"

definition setNetAtt :: "gotime \<Rightarrow> gotime \<Rightarrow> drv_attachment \<Rightarrow> bool \<Rightarrow> Slot \<Rightarrow> Slot" where
  "setNetAtt pre post natt full slot =
     slot\<lparr>preCreateTime := pre, postCreateTime := post, slot_natt := Some natt, fullTest := full\<rparr>"

section \<open>Virtual networks and their indices of addresses\<close>

record VirtNet =
  vn_ID :: uint32
  vn_size :: nat
  addr0I :: uint32
  addrFI :: uint32
  prefixLen :: int
  subnets :: "Subnet list"
  theCD :: "ConnectivityDomain option"
  slots :: "Slot list"
  createdCount :: uint32
  addrs :: "string \<rightharpoonup> string set"
  nodeMap :: "string \<rightharpoonup> (string \<rightharpoonup> string)"

definition ipAddressChangedInNS :: "string \<Rightarrow> string \<Rightarrow> string \<Rightarrow> VirtNet \<Rightarrow> drv_globals
    \<Rightarrow> VirtNet \<times> drv_globals" where
  "ipAddressChangedInNS oldIPv4 newIPv4 attName vn g =
     (let m1 = (if oldIPv4 = [] then addrs vn
                else case addrs vn oldIPv4 of
                       None \<Rightarrow> addrs vn
                     | Some oldSet \<Rightarrow>
                         if oldSet - {attName} = {} then (addrs vn)(oldIPv4 := None)
                         else (addrs vn)(oldIPv4 \<mapsto> oldSet - {attName}))
      in if newIPv4 = [] then (vn\<lparr>addrs := m1\<rparr>, g)
         else
           (let newSet = insert attName (case m1 newIPv4 of None \<Rightarrow> {} | Some S \<Rightarrow> S);
                vn1 = vn\<lparr>addrs := m1(newIPv4 \<mapsto> newSet)\<rparr>
            in if 1 < card newSet
               then (vn1, log_event [MultipleOwners newIPv4 newSet]
                            (g\<lparr>multiOwnerWarnings := multiOwnerWarnings g + 1\<rparr>))
               else (vn1, g)))"

definition ipAddressChangedAtNode :: "string \<Rightarrow> string \<Rightarrow> string \<Rightarrow> string \<Rightarrow> VirtNet \<Rightarrow> drv_globals
    \<Rightarrow> VirtNet \<times> drv_globals" where
  "ipAddressChangedAtNode nodeName oldIPv4 newIPv4 attName vn g =
     (let nd = (case nodeMap vn nodeName of None \<Rightarrow> Map.empty | Some ipToName \<Rightarrow> ipToName);
          oldName = (case nd oldIPv4 of None \<Rightarrow> [] | Some name \<Rightarrow> name);
          (nd1, g1) =
            (if oldIPv4 = [] then (nd, g)
             else if oldName = attName then (nd(oldIPv4 := None), g)
             else (nd, log_event [OldAddressTaken oldName attName oldIPv4] g));
          currentOwner = (case nd1 newIPv4 of None \<Rightarrow> [] | Some name \<Rightarrow> name);
          (nd2, g2) =
            (if newIPv4 = [] then (nd1, g1)
             else (nd1(newIPv4 \<mapsto> attName),
                   if currentOwner \<noteq> [] then log_event [NewAddressTaken attName currentOwner newIPv4] g1
                   else g1))
      in (vn\<lparr>nodeMap := (nodeMap vn)(nodeName \<mapsto> nd2)\<rparr>, g2))"

definition ipAddressChanged :: "string \<Rightarrow> string \<Rightarrow> string \<Rightarrow> string \<Rightarrow> VirtNet \<Rightarrow> drv_globals
    \<Rightarrow> VirtNet \<times> drv_globals" where
  "ipAddressChanged nodeName oldIPv4 newIPv4 attName vn g =
     (let (vn1, g1) = ipAddressChangedAtNode nodeName oldIPv4 newIPv4 attName vn g
      in ipAddressChangedInNS oldIPv4 newIPv4 attName vn1 g1)"

section \<open>Notifications of attachments\<close>

text \<open>The check of a new address against the range of the network, which is only logged.\<close>

definition check_address :: "VirtNet \<Rightarrow> drv_attachment \<Rightarrow> (go_panic, drv_event list) result" where
  "check_address vn natt =
     (if natt_IPv4 natt = [] then Inr []
      else
        (let addr = ParseIP (natt_IPv4 natt) in
         if addr = [] then Inr [BadIPv4 (natt_Name natt) (natt_IPv4 natt)]
         else
           (case MakeUint32FromIPv4 addr of
              Inl p \<Rightarrow> Inl p
            | Inr addrI \<Rightarrow>
                if addrI < addr0I vn + 2 \<or> addrFI vn \<le> addrI
                then Inr [NotInRange (natt_Name natt) (natt_IPv4 natt)] else Inr [])))"

definition observe_address :: "drv_attachment \<Rightarrow> Slot \<Rightarrow> VirtNet \<Rightarrow> drv_globals
    \<Rightarrow> (go_panic, VirtNet \<times> drv_globals) result" where
  "observe_address natt slot vn g =
     (let oldIPv4 = (case slot_natt slot of None \<Rightarrow> [] | Some a \<Rightarrow> natt_IPv4 a);
          newIPv4 = natt_IPv4 natt
      in if oldIPv4 = newIPv4 then Inr (vn, g)
         else
           (let e = (if oldIPv4 = [] then GotAddress (currentAttachmentName slot) newIPv4
                     else ChangedAddress (currentAttachmentName slot) oldIPv4 newIPv4)
            in case check_address vn natt of
                 Inl p \<Rightarrow> Inl p
               | Inr es \<Rightarrow>
                   Inr (ipAddressChanged (currentNodeName slot) oldIPv4 newIPv4
                          (currentAttachmentName slot) vn (log_event (e # es) g))))"

definition observe_ready :: "driver_flags \<Rightarrow> gotime \<Rightarrow> Slot \<Rightarrow> drv_globals \<Rightarrow> Slot \<times> drv_globals" where
  "observe_ready fl now slot g =
     (if readyTime slot \<noteq> 0 then (slot, g)
      else
        (let g1 = log_event [BecameReady (currentAttachmentName slot)] g in
         if fl_waitAfterCreate fl = 0 then (slot\<lparr>readyTime := now\<rparr>, g1)
         else
           (let count = readyCount g + 1;
                rest = of_nat (fl_num_attachments fl) - count;
                g2 = g1\<lparr>readyCount := count\<rparr>
            in (slot\<lparr>readyTime := now\<rparr>,
                if rest AND (rest - 1) = 0 then log_event [Remaining rest] g2 else g2))))"

definition observe_tested :: "driver_flags \<Rightarrow> gotime \<Rightarrow> nat \<Rightarrow> ExecReport option \<Rightarrow> Slot
    \<Rightarrow> ConnectivityDomain option \<Rightarrow> drv_globals \<Rightarrow> Slot \<times> ConnectivityDomain option \<times> drv_globals" where
  "observe_tested fl now slotIndex report slot cd g =
     (case report of
        None \<Rightarrow> (slot, cd, g)
      | Some cr \<Rightarrow>
          if testedTime slot \<noteq> 0 then (slot, cd, g)
          else
            (let name = currentAttachmentName slot;
                 es = ExitStatus cr;
                 g1 = (if es \<noteq> 0 then log_event [FailedTest name es] g else g);
                 g2 = (if es \<noteq> 0 \<and> fl_stopOnPingFail fl then g1\<lparr>stoppers := stoppers g1 + 1\<rparr> else g1)
             in (slot\<lparr>testedTime := now, testES := es\<rparr>,
                 if es = 0 then NoteTested slotIndex cd else NoteNoTest slotIndex cd,
                 log_event [WasTested name es] g2)))"

definition observe_broken :: "driver_flags \<Rightarrow> gotime \<Rightarrow> nat \<Rightarrow> drv_attachment \<Rightarrow> Slot
    \<Rightarrow> ConnectivityDomain option \<Rightarrow> drv_globals \<Rightarrow> Slot \<times> ConnectivityDomain option \<times> drv_globals" where
  "observe_broken fl now slotIndex natt slot cd g =
     (let errs = Errors (att_Status natt) in
      if (IPAM_errs errs \<noteq> [] \<or> Host_errs errs \<noteq> []) \<and> brokenTime slot = 0 then
        (slot\<lparr>brokenTime := now\<rparr>, NoteNoTest slotIndex cd,
         (let g1 = log_event [ObservedBroken (natt_Name natt)] g in
          if fl_stopOnBreak fl then g1\<lparr>stoppers := stoppers g1 + 1\<rparr> else g1))
      else (slot, cd, g))"

definition observe_progress :: "driver_flags \<Rightarrow> gotime \<Rightarrow> nat \<Rightarrow> drv_attachment \<Rightarrow> Slot
    \<Rightarrow> ConnectivityDomain option \<Rightarrow> drv_globals \<Rightarrow> Slot \<times> ConnectivityDomain option \<times> drv_globals" where
  "observe_progress fl now slotIndex natt slot cd g =
     (let slot1 = (if natt_IPv4 natt \<noteq> [] \<and> addressedTime slot = 0 then slot\<lparr>addressedTime := now\<rparr> else slot) in
      if IfcName (att_Status natt) \<noteq> [] then
        (let (slot2, g2) = observe_ready fl now slot1 g
         in observe_tested fl now slotIndex (PostCreateExecReport (att_Status natt)) slot2 cd g2)
      else observe_broken fl now slotIndex natt slot1 cd g)"

definition observeState :: "driver_flags \<Rightarrow> gotime \<Rightarrow> nat \<Rightarrow> drv_attachment \<Rightarrow> VirtNet \<Rightarrow> drv_globals
    \<Rightarrow> (go_panic, VirtNet \<times> drv_globals) result" where
  "observeState fl now slotIndex natt vn g =
     (case go_nth (slots vn) slotIndex of
        Inl p \<Rightarrow> Inl p
      | Inr slot \<Rightarrow>
          if natt_Name natt \<noteq> currentAttachmentName slot \<or> natt_Namespace natt \<noteq> fl_kubeNS fl then
            Inr (vn, log_event [Tardy (natt_Name natt) (currentAttachmentName slot)] g)
          else
            (case observe_address natt slot vn g of
               Inl p \<Rightarrow> Inl p
             | Inr (vn1, g1) \<Rightarrow>
                 (let (slot2, cd2, g2) = observe_progress fl now slotIndex natt slot (theCD vn1) g1
                  in Inr (vn1\<lparr>theCD := cd2,
                              slots := (slots vn1)[slotIndex := slot2\<lparr>slot_natt := Some natt\<rparr>]\<rparr>, g2))))"

section \<open>The driver\<close>

text \<open>
  The global variables. The maps \<open>idToVirtNet\<close> and \<open>subnetToVirtNet\<close> hold pointers into
  \<open>virtNets\<close>, here indices.
\<close>

record driver =
  virtNets :: "VirtNet list"
  idToVirtNet :: "uint32 \<rightharpoonup> nat"
  subnetToVirtNet :: "string \<rightharpoonup> nat"
  initializedSubnets :: "string set"
  num_subnets :: nat
  globals :: drv_globals

definition set_vn :: "nat \<Rightarrow> VirtNet \<Rightarrow> driver \<Rightarrow> driver" where
  "set_vn vi vn d = d\<lparr>virtNets := (virtNets d)[vi := vn]\<rparr>"

definition upd_slot :: "nat \<Rightarrow> (Slot \<Rightarrow> Slot) \<Rightarrow> VirtNet \<Rightarrow> VirtNet" where
  "upd_slot si f vn = vn\<lparr>slots := (slots vn)[si := f (slots vn ! si)]\<rparr>"

section \<open>Closing a slot\<close>

text \<open>The deferred reset of the slot.\<close>

definition reset_slot :: "nat \<Rightarrow> nat \<Rightarrow> driver \<Rightarrow> driver" where
  "reset_slot vi si d =
     set_vn vi (upd_slot si (\<lambda>slot. slot\<lparr>currentAttachmentName := [], currentNodeName := [],
                  slot_natt := None, preCreateTime := 0\<rparr>) (virtNets d ! vi)) d"

definition close_observe :: "Slot \<Rightarrow> string \<Rightarrow> string \<Rightarrow> drv_globals \<Rightarrow> drv_globals" where
  "close_observe slot ns name g =
     (let t = (\<lambda>h a b g. if a = 0 then g else observe_hist h (a - b) ns name g);
          g1 = t CreateToReady (readyTime slot) (preCreateTime slot) g;
          g2 = t CreateToBroken (brokenTime slot) (preCreateTime slot) g1
      in if testedTime slot = 0 then g2
         else
           (let g3 = observe_hist CreateToTested (testedTime slot - preCreateTime slot) ns name g2;
                g4 = observe_hist ReadyToTested (testedTime slot - readyTime slot) ns name g3
            in g4\<lparr>testESs := testESs g4 @ [(testES slot, fullTest slot)]\<rparr>))"

definition close_log :: "driver_flags \<Rightarrow> Slot \<Rightarrow> drv_event list" where
  "close_log fl slot =
     (let name = currentAttachmentName slot in
      if addressedTime slot = 0 then [GotNoAddress name]
      else if readyTime slot = 0 \<and> brokenTime slot = 0 then [GotNoState name]
      else if readyTime slot \<noteq> 0 \<and> testedTime slot = 0 \<and> \<not> fl_omitTest fl then [TestIncomplete name]
      else [])"

definition close :: "driver_flags \<Rightarrow> nat \<Rightarrow> nat \<Rightarrow> driver
    \<Rightarrow> (go_panic, drv_attachment option \<times> driver) result" where
  "close fl vi si d =
     (let vn = virtNets d ! vi; slot = slots vn ! si; ns = fl_kubeNS fl in
      if preCreateTime slot = 0 then Inr (slot_natt slot, reset_slot vi si d)
      else
        (case slot_natt slot of
           None \<Rightarrow> Inl NilPointer
         | Some a \<Rightarrow>
             (let g1 = (if addressedTime slot = 0 then globals d
                        else observe_hist CreateToAddressed (addressedTime slot - preCreateTime slot)
                               ns (natt_Name a) (globals d));
                  moved =
                    (if natt_IPv4 a = [] then Inr (d\<lparr>globals := g1\<rparr>)
                     else
                       (case idToVirtNet d (vn_ID vn) of
                          None \<Rightarrow> Inl NilPointer
                        | Some vj \<Rightarrow>
                            (let (vn2, g2) = ipAddressChanged (currentNodeName slot) (natt_IPv4 a) []
                                               (currentAttachmentName slot) (virtNets d ! vj) g1
                             in Inr (set_vn vj vn2 (d\<lparr>globals := g2\<rparr>)))))
              in case moved of
                   Inl p \<Rightarrow> Inl p
                 | Inr d1 \<Rightarrow>
                     Inr (Some a,
                          reset_slot vi si
                            (d1\<lparr>globals := log_event (close_log fl slot)
                                   (close_observe slot ns (natt_Name a) (globals d1))\<rparr>)))))"

section \<open>Handlers\<close>

definition subnet_OnAdd :: "Subnet \<Rightarrow> driver \<Rightarrow> driver" where
  "subnet_OnAdd subnet d =
     (case idToVirtNet d (sn_VNI (sn_Spec subnet)) of
        None \<Rightarrow> d
      | Some _ \<Rightarrow> d\<lparr>initializedSubnets := insert (meta_Name (sn_meta subnet)) (initializedSubnets d)\<rparr>)"

definition attachment_OnAdd :: "driver_flags \<Rightarrow> gotime \<Rightarrow> drv_attachment \<Rightarrow> driver
    \<Rightarrow> (go_panic, driver) result" where
  "attachment_OnAdd fl now natt d =
     (case att_Annotations natt of
        None \<Rightarrow> Inr d
      | Some notes \<Rightarrow>
          (case subnetToVirtNet d (Subnet_name (att_Spec natt)) of
             None \<Rightarrow> Inr d
           | Some vi \<Rightarrow>
               (case Atoi (case notes slotKey of None \<Rightarrow> [] | Some s \<Rightarrow> s) of
                  None \<Rightarrow> Inr d
                | Some i \<Rightarrow>
                    if i < 0 then Inl IndexOutOfRange
                    else
                      (case observeState fl now (nat i) natt (virtNets d ! vi) (globals d) of
                         Inl p \<Rightarrow> Inl p
                       | Inr (vn, g) \<Rightarrow> Inr (set_vn vi vn (d\<lparr>globals := g\<rparr>))))))"

text \<open>\<open>waitForInitializedSubnets\<close>: \<open>None\<close> when the notifications do not suffice.\<close>

fun waitForInitializedSubnets :: "Subnet list \<Rightarrow> driver \<Rightarrow> driver option" where
  "waitForInitializedSubnets notes d =
     (if num_subnets d \<le> card (initializedSubnets d) then Some d
      else (case notes of
              [] \<Rightarrow> None
            | s # rest \<Rightarrow> waitForInitializedSubnets rest (subnet_OnAdd s d)))"

end
