(* ===== verification/Driver_Thread.thy ===== *)
theory Driver_Thread
  imports Driver
begin

text \<open>
  \<open>RunThread\<close> of the throughput driver, \<open>GetReadyAttachment\<close> and \<open>withRetries\<close>. A pass through the
  loop of a thread is a sequence of atomic pieces between the points where the thread blocks: on
  the condition variable of a connectivity domain, in the call that creates an attachment, and in
  the calls that delete one. The pieces are functions; what the thread reads from outside (the
  clock, \<open>rand.Intn\<close>, the stop channel, the replies of the API server) is an argument. The step
  relation \<open>drv_step\<close> interleaves the pieces of all threads and the notification handlers. The
  pauses that keep the target rate change no state.
\<close>

section \<open>withRetries\<close>

text \<open>
  An attempt is the result of the thunk and, when it failed, whether the select then takes the
  stop channel. The answer is the result with the waits that were begun; \<open>None\<close> when the attempts
  do not suffice.
\<close>

fun withRetries :: "(bool \<times> bool) list \<Rightarrow> int \<Rightarrow> int \<Rightarrow> (bool \<times> int list) option" where
  "withRetries [] wait maxWait = None"
| "withRetries ((ok, stop) # attempts) wait maxWait =
     (if ok then Some (True, [])
      else if stop then Some (False, [wait])
      else map_option (\<lambda>(r, ws). (r, wait # ws))
             (withRetries attempts (if maxWait < 2 * wait then maxWait else 2 * wait) maxWait))"

section \<open>GetReadyAttachment\<close>

definition must_wait :: "ConnectivityDomain \<Rightarrow> bool" where
  "must_wait cd \<longleftrightarrow> latestIndex cd = -1 \<and> pendingIndices cd \<noteq> {}"

definition ready_enter :: "gotime \<Rightarrow> ConnectivityDomain \<Rightarrow> ConnectivityDomain" where
  "ready_enter now cd =
     (let cd1 = cd\<lparr>numWaiters := numWaiters cd + 1\<rparr> in
      if numWaiters cd1 = 1 then cd1\<lparr>startOfFirstWait := now\<rparr> else cd1)"

definition keep_waiting :: "gotime \<Rightarrow> gotime \<Rightarrow> ConnectivityDomain \<Rightarrow> bool" where
  "keep_waiting tLimit now cd \<longleftrightarrow> must_wait cd \<and> now < tLimit"

definition ready_leave :: "gotime \<Rightarrow> ConnectivityDomain \<Rightarrow> drv_globals \<Rightarrow> ConnectivityDomain \<times> drv_globals" where
  "ready_leave now cd g =
     (let cd1 = cd\<lparr>numWaiters := numWaiters cd - 1\<rparr> in
      (cd1, if numWaiters cd1 = 0 then g\<lparr>xtraDelayI := xtraDelayI g + (now - startOfFirstWait cd1)\<rparr> else g))"

definition ready_peer :: "VirtNet \<Rightarrow> ConnectivityDomain \<Rightarrow> (go_panic, drv_attachment option) result" where
  "ready_peer vn cd =
     (if latestIndex cd = -1 then Inr None
      else if latestIndex cd < 0 then Inl IndexOutOfRange
      else map_sum id slot_natt (go_nth (slots vn) (nat (latestIndex cd))))"

section \<open>Threads\<close>

text \<open>What a thread has chosen for the attachment that it creates.\<close>

record create_plan =
  cp_vn :: nat
  cp_slot :: nat
  cp_subnet :: string
  cp_name :: string
  cp_node :: string

datatype thread_pc =
    AtTop
  | WaitingPeer create_plan gotime
  | Creating create_plan gotime bool
  | Deleting nat nat "drv_attachment option"
  | Returned

record thread =
  thd :: nat
  thr_work :: "VirtNetAttachment list"
  thr_n :: nat
  iCreate :: nat
  iDelete :: nat
  createAllowed :: bool
  pc :: thread_pc

text \<open>What the threads have in common: the flags, the nodes, the digits in names.\<close>

record thread_params =
  tp_flags :: driver_flags
  tp_nodes :: "string list"
  tp_digits :: nat
  tp_stride :: nat
  tp_justCreate :: bool

text \<open>\<open>fmt.Sprintf(nattNameFmt, ...)\<close> with the format \<open>%06x-%0Nd\<close>.\<close>

definition att_name :: "nat \<Rightarrow> uint32 \<Rightarrow> uint32 \<Rightarrow> string" where
  "att_name digs vni idx = pad0 6 (sprintf_x vni) @ ''-'' @ pad0 digs (sprintf_d idx)"

definition choose_subnet :: "VirtNet \<Rightarrow> (go_panic, VirtNet \<times> Subnet) result" where
  "choose_subnet vn =
     (if 1 < length (subnets vn) then
        (let idx = createdCount vn + 1 in
         Inr (vn\<lparr>createdCount := idx\<rparr>, subnets vn ! (unat idx mod length (subnets vn))))
      else map_sum id (Pair vn) (go_nth (subnets vn) 0))"

text \<open>Go panics on an empty list of nodes, by a division by zero or in \<open>rand.Intn\<close>.\<close>

definition choose_node :: "thread_params \<Rightarrow> thread \<Rightarrow> (nat \<Rightarrow> nat) \<Rightarrow> (go_panic, string) result" where
  "choose_node tp th intn =
     (let nodes = tp_nodes tp in
      if fl_onlyNode (tp_flags tp) \<noteq> [] then Inr (fl_onlyNode (tp_flags tp))
      else if fl_roundRobin (tp_flags tp)
      then go_nth nodes ((thd th + tp_stride tp * iCreate th) mod length nodes)
      else go_nth nodes (intn (length nodes)))"

definition sprintf_int :: "int \<Rightarrow> string" where
  "sprintf_int i = (if i < 0 then ''-'' @ format_uint 10 (nat (- i)) else format_uint 10 (nat i))"

definition post_create_exec :: "driver_flags \<Rightarrow> uint32 \<Rightarrow> VirtNet \<Rightarrow> drv_attachment option \<Rightarrow> string list" where
  "post_create_exec fl nnsi vn peer =
     split_on CHR '' '' (''/usr/local/kos/bin/TestByPing ${ifname} '' @ fl_runID fl @ ''-'' @ sprintf_d nnsi @
       '' ${ipv4}/'' @ sprintf_int (prefixLen vn) @
       (case peer of
          None \<Rightarrow> []
        | Some p \<Rightarrow> '' '' @ natt_IPv4 p @ '' '' @ sprintf_int (fl_pingCount fl) @ '' '' @ natt_Name p))"

definition post_delete_exec :: "driver_flags \<Rightarrow> uint32 \<Rightarrow> string list" where
  "post_delete_exec fl nnsi =
     split_on CHR '' '' (''/usr/local/kos/bin/RemoveNetNS '' @ fl_runID fl @ ''-'' @ sprintf_d nnsi)"

text \<open>The object that is sent to the API server; \<open>ts\<close> is the formatted time of the call.\<close>

definition new_attachment :: "driver_flags \<Rightarrow> create_plan \<Rightarrow> string \<Rightarrow> string list \<Rightarrow> string list \<Rightarrow> drv_attachment" where
  "new_attachment fl plan ts postCreate postDelete =
     \<lparr>att_meta = \<lparr>meta_Name = cp_name plan, meta_Namespace = fl_kubeNS fl, meta_UID = [],
         meta_ResourceVersion = [], meta_CreationTimestamp = 0, meta_OwnerReferences = []\<rparr>,
      att_Spec = \<lparr>Node = cp_node plan, Subnet_name = cp_subnet plan, PostCreateExec = postCreate,
         PostDeleteExec = postDelete\<rparr>,
      att_Status = \<lparr>Errors = \<lparr>IPAM_errs = [], Host_errs = []\<rparr>, LockUID = [], AddressVNI = 0,
         Status_IPv4 = [], MACAddress = [], IfcName = [], HostIP = [], PostCreateExecReport = None\<rparr>,
      att_Annotations = Some [slotKey \<mapsto> format_uint 10 (cp_slot plan), ''precise/createTimestamp'' \<mapsto> ts],
      att_Labels = [''app'' \<mapsto> ''attachment-tput-driver'', ''runid'' \<mapsto> fl_runID fl]\<rparr>"

text \<open>From the choice of the peer to the call that creates the attachment.\<close>

definition create_call :: "thread_params \<Rightarrow> create_plan \<Rightarrow> gotime \<Rightarrow> string \<Rightarrow> thread \<Rightarrow> driver
    \<Rightarrow> (go_panic, thread \<times> driver) result" where
  "create_call tp plan now ts th d =
     (let fl = tp_flags tp; vi = cp_vn plan; vn = virtNets d ! vi; g = globals d;
          prepared =
            (if fl_omitTest fl then Inr (False, [], [], g)
             else
               (case theCD vn of
                  None \<Rightarrow> Inl NilPointer
                | Some cd \<Rightarrow>
                    (case ready_peer vn cd of
                       Inl p \<Rightarrow> Inl p
                     | Inr peer \<Rightarrow>
                         (let nnsi = nnsCount g + 1 in
                          Inr (peer \<noteq> None, post_create_exec fl nnsi vn peer, post_delete_exec fl nnsi,
                               g\<lparr>nnsCount := nnsi\<rparr>)))))
      in case prepared of
           Inl p \<Rightarrow> Inl p
         | Inr (full, postCreate, postDelete, g1) \<Rightarrow>
             (let (slot, cd) = setCurrentName (cp_slot plan) (cp_name plan) (cp_node plan)
                                 (slots vn ! cp_slot plan) (theCD vn);
                  vn1 = vn\<lparr>slots := (slots vn)[cp_slot plan := slot], theCD := cd\<rparr>;
                  obj = new_attachment fl plan ts postCreate postDelete;
                  g2 = g1\<lparr>api_calls := api_calls g1 @ [CreateCall obj]\<rparr>
              in Inr (th\<lparr>pc := Creating plan now full\<rparr>, set_vn vi vn1 (d\<lparr>globals := g2\<rparr>))))"

text \<open>The first part of a creation: it ends in the call, or waits for a peer.\<close>

definition create_begin :: "thread_params \<Rightarrow> (nat \<Rightarrow> nat) \<Rightarrow> gotime \<Rightarrow> string \<Rightarrow> thread \<Rightarrow> driver
    \<Rightarrow> (go_panic, thread \<times> driver) result" where
  "create_begin tp intn now ts th d =
     (case go_nth (thr_work th) (iCreate th mod length (thr_work th)) of
        Inl p \<Rightarrow> Inl p
      | Inr (vi, si) \<Rightarrow>
          (let vn = virtNets d ! vi in
           case choose_subnet vn of
             Inl p \<Rightarrow> Inl p
           | Inr (vn1, subnet) \<Rightarrow>
               (case choose_node tp th intn of
                  Inl p \<Rightarrow> Inl p
                | Inr node \<Rightarrow>
                    (let d1 = set_vn vi vn1 d;
                         plan = \<lparr>cp_vn = vi, cp_slot = si, cp_subnet = meta_Name (sn_meta subnet),
                            cp_name = att_name (tp_digits tp) (vn_ID vn) (nextIndex (slots vn ! si)),
                            cp_node = node\<rparr>
                     in if fl_omitTest (tp_flags tp) then create_call tp plan now ts th d1
                        else
                          (case theCD vn1 of
                             None \<Rightarrow> Inl NilPointer
                           | Some cd \<Rightarrow>
                               if must_wait cd then
                                 Inr (th\<lparr>pc := WaitingPeer plan (now + fl_pendingWait (tp_flags tp))\<rparr>,
                                      set_vn vi (vn1\<lparr>theCD := Some (ready_enter now cd)\<rparr>) d1)
                               else create_call tp plan now ts th d1)))))"

text \<open>A waiting thread wakes up: it waits on, or goes on to the call.\<close>

definition create_resume :: "thread_params \<Rightarrow> gotime \<Rightarrow> string \<Rightarrow> create_plan \<Rightarrow> gotime \<Rightarrow> thread \<Rightarrow> driver
    \<Rightarrow> (go_panic, thread \<times> driver) result" where
  "create_resume tp now ts plan tLimit th d =
     (let vi = cp_vn plan; vn = virtNets d ! vi in
      case theCD vn of
        None \<Rightarrow> Inl NilPointer
      | Some cd \<Rightarrow>
          if keep_waiting tLimit now cd then Inr (th, d)
          else
            (let (cd1, g1) = ready_leave now cd (globals d)
             in create_call tp plan now ts th (set_vn vi (vn\<lparr>theCD := Some cd1\<rparr>) (d\<lparr>globals := g1\<rparr>))))"

text \<open>The call returned.\<close>

definition create_end :: "thread_params \<Rightarrow> create_plan \<Rightarrow> gotime \<Rightarrow> bool \<Rightarrow> gotime
    \<Rightarrow> (api_error, drv_attachment) result \<Rightarrow> thread \<Rightarrow> driver \<Rightarrow> thread \<times> driver" where
  "create_end tp plan ti0 full tif reply th d =
     (let vi = cp_vn plan; si = cp_slot plan; vn = virtNets d ! vi;
          g = observe_hist CreateLatency (tif - ti0) (fl_kubeNS (tp_flags tp)) (cp_name plan) (globals d);
          (vn1, g1) =
            (case reply of
               Inl err \<Rightarrow>
                 (let (slot, cd) = setCurrentName si [] [] (slots vn ! si) (theCD vn)
                  in (vn\<lparr>slots := (slots vn)[si := slot], theCD := cd\<rparr>,
                      g\<lparr>failedCreates := failedCreates g + 1\<rparr>))
             | Inr retObj \<Rightarrow>
                 (upd_slot si (setNetAtt ti0 tif retObj full) vn,
                  g\<lparr>successfulCreates := successfulCreates g + 1\<rparr>))
      in (th\<lparr>iCreate := iCreate th + 1, pc := AtTop\<rparr>, set_vn vi vn1 (d\<lparr>globals := g1\<rparr>)))"

definition delete_begin :: "thread_params \<Rightarrow> thread \<Rightarrow> driver \<Rightarrow> (go_panic, thread \<times> driver) result" where
  "delete_begin tp th d =
     (case go_nth (thr_work th) (iDelete th mod length (thr_work th)) of
        Inl p \<Rightarrow> Inl p
      | Inr (vi, si) \<Rightarrow>
          (case close (tp_flags tp) vi si d of
             Inl p \<Rightarrow> Inl p
           | Inr (natt, d1) \<Rightarrow> Inr (th\<lparr>pc := Deleting vi si natt\<rparr>, d1)))"

text \<open>One call of \<open>tryDelete\<close>: its latency and its error.\<close>

definition try_ok :: "api_error option \<Rightarrow> bool" where
  "try_ok err = (case err of None \<Rightarrow> True | Some e \<Rightarrow> ae_reason e = ReasonNotFound)"

definition tryDelete :: "driver_flags \<Rightarrow> string \<Rightarrow> int \<times> api_error option \<Rightarrow> drv_globals \<Rightarrow> drv_globals" where
  "tryDelete fl name attempt g =
     (let (latency, err) = attempt;
          g1 = observe_hist DeleteLatency latency (fl_kubeNS fl) name
                 (g\<lparr>api_calls := api_calls g @ [DeleteCall name]\<rparr>)
      in if try_ok err then g1\<lparr>successfulDeletes := successfulDeletes g1 + 1\<rparr>
         else g1\<lparr>failedDeletes := failedDeletes g1 + 1\<rparr>)"

text \<open>
  The deletion with its retries, given the attempts that were made, each with whether the select
  after it took the stop channel.
\<close>

definition delete_end :: "thread_params \<Rightarrow> ((int \<times> api_error option) \<times> bool) list \<Rightarrow> nat \<Rightarrow> nat
    \<Rightarrow> drv_attachment option \<Rightarrow> thread \<Rightarrow> driver \<Rightarrow> (thread \<times> driver) option" where
  "delete_end tp attempts vi si natt th d =
     (let vn = virtNets d ! vi;
          d1 = set_vn vi (upd_slot si (\<lambda>s. s\<lparr>nextIndex := nextIndex s + of_nat (vn_size vn)\<rparr>) vn) d;
          th1 = th\<lparr>iDelete := iDelete th + 1, pc := AtTop\<rparr>
      in case natt of
           None \<Rightarrow> Some (th1, d1)
         | Some a \<Rightarrow>
             map_option (\<lambda>(r, ws).
               (th1, d1\<lparr>globals := fold (tryDelete (tp_flags tp) (natt_Name a))
                         (map fst (take (length ws + (if r then 1 else 0)) attempts)) (globals d1)\<rparr>))
               (withRetries (map (\<lambda>(a, stop). (try_ok (snd a), stop)) attempts) 100000000 5000000000))"

text \<open>The top of the loop: \<open>stopped\<close> says whether the stop channel is closed.\<close>

definition loop_top :: "thread_params \<Rightarrow> bool \<Rightarrow> (nat \<Rightarrow> nat) \<Rightarrow> gotime \<Rightarrow> string \<Rightarrow> thread \<Rightarrow> driver
    \<Rightarrow> (go_panic, thread \<times> driver) result" where
  "loop_top tp stopped intn now ts th d =
     (if \<not> iDelete th < thr_n th \<or> 0 < stoppers (globals d) then Inr (th\<lparr>pc := Returned\<rparr>, d)
      else
        (let th1 = th\<lparr>createAllowed := createAllowed th \<and> \<not> stopped\<rparr> in
         if createAllowed th1 \<and> iCreate th1 < iDelete th1 + length (thr_work th1) \<and> iCreate th1 < thr_n th1
         then create_begin tp intn now ts th1 d
         else if tp_justCreate tp then Inr (th1\<lparr>pc := Returned\<rparr>, d)
         else delete_begin tp th1 d))"

section \<open>All threads and the handlers\<close>

type_synonym drv_state = "thread list \<times> driver"

inductive drv_step :: "thread_params \<Rightarrow> drv_state \<Rightarrow> drv_state \<Rightarrow> bool" for tp where
  Top: "t < length ths \<Longrightarrow> pc (ths ! t) = AtTop \<Longrightarrow> \<forall>m>0. intn m < m \<Longrightarrow>
     loop_top tp stopped intn now ts (ths ! t) d = Inr (th', d') \<Longrightarrow>
     drv_step tp (ths, d) (ths[t := th'], d')"
| Resume: "t < length ths \<Longrightarrow> pc (ths ! t) = WaitingPeer plan tLimit \<Longrightarrow>
     create_resume tp now ts plan tLimit (ths ! t) d = Inr (th', d') \<Longrightarrow>
     drv_step tp (ths, d) (ths[t := th'], d')"
| Created: "t < length ths \<Longrightarrow> pc (ths ! t) = Creating plan ti0 full \<Longrightarrow>
     create_end tp plan ti0 full tif reply (ths ! t) d = (th', d') \<Longrightarrow>
     drv_step tp (ths, d) (ths[t := th'], d')"
| Deleted: "t < length ths \<Longrightarrow> pc (ths ! t) = Deleting vi si natt \<Longrightarrow>
     delete_end tp attempts vi si natt (ths ! t) d = Some (th', d') \<Longrightarrow>
     drv_step tp (ths, d) (ths[t := th'], d')"
| Notified: "attachment_OnAdd (tp_flags tp) now natt d = Inr d' \<Longrightarrow> drv_step tp (ths, d) (ths, d')"
| Subnet_notified: "drv_step tp (ths, d) (ths, subnet_OnAdd subnet d)"

end
