(* ===== verification/Driver_Layout.thy ===== *)
theory Driver_Layout
  imports Driver_Thread Subnet_Props Complex_Main
begin

text \<open>
  The loop of \<open>main\<close> of the throughput driver that lays out the virtual networks: their sizes, their
  blocks of addresses, their VNIs, the calls that create their subnets, and the start of the
  threads. The floating point arithmetic is exact here: \<open>powf i\<close> is the value of
  \<open>math.Pow(i + 1 + bias, exponent)\<close>, an argument, and a size factor is a rational number. The API
  server is an argument too: a function of its state, the namespace and the object of a request.
\<close>

section \<open>Sizes and blocks\<close>

record layout =
  lo_num_nets :: nat
  lo_top_net_size :: nat
  lo_bias :: nat
  lo_just_count :: bool
  lo_singleNetwork :: bool
  lo_subnetSizeFactor :: rat
  lo_vni0 :: nat

text \<open>\<open>vni0\<close> as \<open>main\<close> computes it from the random number \<open>r\<close> below 32.\<close>

definition first_vni :: "nat \<Rightarrow> nat" where
  "first_vni r = r * 65536 + 1"

definition net_size :: "layout \<Rightarrow> (nat \<Rightarrow> rat) \<Rightarrow> nat \<Rightarrow> nat" where
  "net_size lo powf i =
     (let sz = \<lceil>of_nat (1 + lo_bias lo) * of_nat (lo_top_net_size lo) / powf i\<rceil>
      in nat (if sz < 1 then 1 else sz))"

text \<open>The parts of a network: the sizes for its first and for its second subnet.\<close>

definition net_parts :: "layout \<Rightarrow> nat \<Rightarrow> nat \<times> nat" where
  "net_parts lo nsz = (if lo_singleNetwork lo then (nsz, 0) else (nsz - nsz div 2, nsz div 2))"

text \<open>\<open>math.Ceil(math.Log2(x))\<close> of a number that is at least 1.\<close>

fun bits_for :: "nat \<Rightarrow> nat" where
  "bits_for n = (if n \<le> 1 then 0 else 1 + bits_for ((n + 1) div 2))"

declare bits_for.simps [simp del]

definition suffix_bits :: "layout \<Rightarrow> nat \<Rightarrow> nat" where
  "suffix_bits lo nsz1 = bits_for (nat \<lceil>of_nat nsz1 * lo_subnetSizeFactor lo + 3\<rceil>)"

definition net_vni :: "layout \<Rightarrow> nat \<Rightarrow> uint32" where
  "net_vni lo i = of_nat (lo_vni0 lo + i) AND 0x1FFFFF"

section \<open>Creating the networks\<close>

type_synonym 'st subnet_server = "'st \<Rightarrow> string \<Rightarrow> Subnet \<Rightarrow> (api_error, Subnet) result \<times> 'st"

definition net_object :: "uint32 \<Rightarrow> string \<Rightarrow> uint32 \<Rightarrow> nat \<Rightarrow> Subnet" where
  "net_object vni suffix addr bits =
     \<lparr>sn_meta = \<lparr>meta_Name = pad0 6 (sprintf_x vni) @ suffix, meta_Namespace = [], meta_UID = [],
        meta_ResourceVersion = [], meta_CreationTimestamp = 0, meta_OwnerReferences = []\<rparr>,
      sn_Spec = \<lparr>sn_IPv4 = ip_String (MakeIPv4FromUint32 addr) @ ''/'' @ sprintf_int (32 - int bits), sn_VNI = vni\<rparr>,
      sn_Errors = []\<rparr>"

definition new_slot :: "nat \<Rightarrow> Slot" where
  "new_slot j = \<lparr>nextIndex = of_nat (j + 1), currentAttachmentName = [], currentNodeName = [],
     preCreateTime = 0, postCreateTime = 0, addressedTime = 0, readyTime = 0, fullTest = False,
     testES = 0, testedTime = 0, brokenTime = 0, slot_natt = None\<rparr>"

definition new_cd :: "uint32 \<Rightarrow> ConnectivityDomain" where
  "new_cd vni = \<lparr>cd_VNI = vni, numWaiters = 0, startOfFirstWait = 0, latestIndex = -1, pendingIndices = {}\<rparr>"

text \<open>
  The calls that create the one or two subnets of a network; the answer is the subnets, or the
  exit code of the driver.
\<close>

definition create_subnets :: "'st subnet_server \<Rightarrow> string \<Rightarrow> uint32 \<Rightarrow> uint32 \<Rightarrow> nat \<Rightarrow> nat \<Rightarrow> 'st
    \<Rightarrow> (nat, Subnet list) result \<times> 'st" where
  "create_subnets server ns vni addr01I bits nsz2 st =
     (let ssz = push_bit bits 1;
          addrF1I = addr01I + ssz - 1;
          (r1, st1) = server st ns (net_object vni ''-a'' addr01I bits)
      in case r1 of
           Inl _ \<Rightarrow> (Inl 26, st1)
         | Inr net1 \<Rightarrow>
             if nsz2 = 0 then (Inr [net1], st1)
             else
               (let (r2, st2) = server st1 ns (net_object vni ''-b'' (addrF1I + 1) bits)
                in case r2 of
                     Inl _ \<Rightarrow> (Inl 27, st2)
                   | Inr net2 \<Rightarrow> (Inr [net1, net2], st2)))"

text \<open>One pass through the loop; \<open>addr01I\<close> is the first address that is not used yet.\<close>

definition make_net :: "layout \<Rightarrow> (nat \<Rightarrow> rat) \<Rightarrow> 'st subnet_server \<Rightarrow> string \<Rightarrow> nat \<Rightarrow> uint32 \<Rightarrow> driver \<Rightarrow> 'st
    \<Rightarrow> (nat, uint32 \<times> driver) result \<times> 'st" where
  "make_net lo powf server ns i addr01I d st =
     (let nsz = net_size lo powf i;
          (nsz1, nsz2) = net_parts lo nsz;
          bits = suffix_bits lo nsz1;
          ssz = push_bit bits 1;
          addrF1I = addr01I + ssz - 1;
          vni = net_vni lo i;
          addrF2I = (if \<not> lo_just_count lo \<and> 0 < nsz2 then addrF1I + ssz else addrF1I);
          (created, st1) =
            (if lo_just_count lo then (Inr [], st) else create_subnets server ns vni addr01I bits nsz2 st)
      in case created of
           Inl code \<Rightarrow> (Inl code, st1)
         | Inr nets \<Rightarrow>
             (let vn = \<lparr>vn_ID = vni, vn_size = nsz, addr0I = addr01I, addrFI = addrF2I,
                        prefixLen = 32 - int bits, subnets = nets,
                        theCD = (if lo_just_count lo then None else Some (new_cd vni)),
                        slots = map new_slot [0..<nsz], createdCount = 0,
                        addrs = Map.empty, nodeMap = Map.empty\<rparr>;
                  d1 = d\<lparr>virtNets := virtNets d @ [vn], idToVirtNet := (idToVirtNet d)(vni \<mapsto> i),
                         subnetToVirtNet := fold (\<lambda>s m. m(meta_Name (sn_meta s) \<mapsto> i)) nets (subnetToVirtNet d),
                         num_subnets := num_subnets d + length nets\<rparr>
              in (Inr (addrF2I + 1, d1), st1)))"

fun make_nets :: "layout \<Rightarrow> (nat \<Rightarrow> rat) \<Rightarrow> 'st subnet_server \<Rightarrow> string \<Rightarrow> nat list \<Rightarrow> uint32 \<Rightarrow> driver \<Rightarrow> 'st
    \<Rightarrow> (nat, uint32 \<times> driver) result \<times> 'st" where
  "make_nets lo powf server ns [] addr01I d st = (Inr (addr01I, d), st)"
| "make_nets lo powf server ns (i # is) addr01I d st =
     (case make_net lo powf server ns i addr01I d st of
        (Inl code, st1) \<Rightarrow> (Inl code, st1)
      | (Inr (addr, d1), st1) \<Rightarrow> make_nets lo powf server ns is addr d1 st1)"

definition new_globals :: drv_globals where
  "new_globals = \<lparr>multiOwnerWarnings = 0, stoppers = 0, readyCount = 0, nnsCount = 0, xtraDelayI = 0,
     hists = (\<lambda>_. NewTrackingHistogram), testESs = [], successfulCreates = 0, failedCreates = 0,
     successfulDeletes = 0, failedDeletes = 0, drv_log = [], api_calls = []\<rparr>"

definition new_driver :: driver where
  "new_driver = \<lparr>virtNets = [], idToVirtNet = Map.empty, subnetToVirtNet = Map.empty,
     initializedSubnets = {}, num_subnets = 0, globals = new_globals\<rparr>"

definition lay_out :: "layout \<Rightarrow> (nat \<Rightarrow> rat) \<Rightarrow> 'st subnet_server \<Rightarrow> string \<Rightarrow> uint32 \<Rightarrow> 'st
    \<Rightarrow> (nat, uint32 \<times> driver) result \<times> 'st" where
  "lay_out lo powf server ns addr01I st = make_nets lo powf server ns [0..<lo_num_nets lo] addr01I new_driver st"

section \<open>Starting the threads\<close>

definition new_thread :: "nat \<Rightarrow> VirtNetAttachment list \<Rightarrow> nat \<Rightarrow> thread" where
  "new_thread no work n = \<lparr>thd = no, thr_work = work, thr_n = n, iCreate = 0, iDelete = 0,
     createAllowed = True, pc = AtTop\<rparr>"

fun those_results :: "('e, 'a) result list \<Rightarrow> ('e, 'a list) result" where
  "those_results [] = Inr []"
| "those_results (r # rs) =
     (case r of Inl e \<Rightarrow> Inl e | Inr x \<Rightarrow> map_sum id (Cons x) (those_results rs))"

text \<open>
  The slots are shuffled twice and dealt to the threads, whose number is at most the number of
  slots; thread \<open>i\<close> is called with the number \<open>i + 1\<close>.
\<close>

definition start_threads :: "driver_flags \<Rightarrow> (nat \<Rightarrow> nat) \<Rightarrow> (nat \<Rightarrow> nat) \<Rightarrow> driver
    \<Rightarrow> (go_panic, thread list) result" where
  "start_threads fl intn1 intn2 d =
     (let sizes = map vn_size (virtNets d);
          threads = (if sum_list sizes < fl_threads fl then sum_list sizes else fl_threads fl)
      in case shuffle intn1 (vn_attachments sizes) of
           Inl p \<Rightarrow> Inl p
         | Inr work1 \<Rightarrow>
             (case shuffle intn2 work1 of
                Inl p \<Rightarrow> Inl p
              | Inr work2 \<Rightarrow>
                  those_results (map (\<lambda>i. map_sum id
                      (\<lambda>work. new_thread (i + 1) work (thread_share (fl_num_attachments fl) threads i))
                      (selectWork i threads work2)) [0..<threads])))"

text \<open>The parameters of the threads: the digits of a name suffice for the number of attachments.\<close>

definition run_params :: "driver_flags \<Rightarrow> string list \<Rightarrow> driver \<Rightarrow> thread_params" where
  "run_params fl nodes d =
     (let slots = sum_list (map vn_size (virtNets d)) in
      \<lparr>tp_flags = fl, tp_nodes = nodes, tp_digits = length (format_uint 10 (fl_num_attachments fl)),
       tp_stride = (if slots < fl_threads fl then slots else fl_threads fl),
       tp_justCreate = (fl_waitAfterCreate fl \<noteq> 0)\<rparr>)"

text \<open>\<open>main\<close> up to the start of the threads, or how it ended before.\<close>

datatype main_exit = Exit nat | JustCounted | Panicked go_panic

definition drv_main :: "layout \<Rightarrow> (nat \<Rightarrow> rat) \<Rightarrow> 'st subnet_server \<Rightarrow> string \<Rightarrow> uint32 \<Rightarrow> 'st
    \<Rightarrow> driver_flags \<Rightarrow> (nat \<Rightarrow> nat) \<Rightarrow> (nat \<Rightarrow> nat) \<Rightarrow> (main_exit, thread list \<times> driver) result" where
  "drv_main lo powf server ns addr01I st fl intn1 intn2 =
     (case lay_out lo powf server ns addr01I st of
        (Inl code, _) \<Rightarrow> Inl (Exit code)
      | (Inr (_, d), _) \<Rightarrow>
          if lo_just_count lo then Inl JustCounted
          else if fl_waitAfterCreate fl \<noteq> 0 \<and> sum_list (map vn_size (virtNets d)) < fl_num_attachments fl
          then Inl (Exit 27)
          else (case start_threads fl intn1 intn2 d of
                  Inl p \<Rightarrow> Inl (Panicked p)
                | Inr ths \<Rightarrow> Inr (ths, d)))"

section \<open>The end of main\<close>

text \<open>When the threads have returned, all slots are closed.\<close>

fun close_slots :: "driver_flags \<Rightarrow> VirtNetAttachment list \<Rightarrow> driver \<Rightarrow> (go_panic, driver) result" where
  "close_slots fl [] d = Inr d"
| "close_slots fl ((vi, si) # rest) d =
     (case close fl vi si d of Inl p \<Rightarrow> Inl p | Inr (_, d1) \<Rightarrow> close_slots fl rest d1)"

definition close_all :: "driver_flags \<Rightarrow> driver \<Rightarrow> (go_panic, driver) result" where
  "close_all fl d = close_slots fl (vn_attachments (map (\<lambda>vn. length (slots vn)) (virtNets d))) d"

end
