(* ===== verification/Driver_Blocks.thy ===== *)
theory Driver_Blocks
  imports Driver_Layout
begin

text \<open>
  The blocks of addresses of the throughput driver: how many address bits a subnet gets, that the
  text of a block is read back as the block, and that the validation of subnets accepts the
  subnets of a network when their VNI is new.
\<close>

section \<open>Address bits\<close>

lemma bits_for_le: "bits_for n \<le> k \<longleftrightarrow> n \<le> 2 ^ k"
proof (induction n arbitrary: k rule: bits_for.induct)
  case (1 n)
  show ?case
  proof (cases "n \<le> 1")
    case True
    then have "n \<le> 2 ^ k" by (meson le_trans one_le_numeral one_le_power)
    then show ?thesis using True by (subst bits_for.simps) simp
  next
    case False
    then have "bits_for n = Suc (bits_for ((n + 1) div 2))" by (subst bits_for.simps) simp
    then have "bits_for n \<le> k \<longleftrightarrow> (\<exists>l. k = Suc l \<and> bits_for ((n + 1) div 2) \<le> l)"
      by (cases k) auto
    also have "\<dots> \<longleftrightarrow> (\<exists>l. k = Suc l \<and> (n + 1) div 2 \<le> 2 ^ l)" using 1 False by simp
    also have "\<dots> \<longleftrightarrow> n \<le> 2 ^ k" using False by (cases k) auto
    finally show ?thesis .
  qed
qed

lemma bits_for_enough: "n \<le> 2 ^ bits_for n"
  using bits_for_le by blast

lemma suffix_bits_enough: "rat_of_nat nsz1 * lo_subnetSizeFactor lo + 3 \<le> 2 ^ suffix_bits lo nsz1"
proof -
  let ?x = "rat_of_nat nsz1 * lo_subnetSizeFactor lo + 3"
  have "?x \<le> of_int \<lceil>?x\<rceil>" by simp
  also have "of_int \<lceil>?x\<rceil> \<le> (of_nat (nat \<lceil>?x\<rceil>) :: rat)" by (simp add: le_nat_iff)
  also have "\<dots> \<le> of_nat (2 ^ suffix_bits lo nsz1)"
    unfolding suffix_bits_def by (rule of_nat_mono [OF bits_for_enough])
  finally show ?thesis by simp
qed

lemma suffix_bits_mono:
  assumes "m \<le> n" "0 \<le> lo_subnetSizeFactor lo"
  shows "suffix_bits lo m \<le> suffix_bits lo n"
proof -
  have "rat_of_nat m * lo_subnetSizeFactor lo + 3 \<le> rat_of_nat n * lo_subnetSizeFactor lo + 3"
    using assms by (simp add: mult_right_mono)
  then have "nat \<lceil>rat_of_nat m * lo_subnetSizeFactor lo + 3\<rceil> \<le> nat \<lceil>rat_of_nat n * lo_subnetSizeFactor lo + 3\<rceil>"
    by (intro nat_mono ceiling_mono)
  then show ?thesis using bits_for_enough le_trans unfolding suffix_bits_def bits_for_le by blast
qed

lemma net_parts_mono: "m \<le> n \<Longrightarrow> fst (net_parts lo m) \<le> fst (net_parts lo n)"
  by (auto simp: net_parts_def)

lemma net_size_antimono:
  assumes "powf i \<le> powf j" "0 < powf i"
  shows "net_size lo powf j \<le> net_size lo powf i"
proof -
  let ?c = "rat_of_nat (1 + lo_bias lo) * rat_of_nat (lo_top_net_size lo)"
  have "?c / powf j \<le> ?c / powf i" using assms by (intro divide_left_mono) auto
  then have "\<lceil>?c / powf j\<rceil> \<le> \<lceil>?c / powf i\<rceil>" by (rule ceiling_mono)
  then have "nat (if \<lceil>?c / powf j\<rceil> < 1 then 1 else \<lceil>?c / powf j\<rceil>) \<le>
      nat (if \<lceil>?c / powf i\<rceil> < 1 then 1 else \<lceil>?c / powf i\<rceil>)"
    by (intro nat_mono) (smt (verit))
  then show ?thesis unfolding net_size_def Let_def .
qed

definition net_bits :: "layout \<Rightarrow> (nat \<Rightarrow> rat) \<Rightarrow> nat \<Rightarrow> nat" where
  "net_bits lo powf i = suffix_bits lo (fst (net_parts lo (net_size lo powf i)))"

section \<open>The text of a block\<close>

lemma ip_String_block: "ip_String (MakeIPv4FromUint32 addr) = v4_String (be_bytes addr)"
  by (simp add: ip_String_def MakeIPv4FromUint32_def be_bytes_def)

lemma prefix_aligned:
  assumes "bits \<le> 32" "2 ^ bits dvd unat (addr::uint32)"
  shows "addr AND prefix_mask (32 - bits) = addr"
proof -
  have "unat (addr AND prefix_mask (32 - bits)) = unat addr"
    using assms by (simp add: unat_prefix)
  then show ?thesis by (simp add: word_unat_eq_iff)
qed

lemma parse_net_object:
  assumes "bits \<le> 32" "2 ^ bits dvd unat addr" "sn_Spec s = sn_Spec (net_object vni suffix addr bits)"
  shows "\<exists>ip net. ParseCIDR (spec_IPv4 s) = Inr (ip, net)"
    "parseSubnet s = Inr \<lparr>baseU = addr, lastU = addr + block_delta (32 - bits) 32\<rparr>"
proof -
  obtain a b c e where w: "be_bytes addr = [a, b, c, e]" "be_or a b c e = addr"
    using be_or_bytes [of addr] by (simp add: be_bytes_def)
  have "spec_IPv4 s = v4_String [a, b, c, e] @ ''/'' @ format_uint 10 (32 - bits)"
    using assms(1,3) w(1) by (simp add: net_object_def ip_String_block sprintf_int_def nat_diff_distrib)
  then have p: "ParseCIDR (spec_IPv4 s) = Inr (IPv4 a b c e, \<lparr>net_IP = ip_Mask (IPv4 a b c e) (CIDRMask (32 - bits) 32),
      net_Mask = CIDRMask (32 - bits) 32\<rparr>)"
    using ParseCIDR_v4 [of "32 - bits" a b c e] by simp
  then show "\<exists>ip net. ParseCIDR (spec_IPv4 s) = Inr (ip, net)" by blast
  show "parseSubnet s = Inr \<lparr>baseU = addr, lastU = addr + block_delta (32 - bits) 32\<rparr>"
    using parseSubnet_v4 [OF p, of "32 - bits"] prefix_aligned [OF assms(1,2)] w(2) by simp
qed

section \<open>What the validation accepts\<close>

lemma overlap_loop_accepts:
  assumes "\<forall>s\<in>set subs. sn_UID s \<noteq> sn_UID new \<longrightarrow> (\<exists>ps. parseSubnet s = Inr ps \<and> \<not> overlaps this ps)"
  shows "overlap_loop new this subs = Inr []"
  using assms by (induction subs) auto

lemma Validate_accepts_block:
  assumes "minVNI \<le> spec_VNI new" "spec_VNI new \<le> maxVNI" "\<exists>ip net. ParseCIDR (spec_IPv4 new) = Inr (ip, net)"
    and "parseSubnet new = Inr this"
    and "\<forall>s\<in>set db. spec_VNI s = spec_VNI new \<longrightarrow> sn_Namespace s = sn_Namespace new \<and>
      (\<exists>ps. parseSubnet s = Inr ps \<and> \<not> overlaps this ps)"
  shows "Validate (Inr db) new = Inr []"
proof -
  let ?same = "filter (\<lambda>s. spec_VNI s = spec_VNI new) db"
  have "overlap_loop new this ?same = Inr []" using assms(5) by (intro overlap_loop_accepts) auto
  then have "checkCIDRDoesNotOverlap new ?same = Inr []" using assms(4) by (simp add: checkCIDRDoesNotOverlap_def)
  moreover have "checkSameVNISameNs new ?same = []"
    using assms(5) by (auto simp: checkSameVNISameNs_def filter_empty_conv)
  moreover have "checkVNIRange new = []" using assms(1,2) by (auto simp: checkVNIRange_def Let_def)
  moreover have "checkCIDRFormat new = []" using assms(3) by (auto simp: checkCIDRFormat_def)
  ultimately show ?thesis by (simp add: Validate_def Let_def allSubnetsWithVNI_def)
qed

section \<open>The API server for subnets\<close>

text \<open>
  What the API server does with a request to create a subnet, on the list of stored subnets: it
  puts the object into the namespace, gives it a UID, and stores it when its name is new in the
  namespace and the strategy of subnets accepts it. The strategy validates against the informer
  cache behind its lister, which may lag behind the store: \<open>seen\<close> says, for each store, which of
  its subnets the cache has. Nothing is assumed of it.
\<close>

definition stored :: "(Subnet list \<Rightarrow> string) \<Rightarrow> Subnet list \<Rightarrow> string \<Rightarrow> Subnet \<Rightarrow> Subnet" where
  "stored uid db ns obj =
     subnet_PrepareForCreate (obj\<lparr>sn_meta := (sn_meta obj)\<lparr>meta_Namespace := ns, meta_UID := uid db\<rparr>\<rparr>)"

definition subnet_api :: "(Subnet list \<Rightarrow> Subnet \<Rightarrow> bool) \<Rightarrow> (Subnet list \<Rightarrow> string) \<Rightarrow> Subnet list subnet_server" where
  "subnet_api seen uid db ns obj =
     (let new = stored uid db ns obj in
      if list_ex (\<lambda>s. sn_Namespace s = ns \<and> sn_Name s = sn_Name new) db
      then (Inl \<lparr>ae_reason = ReasonAlreadyExists, ae_text = sn_Name new\<rparr>, db)
      else
        (case Validate (Inr (filter (seen db) db)) new of
           Inl _ \<Rightarrow> (Inl \<lparr>ae_reason = ReasonOther, ae_text = ''panic''\<rparr>, db)
         | Inr errs \<Rightarrow>
             if errs = [] then (Inr new, new # db)
             else (Inl \<lparr>ae_reason = ReasonInvalid, ae_text = sn_Name new\<rparr>, db)))"

lemma stored_parts [simp]:
  "sn_Spec (stored uid db ns obj) = sn_Spec obj" "sn_Namespace (stored uid db ns obj) = ns"
  "sn_Name (stored uid db ns obj) = sn_Name obj" "sn_UID (stored uid db ns obj) = uid db"
  by (simp_all add: stored_def subnet_PrepareForCreate_def)

lemma net_object_parts [simp]:
  "spec_VNI (net_object vni suffix addr bits) = vni"
  "sn_Name (net_object vni suffix addr bits) = pad0 6 (sprintf_x vni) @ suffix"
  by (simp_all add: net_object_def)

text \<open>No stored subnet uses the VNI or the name.\<close>

definition fresh_net :: "string \<Rightarrow> uint32 \<Rightarrow> Subnet list \<Rightarrow> bool" where
  "fresh_net ns vni db \<longleftrightarrow> (\<forall>s\<in>set db. spec_VNI s \<noteq> vni \<and>
     (sn_Namespace s = ns \<longrightarrow> (\<forall>suffix\<in>{''-a'', ''-b''}. sn_Name s \<noteq> pad0 6 (sprintf_x vni) @ suffix)))"

lemma api_first_net:
  assumes "minVNI \<le> vni" "vni \<le> maxVNI" "bits \<le> 32" "2 ^ bits dvd unat addr" "fresh_net ns vni db"
  shows "subnet_api seen uid db ns (net_object vni ''-a'' addr bits) =
    (Inr (stored uid db ns (net_object vni ''-a'' addr bits)), stored uid db ns (net_object vni ''-a'' addr bits) # db)"
proof -
  let ?new = "stored uid db ns (net_object vni ''-a'' addr bits)"
  have "Validate (Inr (filter (seen db) db)) ?new = Inr []"
    using assms parse_net_object [OF assms(3,4), of ?new vni "''-a''"]
    by (intro Validate_accepts_block) (auto simp: fresh_net_def)
  moreover have "\<not> list_ex (\<lambda>s. sn_Namespace s = ns \<and> sn_Name s = sn_Name ?new) db"
    using assms(5) by (auto simp: fresh_net_def list_ex_iff)
  ultimately show ?thesis by (simp add: subnet_api_def Let_def)
qed

lemma unat_block:
  assumes "bits < 32"
  shows "unat (push_bit bits 1 :: uint32) = 2 ^ bits"
proof -
  have "(2::nat) ^ bits < 2 ^ 32" using assms by (intro power_strict_increasing) simp_all
  moreover have "push_bit bits 1 = (of_nat (2 ^ bits) :: uint32)" by (simp add: push_bit_eq_mult)
  ultimately show ?thesis by (simp only: unat_of_nat) simp
qed

lemma block_end:
  assumes "bits \<le> 32" "unat (addr::uint32) + 2 ^ bits \<le> 2 ^ 32"
  shows "unat (addr + block_delta (32 - bits) 32) = unat addr + 2 ^ bits - 1"
proof -
  have "unat (block_delta (32 - bits) 32) = 2 ^ bits - 1" using assms(1) block_delta_32 [of "32 - bits"] by simp
  moreover have "0 < (2::nat) ^ bits" by simp
  moreover from this have "unat addr + (2 ^ bits - 1) < 2 ^ 32" using assms(2) by linarith
  ultimately show ?thesis by (simp add: unat_word_ariths)
qed

text \<open>The second block of a network starts where the first one ends.\<close>

lemma second_block:
  assumes "2 ^ bits dvd unat (addr::uint32)" "unat addr + 2 * 2 ^ bits \<le> 2 ^ 32"
  shows "bits < 32" "unat (addr + push_bit bits 1) = unat addr + 2 ^ bits" "2 ^ bits dvd unat (addr + push_bit bits 1)"
    "unat (addr + block_delta (32 - bits) 32) = unat addr + 2 ^ bits - 1"
proof -
  have "2 * 2 ^ bits \<le> (2::nat) ^ 32" using assms(2) by linarith
  then have "(2::nat) ^ Suc bits \<le> 2 ^ 32" by simp
  then show b: "bits < 32" using power_increasing_iff [of "2::nat" "Suc bits" 32] by simp
  note unat_block [OF b]
  moreover have "unat addr + 2 ^ bits < 2 ^ 32"
    using assms(2) zero_less_power [of "2::nat" bits] by linarith
  ultimately show u: "unat (addr + push_bit bits 1) = unat addr + 2 ^ bits"
    by (simp add: unat_word_ariths)
  then show "2 ^ bits dvd unat (addr + push_bit bits 1)" using assms(1) by simp
  show "unat (addr + block_delta (32 - bits) 32) = unat addr + 2 ^ bits - 1"
    using b assms(2) by (intro block_end) simp_all
qed

lemma api_second_net:
  assumes "minVNI \<le> vni" "vni \<le> maxVNI" "2 ^ bits dvd unat addr" "unat addr + 2 * 2 ^ bits \<le> 2 ^ 32"
    and "fresh_net ns vni db" "s1 = stored uid db ns (net_object vni ''-a'' addr bits)"
  shows "subnet_api seen uid (s1 # db) ns (net_object vni ''-b'' (addr + push_bit bits 1) bits) =
    (let s2 = stored uid (s1 # db) ns (net_object vni ''-b'' (addr + push_bit bits 1) bits)
     in (Inr s2, s2 # s1 # db))"
proof -
  let ?addr2 = "addr + push_bit bits 1"
  let ?new = "stored uid (s1 # db) ns (net_object vni ''-b'' ?addr2 bits)"
  note sb = second_block [OF assms(3,4)]
  have p2: "\<exists>ip net. ParseCIDR (spec_IPv4 ?new) = Inr (ip, net)"
    "parseSubnet ?new = Inr \<lparr>baseU = ?addr2, lastU = ?addr2 + block_delta (32 - bits) 32\<rparr>"
    using parse_net_object [of bits ?addr2 ?new vni "''-b''"] sb(1,3) by simp_all
  have p1: "parseSubnet s1 = Inr \<lparr>baseU = addr, lastU = addr + block_delta (32 - bits) 32\<rparr>"
    using parse_net_object(2) [of bits addr s1 vni "''-a''"] sb(1) assms(3,6) by simp
  have "addr + block_delta (32 - bits) 32 < ?addr2"
    unfolding word_less_nat_alt sb(2,4) using zero_less_power [of "2::nat" bits] by linarith
  then have no: "\<not> overlaps \<lparr>baseU = ?addr2, lastU = ?addr2 + block_delta (32 - bits) 32\<rparr>
      \<lparr>baseU = addr, lastU = addr + block_delta (32 - bits) 32\<rparr>"
    by (simp add: overlaps_def not_le)
  have "Validate (Inr (filter (seen (s1 # db)) (s1 # db))) ?new = Inr []"
    using assms(1,2,5,6) p1 p2 no by (intro Validate_accepts_block) (auto simp: fresh_net_def)
  moreover have "\<not> list_ex (\<lambda>s. sn_Namespace s = ns \<and> sn_Name s = sn_Name ?new) (s1 # db)"
    using assms(5,6) by (auto simp: fresh_net_def list_ex_iff)
  ultimately show ?thesis by (simp add: subnet_api_def Let_def)
qed

text \<open>The subnets that a network gets.\<close>

definition net_subnets :: "(Subnet list \<Rightarrow> string) \<Rightarrow> string \<Rightarrow> uint32 \<Rightarrow> uint32 \<Rightarrow> nat \<Rightarrow> nat \<Rightarrow> Subnet list \<Rightarrow> Subnet list" where
  "net_subnets uid ns vni addr bits nsz2 db =
     (let s1 = stored uid db ns (net_object vni ''-a'' addr bits);
          s2 = stored uid (s1 # db) ns (net_object vni ''-b'' (addr + push_bit bits 1) bits)
      in if nsz2 = 0 then [s1] else [s1, s2])"

lemma create_subnets_accepted:
  assumes "minVNI \<le> vni" "vni \<le> maxVNI" "2 ^ bits dvd unat addr" "unat addr + 2 * 2 ^ bits \<le> 2 ^ 32"
    and "fresh_net ns vni db"
  shows "create_subnets (subnet_api seen uid) ns vni addr bits nsz2 db =
    (Inr (net_subnets uid ns vni addr bits nsz2 db), rev (net_subnets uid ns vni addr bits nsz2 db) @ db)"
proof -
  have b: "bits \<le> 32" using second_block(1) [OF assms(3,4)] by simp
  show ?thesis
    using api_first_net [OF assms(1,2) b assms(3,5)] api_second_net [OF assms refl]
    by (simp add: create_subnets_def net_subnets_def Let_def)
qed

lemma net_subnets_ranges:
  assumes "2 ^ bits dvd unat addr" "unat addr + 2 * 2 ^ bits \<le> 2 ^ 32" "s \<in> set (net_subnets uid ns vni addr bits nsz2 db)"
  shows "spec_VNI s = vni" "sn_Namespace s = ns" "\<exists>suffix\<in>{''-a'', ''-b''}. sn_Name s = pad0 6 (sprintf_x vni) @ suffix"
    "\<exists>k < (if nsz2 = 0 then 1 else 2). \<exists>ps. parseSubnet s = Inr ps \<and> unat (baseU ps) = unat addr + k * 2 ^ bits \<and>
      unat (lastU ps) = unat addr + k * 2 ^ bits + 2 ^ bits - 1"
proof -
  let ?addr2 = "addr + push_bit bits 1"
  note sb = second_block [OF assms(1,2)]
  let ?found = "\<lambda>k db' suffix a. s = stored uid db' ns (net_object vni suffix a bits) \<and>
    suffix \<in> {''-a'', ''-b''} \<and> k < (if nsz2 = 0 then 1 else 2) \<and> unat a = unat addr + k * 2 ^ bits"
  consider (first) db' where "s = stored uid db' ns (net_object vni ''-a'' addr bits)"
    | (second) db' where "s = stored uid db' ns (net_object vni ''-b'' ?addr2 bits)" "nsz2 \<noteq> 0"
    using assms(3) by (auto simp: net_subnets_def Let_def split: if_splits)
  then have "\<exists>k db' suffix a. ?found k db' suffix a"
  proof cases
    case first
    then have "?found 0 db' ''-a'' addr" by simp
    then show ?thesis by blast
  next
    case second
    then have "?found 1 db' ''-b'' ?addr2" using sb(2) by simp
    then show ?thesis by blast
  qed
  then obtain k db' suffix a where s: "s = stored uid db' ns (net_object vni suffix a bits)"
    and suf: "suffix \<in> {''-a'', ''-b''}" and k: "k < (if nsz2 = 0 then 1 else 2)" "unat a = unat addr + k * 2 ^ bits"
    by blast
  show "spec_VNI s = vni" "sn_Namespace s = ns" using s by simp_all
  show "\<exists>suffix\<in>{''-a'', ''-b''}. sn_Name s = pad0 6 (sprintf_x vni) @ suffix" using s suf by auto
  have "2 ^ bits dvd unat a" using k(2) assms(1) by simp
  then have "parseSubnet s = Inr \<lparr>baseU = a, lastU = a + block_delta (32 - bits) 32\<rparr>"
    using parse_net_object(2) [of bits a s vni suffix] s sb(1) by simp
  moreover have "k \<le> 1" using k(1) by (auto split: if_splits)
  then have "k * 2 ^ bits \<le> (2::nat) ^ bits" by simp
  then have "unat a + 2 ^ bits \<le> 2 ^ 32" using k(2) assms(2) by linarith
  ultimately show "\<exists>k < (if nsz2 = 0 then 1 else 2). \<exists>ps. parseSubnet s = Inr ps \<and> unat (baseU ps) = unat addr + k * 2 ^ bits \<and>
      unat (lastU ps) = unat addr + k * 2 ^ bits + 2 ^ bits - 1"
    using k block_end [of bits a] sb(1) by (intro exI [of _ k]) auto
qed

end
