(* ===== verification/Driver_Frame.thy ===== *)
theory Driver_Frame
  imports Driver_Thread
begin

text \<open>
  What the operations of the driver leave alone. The shape of the driver is what names of
  attachments are made of: the IDs and sizes of the networks and the next index of every slot.
  Only the end of a deletion changes it, and only the call that creates an attachment adds to the
  names that were requested.
\<close>

section \<open>The shape and the requested names\<close>

definition vn_shape :: "VirtNet \<Rightarrow> uint32 \<times> nat \<times> uint32 list" where
  "vn_shape vn = (vn_ID vn, vn_size vn, map nextIndex (slots vn))"

definition shape :: "driver \<Rightarrow> (uint32 \<times> nat \<times> uint32 list) list" where
  "shape d = map vn_shape (virtNets d)"

fun create_name :: "api_call \<Rightarrow> string list" where
  "create_name (CreateCall a) = [natt_Name a]"
| "create_name (DeleteCall _) = []"

definition requested :: "drv_globals \<Rightarrow> string list" where
  "requested g = concat (map create_name (api_calls g))"

named_theorems frame_simps \<open>what operations leave alone\<close>

lemma requested_updates [frame_simps]:
  "requested (log_event es g) = requested g"
  "requested (observe_hist h x ns name g) = requested g"
  "requested (multiOwnerWarnings_update f1 g) = requested g"
  "requested (stoppers_update f1 g) = requested g"
  "requested (readyCount_update f1 g) = requested g"
  "requested (nnsCount_update f1 g) = requested g"
  "requested (xtraDelayI_update f2 g) = requested g"
  "requested (testESs_update f3 g) = requested g"
  "requested (failedCreates_update f4 g) = requested g"
  "requested (successfulCreates_update f4 g) = requested g"
  "requested (failedDeletes_update f4 g) = requested g"
  "requested (successfulDeletes_update f4 g) = requested g"
  "requested (g\<lparr>api_calls := api_calls g @ [CreateCall a]\<rparr>) = requested g @ [natt_Name a]"
  "requested (g\<lparr>nnsCount := c, api_calls := api_calls g @ [CreateCall a]\<rparr>) = requested g @ [natt_Name a]"
  "requested (g\<lparr>api_calls := api_calls g @ [DeleteCall s]\<rparr>) = requested g"
  by (simp_all add: requested_def log_event_def observe_hist_def)

lemma vn_shape_updates [frame_simps]:
  "vn_shape (theCD_update f1 vn) = vn_shape vn"
  "vn_shape (createdCount_update f2 vn) = vn_shape vn"
  "vn_shape (addrs_update f3 vn) = vn_shape vn"
  "vn_shape (nodeMap_update f4 vn) = vn_shape vn"
  by (simp_all add: vn_shape_def)

lemma vn_shape_slot:
  assumes "nextIndex slot = nextIndex (slots vn ! si)"
  shows "vn_shape (vn\<lparr>slots := (slots vn)[si := slot]\<rparr>) = vn_shape vn"
proof (cases "si < length (slots vn)")
  case True
  then have "(map nextIndex (slots vn))[si := nextIndex (slots vn ! si)] = map nextIndex (slots vn)"
    by (metis list_update_id map_update)
  then show ?thesis using assms by (simp add: vn_shape_def map_update)
qed (simp add: vn_shape_def list_update_beyond)

lemma shape_set_vn:
  assumes "vn_shape vn = vn_shape (virtNets d ! vi)"
  shows "shape (set_vn vi vn d) = shape d"
  using assms by (cases "vi < length (virtNets d)")
    (simp_all add: shape_def set_vn_def map_update list_update_beyond list_update_same_conv)

lemma shape_updates [frame_simps]:
  "shape (globals_update f1 d) = shape d"
  "shape (initializedSubnets_update f2 d) = shape d"
  by (simp_all add: shape_def)

lemma globals_set_vn [simp]: "globals (set_vn vi vn d) = globals d"
  by (simp add: set_vn_def)

section \<open>Addresses and notifications\<close>

lemma addrs_unchanged [simp]: "\<exists>m. vn = vn\<lparr>addrs := m\<rparr>"
  by (rule exI [of _ "addrs vn"]) simp

lemma ipAddressChangedInNS_frame:
  "ipAddressChangedInNS ol ne name vn g = (vn', g') \<Longrightarrow>
   (\<exists>m. vn' = vn\<lparr>addrs := m\<rparr>) \<and> requested g' = requested g"
  by (auto simp: ipAddressChangedInNS_def Let_def frame_simps split: if_splits option.splits)

lemma ipAddressChangedAtNode_frame:
  "ipAddressChangedAtNode node ol ne name vn g = (vn', g') \<Longrightarrow>
   (\<exists>m. vn' = vn\<lparr>nodeMap := m\<rparr>) \<and> requested g' = requested g"
  by (auto simp: ipAddressChangedAtNode_def Let_def frame_simps split: if_splits)

lemma ipAddressChanged_frame:
  assumes "ipAddressChanged node ol ne name vn g = (vn', g')"
  shows "\<exists>m m'. vn' = vn\<lparr>nodeMap := m, addrs := m'\<rparr>" "requested g' = requested g"
proof -
  obtain vn1 g1 where "ipAddressChangedAtNode node ol ne name vn g = (vn1, g1)"
    and "ipAddressChangedInNS ol ne name vn1 g1 = (vn', g')"
    using assms by (auto simp: ipAddressChanged_def split: prod.splits)
  then show "\<exists>m m'. vn' = vn\<lparr>nodeMap := m, addrs := m'\<rparr>" "requested g' = requested g"
    using ipAddressChangedAtNode_frame ipAddressChangedInNS_frame by metis+
qed

lemma ipAddressChanged_shape [frame_simps]:
  "ipAddressChanged node ol ne name vn g = (vn', g') \<Longrightarrow> vn_shape vn' = vn_shape vn"
  using ipAddressChanged_frame(1) [of node ol ne name vn g vn' g'] by (auto simp: frame_simps)

lemma observe_address_frame:
  assumes "observe_address natt slot vn g = Inr (vn', g')"
  shows "\<exists>m m'. vn' = vn\<lparr>nodeMap := m, addrs := m'\<rparr>" "requested g' = requested g"
proof -
  have "vn' = vn \<and> g' = g \<or> (\<exists>node ol ne name es. ipAddressChanged node ol ne name vn (log_event es g) = (vn', g'))"
    using assms by (auto simp: observe_address_def Let_def split: if_splits sum.splits)
  moreover have "\<exists>m m'. vn = vn\<lparr>nodeMap := m, addrs := m'\<rparr>"
    by (intro exI [of _ "nodeMap vn"] exI [of _ "addrs vn"]) simp
  ultimately show "\<exists>m m'. vn' = vn\<lparr>nodeMap := m, addrs := m'\<rparr>" "requested g' = requested g"
    using ipAddressChanged_frame requested_updates(1) by metis+
qed

text \<open>The fields of a slot that a notification may change, apart from the attachment.\<close>

definition same_slot :: "Slot \<Rightarrow> Slot \<Rightarrow> bool" where
  "same_slot slot slot' \<longleftrightarrow> nextIndex slot' = nextIndex slot \<and>
     currentAttachmentName slot' = currentAttachmentName slot \<and> currentNodeName slot' = currentNodeName slot \<and>
     preCreateTime slot' = preCreateTime slot \<and> slot_natt slot' = slot_natt slot"

lemma observe_ready_frame:
  "observe_ready fl now slot g = (slot', g') \<Longrightarrow> same_slot slot slot' \<and> requested g' = requested g"
  by (auto simp: observe_ready_def Let_def frame_simps same_slot_def split: if_splits)

lemma observe_tested_frame:
  "observe_tested fl now si report slot cd g = (slot', cd', g') \<Longrightarrow>
   same_slot slot slot' \<and> cd' \<in> {cd, NoteTested si cd, NoteNoTest si cd} \<and> requested g' = requested g"
  by (auto simp: observe_tested_def Let_def frame_simps same_slot_def split: if_splits option.splits)

lemma observe_broken_frame:
  "observe_broken fl now si natt slot cd g = (slot', cd', g') \<Longrightarrow>
   same_slot slot slot' \<and> cd' \<in> {cd, NoteTested si cd, NoteNoTest si cd} \<and> requested g' = requested g"
  by (auto simp: observe_broken_def Let_def frame_simps same_slot_def split: if_splits)

lemma same_slot_trans: "same_slot s t \<Longrightarrow> same_slot t u \<Longrightarrow> same_slot s u"
  by (simp add: same_slot_def)

lemma observe_progress_frame:
  assumes "observe_progress fl now si natt slot cd g = (slot', cd', g')"
  shows "same_slot slot slot' \<and> cd' \<in> {cd, NoteTested si cd, NoteNoTest si cd} \<and> requested g' = requested g"
proof -
  let ?slot1 = "if natt_IPv4 natt \<noteq> [] \<and> addressedTime slot = 0 then slot\<lparr>addressedTime := now\<rparr> else slot"
  obtain slot2 g2 where r: "observe_ready fl now ?slot1 g = (slot2, g2)" by fastforce
  have s1: "same_slot slot ?slot1" by (simp add: same_slot_def)
  note rd = observe_ready_frame [OF r]
  have "observe_tested fl now si (PostCreateExecReport (att_Status natt)) slot2 cd g2 = (slot', cd', g') \<or>
      observe_broken fl now si natt ?slot1 cd g = (slot', cd', g')"
    using assms r by (simp only: observe_progress_def Let_def prod.case split: if_splits) simp_all
  then show ?thesis
  proof
    assume "observe_tested fl now si (PostCreateExecReport (att_Status natt)) slot2 cd g2 = (slot', cd', g')"
    from observe_tested_frame [OF this] show ?thesis
      using rd same_slot_trans [OF same_slot_trans [OF s1]] by auto
  next
    assume "observe_broken fl now si natt ?slot1 cd g = (slot', cd', g')"
    from observe_broken_frame [OF this] show ?thesis using same_slot_trans [OF s1] by blast
  qed
qed

text \<open>A notification is tardy, or it is taken over into the slot.\<close>

lemma observeState_cases:
  assumes "observeState fl now si natt vn g = Inr (vn', g')"
  obtains (tardy) "vn' = vn" "requested g' = requested g" "multiOwnerWarnings g' = multiOwnerWarnings g"
  | (taken) slot vn1 g1 slot2 cd2 where
      "si < length (slots vn)" "slot = slots vn ! si" "natt_Name natt = currentAttachmentName slot"
      "observe_address natt slot vn g = Inr (vn1, g1)"
      "observe_progress fl now si natt slot (theCD vn1) g1 = (slot2, cd2, g')"
      "vn' = vn1\<lparr>theCD := cd2, slots := (slots vn1)[si := slot2\<lparr>slot_natt := Some natt\<rparr>]\<rparr>"
  using assms
  by (auto simp: observeState_def Let_def go_nth_def frame_simps log_event_def requested_def
       split: sum.splits prod.splits if_splits)

lemma observeState_frame [frame_simps]:
  assumes "observeState fl now si natt vn g = Inr (vn', g')"
  shows "vn_shape vn' = vn_shape vn" "requested g' = requested g"
  using assms
proof (atomize (full), cases rule: observeState_cases)
  case (taken slot vn1 g1 slot2 cd2)
  obtain m m' where vn1: "vn1 = vn\<lparr>nodeMap := m, addrs := m'\<rparr>" and g1: "requested g1 = requested g"
    using observe_address_frame [OF taken(4)] by blast
  note pr = observe_progress_frame [OF taken(5)]
  then have "nextIndex (slot2\<lparr>slot_natt := Some natt\<rparr>) = nextIndex (slots vn ! si)"
    using taken(2) by (simp add: same_slot_def)
  from vn_shape_slot [OF this] have "vn_shape vn' = vn_shape vn"
    using taken(6) vn1 by (simp add: vn_shape_def)
  then show "vn_shape vn' = vn_shape vn \<and> requested g' = requested g" using pr g1 by simp
qed simp

lemma attachment_OnAdd_frame:
  "attachment_OnAdd fl now natt d = Inr d' \<Longrightarrow>
   shape d' = shape d \<and> requested (globals d') = requested (globals d)"
  by (auto simp: attachment_OnAdd_def frame_simps shape_set_vn split: option.splits if_splits sum.splits)

lemma subnet_OnAdd_frame:
  "shape (subnet_OnAdd s d) = shape d \<and> globals (subnet_OnAdd s d) = globals d"
  by (simp add: subnet_OnAdd_def frame_simps split: option.splits)

section \<open>Threads\<close>

lemma vn_shape_upd_slot:
  "nextIndex (f (slots vn ! si)) = nextIndex (slots vn ! si) \<Longrightarrow> vn_shape (upd_slot si f vn) = vn_shape vn"
  by (simp add: upd_slot_def vn_shape_slot)

lemma reset_slot_frame [frame_simps]:
  "shape (reset_slot vi si d) = shape d" "globals (reset_slot vi si d) = globals d"
  by (simp_all add: reset_slot_def shape_set_vn vn_shape_upd_slot)

lemma close_observe_frame [frame_simps]: "requested (close_observe slot ns name g) = requested g"
  by (simp add: close_observe_def Let_def frame_simps)

lemma close_frame:
  "close fl vi si d = Inr (natt, d') \<Longrightarrow>
   shape d' = shape d \<and> requested (globals d') = requested (globals d)"
  by (auto simp: close_def Let_def frame_simps shape_set_vn ipAddressChanged_frame(2)
       split: if_splits option.splits sum.splits prod.splits)

lemma setCurrentName_frame:
  "setCurrentName si name node slot cd = (slot', cd') \<Longrightarrow> nextIndex slot' = nextIndex slot"
  by (auto simp: setCurrentName_def)

lemma create_call_frame:
  assumes "create_call tp plan now ts th d = Inr (th', d')"
  shows "\<exists>full. th' = th\<lparr>pc := Creating plan now full\<rparr>" "shape d' = shape d"
    "requested (globals d') = requested (globals d) @ [cp_name plan]"
  using assms
  by (auto simp: create_call_def Let_def new_attachment_def frame_simps vn_shape_slot
       intro!: shape_set_vn [THEN trans]
       dest!: setCurrentName_frame split: if_splits option.splits sum.splits prod.splits)

lemma choose_subnet_frame:
  "choose_subnet vn = Inr (vn', s) \<Longrightarrow> \<exists>c. vn' = vn\<lparr>createdCount := c\<rparr>"
  by (auto simp: choose_subnet_def Let_def go_nth_def split: if_splits)
    (metis VirtNet.surjective VirtNet.update_convs(9))

text \<open>The plan that a thread makes for the next attachment, apart from the node and the subnet.\<close>

definition plans :: "thread_params \<Rightarrow> driver \<Rightarrow> thread \<Rightarrow> create_plan \<Rightarrow> bool" where
  "plans tp d th plan \<longleftrightarrow>
     (let (vi, si) = thr_work th ! (iCreate th mod length (thr_work th)); vn = virtNets d ! vi in
      cp_vn plan = vi \<and> cp_slot plan = si \<and>
      cp_name plan = att_name (tp_digits tp) (vn_ID vn) (nextIndex (slots vn ! si)))"

definition calls :: "driver \<Rightarrow> driver \<Rightarrow> create_plan \<Rightarrow> bool" where
  "calls d d' plan \<longleftrightarrow> shape d' = shape d \<and> requested (globals d') = requested (globals d) @ [cp_name plan]"

lemma create_begin_frame:
  assumes "create_begin tp intn now ts th d = Inr (th', d')"
  shows "thr_work th \<noteq> [] \<and> (\<exists>plan. plans tp d th plan \<and>
    ((\<exists>full. th' = th\<lparr>pc := Creating plan now full\<rparr>) \<and> calls d d' plan \<or>
     (\<exists>t. th' = th\<lparr>pc := WaitingPeer plan t\<rparr>) \<and> shape d' = shape d \<and>
       requested (globals d') = requested (globals d)))"
proof -
  obtain vi si where w: "go_nth (thr_work th) (iCreate th mod length (thr_work th)) = Inr (vi, si)"
    using assms by (auto simp: create_begin_def split: sum.splits)
  then have wk: "thr_work th \<noteq> []" "thr_work th ! (iCreate th mod length (thr_work th)) = (vi, si)"
    by (auto simp: go_nth_def split: if_splits)
  let ?vn = "virtNets d ! vi"
  obtain vn1 s node where s: "choose_subnet ?vn = Inr (vn1, s)" and n: "choose_node tp th intn = Inr node"
    using assms w by (auto simp: create_begin_def Let_def split: sum.splits prod.splits)
  define plan where "plan = \<lparr>cp_vn = vi, cp_slot = si, cp_subnet = meta_Name (sn_meta s),
    cp_name = att_name (tp_digits tp) (vn_ID ?vn) (nextIndex (slots ?vn ! si)), cp_node = node\<rparr>"
  have d1: "shape (set_vn vi vn1 d) = shape d"
    using choose_subnet_frame [OF s] by (auto simp: frame_simps intro!: shape_set_vn)
  have "create_call tp plan now ts th (set_vn vi vn1 d) = Inr (th', d') \<or>
    (\<exists>cd t. th' = th\<lparr>pc := WaitingPeer plan t\<rparr> \<and> d' = set_vn vi (vn1\<lparr>theCD := cd\<rparr>) (set_vn vi vn1 d))"
    using assms w s n by (auto simp: create_begin_def Let_def plan_def split: if_splits option.splits)
  moreover have "plans tp d th plan" using wk by (simp add: plans_def plan_def)
  moreover have "shape (set_vn vi (vn1\<lparr>theCD := cd\<rparr>) (set_vn vi vn1 d)) = shape d" for cd
    using choose_subnet_frame [OF s] by (auto simp: frame_simps set_vn_def intro!: shape_set_vn [unfolded set_vn_def])
  ultimately show ?thesis using wk(1) d1 create_call_frame by (auto simp: calls_def) 
qed

end
