(* ===== verification/Driver_Names.thy ===== *)
theory Driver_Names
  imports Driver_Frame
begin

text \<open>
  An abstraction of the threads of the driver: what a thread does to its counters, to the shape of
  the driver and to the list of requested names. Every step of the driver is a step of the
  abstraction (\<open>drv_step_simulated\<close>), on which the invariant of the counters and the indices is
  proved. It gives the name of every attachment that is requested.
\<close>

section \<open>The abstraction\<close>

type_synonym drv_shape = "(uint32 \<times> nat \<times> uint32 list) list"

abbreviation sh_id :: "drv_shape \<Rightarrow> nat \<Rightarrow> uint32" where "sh_id sh vi \<equiv> fst (sh ! vi)"
abbreviation sh_size :: "drv_shape \<Rightarrow> nat \<Rightarrow> nat" where "sh_size sh vi \<equiv> fst (snd (sh ! vi))"
abbreviation sh_next :: "drv_shape \<Rightarrow> nat \<Rightarrow> uint32 list" where "sh_next sh vi \<equiv> snd (snd (sh ! vi))"

definition sh_advance :: "nat \<Rightarrow> nat \<Rightarrow> drv_shape \<Rightarrow> drv_shape" where
  "sh_advance vi si sh = sh[vi := (sh_id sh vi, sh_size sh vi,
     (sh_next sh vi)[si := sh_next sh vi ! si + of_nat (sh_size sh vi)])]"

text \<open>The slot that a thread uses for its \<open>k\<close>-th creation or deletion.\<close>

definition work_at :: "thread \<Rightarrow> nat \<Rightarrow> nat \<times> nat" where
  "work_at th k = thr_work th ! (k mod length (thr_work th))"

definition may_create :: "thread \<Rightarrow> bool" where
  "may_create th \<longleftrightarrow> iDelete th < thr_n th \<and> createAllowed th \<and>
     iCreate th < iDelete th + length (thr_work th) \<and> iCreate th < thr_n th"

definition fits :: "nat \<Rightarrow> drv_shape \<Rightarrow> thread \<Rightarrow> create_plan \<Rightarrow> bool" where
  "fits digs sh th plan \<longleftrightarrow>
     (case work_at th (iCreate th) of (vi, si) \<Rightarrow>
        cp_vn plan = vi \<and> cp_slot plan = si \<and>
        (vi < length sh \<longrightarrow> si < length (sh_next sh vi) \<longrightarrow>
           cp_name plan = att_name digs (sh_id sh vi) (sh_next sh vi ! si)))"

inductive thread_step :: "nat \<Rightarrow> thread \<times> drv_shape \<times> string list \<Rightarrow> thread \<times> drv_shape \<times> string list \<Rightarrow> bool"
  for digs where
  Return: "pc th = AtTop \<Longrightarrow> (c \<longrightarrow> createAllowed th) \<Longrightarrow>
     thread_step digs (th, sh, req) (th\<lparr>createAllowed := c, pc := Returned\<rparr>, sh, req)"
| Plan: "pc th = AtTop \<Longrightarrow> may_create th \<Longrightarrow> fits digs sh th plan \<Longrightarrow>
     thread_step digs (th, sh, req) (th\<lparr>pc := WaitingPeer plan t\<rparr>, sh, req)"
| Plan_call: "pc th = AtTop \<Longrightarrow> may_create th \<Longrightarrow> fits digs sh th plan \<Longrightarrow>
     thread_step digs (th, sh, req) (th\<lparr>pc := Creating plan t full\<rparr>, sh, req @ [cp_name plan])"
| Wait: "pc th = WaitingPeer plan t \<Longrightarrow> thread_step digs (th, sh, req) (th, sh, req)"
| Call: "pc th = WaitingPeer plan t0 \<Longrightarrow>
     thread_step digs (th, sh, req) (th\<lparr>pc := Creating plan t full\<rparr>, sh, req @ [cp_name plan])"
| Created: "pc th = Creating plan t full \<Longrightarrow>
     thread_step digs (th, sh, req) (th\<lparr>iCreate := iCreate th + 1, pc := AtTop\<rparr>, sh, req)"
| Close: "pc th = AtTop \<Longrightarrow> iDelete th < thr_n th \<Longrightarrow> (c \<longrightarrow> createAllowed th) \<Longrightarrow>
     \<not> may_create (th\<lparr>createAllowed := c\<rparr>) \<Longrightarrow> thr_work th \<noteq> [] \<Longrightarrow> work_at th (iDelete th) = (vi, si) \<Longrightarrow>
     thread_step digs (th, sh, req) (th\<lparr>createAllowed := c, pc := Deleting vi si natt\<rparr>, sh, req)"
| Deleted: "pc th = Deleting vi si natt \<Longrightarrow>
     thread_step digs (th, sh, req) (th\<lparr>iDelete := iDelete th + 1, pc := AtTop\<rparr>, sh_advance vi si sh, req)"

section \<open>The driver refines it\<close>

lemma shape_nth: "vi < length (shape d) \<Longrightarrow> shape d ! vi = vn_shape (virtNets d ! vi)"
  by (simp add: shape_def)

lemma plans_fits: "plans tp d th plan \<Longrightarrow> fits (tp_digits tp) (shape d) th plan"
  by (auto simp: plans_def Let_def fits_def work_at_def shape_nth vn_shape_def split: prod.splits)

lemma loop_top_simulated:
  assumes "loop_top tp stopped intn now ts th d = Inr (th', d')" "pc th = AtTop"
  shows "thread_step (tp_digits tp) (th, shape d, requested (globals d)) (th', shape d', requested (globals d'))"
proof -
  let ?th1 = "th\<lparr>createAllowed := createAllowed th \<and> \<not> stopped\<rparr>"
  let ?ok = "createAllowed ?th1 \<and> iCreate ?th1 < iDelete ?th1 + length (thr_work ?th1) \<and> iCreate ?th1 < thr_n ?th1"
  consider (ret) "\<not> iDelete th < thr_n th \<or> 0 < stoppers (globals d)"
    | (create) "iDelete th < thr_n th" "\<not> 0 < stoppers (globals d)" "?ok" "?th1 = th"
    | (rest) "iDelete th < thr_n th" "\<not> 0 < stoppers (globals d)" "\<not> ?ok" by fastforce
  then show ?thesis
  proof cases
    case ret
    then have "th' = th\<lparr>createAllowed := createAllowed th, pc := Returned\<rparr>" "d' = d"
      using assms(1) by (auto simp: loop_top_def)
    then show ?thesis using assms(2) thread_step.Return by metis
  next
    case create
    have c: "create_begin tp intn now ts th d = Inr (th', d')"
      using assms(1) create by (simp add: loop_top_def Let_def)
    have m: "may_create th" using create by (auto simp: may_create_def)
    from create_begin_frame [OF c] plans_fits show ?thesis
      using thread_step.Plan [OF assms(2) m] thread_step.Plan_call [OF assms(2) m]
      by (fastforce simp: calls_def)
  next
    case rest
    then have m: "\<not> may_create ?th1" by (auto simp: may_create_def)
    show ?thesis
    proof (cases "tp_justCreate tp")
      case True
      then have "th' = ?th1\<lparr>pc := Returned\<rparr>" "d' = d" using assms(1) rest by (auto simp: loop_top_def Let_def)
      then show ?thesis using thread_step.Return [OF assms(2)] by simp
    next
      case False
      then have "delete_begin tp ?th1 d = Inr (th', d')" using assms(1) rest by (auto simp: loop_top_def Let_def)
      then obtain vi si natt where "go_nth (thr_work th) (iDelete th mod length (thr_work th)) = Inr (vi, si)"
        and cl: "close (tp_flags tp) vi si d = Inr (natt, d')" and th': "th' = ?th1\<lparr>pc := Deleting vi si natt\<rparr>"
        by (auto simp: delete_begin_def split: sum.splits prod.splits)
      then have "thr_work th \<noteq> []" "work_at th (iDelete th) = (vi, si)"
        by (auto simp: go_nth_def work_at_def split: if_splits)
      then show ?thesis
        using th' close_frame [OF cl] thread_step.Close [OF assms(2) rest(1) _ m] by simp
    qed
  qed
qed

lemma create_resume_simulated:
  assumes "create_resume tp now ts plan tLimit th d = Inr (th', d')" "pc th = WaitingPeer plan tLimit"
  shows "thread_step (tp_digits tp) (th, shape d, requested (globals d)) (th', shape d', requested (globals d'))"
proof (cases "th' = th \<and> d' = d")
  case True
  then show ?thesis using thread_step.Wait [OF assms(2)] by simp
next
  case False
  then obtain cd cd1 g1 where "ready_leave now cd (globals d) = (cd1, g1)"
    and c: "create_call tp plan now ts th
      (set_vn (cp_vn plan) ((virtNets d ! cp_vn plan)\<lparr>theCD := Some cd1\<rparr>) (d\<lparr>globals := g1\<rparr>)) = Inr (th', d')"
    using assms(1) by (auto simp: create_resume_def Let_def split: option.splits if_splits prod.splits)
  then have "requested g1 = requested (globals d)"
    by (auto simp: ready_leave_def Let_def frame_simps)
  moreover have "shape (set_vn (cp_vn plan) ((virtNets d ! cp_vn plan)\<lparr>theCD := Some cd1\<rparr>) (d\<lparr>globals := g1\<rparr>)) = shape d"
    by (rule shape_set_vn [THEN trans]) (simp_all add: frame_simps)
  ultimately show ?thesis
    using create_call_frame [OF c] thread_step.Call [OF assms(2)] by auto
qed

lemma create_end_simulated:
  assumes "create_end tp plan ti0 full tif reply th d = (th', d')" "pc th = Creating plan ti0 full"
  shows "thread_step (tp_digits tp) (th, shape d, requested (globals d)) (th', shape d', requested (globals d'))"
proof -
  have "th' = th\<lparr>iCreate := iCreate th + 1, pc := AtTop\<rparr>" "shape d' = shape d"
    "requested (globals d') = requested (globals d)"
    using assms(1)
    by (auto simp: create_end_def Let_def frame_simps setNetAtt_def vn_shape_slot vn_shape_upd_slot
         intro!: shape_set_vn [THEN trans] dest!: setCurrentName_frame split: sum.splits prod.splits)
  then show ?thesis using thread_step.Created [OF assms(2)] by simp
qed

lemma requested_tryDelete [frame_simps]: "requested (fold (tryDelete fl name) attempts g) = requested g"
  by (induction attempts arbitrary: g) (auto simp: tryDelete_def Let_def frame_simps split: prod.splits)

lemma shape_advance:
  assumes "vi < length (virtNets d)" "si < length (slots (virtNets d ! vi))"
  shows "shape (set_vn vi (upd_slot si (\<lambda>s. s\<lparr>nextIndex := nextIndex s + of_nat (vn_size (virtNets d ! vi))\<rparr>)
      (virtNets d ! vi)) d) = sh_advance vi si (shape d)"
  using assms by (simp add: shape_def set_vn_def upd_slot_def sh_advance_def map_update vn_shape_def)

lemma delete_end_simulated:
  assumes "delete_end tp attempts vi si natt th d = Some (th', d')" "pc th = Deleting vi si natt"
    and "vi < length (virtNets d)" "si < length (slots (virtNets d ! vi))"
  shows "thread_step (tp_digits tp) (th, shape d, requested (globals d)) (th', shape d', requested (globals d'))"
proof -
  have "th' = th\<lparr>iDelete := iDelete th + 1, pc := AtTop\<rparr>" "shape d' = sh_advance vi si (shape d)"
    "requested (globals d') = requested (globals d)"
    using assms(1) shape_advance [OF assms(3,4)]
    by (auto simp: delete_end_def Let_def frame_simps split: option.splits)
  then show ?thesis using thread_step.Deleted [OF assms(2)] by simp
qed

section \<open>The invariant of a thread\<close>

text \<open>The name of the \<open>k\<close>-th attachment of a thread, given the IDs and sizes of the networks.\<close>

definition thread_name :: "nat \<Rightarrow> drv_shape \<Rightarrow> VirtNetAttachment list \<Rightarrow> nat \<Rightarrow> string" where
  "thread_name digs sh work k =
     (case work ! (k mod length work) of (vi, si) \<Rightarrow>
        att_name digs (sh_id sh vi) (of_nat (si + 1 + sh_size sh vi * (k div length work))))"

definition in_creation :: "nat \<Rightarrow> drv_shape \<Rightarrow> thread \<Rightarrow> create_plan \<Rightarrow> bool" where
  "in_creation digs sh th plan \<longleftrightarrow> iCreate th < thr_n th \<and> iCreate th < iDelete th + length (thr_work th) \<and>
     iDelete th \<le> iCreate th \<and> (cp_vn plan, cp_slot plan) = work_at th (iCreate th) \<and>
     cp_name plan = thread_name digs sh (thr_work th) (iCreate th)"

definition pc_ok :: "nat \<Rightarrow> drv_shape \<Rightarrow> thread \<Rightarrow> bool" where
  "pc_ok digs sh th \<longleftrightarrow>
     (case pc th of
        AtTop \<Rightarrow> True
      | WaitingPeer plan _ \<Rightarrow> in_creation digs sh th plan
      | Creating plan _ _ \<Rightarrow> in_creation digs sh th plan
      | Deleting vi si _ \<Rightarrow> iDelete th < thr_n th \<and> thr_work th \<noteq> [] \<and> (vi, si) = work_at th (iDelete th) \<and>
          (createAllowed th \<longrightarrow> iDelete th < iCreate th)
      | Returned \<Rightarrow> True)"

definition counts_ok :: "thread \<Rightarrow> bool" where
  "counts_ok th \<longleftrightarrow> iCreate th \<le> thr_n th \<and> iDelete th \<le> thr_n th \<and>
     iCreate th \<le> iDelete th + length (thr_work th) \<and> (createAllowed th \<longrightarrow> iDelete th \<le> iCreate th)"

text \<open>The next index of the slots of a thread tells how often each was closed.\<close>

definition next_ok :: "drv_shape \<Rightarrow> VirtNetAttachment list \<Rightarrow> nat \<Rightarrow> bool" where
  "next_ok sh work dels \<longleftrightarrow>
     (\<forall>p<length work. case work ! p of (vi, si) \<Rightarrow>
        vi < length sh \<and> si < length (sh_next sh vi) \<and>
        sh_next sh vi ! si = of_nat (si + 1 + sh_size sh vi * thread_share dels (length work) p))"

definition thread_ok :: "nat \<Rightarrow> drv_shape \<Rightarrow> thread \<Rightarrow> bool" where
  "thread_ok digs sh th \<longleftrightarrow> counts_ok th \<and> pc_ok digs sh th \<and> next_ok sh (thr_work th) (iDelete th) \<and>
     distinct (thr_work th)"

text \<open>When creation \<open>k\<close> starts, its slot was closed as often as it was used before.\<close>

lemma thread_share_current:
  assumes "d \<le> k" "k < d + L"
  shows "thread_share d L (k mod L) = k div L"
proof -
  have p: "k mod L < L" using assms by (cases "L = 0") auto
  have "\<not> k div L < thread_share d L (k mod L)"
    using thread_share_less [OF p, of "k div L" d] assms by simp
  moreover have "k div L - 1 < thread_share d L (k mod L)" if "0 < k div L"
  proof -
    have "k mod L + (k div L - 1) * L + L = k" 
      using that div_mod_decomp [of k L] by (cases "k div L") auto
    then show ?thesis using thread_share_less [OF p, of "k div L - 1" d] assms by linarith
  qed
  ultimately show ?thesis by (cases "k div L") auto
qed

lemma thread_share_advance:
  assumes "0 < L" "p < L"
  shows "thread_share (Suc d) L p = thread_share d L p + (if d mod L = p then 1 else 0)"
proof -
  have "i < thread_share (Suc d) L p \<longleftrightarrow> i < thread_share d L p \<or> p + i * L = d" for i
    using thread_share_less [OF assms(2)] by auto
  moreover have "p + i * L = d \<longleftrightarrow> d mod L = p \<and> i = d div L" for i
    using assms by auto
  moreover have "thread_share d L p = d div L" if "d mod L = p"
    using thread_share_current [of d d L] that assms by simp
  ultimately show ?thesis by (smt (verit) Suc_eq_plus1 add_0_right less_Suc_eq linorder_neqE_nat nat_less_le)
qed

lemma sh_advance_parts [simp]:
  "length (sh_advance vi si sh) = length sh"
  "sh_id (sh_advance vi si sh) vj = sh_id sh vj"
  "sh_size (sh_advance vi si sh) vj = sh_size sh vj"
  "length (sh_next (sh_advance vi si sh) vj) = length (sh_next sh vj)"
  by (cases "vi < length sh"; cases "vj = vi"; simp add: sh_advance_def list_update_beyond)+

lemma sh_advance_next:
  assumes "vi < length sh" "si < length (sh_next sh vi)"
  shows "sh_next (sh_advance vi si sh) vj ! sj =
    sh_next sh vj ! sj + (if (vj, sj) = (vi, si) then of_nat (sh_size sh vi) else 0)"
  using assms by (cases "vj = vi"; cases "sj = si") (simp_all add: sh_advance_def)

lemma thread_name_advance [simp]: "thread_name digs (sh_advance vi si sh) = thread_name digs sh"
  by (intro ext) (simp add: thread_name_def split: prod.split)

lemma in_creation_advance [simp]: "in_creation digs (sh_advance vi si sh) = in_creation digs sh"
  by (intro ext) (simp add: in_creation_def)

lemma pc_ok_advance [simp]: "pc_ok digs (sh_advance vi si sh) = pc_ok digs sh"
  by (intro ext) (simp add: pc_ok_def split: thread_pc.split)

lemma next_okD:
  assumes "next_ok sh work d" "p < length work" "(vi, si) = work ! p"
  shows "vi < length sh" "si < length (sh_next sh vi)"
    "sh_next sh vi ! si = of_nat (si + 1 + sh_size sh vi * thread_share d (length work) p)"
  using assms unfolding next_ok_def by (metis (mono_tags, lifting) case_prod_conv)+

lemma next_ok_advance_own:
  assumes ok: "next_ok sh work d" and di: "distinct work" and w: "work \<noteq> []" "(vi, si) = work ! (d mod length work)"
  shows "next_ok (sh_advance vi si sh) work (Suc d)"
  unfolding next_ok_def
proof (intro allI impI)
  let ?L = "length work"
  have L: "0 < ?L" "d mod ?L < ?L" using w by auto
  then have v: "vi < length sh" "si < length (sh_next sh vi)"
    using next_okD [OF ok _ w(2)] by blast+
  fix p assume p: "p < ?L"
  obtain vj sj where j: "work ! p = (vj, sj)" by (cases "work ! p")
  have "(vj, sj) = (vi, si) \<longleftrightarrow> d mod ?L = p"
    using di p L j w(2) by (metis nth_eq_iff_index_eq)
  then show "case work ! p of (vj, sj) \<Rightarrow> vj < length (sh_advance vi si sh) \<and>
      sj < length (sh_next (sh_advance vi si sh) vj) \<and>
      sh_next (sh_advance vi si sh) vj ! sj =
        of_nat (sj + 1 + sh_size (sh_advance vi si sh) vj * thread_share (Suc d) ?L p)"
    using ok p j sh_advance_next [OF v, of vj sj] thread_share_advance [OF L(1) p, of d]
    by (auto simp: next_ok_def algebra_simps split: prod.splits)
qed

lemma next_ok_advance_other:
  assumes "next_ok sh work d" "(vi, si) \<notin> set work" "vi < length sh" "si < length (sh_next sh vi)"
  shows "next_ok (sh_advance vi si sh) work d"
  using assms sh_advance_next [OF assms(3,4)] unfolding next_ok_def
  by (fastforce split: prod.splits simp: in_set_conv_nth)

lemma fits_name:
  assumes "fits digs sh th plan" "may_create th" "thread_ok digs sh th"
  shows "in_creation digs sh th plan"
proof -
  let ?L = "length (thr_work th)" and ?k = "iCreate th"
  have k: "iDelete th \<le> ?k" "?k < iDelete th + ?L" "?k < thr_n th"
    using assms by (auto simp: may_create_def thread_ok_def counts_ok_def)
  then have L: "?k mod ?L < ?L" by (cases "?L = 0") auto
  obtain vi si where w: "thr_work th ! (?k mod ?L) = (vi, si)" by fastforce
  have n: "vi < length sh" "si < length (sh_next sh vi)"
    "sh_next sh vi ! si = of_nat (si + 1 + sh_size sh vi * thread_share (iDelete th) ?L (?k mod ?L))"
    using assms(3) L next_okD [of sh "thr_work th" "iDelete th" "?k mod ?L" vi si] w
    by (simp_all add: thread_ok_def)
  then show ?thesis using assms(1) k w thread_share_current [OF k(1,2)]
    by (simp add: fits_def in_creation_def thread_name_def work_at_def)
qed

lemma thread_step_ok:
  assumes "thread_step digs (th, sh, req) (th', sh', req')" "thread_ok digs sh th"
  shows "thread_ok digs sh' th'"
  using assms(1)
proof (cases rule: thread_step.cases)
  case (Plan plan t)
  then show ?thesis using fits_name [OF Plan(6,5) assms(2)] assms(2)
    by (auto simp: thread_ok_def counts_ok_def pc_ok_def in_creation_def work_at_def)
next
  case (Plan_call plan t full)
  then show ?thesis using fits_name [OF Plan_call(6,5) assms(2)] assms(2)
    by (auto simp: thread_ok_def counts_ok_def pc_ok_def in_creation_def work_at_def)
next
  case (Deleted vi si natt)
  then show ?thesis using assms(2) next_ok_advance_own
    by (auto simp: thread_ok_def counts_ok_def pc_ok_def work_at_def)
qed (use assms(2) in \<open>auto simp: thread_ok_def counts_ok_def pc_ok_def in_creation_def work_at_def may_create_def\<close>)

section \<open>All threads\<close>

text \<open>The attachments that a thread has requested so far.\<close>

definition requests :: "thread \<Rightarrow> nat" where
  "requests th = iCreate th + (case pc th of Creating _ _ _ \<Rightarrow> 1 | _ \<Rightarrow> 0)"

definition names_of :: "nat \<Rightarrow> drv_shape \<Rightarrow> thread \<Rightarrow> string list" where
  "names_of digs sh th = map (thread_name digs sh (thr_work th)) [0..<requests th]"

definition sh_static :: "drv_shape \<Rightarrow> (uint32 \<times> nat \<times> nat) list" where
  "sh_static sh = map (\<lambda>(vni, sz, idx). (vni, sz, length idx)) sh"

definition drv_ok :: "nat \<Rightarrow> drv_state \<Rightarrow> bool" where
  "drv_ok digs s \<longleftrightarrow>
     (case s of (ths, d) \<Rightarrow>
        (\<forall>th\<in>set ths. thread_ok digs (shape d) th) \<and> distinct (concat (map thr_work ths)) \<and>
        mset (requested (globals d)) = mset (concat (map (names_of digs (shape d)) ths)))"

lemma mset_concat_update:
  assumes "t < length xs"
  shows "mset (concat (map f (xs[t := x]))) + mset (f (xs ! t)) = mset (concat (map f xs)) + mset (f x)"
  using assms
proof (induction xs arbitrary: t)
  case (Cons y ys)
  then show ?case by (cases t) (auto simp: algebra_simps)
qed simp

lemma distinct_concat_disjoint:
  assumes "distinct (concat (map f xs))" "u < length xs" "t < length xs" "u \<noteq> t"
  shows "set (f (xs ! u)) \<inter> set (f (xs ! t)) = {}"
  using assms
proof (induction xs arbitrary: u t)
  case (Cons x xs)
  have sub: "k < length xs \<Longrightarrow> set (f (xs ! k)) \<subseteq> set (concat (map f xs))" for k
    using nth_mem by fastforce
  have di: "set (f x) \<inter> set (concat (map f xs)) = {}" "distinct (concat (map f xs))" using Cons.prems(1) by simp_all
  show ?case
  proof (cases u)
    case 0
    then show ?thesis using Cons.prems(3,4) sub [of "t - 1"] di(1) by (cases t) auto
  next
    case (Suc u')
    then show ?thesis using Cons.prems(2-4) sub [of u'] di Cons.IH [of u' "t - 1"] by (cases t) auto
  qed
qed simp

lemma names_of_advance [simp]: "names_of digs (sh_advance vi si sh) = names_of digs sh"
  by (intro ext) (simp add: names_of_def)

lemma sh_static_advance [simp]: "sh_static (sh_advance vi si sh) = sh_static sh"
proof (cases "vi < length sh")
  case True
  then show ?thesis
    by (auto simp: sh_static_def sh_advance_def map_update list_update_same_conv split: prod.split)
qed (simp add: sh_static_def sh_advance_def list_update_beyond)

lemma thread_step_names:
  assumes "thread_step digs (th, sh, req) (th', sh', req')" "thread_ok digs sh th"
  shows "thr_work th' = thr_work th" "thr_n th' = thr_n th" "sh_static sh' = sh_static sh"
    "names_of digs sh' = names_of digs sh"
    "mset req' + mset (names_of digs sh th) = mset req + mset (names_of digs sh th')"
proof -
  show "thr_work th' = thr_work th" "thr_n th' = thr_n th" "sh_static sh' = sh_static sh"
    "names_of digs sh' = names_of digs sh"
    using assms(1) by (cases rule: thread_step.cases; simp)+
  show "mset req' + mset (names_of digs sh th) = mset req + mset (names_of digs sh th')"
    using assms(1)
  proof (cases rule: thread_step.cases)
    case (Plan_call plan t full)
    then show ?thesis using fits_name [OF Plan_call(6,5) assms(2)]
      by (simp add: names_of_def requests_def in_creation_def)
  next
    case (Call plan t0 t full)
    then show ?thesis using assms(2)
      by (simp add: names_of_def requests_def in_creation_def thread_ok_def pc_ok_def)
  qed (simp_all add: names_of_def requests_def)
qed

lemma work_in_shape:
  assumes "thread_ok digs sh th" "(vi, si) = work_at th k" "thr_work th \<noteq> []"
  shows "(vi, si) \<in> set (thr_work th)" "vi < length sh" "si < length (sh_next sh vi)"
proof -
  have p: "k mod length (thr_work th) < length (thr_work th)" using assms(3) by simp
  then show "(vi, si) \<in> set (thr_work th)" using assms(2) by (metis nth_mem work_at_def)
  show "vi < length sh" "si < length (sh_next sh vi)"
    using next_okD [OF _ p, of sh "iDelete th" vi si] assms unfolding thread_ok_def work_at_def by blast+
qed

lemma thread_step_others:
  assumes "thread_step digs (th, sh, req) (th', sh', req')" "thread_ok digs sh th"
    and "thread_ok digs sh th2" "set (thr_work th2) \<inter> set (thr_work th) = {}"
  shows "thread_ok digs sh' th2"
  using assms(1)
proof (cases rule: thread_step.cases)
  case (Deleted vi si natt)
  then have w: "(vi, si) = work_at th (iDelete th)" "thr_work th \<noteq> []"
    using assms(2) by (simp_all add: thread_ok_def pc_ok_def)
  note slot = work_in_shape [OF assms(2) w]
  then have "(vi, si) \<notin> set (thr_work th2)" using assms(4) by blast
  then have "next_ok (sh_advance vi si sh) (thr_work th2) (iDelete th2)"
    using assms(3) slot by (intro next_ok_advance_other) (simp_all add: thread_ok_def)
  then show ?thesis using assms(3) Deleted by (simp add: thread_ok_def)
qed (use assms(3) in auto)

lemma drv_step_simulated:
  assumes "drv_step tp (ths, d) (ths', d')" "drv_ok (tp_digits tp) (ths, d)"
  shows "(ths' = ths \<and> shape d' = shape d \<and> requested (globals d') = requested (globals d)) \<or>
    (\<exists>t<length ths. \<exists>th'. ths' = ths[t := th'] \<and>
       thread_step (tp_digits tp) (ths ! t, shape d, requested (globals d)) (th', shape d', requested (globals d')))"
  using assms(1)
proof (cases rule: drv_step.cases)
  case (Deleted t vi si natt attempts th')
  have ok: "thread_ok (tp_digits tp) (shape d) (ths ! t)" using assms(2) Deleted by (auto simp: drv_ok_def)
  then have w: "(vi, si) = work_at (ths ! t) (iDelete (ths ! t))" "thr_work (ths ! t) \<noteq> []"
    using Deleted by (simp_all add: thread_ok_def pc_ok_def)
  have "vi < length (shape d)" "si < length (sh_next (shape d) vi)"
    using work_in_shape [OF ok w] by blast+
  then have "vi < length (virtNets d)" "si < length (slots (virtNets d ! vi))"
    by (auto simp: shape_nth vn_shape_def) (simp add: shape_def)
  then show ?thesis using Deleted
    delete_end_simulated [of tp attempts vi si natt "ths ! t" d th' d'] by auto
next
  case (Top t intn stopped now ts th')
  then show ?thesis 
    using loop_top_simulated [of tp stopped intn now ts "ths ! t" d th' d'] by auto
next
  case (Resume t plan tLimit now ts th')
  then show ?thesis 
    using create_resume_simulated [of tp now ts plan tLimit "ths ! t" d th' d'] by auto
next
  case (Created t plan ti0 full tif reply th')
  then show ?thesis 
    using create_end_simulated [of tp plan ti0 full tif reply "ths ! t" d th' d'] by auto
qed (simp_all add: attachment_OnAdd_frame subnet_OnAdd_frame)

lemma drv_step_ok:
  assumes "drv_step tp s s'" "drv_ok (tp_digits tp) s"
  shows "drv_ok (tp_digits tp) s'" "map thr_work (fst s') = map thr_work (fst s)"
    "map thr_n (fst s') = map thr_n (fst s)" "sh_static (shape (snd s')) = sh_static (shape (snd s))"
proof -
  obtain ths d ths' d' where s: "s = (ths, d)" "s' = (ths', d')" by (cases s, cases s')
  let ?digs = "tp_digits tp"
  have "drv_ok ?digs s' \<and> map thr_work ths' = map thr_work ths \<and> map thr_n ths' = map thr_n ths \<and>
    sh_static (shape d') = sh_static (shape d)"
    using drv_step_simulated [OF assms [unfolded s]]
  proof (elim disjE exE conjE)
    fix t th' assume t: "t < length ths" and ths': "ths' = ths[t := th']"
      and st: "thread_step ?digs (ths ! t, shape d, requested (globals d)) (th', shape d', requested (globals d'))"
    have ok: "\<And>u. u < length ths \<Longrightarrow> thread_ok ?digs (shape d) (ths ! u)"
      and di: "distinct (concat (map thr_work ths))"
      and req: "mset (requested (globals d)) = mset (concat (map (names_of ?digs (shape d)) ths))"
      using assms(2) s by (auto simp: drv_ok_def)
    note names = thread_step_names [OF st ok [OF t]]
    have w: "map thr_work ths' = map thr_work ths" "map thr_n ths' = map thr_n ths"
      using names(1,2) ths' t by (auto simp: map_update list_update_same_conv)
    have "thread_ok ?digs (shape d') (ths' ! u)" if u: "u < length ths" for u
    proof (cases "u = t")
      case True
      then show ?thesis using thread_step_ok [OF st ok [OF t]] ths' t by simp
    next
      case False
      then have "set (thr_work (ths ! u)) \<inter> set (thr_work (ths ! t)) = {}"
        using distinct_concat_disjoint [OF di u t] by blast
      then show ?thesis using thread_step_others [OF st ok [OF t] ok [OF u]] ths' False by simp
    qed
    moreover have "mset (requested (globals d')) = mset (concat (map (names_of ?digs (shape d')) ths'))"
      using mset_concat_update [OF t, of "names_of ?digs (shape d)" th'] names(4,5) req ths'
      by (metis add_right_imp_eq)
    ultimately show ?thesis using w names(3) di s ths' by (auto simp: drv_ok_def all_set_conv_all_nth)
  qed (use assms(2) s in \<open>auto simp: drv_ok_def\<close>)
  then show "drv_ok ?digs s'" "map thr_work (fst s') = map thr_work (fst s)"
    "map thr_n (fst s') = map thr_n (fst s)" "sh_static (shape (snd s')) = sh_static (shape (snd s))"
    using s by simp_all
qed

lemma drv_steps_ok:
  assumes "(drv_step tp)\<^sup>*\<^sup>* s s'" "drv_ok (tp_digits tp) s"
  shows "drv_ok (tp_digits tp) s' \<and> map thr_work (fst s') = map thr_work (fst s) \<and>
    map thr_n (fst s') = map thr_n (fst s) \<and> sh_static (shape (snd s')) = sh_static (shape (snd s))"
  using assms by (induction rule: rtranclp_induct) (use drv_step_ok in \<open>simp_all\<close>)

section \<open>Names are never repeated\<close>

lemma append_separator_inj:
  assumes "c \<notin> set a" "c \<notin> set a'" "a @ c # b = a' @ c # b'"
  shows "a = a' \<and> b = b'"
proof -
  have "takeWhile (\<lambda>x. x \<noteq> c) (a @ c # b) = a" "takeWhile (\<lambda>x. x \<noteq> c) (a' @ c # b') = a'"
    using assms(1,2) by (simp_all add: takeWhile_append)
  then show ?thesis using assms(3) by auto
qed

lemma dash_notin_hex: "CHR ''-'' \<notin> set (pad0 6 (sprintf_x vni))"
proof -
  have "CHR ''-'' \<noteq> digit_char i" if "i < 16" for i
    using that char_digit_digit_char [of i] char_digit_dot(3) by auto
  then show ?thesis
    using digits_bound [of 16 _ "unat vni"] by (fastforce simp: pad0_def sprintf_x_def format_uint_def)
qed

lemma att_name_inj: "att_name digs vni i = att_name digs vni' i' \<longleftrightarrow> vni = vni' \<and> i = i'"
proof
  assume "att_name digs vni i = att_name digs vni' i'"
  then have "pad0 6 (sprintf_x vni) = pad0 6 (sprintf_x vni')" "pad0 digs (sprintf_d i) = pad0 digs (sprintf_d i')"
    using append_separator_inj [OF dash_notin_hex [of vni] dash_notin_hex [of vni'],
        of "pad0 digs (sprintf_d i)" "pad0 digs (sprintf_d i')"] by (simp_all add: att_name_def)
  then show "vni = vni' \<and> i = i'"
    by (simp add: sprintf_x_def sprintf_d_def pad0_format_uint_inj flip: word_unat_eq_iff)
qed simp

text \<open>The state in which \<open>main\<close> starts the threads.\<close>

definition thread_start :: "driver \<Rightarrow> thread \<Rightarrow> bool" where
  "thread_start d th \<longleftrightarrow> pc th = AtTop \<and> iCreate th = 0 \<and> iDelete th = 0 \<and> createAllowed th \<and> thr_work th \<noteq> [] \<and>
     (\<forall>(vi, si)\<in>set (thr_work th). vi < length (virtNets d) \<and> si < vn_size (virtNets d ! vi))"

definition vn_start :: "VirtNet \<Rightarrow> bool" where
  "vn_start vn \<longleftrightarrow> map nextIndex (slots vn) = map (\<lambda>j. of_nat (j + 1)) [0..<vn_size vn]"

definition drv_start :: "drv_state \<Rightarrow> bool" where
  "drv_start s \<longleftrightarrow>
     (case s of (ths, d) \<Rightarrow>
        (\<forall>th\<in>set ths. thread_start d th) \<and> distinct (concat (map thr_work ths)) \<and>
        (\<forall>vn\<in>set (virtNets d). vn_start vn) \<and> distinct (map vn_ID (virtNets d)) \<and> api_calls (globals d) = [])"

lemma drv_start_ok:
  assumes "drv_start (ths, d)"
  shows "drv_ok digs (ths, d)"
proof -
  have "thread_ok digs (shape d) th" if th: "th \<in> set ths" for th
  proof -
    have st: "thread_start d th" "distinct (thr_work th)" using assms th by (auto simp: drv_start_def distinct_concat_iff)
    have "next_ok (shape d) (thr_work th) 0"
      unfolding next_ok_def
    proof (intro allI impI, clarify)
      fix p vi si assume p: "p < length (thr_work th)" "thr_work th ! p = (vi, si)"
      then have v: "vi < length (virtNets d)" "si < vn_size (virtNets d ! vi)"
        using st(1) nth_mem [OF p(1)] by (auto simp: thread_start_def)
      then have "map nextIndex (slots (virtNets d ! vi)) = map (\<lambda>j. of_nat (j + 1)) [0..<vn_size (virtNets d ! vi)]"
        using assms by (auto simp: drv_start_def vn_start_def)
      moreover have "thread_share 0 (length (thr_work th)) p = 0" using p by (simp add: thread_share_def)
      ultimately show "vi < length (shape d) \<and> si < length (sh_next (shape d) vi) \<and>
          sh_next (shape d) vi ! si =
            of_nat (si + 1 + sh_size (shape d) vi * thread_share 0 (length (thr_work th)) p)"
        using v by (simp add: shape_def vn_shape_def)
    qed
    then show ?thesis using st by (simp add: thread_ok_def thread_start_def counts_ok_def pc_ok_def)
  qed
  moreover have "names_of digs (shape d) th = []" if "th \<in> set ths" for th
    using assms that by (auto simp: drv_start_def thread_start_def names_of_def requests_def)
  ultimately show ?thesis using assms by (auto simp: drv_ok_def drv_start_def requested_def)
qed

text \<open>The place of a name in the runs of the threads.\<close>

definition place_name :: "nat \<Rightarrow> drv_shape \<Rightarrow> VirtNetAttachment list list \<Rightarrow> nat \<times> nat \<Rightarrow> string" where
  "place_name digs sh works = (\<lambda>(t, k). thread_name digs sh (works ! t) k)"

lemma map_by_index: "map f xs = map (\<lambda>t. f (xs ! t)) [0..<length xs]"
  by (rule nth_equalityI) simp_all

lemma all_names:
  "concat (map (names_of digs sh) ths) =
   map (place_name digs sh (map thr_work ths)) (vn_attachments (map requests ths))"
proof -
  have "concat (map (names_of digs sh) ths) =
      concat (map (\<lambda>t. names_of digs sh (ths ! t)) [0..<length ths])"
    by (rule arg_cong [OF map_by_index])
  also have "\<dots> = map (place_name digs sh (map thr_work ths)) (vn_attachments (map requests ths))"
    unfolding vn_attachments_def map_concat map_map
    by (intro arg_cong [where f = concat] map_cong) (auto simp: names_of_def place_name_def)
  finally show ?thesis .
qed

lemma size_digits_inj:
  assumes "(a::nat) < m" "b < m" "a + m * q = b + m * r"
  shows "a = b \<and> q = r"
proof -
  have "(a + m * q) div m = q" "(b + m * r) div m = r" using assms(1,2) by simp_all
  then show ?thesis using assms(3) by auto
qed

lemma of_nat32_inj: "(of_nat a :: uint32) = of_nat b \<Longrightarrow> a < 2 ^ 32 \<Longrightarrow> b < 2 ^ 32 \<Longrightarrow> a = b"
  by (simp add: word_unat_eq_iff unat_of_nat)

lemma slot_index_inj:
  assumes "(of_nat (si + 1 + m * q) :: uint32) = of_nat (sj + 1 + m * r)"
    and "si < m" "sj < m" "q < num" "r < num" "m * num < 2 ^ 32"
  shows "si = sj \<and> q = r"
proof -
  have bound: "s + 1 + m * x < 2 ^ 32" if "s < m" "x < num" for s x
  proof -
    have "s + 1 + m * x \<le> m * (x + 1)" using that by simp
    also have "\<dots> \<le> m * num" using that by (intro mult_le_mono) simp_all
    finally show ?thesis using assms(6) by linarith
  qed
  have "si + 1 + m * q = sj + 1 + m * r"
    by (rule of_nat32_inj [OF assms(1) bound [OF assms(2,4)] bound [OF assms(3,5)]])
  then have "si + m * q = sj + m * r" by simp
  then show ?thesis by (rule size_digits_inj [OF assms(2,3)])
qed

text \<open>
  What the places of names need: every slot of a thread is a slot of a network, no slot is in two
  threads, the IDs differ, and the indices stay below \<open>2 ^ 32\<close>.
\<close>

definition places_ok :: "nat \<Rightarrow> drv_shape \<Rightarrow> VirtNetAttachment list list \<Rightarrow> bool" where
  "places_ok num sh works \<longleftrightarrow> distinct (map fst sh) \<and> distinct (concat works) \<and> [] \<notin> set works \<and>
     (\<forall>work\<in>set works. \<forall>(vi, si)\<in>set work. vi < length sh \<and> si < sh_size sh vi) \<and>
     (\<forall>vi<length sh. sh_size sh vi * num < 2 ^ 32)"

lemma places_okD:
  assumes "places_ok num sh works" "work \<in> set works" "(vi, si) \<in> set work"
  shows "vi < length sh" "si < sh_size sh vi"
  using assms unfolding places_ok_def by blast+

lemma place_name_inj:
  assumes ok: "places_ok num sh works" and t: "t < length works" "u < length works" and k: "k < num" "l < num"
    and eq: "place_name digs sh works (t, k) = place_name digs sh works (u, l)"
  shows "(t, k) = (u, l)"
proof -
  let ?W = "works ! t" and ?V = "works ! u"
  have ne: "?W \<noteq> []" "?V \<noteq> []" using ok t by (metis nth_mem places_ok_def)+
  obtain vi si where i: "?W ! (k mod length ?W) = (vi, si)" by fastforce
  obtain vj sj where j: "?V ! (l mod length ?V) = (vj, sj)" by fastforce
  have p: "k mod length ?W < length ?W" "l mod length ?V < length ?V" using ne by simp_all
  then have iW: "(vi, si) \<in> set ?W" and jV: "(vj, sj) \<in> set ?V" using i j by (metis nth_mem)+
  have v: "vi < length sh" "si < sh_size sh vi" "vj < length sh" "sj < sh_size sh vj"
    using places_okD [OF ok nth_mem] t iW jV by blast+
  have nm: "sh_id sh vi = sh_id sh vj"
    "(of_nat (si + 1 + sh_size sh vi * (k div length ?W)) :: uint32) = of_nat (sj + 1 + sh_size sh vj * (l div length ?V))"
    using eq i j by (simp_all add: place_name_def thread_name_def att_name_inj del: of_nat_add of_nat_mult)
  have "distinct (map fst sh)" using ok by (simp add: places_ok_def)
  then have vij: "vi = vj" using nm(1) v(1,3) nth_eq_iff_index_eq [of "map fst sh" vi vj] by simp
  have "k div length ?W < num" "l div length ?V < num" using k div_le_dividend le_less_trans by blast+
  then have sij: "si = sj" "k div length ?W = l div length ?V"
    using slot_index_inj [of si "sh_size sh vi" "k div length ?W" sj "l div length ?V" num] nm(2) v ok vij
    unfolding places_ok_def by blast+
  have "t = u"
  proof (rule ccontr)
    assume "t \<noteq> u"
    then have "set ?W \<inter> set ?V = {}"
      using distinct_concat_disjoint [of id works t u] ok t by (simp add: places_ok_def)
    then show False using iW jV vij sij by blast
  qed
  moreover have "distinct ?W" using ok t by (simp add: places_ok_def distinct_concat_iff)
  then have "k mod length ?W = l mod length ?W"
    using i j p \<open>t = u\<close> vij sij by (metis nth_eq_iff_index_eq)
  ultimately show ?thesis using sij(2) by (metis div_mod_decomp)
qed

lemma names_distinct:
  assumes "places_ok num sh (map thr_work ths)" "\<forall>th\<in>set ths. requests th \<le> num"
  shows "distinct (concat (map (names_of digs sh) ths))"
proof -
  have "inj_on (place_name digs sh (map thr_work ths)) (set (vn_attachments (map requests ths)))"
  proof (rule inj_onI)
    fix x y assume x: "x \<in> set (vn_attachments (map requests ths))"
      and y: "y \<in> set (vn_attachments (map requests ths))"
      and eq: "place_name digs sh (map thr_work ths) x = place_name digs sh (map thr_work ths) y"
    obtain t k u l where xy: "x = (t, k)" "y = (u, l)" by (cases x, cases y)
    then have "t < length ths" "k < requests (ths ! t)" "u < length ths" "l < requests (ths ! u)"
      using x y vn_attachments_slots [of "map requests ths"] by auto
    moreover from this have "k < num" "l < num" using assms(2) nth_mem less_le_trans by blast+
    ultimately show "x = y" using place_name_inj [OF assms(1), of t u k l] eq xy by simp
  qed
  then show ?thesis unfolding all_names using vn_attachments_slots by (metis distinct_map)
qed

lemma thread_ok_requests: "thread_ok digs sh th \<Longrightarrow> requests th \<le> thr_n th"
  by (auto simp: thread_ok_def counts_ok_def pc_ok_def requests_def in_creation_def split: thread_pc.splits)

end
