(* ===== verification/Driver_Nets.thy ===== *)
theory Driver_Nets
  imports Driver_Blocks Driver_Names
begin

text \<open>
  The whole layout of the throughput driver: every subnet that it asks for is accepted, the
  networks have different VNIs and consecutive blocks of addresses, and the driver that starts
  fulfils the conditions under which names are not repeated.
\<close>

section \<open>VNIs and names\<close>

lemma net_vni_nat:
  assumes "lo_vni0 lo = first_vni r" "r < 32" "i < 65535"
  shows "unat (net_vni lo i) = first_vni r + i"
proof -
  have n: "first_vni r + i < 2 ^ 21" using assms by (simp add: first_vni_def)
  have "(0x1FFFFF :: uint32) = mask 21" by (simp add: mask_eq_exp_minus_1)
  then have "net_vni lo i = take_bit 21 (of_nat (first_vni r + i))"
    using assms(1) by (simp only: net_vni_def take_bit_eq_mask)
  then have "unat (net_vni lo i) = take_bit 21 (unat (of_nat (first_vni r + i) :: uint32))"
    by (simp only: unsigned_take_bit_eq)
  also have "unat (of_nat (first_vni r + i) :: uint32) = first_vni r + i"
    using n by (simp only: unat_of_nat) simp
  finally show ?thesis using n by (simp only: take_bit_nat_eq_self)
qed

lemma net_vni_range:
  assumes "lo_vni0 lo = first_vni r" "r < 32" "i < 65535"
  shows "minVNI \<le> net_vni lo i" "net_vni lo i \<le> maxVNI"
  using net_vni_nat [OF assms] assms(2,3)
  by (simp_all add: minVNI_def maxVNI_def word_le_nat_alt first_vni_def)

lemma net_vni_inj:
  assumes "lo_vni0 lo = first_vni r" "r < 32" "i < 65535" "j < 65535" "net_vni lo i = net_vni lo j"
  shows "i = j"
proof -
  have "first_vni r + i = first_vni r + j"
    using net_vni_nat [OF assms(1,2,3)] net_vni_nat [OF assms(1,2,4)] unfolding assms(5) by (rule trans [OF sym])
  then show ?thesis by (rule add_left_imp_eq)
qed

lemma net_name_inj:
  assumes "pad0 6 (sprintf_x v) @ s = pad0 6 (sprintf_x w) @ t" "s \<in> {''-a'', ''-b''}" "t \<in> {''-a'', ''-b''}"
  shows "(v::uint32) = w"
proof -
  have "length s = length t" using assms(2,3) by auto
  then have "pad0 6 (sprintf_x v) = pad0 6 (sprintf_x w)" using assms(1) by simp
  then show ?thesis by (simp add: sprintf_x_def pad0_format_uint_inj flip: word_unat_eq_iff)
qed

section \<open>One network\<close>

text \<open>The number of subnets of a network.\<close>

definition net_blocks :: "layout \<Rightarrow> (nat \<Rightarrow> rat) \<Rightarrow> nat \<Rightarrow> nat" where
  "net_blocks lo powf i = (if snd (net_parts lo (net_size lo powf i)) = 0 then 1 else 2)"

text \<open>The \<open>k\<close>-th block of a network, as the code that uses a subnet reads it.\<close>

definition block_of :: "VirtNet \<Rightarrow> nat \<Rightarrow> nat \<Rightarrow> Subnet \<Rightarrow> bool" where
  "block_of vn bits k s \<longleftrightarrow> (\<exists>ps. parseSubnet s = Inr ps \<and> unat (baseU ps) = unat (addr0I vn) + k * 2 ^ bits \<and>
     unat (lastU ps) = unat (addr0I vn) + k * 2 ^ bits + 2 ^ bits - 1)"

definition laid_out :: "layout \<Rightarrow> (nat \<Rightarrow> rat) \<Rightarrow> string \<Rightarrow> nat \<Rightarrow> VirtNet \<Rightarrow> bool" where
  "laid_out lo powf ns i vn \<longleftrightarrow>
     (let bits = net_bits lo powf i; blocks = net_blocks lo powf i in
      vn_ID vn = net_vni lo i \<and> vn_size vn = net_size lo powf i \<and>
      slots vn = map new_slot [0..<vn_size vn] \<and> theCD vn = Some (new_cd (vn_ID vn)) \<and>
      addrs vn = Map.empty \<and> nodeMap vn = Map.empty \<and>
      2 ^ bits dvd unat (addr0I vn) \<and> unat (addrFI vn) + 1 = unat (addr0I vn) + blocks * 2 ^ bits \<and>
      length (subnets vn) = blocks \<and>
      (\<forall>s\<in>set (subnets vn). spec_VNI s = vn_ID vn \<and> sn_Namespace s = ns \<and> (\<exists>k<blocks. block_of vn bits k s)))"

lemma unat_add_small: "unat (x::uint32) + unat y < 2 ^ 32 \<Longrightarrow> unat (x + y) = unat x + unat y"
  by (simp add: unat_word_ariths)

lemma block_sums:
  assumes "2 ^ bits dvd unat (addr::uint32)" "unat addr + 2 * 2 ^ bits < 2 ^ 32"
  shows "unat (addr + push_bit bits 1 - 1) = unat addr + 2 ^ bits - 1"
    "unat (addr + push_bit bits 1 - 1 + push_bit bits 1) = unat addr + 2 * 2 ^ bits - 1"
    "unat (addr + push_bit bits 1 - 1 + 1) = unat addr + 2 ^ bits"
    "unat (addr + push_bit bits 1 - 1 + push_bit bits 1 + 1) = unat addr + 2 * 2 ^ bits"
proof -
  have le: "unat addr + 2 * 2 ^ bits \<le> 2 ^ 32" using assms(2) by linarith
  note sb = second_block [OF assms(1) le]
  have pos: "0 < (2::nat) ^ bits" and u1: "unat (1::uint32) = 1" by simp_all
  let ?a2 = "addr + push_bit bits 1"
  have "0 < ?a2" using sb(2) pos by (simp add: word_gt_0 unat_gt_0 flip: unat_gt_0)
  then show one: "unat (?a2 - 1) = unat addr + 2 ^ bits - 1" using unat_minus_one32 sb(2) by simp
  note p = unat_block [OF sb(1)]
  show two: "unat (?a2 - 1 + push_bit bits 1) = unat addr + 2 * 2 ^ bits - 1"
    using one p pos assms(2) by (subst unat_add_small) linarith+
  show "unat (?a2 - 1 + 1) = unat addr + 2 ^ bits" using sb(2) by simp
  show "unat (?a2 - 1 + push_bit bits 1 + 1) = unat addr + 2 * 2 ^ bits"
    using two pos assms(2) u1 by (subst unat_add_small) linarith+
qed

text \<open>What the parameters of the layout have to fulfil.\<close>

definition layout_ok :: "layout \<Rightarrow> (nat \<Rightarrow> rat) \<Rightarrow> nat \<Rightarrow> bool" where
  "layout_ok lo powf r \<longleftrightarrow> lo_vni0 lo = first_vni r \<and> r < 32 \<and> lo_num_nets lo \<le> 65535 \<and> \<not> lo_just_count lo \<and>
     0 \<le> lo_subnetSizeFactor lo \<and> (\<forall>i. 0 < powf i) \<and> (\<forall>i j. i \<le> j \<longrightarrow> powf i \<le> powf j)"

lemma net_bits_antimono: "layout_ok lo powf r \<Longrightarrow> i \<le> j \<Longrightarrow> net_bits lo powf j \<le> net_bits lo powf i"
  unfolding net_bits_def layout_ok_def
  by (intro suffix_bits_mono net_parts_mono net_size_antimono) auto

text \<open>The first address that is not used after \<open>i\<close> networks; the room for the others.\<close>

definition room :: "layout \<Rightarrow> (nat \<Rightarrow> rat) \<Rightarrow> nat \<Rightarrow> uint32 \<Rightarrow> bool" where
  "room lo powf i addr \<longleftrightarrow> 2 ^ net_bits lo powf i dvd unat addr \<and>
     unat addr + (lo_num_nets lo - i) * (2 * 2 ^ net_bits lo powf 0) < 2 ^ 32"

lemma room_one:
  assumes "layout_ok lo powf r" "room lo powf i addr" "i < lo_num_nets lo"
  shows "2 ^ net_bits lo powf i dvd unat addr" "unat addr + 2 * 2 ^ net_bits lo powf i < 2 ^ 32"
proof -
  have "(2::nat) ^ net_bits lo powf i \<le> 2 ^ net_bits lo powf 0"
    using net_bits_antimono [OF assms(1), of 0 i] by (simp add: power_increasing)
  moreover have "2 * 2 ^ net_bits lo powf 0 \<le> (lo_num_nets lo - i) * (2 * 2 ^ net_bits lo powf 0)"
    using assms(3) by simp
  ultimately show "unat addr + 2 * 2 ^ net_bits lo powf i < 2 ^ 32"
    using assms(2) unfolding room_def by linarith
qed (use assms(2) in \<open>simp add: room_def\<close>)

lemma room_next:
  assumes "layout_ok lo powf r" "room lo powf i addr" "i < lo_num_nets lo"
    and "unat addr' = unat addr + blocks * 2 ^ net_bits lo powf i" "blocks \<le> 2"
  shows "room lo powf (Suc i) addr'"
proof -
  have b: "net_bits lo powf (Suc i) \<le> net_bits lo powf i" "net_bits lo powf i \<le> net_bits lo powf 0"
    using net_bits_antimono [OF assms(1)] by simp_all
  have "2 ^ net_bits lo powf i dvd unat addr'" using assms(2,4) by (simp add: room_def)
  then have "2 ^ net_bits lo powf (Suc i) dvd unat addr'" using b(1) power_le_dvd by blast
  moreover have "lo_num_nets lo - i = Suc (lo_num_nets lo - Suc i)" using assms(3) by simp
  then have "(lo_num_nets lo - i) * (2 * 2 ^ net_bits lo powf 0) =
      2 * 2 ^ net_bits lo powf 0 + (lo_num_nets lo - Suc i) * (2 * 2 ^ net_bits lo powf 0)" by simp
  moreover have "blocks * 2 ^ net_bits lo powf i \<le> 2 * 2 ^ net_bits lo powf 0"
    using b(2) assms(5) by (intro mult_le_mono) (simp_all add: power_increasing)
  ultimately show ?thesis using assms(2,4) unfolding room_def by linarith
qed

section \<open>The loop\<close>

definition nets_laid :: "layout \<Rightarrow> (nat \<Rightarrow> rat) \<Rightarrow> string \<Rightarrow> nat \<Rightarrow> uint32 \<Rightarrow> driver \<Rightarrow> bool" where
  "nets_laid lo powf ns i addr d \<longleftrightarrow> length (virtNets d) = i \<and>
     (\<forall>j<i. laid_out lo powf ns j (virtNets d ! j) \<and> idToVirtNet d (net_vni lo j) = Some j) \<and>
     sorted_wrt (\<lambda>v w. addrFI v < addr0I w) (virtNets d) \<and> (\<forall>v\<in>set (virtNets d). addrFI v < addr) \<and>
     (\<forall>name vi. subnetToVirtNet d name = Some vi \<longrightarrow> vi < i) \<and>
     globals d = new_globals \<and> initializedSubnets d = {}"

definition second_size :: "layout \<Rightarrow> (nat \<Rightarrow> rat) \<Rightarrow> nat \<Rightarrow> nat" where
  "second_size lo powf i = snd (net_parts lo (net_size lo powf i))"

definition last_address :: "layout \<Rightarrow> (nat \<Rightarrow> rat) \<Rightarrow> nat \<Rightarrow> uint32 \<Rightarrow> uint32" where
  "last_address lo powf i addr =
     (let bits = net_bits lo powf i; addrF1I = addr + push_bit bits 1 - 1
      in if 0 < second_size lo powf i then addrF1I + push_bit bits 1 else addrF1I)"

definition new_net :: "layout \<Rightarrow> (nat \<Rightarrow> rat) \<Rightarrow> nat \<Rightarrow> uint32 \<Rightarrow> Subnet list \<Rightarrow> VirtNet" where
  "new_net lo powf i addr nets =
     \<lparr>vn_ID = net_vni lo i, vn_size = net_size lo powf i, addr0I = addr, addrFI = last_address lo powf i addr,
      prefixLen = 32 - int (net_bits lo powf i), subnets = nets, theCD = Some (new_cd (net_vni lo i)),
      slots = map new_slot [0..<net_size lo powf i], createdCount = 0, addrs = Map.empty, nodeMap = Map.empty\<rparr>"

definition add_net :: "nat \<Rightarrow> VirtNet \<Rightarrow> driver \<Rightarrow> driver" where
  "add_net i vn d = d\<lparr>virtNets := virtNets d @ [vn], idToVirtNet := (idToVirtNet d)(vn_ID vn \<mapsto> i),
     subnetToVirtNet := fold (\<lambda>s m. m(meta_Name (sn_meta s) \<mapsto> i)) (subnets vn) (subnetToVirtNet d),
     num_subnets := num_subnets d + length (subnets vn)\<rparr>"

lemma make_net_adds:
  assumes "\<not> lo_just_count lo"
    and "create_subnets server ns (net_vni lo i) addr (net_bits lo powf i) (second_size lo powf i) st = (Inr nets, st')"
  shows "make_net lo powf server ns i addr d st =
    (Inr (last_address lo powf i addr + 1, add_net i (new_net lo powf i addr nets) d), st')"
  using assms
  by (cases "net_parts lo (net_size lo powf i)")
    (simp add: make_net_def Let_def net_bits_def second_size_def last_address_def new_net_def add_net_def)

text \<open>A network uses as many blocks as it has subnets.\<close>

lemma last_address_end:
  assumes "2 ^ net_bits lo powf i dvd unat addr" "unat addr + 2 * 2 ^ net_bits lo powf i < 2 ^ 32"
  shows "unat (last_address lo powf i addr) + 1 = unat addr + net_blocks lo powf i * 2 ^ net_bits lo powf i"
    "unat (last_address lo powf i addr + 1) = unat addr + net_blocks lo powf i * 2 ^ net_bits lo powf i"
proof -
  have "0 < (2::nat) ^ net_bits lo powf i" by simp
  then show "unat (last_address lo powf i addr) + 1 = unat addr + net_blocks lo powf i * 2 ^ net_bits lo powf i"
    "unat (last_address lo powf i addr + 1) = unat addr + net_blocks lo powf i * 2 ^ net_bits lo powf i"
    using block_sums [OF assms] by (simp_all add: last_address_def net_blocks_def second_size_def Let_def)
qed

lemma new_net_laid:
  assumes "2 ^ net_bits lo powf i dvd unat addr" "unat addr + 2 * 2 ^ net_bits lo powf i < 2 ^ 32"
    and "nets = net_subnets uid ns (net_vni lo i) addr (net_bits lo powf i) (second_size lo powf i) db"
  shows "laid_out lo powf ns i (new_net lo powf i addr nets)"
proof -
  have le: "unat addr + 2 * 2 ^ net_bits lo powf i \<le> 2 ^ 32" using assms(2) by linarith
  have "length nets = net_blocks lo powf i"
    using assms(3) by (simp add: net_subnets_def net_blocks_def second_size_def Let_def)
  moreover have "spec_VNI s = net_vni lo i \<and> sn_Namespace s = ns \<and>
      (\<exists>k<net_blocks lo powf i. block_of (new_net lo powf i addr nets) (net_bits lo powf i) k s)" if "s \<in> set nets" for s
    using net_subnets_ranges [OF assms(1) le that [unfolded assms(3)]]
    by (simp add: block_of_def new_net_def net_blocks_def second_size_def)
  ultimately show ?thesis
    using last_address_end(1) [OF assms(1,2)] assms(1) unfolding laid_out_def Let_def
    by (simp add: new_net_def)
qed

lemma fold_updates_range:
  "fold (\<lambda>s m. m(f s \<mapsto> i)) xs m name = Some v \<Longrightarrow> v = i \<or> m name = Some v"
proof (induction xs arbitrary: m)
  case (Cons x xs)
  then show ?case using Cons.IH [of "m(f x \<mapsto> i)"] by (auto split: if_splits)
qed simp

lemma add_net_laid:
  assumes lo: "layout_ok lo powf r" and i: "i < lo_num_nets lo" and laid: "nets_laid lo powf ns i addr d"
    and vn: "laid_out lo powf ns i vn" "addr0I vn = addr" "addrFI vn < addr'" "addr \<le> addrFI vn"
  shows "nets_laid lo powf ns (Suc i) addr' (add_net i vn d)"
proof -
  have v: "lo_vni0 lo = first_vni r" "r < 32" "lo_num_nets lo \<le> 65535" using lo by (auto simp: layout_ok_def)
  have id: "vn_ID vn = net_vni lo i" using vn(1) by (simp add: laid_out_def Let_def)
  have len: "length (virtNets d) = i" using laid by (simp add: nets_laid_def)
  have "idToVirtNet (add_net i vn d) (net_vni lo j) = Some j" if "j < Suc i" for j
    using that laid id net_vni_inj [OF v(1,2), of i j] i v(3)
    by (cases "j = i") (auto simp: add_net_def nets_laid_def less_Suc_eq)
  moreover have "laid_out lo powf ns j (virtNets (add_net i vn d) ! j)" if "j < Suc i" for j
    using that laid vn(1) len by (auto simp: add_net_def nets_laid_def nth_append less_Suc_eq)
  moreover have "sorted_wrt (\<lambda>v w. addrFI v < addr0I w) (virtNets (add_net i vn d))"
    using laid vn(2) by (auto simp: add_net_def nets_laid_def sorted_wrt_append)
  moreover have "\<forall>v\<in>set (virtNets (add_net i vn d)). addrFI v < addr'"
    using laid vn(3,4) by (auto simp: add_net_def nets_laid_def)
  moreover have "v < Suc i" if "subnetToVirtNet (add_net i vn d) name = Some v" for name v
    using that laid fold_updates_range [of "\<lambda>s. meta_Name (sn_meta s)" i "subnets vn" "subnetToVirtNet d" name v]
    by (auto simp: add_net_def nets_laid_def less_Suc_eq)
  ultimately show ?thesis using laid by (simp add: nets_laid_def add_net_def)
qed

lemma make_net_laid:
  assumes lo: "layout_ok lo powf r" and room: "room lo powf i addr" and i: "i < lo_num_nets lo"
    and fresh: "fresh_net ns (net_vni lo i) db" and laid: "nets_laid lo powf ns i addr d"
    and nets: "nets = net_subnets uid ns (net_vni lo i) addr (net_bits lo powf i) (second_size lo powf i) db"
  shows "\<exists>addr' d'. make_net lo powf (subnet_api seen uid) ns i addr d db = (Inr (addr', d'), rev nets @ db) \<and>
    nets_laid lo powf ns (Suc i) addr' d' \<and> room lo powf (Suc i) addr'"
proof -
  let ?last = "last_address lo powf i addr" and ?vn = "new_net lo powf i addr nets"
  note al = room_one [OF lo room i]
  then have le: "unat addr + 2 * 2 ^ net_bits lo powf i \<le> 2 ^ 32" by linarith
  have v: "lo_vni0 lo = first_vni r" "r < 32" "i < 65535" "\<not> lo_just_count lo"
    using lo i by (auto simp: layout_ok_def)
  note cr = create_subnets_accepted [OF net_vni_range [OF v(1-3)] al(1) le fresh, of seen uid "second_size lo powf i", folded nets]
  note ends = last_address_end [OF al]
  have bl: "0 < net_blocks lo powf i" "net_blocks lo powf i \<le> 2" by (simp_all add: net_blocks_def)
  then have "0 < net_blocks lo powf i * 2 ^ net_bits lo powf i" by simp
  then have ord: "?last < ?last + 1" "addr \<le> ?last" using ends unfolding word_to_nat by linarith+
  have "nets_laid lo powf ns (Suc i) (?last + 1) (add_net i ?vn d)"
    using add_net_laid [OF lo i laid new_net_laid [OF al nets]] ord by (simp add: new_net_def)
  moreover have "room lo powf (Suc i) (?last + 1)" by (rule room_next [OF lo room i ends(2) bl(2)])
  ultimately show ?thesis using make_net_adds [OF v(4) cr, of d] by blast
qed

lemma fresh_net_kept:
  assumes "fresh_net ns vni db" "vni \<noteq> w"
    and "\<forall>s\<in>set nets. spec_VNI s = w \<and> (\<exists>suffix\<in>{''-a'', ''-b''}. sn_Name s = pad0 6 (sprintf_x w) @ suffix)"
  shows "fresh_net ns vni (rev nets @ db)"
  unfolding fresh_net_def
proof (intro ballI conjI impI)
  fix s suffix assume s: "s \<in> set (rev nets @ db)"
  then show "spec_VNI s \<noteq> vni" using assms by (auto simp: fresh_net_def)
  assume "sn_Namespace s = ns" "suffix \<in> {''-a'', ''-b''}"
  then show "sn_Name s \<noteq> pad0 6 (sprintf_x vni) @ suffix"
    using s assms net_name_inj unfolding fresh_net_def by (metis Un_iff set_append set_rev)
qed

lemma make_nets_laid:
  assumes lo: "layout_ok lo powf r" and "i + n = lo_num_nets lo" "room lo powf i addr" "nets_laid lo powf ns i addr d"
    and "\<forall>j. i \<le> j \<and> j < lo_num_nets lo \<longrightarrow> fresh_net ns (net_vni lo j) db"
  shows "\<exists>addr' d' db'. make_nets lo powf (subnet_api seen uid) ns [i..<lo_num_nets lo] addr d db = (Inr (addr', d'), db') \<and>
    nets_laid lo powf ns (lo_num_nets lo) addr' d' \<and> (\<exists>new. db' = new @ db \<and> (\<forall>s\<in>set new. sn_Namespace s = ns))"
  using assms(2-5)
proof (induction n arbitrary: i addr d db)
  case (Suc n)
  let ?N = "lo_num_nets lo"
  have i: "i < ?N" using Suc.prems(1) by simp
  have v: "lo_vni0 lo = first_vni r" "r < 32" "?N \<le> 65535" using lo by (auto simp: layout_ok_def)
  define nets where "nets = net_subnets uid ns (net_vni lo i) addr (net_bits lo powf i) (second_size lo powf i) db"
  have fr: "fresh_net ns (net_vni lo i) db" using Suc.prems(4) i by simp
  obtain addr1 d1 where mk: "make_net lo powf (subnet_api seen uid) ns i addr d db = (Inr (addr1, d1), rev nets @ db)"
    and laid: "nets_laid lo powf ns (Suc i) addr1 d1" "room lo powf (Suc i) addr1"
    using make_net_laid [OF lo Suc.prems(2) i fr Suc.prems(3) nets_def] by blast
  note al = room_one [OF lo Suc.prems(2) i]
  then have le: "unat addr + 2 * 2 ^ net_bits lo powf i \<le> 2 ^ 32" by linarith
  have parts: "\<forall>s\<in>set nets. spec_VNI s = net_vni lo i \<and> sn_Namespace s = ns \<and>
      (\<exists>suffix\<in>{''-a'', ''-b''}. sn_Name s = pad0 6 (sprintf_x (net_vni lo i)) @ suffix)"
    using net_subnets_ranges(1-3) [OF al(1) le] unfolding nets_def by blast
  have "fresh_net ns (net_vni lo j) (rev nets @ db)" if "Suc i \<le> j \<and> j < ?N" for j
    using that Suc.prems(4) parts net_vni_inj [OF v(1,2), of j i] v(3)
    by (intro fresh_net_kept [of _ _ _ "net_vni lo i"]) auto
  then obtain addr' d' db' new where
    "make_nets lo powf (subnet_api seen uid) ns [Suc i..<?N] addr1 d1 (rev nets @ db) = (Inr (addr', d'), db')"
    and res: "nets_laid lo powf ns ?N addr' d'" "db' = new @ rev nets @ db" "\<forall>s\<in>set new. sn_Namespace s = ns"
    using Suc.IH [OF _ laid(2,1), of "rev nets @ db"] Suc.prems(1) by auto
  then have "make_nets lo powf (subnet_api seen uid) ns [i..<?N] addr d db = (Inr (addr', d'), db')"
    using mk i by (simp add: upt_conv_Cons)
  moreover have "db' = (new @ rev nets) @ db" "\<forall>s\<in>set (new @ rev nets). sn_Namespace s = ns"
    using res(2,3) parts by auto
  ultimately show ?case using res(1) by blast
qed (auto intro!: exI [of _ "[]"])

end
