(* ===== verification/Driver_Safe.thy ===== *)
theory Driver_Safe
  imports Driver_Nets
begin

text \<open>
  The threads of the driver do not panic and can always finish: the invariant of the networks and
  their slots that rules out nil pointers and indices out of range, and the rank of a thread that
  every piece of its work lowers.
\<close>

section \<open>Well-formed networks\<close>

definition cd_ok :: "nat \<Rightarrow> ConnectivityDomain option \<Rightarrow> bool" where
  "cd_ok n cdo \<longleftrightarrow> (case cdo of None \<Rightarrow> False | Some cd \<Rightarrow> -1 \<le> latestIndex cd \<and> latestIndex cd < int n)"

definition slot_ok :: "Slot \<Rightarrow> bool" where
  "slot_ok slot \<longleftrightarrow> (preCreateTime slot \<noteq> 0 \<longrightarrow> slot_natt slot \<noteq> None)"

definition vn_wf :: "VirtNet \<Rightarrow> bool" where
  "vn_wf vn \<longleftrightarrow> subnets vn \<noteq> [] \<and> cd_ok (length (slots vn)) (theCD vn) \<and> (\<forall>slot\<in>set (slots vn). slot_ok slot)"

definition driver_wf :: "driver \<Rightarrow> bool" where
  "driver_wf d \<longleftrightarrow>
     (\<forall>vn\<in>set (virtNets d). vn_wf vn \<and> (\<exists>vj<length (virtNets d). idToVirtNet d (vn_ID vn) = Some vj)) \<and>
     (\<forall>name vi. subnetToVirtNet d name = Some vi \<longrightarrow> vi < length (virtNets d))"

lemma cd_ok_notes [simp]:
  "i < n \<Longrightarrow> cd_ok n cdo \<Longrightarrow> cd_ok n (NoteTested i cdo)"
  "cd_ok n cdo \<Longrightarrow> cd_ok n (NotePending i cdo)"
  "cd_ok n cdo \<Longrightarrow> cd_ok n (NoteNoTest i cdo)"
  by (auto simp: cd_ok_def NoteTested_def NotePending_def NoteNoTest_def Let_def split: option.splits)

lemma vn_wf_updates [simp]:
  "vn_wf (addrs_update f1 vn) = vn_wf vn" "vn_wf (nodeMap_update f2 vn) = vn_wf vn"
  "vn_wf (createdCount_update f3 vn) = vn_wf vn"
  by (simp_all add: vn_wf_def)

lemma vn_wf_cd: "vn_wf vn \<Longrightarrow> cd_ok (length (slots vn)) cdo \<Longrightarrow> vn_wf (vn\<lparr>theCD := cdo\<rparr>)"
  by (simp add: vn_wf_def)

lemma vn_wf_slot:
  assumes "vn_wf vn" "slot_ok slot" "cd_ok (length (slots vn)) cdo"
  shows "vn_wf (vn\<lparr>slots := (slots vn)[si := slot], theCD := cdo\<rparr>)" "vn_wf (vn\<lparr>slots := (slots vn)[si := slot]\<rparr>)"
  using assms by (auto simp: vn_wf_def dest!: set_update_subset_insert [THEN subsetD])

lemma driver_wf_globals [simp]:
  "driver_wf (globals_update f1 d) = driver_wf d" "driver_wf (initializedSubnets_update f2 d) = driver_wf d"
  by (simp_all add: driver_wf_def)

lemma driver_wf_set_vn:
  assumes "driver_wf d" "vi < length (virtNets d) \<Longrightarrow> vn_wf vn" "vi < length (virtNets d) \<Longrightarrow> vn_ID vn = vn_ID (virtNets d ! vi)"
  shows "driver_wf (set_vn vi vn d)"
proof (cases "vi < length (virtNets d)")
  case True
  then show ?thesis using assms
    by (auto simp: driver_wf_def set_vn_def dest!: set_update_subset_insert [THEN subsetD])
qed (use assms(1) in \<open>simp add: set_vn_def list_update_beyond driver_wf_def\<close>)

lemma driver_wf_nth: "driver_wf d \<Longrightarrow> vi < length (virtNets d) \<Longrightarrow> vn_wf (virtNets d ! vi)"
  by (simp add: driver_wf_def)

lemma vn_shape_ID: "vn_shape vn = vn_shape vn' \<Longrightarrow> vn_ID vn = vn_ID vn'"
  by (simp add: vn_shape_def)

section \<open>Handlers and closing keep it\<close>

lemma observeState_wf:
  assumes "observeState fl now si natt vn g = Inr (vn', g')" "vn_wf vn"
  shows "vn_wf vn'"
  using assms(1)
proof (cases rule: observeState_cases)
  case (taken slot vn1 g1 slot2 cd2)
  have vn1: "vn_wf vn1" "slots vn1 = slots vn"
    using observe_address_frame(1) [OF taken(4)] assms(2) by auto
  then have "cd_ok (length (slots vn1)) cd2"
    using observe_progress_frame [OF taken(5)] taken(1) by (auto simp: vn_wf_def)
  then show ?thesis
    using vn_wf_slot(1) [OF vn1(1), of "slot2\<lparr>slot_natt := Some natt\<rparr>" cd2 si] taken(6)
    by (simp add: slot_ok_def vn_wf_def)
qed (use assms in simp)

lemma attachment_OnAdd_wf:
  assumes "attachment_OnAdd fl now natt d = Inr d'" "driver_wf d"
  shows "driver_wf d'"
proof -
  have "d' = d \<or> (\<exists>vi si vn g. observeState fl now si natt (virtNets d ! vi) (globals d) = Inr (vn, g) \<and>
      d' = set_vn vi vn (d\<lparr>globals := g\<rparr>))"
    using assms(1) by (auto simp: attachment_OnAdd_def split: option.splits if_splits sum.splits)
  then show ?thesis
    using assms(2) observeState_wf vn_shape_ID [OF observeState_frame(1)] driver_wf_nth
    by (auto intro!: driver_wf_set_vn)
qed

lemma reset_slot_wf: "driver_wf d \<Longrightarrow> driver_wf (reset_slot vi si d)"
  unfolding reset_slot_def
  by (rule driver_wf_set_vn)
    (auto simp: upd_slot_def slot_ok_def vn_wf_def dest!: driver_wf_nth set_update_subset_insert [THEN subsetD])

lemma close_wf:
  assumes "driver_wf d" "vi < length (virtNets d)" "si < length (slots (virtNets d ! vi))"
  shows "\<exists>natt d'. close fl vi si d = Inr (natt, d') \<and> driver_wf d'"
proof -
  let ?vn = "virtNets d ! vi" and ?slot = "slots (virtNets d ! vi) ! si"
  have slot: "slot_ok ?slot" using driver_wf_nth [OF assms(1,2)] assms(3) by (simp add: vn_wf_def)
  obtain vj where vj: "vj < length (virtNets d)" "idToVirtNet d (vn_ID ?vn) = Some vj"
    using assms(1) nth_mem [OF assms(2)] unfolding driver_wf_def by blast
  have moved: "driver_wf (set_vn vj vn' (d\<lparr>globals := g'\<rparr>))"
    if "ipAddressChanged node ol ne name (virtNets d ! vj) g = (vn', g')" for node ol ne name g vn' g'
    using ipAddressChanged_frame(1) [OF that] assms(1) vj(1) driver_wf_nth [OF assms(1) vj(1)]
    by (auto intro!: driver_wf_set_vn)
  show ?thesis
  proof (cases "preCreateTime ?slot = 0")
    case True
    then show ?thesis using reset_slot_wf [OF assms(1)] by (simp add: close_def Let_def)
  next
    case False
    then obtain a where a: "slot_natt ?slot = Some a" using slot by (auto simp: slot_ok_def)
    then show ?thesis using False assms(1) vj(2) moved
      by (auto simp: close_def Let_def intro!: reset_slot_wf split: prod.splits)
  qed
qed

section \<open>Pieces of threads\<close>

lemma setCurrentName_ok:
  assumes "setCurrentName si name node slot cd = (slot', cd')" "cd_ok n cd"
  shows "slot_ok slot' \<and> cd_ok n cd'"
  using assms by (auto simp: setCurrentName_def slot_ok_def)

lemma create_call_wf:
  assumes "driver_wf d" "cp_vn plan < length (virtNets d)"
  shows "\<exists>th' d'. create_call tp plan now ts th d = Inr (th', d') \<and> driver_wf d'"
proof -
  let ?vn = "virtNets d ! cp_vn plan"
  have wf: "vn_wf ?vn" using driver_wf_nth [OF assms] .
  then obtain cd where cd: "theCD ?vn = Some cd" "-1 \<le> latestIndex cd" "latestIndex cd < int (length (slots ?vn))"
    by (auto simp: vn_wf_def cd_ok_def split: option.splits)
  then have "\<exists>peer. ready_peer ?vn cd = Inr peer"
    by (auto simp: ready_peer_def go_nth_def nat_less_iff)
  then obtain peer where peer: "ready_peer ?vn cd = Inr peer" by blast
  obtain slot' cd' where n: "setCurrentName (cp_slot plan) (cp_name plan) (cp_node plan)
      (slots ?vn ! cp_slot plan) (theCD ?vn) = (slot', cd')" by fastforce
  then have ok: "slot_ok slot'" "cd_ok (length (slots ?vn)) cd'"
    using setCurrentName_ok wf by (auto simp: vn_wf_def)
  have "driver_wf (set_vn (cp_vn plan) (?vn\<lparr>slots := (slots ?vn)[cp_slot plan := slot'], theCD := cd'\<rparr>) (d\<lparr>globals := g\<rparr>))" for g
    using assms vn_wf_slot(1) [OF wf ok] by (intro driver_wf_set_vn) simp_all
  then show ?thesis using cd(1) peer n by (simp add: create_call_def Let_def)
qed

text \<open>There is a node to choose.\<close>

definition nodes_ok :: "thread_params \<Rightarrow> bool" where
  "nodes_ok tp \<longleftrightarrow> fl_onlyNode (tp_flags tp) \<noteq> [] \<or> tp_nodes tp \<noteq> []"

lemma choose_node_ok: "nodes_ok tp \<Longrightarrow> \<forall>m>0. intn m < m \<Longrightarrow> \<exists>node. choose_node tp th intn = Inr node"
  by (auto simp: nodes_ok_def choose_node_def go_nth_def Let_def)

lemma choose_subnet_ok: "vn_wf vn \<Longrightarrow> \<exists>c s. choose_subnet vn = Inr (vn\<lparr>createdCount := c\<rparr>, s)"
proof (cases "1 < length (subnets vn)")
  case False
  assume "vn_wf vn"
  then have "choose_subnet vn = Inr (vn\<lparr>createdCount := createdCount vn\<rparr>, subnets vn ! 0)"
    using False by (simp add: vn_wf_def choose_subnet_def go_nth_def)
  then show ?thesis by blast
qed (auto simp: choose_subnet_def Let_def)

lemma cd_ok_ready [simp]:
  "cd_ok n (Some (ready_enter now cd)) = cd_ok n (Some cd)"
  "ready_leave now cd g = (cd', g') \<Longrightarrow> cd_ok n (Some cd') = cd_ok n (Some cd)"
  by (auto simp: cd_ok_def ready_enter_def ready_leave_def Let_def)

lemma thread_slot:
  assumes "thread_ok digs (shape d) th" "(vi, si) = work_at th k" "thr_work th \<noteq> []"
  shows "vi < length (virtNets d)" "si < length (slots (virtNets d ! vi))"
  using work_in_shape [OF assms] by (auto simp: shape_nth vn_shape_def) (simp_all add: shape_def vn_shape_def)

lemma create_begin_wf:
  assumes wf: "driver_wf d" and ok: "thread_ok digs (shape d) th" "thr_work th \<noteq> []"
    and env: "nodes_ok tp" "\<forall>m>0. intn m < m"
  shows "\<exists>th' d'. create_begin tp intn now ts th d = Inr (th', d') \<and> driver_wf d'"
proof -
  obtain vi si where w: "(vi, si) = work_at th (iCreate th)" by (metis surj_pair)
  then have nth: "go_nth (thr_work th) (iCreate th mod length (thr_work th)) = Inr (vi, si)"
    using ok(2) by (simp add: go_nth_def work_at_def)
  have vi: "vi < length (virtNets d)" using thread_slot [OF ok(1) w ok(2)] by simp
  then have vwf: "vn_wf (virtNets d ! vi)" using driver_wf_nth [OF wf] by simp
  then obtain c s where cs: "choose_subnet (virtNets d ! vi) = Inr ((virtNets d ! vi)\<lparr>createdCount := c\<rparr>, s)"
    using choose_subnet_ok by blast
  obtain node where node: "choose_node tp th intn = Inr node" using choose_node_ok [OF env] by blast
  obtain cd where cd: "theCD (virtNets d ! vi) = Some cd" "cd_ok (length (slots (virtNets d ! vi))) (Some cd)"
    using vwf by (auto simp: vn_wf_def cd_ok_def split: option.splits)
  define d1 where "d1 = set_vn vi ((virtNets d ! vi)\<lparr>createdCount := c\<rparr>) d"
  have d1: "driver_wf d1" using wf vwf vi unfolding d1_def by (intro driver_wf_set_vn) simp_all
  have len: "length (virtNets d1) = length (virtNets d)" by (simp add: d1_def set_vn_def)
  have call: "\<exists>th' d'. create_call tp plan now ts th d1 = Inr (th', d') \<and> driver_wf d'" if "cp_vn plan = vi" for plan
    using create_call_wf [OF d1] that len vi by simp
  have "driver_wf (set_vn vi ((virtNets d ! vi)\<lparr>createdCount := c, theCD := Some (ready_enter now cd)\<rparr>) d1)"
    using d1 vwf vi cd(2) by (intro driver_wf_set_vn vn_wf_cd) (simp_all add: d1_def set_vn_def)
  then show ?thesis using nth cs node cd(1) call by (auto simp: create_begin_def Let_def simp flip: d1_def)
qed

lemma create_resume_wf:
  assumes wf: "driver_wf d" and vi: "cp_vn plan < length (virtNets d)"
  shows "\<exists>th' d'. create_resume tp now ts plan tLimit th d = Inr (th', d') \<and> driver_wf d'"
proof -
  let ?vn = "virtNets d ! cp_vn plan"
  obtain cd where cd: "theCD ?vn = Some cd" "cd_ok (length (slots ?vn)) (Some cd)"
    using driver_wf_nth [OF assms] by (auto simp: vn_wf_def cd_ok_def split: option.splits)
  obtain cd1 g1 where l: "ready_leave now cd (globals d) = (cd1, g1)" by fastforce
  let ?d1 = "set_vn (cp_vn plan) (?vn\<lparr>theCD := Some cd1\<rparr>) (d\<lparr>globals := g1\<rparr>)"
  have "driver_wf ?d1"
    using wf driver_wf_nth [OF assms] cd(2) l by (intro driver_wf_set_vn vn_wf_cd) simp_all
  then show ?thesis using create_call_wf [of ?d1 plan tp now ts th] vi wf cd(1) l
    by (auto simp: create_resume_def Let_def set_vn_def)
qed

lemma create_end_wf:
  assumes "create_end tp plan ti0 full tif reply th d = (th', d')" "driver_wf d" "cp_vn plan < length (virtNets d)"
  shows "driver_wf d'"
proof -
  let ?vn = "virtNets d ! cp_vn plan"
  have wf: "vn_wf ?vn" using driver_wf_nth assms(2,3) .
  obtain slot cd where n: "setCurrentName (cp_slot plan) [] [] (slots ?vn ! cp_slot plan) (theCD ?vn) = (slot, cd)" by fastforce
  have "\<exists>vn1 g1. d' = set_vn (cp_vn plan) vn1 (d\<lparr>globals := g1\<rparr>) \<and>
      (vn1 = ?vn\<lparr>slots := (slots ?vn)[cp_slot plan := slot], theCD := cd\<rparr> \<or>
       (\<exists>a. vn1 = upd_slot (cp_slot plan) (setNetAtt ti0 tif a full) ?vn))"
    using assms(1) n by (auto simp: create_end_def Let_def split: sum.splits)
  moreover have "slot_ok slot" "cd_ok (length (slots ?vn)) cd" "cd_ok (length (slots ?vn)) (theCD ?vn)"
    using setCurrentName_ok [OF n, of "length (slots ?vn)"] wf by (auto simp: vn_wf_def)
  ultimately show ?thesis
    using assms(2) vn_wf_slot [OF wf]
    by (auto simp: upd_slot_def slot_ok_def setNetAtt_def intro!: driver_wf_set_vn)
qed

lemma delete_end_wf:
  assumes "delete_end tp attempts vi si natt th d = Some (th', d')" "driver_wf d"
  shows "driver_wf d'"
proof -
  let ?vn = "virtNets d ! vi"
  let ?slot = "(slots ?vn ! si)\<lparr>nextIndex := nextIndex (slots ?vn ! si) + of_nat (vn_size ?vn)\<rparr>"
  have "d' = (set_vn vi (?vn\<lparr>slots := (slots ?vn)[si := ?slot]\<rparr>) d)\<lparr>globals := globals d'\<rparr>"
    using assms(1) by (auto simp: delete_end_def Let_def upd_slot_def set_vn_def split: option.splits)
  moreover have "vn_wf (?vn\<lparr>slots := (slots ?vn)[si := ?slot]\<rparr>)" if "vi < length (virtNets d)"
  proof (cases "si < length (slots ?vn)")
    case True
    then show ?thesis using driver_wf_nth [OF assms(2) that]
      by (intro vn_wf_slot(2)) (auto simp: vn_wf_def slot_ok_def)
  qed (use driver_wf_nth [OF assms(2) that] in \<open>simp add: list_update_beyond\<close>)
  then have "driver_wf (set_vn vi (?vn\<lparr>slots := (slots ?vn)[si := ?slot]\<rparr>) d)"
    using assms(2) by (intro driver_wf_set_vn) simp_all
  ultimately show ?thesis by (metis driver_wf_globals(1))
qed

lemma loop_top_wf:
  assumes wf: "driver_wf d" and ok: "thread_ok digs (shape d) th" "thr_work th \<noteq> []" "pc th = AtTop"
    and env: "nodes_ok tp" "\<forall>m>0. intn m < m"
  shows "\<exists>th' d'. loop_top tp stopped intn now ts th d = Inr (th', d') \<and> driver_wf d'"
proof -
  let ?th1 = "th\<lparr>createAllowed := createAllowed th \<and> \<not> stopped\<rparr>"
  have "thread_ok digs (shape d) ?th1"
    using ok(1,3) by (auto simp: thread_ok_def counts_ok_def pc_ok_def)
  then have create: "\<exists>th' d'. create_begin tp intn now ts ?th1 d = Inr (th', d') \<and> driver_wf d'"
    using create_begin_wf [OF wf _ _ env] ok(2) by simp
  obtain vi si where w: "work_at th (iDelete th) = (vi, si)" by fastforce
  obtain natt d1 where cl: "close (tp_flags tp) vi si d = Inr (natt, d1)" "driver_wf d1"
    using close_wf [OF wf thread_slot [OF ok(1) w [symmetric] ok(2)]] by blast
  then have "delete_begin tp ?th1 d = Inr (?th1\<lparr>pc := Deleting vi si natt\<rparr>, d1)"
    using w ok(2) by (simp add: delete_begin_def go_nth_def work_at_def)
  then show ?thesis using create wf cl(2)
    by (cases "createAllowed th \<and> \<not> stopped") (auto simp: loop_top_def Let_def)
qed

section \<open>All steps\<close>

definition drv_safe :: "thread_params \<Rightarrow> drv_state \<Rightarrow> bool" where
  "drv_safe tp s \<longleftrightarrow> drv_ok (tp_digits tp) s \<and> driver_wf (snd s) \<and> (\<forall>th\<in>set (fst s). thr_work th \<noteq> [])"

lemma drv_safe_thread:
  assumes "drv_safe tp (ths, d)" "t < length ths"
  shows "thread_ok (tp_digits tp) (shape d) (ths ! t)" "thr_work (ths ! t) \<noteq> []" "driver_wf d"
  using assms by (auto simp: drv_safe_def drv_ok_def)

lemma plan_slot:
  assumes "drv_safe tp (ths, d)" "t < length ths" "pc (ths ! t) = WaitingPeer plan tLimit \<or> pc (ths ! t) = Creating plan ti full"
  shows "cp_vn plan < length (virtNets d)"
proof -
  have "(cp_vn plan, cp_slot plan) = work_at (ths ! t) (iCreate (ths ! t))"
    using drv_safe_thread(1) [OF assms(1,2)] assms(3) by (auto simp: thread_ok_def pc_ok_def in_creation_def)
  then show ?thesis using thread_slot(1) drv_safe_thread [OF assms(1,2)] by blast
qed

lemma drv_step_safe:
  assumes "drv_step tp s s'" "drv_safe tp s" "nodes_ok tp"
  shows "drv_safe tp s'"
proof -
  have "driver_wf (snd s')" using assms(1)
  proof (cases rule: drv_step.cases)
    case (Top t ths intn stopped now ts d th' d')
    then show ?thesis
      using loop_top_wf [OF _ _ _ _ assms(3), of d "tp_digits tp" "ths ! t" intn stopped now ts]
        drv_safe_thread [of tp ths d t] assms(2) by auto
  next
    case (Resume t ths plan tLimit now ts d th' d')
    then show ?thesis
      using create_resume_wf [of d plan tp now ts tLimit "ths ! t"] drv_safe_thread(3) [of tp ths d t]
        plan_slot [of tp ths d t] assms(2) by auto
  next
    case (Created t ths plan ti0 full tif reply d th' d')
    then show ?thesis
      using create_end_wf [of tp plan ti0 full tif reply "ths ! t" d th' d'] drv_safe_thread(3) [of tp ths d t]
        plan_slot [of tp ths d t] assms(2) by auto
  next
    case (Deleted t ths vi si natt attempts d th' d')
    then show ?thesis using delete_end_wf drv_safe_thread(3) [of tp ths d t] assms(2) by auto
  qed (use assms(2) attachment_OnAdd_wf in
       \<open>auto simp: drv_safe_def subnet_OnAdd_def split: option.splits\<close>)
  moreover have "drv_ok (tp_digits tp) s'" "map thr_work (fst s') = map thr_work (fst s)"
    using drv_step_ok [OF assms(1)] assms(2) by (simp_all add: drv_safe_def)
  ultimately show ?thesis using assms(2) unfolding drv_safe_def by (metis (mono_tags, lifting) image_eqI imageE list.set_map)
qed

lemma drv_steps_safe:
  assumes "(drv_step tp)\<^sup>*\<^sup>* s s'" "drv_safe tp s" "nodes_ok tp"
  shows "drv_safe tp s'"
  using assms by (induction rule: rtranclp_induct) (auto intro: drv_step_safe)

section \<open>Threads finish\<close>

text \<open>How much work a thread has left.\<close>

definition rank :: "thread \<Rightarrow> nat" where
  "rank th = 4 * (thr_n th - iCreate th) + 4 * (thr_n th - iDelete th) +
     (case pc th of AtTop \<Rightarrow> 3 | WaitingPeer _ _ \<Rightarrow> 2 | Creating _ _ _ \<Rightarrow> 1 | Deleting _ _ _ \<Rightarrow> 1 | Returned \<Rightarrow> 0)"

definition total_rank :: "thread list \<Rightarrow> nat" where
  "total_rank ths = sum_list (map rank ths)"

lemma thread_step_rank:
  assumes "thread_step digs (th, sh, req) (th', sh', req')" "thread_ok digs sh th"
  shows "th' = th \<or> rank th' < rank th"
  using assms(1) by (cases rule: thread_step.cases)
    (use assms(2) in \<open>auto simp: rank_def thread_ok_def pc_ok_def in_creation_def\<close>)

lemma total_rank_update:
  assumes "t < length ths" "rank th' < rank (ths ! t)"
  shows "total_rank (ths[t := th']) < total_rank ths"
  using assms
proof (induction ths arbitrary: t)
  case (Cons th ths)
  then show ?case by (cases t) (auto simp: total_rank_def)
qed simp

lemma drv_step_rank:
  assumes "drv_step tp s s'" "drv_safe tp s"
  shows "fst s' = fst s \<or> total_rank (fst s') < total_rank (fst s)"
proof -
  obtain ths d ths' d' where s: "s = (ths, d)" "s' = (ths', d')" by (cases s, cases s')
  have ok: "drv_ok (tp_digits tp) (ths, d)" using assms(2) s by (simp add: drv_safe_def)
  have "ths' = ths \<or> (\<exists>t<length ths. \<exists>th'. ths' = ths[t := th'] \<and> (th' = ths ! t \<or> rank th' < rank (ths ! t)))"
    using drv_step_simulated [OF assms(1) [unfolded s] ok] thread_step_rank drv_safe_thread(1) assms(2) s by metis
  then show ?thesis using s total_rank_update by (metis fst_conv list_update_id)
qed

end
