(* ===== verification/Driver_Start.thy ===== *)
theory Driver_Start
  imports Driver_Safe
begin

text \<open>
  The state in which \<open>main\<close> of the throughput driver starts its threads, and what holds of it: the
  slots are dealt out completely and without overlap, and the conditions of the invariants of
  names and of safety are met.
\<close>

section \<open>Dealing out the slots\<close>

lemma those_results_Inr: "those_results (map (\<lambda>i. Inr (f i)) is) = Inr (map f is)"
  by (induction "is") auto

lemma length_vn_attachments: "length (vn_attachments sizes) = sum_list sizes"
  by (simp add: vn_attachments_def length_concat comp_def) (simp add: map_nth)

definition thread_count :: "driver_flags \<Rightarrow> driver \<Rightarrow> nat" where
  "thread_count fl d = min (sum_list (map vn_size (virtNets d))) (fl_threads fl)"

lemma start_threads_works:
  assumes "\<forall>m>0. intn1 m < m" "\<forall>m>0. intn2 m < m"
  obtains order where "mset order = mset (vn_attachments (map vn_size (virtNets d)))"
    and "start_threads fl intn1 intn2 d =
      Inr (map (\<lambda>i. new_thread (i + 1) (work_of (thread_count fl d) i order)
                    (thread_share (fl_num_attachments fl) (thread_count fl d) i)) [0..<thread_count fl d])"
proof -
  let ?sizes = "map vn_size (virtNets d)" and ?nt = "thread_count fl d"
  obtain w1 where w1: "shuffle intn1 (vn_attachments ?sizes) = Inr w1" "mset w1 = mset (vn_attachments ?sizes)"
    using shuffle_permutes [OF assms(1)] by blast
  obtain w2 where w2: "shuffle intn2 w1 = Inr w2" "mset w2 = mset w1"
    using shuffle_permutes [OF assms(2)] by blast
  have nt: "(if sum_list ?sizes < fl_threads fl then sum_list ?sizes else fl_threads fl) = ?nt"
    by (auto simp: thread_count_def)
  have "map (\<lambda>i. map_sum id (\<lambda>work. new_thread (i + 1) work (thread_share (fl_num_attachments fl) ?nt i))
          (selectWork i ?nt w2)) [0..<?nt] =
      map (\<lambda>i. Inr (new_thread (i + 1) (work_of ?nt i w2) (thread_share (fl_num_attachments fl) ?nt i))) [0..<?nt]"
    by (rule map_cong) (simp_all add: selectWork_runs work_of_def)
  then have "start_threads fl intn1 intn2 d =
      Inr (map (\<lambda>i. new_thread (i + 1) (work_of ?nt i w2) (thread_share (fl_num_attachments fl) ?nt i)) [0..<?nt])"
    using w1(1) w2(1) unfolding start_threads_def Let_def nt by (simp only: sum.case those_results_Inr)
  then show ?thesis using that [of w2] w1(2) w2(2) by simp
qed

lemma mset_concat_upt: "mset (concat (map f [0..<n])) = (\<Sum>i<n. mset (f i))"
  by (induction n) (simp_all add: add.commute)

lemma works_deal:
  assumes "mset order = mset (vn_attachments (map vn_size (virtNets d)))" "nt = thread_count fl d"
    and "ths = map (\<lambda>i. new_thread (i + 1) (work_of nt i order) (thread_share num nt i)) [0..<nt]"
  shows "0 < nt \<Longrightarrow> mset (concat (map thr_work ths)) = mset (vn_attachments (map vn_size (virtNets d)))"
    "0 < nt \<Longrightarrow> sum_list (map thr_n ths) = num" "\<forall>th\<in>set ths. thr_work th \<noteq> []" "length ths = nt"
    "num \<le> sum_list (map vn_size (virtNets d)) \<Longrightarrow> \<forall>th\<in>set ths. thr_n th \<le> length (thr_work th)"
proof -
  have w: "map thr_work ths = map (\<lambda>i. work_of nt i order) [0..<nt]"
    and n: "map thr_n ths = map (thread_share num nt) [0..<nt]"
    unfolding assms(3) by (simp_all add: new_thread_def comp_def)
  show "mset (concat (map thr_work ths)) = mset (vn_attachments (map vn_size (virtNets d)))" if "0 < nt"
    unfolding w mset_concat_upt using work_partitions [OF that, of order] assms(1) by simp
  show "sum_list (map thr_n ths) = num" if "0 < nt"
    unfolding n using thread_shares_sum [OF that, of num] by (simp add: interv_sum_list_conv_sum_set_nat atLeast0LessThan)
  have len: "nt \<le> length order"
    using assms(1,2) length_vn_attachments by (metis mset_eq_length min.cobounded1 thread_count_def)
  have "work_of nt i order \<noteq> []" if "i < nt" for i
    using thread_share_less [OF that, of 0 "length order"] that len by (simp add: work_of_def)
  then show "\<forall>th\<in>set ths. thr_work th \<noteq> []" unfolding assms(3) by (auto simp: new_thread_def)
  show "length ths = nt" unfolding assms(3) by simp
  have "length order = sum_list (map vn_size (virtNets d))"
    using assms(1) length_vn_attachments by (metis mset_eq_length)
  then show "\<forall>th\<in>set ths. thr_n th \<le> length (thr_work th)" if "num \<le> sum_list (map vn_size (virtNets d))"
    using that unfolding assms(3) by (auto simp: new_thread_def work_of_def thread_share_def intro!: div_le_mono)
qed

section \<open>The start fulfils the invariants\<close>

lemma laid_out_start:
  assumes "laid_out lo powf ns i vn"
  shows "vn_start vn" "vn_wf vn"
proof -
  have s: "slots vn = map new_slot [0..<vn_size vn]" "theCD vn = Some (new_cd (vn_ID vn))"
    "length (subnets vn) = net_blocks lo powf i"
    using assms by (simp_all add: laid_out_def Let_def)
  then show "vn_start vn" by (simp add: vn_start_def new_slot_def)
  show "vn_wf vn" using s
    by (auto simp: vn_wf_def cd_ok_def new_cd_def slot_ok_def new_slot_def net_blocks_def split: if_splits)
qed

lemma nets_laid_wf:
  assumes "layout_ok lo powf r" "nets_laid lo powf ns (lo_num_nets lo) addr d"
  shows "driver_wf d" "\<forall>vn\<in>set (virtNets d). vn_start vn" "distinct (map vn_ID (virtNets d))"
proof -
  let ?N = "lo_num_nets lo"
  have len: "length (virtNets d) = ?N" using assms(2) by (simp add: nets_laid_def)
  have lay: "laid_out lo powf ns j (virtNets d ! j)" "idToVirtNet d (net_vni lo j) = Some j" if "j < ?N" for j
    using assms(2) that by (auto simp: nets_laid_def)
  then have id: "vn_ID (virtNets d ! j) = net_vni lo j" if "j < ?N" for j
    using that by (simp add: laid_out_def Let_def)
  have v: "lo_vni0 lo = first_vni r" "r < 32" "?N \<le> 65535" using assms(1) by (auto simp: layout_ok_def)
  show "\<forall>vn\<in>set (virtNets d). vn_start vn"
    using laid_out_start(1) lay(1) len by (metis in_set_conv_nth)
  have "vn_wf vn \<and> (\<exists>vj<?N. idToVirtNet d (vn_ID vn) = Some vj)" if "vn \<in> set (virtNets d)" for vn
    using that laid_out_start(2) lay id len by (metis in_set_conv_nth)
  then show "driver_wf d" using assms(2) len by (auto simp: driver_wf_def nets_laid_def)
  show "distinct (map vn_ID (virtNets d))"
    using id len net_vni_inj [OF v(1,2)] v(3) by (auto simp: distinct_conv_nth)
qed

lemma driver_starts:
  assumes lo: "layout_ok lo powf r" "nets_laid lo powf ns (lo_num_nets lo) addr d"
    and rnd: "\<forall>m>0. intn1 m < m" "\<forall>m>0. intn2 m < m"
  shows "\<exists>ths. start_threads fl intn1 intn2 d = Inr ths \<and> drv_start (ths, d) \<and> length ths = thread_count fl d \<and>
    (ths \<noteq> [] \<longrightarrow> mset (concat (map thr_work ths)) = mset (vn_attachments (map vn_size (virtNets d))) \<and>
       sum_list (map thr_n ths) = fl_num_attachments fl) \<and>
    (fl_num_attachments fl \<le> sum_list (map vn_size (virtNets d)) \<longrightarrow> (\<forall>th\<in>set ths. thr_n th \<le> length (thr_work th)))"
proof -
  let ?nt = "thread_count fl d" and ?slots = "vn_attachments (map vn_size (virtNets d))"
  obtain order where o: "mset order = mset ?slots"
    and st: "start_threads fl intn1 intn2 d = Inr (map (\<lambda>i. new_thread (i + 1) (work_of ?nt i order)
                    (thread_share (fl_num_attachments fl) ?nt i)) [0..<?nt])"
    using start_threads_works [OF rnd] by blast
  define ths where "ths = map (\<lambda>i. new_thread (i + 1) (work_of ?nt i order) (thread_share (fl_num_attachments fl) ?nt i)) [0..<?nt]"
  note deal = works_deal [OF o refl ths_def]
  have dist: "distinct (concat (map thr_work ths)) \<and> set (concat (map thr_work ths)) \<subseteq> set ?slots"
  proof (cases "?nt = 0")
    case False
    then have "mset (concat (map thr_work ths)) = mset ?slots" using deal(1) by simp
    then show ?thesis using vn_attachments_slots mset_eq_imp_distinct_iff mset_eq_setD by blast
  qed (simp add: ths_def)
  have "thread_start d th" if th: "th \<in> set ths" for th
  proof -
    have "(vi, si) \<in> set ?slots" if "(vi, si) \<in> set (thr_work th)" for vi si using dist th that by auto
    then have "vi < length (virtNets d) \<and> si < vn_size (virtNets d ! vi)" if "(vi, si) \<in> set (thr_work th)" for vi si
      using vn_attachments_slots [of "map vn_size (virtNets d)"] that by fastforce
    then show ?thesis using th deal(3) unfolding thread_start_def ths_def by (auto simp: new_thread_def)
  qed
  then have "drv_start (ths, d)"
    using nets_laid_wf [OF lo] dist lo(2) by (auto simp: drv_start_def nets_laid_def new_globals_def)
  then show ?thesis using st deal ths_def by (intro exI [of _ ths]) auto
qed

end
