(* ===== verification/Driver_Addrs.thy ===== *)
theory Driver_Addrs
  imports Driver_Start
begin

text \<open>
  The index of addresses of a virtual network of the throughput driver, which counts the owners of
  every address. As long as no notification overtakes the reply to the call that creates the
  attachment (\<open>calm_step\<close>), the index is exact: every address is mapped to the names of the
  attachments that have it.
\<close>

section \<open>Moving a name in the index\<close>

definition index_of :: "(string \<Rightarrow> string set) \<Rightarrow> (string \<rightharpoonup> string set)" where
  "index_of own = (\<lambda>ip. if ip = [] \<or> own ip = {} then None else Some (own ip))"

definition moved :: "string \<Rightarrow> string \<Rightarrow> string \<Rightarrow> (string \<Rightarrow> string set) \<Rightarrow> string \<Rightarrow> string set" where
  "moved ol ne name own = (\<lambda>ip. own ip - (if ip = ol then {name} else {}) \<union> (if ip = ne then {name} else {}))"

lemma ipAddressChangedInNS_index:
  assumes "ipAddressChangedInNS ol ne name vn g = (vn', g')" "addrs vn = index_of own" "ol \<noteq> ne"
  shows "vn' = vn\<lparr>addrs := index_of (moved ol ne name own)\<rparr>"
    "multiOwnerWarnings g' = multiOwnerWarnings g + (if ne \<noteq> [] \<and> 1 < card (insert name (own ne)) then 1 else 0)"
proof -
  define m1 where "m1 = index_of (moved ol [] name own)"
  have m1: "(if ol = [] then addrs vn else case addrs vn ol of None \<Rightarrow> addrs vn
      | Some oldSet \<Rightarrow> if oldSet - {name} = {} then (addrs vn)(ol := None) else (addrs vn)(ol \<mapsto> oldSet - {name})) = m1"
    unfolding m1_def assms(2) by (rule ext) (auto simp: index_of_def moved_def)
  have new: "insert name (case m1 ne of None \<Rightarrow> {} | Some S \<Rightarrow> S) = insert name (own ne)" if "ne \<noteq> []"
    using that assms(3) by (auto simp: m1_def index_of_def moved_def)
  have idx: "m1(ne \<mapsto> insert name (own ne)) = index_of (moved ol ne name own)" if "ne \<noteq> []"
    using that assms(3) by (auto simp: m1_def index_of_def moved_def fun_eq_iff)
  have "ipAddressChangedInNS ol ne name vn g =
      (if ne = [] then (vn\<lparr>addrs := m1\<rparr>, g)
       else if 1 < card (insert name (own ne))
       then (vn\<lparr>addrs := m1(ne \<mapsto> insert name (own ne))\<rparr>,
             log_event [MultipleOwners ne (insert name (own ne))] (g\<lparr>multiOwnerWarnings := multiOwnerWarnings g + 1\<rparr>))
       else (vn\<lparr>addrs := m1(ne \<mapsto> insert name (own ne))\<rparr>, g))"
    unfolding ipAddressChangedInNS_def Let_def m1 by (simp add: new)
  then show "vn' = vn\<lparr>addrs := index_of (moved ol ne name own)\<rparr>"
    "multiOwnerWarnings g' = multiOwnerWarnings g + (if ne \<noteq> [] \<and> 1 < card (insert name (own ne)) then 1 else 0)"
    using assms(1) idx m1_def by (auto simp: log_event_def split: if_splits)
qed

lemma ipAddressChanged_index:
  assumes "ipAddressChanged node ol ne name vn g = (vn', g')" "addrs vn = index_of own" "ol \<noteq> ne"
  shows "\<exists>m. vn' = vn\<lparr>nodeMap := m, addrs := index_of (moved ol ne name own)\<rparr>"
    "multiOwnerWarnings g' = multiOwnerWarnings g + (if ne \<noteq> [] \<and> 1 < card (insert name (own ne)) then 1 else 0)"
proof -
  obtain vn1 g1 where at: "ipAddressChangedAtNode node ol ne name vn g = (vn1, g1)"
    and ns: "ipAddressChangedInNS ol ne name vn1 g1 = (vn', g')"
    using assms(1) by (auto simp: ipAddressChanged_def split: prod.splits)
  obtain m where m: "vn1 = vn\<lparr>nodeMap := m\<rparr>" using ipAddressChangedAtNode_frame [OF at] by blast
  have g1: "multiOwnerWarnings g1 = multiOwnerWarnings g"
    using at by (auto simp: ipAddressChangedAtNode_def Let_def log_event_def split: if_splits)
  from ipAddressChangedInNS_index [OF ns, of own] show "\<exists>m. vn' = vn\<lparr>nodeMap := m, addrs := index_of (moved ol ne name own)\<rparr>"
    "multiOwnerWarnings g' = multiOwnerWarnings g + (if ne \<noteq> [] \<and> 1 < card (insert name (own ne)) then 1 else 0)"
    using m g1 assms(2,3) by auto
qed

section \<open>Views\<close>

text \<open>
  What matters of a driver here: the index of every network, and of every slot the name, the
  attachment and the time of creation.
\<close>

type_synonym cell = "string \<times> drv_attachment option \<times> gotime"
type_synonym view = "((string \<rightharpoonup> string set) \<times> cell list) list"

abbreviation cell_name :: "cell \<Rightarrow> string" where "cell_name \<equiv> fst"
abbreviation cell_natt :: "cell \<Rightarrow> drv_attachment option" where "cell_natt c \<equiv> fst (snd c)"
abbreviation cell_pre :: "cell \<Rightarrow> gotime" where "cell_pre c \<equiv> snd (snd c)"

definition natt_ip :: "drv_attachment option \<Rightarrow> string" where
  "natt_ip natt = (case natt of None \<Rightarrow> [] | Some a \<Rightarrow> natt_IPv4 a)"

abbreviation cell_ip :: "cell \<Rightarrow> string" where "cell_ip c \<equiv> natt_ip (cell_natt c)"

definition cell :: "Slot \<Rightarrow> cell" where
  "cell slot = (currentAttachmentName slot, slot_natt slot, preCreateTime slot)"

definition vn_view :: "VirtNet \<Rightarrow> (string \<rightharpoonup> string set) \<times> cell list" where
  "vn_view vn = (addrs vn, map cell (slots vn))"

definition view :: "driver \<Rightarrow> view" where
  "view d = map vn_view (virtNets d)"

definition put :: "nat \<Rightarrow> nat \<Rightarrow> cell \<Rightarrow> view \<Rightarrow> view" where
  "put vi si c v = v[vi := (fst (v ! vi), (snd (v ! vi))[si := c])]"

definition put_index :: "nat \<Rightarrow> (string \<rightharpoonup> string set) \<Rightarrow> view \<Rightarrow> view" where
  "put_index vi m v = v[vi := (m, snd (v ! vi))]"

lemma view_set_vn: "view (set_vn vi vn d) = (view d)[vi := vn_view vn]"
  by (simp add: view_def set_vn_def map_update)

lemma view_nth: "vi < length (virtNets d) \<Longrightarrow> view d ! vi = vn_view (virtNets d ! vi)"
  by (simp add: view_def)

lemma view_updates [simp]:
  "view (globals_update f1 d) = view d" "view (initializedSubnets_update f2 d) = view d"
  by (simp_all add: view_def)

lemma vn_view_updates [simp]:
  "vn_view (theCD_update f1 vn) = vn_view vn" "vn_view (createdCount_update f2 vn) = vn_view vn"
  "vn_view (nodeMap_update f3 vn) = vn_view vn"
  by (simp_all add: vn_view_def)

lemma view_set_same:
  assumes "vi < length (virtNets d)" "vn_view vn = vn_view (virtNets d ! vi)"
  shows "view (set_vn vi vn d) = view d"
  using assms by (simp add: view_set_vn view_nth [symmetric])

text \<open>Setting one slot of a network changes one cell.\<close>

lemma view_slot:
  assumes "vi < length (virtNets d)"
    and "vn_view vn = vn_view ((virtNets d ! vi)\<lparr>slots := (slots (virtNets d ! vi))[si := slot]\<rparr>)"
  shows "view (set_vn vi vn d) = put vi si (cell slot) (view d)"
  using assms by (simp add: view_set_vn put_def view_nth vn_view_def map_update)

lemma create_call_view:
  assumes "create_call tp plan now ts th d = Inr (th', d')" "cp_vn plan < length (virtNets d)"
  shows "view d' = put (cp_vn plan) (cp_slot plan) (cp_name plan, None, 0) (view d)"
    "\<exists>full. th' = th\<lparr>pc := Creating plan now full\<rparr>"
proof -
  let ?vn = "virtNets d ! cp_vn plan"
  obtain slot cd g where n: "setCurrentName (cp_slot plan) (cp_name plan) (cp_node plan)
      (slots ?vn ! cp_slot plan) (theCD ?vn) = (slot, cd)"
    and d': "d' = set_vn (cp_vn plan) (?vn\<lparr>slots := (slots ?vn)[cp_slot plan := slot], theCD := cd\<rparr>) (d\<lparr>globals := g\<rparr>)"
    using assms(1) by (auto simp: create_call_def Let_def split: if_splits option.splits sum.splits prod.splits)
  have "cell slot = (cp_name plan, None, 0)" using n by (auto simp: setCurrentName_def cell_def)
  then show "view d' = put (cp_vn plan) (cp_slot plan) (cp_name plan, None, 0) (view d)"
    unfolding d' using view_slot [of "cp_vn plan" "d\<lparr>globals := g\<rparr>" _ "cp_slot plan" slot] assms(2) by simp
  show "\<exists>full. th' = th\<lparr>pc := Creating plan now full\<rparr>" by (rule create_call_frame(1) [OF assms(1)])
qed

lemma create_end_view:
  assumes "create_end tp plan ti0 full tif reply th d = (th', d')" "cp_vn plan < length (virtNets d)"
    and "cp_slot plan < length (slots (virtNets d ! cp_vn plan))"
  shows "view d' = put (cp_vn plan) (cp_slot plan)
    (case reply of Inl _ \<Rightarrow> ([], None, 0)
     | Inr a \<Rightarrow> (cell_name (snd (view d ! cp_vn plan) ! cp_slot plan), Some a, ti0)) (view d)"
proof (cases reply)
  let ?vn = "virtNets d ! cp_vn plan"
  case (Inl err)
  obtain slot cd where n: "setCurrentName (cp_slot plan) [] [] (slots ?vn ! cp_slot plan) (theCD ?vn) = (slot, cd)" by fastforce
  then obtain g where "d' = set_vn (cp_vn plan) (?vn\<lparr>slots := (slots ?vn)[cp_slot plan := slot], theCD := cd\<rparr>) (d\<lparr>globals := g\<rparr>)"
    using assms(1) Inl by (auto simp: create_end_def Let_def)
  moreover have "cell slot = ([], None, 0)" using n by (auto simp: setCurrentName_def cell_def)
  ultimately show ?thesis using view_slot [of "cp_vn plan" "d\<lparr>globals := g\<rparr>" _ "cp_slot plan" slot] assms(2) Inl by simp
next
  let ?vn = "virtNets d ! cp_vn plan"
  case (Inr a)
  let ?slot = "setNetAtt ti0 tif a full (slots ?vn ! cp_slot plan)"
  obtain g where "d' = set_vn (cp_vn plan) (?vn\<lparr>slots := (slots ?vn)[cp_slot plan := ?slot]\<rparr>) (d\<lparr>globals := g\<rparr>)"
    using assms(1) Inr by (auto simp: create_end_def Let_def upd_slot_def)
  moreover have "cell ?slot = (cell_name (snd (view d ! cp_vn plan) ! cp_slot plan), Some a, ti0)"
    using assms(2,3) by (simp add: setNetAtt_def cell_def view_nth vn_view_def)
  ultimately show ?thesis using view_slot [of "cp_vn plan" "d\<lparr>globals := g\<rparr>" _ "cp_slot plan" ?slot] assms(2) Inr by simp
qed

lemma delete_end_view:
  assumes "delete_end tp attempts vi si natt th d = Some (th', d')" "vi < length (virtNets d)"
    and "si < length (slots (virtNets d ! vi))"
  shows "view d' = view d"
proof -
  let ?vn = "virtNets d ! vi"
  let ?slot = "(slots ?vn ! si)\<lparr>nextIndex := nextIndex (slots ?vn ! si) + of_nat (vn_size ?vn)\<rparr>"
  have "view d' = view (set_vn vi (?vn\<lparr>slots := (slots ?vn)[si := ?slot]\<rparr>) d)"
    using assms(1) by (auto simp: delete_end_def Let_def upd_slot_def split: option.splits)
  moreover have "vn_view (?vn\<lparr>slots := (slots ?vn)[si := ?slot]\<rparr>) = vn_view ?vn"
  proof -
    have "map cell ((slots ?vn)[si := ?slot]) = (map cell (slots ?vn))[si := map cell (slots ?vn) ! si]"
      using assms(3) by (simp add: map_update cell_def)
    then show ?thesis by (simp only: list_update_id) (simp add: vn_view_def)
  qed
  ultimately show ?thesis using view_set_same [OF assms(2)] by simp
qed

text \<open>The index of a network after a cell changed from one address to another.\<close>

definition new_index :: "string \<Rightarrow> string \<Rightarrow> string \<Rightarrow> (string \<Rightarrow> string set) \<Rightarrow> (string \<rightharpoonup> string set)" where
  "new_index ol ne name own = (if ol = ne then index_of own else index_of (moved ol ne name own))"

lemma close_view:
  assumes "close fl vi si d = Inr (natt, d')" "vi < length (virtNets d)" "si < length (slots (virtNets d ! vi))"
    and "idToVirtNet d (vn_ID (virtNets d ! vi)) = Some vi" "fst (view d ! vi) = index_of own"
    and "c = snd (view d ! vi) ! si"
  shows "view d' = put vi si ([], None, 0) (put_index vi
    (new_index (if cell_pre c = 0 then [] else cell_ip c) [] (cell_name c) own) (view d))"
proof -
  let ?vn = "virtNets d ! vi"
  let ?slot = "slots ?vn ! si"
  have c: "c = cell ?slot" "addrs ?vn = index_of own" using assms by (simp_all add: view_nth vn_view_def)
  have reset: "view (reset_slot vi si e) = put vi si ([], None, 0) (view e)" if "vi < length (virtNets e)" for e
    unfolding reset_slot_def
    by (subst view_slot [OF that, where si = si and slot = "(slots (virtNets e ! vi) ! si)\<lparr>currentAttachmentName := [],
        currentNodeName := [], slot_natt := None, preCreateTime := 0\<rparr>"]) (simp_all add: upd_slot_def cell_def)
  have same: "put_index vi (index_of own) (view d) = view d"
    unfolding assms(5) [symmetric] by (simp add: put_index_def)
  show ?thesis
  proof (cases "preCreateTime ?slot = 0")
    case True
    then show ?thesis using assms(1,2) reset [of d] c(1) same
      by (simp add: close_def Let_def new_index_def cell_def)
  next
    case False
    then obtain a where a: "slot_natt ?slot = Some a" using assms(1) by (auto simp: close_def Let_def split: option.splits)
    show ?thesis
    proof (cases "natt_IPv4 a = []")
      case True
      then have "cell_ip c = []" using c(1) a by (simp add: cell_def natt_ip_def)
      moreover obtain g where "d' = reset_slot vi si (d\<lparr>globals := g\<rparr>)"
        using True False a assms(1) by (auto simp: close_def Let_def)
      ultimately show ?thesis using reset [of "d\<lparr>globals := g\<rparr>"] assms(2) same by (simp add: new_index_def)
    next
      case ip: False
      obtain g vn2 g2 g3 where mv: "ipAddressChanged (currentNodeName ?slot) (natt_IPv4 a) [] (currentAttachmentName ?slot) ?vn g = (vn2, g2)"
        and d': "d' = reset_slot vi si ((set_vn vi vn2 (d\<lparr>globals := g2\<rparr>))\<lparr>globals := g3\<rparr>)"
        using False a ip assms(1,4) by (auto simp: close_def Let_def split: prod.splits)
      let ?e = "(set_vn vi vn2 (d\<lparr>globals := g2\<rparr>))\<lparr>globals := g3\<rparr>"
      obtain m where vn2: "vn2 = ?vn\<lparr>nodeMap := m, addrs := index_of (moved (natt_IPv4 a) [] (currentAttachmentName ?slot) own)\<rparr>"
        using ipAddressChanged_index(1) [OF mv c(2) ip] by blast
      have "view ?e = (view d)[vi := vn_view vn2]" by (simp add: view_set_vn)
      then have "view ?e = put_index vi (index_of (moved (natt_IPv4 a) [] (currentAttachmentName ?slot) own)) (view d)"
        using vn2 assms(2) by (simp add: put_index_def view_nth vn_view_def)
      moreover have "vi < length (virtNets ?e)" using assms(2) by (simp add: set_vn_def)
      ultimately show ?thesis
        using d' reset [of ?e] c(1) False a ip by (simp add: cell_def new_index_def natt_ip_def)
    qed
  qed
qed

lemma observeState_view:
  assumes "observeState fl now si natt vn g = Inr (vn', g')" "addrs vn = index_of own"
  obtains "vn_view vn' = vn_view vn" "multiOwnerWarnings g' = multiOwnerWarnings g"
  | c where "si < length (slots vn)" "c = cell (slots vn ! si)" "cell_name c = natt_Name natt"
    "vn_view vn' = (new_index (cell_ip c) (natt_IPv4 natt) (cell_name c) own,
       (map cell (slots vn))[si := (cell_name c, Some natt, cell_pre c)])"
  using assms(1)
proof (cases rule: observeState_cases)
  case tardy
  then show ?thesis using that(1) by simp
next
  case (taken slot vn1 g1 slot2 cd2)
  let ?c = "cell slot"
  have "cell (slot2\<lparr>slot_natt := Some natt\<rparr>) = (cell_name ?c, Some natt, cell_pre ?c)"
    using observe_progress_frame [OF taken(5)] by (simp add: same_slot_def cell_def)
  moreover have "slots vn1 = slots vn \<and> addrs vn1 = new_index (cell_ip ?c) (natt_IPv4 natt) (cell_name ?c) own"
  proof (cases "cell_ip ?c = natt_IPv4 natt")
    case True
    then have "vn1 = vn" using taken(4) by (auto simp: observe_address_def Let_def cell_def natt_ip_def)
    then show ?thesis using True assms(2) by (simp add: new_index_def)
  next
    case False
    then obtain g0 where mv: "ipAddressChanged (currentNodeName slot) (cell_ip ?c) (natt_IPv4 natt)
        (currentAttachmentName slot) vn g0 = (vn1, g1)"
      using taken(4) by (auto simp: observe_address_def Let_def cell_def natt_ip_def split: sum.splits)
    show ?thesis using ipAddressChanged_index(1) [OF mv assms(2) False] False
      by (auto simp: new_index_def cell_def)
  qed
  ultimately have "vn_view vn' = (new_index (cell_ip ?c) (natt_IPv4 natt) (cell_name ?c) own,
      (map cell (slots vn))[si := (cell_name ?c, Some natt, cell_pre ?c)])"
    using taken(6) by (simp add: vn_view_def map_update)
  then show ?thesis using that(2) [of ?c] taken(1-3) by (simp add: cell_def)
qed

section \<open>Owners\<close>

definition owners :: "cell list \<Rightarrow> string \<Rightarrow> string set" where
  "owners cs ip = {cell_name c |c. c \<in> set cs \<and> cell_ip c = ip}"

definition exact :: "view \<Rightarrow> bool" where
  "exact v \<longleftrightarrow> (\<forall>(m, cs)\<in>set v. m = index_of (owners cs))"

definition names_apart :: "cell list \<Rightarrow> bool" where
  "names_apart cs \<longleftrightarrow> (\<forall>i<length cs. \<forall>j<length cs. i \<noteq> j \<longrightarrow> cell_name (cs ! i) = cell_name (cs ! j) \<longrightarrow> cell_name (cs ! i) = [])"

text \<open>An index only sees the addresses that are not empty.\<close>

lemma index_of_cong: "(\<And>ip. ip \<noteq> [] \<Longrightarrow> f ip = g ip) \<Longrightarrow> index_of f = index_of g"
  by (auto simp: index_of_def fun_eq_iff)

definition other_owners :: "nat \<Rightarrow> cell list \<Rightarrow> string \<Rightarrow> string set" where
  "other_owners si cs ip = {cell_name (cs ! j) |j. j < length cs \<and> j \<noteq> si \<and> cell_ip (cs ! j) = ip}"

lemma owners_split:
  assumes "si < length cs"
  shows "owners (cs[si := c]) ip = other_owners si cs ip \<union> (if cell_ip c = ip then {cell_name c} else {})"
proof -
  have "owners (cs[si := c]) ip = {cell_name (cs[si := c] ! j) |j. j < length cs \<and> cell_ip (cs[si := c] ! j) = ip}"
    unfolding owners_def by (metis (no_types, lifting) in_set_conv_nth length_list_update)
  also have "\<dots> = other_owners si cs ip \<union> (if cell_ip c = ip then {cell_name c} else {})"
    using assms by (auto simp: other_owners_def nth_list_update split: if_splits)
  finally show ?thesis .
qed

lemma owners_self:
  "si < length cs \<Longrightarrow> owners cs ip = other_owners si cs ip \<union> (if cell_ip (cs ! si) = ip then {cell_name (cs ! si)} else {})"
  using owners_split [of si cs "cs ! si" ip] by simp

text \<open>A cell changes and keeps its name and address, or has no address before and after.\<close>

lemma owners_same:
  assumes "si < length cs" "cell_ip c = cell_ip (cs ! si)" "cell_ip c \<noteq> [] \<longrightarrow> cell_name c = cell_name (cs ! si)"
  shows "index_of (owners (cs[si := c])) = index_of (owners cs)"
  using assms by (intro index_of_cong) (simp only: owners_split owners_self [OF assms(1)], auto)

lemma set_move:
  "n \<notin> A \<Longrightarrow> (ne = ip \<Longrightarrow> n' = n) \<Longrightarrow> A \<union> (if ne = ip then {n'} else {}) =
   A \<union> (if ol = ip then {n} else {}) - (if ip = ol then {n} else {}) \<union> (if ip = ne then {n} else {})"
  by auto

text \<open>A cell with a name of its own changes its address, or loses name and address.\<close>

lemma owners_moved:
  assumes si: "si < length cs" and ap: "names_apart cs" "cell_name (cs ! si) \<noteq> []"
    and c: "cell_ip c \<noteq> [] \<longrightarrow> cell_name c = cell_name (cs ! si)"
  shows "index_of (owners (cs[si := c])) = new_index (cell_ip (cs ! si)) (cell_ip c) (cell_name (cs ! si)) (owners cs)"
proof (cases "cell_ip (cs ! si) = cell_ip c")
  case True
  then show ?thesis using owners_same [OF si _ c] by (simp add: new_index_def)
next
  case False
  have "cell_name (cs ! si) \<notin> other_owners si cs ip" for ip
    using ap si unfolding names_apart_def other_owners_def by fastforce
  then have "owners (cs[si := c]) ip = moved (cell_ip (cs ! si)) (cell_ip c) (cell_name (cs ! si)) (owners cs) ip" if "ip \<noteq> []" for ip
    unfolding owners_split [OF si] owners_self [OF si] moved_def using c that by (intro set_move) auto
  then have "index_of (owners (cs[si := c])) = index_of (moved (cell_ip (cs ! si)) (cell_ip c) (cell_name (cs ! si)) (owners cs))"
    by (rule index_of_cong)
  then show ?thesis using False by (simp add: new_index_def)
qed

lemma exact_nth: "exact v \<Longrightarrow> vi < length v \<Longrightarrow> fst (v ! vi) = index_of (owners (snd (v ! vi)))"
  unfolding exact_def by (metis (mono_tags, lifting) case_prod_beta nth_mem)

lemma exact_put:
  assumes "exact v" "vi < length v \<Longrightarrow> m = index_of (owners ((snd (v ! vi))[si := c]))"
  shows "exact (put vi si c (put_index vi m v))"
proof (cases "vi < length v")
  case True
  then show ?thesis using assms
    by (auto simp: exact_def put_def put_index_def dest!: set_update_subset_insert [THEN subsetD])
qed (use assms(1) in \<open>simp add: put_def put_index_def list_update_beyond\<close>)

lemma put_without_index: "put vi si c v = put vi si c (put_index vi (fst (v ! vi)) v)"
  by (simp add: put_index_def)

lemma exact_put_same:
  assumes "exact v" "vi < length v" "si < length (snd (v ! vi))" "cell_ip c = cell_ip (snd (v ! vi) ! si)"
    and "cell_ip c \<noteq> [] \<longrightarrow> cell_name c = cell_name (snd (v ! vi) ! si)"
  shows "exact (put vi si c v)"
  unfolding put_without_index [of vi si c v]
  using exact_nth [OF assms(1,2)] owners_same [OF assms(3-5)] by (intro exact_put [OF assms(1)]) simp

end
