(* ===== verification/Driver_Calm.thy ===== *)
theory Driver_Calm
  imports Driver_Addrs
begin

text \<open>
  The life of a slot of the throughput driver, in step with the counters of the thread that owns
  it, and the proof that the index of addresses stays exact in calm runs.
\<close>

section \<open>Calm runs\<close>

text \<open>
  The steps of the driver in which the clock is never zero, attachments have names, and the reply
  to a creation shows the address that the slot already knows (none when the creation failed): no
  notification with an address was handled between the call and its reply.
\<close>

inductive calm_step :: "thread_params \<Rightarrow> drv_state \<Rightarrow> drv_state \<Rightarrow> bool" for tp where
  Top: "t < length ths \<Longrightarrow> pc (ths ! t) = AtTop \<Longrightarrow> \<forall>m>0. intn m < m \<Longrightarrow> now \<noteq> 0 \<Longrightarrow>
     loop_top tp stopped intn now ts (ths ! t) d = Inr (th', d') \<Longrightarrow>
     calm_step tp (ths, d) (ths[t := th'], d')"
| Resume: "t < length ths \<Longrightarrow> pc (ths ! t) = WaitingPeer plan tLimit \<Longrightarrow> now \<noteq> 0 \<Longrightarrow>
     create_resume tp now ts plan tLimit (ths ! t) d = Inr (th', d') \<Longrightarrow>
     calm_step tp (ths, d) (ths[t := th'], d')"
| Created: "t < length ths \<Longrightarrow> pc (ths ! t) = Creating plan ti0 full \<Longrightarrow>
     natt_ip (slot_natt (slots (virtNets d ! cp_vn plan) ! cp_slot plan)) =
       (case reply of Inl _ \<Rightarrow> [] | Inr a \<Rightarrow> natt_IPv4 a) \<Longrightarrow>
     create_end tp plan ti0 full tif reply (ths ! t) d = (th', d') \<Longrightarrow>
     calm_step tp (ths, d) (ths[t := th'], d')"
| Deleted: "t < length ths \<Longrightarrow> pc (ths ! t) = Deleting vi si natt \<Longrightarrow>
     delete_end tp attempts vi si natt (ths ! t) d = Some (th', d') \<Longrightarrow>
     calm_step tp (ths, d) (ths[t := th'], d')"
| Notified: "natt_Name natt \<noteq> [] \<Longrightarrow> attachment_OnAdd (tp_flags tp) now natt d = Inr d' \<Longrightarrow>
     calm_step tp (ths, d) (ths, d')"
| Subnet_notified: "calm_step tp (ths, d) (ths, subnet_OnAdd subnet d)"

lemma calm_drv_step: "calm_step tp s s' \<Longrightarrow> drv_step tp s s'"
  by (induction rule: calm_step.induct) (auto intro: drv_step.intros)

section \<open>Slots in the run of a thread\<close>

definition first_open :: "thread \<Rightarrow> nat" where
  "first_open th = iDelete th + (case pc th of Deleting _ _ _ \<Rightarrow> 1 | _ \<Rightarrow> 0)"

definition live :: "thread \<Rightarrow> nat \<Rightarrow> bool" where
  "live th p \<longleftrightarrow> (\<exists>k. first_open th \<le> k \<and> k < requests th \<and> k mod length (thr_work th) = p)"

definition creating :: "thread \<Rightarrow> nat \<Rightarrow> bool" where
  "creating th p \<longleftrightarrow> (case pc th of Creating _ _ _ \<Rightarrow> iCreate th mod length (thr_work th) = p | _ \<Rightarrow> False)"

definition cell_ok :: "(nat \<Rightarrow> string) \<Rightarrow> thread \<Rightarrow> nat \<Rightarrow> cell \<Rightarrow> bool" where
  "cell_ok nm th p c \<longleftrightarrow> (\<not> live th p \<longrightarrow> cell_name c = [] \<and> cell_natt c = None) \<and>
     (cell_name c \<noteq> [] \<longrightarrow> (\<exists>k<requests th. k mod length (thr_work th) = p \<and> cell_name c = nm k)) \<and>
     (cell_natt c \<noteq> None \<longrightarrow> cell_name c \<noteq> []) \<and> (cell_name c \<noteq> [] \<and> \<not> creating th p \<longrightarrow> cell_pre c \<noteq> 0) \<and>
     (creating th p \<longrightarrow> cell_name c \<noteq> [])"

definition cell_at :: "view \<Rightarrow> nat \<times> nat \<Rightarrow> cell" where
  "cell_at v w = snd (v ! fst w) ! snd w"

definition cells_ok :: "nat \<Rightarrow> drv_shape \<Rightarrow> view \<Rightarrow> thread \<Rightarrow> bool" where
  "cells_ok digs sh v th \<longleftrightarrow>
     (\<forall>p<length (thr_work th). cell_ok (thread_name digs sh (thr_work th)) th p (cell_at v (thr_work th ! p))) \<and>
     (case pc th of Creating _ ti0 _ \<Rightarrow> ti0 \<noteq> 0 | _ \<Rightarrow> True)"

lemma cell_at_put:
  assumes "vi < length v" "si < length (snd (v ! vi))"
  shows "cell_at (put vi si c (put_index vi m v)) w = (if w = (vi, si) then c else cell_at v w)"
  using assms by (cases w) (auto simp: cell_at_def put_def put_index_def nth_list_update)

text \<open>A cell is not touched by what its thread does with another slot.\<close>

lemma cell_ok_kept:
  assumes "cell_ok nm th p c" "thr_work th' = thr_work th" "requests th \<le> requests th'"
    and "live th p \<longrightarrow> live th' p" "creating th p = creating th' p"
  shows "cell_ok nm th' p c"
  using assms unfolding cell_ok_def by (metis order_less_le_trans)

text \<open>Naming, filling, emptying and closing a cell.\<close>

lemma cell_ok_named: "creating th p \<Longrightarrow> live th p \<Longrightarrow> k < requests th \<Longrightarrow> k mod length (thr_work th) = p \<Longrightarrow>
    nm k \<noteq> [] \<Longrightarrow> cell_ok nm th p (nm k, None, 0)"
  by (auto simp: cell_ok_def)

lemma cell_ok_closed: "\<not> creating th p \<Longrightarrow> cell_ok nm th p ([], None, t)"
  by (simp add: cell_ok_def)

lemma cell_ok_natt:
  assumes "cell_ok nm th p c" "cell_name c \<noteq> []" "t = cell_pre c \<or> t \<noteq> 0"
  shows "cell_ok nm th p (cell_name c, Some a, t)"
  using assms by (auto simp: cell_ok_def)

text \<open>What the steps of a thread do to its live slots.\<close>

lemma live_call:
  assumes "pc th' = Creating plan t full" "th' = th\<lparr>pc := Creating plan t full\<rparr>" "requests th = iCreate th"
    "first_open th = iDelete th"
  shows "live th p \<longrightarrow> live th' p"
    "iDelete th \<le> iCreate th \<Longrightarrow> live th' (iCreate th mod length (thr_work th))"
    "creating th' (iCreate th mod length (thr_work th))"
  using assms by (auto simp: live_def requests_def first_open_def creating_def)

lemma not_live_next:
  assumes "first_open th = iDelete th" "requests th = iCreate th" "iCreate th < iDelete th + length (thr_work th)"
  shows "\<not> live th (iCreate th mod length (thr_work th))"
proof
  let ?L = "length (thr_work th)"
  assume "live th (iCreate th mod ?L)"
  then obtain k where k: "iDelete th \<le> k" "k < iCreate th" "k mod ?L = iCreate th mod ?L"
    using assms by (auto simp: live_def)
  have "k div ?L < iCreate th div ?L"
    using k(2,3) by (metis div_le_mono div_mod_decomp less_le order.strict_implies_order)
  then have "(k div ?L + 1) * ?L \<le> iCreate th div ?L * ?L" by (intro mult_le_mono1) simp
  then have "k div ?L * ?L + ?L \<le> iCreate th div ?L * ?L" by simp
  then have "k + ?L \<le> iCreate th"
    using k(3) div_mod_decomp [of k ?L] div_mod_decomp [of "iCreate th" ?L] by linarith
  then show False using k(1) assms(3) by linarith
qed

lemma live_close:
  assumes "th' = th\<lparr>createAllowed := c, pc := Deleting vi si natt\<rparr>" "pc th = AtTop"
    "p \<noteq> iDelete th mod length (thr_work th)"
  shows "live th p \<longrightarrow> live th' p"
proof
  assume "live th p"
  then obtain k where "iDelete th \<le> k" "k < iCreate th" "k mod length (thr_work th) = p"
    using assms(2) by (auto simp: live_def first_open_def requests_def)
  moreover from this have "iDelete th \<noteq> k" using assms(3) by auto
  ultimately show "live th' p"
    using assms(1) by (auto simp: live_def first_open_def requests_def intro!: exI [of _ k])
qed

section \<open>The top of the loop\<close>

text \<open>The top of the loop changes no slot, names the next one, or closes the next one.\<close>

definition quiet :: "thread \<Rightarrow> thread \<Rightarrow> bool" where
  "quiet th th' \<longleftrightarrow> thr_work th' = thr_work th \<and> first_open th' = first_open th \<and> requests th' = requests th \<and>
     (\<forall>p. \<not> creating th p) \<and> (case pc th' of Creating _ _ _ \<Rightarrow> False | _ \<Rightarrow> True)"

lemma create_begin_view:
  assumes "create_begin tp intn now ts th d = Inr (th', d')" "pc th = AtTop" "thread_ok digs (shape d) th" "thr_work th \<noteq> []"
  shows "(quiet th th' \<and> view d' = view d) \<or>
    (\<exists>plan full. th' = th\<lparr>pc := Creating plan now full\<rparr> \<and> (cp_vn plan, cp_slot plan) = work_at th (iCreate th) \<and>
       view d' = put (cp_vn plan) (cp_slot plan) (cp_name plan, None, 0) (view d))"
proof -
  obtain vi si where w: "work_at th (iCreate th) = (vi, si)" by fastforce
  then have vi: "vi < length (virtNets d)" using thread_slot(1) [OF assms(3) _ assms(4)] by metis
  have nth: "go_nth (thr_work th) (iCreate th mod length (thr_work th)) = Inr (vi, si)"
    using w assms(4) by (simp add: go_nth_def work_at_def)
  obtain vn1 s where cs: "choose_subnet (virtNets d ! vi) = Inr (vn1, s)"
    using assms(1) nth by (auto simp: create_begin_def Let_def split: sum.splits)
  then have vn1: "vn_view vn1 = vn_view (virtNets d ! vi)" using choose_subnet_frame by fastforce
  have d1: "view (set_vn vi vn1 d) = view d" "vi < length (virtNets (set_vn vi vn1 d))"
    using view_set_same [OF vi vn1] vi by (simp_all add: set_vn_def)
  have "(\<exists>plan. (cp_vn plan, cp_slot plan) = (vi, si) \<and> create_call tp plan now ts th (set_vn vi vn1 d) = Inr (th', d')) \<or>
      (\<exists>plan t cd. th' = th\<lparr>pc := WaitingPeer plan t\<rparr> \<and> d' = set_vn vi (vn1\<lparr>theCD := cd\<rparr>) (set_vn vi vn1 d))"
    using assms(1) nth cs by (auto simp: create_begin_def Let_def split: sum.splits if_splits option.splits)
  then show ?thesis
  proof (elim disjE exE conjE)
    fix plan assume p: "(cp_vn plan, cp_slot plan) = (vi, si)" "create_call tp plan now ts th (set_vn vi vn1 d) = Inr (th', d')"
    then show ?thesis using create_call_view [OF p(2)] d1 w by auto
  next
    fix plan t cd assume p: "th' = th\<lparr>pc := WaitingPeer plan t\<rparr>" "d' = set_vn vi (vn1\<lparr>theCD := cd\<rparr>) (set_vn vi vn1 d)"
    have "view d' = (view d)[vi := vn_view vn1]" using p(2) d1(1) by (simp add: view_set_vn)
    then have "view d' = view d" using vn1 vi by (simp add: view_nth [symmetric])
    then show ?thesis using p(1) assms(2) by (simp add: quiet_def first_open_def requests_def creating_def)
  qed
qed

lemma loop_top_cases:
  assumes "loop_top tp stopped intn now ts th d = Inr (th', d')"
  shows "(\<exists>c. th' = th\<lparr>createAllowed := c, pc := Returned\<rparr>) \<and> d' = d \<or> create_begin tp intn now ts th d = Inr (th', d') \<or>
    delete_begin tp (th\<lparr>createAllowed := createAllowed th \<and> \<not> stopped\<rparr>) d = Inr (th', d')"
proof (cases "\<not> iDelete th < thr_n th \<or> 0 < stoppers (globals d)")
  case True
  then have "th' = th\<lparr>createAllowed := createAllowed th, pc := Returned\<rparr>" "d' = d"
    using assms by (auto simp: loop_top_def)
  then show ?thesis by blast
next
  case False
  let ?th1 = "th\<lparr>createAllowed := createAllowed th \<and> \<not> stopped\<rparr>"
  show ?thesis
  proof (cases "createAllowed ?th1 \<and> iCreate ?th1 < iDelete ?th1 + length (thr_work ?th1) \<and> iCreate ?th1 < thr_n ?th1")
    case True
    then have "?th1 = th" by (cases th) simp
    then show ?thesis using assms False True by (simp add: loop_top_def Let_def)
  next
    case nocreate: False
    then show ?thesis using assms False by (auto simp: loop_top_def Let_def split: if_splits)
  qed
qed

lemma loop_top_view:
  assumes "loop_top tp stopped intn now ts th d = Inr (th', d')" "pc th = AtTop" "thread_ok digs (shape d) th" "thr_work th \<noteq> []"
    and "\<forall>vi<length (virtNets d). idToVirtNet d (vn_ID (virtNets d ! vi)) = Some vi" "exact (view d)"
  shows "(quiet th th' \<and> view d' = view d) \<or>
    (\<exists>plan full. th' = th\<lparr>pc := Creating plan now full\<rparr> \<and> (cp_vn plan, cp_slot plan) = work_at th (iCreate th) \<and>
       view d' = put (cp_vn plan) (cp_slot plan) (cp_name plan, None, 0) (view d)) \<or>
    (\<exists>c vi si natt. th' = th\<lparr>createAllowed := c, pc := Deleting vi si natt\<rparr> \<and> (vi, si) = work_at th (iDelete th) \<and>
       (let x = cell_at (view d) (vi, si) in view d' = put vi si ([], None, 0) (put_index vi
          (new_index (if cell_pre x = 0 then [] else cell_ip x) [] (cell_name x) (owners (snd (view d ! vi)))) (view d))))"
proof -
  let ?th1 = "th\<lparr>createAllowed := createAllowed th \<and> \<not> stopped\<rparr>"
  consider (ret) "\<exists>c. th' = th\<lparr>createAllowed := c, pc := Returned\<rparr>" "d' = d"
    | (create) "create_begin tp intn now ts th d = Inr (th', d')" | (delete) "delete_begin tp ?th1 d = Inr (th', d')"
    using loop_top_cases [OF assms(1)] by blast
  then show ?thesis
  proof cases
    case ret
    then show ?thesis using assms(2) by (auto simp: quiet_def first_open_def requests_def creating_def)
  next
    case create
    then show ?thesis using create_begin_view [OF _ assms(2-4)] by blast
  next
    case delete
    obtain vi si where w: "work_at th (iDelete th) = (vi, si)" by fastforce
    note rng = thread_slot [OF assms(3) w [symmetric] assms(4)]
    have "go_nth (thr_work th) (iDelete th mod length (thr_work th)) = Inr (vi, si)"
      using w assms(4) by (simp add: go_nth_def work_at_def)
    then obtain natt where cl: "close (tp_flags tp) vi si d = Inr (natt, d')" and th': "th' = ?th1\<lparr>pc := Deleting vi si natt\<rparr>"
      using delete by (auto simp: delete_begin_def split: sum.splits)
    have "fst (view d ! vi) = index_of (owners (snd (view d ! vi)))"
      using exact_nth [OF assms(6)] rng(1) by (simp add: view_def)
    then show ?thesis
      using close_view [OF cl rng _ _ refl] assms(5) rng(1) th' w unfolding Let_def cell_at_def by auto
  qed
qed

section \<open>One thread and its slots\<close>

lemma att_name_nonempty [simp]: "att_name digs vni i \<noteq> []"
  by (simp add: att_name_def)

lemma thread_name_nonempty [simp]: "thread_name digs sh work k \<noteq> []"
  by (simp add: thread_name_def split: prod.split)

lemma cells_okD:
  assumes "cells_ok digs sh v th" "p < length (thr_work th)"
  shows "cell_ok (thread_name digs sh (thr_work th)) th p (cell_at v (thr_work th ! p))"
  using assms by (simp add: cells_ok_def)

lemma cells_ok_other:
  assumes "cells_ok digs sh v th" "(vi, si) \<notin> set (thr_work th)" "vi < length v" "si < length (snd (v ! vi))"
  shows "cells_ok digs sh (put vi si c (put_index vi m v)) th"
  using assms(1,2) nth_mem unfolding cells_ok_def cell_at_put [OF assms(3,4)] by metis

lemma cells_ok_quiet:
  assumes "quiet th th'" "cells_ok digs sh v th"
  shows "cells_ok digs sh v th'"
proof -
  have w: "thr_work th' = thr_work th" "requests th \<le> requests th'" using assms(1) by (simp_all add: quiet_def)
  have "live th' p = live th p" for p using assms(1) by (simp add: quiet_def live_def)
  moreover have "\<not> creating th' p" "\<not> creating th p" for p
    using assms(1) unfolding quiet_def creating_def by (auto split: thread_pc.splits)
  ultimately have "cell_ok (thread_name digs sh (thr_work th)) th' p (cell_at v (thr_work th ! p))" if "p < length (thr_work th)" for p
    using cell_ok_kept [OF cells_okD [OF assms(2) that] w] by blast
  then show ?thesis using assms(1) w(1) unfolding quiet_def cells_ok_def by (auto split: thread_pc.splits)
qed

lemma cells_ok_own:
  assumes v: "vi < length v" "si < length (snd (v ! vi))" and q: "q < length (thr_work th)" "thr_work th ! q = (vi, si)"
    and di: "distinct (thr_work th)" and w: "thr_work th' = thr_work th" and ok: "cells_ok digs sh v th"
    and new: "cell_ok (thread_name digs sh (thr_work th)) th' q c"
    and kept: "requests th \<le> requests th'" "\<And>p. p \<noteq> q \<Longrightarrow> live th p \<longrightarrow> live th' p" "\<And>p. p \<noteq> q \<Longrightarrow> creating th p = creating th' p"
    and time: "case pc th' of Creating _ ti0 _ \<Rightarrow> ti0 \<noteq> 0 | _ \<Rightarrow> True"
  shows "cells_ok digs sh (put vi si c (put_index vi m v)) th'"
  unfolding cells_ok_def w
proof (intro conjI allI impI)
  fix p assume p: "p < length (thr_work th)"
  show "cell_ok (thread_name digs sh (thr_work th)) th' p (cell_at (put vi si c (put_index vi m v)) (thr_work th ! p))"
  proof (cases "p = q")
    case True
    then show ?thesis using new q(2) by (simp add: cell_at_put [OF v])
  next
    case False
    then have "thr_work th ! p \<noteq> (vi, si)" using di p q by (metis nth_eq_iff_index_eq)
    then show ?thesis using cell_ok_kept [OF cells_okD [OF ok p] w kept(1) kept(2,3) [OF False]]
      by (simp add: cell_at_put [OF v])
  qed
qed (rule time)

lemma work_position:
  assumes "(vi, si) = work_at th k" "thr_work th \<noteq> []"
  shows "k mod length (thr_work th) < length (thr_work th)" "thr_work th ! (k mod length (thr_work th)) = (vi, si)"
  using assms by (simp_all add: work_at_def)

lemma named_cells:
  assumes ok: "cells_ok digs sh v th" and th: "pc th = AtTop \<or> pc th = WaitingPeer plan0 t0" "distinct (thr_work th)"
    and ic: "in_creation digs sh th plan" and v: "cp_vn plan < length v" "cp_slot plan < length (snd (v ! cp_vn plan))"
    and t: "t \<noteq> 0" and ex: "exact v"
  shows "cells_ok digs sh (put (cp_vn plan) (cp_slot plan) (cp_name plan, None, 0) v) (th\<lparr>pc := Creating plan t full\<rparr>)"
    "exact (put (cp_vn plan) (cp_slot plan) (cp_name plan, None, 0) v)"
proof -
  let ?th' = "th\<lparr>pc := Creating plan t full\<rparr>" and ?q = "iCreate th mod length (thr_work th)"
  let ?w = "(cp_vn plan, cp_slot plan)"
  have rq: "requests th = iCreate th" "first_open th = iDelete th"
    using th(1) by (auto simp: requests_def first_open_def)
  have k: "iDelete th \<le> iCreate th" "iCreate th < iDelete th + length (thr_work th)" "?w = work_at th (iCreate th)"
    "cp_name plan = thread_name digs sh (thr_work th) (iCreate th)"
    using ic by (auto simp: in_creation_def)
  then have ne: "thr_work th \<noteq> []" by auto
  note q = work_position [OF k(3) ne]
  have lc: "\<And>p. live th p \<longrightarrow> live ?th' p" "live ?th' ?q" "creating ?th' ?q"
    using live_call [of ?th' plan t full th] rq k(1) by auto
  have "cell_ok (thread_name digs sh (thr_work th)) ?th' ?q (cp_name plan, None, 0)"
    unfolding k(4) by (rule cell_ok_named [OF lc(3,2)]) (simp_all add: requests_def)
  then show "cells_ok digs sh (put (cp_vn plan) (cp_slot plan) (cp_name plan, None, 0) v) ?th'"
    using lc(1) t th(1)
    by (subst put_without_index, intro cells_ok_own [OF v q th(2) _ ok]) (auto simp: requests_def creating_def)
  have "cell_natt (cell_at v ?w) = None"
    using cells_okD [OF ok q(1)] not_live_next [OF rq(2,1) k(2)] q(2) by (simp add: cell_ok_def)
  then show "exact (put (cp_vn plan) (cp_slot plan) (cp_name plan, None, 0) v)"
    using v by (intro exact_put_same [OF ex]) (simp_all add: cell_at_def natt_ip_def)
qed

lemma created_cells:
  assumes ok: "cells_ok digs sh v th" and th: "pc th = Creating plan ti0 full" "distinct (thr_work th)"
    and ic: "in_creation digs sh th plan" and v: "cp_vn plan < length v" "cp_slot plan < length (snd (v ! cp_vn plan))"
    and ex: "exact v" and x: "x = cell_at v (cp_vn plan, cp_slot plan)"
    and c: "c = ([], None, 0) \<and> cell_ip x = [] \<or> (\<exists>a. c = (cell_name x, Some a, ti0) \<and> cell_ip x = natt_IPv4 a)"
  shows "cells_ok digs sh (put (cp_vn plan) (cp_slot plan) c v) (th\<lparr>iCreate := iCreate th + 1, pc := AtTop\<rparr>)"
    "exact (put (cp_vn plan) (cp_slot plan) c v)"
proof -
  let ?th' = "th\<lparr>iCreate := iCreate th + 1, pc := AtTop\<rparr>" and ?q = "iCreate th mod length (thr_work th)"
  have k: "(cp_vn plan, cp_slot plan) = work_at th (iCreate th)" "thr_work th \<noteq> []"
    using ic by (auto simp: in_creation_def)
  note q = work_position [OF k]
  have ti0: "ti0 \<noteq> 0" using ok th(1) by (simp add: cells_ok_def)
  have lv: "live ?th' p = live th p" "requests ?th' = requests th" "creating th p \<longleftrightarrow> p = ?q" and nocr: "\<not> creating ?th' p" for p
    using th(1) by (auto simp: live_def requests_def first_open_def creating_def)
  have "cell_ok (thread_name digs sh (thr_work th)) th ?q x" using cells_okD [OF ok q(1)] q(2) x by simp
  then have "cell_ok (thread_name digs sh (thr_work th)) ?th' ?q c"
    using c ti0 lv nocr by (auto simp: cell_ok_def)
  then show "cells_ok digs sh (put (cp_vn plan) (cp_slot plan) c v) ?th'"
    using lv nocr by (subst put_without_index, intro cells_ok_own [OF v q th(2) _ ok]) auto
  show "exact (put (cp_vn plan) (cp_slot plan) c v)"
    using c x by (intro exact_put_same [OF ex v]) (auto simp: cell_at_def natt_ip_def)
qed

lemma closed_cells:
  assumes ok: "cells_ok digs sh v th" and th: "pc th = AtTop" "distinct (thr_work th)" "thr_work th \<noteq> []"
    and w: "(vi, si) = work_at th (iDelete th)" and v: "vi < length v" "si < length (snd (v ! vi))"
    and ex: "exact v" "names_apart (snd (v ! vi))" and x: "x = cell_at v (vi, si)"
    and m: "m = new_index (if cell_pre x = 0 then [] else cell_ip x) [] (cell_name x) (owners (snd (v ! vi)))"
  shows "cells_ok digs sh (put vi si ([], None, 0) (put_index vi m v)) (th\<lparr>createAllowed := c, pc := Deleting vi si natt\<rparr>)"
    "exact (put vi si ([], None, 0) (put_index vi m v))"
proof -
  let ?th' = "th\<lparr>createAllowed := c, pc := Deleting vi si natt\<rparr>"
  note q = work_position [OF w th(3)]
  have nocr: "\<not> creating th p" "\<not> creating ?th' p" for p using th(1) by (simp_all add: creating_def)
  then show "cells_ok digs sh (put vi si ([], None, 0) (put_index vi m v)) ?th'"
    using live_close [OF refl th(1)] th(1)
    by (intro cells_ok_own [OF v q th(2) _ ok]) (auto simp: requests_def intro!: cell_ok_closed)
  have x_ok: "cell_ok (thread_name digs sh (thr_work th)) th (iDelete th mod length (thr_work th)) x"
    using cells_okD [OF ok q(1)] q(2) x by simp
  have x': "snd (v ! vi) ! si = x" using x by (simp add: cell_at_def)
  have empty: "cell_ip ([], None, 0) = []" by (simp add: natt_ip_def)
  have "m = index_of (owners ((snd (v ! vi))[si := ([], None, 0)]))"
  proof (cases "cell_name x = []")
    case True
    then have "cell_ip x = []" using x_ok by (auto simp: cell_ok_def natt_ip_def)
    then show ?thesis using owners_same [OF v(2), of "([], None, 0)"] x' empty m by (simp add: new_index_def)
  next
    case False
    then have "cell_pre x \<noteq> 0" using x_ok nocr by (simp add: cell_ok_def)
    then show ?thesis using owners_moved [OF v(2) ex(2), of "([], None, 0)"] False x' empty m by simp
  qed
  then show "exact (put vi si ([], None, 0) (put_index vi m v))" by (intro exact_put [OF ex(1)])
qed

lemma notified_cells:
  assumes ok: "cells_ok digs sh v th" "distinct (thr_work th)" and v: "vi < length v" "si < length (snd (v ! vi))"
    and x: "x = cell_at v (vi, si)" "cell_name x \<noteq> []"
  shows "cells_ok digs sh (put vi si (cell_name x, Some a, cell_pre x) (put_index vi m v)) th"
proof (cases "(vi, si) \<in> set (thr_work th)")
  case True
  then obtain q where q: "q < length (thr_work th)" "thr_work th ! q = (vi, si)" by (auto simp: in_set_conv_nth)
  have "cell_ok (thread_name digs sh (thr_work th)) th q (cell_name x, Some a, cell_pre x)"
    using cells_okD [OF ok(1) q(1)] q(2) x by (intro cell_ok_natt) auto
  then show ?thesis using ok(1)
    by (intro cells_ok_own [OF v q ok(2) refl ok(1)]) (auto simp: cells_ok_def)
next
  case False
  then show ?thesis by (rule cells_ok_other [OF ok(1) _ v])
qed

lemma exact_notified:
  assumes v: "vi < length v" "si < length (snd (v ! vi))" and ex: "exact v" "names_apart (snd (v ! vi))"
    and x: "x = cell_at v (vi, si)" "cell_name x \<noteq> []"
    and m: "m = new_index (cell_ip x) (natt_IPv4 a) (cell_name x) (owners (snd (v ! vi)))"
  shows "exact (put vi si (cell_name x, Some a, cell_pre x) (put_index vi m v))"
proof -
  have x': "snd (v ! vi) ! si = x" using x(1) by (simp add: cell_at_def)
  then have "m = index_of (owners ((snd (v ! vi))[si := (cell_name x, Some a, cell_pre x)]))"
    using owners_moved [OF v(2) ex(2), of "(cell_name x, Some a, cell_pre x)"] x(2) m by (simp add: natt_ip_def)
  then show ?thesis by (intro exact_put [OF ex(1)])
qed

lemma attachment_OnAdd_view:
  assumes "attachment_OnAdd fl now a d = Inr d'" "driver_wf d" "exact (view d)"
  obtains "view d' = view d"
  | vi si x where "vi < length (view d)" "si < length (snd (view d ! vi))" "x = cell_at (view d) (vi, si)"
    "cell_name x = natt_Name a" "view d' = put vi si (cell_name x, Some a, cell_pre x) (put_index vi
       (new_index (cell_ip x) (natt_IPv4 a) (cell_name x) (owners (snd (view d ! vi)))) (view d))"
proof -
  have "d' = d \<or> (\<exists>vi si vn g. subnetToVirtNet d (Subnet_name (att_Spec a)) = Some vi \<and>
      observeState fl now si a (virtNets d ! vi) (globals d) = Inr (vn, g) \<and> d' = set_vn vi vn (d\<lparr>globals := g\<rparr>))"
    using assms(1) by (auto simp: attachment_OnAdd_def split: option.splits if_splits sum.splits)
  then show ?thesis
  proof (elim disjE exE conjE)
    fix vi si vn g
    assume sv: "subnetToVirtNet d (Subnet_name (att_Spec a)) = Some vi"
      and ob: "observeState fl now si a (virtNets d ! vi) (globals d) = Inr (vn, g)" and d': "d' = set_vn vi vn (d\<lparr>globals := g\<rparr>)"
    have vi: "vi < length (virtNets d)" using sv assms(2) by (simp add: driver_wf_def)
    have own: "addrs (virtNets d ! vi) = index_of (owners (snd (view d ! vi)))"
      using exact_nth [OF assms(3), of vi] vi by (simp add: view_def vn_view_def)
    show ?thesis
    proof (rule observeState_view [OF ob own])
      assume "vn_view vn = vn_view (virtNets d ! vi)"
      then show ?thesis using that(1) d' view_set_same [of vi "d\<lparr>globals := g\<rparr>" vn] vi by simp
    next
      fix c assume c: "si < length (slots (virtNets d ! vi))" "c = cell (slots (virtNets d ! vi) ! si)" "cell_name c = natt_Name a"
        and vv: "vn_view vn = (new_index (cell_ip c) (natt_IPv4 a) (cell_name c) (owners (snd (view d ! vi))),
          (map cell (slots (virtNets d ! vi)))[si := (cell_name c, Some a, cell_pre c)])"
      have "view d' = put vi si (cell_name c, Some a, cell_pre c) (put_index vi
          (new_index (cell_ip c) (natt_IPv4 a) (cell_name c) (owners (snd (view d ! vi)))) (view d))"
        unfolding d' using vi vv by (simp add: view_set_vn put_def put_index_def view_nth vn_view_def) (simp add: view_def)
      then show ?thesis using that(2) [of vi si c] c vi by (simp add: cell_at_def view_nth vn_view_def) (simp add: view_def)
    qed
  qed (use that(1) in simp)
qed

section \<open>All threads in calm runs\<close>

definition calm_ok :: "thread_params \<Rightarrow> nat \<Rightarrow> drv_state \<Rightarrow> bool" where
  "calm_ok tp num s \<longleftrightarrow> drv_safe tp s \<and>
     (case s of (ths, d) \<Rightarrow>
        exact (view d) \<and> (\<forall>th\<in>set ths. cells_ok (tp_digits tp) (shape d) (view d) th \<and> thr_n th \<le> num) \<and>
        places_ok num (shape d) (map thr_work ths) \<and>
        (\<forall>vi<length (shape d). \<forall>si<length (sh_next (shape d) vi). (vi, si) \<in> set (concat (map thr_work ths))) \<and>
        (\<forall>vi<length (shape d). idToVirtNet d (sh_id (shape d) vi) = Some vi))"

lemma cell_name_place:
  assumes "calm_ok tp num (ths, d)" "vi < length (view d)" "si < length (snd (view d ! vi))" "cell_name (cell_at (view d) (vi, si)) \<noteq> []"
  obtains t k where "t < length ths" "k < num" "thr_work (ths ! t) ! (k mod length (thr_work (ths ! t))) = (vi, si)"
    "cell_name (cell_at (view d) (vi, si)) = place_name (tp_digits tp) (shape d) (map thr_work ths) (t, k)"
proof -
  have vs: "vi < length (shape d)" "si < length (sh_next (shape d) vi)"
    using assms(2,3) by (simp_all add: view_def shape_def vn_view_def vn_shape_def)
  then have "(vi, si) \<in> set (concat (map thr_work ths))" using assms(1) unfolding calm_ok_def by fast
  then obtain t p where t: "t < length ths" "p < length (thr_work (ths ! t))" "thr_work (ths ! t) ! p = (vi, si)"
    by (auto simp: in_set_conv_nth)
  have th: "ths ! t \<in> set ths" using t(1) by simp
  then have ok: "cells_ok (tp_digits tp) (shape d) (view d) (ths ! t)" "thr_n (ths ! t) \<le> num"
    using assms(1) unfolding calm_ok_def by blast+
  obtain k where k: "k < requests (ths ! t)" "k mod length (thr_work (ths ! t)) = p"
      "cell_name (cell_at (view d) (vi, si)) = thread_name (tp_digits tp) (shape d) (thr_work (ths ! t)) k"
    using cells_okD [OF ok(1) t(2)] t(3) assms(4) unfolding cell_ok_def by auto
  have "requests (ths ! t) \<le> thr_n (ths ! t)"
    using assms(1) th thread_ok_requests unfolding calm_ok_def drv_safe_def drv_ok_def by blast
  then show ?thesis using that [of t k] t k ok(2) by (simp add: place_name_def)
qed

lemma calm_names_apart:
  assumes ok: "calm_ok tp num (ths, d)" and vi: "vi < length (view d)"
  shows "names_apart (snd (view d ! vi))"
  unfolding names_apart_def
proof (intro allI impI, rule ccontr)
  let ?cs = "snd (view d ! vi)"
  fix i j assume i: "i < length ?cs" and j: "j < length ?cs" and ij: "i \<noteq> j"
    and nm: "cell_name (?cs ! i) = cell_name (?cs ! j)" "cell_name (?cs ! i) \<noteq> []"
  then have at: "cell_name (cell_at (view d) (vi, i)) = cell_name (cell_at (view d) (vi, j))"
    "cell_name (cell_at (view d) (vi, i)) \<noteq> []" "cell_name (cell_at (view d) (vi, j)) \<noteq> []"
    by (simp_all add: cell_at_def)
  obtain t k where t: "t < length ths" "k < num" "thr_work (ths ! t) ! (k mod length (thr_work (ths ! t))) = (vi, i)"
    "cell_name (cell_at (view d) (vi, i)) = place_name (tp_digits tp) (shape d) (map thr_work ths) (t, k)"
    using cell_name_place [OF ok vi i at(2)] .
  obtain u l where u: "u < length ths" "l < num" "thr_work (ths ! u) ! (l mod length (thr_work (ths ! u))) = (vi, j)"
    "cell_name (cell_at (view d) (vi, j)) = place_name (tp_digits tp) (shape d) (map thr_work ths) (u, l)"
    using cell_name_place [OF ok vi j at(3)] .
  have "places_ok num (shape d) (map thr_work ths)" using ok by (simp add: calm_ok_def)
  then have "(t, k) = (u, l)" using place_name_inj t u at(1) by (metis length_map)
  then show False using t(3) u(3) ij by simp
qed

text \<open>What all steps leave alone.\<close>

lemma idToVirtNet_set_vn [simp]: "idToVirtNet (set_vn vi vn d) = idToVirtNet d"
  by (simp add: set_vn_def)

lemma idToVirtNet_reset_slot [simp]: "idToVirtNet (reset_slot vi si d) = idToVirtNet d"
  by (simp add: reset_slot_def)

lemma close_ids: "close fl vi si d = Inr (natt, d') \<Longrightarrow> idToVirtNet d' = idToVirtNet d"
  by (auto simp: close_def Let_def split: if_splits option.splits prod.splits)

lemma create_call_ids: "create_call tp plan now ts th d = Inr (th', d') \<Longrightarrow> idToVirtNet d' = idToVirtNet d"
  by (auto simp: create_call_def Let_def split: if_splits option.splits sum.splits prod.splits)

lemma create_begin_ids: "create_begin tp intn now ts th d = Inr (th', d') \<Longrightarrow> idToVirtNet d' = idToVirtNet d"
  by (auto simp: create_begin_def Let_def dest!: create_call_ids split: if_splits option.splits sum.splits prod.splits)

lemma create_resume_ids: "create_resume tp now ts plan tLimit th d = Inr (th', d') \<Longrightarrow> idToVirtNet d' = idToVirtNet d"
  by (auto simp: create_resume_def Let_def dest!: create_call_ids split: if_splits option.splits prod.splits)

lemma create_end_ids: "create_end tp plan ti0 full tif reply th d = (th', d') \<Longrightarrow> idToVirtNet d' = idToVirtNet d"
  by (auto simp: create_end_def Let_def split: sum.splits prod.splits)

lemma delete_end_ids: "delete_end tp attempts vi si natt th d = Some (th', d') \<Longrightarrow> idToVirtNet d' = idToVirtNet d"
  by (auto simp: delete_end_def Let_def split: option.splits)

lemma delete_begin_ids: "delete_begin tp th d = Inr (th', d') \<Longrightarrow> idToVirtNet d' = idToVirtNet d"
  by (auto simp: delete_begin_def dest!: close_ids split: sum.splits prod.splits)

lemma loop_top_ids: "loop_top tp stopped intn now ts th d = Inr (th', d') \<Longrightarrow> idToVirtNet d' = idToVirtNet d"
  using loop_top_cases [of tp stopped intn now ts th d th' d'] create_begin_ids delete_begin_ids by blast

lemma attachment_OnAdd_ids: "attachment_OnAdd fl now natt d = Inr d' \<Longrightarrow> idToVirtNet d' = idToVirtNet d"
  by (auto simp: attachment_OnAdd_def split: option.splits if_splits sum.splits)

lemma drv_step_ids:
  assumes "drv_step tp s s'"
  shows "idToVirtNet (snd s') = idToVirtNet (snd s)"
  using assms by (cases rule: drv_step.cases)
    (auto dest: loop_top_ids create_resume_ids create_end_ids delete_end_ids attachment_OnAdd_ids
      simp: subnet_OnAdd_def split: option.splits)

lemma drv_step_thread_name:
  assumes "drv_step tp (ths, d) (ths', d')" "drv_ok (tp_digits tp) (ths, d)"
  shows "thread_name digs (shape d') = thread_name digs (shape d)"
  using drv_step_simulated [OF assms]
proof (elim disjE exE conjE)
  fix t th' assume "thread_step (tp_digits tp) (ths ! t, shape d, requested (globals d)) (th', shape d', requested (globals d'))"
  then show ?thesis by (cases rule: thread_step.cases) simp_all
qed simp

lemma sh_static_nth:
  assumes "sh_static sh' = sh_static sh"
  shows "length sh' = length sh" "map fst sh' = map fst sh"
    and "vi < length sh \<Longrightarrow> sh_id sh' vi = sh_id sh vi \<and> sh_size sh' vi = sh_size sh vi \<and> length (sh_next sh' vi) = length (sh_next sh vi)"
proof -
  show len: "length sh' = length sh" using assms by (metis length_map sh_static_def)
  have nth: "fst (sh' ! vi) = fst (sh ! vi) \<and> fst (snd (sh' ! vi)) = fst (snd (sh ! vi)) \<and>
      length (snd (snd (sh' ! vi))) = length (snd (snd (sh ! vi)))" if "vi < length sh" for vi
    using arg_cong [OF assms, of "\<lambda>xs. xs ! vi"] that len
    by (cases "sh ! vi", cases "sh' ! vi") (simp add: sh_static_def)
  then show "map fst sh' = map fst sh" using len by (intro nth_equalityI) simp_all
  show "vi < length sh \<Longrightarrow> sh_id sh' vi = sh_id sh vi \<and> sh_size sh' vi = sh_size sh vi \<and> length (sh_next sh' vi) = length (sh_next sh vi)"
    using nth by simp
qed

lemma places_ok_static:
  assumes "sh_static sh' = sh_static sh"
  shows "places_ok num sh' works = places_ok num sh works"
proof -
  have "(vi < length sh \<and> si < sh_size sh' vi) = (vi < length sh \<and> si < sh_size sh vi)"
    "(vi < length sh \<longrightarrow> sh_size sh' vi * num < 2 ^ 32) = (vi < length sh \<longrightarrow> sh_size sh vi * num < 2 ^ 32)" for vi si
    using sh_static_nth(3) [OF assms, of vi] by auto
  then show ?thesis unfolding places_ok_def sh_static_nth(1,2) [OF assms] by simp
qed

text \<open>What is left to show for a calm step.\<close>

lemma calm_okI:
  assumes ok: "calm_ok tp num (ths, d)" and st: "drv_step tp (ths, d) (ths', d')" "nodes_ok tp"
    and ex: "exact (view d')" and cells: "\<forall>th\<in>set ths'. cells_ok (tp_digits tp) (shape d) (view d') th"
  shows "calm_ok tp num (ths', d')"
proof -
  have safe: "drv_safe tp (ths, d)" "drv_ok (tp_digits tp) (ths, d)" using ok by (simp_all add: calm_ok_def drv_safe_def)
  note kept = drv_step_ok(2-4) [OF st(1) safe(2), simplified]
  note sh = sh_static_nth [OF kept(3)]
  have "cells_ok (tp_digits tp) (shape d') (view d') th" if "th \<in> set ths'" for th
    using cells that unfolding cells_ok_def drv_step_thread_name [OF st(1) safe(2)] by blast
  moreover have "thr_n th \<le> num" if "th \<in> set ths'" for th
  proof -
    have "thr_n th \<in> set (map thr_n ths)" using that kept(2) by (metis image_eqI list.set_map)
    then show ?thesis using ok by (auto simp: calm_ok_def)
  qed
  moreover have "drv_safe tp (ths', d')" by (rule drv_step_safe [OF st(1) safe(1) st(2)])
  moreover have "places_ok num (shape d') (map thr_work ths')"
    using ok kept(1) places_ok_static [OF kept(3)] by (simp add: calm_ok_def)
  moreover have "\<forall>vi<length (shape d). \<forall>si<length (sh_next (shape d) vi). (vi, si) \<in> set (concat (map thr_work ths'))"
    using ok unfolding calm_ok_def kept(1) by blast
  ultimately show ?thesis
    using ok ex sh(1,3) drv_step_ids [OF st(1)] unfolding calm_ok_def by (simp del: set_concat)
qed

lemma calm_thread:
  assumes "calm_ok tp num (ths, d)" "t < length ths"
  shows "thread_ok (tp_digits tp) (shape d) (ths ! t)" "thr_work (ths ! t) \<noteq> []" "distinct (thr_work (ths ! t))"
    "cells_ok (tp_digits tp) (shape d) (view d) (ths ! t)" "exact (view d)" "driver_wf d" "drv_ok (tp_digits tp) (ths, d)"
    "\<forall>vi<length (virtNets d). idToVirtNet d (vn_ID (virtNets d ! vi)) = Some vi"
proof -
  have safe: "drv_safe tp (ths, d)" using assms(1) by (simp add: calm_ok_def)
  note th = drv_safe_thread [OF safe assms(2)]
  show "thread_ok (tp_digits tp) (shape d) (ths ! t)" "thr_work (ths ! t) \<noteq> []" "driver_wf d" by (rule th)+
  show "distinct (thr_work (ths ! t))" using th(1) by (simp add: thread_ok_def)
  show "cells_ok (tp_digits tp) (shape d) (view d) (ths ! t)" "exact (view d)" using assms by (simp_all add: calm_ok_def)
  show "drv_ok (tp_digits tp) (ths, d)" using safe by (simp add: drv_safe_def)
  show "\<forall>vi<length (virtNets d). idToVirtNet d (vn_ID (virtNets d ! vi)) = Some vi"
    using assms(1) by (auto simp: calm_ok_def shape_def vn_shape_def)
qed

text \<open>The other threads, when one thread works on a slot of its own.\<close>

lemma calm_others:
  assumes ok: "calm_ok tp num (ths, d)" and t: "t < length ths" and w: "(vi, si) \<in> set (thr_work (ths ! t))"
    and own: "cells_ok (tp_digits tp) (shape d) (put vi si c (put_index vi m (view d))) th'"
  shows "\<forall>th\<in>set (ths[t := th']). cells_ok (tp_digits tp) (shape d) (put vi si c (put_index vi m (view d))) th"
proof -
  have "cells_ok (tp_digits tp) (shape d) (put vi si c (put_index vi m (view d))) (ths[t := th'] ! u)" if u: "u < length ths" for u
  proof (cases "u = t")
    case False
    have "distinct (concat (map thr_work ths))" using calm_thread(7) [OF ok t] by (simp add: drv_ok_def)
    then have "(vi, si) \<notin> set (thr_work (ths ! u))" using distinct_concat_disjoint [OF _ u t] False w by blast
    moreover obtain k where "(vi, si) = work_at (ths ! t) k"
      using w by (metis in_set_conv_nth mod_less work_at_def)
    then have "vi < length (view d)" "si < length (snd (view d ! vi))"
      using thread_slot [OF calm_thread(1) [OF ok t] _ calm_thread(2) [OF ok t]] by (auto simp: view_nth vn_view_def) (simp add: view_def)
    ultimately show ?thesis using cells_ok_other [OF calm_thread(4) [OF ok u]] False by simp
  qed (use own t in simp)
  then show ?thesis by (simp add: all_set_conv_all_nth)
qed

lemma work_cell:
  assumes "calm_ok tp num (ths, d)" "t < length ths" "(vi, si) = work_at (ths ! t) k"
  shows "(vi, si) \<in> set (thr_work (ths ! t))" "vi < length (virtNets d)" "si < length (slots (virtNets d ! vi))"
    "vi < length (view d)" "si < length (snd (view d ! vi))"
proof -
  show "(vi, si) \<in> set (thr_work (ths ! t))"
    by (rule work_in_shape(1) [OF calm_thread(1) [OF assms(1,2)] assms(3) calm_thread(2) [OF assms(1,2)]])
  show v: "vi < length (virtNets d)" "si < length (slots (virtNets d ! vi))"
    by (rule thread_slot [OF calm_thread(1) [OF assms(1,2)] assms(3) calm_thread(2) [OF assms(1,2)]])+
  then show "vi < length (view d)" "si < length (snd (view d ! vi))" by (simp_all add: view_nth vn_view_def) (simp add: view_def)
qed

lemma calm_named:
  assumes ok: "calm_ok tp num (ths, d)" and t: "t < length ths" "pc (ths ! t) = AtTop \<or> pc (ths ! t) = WaitingPeer plan0 t0"
    and ic: "in_creation (tp_digits tp) (shape d) (ths ! t) plan" and now: "now \<noteq> 0"
    and th': "th' = (ths ! t)\<lparr>pc := Creating plan now full\<rparr>"
    and v: "view d' = put (cp_vn plan) (cp_slot plan) (cp_name plan, None, 0) (view d)"
  shows "exact (view d')" "\<forall>th\<in>set (ths[t := th']). cells_ok (tp_digits tp) (shape d) (view d') th"
proof -
  have "(cp_vn plan, cp_slot plan) = work_at (ths ! t) (iCreate (ths ! t))" using ic by (simp add: in_creation_def)
  note c = work_cell [OF ok t(1) this]
  note named = named_cells [OF calm_thread(4) [OF ok t(1)] t(2) calm_thread(3) [OF ok t(1)] ic c(4,5) now calm_thread(5) [OF ok t(1)]]
  show "exact (view d')" using named(2) v by simp
  show "\<forall>th\<in>set (ths[t := th']). cells_ok (tp_digits tp) (shape d) (view d') th"
    using named(1) calm_others [OF ok t(1) c(1)] th' v by (metis put_without_index)
qed

lemma calm_created:
  assumes ok: "calm_ok tp num (ths, d)" and t: "t < length ths" "pc (ths ! t) = Creating plan ti0 full"
    and e: "create_end tp plan ti0 full tif reply (ths ! t) d = (th', d')"
    and calm: "natt_ip (slot_natt (slots (virtNets d ! cp_vn plan) ! cp_slot plan)) = (case reply of Inl _ \<Rightarrow> [] | Inr a \<Rightarrow> natt_IPv4 a)"
  shows "exact (view d')" "\<forall>th\<in>set (ths[t := th']). cells_ok (tp_digits tp) (shape d) (view d') th"
proof -
  have ic: "in_creation (tp_digits tp) (shape d) (ths ! t) plan"
    using calm_thread(1) [OF ok t(1)] t(2) by (simp add: thread_ok_def pc_ok_def)
  then have "(cp_vn plan, cp_slot plan) = work_at (ths ! t) (iCreate (ths ! t))" by (simp add: in_creation_def)
  note c = work_cell [OF ok t(1) this]
  define x where "x = cell_at (view d) (cp_vn plan, cp_slot plan)"
  define y where "y = (case reply of Inl _ \<Rightarrow> ([], None, 0) | Inr a \<Rightarrow> (cell_name x, Some a, ti0))"
  have v: "view d' = put (cp_vn plan) (cp_slot plan) y (view d)"
    using create_end_view [OF e c(2,3)] by (cases reply) (simp_all add: x_def y_def cell_at_def)
  have "cell_ip x = (case reply of Inl _ \<Rightarrow> [] | Inr a \<Rightarrow> natt_IPv4 a)"
    using calm c(2,3) by (simp add: x_def cell_at_def view_nth vn_view_def cell_def)
  then have y: "y = ([], None, 0) \<and> cell_ip x = [] \<or> (\<exists>a. y = (cell_name x, Some a, ti0) \<and> cell_ip x = natt_IPv4 a)"
    by (cases reply) (simp_all add: y_def)
  have th': "th' = (ths ! t)\<lparr>iCreate := iCreate (ths ! t) + 1, pc := AtTop\<rparr>"
    using e by (auto simp: create_end_def Let_def split: prod.splits)
  note cr = created_cells [OF calm_thread(4) [OF ok t(1)] t(2) calm_thread(3) [OF ok t(1)] ic c(4,5) calm_thread(5) [OF ok t(1)] x_def y]
  show "exact (view d')" using cr(2) v by simp
  show "\<forall>th\<in>set (ths[t := th']). cells_ok (tp_digits tp) (shape d) (view d') th"
    using cr(1) calm_others [OF ok t(1) c(1)] th' v by (metis put_without_index)
qed

lemma calm_loop_top:
  assumes ok: "calm_ok tp num (ths, d)" and t: "t < length ths" "pc (ths ! t) = AtTop" and now: "now \<noteq> 0"
    and e: "loop_top tp stopped intn now ts (ths ! t) d = Inr (th', d')"
    and nice: "drv_ok (tp_digits tp) (ths[t := th'], d')" "shape d' = shape d"
  shows "exact (view d')" "\<forall>th\<in>set (ths[t := th']). cells_ok (tp_digits tp) (shape d) (view d') th"
proof -
  let ?th = "ths ! t" and ?digs = "tp_digits tp"
  note th = calm_thread [OF ok t(1)]
  consider (quiet) "quiet ?th th'" "view d' = view d"
    | (named) plan full where "th' = ?th\<lparr>pc := Creating plan now full\<rparr>"
        "view d' = put (cp_vn plan) (cp_slot plan) (cp_name plan, None, 0) (view d)"
    | (closed) c vi si natt where "th' = ?th\<lparr>createAllowed := c, pc := Deleting vi si natt\<rparr>" "(vi, si) = work_at ?th (iDelete ?th)"
        "let x = cell_at (view d) (vi, si) in view d' = put vi si ([], None, 0) (put_index vi
          (new_index (if cell_pre x = 0 then [] else cell_ip x) [] (cell_name x) (owners (snd (view d ! vi)))) (view d))"
    using loop_top_view [OF e t(2) th(1,2,8,5)] by blast
  then have "exact (view d') \<and> (\<forall>th\<in>set (ths[t := th']). cells_ok ?digs (shape d) (view d') th)"
  proof cases
    case quiet
    have "\<forall>th\<in>set ths. cells_ok ?digs (shape d) (view d) th" using ok by (simp add: calm_ok_def)
    then show ?thesis using quiet th(4,5) cells_ok_quiet by (metis insertE set_update_subset_insert subsetD)
  next
    case named
    have "thread_ok ?digs (shape d) th'" using nice t(1) by (simp add: drv_ok_def set_update_memI)
    then have "in_creation ?digs (shape d) ?th plan" using named(1) by (simp add: thread_ok_def pc_ok_def in_creation_def work_at_def)
    then show ?thesis using calm_named [OF ok t(1) disjI1 [OF t(2)] _ now named] by blast
  next
    case closed
    note c = work_cell [OF ok t(1) closed(2)]
    note cl = closed_cells [OF th(4) t(2) th(3,2) closed(2) c(4,5) th(5) calm_names_apart [OF ok c(4)] refl refl]
    show ?thesis using cl calm_others [OF ok t(1) c(1) cl(1)] closed(1,3) unfolding Let_def by metis
  qed
  then show "exact (view d')" "\<forall>th\<in>set (ths[t := th']). cells_ok ?digs (shape d) (view d') th" by blast+
qed

lemma calm_resume:
  assumes ok: "calm_ok tp num (ths, d)" and t: "t < length ths" "pc (ths ! t) = WaitingPeer plan tLimit" and now: "now \<noteq> 0"
    and e: "create_resume tp now ts plan tLimit (ths ! t) d = Inr (th', d')"
  shows "exact (view d')" "\<forall>th\<in>set (ths[t := th']). cells_ok (tp_digits tp) (shape d) (view d') th"
proof -
  let ?vi = "cp_vn plan" and ?th = "ths ! t"
  have ic: "in_creation (tp_digits tp) (shape d) ?th plan"
    using calm_thread(1) [OF ok t(1)] t(2) by (simp add: thread_ok_def pc_ok_def)
  then have "(?vi, cp_slot plan) = work_at ?th (iCreate ?th)" by (simp add: in_creation_def)
  note c = work_cell [OF ok t(1) this]
  have "th' = ?th \<and> d' = d \<or> (\<exists>cd g. create_call tp plan now ts ?th
      (set_vn ?vi ((virtNets d ! ?vi)\<lparr>theCD := cd\<rparr>) (d\<lparr>globals := g\<rparr>)) = Inr (th', d'))"
    using e by (auto simp: create_resume_def Let_def split: option.splits if_splits prod.splits)
  then have "exact (view d') \<and> (\<forall>th\<in>set (ths[t := th']). cells_ok (tp_digits tp) (shape d) (view d') th)"
  proof (elim disjE exE)
    fix cd g assume cc: "create_call tp plan now ts ?th (set_vn ?vi ((virtNets d ! ?vi)\<lparr>theCD := cd\<rparr>) (d\<lparr>globals := g\<rparr>)) = Inr (th', d')"
    let ?d1 = "set_vn ?vi ((virtNets d ! ?vi)\<lparr>theCD := cd\<rparr>) (d\<lparr>globals := g\<rparr>)"
    have "view ?d1 = view d" "?vi < length (virtNets ?d1)"
      using view_set_same [of ?vi "d\<lparr>globals := g\<rparr>" "(virtNets d ! ?vi)\<lparr>theCD := cd\<rparr>"] c(2) by (simp_all add: set_vn_def)
    then have v: "view d' = put ?vi (cp_slot plan) (cp_name plan, None, 0) (view d)"
      and "\<exists>full. th' = ?th\<lparr>pc := Creating plan now full\<rparr>" using create_call_view [OF cc] by simp_all
    then show ?thesis using calm_named [OF ok t(1) disjI2 [OF t(2)] ic now _ v] by blast
  qed (use ok t(1) in \<open>auto simp: calm_ok_def\<close>)
  then show "exact (view d')" "\<forall>th\<in>set (ths[t := th']). cells_ok (tp_digits tp) (shape d) (view d') th" by blast+
qed

lemma loop_top_shape:
  assumes "loop_top tp stopped intn now ts th d = Inr (th', d')" "pc th = AtTop"
  shows "shape d' = shape d"
  using loop_top_simulated [OF assms] by (cases rule: thread_step.cases) (use assms(2) in simp_all)

lemma calm_deleted:
  assumes ok: "calm_ok tp num (ths, d)" and t: "t < length ths" "pc (ths ! t) = Deleting vi si natt"
    and e: "delete_end tp attempts vi si natt (ths ! t) d = Some (th', d')"
  shows "exact (view d')" "\<forall>th\<in>set (ths[t := th']). cells_ok (tp_digits tp) (shape d) (view d') th"
proof -
  have "(vi, si) = work_at (ths ! t) (iDelete (ths ! t))"
    using calm_thread(1) [OF ok t(1)] t(2) by (simp add: thread_ok_def pc_ok_def)
  note c = work_cell [OF ok t(1) this]
  have v: "view d' = view d" by (rule delete_end_view [OF e c(2,3)])
  have th': "th' = (ths ! t)\<lparr>iDelete := iDelete (ths ! t) + 1, pc := AtTop\<rparr>"
    using e by (auto simp: delete_end_def Let_def split: option.splits)
  then have "quiet (ths ! t) th'" using t(2) by (simp add: quiet_def first_open_def requests_def creating_def)
  then have "cells_ok (tp_digits tp) (shape d) (view d') th'"
    using cells_ok_quiet calm_thread(4) [OF ok t(1)] v by simp
  moreover have "\<forall>th\<in>set ths. cells_ok (tp_digits tp) (shape d) (view d') th" using ok v by (simp add: calm_ok_def)
  ultimately show "\<forall>th\<in>set (ths[t := th']). cells_ok (tp_digits tp) (shape d) (view d') th"
    by (metis insertE set_update_subset_insert subsetD)
  show "exact (view d')" using calm_thread(5) [OF ok t(1)] v by simp
qed

lemma calm_notified:
  assumes ok: "calm_ok tp num (ths, d)" and a: "natt_Name a \<noteq> []" and e: "attachment_OnAdd fl now a d = Inr d'"
  shows "exact (view d') \<and> (\<forall>th\<in>set ths. cells_ok (tp_digits tp) (shape d) (view d') th)"
proof -
  have wf: "driver_wf d" "exact (view d)" and cells: "\<forall>th\<in>set ths. cells_ok (tp_digits tp) (shape d) (view d) th \<and> distinct (thr_work th)"
    using ok by (auto simp: calm_ok_def drv_safe_def drv_ok_def thread_ok_def)
  show ?thesis
  proof (rule attachment_OnAdd_view [OF e wf])
    assume "view d' = view d"
    then show ?thesis using wf(2) cells by simp
  next
    fix vi si x
    assume v: "vi < length (view d)" "si < length (snd (view d ! vi))" and x: "x = cell_at (view d) (vi, si)" "cell_name x = natt_Name a"
      and v': "view d' = put vi si (cell_name x, Some a, cell_pre x) (put_index vi
        (new_index (cell_ip x) (natt_IPv4 a) (cell_name x) (owners (snd (view d ! vi)))) (view d))"
    have ne: "cell_name x \<noteq> []" using x(2) a by simp
    have "exact (view d')" unfolding v' by (rule exact_notified [OF v wf(2) calm_names_apart [OF ok v(1)] x(1) ne refl])
    moreover have "cells_ok (tp_digits tp) (shape d) (view d') th" if "th \<in> set ths" for th
      unfolding v' using notified_cells [OF _ _ v x(1) ne] cells that by blast
    ultimately show ?thesis by blast
  qed
qed

lemma calm_step_ok:
  assumes "calm_step tp s s'" "calm_ok tp num s" "nodes_ok tp"
  shows "calm_ok tp num s'"
proof -
  obtain ths d ths' d' where s: "s = (ths, d)" "s' = (ths', d')" by (cases s, cases s')
  note st = calm_drv_step [OF assms(1)]
  note ok = assms(2) [unfolded s]
  have drv: "drv_ok (tp_digits tp) s'" using drv_step_ok(1) [OF st] assms(2) by (simp add: calm_ok_def drv_safe_def)
  have "exact (view d') \<and> (\<forall>th\<in>set ths'. cells_ok (tp_digits tp) (shape d) (view d') th)"
    using assms(1) unfolding s
  proof (cases rule: calm_step.cases)
    case (Top t intn now stopped ts th')
    then show ?thesis using calm_loop_top [OF ok Top(2,3,5,6)] drv s loop_top_shape [OF Top(6,3)] by simp
  next
    case (Resume t plan tLimit now ts th')
    then show ?thesis using calm_resume [OF ok] by blast
  next
    case (Created t plan ti0 full reply tif th')
    then show ?thesis using calm_created [OF ok] by blast
  next
    case (Deleted t vi si natt attempts th')
    then show ?thesis using calm_deleted [OF ok] by blast
  next
    case (Notified natt now)
    then show ?thesis using calm_notified [OF ok] by blast
  next
    case (Subnet_notified subnet)
    then have "view d' = view d" by (simp add: subnet_OnAdd_def split: option.splits)
    then show ?thesis using Subnet_notified ok by (simp add: calm_ok_def)
  qed
  then show ?thesis unfolding s using calm_okI [OF ok st [unfolded s] assms(3)] by blast
qed

lemma calm_steps_ok:
  assumes "(calm_step tp)\<^sup>*\<^sup>* s s'" "calm_ok tp num s" "nodes_ok tp"
  shows "calm_ok tp num s'"
  using assms by (induction rule: rtranclp_induct) (auto intro: calm_step_ok)

end
