(* ===== verification/Driver_Main.thy ===== *)
theory Driver_Main
  imports Driver_Calm
begin

text \<open>
  Runs of the throughput driver from the start of \<open>main\<close>: the invariants of the other theories hold
  in the state that \<open>drv_main\<close> returns, threads that are not stopped do their share, and the slots
  are closed at the end.
\<close>

section \<open>The start\<close>

text \<open>
  What \<open>main\<close> needs: a layout that fits into the addresses, an API server that has no subnets of
  the networks yet, and a random number generator that stays within its bounds.
\<close>

definition start_ok :: "layout \<Rightarrow> (nat \<Rightarrow> rat) \<Rightarrow> nat \<Rightarrow> string \<Rightarrow> uint32 \<Rightarrow> Subnet list \<Rightarrow> (nat \<Rightarrow> nat) \<Rightarrow> (nat \<Rightarrow> nat) \<Rightarrow> bool" where
  "start_ok lo powf r ns addr db intn1 intn2 \<longleftrightarrow> layout_ok lo powf r \<and> room lo powf 0 addr \<and>
     (\<forall>j<lo_num_nets lo. fresh_net ns (net_vni lo j) db) \<and> (\<forall>m>0. intn1 m < m) \<and> (\<forall>m>0. intn2 m < m)"

lemma nets_laid_new: "nets_laid lo powf ns 0 addr new_driver"
  by (simp add: nets_laid_def new_driver_def)

lemma lay_out_laid:
  assumes "start_ok lo powf r ns addr db intn1 intn2"
  shows "\<exists>addr' d db'. lay_out lo powf (subnet_api seen uid) ns addr db = (Inr (addr', d), db') \<and>
    nets_laid lo powf ns (lo_num_nets lo) addr' d \<and> (\<exists>new. db' = new @ db \<and> (\<forall>s\<in>set new. sn_Namespace s = ns))"
proof -
  have "layout_ok lo powf r" "room lo powf 0 addr" "\<forall>j. 0 \<le> j \<and> j < lo_num_nets lo \<longrightarrow> fresh_net ns (net_vni lo j) db"
    using assms by (simp_all add: start_ok_def)
  from make_nets_laid [OF this(1) _ this(2) nets_laid_new this(3)] show ?thesis unfolding lay_out_def by simp
qed

lemma main_started:
  assumes ok: "start_ok lo powf r ns addr db intn1 intn2"
    and m: "drv_main lo powf (subnet_api seen uid) ns addr db fl intn1 intn2 = Inr (ths, d)"
  obtains addr' where "layout_ok lo powf r" "nets_laid lo powf ns (lo_num_nets lo) addr' d"
    "start_threads fl intn1 intn2 d = Inr ths" "drv_start (ths, d)" "length ths = thread_count fl d"
    "ths \<noteq> [] \<Longrightarrow> mset (concat (map thr_work ths)) = mset (vn_attachments (map vn_size (virtNets d)))"
    "ths \<noteq> [] \<Longrightarrow> sum_list (map thr_n ths) = fl_num_attachments fl"
    "fl_waitAfterCreate fl \<noteq> 0 \<Longrightarrow> \<forall>th\<in>set ths. thr_n th \<le> length (thr_work th)"
proof -
  obtain addr' d1 db' where l: "lay_out lo powf (subnet_api seen uid) ns addr db = (Inr (addr', d1), db')"
    "nets_laid lo powf ns (lo_num_nets lo) addr' d1" using lay_out_laid [OF ok, where seen = seen and uid = uid] by blast
  then have d: "start_threads fl intn1 intn2 d = Inr ths" "d1 = d"
    and n: "fl_waitAfterCreate fl \<noteq> 0 \<Longrightarrow> fl_num_attachments fl \<le> sum_list (map vn_size (virtNets d))"
    using m by (auto simp: drv_main_def split: if_splits sum.splits)
  have lo: "layout_ok lo powf r" "\<forall>m>0. intn1 m < m" "\<forall>m>0. intn2 m < m" using ok by (simp_all add: start_ok_def)
  show ?thesis using driver_starts [OF lo(1) l(2) lo(2,3), of fl] d l(2) lo(1) n that by auto
qed

lemma main_returns:
  assumes ok: "start_ok lo powf r ns addr db intn1 intn2"
    and n: "fl_waitAfterCreate fl = 0 \<or> fl_num_attachments fl \<le> (\<Sum>i<lo_num_nets lo. net_size lo powf i)"
  shows "\<exists>s. drv_main lo powf (subnet_api seen uid) ns addr db fl intn1 intn2 = Inr s"
proof -
  obtain addr' d db' where l: "lay_out lo powf (subnet_api seen uid) ns addr db = (Inr (addr', d), db')"
    "nets_laid lo powf ns (lo_num_nets lo) addr' d" using lay_out_laid [OF ok, where seen = seen and uid = uid] by blast
  have lo: "layout_ok lo powf r" "\<forall>m>0. intn1 m < m" "\<forall>m>0. intn2 m < m" using ok by (simp_all add: start_ok_def)
  have "map vn_size (virtNets d) = map (net_size lo powf) [0..<lo_num_nets lo]"
    using l(2) by (intro nth_equalityI) (auto simp: nets_laid_def laid_out_def Let_def)
  then have "sum_list (map vn_size (virtNets d)) = (\<Sum>i<lo_num_nets lo. net_size lo powf i)"
    by (simp add: interv_sum_list_conv_sum_set_nat atLeast0LessThan)
  moreover have "\<not> lo_just_count lo" using lo(1) by (simp add: layout_ok_def)
  ultimately show ?thesis using driver_starts [OF lo(1) l(2) lo(2,3), of fl] l(1) n by (auto simp: drv_main_def)
qed

lemma started_safe:
  assumes "layout_ok lo powf r" "nets_laid lo powf ns (lo_num_nets lo) addr' d" "drv_start (ths, d)"
  shows "drv_safe tp (ths, d)"
  using drv_start_ok [OF assms(3)] nets_laid_wf(1) [OF assms(1,2)] assms(3)
  by (auto simp: drv_safe_def drv_start_def thread_start_def)

lemma main_safe:
  assumes "start_ok lo powf r ns addr db intn1 intn2" "drv_main lo powf (subnet_api seen uid) ns addr db fl intn1 intn2 = Inr s"
  shows "drv_safe tp s"
proof -
  obtain ths d where s: "s = (ths, d)" by (cases s)
  show ?thesis unfolding s by (rule main_started [OF assms [unfolded s]]) (rule started_safe)
qed

text \<open>The names of the run have different places.\<close>

lemma start_places:
  assumes "drv_start (ths, d)" "\<forall>vn\<in>set (virtNets d). vn_size vn * num < 2 ^ 32"
  shows "places_ok num (shape d) (map thr_work ths)"
proof -
  have th: "thread_start d th" if "th \<in> set ths" for th using assms(1) that by (simp add: drv_start_def)
  have "map fst (shape d) = map vn_ID (virtNets d)" by (simp add: shape_def vn_shape_def)
  then have "distinct (map fst (shape d))" using assms(1) by (simp add: drv_start_def)
  moreover have "vi < length (shape d) \<and> si < sh_size (shape d) vi" if "th \<in> set ths" "(vi, si) \<in> set (thr_work th)" for th vi si
    using th [OF that(1)] that(2) by (auto simp: thread_start_def shape_def vn_shape_def)
  moreover have "sh_size (shape d) vi * num < 2 ^ 32" if "vi < length (shape d)" for vi
    using assms(2) that by (simp add: shape_def vn_shape_def)
  moreover have "distinct (concat (map thr_work ths))" "[] \<notin> set (map thr_work ths)"
    using assms(1) th by (auto simp: drv_start_def thread_start_def)
  ultimately show ?thesis unfolding places_ok_def by auto
qed

lemma share_le_num: "sum_list (map thr_n ths) = num \<Longrightarrow> th \<in> set ths \<Longrightarrow> thr_n th \<le> num"
  using member_le_sum_list [of "thr_n th" "map thr_n ths"] by auto

section \<open>Calm runs\<close>

lemma start_calm:
  assumes lo: "layout_ok lo powf r" and laid: "nets_laid lo powf ns (lo_num_nets lo) addr' d" and st: "drv_start (ths, d)"
    and deal: "mset (concat (map thr_work ths)) = mset (vn_attachments (map vn_size (virtNets d)))"
      "sum_list (map thr_n ths) = num"
    and fits: "\<forall>vn\<in>set (virtNets d). vn_size vn * num < 2 ^ 32"
  shows "calm_ok tp num (ths, d)"
proof -
  let ?N = "lo_num_nets lo"
  have len: "length (virtNets d) = ?N" using laid by (simp add: nets_laid_def)
  have at: "laid_out lo powf ns j (virtNets d ! j)" "idToVirtNet d (net_vni lo j) = Some j" if "j < ?N" for j
    using laid that by (simp_all add: nets_laid_def)
  have vn: "vn_view (virtNets d ! j) = (Map.empty, replicate (vn_size (virtNets d ! j)) ([], None, 0))"
    "vn_ID (virtNets d ! j) = net_vni lo j" if "j < ?N" for j
    using at(1) [OF that] by (simp_all add: laid_out_def Let_def vn_view_def cell_def new_slot_def comp_def map_replicate_const)
  have ex: "exact (view d)"
    unfolding exact_def view_def using vn(1) len
    by (auto simp: in_set_conv_nth index_of_def owners_def natt_ip_def fun_eq_iff)
  have "cells_ok (tp_digits tp) (shape d) (view d) th" if th: "th \<in> set ths" for th
  proof -
    have ts: "thread_start d th" using st th by (simp add: drv_start_def)
    have "cell_at (view d) w = ([], None, 0)" if "w \<in> set (thr_work th)" for w
      using ts that vn(1) len by (cases w) (fastforce simp: thread_start_def cell_at_def view_nth)
    then show ?thesis using ts by (auto simp: cells_ok_def cell_ok_def thread_start_def creating_def)
  qed
  moreover have "(vi, si) \<in> set (concat (map thr_work ths))" if "vi < length (shape d)" "si < length (sh_next (shape d) vi)" for vi si
  proof -
    have "length (slots (virtNets d ! vi)) = vn_size (virtNets d ! vi)"
      using at(1) [of vi] that(1) len by (simp add: shape_def laid_out_def Let_def)
    then have "(vi, si) \<in> set (vn_attachments (map vn_size (virtNets d)))"
      using that vn_attachments_slots [of "map vn_size (virtNets d)"] by (auto simp: shape_def vn_shape_def)
    then show ?thesis using mset_eq_setD [OF deal(1)] by simp
  qed
  moreover have "idToVirtNet d (sh_id (shape d) vi) = Some vi" if "vi < length (shape d)" for vi
    using at(2) vn(2) that len by (simp add: shape_def vn_shape_def)
  ultimately show ?thesis
    using ex start_places [OF st fits] started_safe [OF lo laid st] share_le_num [OF deal(2)] unfolding calm_ok_def by fast
qed

lemma main_calm:
  assumes "start_ok lo powf r ns addr db intn1 intn2" "drv_main lo powf (subnet_api seen uid) ns addr db fl intn1 intn2 = Inr s"
    and "fst s \<noteq> []" "\<forall>vn\<in>set (virtNets (snd s)). vn_size vn * fl_num_attachments fl < 2 ^ 32"
  shows "calm_ok tp (fl_num_attachments fl) s"
proof -
  obtain ths d where s: "s = (ths, d)" by (cases s)
  show ?thesis unfolding s
    by (rule main_started [OF assms(1) assms(2) [unfolded s]], rule start_calm) (use assms(3,4) s in simp_all)
qed

text \<open>Networks in which an exact index is read off the slots.\<close>

lemma exact_addrs:
  assumes "exact (view d)" "vn \<in> set (virtNets d)" "ip \<noteq> []"
    and "own = {currentAttachmentName slot |slot a. slot \<in> set (slots vn) \<and> slot_natt slot = Some a \<and> natt_IPv4 a = ip}"
  shows "addrs vn ip = (if own = {} then None else Some own)"
proof -
  have "vn_view vn \<in> set (view d)" using assms(2) by (simp add: view_def)
  then have "addrs vn = index_of (owners (map cell (slots vn)))" using assms(1) by (auto simp: exact_def vn_view_def)
  moreover have ip: "cell_ip (cell slot) = ip \<longleftrightarrow> (\<exists>a. slot_natt slot = Some a \<and> natt_IPv4 a = ip)" for slot
    using assms(3) by (cases "slot_natt slot") (auto simp: cell_def natt_ip_def)
  have "owners (map cell (slots vn)) ip = {currentAttachmentName slot |slot. slot \<in> set (slots vn) \<and> cell_ip (cell slot) = ip}"
    unfolding owners_def by (auto simp: cell_def)
  then have "owners (map cell (slots vn)) ip = own" unfolding ip assms(4) by blast
  ultimately show ?thesis using assms(3) by (simp add: index_of_def)
qed

section \<open>Threads can return\<close>

lemma create_begin_allowed: "create_begin tp intn now ts th d = Inr (th', d') \<Longrightarrow> createAllowed th' = createAllowed th"
  by (auto simp: create_begin_def Let_def dest!: create_call_frame(1) split: sum.splits prod.splits option.splits if_splits)

lemma loop_top_allowed:
  assumes "loop_top tp False intn now ts th d = Inr (th', d')"
  shows "createAllowed th' = createAllowed th"
  using assms create_begin_allowed [of tp intn now ts th d th' d']
  by (cases th) (auto simp: loop_top_def Let_def delete_begin_def split: if_splits sum.splits prod.splits)

text \<open>A thread that has not returned can take a step that changes it, even in a calm run.\<close>

lemma calm_enabled:
  assumes safe: "drv_safe tp (ths, d)" and nodes: "nodes_ok tp" and t: "t < length ths" "pc (ths ! t) \<noteq> Returned"
  shows "\<exists>th' d'. calm_step tp (ths, d) (ths[t := th'], d') \<and> pc th' \<noteq> pc (ths ! t) \<and> createAllowed th' = createAllowed (ths ! t)"
proof -
  note ok = drv_safe_thread [OF safe t(1)]
  show ?thesis
  proof (cases "pc (ths ! t)")
    case AtTop
    have intn: "\<forall>m>0. (\<lambda>_. 0::nat) m < m" and now: "(1::gotime) \<noteq> 0" by simp_all
    obtain th' d' where lt: "loop_top tp False (\<lambda>_. 0) 1 [] (ths ! t) d = Inr (th', d')"
      using loop_top_wf [OF ok(3,1,2) AtTop nodes intn] by blast
    have "pc th' \<noteq> AtTop" using loop_top_simulated [OF lt AtTop] AtTop by (cases rule: thread_step.cases) auto
    then show ?thesis using calm_step.Top [OF t(1) AtTop intn now lt] AtTop loop_top_allowed [OF lt] by auto
  next
    case (WaitingPeer plan tLimit)
    let ?now = "max tLimit 1"
    have now: "?now \<noteq> 0" by simp
    obtain th' d' where re: "create_resume tp ?now [] plan tLimit (ths ! t) d = Inr (th', d')"
      using create_resume_wf [OF ok(3)] plan_slot [OF safe t(1)] WaitingPeer by blast
    then obtain d1 where "create_call tp plan ?now [] (ths ! t) d1 = Inr (th', d')"
      by (auto simp: create_resume_def keep_waiting_def Let_def split: option.splits prod.splits)
    then have "pc th' \<noteq> pc (ths ! t) \<and> createAllowed th' = createAllowed (ths ! t)" using create_call_frame(1) WaitingPeer by force
    then show ?thesis using calm_step.Resume [OF t(1) WaitingPeer now re] by blast
  next
    case (Creating plan ti0 full)
    let ?natt = "slot_natt (slots (virtNets d ! cp_vn plan) ! cp_slot plan)"
    define a where "a = (case ?natt of None \<Rightarrow> new_attachment (tp_flags tp) plan [] [] [] | Some a \<Rightarrow> a)"
    have ip: "natt_ip ?natt = (case Inr a of Inl _ \<Rightarrow> [] | Inr a \<Rightarrow> natt_IPv4 a)"
      by (auto simp: a_def natt_ip_def new_attachment_def split: option.splits)
    obtain th' d' where ce: "create_end tp plan ti0 full 0 (Inr a) (ths ! t) d = (th', d')" by fastforce
    then have "pc th' \<noteq> pc (ths ! t) \<and> createAllowed th' = createAllowed (ths ! t)"
      using Creating by (auto simp: create_end_def Let_def split: prod.splits)
    then show ?thesis using calm_step.Created [OF t(1) Creating ip ce] by blast
  next
    case (Deleting vi si natt)
    have "\<exists>th' d'. delete_end tp [((0, None), False)] vi si natt (ths ! t) d = Some (th', d')"
      by (cases natt) (simp_all add: delete_end_def Let_def try_ok_def)
    then obtain th' d' where de: "delete_end tp [((0, None), False)] vi si natt (ths ! t) d = Some (th', d')" by blast
    then have "pc th' \<noteq> pc (ths ! t) \<and> createAllowed th' = createAllowed (ths ! t)"
      using Deleting by (auto simp: delete_end_def Let_def split: option.splits)
    then show ?thesis using calm_step.Deleted [OF t(1) Deleting de] by blast
  qed (use t(2) in simp)
qed

lemma threads_can_return:
  assumes "drv_safe tp s" "nodes_ok tp"
  shows "\<exists>s'. (calm_step tp)\<^sup>*\<^sup>* s s' \<and> (\<forall>th\<in>set (fst s'). pc th = Returned) \<and>
    ((\<forall>th\<in>set (fst s). createAllowed th) \<longrightarrow> (\<forall>th\<in>set (fst s'). createAllowed th))"
  using assms(1)
proof (induction "total_rank (fst s)" arbitrary: s rule: less_induct)
  case less
  show ?case
  proof (cases "\<forall>th\<in>set (fst s). pc th = Returned")
    case False
    then obtain t where t: "t < length (fst s)" "pc (fst s ! t) \<noteq> Returned" by (metis in_set_conv_nth)
    obtain th' d' where st: "calm_step tp s ((fst s)[t := th'], d')" "pc th' \<noteq> pc (fst s ! t)" "createAllowed th' = createAllowed (fst s ! t)"
      using calm_enabled [of tp "fst s" "snd s" t] less.prems assms(2) t by auto
    note dst = calm_drv_step [OF st(1)]
    have "(fst s)[t := th'] \<noteq> fst s" using st(2) t(1) by (metis nth_list_update_eq)
    then have lower: "total_rank (fst ((fst s)[t := th'], d')) < total_rank (fst s)" using drv_step_rank [OF dst less.prems] by simp
    obtain s' where "(calm_step tp)\<^sup>*\<^sup>* ((fst s)[t := th'], d') s'" "\<forall>th\<in>set (fst s'). pc th = Returned"
      "(\<forall>th\<in>set (fst ((fst s)[t := th'], d')). createAllowed th) \<longrightarrow> (\<forall>th\<in>set (fst s'). createAllowed th)"
      using less.hyps [OF lower drv_step_safe [OF dst less.prems assms(2)]] by blast
    moreover have "\<forall>th\<in>set (fst ((fst s)[t := th'], d')). createAllowed th" if "\<forall>th\<in>set (fst s). createAllowed th"
      using that st(3) t(1) by (auto dest!: set_update_subset_insert [THEN subsetD])
    ultimately show ?thesis using converse_rtranclp_into_rtranclp [of "calm_step tp", OF st(1)] by blast
  qed blast
qed

lemma calm_drv_steps: "(calm_step tp)\<^sup>*\<^sup>* s s' \<Longrightarrow> (drv_step tp)\<^sup>*\<^sup>* s s'"
  by (induction rule: rtranclp_induct) (auto dest: calm_drv_step)

section \<open>Threads that are not stopped\<close>

text \<open>Only a failed test or a broken attachment stops the threads, and only when a flag says so.\<close>

named_theorems stop_simps \<open>what leaves the count of stoppers alone\<close>

lemma stoppers_updates [stop_simps]:
  "stoppers (log_event es g) = stoppers g" "stoppers (observe_hist h x ns name g) = stoppers g"
  "stoppers (close_observe slot ns name g) = stoppers g"
  by (simp_all add: log_event_def observe_hist_def close_observe_def Let_def)

lemma ipAddressChanged_stoppers: "ipAddressChanged node ol ne name vn g = (vn', g') \<Longrightarrow> stoppers g' = stoppers g"
  by (auto simp: ipAddressChanged_def ipAddressChangedAtNode_def ipAddressChangedInNS_def Let_def stop_simps
      split: prod.splits if_splits)

lemma observeState_stoppers:
  assumes "observeState fl now si natt vn g = Inr (vn', g')" "\<not> fl_stopOnPingFail fl" "\<not> fl_stopOnBreak fl"
  shows "stoppers g' = stoppers g"
proof -
  have addr: "stoppers g1 = stoppers g" if "observe_address natt slot vn g = Inr (vn1, g1)" for slot vn1 g1
    using that by (auto simp: observe_address_def Let_def stop_simps dest!: ipAddressChanged_stoppers split: if_splits sum.splits)
  have ready: "stoppers g2 = stoppers g1" if "observe_ready fl now slot g1 = (slot2, g2)" for slot g1 slot2 g2
    using that by (auto simp: observe_ready_def Let_def stop_simps split: if_splits)
  have tested: "stoppers g2 = stoppers g1" if "observe_tested fl now si r slot cd g1 = (slot2, cd2, g2)" for r slot cd g1 slot2 cd2 g2
    using that assms(2) by (auto simp: observe_tested_def Let_def stop_simps split: if_splits option.splits)
  have broken: "stoppers g2 = stoppers g1" if "observe_broken fl now si natt slot cd g1 = (slot2, cd2, g2)" for slot cd g1 slot2 cd2 g2
    using that assms(3) by (auto simp: observe_broken_def Let_def stop_simps split: if_splits)
  have progress: "stoppers g2 = stoppers g1" if "observe_progress fl now si natt slot cd g1 = (slot2, cd2, g2)" for slot cd g1 slot2 cd2 g2
    using that ready tested broken by (auto simp: observe_progress_def Let_def split: if_splits prod.splits)
  show ?thesis using assms(1)
    by (auto simp: observeState_def Let_def stop_simps dest!: addr progress split: sum.splits prod.splits if_splits)
qed

lemma attachment_OnAdd_stoppers:
  assumes "attachment_OnAdd fl now natt d = Inr d'" "\<not> fl_stopOnPingFail fl" "\<not> fl_stopOnBreak fl"
  shows "stoppers (globals d') = stoppers (globals d)"
  using assms observeState_stoppers
  by (auto simp: attachment_OnAdd_def split: option.splits if_splits sum.splits)

lemma close_stoppers: "close fl vi si d = Inr (natt, d') \<Longrightarrow> stoppers (globals d') = stoppers (globals d)"
  by (auto simp: close_def Let_def reset_slot_def stop_simps dest!: ipAddressChanged_stoppers
      split: if_splits option.splits prod.splits)

lemma create_call_stoppers: "create_call tp plan now ts th d = Inr (th', d') \<Longrightarrow> stoppers (globals d') = stoppers (globals d)"
  by (auto simp: create_call_def Let_def split: if_splits option.splits sum.splits prod.splits)

lemma create_begin_stoppers: "create_begin tp intn now ts th d = Inr (th', d') \<Longrightarrow> stoppers (globals d') = stoppers (globals d)"
  by (auto simp: create_begin_def Let_def dest!: create_call_stoppers split: if_splits option.splits sum.splits prod.splits)

lemma create_resume_stoppers:
  "create_resume tp now ts plan tLimit th d = Inr (th', d') \<Longrightarrow> stoppers (globals d') = stoppers (globals d)"
  by (auto simp: create_resume_def Let_def ready_leave_def dest!: create_call_stoppers split: if_splits option.splits prod.splits)

lemma create_end_stoppers: "create_end tp plan ti0 full tif reply th d = (th', d') \<Longrightarrow> stoppers (globals d') = stoppers (globals d)"
  by (auto simp: create_end_def Let_def stop_simps split: sum.splits prod.splits)

lemma stoppers_tryDelete [stop_simps]: "stoppers (fold (tryDelete fl name) attempts g) = stoppers g"
  by (induction attempts arbitrary: g) (auto simp: tryDelete_def Let_def stop_simps split: prod.splits)

lemma delete_end_stoppers: "delete_end tp attempts vi si natt th d = Some (th', d') \<Longrightarrow> stoppers (globals d') = stoppers (globals d)"
  by (auto simp: delete_end_def Let_def stop_simps split: option.splits)

lemma delete_begin_stoppers: "delete_begin tp th d = Inr (th', d') \<Longrightarrow> stoppers (globals d') = stoppers (globals d)"
  by (auto simp: delete_begin_def dest!: close_stoppers split: sum.splits prod.splits)

lemma loop_top_stoppers: "loop_top tp stopped intn now ts th d = Inr (th', d') \<Longrightarrow> stoppers (globals d') = stoppers (globals d)"
  using loop_top_cases [of tp stopped intn now ts th d th' d'] create_begin_stoppers delete_begin_stoppers by blast

lemma drv_step_stoppers:
  assumes "drv_step tp s s'" "\<not> fl_stopOnPingFail (tp_flags tp)" "\<not> fl_stopOnBreak (tp_flags tp)"
  shows "stoppers (globals (snd s')) = stoppers (globals (snd s))"
  using assms(1) by (cases rule: drv_step.cases)
    (auto dest: loop_top_stoppers create_resume_stoppers create_end_stoppers delete_end_stoppers
      attachment_OnAdd_stoppers [OF _ assms(2,3)] simp: subnet_OnAdd_def split: option.splits)

text \<open>
  A thread returns when it has deleted its share; or, when it is only to create, when it has created
  its share or as many as it has slots. Then it never deletes.
\<close>

definition thread_returned :: "bool \<Rightarrow> thread \<Rightarrow> bool" where
  "thread_returned just th \<longleftrightarrow>
     (just \<longrightarrow> iDelete th = 0 \<and> (\<forall>vi si natt. pc th \<noteq> Deleting vi si natt)) \<and>
     (pc th = Returned \<longrightarrow> iDelete th < thr_n th \<longrightarrow>
        just \<and> (createAllowed th \<longrightarrow> length (thr_work th) \<le> iCreate th \<or> thr_n th \<le> iCreate th))"

definition returned_ok :: "bool \<Rightarrow> drv_state \<Rightarrow> bool" where
  "returned_ok just s \<longleftrightarrow> stoppers (globals (snd s)) = 0 \<and> (\<forall>th\<in>set (fst s). thread_returned just th)"

lemma create_begin_counts:
  assumes "create_begin tp intn now ts th d = Inr (th', d')"
  shows "iDelete th' = iDelete th \<and> pc th' \<noteq> Returned \<and> (\<forall>vi si natt. pc th' \<noteq> Deleting vi si natt)"
  using assms by (auto simp: create_begin_def Let_def dest!: create_call_frame(1) split: sum.splits prod.splits option.splits if_splits)

lemma loop_top_returns:
  assumes "loop_top tp stopped intn now ts th d = Inr (th', d')" "stoppers (globals d) = 0"
    and "thread_returned (tp_justCreate tp) th"
  shows "thread_returned (tp_justCreate tp) th'"
proof (cases "iDelete th < thr_n th")
  case False
  then show ?thesis using assms by (auto simp: loop_top_def thread_returned_def)
next
  case True
  let ?th1 = "th\<lparr>createAllowed := createAllowed th \<and> \<not> stopped\<rparr>"
  consider (create) "create_begin tp intn now ts ?th1 d = Inr (th', d')"
    | (just) "tp_justCreate tp" "th' = ?th1\<lparr>pc := Returned\<rparr>"
        "\<not> (createAllowed ?th1 \<and> iCreate th < iDelete th + length (thr_work th) \<and> iCreate th < thr_n th)"
    | (delete) "\<not> tp_justCreate tp" "delete_begin tp ?th1 d = Inr (th', d')"
    using assms(1,2) True by (auto simp: loop_top_def Let_def split: if_splits)
  then show ?thesis
  proof cases
    case create
    then show ?thesis using create_begin_counts [OF create] assms(3) by (auto simp: thread_returned_def)
  next
    case just
    then show ?thesis using assms(3) by (auto simp: thread_returned_def not_less)
  next
    case delete
    then show ?thesis by (auto simp: thread_returned_def delete_begin_def split: sum.splits prod.splits)
  qed
qed

lemma drv_step_returned:
  assumes st: "drv_step tp s s'" and flags: "\<not> fl_stopOnPingFail (tp_flags tp)" "\<not> fl_stopOnBreak (tp_flags tp)"
    and ok: "returned_ok (tp_justCreate tp) s"
  shows "returned_ok (tp_justCreate tp) s'"
proof -
  let ?ok = "thread_returned (tp_justCreate tp)"
  have new: "\<forall>th\<in>set (ths[t := th']). ?ok th" if "s = (ths, d)" "?ok th'" for ths d t th'
    using ok that by (auto simp: returned_ok_def dest!: set_update_subset_insert [THEN subsetD])
  have old: "?ok (ths ! t)" if "s = (ths, d)" "t < length ths" for ths d t
    using ok that by (auto simp: returned_ok_def)
  have "\<forall>th\<in>set (fst s'). ?ok th" using st
  proof (cases rule: drv_step.cases)
    case (Top t ths intn stopped now ts d th' d')
    then show ?thesis using loop_top_returns [OF Top(6) _ old [OF Top(1,3)]] ok new [OF Top(1), of th' t]
      by (simp add: returned_ok_def)
  next
    case (Resume t ths plan tLimit now ts d th' d')
    have "iDelete th' = iDelete (ths ! t) \<and> pc th' \<noteq> Returned \<and> (\<forall>vi si natt. pc th' \<noteq> Deleting vi si natt)" using Resume(4,5)
      by (auto simp: create_resume_def Let_def dest!: create_call_frame(1) split: option.splits if_splits prod.splits)
    then have "?ok th'" using old [OF Resume(1,3)] by (simp add: thread_returned_def)
    then show ?thesis using new [OF Resume(1), of th' t] Resume(2) by simp
  next
    case (Created t ths plan ti0 full tif reply d th' d')
    then have "iDelete th' = iDelete (ths ! t)" "pc th' = AtTop" by (auto simp: create_end_def Let_def split: prod.splits)
    then have "?ok th'" using old [OF Created(1,3)] by (simp add: thread_returned_def)
    then show ?thesis using new [OF Created(1), of th' t] Created(2) by simp
  next
    case (Deleted t ths vi si natt attempts d th' d')
    then have "pc th' = AtTop" by (auto simp: delete_end_def Let_def split: option.splits)
    moreover have "\<not> tp_justCreate tp" using old [OF Deleted(1,3)] Deleted(4) by (auto simp: thread_returned_def)
    ultimately have "?ok th'" by (simp add: thread_returned_def)
    then show ?thesis using new [OF Deleted(1), of th' t] Deleted(2) by simp
  qed (use ok in \<open>simp_all add: returned_ok_def\<close>)
  then show ?thesis using ok drv_step_stoppers [OF st flags] by (simp add: returned_ok_def)
qed

lemma drv_steps_returned:
  assumes "(drv_step tp)\<^sup>*\<^sup>* s s'" "returned_ok (tp_justCreate tp) s"
    and "\<not> fl_stopOnPingFail (tp_flags tp)" "\<not> fl_stopOnBreak (tp_flags tp)"
  shows "returned_ok (tp_justCreate tp) s'"
  using assms(1,2) by (induction rule: rtranclp_induct) (auto intro: drv_step_returned [OF _ assms(3,4)])

lemma returned_counts:
  assumes "thread_ok digs sh th" "thread_returned just th" "createAllowed th" "pc th = Returned"
    and "just \<Longrightarrow> thr_n th \<le> length (thr_work th)"
  shows "iDelete th = (if just then 0 else thr_n th)" "iCreate th = thr_n th" "requests th = thr_n th"
  using assms by (auto simp: thread_ok_def counts_ok_def requests_def thread_returned_def)

lemma length_requested:
  assumes "drv_ok digs (ths, d)"
  shows "length (requested (globals d)) = sum_list (map requests ths)"
proof -
  have "length (requested (globals d)) = length (concat (map (names_of digs (shape d)) ths))"
    using assms mset_eq_length by (fastforce simp: drv_ok_def)
  then show ?thesis by (simp add: length_concat comp_def names_of_def)
qed

section \<open>Closing all slots\<close>

text \<open>The cells of a driver whose threads have all returned.\<close>

definition cells_settled :: "cell list \<Rightarrow> bool" where
  "cells_settled cs \<longleftrightarrow> names_apart cs \<and>
     (\<forall>c\<in>set cs. (cell_natt c \<noteq> None \<longrightarrow> cell_name c \<noteq> []) \<and> (cell_name c \<noteq> [] \<longrightarrow> cell_pre c \<noteq> 0))"

definition settled :: "driver \<Rightarrow> bool" where
  "settled d \<longleftrightarrow> driver_wf d \<and> exact (view d) \<and> (\<forall>vi<length (virtNets d). idToVirtNet d (vn_ID (virtNets d ! vi)) = Some vi) \<and>
     (\<forall>vi<length (view d). cells_settled (snd (view d ! vi)))"

lemma cells_settled_nth:
  assumes "cells_settled cs" "si < length cs"
  shows "names_apart cs" "cell_natt (cs ! si) \<noteq> None \<longrightarrow> cell_name (cs ! si) \<noteq> []"
    "cell_name (cs ! si) \<noteq> [] \<longrightarrow> cell_pre (cs ! si) \<noteq> 0"
  using assms nth_mem [OF assms(2)] unfolding cells_settled_def by blast+

lemma cells_settled_clear: "cells_settled cs \<Longrightarrow> cells_settled (cs[si := ([], None, t)])"
  unfolding cells_settled_def names_apart_def
  by (cases "si < length cs") (auto simp: nth_list_update split: if_splits dest!: set_update_subset_insert [THEN subsetD])

text \<open>Closing a settled cell moves its name out of the index.\<close>

lemma index_cleared:
  assumes "cells_settled cs" "si < length cs"
  shows "new_index (if cell_pre (cs ! si) = 0 then [] else cell_ip (cs ! si)) [] (cell_name (cs ! si)) (owners cs) =
    index_of (owners (cs[si := ([], None, 0)]))"
proof (cases "cell_name (cs ! si) = []")
  case True
  then have "cell_ip (cs ! si) = []" using cells_settled_nth(2) [OF assms] by (auto simp: natt_ip_def)
  then show ?thesis using owners_same [OF assms(2), of "([], None, 0)"] by (simp add: new_index_def natt_ip_def)
next
  case False
  then show ?thesis
    using owners_moved [OF assms(2) cells_settled_nth(1) [OF assms], of "([], None, 0)"] cells_settled_nth(3) [OF assms]
    by (simp add: natt_ip_def)
qed

lemma shape_lengths:
  assumes "shape d' = shape d"
  shows "length (virtNets d') = length (virtNets d)"
    and "vi < length (virtNets d) \<Longrightarrow> vn_ID (virtNets d' ! vi) = vn_ID (virtNets d ! vi) \<and>
      length (slots (virtNets d' ! vi)) = length (slots (virtNets d ! vi))"
proof -
  show len: "length (virtNets d') = length (virtNets d)"
    using arg_cong [OF assms, of length] by (simp add: shape_def)
  assume "vi < length (virtNets d)"
  then have "vn_shape (virtNets d' ! vi) = vn_shape (virtNets d ! vi)"
    using arg_cong [OF assms, of "\<lambda>xs. xs ! vi"] len by (simp add: shape_def)
  then show "vn_ID (virtNets d' ! vi) = vn_ID (virtNets d ! vi) \<and> length (slots (virtNets d' ! vi)) = length (slots (virtNets d ! vi))"
    unfolding vn_shape_def by (auto dest: map_eq_imp_length_eq)
qed

lemma close_settled:
  assumes ok: "settled d" and v: "vi < length (virtNets d)" "si < length (slots (virtNets d ! vi))"
  shows "\<exists>natt d'. close fl vi si d = Inr (natt, d') \<and> settled d' \<and> shape d' = shape d \<and>
    (\<forall>w. cell_at (view d') w = (if w = (vi, si) then ([], None, 0) else cell_at (view d) w))"
proof -
  let ?cs = "snd (view d ! vi)"
  let ?x = "?cs ! si"
  have wf: "driver_wf d" "exact (view d)" and ids: "idToVirtNet d (vn_ID (virtNets d ! vi)) = Some vi"
    using ok v by (simp_all add: settled_def)
  obtain natt d' where cl: "close fl vi si d = Inr (natt, d')" "driver_wf d'" using close_wf [OF wf(1) v] by blast
  have vv: "vi < length (view d)" "si < length ?cs" using v by (simp_all add: view_nth vn_view_def) (simp add: view_def)
  let ?m = "new_index (if cell_pre ?x = 0 then [] else cell_ip ?x) [] (cell_name ?x) (owners ?cs)"
  have v': "view d' = put vi si ([], None, 0) (put_index vi ?m (view d))"
    by (rule close_view [OF cl(1) v ids exact_nth [OF wf(2) vv(1)] refl])
  have cs: "cells_settled ?cs" using ok vv(1) by (simp add: settled_def)
  have ex: "exact (view d')" unfolding v' by (intro exact_put [OF wf(2)] index_cleared cs vv(2))
  have sh: "shape d' = shape d" using close_frame [OF cl(1)] by simp
  have "cells_settled (snd (view d' ! vj))" if "vj < length (view d)" for vj
    using that vv(1) ok cells_settled_clear [OF cs] unfolding v' put_def put_index_def
    by (cases "vj = vi") (simp_all add: settled_def)
  moreover have "length (view d') = length (view d)" by (simp add: v' put_def put_index_def)
  moreover have "\<forall>vj<length (virtNets d'). idToVirtNet d' (vn_ID (virtNets d' ! vj)) = Some vj"
    using ok shape_lengths [OF sh] by (simp add: settled_def close_ids [OF cl(1)])
  ultimately have "settled d'" using cl(2) ex by (simp add: settled_def)
  moreover have "cell_at (view d') w = (if w = (vi, si) then ([], None, 0) else cell_at (view d) w)" for w
    unfolding v' by (rule cell_at_put [OF vv])
  ultimately show ?thesis using cl(1) sh by blast
qed

lemma close_slots_settled:
  assumes "settled d" "\<forall>(vi, si)\<in>set ws. vi < length (virtNets d) \<and> si < length (slots (virtNets d ! vi))"
    and "\<forall>w\<in>W. cell_at (view d) w = ([], None, 0)"
  shows "\<exists>d'. close_slots fl ws d = Inr d' \<and> settled d' \<and> shape d' = shape d \<and>
    (\<forall>w\<in>set ws \<union> W. cell_at (view d') w = ([], None, 0))"
  using assms
proof (induction ws arbitrary: d W)
  case (Cons w ws)
  obtain vi si where w: "w = (vi, si)" by (cases w)
  then obtain natt d1 where d1: "close fl vi si d = Inr (natt, d1)" "settled d1" "shape d1 = shape d"
    "\<forall>w. cell_at (view d1) w = (if w = (vi, si) then ([], None, 0) else cell_at (view d) w)"
    using close_settled [OF Cons.prems(1), of vi si fl] Cons.prems(2) by auto
  have rng: "\<forall>(vi, si)\<in>set ws. vi < length (virtNets d1) \<and> si < length (slots (virtNets d1 ! vi))"
    using Cons.prems(2) shape_lengths [OF d1(3)] by fastforce
  have "\<forall>x\<in>insert w W. cell_at (view d1) x = ([], None, 0)" using d1(4) Cons.prems(3) w by (metis insert_iff)
  from Cons.IH [OF d1(2) rng this] show ?case using d1(1,3) w by auto
qed simp

lemma close_all_settled:
  assumes "settled d"
  shows "\<exists>d'. close_all fl d = Inr d' \<and> (\<forall>vn\<in>set (virtNets d'). addrs vn = Map.empty \<and>
    (\<forall>slot\<in>set (slots vn). currentAttachmentName slot = [] \<and> slot_natt slot = None))"
proof -
  let ?ws = "vn_attachments (map (\<lambda>vn. length (slots vn)) (virtNets d))"
  have ws: "set ?ws = {(vi, si). vi < length (virtNets d) \<and> si < length (slots (virtNets d ! vi))}"
    using vn_attachments_slots [of "map (\<lambda>vn. length (slots vn)) (virtNets d)"] by auto
  obtain d' where d': "close_slots fl ?ws d = Inr d'" "settled d'" "shape d' = shape d" "\<forall>w\<in>set ?ws. cell_at (view d') w = ([], None, 0)"
    using close_slots_settled [OF assms, of ?ws "{}" fl] ws by auto
  have "addrs vn = Map.empty \<and> (\<forall>slot\<in>set (slots vn). cell slot = ([], None, 0))" if vn: "vn \<in> set (virtNets d')" for vn
  proof -
    obtain vi where vi: "vi < length (virtNets d')" "vn = virtNets d' ! vi" using vn by (auto simp: in_set_conv_nth)
    have "cell (slots vn ! si) = ([], None, 0)" if "si < length (slots vn)" for si
    proof -
      have "(vi, si) \<in> set ?ws" using that vi ws shape_lengths [OF d'(3)] by auto
      then have "cell_at (view d') (vi, si) = ([], None, 0)" using d'(4) by blast
      then show ?thesis using that vi by (simp add: cell_at_def view_nth vn_view_def)
    qed
    then have cells: "\<forall>slot\<in>set (slots vn). cell slot = ([], None, 0)" by (auto simp: in_set_conv_nth)
    have "addrs vn = index_of (owners (map cell (slots vn)))"
      using exact_nth [of "view d'" vi] d'(2) vi by (simp add: settled_def view_def vn_view_def)
    moreover have "owners (map cell (slots vn)) ip = {}" if "ip \<noteq> []" for ip
      using cells that by (auto simp: owners_def natt_ip_def)
    ultimately show ?thesis using cells by (auto simp: index_of_def fun_eq_iff)
  qed
  then show ?thesis using d'(1) by (auto simp: close_all_def cell_def)
qed

lemma calm_settled:
  assumes ok: "calm_ok tp num (ths, d)" and ret: "\<forall>th\<in>set ths. pc th = Returned"
  shows "settled d"
proof -
  have wf: "driver_wf d" "exact (view d)" "\<forall>vi<length (virtNets d). idToVirtNet d (vn_ID (virtNets d ! vi)) = Some vi"
    using ok by (auto simp: calm_ok_def drv_safe_def shape_def vn_shape_def)
  have "cells_settled (snd (view d ! vi))" if vi: "vi < length (view d)" for vi
  proof -
    let ?cs = "snd (view d ! vi)"
    have "(cell_natt c \<noteq> None \<longrightarrow> cell_name c \<noteq> []) \<and> (cell_name c \<noteq> [] \<longrightarrow> cell_pre c \<noteq> 0)" if c: "c \<in> set ?cs" for c
    proof -
      obtain si where si: "si < length ?cs" "c = cell_at (view d) (vi, si)" using c by (auto simp: in_set_conv_nth cell_at_def)
      then have "(vi, si) \<in> set (concat (map thr_work ths))"
        using ok vi by (auto simp: calm_ok_def shape_def vn_shape_def view_def vn_view_def simp del: set_concat)
      then obtain th p where th: "th \<in> set ths" "p < length (thr_work th)" "thr_work th ! p = (vi, si)"
        by (auto simp: in_set_conv_nth)
      have "cells_ok (tp_digits tp) (shape d) (view d) th" using ok th(1) by (simp add: calm_ok_def)
      from cells_okD [OF this th(2)] show ?thesis using ret th(1,3) si(2) by (auto simp: cell_ok_def creating_def)
    qed
    then show ?thesis using calm_names_apart [OF ok vi] unfolding cells_settled_def by blast
  qed
  then show ?thesis using wf unfolding settled_def by blast
qed

end
