(* ===== verification/Driver_Props.thy ===== *)
theory Driver_Props
  imports Driver_Main
begin

text \<open>
  The properties of the throughput driver: what holds in every run that starts with \<open>drv_main\<close>,
  whatever the threads, the API server and the notifications do, and two flaws.
\<close>

section \<open>A small run\<close>

definition one_net :: layout where
  "one_net = \<lparr>lo_num_nets = 1, lo_top_net_size = 2, lo_bias = 0, lo_just_count = False, lo_singleNetwork = False,
     lo_subnetSizeFactor = 1, lo_vni0 = 1\<rparr>"

definition one_flags :: driver_flags where
  "one_flags = \<lparr>fl_kubeNS = ''run'', fl_omitTest = False, fl_pendingWait = 60000000000, fl_pingCount = 10,
     fl_stopOnPingFail = False, fl_stopOnBreak = False, fl_waitAfterCreate = 0, fl_num_attachments = 3, fl_threads = 2,
     fl_onlyNode = ''n1'', fl_roundRobin = False, fl_runID = ''run''\<rparr>"

definition one_main :: "(main_exit, thread list \<times> driver) result" where
  "one_main = drv_main one_net (\<lambda>_. 1) (subnet_api (\<lambda>_ _. True) (\<lambda>db. ''u'')) ''run'' 0 [] one_flags (\<lambda>_. 0) (\<lambda>_. 0)"

definition one_params :: thread_params where
  "one_params = \<lparr>tp_flags = one_flags, tp_nodes = [''n1''], tp_digits = 1, tp_stride = 2, tp_justCreate = False\<rparr>"

lemma one_net_size: "net_size one_net (\<lambda>_. 1) i = 2"
  by (simp add: net_size_def one_net_def)

lemma one_net_num: "lo_num_nets one_net = 1"
  by (simp add: one_net_def)

lemma one_net_parts: "net_parts one_net 2 = (1, 1)"
  by (simp add: net_parts_def one_net_def)

lemma bits_for_4: "bits_for 4 = 2"
  by (simp add: bits_for.simps)

lemma one_net_bits: "net_bits one_net (\<lambda>_. 1) i = 2"
  unfolding net_bits_def one_net_size one_net_parts by (simp add: suffix_bits_def one_net_def bits_for_4)

lemma one_net_ok: "start_ok one_net (\<lambda>_. 1) 0 ''run'' 0 [] (\<lambda>_. 0) (\<lambda>_. 0)"
  by (simp add: start_ok_def layout_ok_def room_def one_net_bits fresh_net_def) (simp add: one_net_def first_vni_def)

lemma one_main_returns: "\<exists>s. one_main = Inr s"
  unfolding one_main_def by (rule main_returns [OF one_net_ok]) (simp add: one_flags_def)

lemma one_nodes: "nodes_ok one_params"
  by (simp add: nodes_ok_def one_params_def)

text \<open>The run has two threads for two slots, and can be finished.\<close>

lemma one_main_size:
  assumes "one_main = Inr s"
  shows "\<forall>vn\<in>set (virtNets (snd s)). vn_size vn * fl_num_attachments one_flags < 2 ^ 32" "fst s \<noteq> []" "\<forall>th\<in>set (fst s). createAllowed th \<and> pc th = AtTop"
proof -
  obtain ths d where s: "s = (ths, d)" by (cases s)
  obtain addr' where m: "nets_laid one_net (\<lambda>_. 1) ''run'' (lo_num_nets one_net) addr' d" "drv_start (ths, d)"
    "length ths = thread_count one_flags d"
    using main_started [OF one_net_ok assms [unfolded one_main_def s]] by metis
  have "length (virtNets d) = 1" "vn_size (virtNets d ! 0) = 2"
    using m(1) unfolding nets_laid_def one_net_num by (simp_all add: laid_out_def one_net_size Let_def)
  then obtain vn where vn: "virtNets d = [vn]" "vn_size vn = 2" by (cases "virtNets d") auto
  then show "\<forall>vn\<in>set (virtNets (snd s)). vn_size vn * fl_num_attachments one_flags < 2 ^ 32"
    by (simp add: s one_flags_def)
  have "length ths = 2" using m(3) vn by (simp add: thread_count_def one_flags_def)
  then show "fst s \<noteq> []" using s by auto
  show "\<forall>th\<in>set (fst s). createAllowed th \<and> pc th = AtTop" using m(2) s by (simp add: drv_start_def thread_start_def)
qed

lemma one_run:
  "\<exists>s s'. one_main = Inr s \<and> (calm_step one_params)\<^sup>*\<^sup>* s s' \<and> (\<forall>th\<in>set (fst s'). pc th = Returned \<and> createAllowed th)"
proof -
  obtain s where s: "one_main = Inr s" using one_main_returns by blast
  then have "drv_safe one_params s" using main_safe [OF one_net_ok] unfolding one_main_def by blast
  then show ?thesis using threads_can_return [OF _ one_nodes] one_main_size(3) [OF s] s by blast
qed

section \<open>The networks\<close>

text \<open>
  C14: When the flags and the server meet the conditions of \<open>start_ok\<close>, the API server accepts all
  subnets of the driver, also when it validates them against a cache that misses any of the stored
  objects. Every network has its own VNI and one or two subnets, whose blocks of addresses are
  aligned, as large as the code says, and follow each other without a gap; the networks follow each
  other in the order of the loop and do not overlap. New objects are only added to the namespace of
  the run. The conditions: at most 65535 networks and a run number below 32, so that the VNIs of the
  run are its own; positive values of the power function that do not fall from a network to the
  next; a subnet size factor that is not negative; the base address on a boundary of the first
  block, with room for all blocks below 2^32; no stored subnet with a VNI of the run, nor one of the
  run's namespace and names; and random numbers within the bounds asked for.
\<close>

theorem networks_accepted:
  assumes "start_ok lo powf r ns addr db intn1 intn2"
  shows "\<exists>addr' d db' new. lay_out lo powf (subnet_api seen uid) ns addr db = (Inr (addr', d), db') \<and>
    length (virtNets d) = lo_num_nets lo \<and> distinct (map vn_ID (virtNets d)) \<and>
    (\<forall>j<lo_num_nets lo. laid_out lo powf ns j (virtNets d ! j)) \<and>
    sorted_wrt (\<lambda>v w. addrFI v < addr0I w) (virtNets d) \<and> db' = new @ db \<and> (\<forall>s\<in>set new. sn_Namespace s = ns)"
proof -
  obtain addr' d db' new where l: "lay_out lo powf (subnet_api seen uid) ns addr db = (Inr (addr', d), db')"
    "nets_laid lo powf ns (lo_num_nets lo) addr' d" "db' = new @ db" "\<forall>s\<in>set new. sn_Namespace s = ns"
    using lay_out_laid [OF assms, where seen = seen and uid = uid] by blast
  have "layout_ok lo powf r" using assms by (simp add: start_ok_def)
  then have "distinct (map vn_ID (virtNets d))" using nets_laid_wf(3) l(2) by blast
  then show ?thesis using l by (auto simp: nets_laid_def)
qed

theorem networks_accepted_witness:
  "\<exists>addr' d db'. lay_out one_net (\<lambda>_. 1) (subnet_api (\<lambda>_ _. True) (\<lambda>_. ''u'')) ''run'' 0 [] = (Inr (addr', d), db') \<and>
    laid_out one_net (\<lambda>_. 1) ''run'' 0 (virtNets d ! 0)"
proof -
  have "(0::nat) < lo_num_nets one_net" by (simp add: one_net_def)
  then show ?thesis using networks_accepted [OF one_net_ok, of "\<lambda>_ _. True" "\<lambda>_. ''u''"] by blast
qed

section \<open>Runs\<close>

text \<open>
  Every slot of the networks is dealt to exactly one thread, no thread is without a slot, and the
  shares of the threads add up to the number of attachments.
\<close>

lemma work_shared_out:
  assumes "start_ok lo powf r ns addr db intn1 intn2" "drv_main lo powf (subnet_api seen uid) ns addr db fl intn1 intn2 = Inr (ths, d)"
    and "ths \<noteq> []"
  shows "distinct (concat (map thr_work ths))"
    "set (concat (map thr_work ths)) = {(vi, si). vi < length (virtNets d) \<and> si < vn_size (virtNets d ! vi)}"
    "\<forall>th\<in>set ths. thr_work th \<noteq> []" "sum_list (map thr_n ths) = fl_num_attachments fl"
proof -
  obtain addr' where s: "drv_start (ths, d)" "mset (concat (map thr_work ths)) = mset (vn_attachments (map vn_size (virtNets d)))"
    and n: "sum_list (map thr_n ths) = fl_num_attachments fl"
    using main_started [OF assms(1,2)] assms(3) by metis
  show "distinct (concat (map thr_work ths))" using s(1) by (simp add: drv_start_def)
  show "set (concat (map thr_work ths)) = {(vi, si). vi < length (virtNets d) \<and> si < vn_size (virtNets d ! vi)}"
    using mset_eq_setD [OF s(2)] vn_attachments_slots [of "map vn_size (virtNets d)"] by auto
  show "\<forall>th\<in>set ths. thr_work th \<noteq> []" using s(1) by (auto simp: drv_start_def thread_start_def)
  show "sum_list (map thr_n ths) = fl_num_attachments fl" by (rule n)
qed

text \<open>
  C12: No name is requested twice in a run, whatever the order in which threads and notifications
  take their turns, as long as the indices of no network reach 2^32.
\<close>

theorem names_never_repeat:
  assumes "start_ok lo powf r ns addr db intn1 intn2" "drv_main lo powf (subnet_api seen uid) ns addr db fl intn1 intn2 = Inr s"
    and "\<forall>vn\<in>set (virtNets (snd s)). vn_size vn * fl_num_attachments fl < 2 ^ 32" and "(drv_step tp)\<^sup>*\<^sup>* s s'"
  shows "distinct (requested (globals (snd s')))"
proof -
  let ?num = "fl_num_attachments fl" and ?digs = "tp_digits tp"
  obtain ths d ths' d' where s: "s = (ths, d)" "s' = (ths', d')" by (cases s, cases s')
  obtain addr' where st: "drv_start (ths, d)" "ths \<noteq> [] \<Longrightarrow> sum_list (map thr_n ths) = ?num"
    using main_started [OF assms(1) assms(2) [unfolded s]] by metis
  have k: "drv_ok ?digs (ths', d')" "map thr_work ths' = map thr_work ths" "map thr_n ths' = map thr_n ths"
    "sh_static (shape d') = sh_static (shape d)"
    using drv_steps_ok [OF assms(4)] drv_start_ok [OF st(1)] s by simp_all
  have "places_ok ?num (shape d') (map thr_work ths')"
    using start_places [OF st(1), of ?num] assms(3) s places_ok_static [OF k(4)] k(2) by simp
  moreover have "requests th \<le> ?num" if "th \<in> set ths'" for th
  proof -
    have "ths \<noteq> []" using that k(2) by auto
    then have "thr_n th \<le> ?num" using share_le_num [of ths' ?num th] st(2) k(3) that by simp
    moreover have "requests th \<le> thr_n th" using k(1) that thread_ok_requests by (auto simp: drv_ok_def)
    ultimately show ?thesis by simp
  qed
  ultimately have "distinct (concat (map (names_of ?digs (shape d')) ths'))" by (blast intro: names_distinct)
  then show ?thesis using k(1) s mset_eq_imp_distinct_iff unfolding drv_ok_def by auto
qed

theorem names_never_repeat_witness:
  "\<exists>s s'. one_main = Inr s \<and> (drv_step one_params)\<^sup>*\<^sup>* s s' \<and> (\<forall>th\<in>set (fst s'). pc th = Returned) \<and>
    distinct (requested (globals (snd s')))"
proof -
  obtain s s' where r: "one_main = Inr s" "(calm_step one_params)\<^sup>*\<^sup>* s s'" "\<forall>th\<in>set (fst s'). pc th = Returned"
    using one_run by blast
  note steps = calm_drv_steps [OF r(2)]
  have "distinct (requested (globals (snd s')))"
    by (rule names_never_repeat [OF one_net_ok r(1) [unfolded one_main_def] one_main_size(1) [OF r(1)] steps])
  then show ?thesis using r(1,3) steps by blast
qed

text \<open>
  Without a node to choose the call that picks one panics: \<open>rand.Intn(0)\<close> and the remainder by zero
  panic in Go, and so does an index into the empty list.
\<close>

lemma choose_node_empty: "\<not> nodes_ok tp \<Longrightarrow> choose_node tp th intn = Inl IndexOutOfRange"
  by (simp add: nodes_ok_def choose_node_def go_nth_def Let_def)

lemma creation_needs_node:
  assumes wf: "driver_wf d" and th: "thread_start d th" "0 < thr_n th" and "stoppers (globals d) = 0" "\<not> nodes_ok tp"
  shows "loop_top tp False intn now ts th d = Inl IndexOutOfRange"
proof -
  obtain vi si where w: "go_nth (thr_work th) (iCreate th mod length (thr_work th)) = Inr (vi, si)" "(vi, si) \<in> set (thr_work th)"
    using th(1) nth_mem [of 0 "thr_work th"] by (metis (no_types, lifting) go_nth_def length_greater_0_conv mod_0 surj_pair thread_start_def)
  then have "vi < length (virtNets d)" using th(1) by (auto simp: thread_start_def)
  then obtain c s where "choose_subnet (virtNets d ! vi) = Inr ((virtNets d ! vi)\<lparr>createdCount := c\<rparr>, s)"
    using choose_subnet_ok driver_wf_nth [OF wf] by blast
  then have "create_begin tp intn now ts th d = Inl IndexOutOfRange"
    using w(1) choose_node_empty [OF assms(5)] by (simp add: create_begin_def Let_def)
  moreover have same: "th\<lparr>createAllowed := True\<rparr> = th" using th(1) by (simp add: thread_start_def)
  ultimately show ?thesis using th assms(4) by (simp add: loop_top_def thread_start_def same)
qed

text \<open>
  C27: When some node matches or the flag -only-node is given, then in every state of a run the
  networks are well formed (each has a subnet, its latest tested slot is one of its slots, and a slot
  with a creation time has an attachment), and no thread can panic in its next piece of work, random
  numbers being within the bounds asked for. When no node matches and the flag is not given, every
  thread that has something to create panics in its first piece of work.
\<close>

theorem threads_never_panic:
  assumes "start_ok lo powf r ns addr db intn1 intn2" "drv_main lo powf (subnet_api seen uid) ns addr db fl intn1 intn2 = Inr s"
  shows "(\<forall>ths' d' th. nodes_ok tp \<and> (drv_step tp)\<^sup>*\<^sup>* s (ths', d') \<and> th \<in> set ths' \<longrightarrow> driver_wf d' \<and>
      (\<forall>intn stopped now ts. pc th = AtTop \<and> (\<forall>m>0. intn m < m) \<longrightarrow>
        (\<exists>th1 d1. loop_top tp stopped intn now ts th d' = Inr (th1, d1))) \<and>
      (\<forall>plan tLimit now ts. pc th = WaitingPeer plan tLimit \<longrightarrow>
        (\<exists>th1 d1. create_resume tp now ts plan tLimit th d' = Inr (th1, d1)))) \<and>
    (\<forall>th intn now ts. \<not> nodes_ok tp \<and> th \<in> set (fst s) \<and> 0 < thr_n th \<longrightarrow>
      (\<exists>p. loop_top tp False intn now ts th (snd s) = Inl p))"
proof -
  note start = main_safe [OF assms]
  obtain ths d where s: "s = (ths, d)" by (cases s)
  obtain addr' where m: "nets_laid lo powf ns (lo_num_nets lo) addr' d" "drv_start (ths, d)"
    using main_started [OF assms [unfolded s]] by metis
  have "loop_top tp False intn now ts th d = Inl IndexOutOfRange"
    if "\<not> nodes_ok tp" "th \<in> set ths" "0 < thr_n th" for th intn now ts
    using creation_needs_node [OF _ _ that(3) _ that(1)] m that(2) start [of tp] s
    by (simp add: drv_safe_def drv_start_def nets_laid_def new_globals_def)
  moreover have "driver_wf d' \<and>
      (\<forall>intn stopped now ts. pc th = AtTop \<and> (\<forall>m>0. intn m < m) \<longrightarrow> (\<exists>th1 d1. loop_top tp stopped intn now ts th d' = Inr (th1, d1))) \<and>
      (\<forall>plan tLimit now ts. pc th = WaitingPeer plan tLimit \<longrightarrow> (\<exists>th1 d1. create_resume tp now ts plan tLimit th d' = Inr (th1, d1)))"
    if r: "nodes_ok tp" "(drv_step tp)\<^sup>*\<^sup>* s (ths', d')" "th \<in> set ths'" for ths' d' th
  proof -
    have safe: "drv_safe tp (ths', d')" by (rule drv_steps_safe [OF r(2) start r(1)])
    obtain t where t: "t < length ths'" "ths' ! t = th" using r(3) by (auto simp: in_set_conv_nth)
    note ok = drv_safe_thread [OF safe t(1), unfolded t(2)]
    have "\<exists>th1 d1. loop_top tp stopped intn now ts th d' = Inr (th1, d1)" if "pc th = AtTop" "\<forall>m>0. intn m < m" for intn stopped now ts
      using loop_top_wf [OF ok(3,1,2) that(1) r(1) that(2)] by blast
    moreover have "\<exists>th1 d1. create_resume tp now ts plan tLimit th d' = Inr (th1, d1)" if "pc th = WaitingPeer plan tLimit" for plan tLimit now ts
      using create_resume_wf [OF ok(3)] plan_slot [OF safe t(1)] t(2) that by blast
    ultimately show ?thesis using ok(3) by blast
  qed
  ultimately show ?thesis using s by auto
qed

text \<open>A thread of the small run, with a node and without one.\<close>

theorem threads_never_panic_witness:
  "\<exists>s th. one_main = Inr s \<and> th \<in> set (fst s) \<and> driver_wf (snd s) \<and>
    (\<exists>th1 d1. loop_top one_params False (\<lambda>_. 0) 1 [] th (snd s) = Inr (th1, d1)) \<and>
    (\<exists>p. loop_top (one_params\<lparr>tp_nodes := [], tp_flags := one_flags\<lparr>fl_onlyNode := []\<rparr>\<rparr>) False (\<lambda>_. 0) 1 [] th (snd s) = Inl p)"
proof -
  let ?none = "one_params\<lparr>tp_nodes := [], tp_flags := one_flags\<lparr>fl_onlyNode := []\<rparr>\<rparr>"
  obtain s where s: "one_main = Inr s" using one_main_returns by blast
  have "drv_main one_net (\<lambda>_. 1) (subnet_api (\<lambda>_ _. True) (\<lambda>db. ''u'')) ''run'' 0 [] one_flags (\<lambda>_. 0) (\<lambda>_. 0) = Inr (fst s, snd s)"
    using s by (simp add: one_main_def)
  from work_shared_out(4) [OF one_net_ok this one_main_size(2) [OF s]]
  have "sum_list (map thr_n (fst s)) \<noteq> 0" by (simp add: one_flags_def)
  then obtain th where th: "th \<in> set (fst s)" "0 < thr_n th" by (auto simp: sum_list_eq_0_iff)
  then have top: "pc th = AtTop" using one_main_size(3) [OF s] by blast
  note never = threads_never_panic [OF one_net_ok s [unfolded one_main_def]]
  have "(drv_step one_params)\<^sup>*\<^sup>* s (fst s, snd s)" by simp
  then have "driver_wf (snd s) \<and> (\<forall>intn stopped now ts. pc th = AtTop \<and> (\<forall>m>0. intn m < m) \<longrightarrow>
      (\<exists>th1 d1. loop_top one_params stopped intn now ts th (snd s) = Inr (th1, d1)))"
    using never [of one_params] one_nodes th(1) by blast
  then have "driver_wf (snd s)" "\<exists>th1 d1. loop_top one_params False (\<lambda>_. 0) 1 [] th (snd s) = Inr (th1, d1)"
    using top by simp_all
  moreover have "\<not> nodes_ok ?none" by (simp add: nodes_ok_def)
  then have "\<exists>p. loop_top ?none False (\<lambda>_. 0) 1 [] th (snd s) = Inl p"
    using never [of ?none] th by blast
  ultimately show ?thesis using s th(1) by (intro exI [of _ s] exI [of _ th]) simp
qed

text \<open>
  C28: From every state of a run with some node to choose the threads can all return, and there are
  only finitely many pieces of work on the way: every step that changes a thread lowers the rank of
  the threads.
\<close>

theorem threads_finish:
  assumes "start_ok lo powf r ns addr db intn1 intn2" "drv_main lo powf (subnet_api seen uid) ns addr db fl intn1 intn2 = Inr s"
    and "nodes_ok tp" "(drv_step tp)\<^sup>*\<^sup>* s s'"
  shows "(\<exists>s''. (drv_step tp)\<^sup>*\<^sup>* s' s'' \<and> (\<forall>th\<in>set (fst s''). pc th = Returned)) \<and>
    (\<forall>s''. drv_step tp s' s'' \<longrightarrow> fst s'' = fst s' \<or> total_rank (fst s'') < total_rank (fst s'))"
proof -
  have "drv_safe tp s'" by (rule drv_steps_safe [OF assms(4) main_safe [OF assms(1,2)] assms(3)])
  then show ?thesis using threads_can_return [OF _ assms(3)] calm_drv_steps drv_step_rank by blast
qed

theorem threads_finish_witness:
  "\<exists>s s''. one_main = Inr s \<and> (drv_step one_params)\<^sup>*\<^sup>* s s'' \<and> (\<forall>th\<in>set (fst s''). pc th = Returned)"
proof -
  obtain s where s: "one_main = Inr s" using one_main_returns by blast
  then show ?thesis
    using threads_finish [OF one_net_ok s [unfolded one_main_def] one_nodes rtranclp.rtrancl_refl] by blast
qed



section \<open>Addresses\<close>

text \<open>
  C13: In every state of a calm run, in which no notification of an address overtakes the reply to
  the call that creates the attachment, the index of a network maps every address to exactly the
  names of the attachments in its slots that have it.
\<close>

theorem addresses_exact:
  assumes "start_ok lo powf r ns addr db intn1 intn2" "drv_main lo powf (subnet_api seen uid) ns addr db fl intn1 intn2 = Inr s"
    and "fst s \<noteq> []" "\<forall>vn\<in>set (virtNets (snd s)). vn_size vn * fl_num_attachments fl < 2 ^ 32"
    and "nodes_ok tp" "(calm_step tp)\<^sup>*\<^sup>* s s'" "vn \<in> set (virtNets (snd s'))" "ip \<noteq> []"
    and "own = {currentAttachmentName slot |slot a. slot \<in> set (slots vn) \<and> slot_natt slot = Some a \<and> natt_IPv4 a = ip}"
  shows "addrs vn ip = (if own = {} then None else Some own)"
proof -
  have "calm_ok tp (fl_num_attachments fl) s'"
    by (rule calm_steps_ok [OF assms(6) main_calm [OF assms(1-4)] assms(5)])
  then have "exact (view (snd s'))" by (auto simp: calm_ok_def)
  then show ?thesis by (rule exact_addrs [OF _ assms(7-9)])
qed

theorem addresses_exact_witness:
  "\<exists>s s'. one_main = Inr s \<and> (calm_step one_params)\<^sup>*\<^sup>* s s' \<and> (\<forall>th\<in>set (fst s'). pc th = Returned) \<and>
    (\<forall>vn\<in>set (virtNets (snd s')).
       let own = {currentAttachmentName slot |slot a. slot \<in> set (slots vn) \<and> slot_natt slot = Some a \<and> natt_IPv4 a = ''0.0.0.2''}
       in addrs vn ''0.0.0.2'' = (if own = {} then None else Some own))"
proof -
  obtain s s' where r: "one_main = Inr s" "(calm_step one_params)\<^sup>*\<^sup>* s s'" "\<forall>th\<in>set (fst s'). pc th = Returned"
    using one_run by blast
  show ?thesis unfolding Let_def
    using addresses_exact [OF one_net_ok r(1) [unfolded one_main_def] one_main_size(2,1) [OF r(1)] one_nodes r(2) _ _ refl] r
    by blast
qed

text \<open>
  C29: When the threads have returned after a calm run, closing all slots does not panic and leaves
  no name and no attachment in a slot and no address in an index.
\<close>

theorem closing_empties_index:
  assumes "start_ok lo powf r ns addr db intn1 intn2" "drv_main lo powf (subnet_api seen uid) ns addr db fl intn1 intn2 = Inr s"
    and "fst s \<noteq> []" "\<forall>vn\<in>set (virtNets (snd s)). vn_size vn * fl_num_attachments fl < 2 ^ 32"
    and "nodes_ok tp" "(calm_step tp)\<^sup>*\<^sup>* s (ths', d')" "\<forall>th\<in>set ths'. pc th = Returned"
  shows "\<exists>d''. close_all fl d' = Inr d'' \<and> (\<forall>vn\<in>set (virtNets d''). addrs vn = Map.empty \<and>
    (\<forall>slot\<in>set (slots vn). currentAttachmentName slot = [] \<and> slot_natt slot = None))"
proof -
  have "calm_ok tp (fl_num_attachments fl) (ths', d')"
    by (rule calm_steps_ok [OF assms(6) main_calm [OF assms(1-4)] assms(5)])
  then show ?thesis by (intro close_all_settled calm_settled [OF _ assms(7)])
qed

theorem closing_empties_index_witness:
  "\<exists>s s' d''. one_main = Inr s \<and> (calm_step one_params)\<^sup>*\<^sup>* s s' \<and> close_all one_flags (snd s') = Inr d'' \<and>
    (\<forall>vn\<in>set (virtNets d''). addrs vn = Map.empty)"
proof -
  obtain s ths' d' where r: "one_main = Inr s" "(calm_step one_params)\<^sup>*\<^sup>* s (ths', d')" "\<forall>th\<in>set ths'. pc th = Returned"
    using one_run by fastforce
  show ?thesis
    using closing_empties_index [OF one_net_ok r(1) [unfolded one_main_def] one_main_size(2,1) [OF r(1)] one_nodes r(2,3)] r(1,2)
    by fastforce
qed

end
