(* ===== verification/Driver_Flaws.thy ===== *)
theory Driver_Flaws
  imports Driver_Props
begin

text \<open>
  The schedule of retries of the throughput driver, and two flaws of its bookkeeping: an address
  that stays in the index when a notification overtakes the reply to a creation, and a latest
  tested slot that outlives the attachment that passed the test.
\<close>

section \<open>The schedule of retries\<close>

lemma doubled_wait: "0 < M \<Longrightarrow> min (2 ^ i * (if M < 2 * w then M else 2 * w)) M = min (2 ^ Suc i * w) (M::int)"
proof (cases "M < 2 * w")
  case True
  assume "0 < M"
  then have "M \<le> 2 ^ i * M" by simp
  moreover have "2 ^ i * M \<le> 2 ^ i * (2 * w)" using True by (intro mult_left_mono) simp_all
  moreover have "2 ^ Suc i * w = 2 ^ i * (2 * w)" by simp
  ultimately have "M \<le> 2 ^ i * M" "M \<le> 2 ^ Suc i * w" by linarith+
  then show ?thesis using True by (simp only: if_True min_absorb2)
qed (simp add: algebra_simps)

text \<open>
  C30: The attempts go on until one succeeds or the stop channel is closed; the wait after
  attempt number i is the first wait times 2^i, at most the longest wait.
\<close>

theorem withRetries_schedule:
  assumes "0 < w" "w \<le> M" "n = length (takeWhile (\<lambda>(ok, stop). \<not> ok \<and> \<not> stop) attempts)"
  shows "withRetries attempts w M =
    (if n = length attempts then None
     else Some (fst (attempts ! n), map (\<lambda>i. min (2 ^ i * w) M) [0..<n + (if fst (attempts ! n) then 0 else 1)]))"
  using assms
proof (induction attempts arbitrary: w n)
  case (Cons a attempts)
  obtain ok stop where a: "a = (ok, stop)" by (cases a)
  show ?case
  proof (cases "ok \<or> stop")
    case True
    then show ?thesis using Cons.prems a by auto
  next
    case False
    define n' where "n' = length (takeWhile (\<lambda>(ok, stop). \<not> ok \<and> \<not> stop) attempts)"
    let ?w = "if M < 2 * w then M else 2 * w"
    have n: "n = Suc n'" using Cons.prems(3) a False by (simp add: n'_def)
    have IH: "withRetries attempts ?w M = (if n' = length attempts then None
        else Some (fst (attempts ! n'), map (\<lambda>i. min (2 ^ i * ?w) M) [0..<n' + (if fst (attempts ! n') then 0 else 1)]))"
      using Cons.prems(1,2) by (intro Cons.IH [OF _ _ n'_def]) auto
    have "w # map (\<lambda>i. min (2 ^ i * ?w) M) [0..<k] = map (\<lambda>i. min (2 ^ i * w) M) [0..<Suc k]" for k
      using Cons.prems(1,2) doubled_wait [of M _ w]
      by (simp add: upt_rec [of 0 "Suc k"] map_Suc_upt [symmetric] comp_def del: upt_Suc)
    then show ?thesis using IH a False n by simp
  qed
qed simp

theorem withRetries_schedule_witness:
  "withRetries [(False, False), (False, False), (True, False)] 3 5 = Some (True, [3, 5])"
  using withRetries_schedule [of 3 5 2 "[(False, False), (False, False), (True, False)]"] by (simp add: upt_rec)

section \<open>Closing a slot\<close>

definition cleared :: "Slot \<Rightarrow> Slot" where
  "cleared slot = slot\<lparr>currentAttachmentName := [], currentNodeName := [], slot_natt := None, preCreateTime := 0\<rparr>"

lemma reset_slot_vn:
  assumes "vi < length (virtNets d)"
  shows "virtNets (reset_slot vi si d) ! vi = (virtNets d ! vi)\<lparr>slots := (slots (virtNets d ! vi))[si := cleared (slots (virtNets d ! vi) ! si)]\<rparr>"
    "length (virtNets (reset_slot vi si d)) = length (virtNets d)"
  using assms by (simp_all add: reset_slot_def set_vn_def upd_slot_def cleared_def)

lemma close_slot:
  assumes vi: "vi < length (virtNets d)" "vn = virtNets d ! vi" "idToVirtNet d (vn_ID vn) = Some vi"
    and slot: "slot = slots vn ! si" "slot_ok slot"
  shows "\<exists>natt d' m m'. close fl vi si d = Inr (natt, d') \<and> length (virtNets d') = length (virtNets d) \<and>
    virtNets d' ! vi = vn\<lparr>nodeMap := m, addrs := m', slots := (slots vn)[si := cleared slot]\<rparr> \<and>
    (natt_ip (slot_natt slot) = [] \<longrightarrow> m' = addrs vn)"
proof -
  show ?thesis
  proof (cases "preCreateTime slot = 0 \<or> natt_ip (slot_natt slot) = []")
    case True
    then obtain natt g where "close fl vi si d = Inr (natt, reset_slot vi si (d\<lparr>globals := g\<rparr>))"
    proof (cases "preCreateTime slot = 0")
      case True
      then show ?thesis using that [of "slot_natt slot" "globals d"] vi(2) slot(1) by (simp add: close_def Let_def)
    next
      case False
      then obtain a where "slot_natt slot = Some a" "natt_IPv4 a = []" using slot(2) \<open>_ \<or> _\<close> by (auto simp: slot_ok_def natt_ip_def)
      then show ?thesis using that False vi(2) slot(1) by (simp add: close_def Let_def)
    qed
    moreover have "virtNets (reset_slot vi si (d\<lparr>globals := g\<rparr>)) ! vi =
        vn\<lparr>nodeMap := nodeMap vn, addrs := addrs vn, slots := (slots vn)[si := cleared slot]\<rparr>"
      using reset_slot_vn(1) [of vi "d\<lparr>globals := g\<rparr>" si] vi(1,2) slot(1) by simp
    moreover have "length (virtNets (reset_slot vi si (d\<lparr>globals := g\<rparr>))) = length (virtNets d)"
      using reset_slot_vn(2) [of vi "d\<lparr>globals := g\<rparr>" si] vi(1) by simp
    ultimately show ?thesis by blast
  next
    case False
    then obtain a where a: "slot_natt slot = Some a" "natt_IPv4 a \<noteq> []" by (auto simp: natt_ip_def split: option.splits)
    define g where "g = (if addressedTime slot = 0 then globals d else
      observe_hist CreateToAddressed (addressedTime slot - preCreateTime slot) (fl_kubeNS fl) (natt_Name a) (globals d))"
    obtain vn2 g2 where mv: "ipAddressChanged (currentNodeName slot) (natt_IPv4 a) [] (currentAttachmentName slot) vn g = (vn2, g2)" by fastforce
    define g3 where "g3 = log_event (close_log fl slot) (close_observe slot (fl_kubeNS fl) (natt_Name a) g2)"
    have cl: "close fl vi si d = Inr (Some a, reset_slot vi si ((set_vn vi vn2 (d\<lparr>globals := g2\<rparr>))\<lparr>globals := g3\<rparr>))"
      using False a vi(3) mv by (cases "addressedTime slot = 0") (simp_all add: close_def Let_def g_def g3_def flip: vi(2) slot(1))
    obtain m m' where vn2: "vn2 = vn\<lparr>nodeMap := m, addrs := m'\<rparr>" using ipAddressChanged_frame(1) [OF mv] by blast
    let ?d = "(set_vn vi vn2 (d\<lparr>globals := g2\<rparr>))\<lparr>globals := g3\<rparr>"
    have "virtNets ?d ! vi = vn2" "length (virtNets ?d) = length (virtNets d)" using vi(1) by (simp_all add: set_vn_def)
    then show ?thesis using cl reset_slot_vn [of vi ?d si] vi(1) vn2 slot(1) False by auto
  qed
qed

section \<open>An owner that is never removed\<close>

text \<open>A new owner of an address that is in no index.\<close>

lemma observeState_new_owner:
  assumes "si < length (slots vn)" "slot = slots vn ! si" "natt_Name natt = currentAttachmentName slot" "slot_natt slot = None"
    and "natt_Namespace natt = fl_kubeNS fl" "natt_IPv4 natt = ip" "ip \<noteq> []" "check_address vn natt = Inr es" "addrs vn ip = None"
  shows "\<exists>vn1 g1 m slot1 cd. observeState fl now si natt vn g = Inr (vn1, g1) \<and> same_slot slot slot1 \<and>
    vn1 = vn\<lparr>nodeMap := m, addrs := (addrs vn)(ip \<mapsto> {natt_Name natt}), theCD := cd,
      slots := (slots vn)[si := slot1\<lparr>slot_natt := Some natt\<rparr>]\<rparr>"
proof -
  obtain vn1 g1 where at: "ipAddressChangedAtNode (currentNodeName slot) [] ip (currentAttachmentName slot) vn
      (log_event (GotAddress (currentAttachmentName slot) ip # es) g) = (vn1, g1)" by fastforce
  obtain m where m: "vn1 = vn\<lparr>nodeMap := m\<rparr>" using ipAddressChangedAtNode_frame [OF at] by blast
  have "ipAddressChangedInNS [] ip (currentAttachmentName slot) vn1 g1 =
      (vn1\<lparr>addrs := (addrs vn)(ip \<mapsto> {natt_Name natt})\<rparr>, g1)"
    using m assms(3,7,9) by (simp add: ipAddressChangedInNS_def Let_def)
  then have addr: "observe_address natt slot vn g = Inr (vn\<lparr>nodeMap := m, addrs := (addrs vn)(ip \<mapsto> {natt_Name natt})\<rparr>, g1)"
    using at m assms(4,6-8) by (simp add: observe_address_def ipAddressChanged_def Let_def)
  obtain slot2 cd2 g2 where pr: "observe_progress fl now si natt slot (theCD vn) g1 = (slot2, cd2, g2)" by (metis prod_cases3)
  then show ?thesis using addr assms(1,2,3,5) observe_progress_frame [OF pr]
    by (auto simp: observeState_def go_nth_def)
qed

text \<open>
  C39: A notification with an address is handled before the reply to the call that creates the
  attachment, and the slot is closed before any other notification about it. Then closing does not
  remove the name from the index: the reply has overwritten the notified object with one that has no
  address. In the state after closing, every other attachment that the index is told to give the
  address to is counted as one of several owners. (A notification with the address that is handled
  between the reply and closing would store the address again.)
\<close>

theorem overtaken_reply_keeps_owner:
  assumes vn: "vi < length (virtNets d)" "vn = virtNets d ! vi" "idToVirtNet d (vn_ID vn) = Some vi"
    and slot: "si < length (slots vn)" "slot = slots vn ! si" "natt_Name natt = currentAttachmentName slot" "slot_natt slot = None"
    and natt: "natt_Namespace natt = fl_kubeNS fl" "natt_IPv4 natt = ip" "ip \<noteq> []" "check_address vn natt = Inr es" "addrs vn ip = None"
    and reply: "natt_IPv4 a = []" "cp_vn plan = vi" "cp_slot plan = si"
  shows "\<exists>vn1 g1 th2 d2 r d3. observeState fl now si natt vn (globals d) = Inr (vn1, g1) \<and>
    create_end tp plan ti0 full tif (Inr a) th (set_vn vi vn1 (d\<lparr>globals := g1\<rparr>)) = (th2, d2) \<and>
    close fl vi si d2 = Inr (r, d3) \<and>
    currentAttachmentName (slots (virtNets d3 ! vi) ! si) = [] \<and> addrs (virtNets d3 ! vi) ip = Some {natt_Name natt} \<and>
    (\<forall>name g. name \<noteq> natt_Name natt \<longrightarrow>
       multiOwnerWarnings (snd (ipAddressChangedInNS [] ip name (virtNets d3 ! vi) g)) = multiOwnerWarnings g + 1)"
proof -
  obtain vn1 g1 m slot1 cd where ob: "observeState fl now si natt vn (globals d) = Inr (vn1, g1)"
    and vn1: "vn1 = vn\<lparr>nodeMap := m, addrs := (addrs vn)(ip \<mapsto> {natt_Name natt}), theCD := cd,
      slots := (slots vn)[si := slot1\<lparr>slot_natt := Some natt\<rparr>]\<rparr>"
    using observeState_new_owner [OF slot natt] by blast
  let ?d1 = "set_vn vi vn1 (d\<lparr>globals := g1\<rparr>)"
  obtain th2 d2 where ce: "create_end tp plan ti0 full tif (Inr a) th ?d1 = (th2, d2)" by fastforce
  define slot2 where "slot2 = setNetAtt ti0 tif a full (slots vn1 ! si)"
  obtain g2 where "d2 = set_vn vi (vn1\<lparr>slots := (slots vn1)[si := slot2]\<rparr>) (?d1\<lparr>globals := g2\<rparr>)"
    using ce reply vn(1) by (auto simp: create_end_def Let_def upd_slot_def slot2_def set_vn_def)
  then have d2: "virtNets d2 ! vi = vn1\<lparr>slots := (slots vn1)[si := slot2]\<rparr>" "length (virtNets d2) = length (virtNets d)"
    "idToVirtNet d2 = idToVirtNet d"
    using vn(1) by (simp_all add: set_vn_def)
  have s2: "slot2 = slots (virtNets d2 ! vi) ! si" "slot_ok slot2" "natt_ip (slot_natt slot2) = []"
    using slot(1) vn1 reply(1) d2(1) by (simp_all add: slot2_def setNetAtt_def slot_ok_def natt_ip_def)
  obtain r d3 m3 m4 where cl: "close fl vi si d2 = Inr (r, d3)" "m4 = addrs (virtNets d2 ! vi)"
    "virtNets d3 ! vi = (virtNets d2 ! vi)\<lparr>nodeMap := m3, addrs := m4, slots := (slots (virtNets d2 ! vi))[si := cleared slot2]\<rparr>"
    using close_slot [OF _ refl _ s2(1,2), of fl] s2(3) d2 vn vn1 by auto
  have own: "addrs (virtNets d3 ! vi) ip = Some {natt_Name natt}" using cl(2,3) d2(1) vn1 by simp
  have "currentAttachmentName (slots (virtNets d3 ! vi) ! si) = []" using cl(3) d2(1) vn1 slot(1) by (simp add: cleared_def)
  moreover have "multiOwnerWarnings (snd (ipAddressChangedInNS [] ip name (virtNets d3 ! vi) g)) = multiOwnerWarnings g + 1"
    if "name \<noteq> natt_Name natt" for name g
    using own that natt(3) by (simp add: ipAddressChangedInNS_def Let_def log_event_def)
  ultimately show ?thesis using ob ce cl(1) own by blast
qed

text \<open>A slot whose attachment is being created, and a notification of its address.\<close>

definition race_plan :: create_plan where
  "race_plan = \<lparr>cp_vn = 0, cp_slot = 0, cp_subnet = ''000001-a'', cp_name = ''000001-1'', cp_node = ''n1''\<rparr>"

definition race_reply :: drv_attachment where
  "race_reply = new_attachment one_flags race_plan [] [] []"

definition race_note :: drv_attachment where
  "race_note = race_reply\<lparr>att_Status := (att_Status race_reply)\<lparr>Status_IPv4 := ''10.0.0.2''\<rparr>\<rparr>"

definition race_net :: VirtNet where
  "race_net = \<lparr>vn_ID = 1, vn_size = 1, addr0I = 0x0A000000, addrFI = 0x0A000007, prefixLen = 29, subnets = [],
     theCD = Some (new_cd 1), slots = [(new_slot 0)\<lparr>currentAttachmentName := ''000001-1''\<rparr>], createdCount = 0,
     addrs = Map.empty, nodeMap = Map.empty\<rparr>"

definition race_driver :: driver where
  "race_driver = new_driver\<lparr>virtNets := [race_net], idToVirtNet := [1 \<mapsto> 0]\<rparr>"

lemma race_address: "check_address race_net race_note = Inr []"
proof -
  have "ParseIP ''10.0.0.2'' = [0, 0, 0, 0, 0, 0, 0, 0, 0, 0, 255, 255, 10, 0, 0, 2]" by code_simp
  moreover have "MakeUint32FromIPv4 [0, 0, 0, 0, 0, 0, 0, 0, 0, 0, 255, 255, 10, 0, 0, 2] = Inr 0x0A000002" by code_simp
  ultimately show ?thesis by (simp add: check_address_def race_note_def race_net_def)
qed

theorem overtaken_reply_keeps_owner_witness:
  "\<exists>vn1 g1 th2 d2 r d3. observeState one_flags 7 0 race_note race_net (globals race_driver) = Inr (vn1, g1) \<and>
    create_end one_params race_plan 5 True 9 (Inr race_reply) (new_thread 1 [(0, 0)] 1)
      (set_vn 0 vn1 (race_driver\<lparr>globals := g1\<rparr>)) = (th2, d2) \<and>
    close one_flags 0 0 d2 = Inr (r, d3) \<and> addrs (virtNets d3 ! 0) ''10.0.0.2'' = Some {''000001-1''}"
proof -
  have "0 < length (virtNets race_driver)" "race_net = virtNets race_driver ! 0" "idToVirtNet race_driver (vn_ID race_net) = Some 0"
    "0 < length (slots race_net)" "natt_Name race_note = currentAttachmentName (slots race_net ! 0)"
    "slot_natt (slots race_net ! 0) = None" "natt_Namespace race_note = fl_kubeNS one_flags" "natt_IPv4 race_note = ''10.0.0.2''"
    "''10.0.0.2'' \<noteq> []" "addrs race_net ''10.0.0.2'' = None" "natt_IPv4 race_reply = []" "cp_vn race_plan = 0" "cp_slot race_plan = 0"
    by (simp_all add: race_driver_def race_net_def race_note_def race_reply_def race_plan_def new_attachment_def one_flags_def new_slot_def)
  note h = this
  have "natt_Name race_note = ''000001-1''"
    by (simp add: race_note_def race_reply_def race_plan_def new_attachment_def)
  then show ?thesis
    using overtaken_reply_keeps_owner [OF h(1-4) refl h(5-9) race_address h(10-13), of 7 one_params 5 True 9 "new_thread 1 [(0, 0)] 1"]
    by fastforce
qed

section \<open>A tested slot that is reused\<close>

lemma create_call_vn:
  assumes "theCD vn = Some cd" "ready_peer vn cd = Inr peer" "vn = virtNets d ! cp_vn plan"
    and "setCurrentName (cp_slot plan) (cp_name plan) (cp_node plan) (slots vn ! cp_slot plan) (theCD vn) = (slot2, cd2)"
  shows "\<exists>th' g. create_call tp plan now ts th d =
    Inr (th', set_vn (cp_vn plan) (vn\<lparr>slots := (slots vn)[cp_slot plan := slot2], theCD := cd2\<rparr>) (d\<lparr>globals := g\<rparr>))"
  using assms(1,2,4) by (cases "fl_omitTest (tp_flags tp)") (simp_all add: create_call_def Let_def flip: assms(3), blast+)

text \<open>
  Closing a slot does not tell the connectivity domain that the tested attachment is gone.
  Until another slot passes a test, threads get no peer and do not wait for one; when the slot is
  used again, they get its new attachment, which has passed no test.
\<close>

lemma stale_peer_used:
  assumes vn: "vi < length (virtNets d)" "vn = virtNets d ! vi" "idToVirtNet d (vn_ID vn) = Some vi"
    and slot: "si < length (slots vn)" "slot_ok (slots vn ! si)" and cd: "theCD vn = Some cd" "latestIndex cd = int si"
    and plan: "cp_vn plan = vi" "cp_slot plan = si" "cp_name plan \<noteq> []"
  shows "\<exists>r d1 th2 d2 th3 d3 cd3. close fl vi si d = Inr (r, d1) \<and>
    theCD (virtNets d1 ! vi) = Some cd \<and> ready_peer (virtNets d1 ! vi) cd = Inr None \<and> \<not> must_wait cd \<and>
    create_call tp plan now ts th d1 = Inr (th2, d2) \<and> create_end tp plan now full tif (Inr a) th2 d2 = (th3, d3) \<and>
    theCD (virtNets d3 ! vi) = Some cd3 \<and> ready_peer (virtNets d3 ! vi) cd3 = Inr (Some a) \<and>
    testedTime (slots (virtNets d3 ! vi) ! si) = 0"
proof -
  obtain r d1 m m' where cl: "close fl vi si d = Inr (r, d1)" "length (virtNets d1) = length (virtNets d)"
    and v1: "virtNets d1 ! vi = vn\<lparr>nodeMap := m, addrs := m', slots := (slots vn)[si := cleared (slots vn ! si)]\<rparr>"
    using close_slot [OF vn refl slot(2), of fl] by blast
  have peer: "ready_peer (virtNets d1 ! vi) cd = Inr None"
    using v1 cd(2) slot(1) by (simp add: ready_peer_def go_nth_def cleared_def)
  obtain slot2 cd2 where n: "setCurrentName si (cp_name plan) (cp_node plan) (slots (virtNets d1 ! vi) ! si)
      (theCD (virtNets d1 ! vi)) = (slot2, cd2)" by fastforce
  have s2: "testedTime slot2 = 0" and cd2: "cd2 = NotePending si (Some cd)"
    using n v1 cd(1) plan(3) by (auto simp: setCurrentName_def)
  have cd1: "theCD (virtNets d1 ! vi) = Some cd" using v1 cd(1) by simp
  obtain th2 g where "create_call tp plan now ts th d1 = Inr (th2, set_vn vi ((virtNets d1 ! vi)\<lparr>slots :=
      (slots (virtNets d1 ! vi))[si := slot2], theCD := cd2\<rparr>) (d1\<lparr>globals := g\<rparr>))"
    using create_call_vn [OF cd1 peer] n plan(1,2) by blast
  then obtain d2 where cc: "create_call tp plan now ts th d1 = Inr (th2, d2)" "length (virtNets d2) = length (virtNets d1)"
    "virtNets d2 ! vi = (virtNets d1 ! vi)\<lparr>slots := (slots (virtNets d1 ! vi))[si := slot2], theCD := cd2\<rparr>"
    using vn(1) cl(2) by (simp add: set_vn_def)
  obtain th3 d3 where ce: "create_end tp plan now full tif (Inr a) th2 d2 = (th3, d3)" by fastforce
  then have v3: "virtNets d3 ! vi = upd_slot si (setNetAtt now tif a full) (virtNets d2 ! vi)"
    using plan(1,2) vn(1) cl(2) cc(2) by (auto simp: create_end_def Let_def set_vn_def)
  have "theCD (virtNets d3 ! vi) = Some (cd\<lparr>pendingIndices := insert si (pendingIndices cd)\<rparr>)"
    using v3 cc(3) cd2 by (simp add: upd_slot_def NotePending_def)
  moreover have "ready_peer (virtNets d3 ! vi) (cd\<lparr>pendingIndices := insert si (pendingIndices cd)\<rparr>) = Inr (Some a)"
    "testedTime (slots (virtNets d3 ! vi) ! si) = 0"
    using v3 cc(3) v1 cd(2) slot(1) s2 by (simp_all add: ready_peer_def go_nth_def upd_slot_def setNetAtt_def)
  moreover have "\<not> must_wait cd" using cd(2) by (simp add: must_wait_def)
  ultimately show ?thesis using cl(1) peer cc(1) ce cd1 by blast
qed

lemma stale_peer_used_witness:
  "\<exists>r d1 th2 d2 th3 d3 cd3. close one_flags 0 0 (race_driver\<lparr>virtNets := [race_net\<lparr>theCD := Some ((new_cd 1)\<lparr>latestIndex := 0\<rparr>)\<rparr>]\<rparr>) = Inr (r, d1) \<and>
    create_call one_params race_plan 5 [] (new_thread 1 [(0, 0)] 1) d1 = Inr (th2, d2) \<and>
    create_end one_params race_plan 5 True 9 (Inr race_reply) th2 d2 = (th3, d3) \<and>
    ready_peer (virtNets d3 ! 0) cd3 = Inr (Some race_reply) \<and> testedTime (slots (virtNets d3 ! 0) ! 0) = 0"
proof -
  let ?cd = "(new_cd 1)\<lparr>latestIndex := 0\<rparr>"
  let ?d = "race_driver\<lparr>virtNets := [race_net\<lparr>theCD := Some ?cd\<rparr>]\<rparr>" and ?vn = "race_net\<lparr>theCD := Some ?cd\<rparr>"
  have h: "0 < length (virtNets ?d)" "?vn = virtNets ?d ! 0" "idToVirtNet ?d (vn_ID ?vn) = Some 0" "0 < length (slots ?vn)"
    "slot_ok (slots ?vn ! 0)" "theCD ?vn = Some ?cd" "latestIndex ?cd = int 0" "cp_vn race_plan = 0" "cp_slot race_plan = 0"
    "cp_name race_plan \<noteq> []"
    by (simp_all add: race_driver_def race_net_def race_plan_def new_slot_def slot_ok_def)
  show ?thesis
    using stale_peer_used [OF h, of one_flags one_params 5 "[]" "new_thread 1 [(0, 0)] 1" True 9 race_reply] by blast
qed

end
