(* ===== verification/Obj_Memory.thy ===== *)
theory Obj_Memory
  imports Kos_Prelude
begin

text \<open>
  Go memory as far as deep copies need it: locations hold arrays, a pointer names an element of an
  array, a slice a window of one. The interface \<open>deep_copier\<close> says what a deep copy promises, and
  the copies of pointers, slices and nil are shown to meet it whenever the copy of their elements
  does, so that the struct types only have to be put together.
\<close>

section \<open>Memory\<close>

text \<open>Locations below \<open>lim\<close> are allocated; the contents of the others mean nothing.\<close>

record 'c mem =
  lim :: nat
  cells :: "nat \<Rightarrow> 'c"

record slice =
  s_arr :: nat
  s_off :: nat
  s_len :: nat
  s_cap :: nat

type_synonym pointer = "nat \<times> nat"

text \<open>How arrays of a type are kept in cells, and the zero value of the type.\<close>

record ('a, 'c) view =
  v_mk :: "'a list \<Rightarrow> 'c"
  v_un :: "'c \<Rightarrow> 'a list option"
  v_zero :: 'a

definition alloc :: "'c \<Rightarrow> 'c mem \<Rightarrow> nat \<times> 'c mem" where
  "alloc c M = (lim M, M\<lparr>lim := lim M + 1, cells := (cells M)(lim M := c)\<rparr>)"

definition items_at :: "('a, 'c) view \<Rightarrow> nat \<Rightarrow> 'c mem \<Rightarrow> 'a list" where
  "items_at v l M = (case v_un v (cells M l) of None \<Rightarrow> [] | Some xs \<Rightarrow> xs)"

definition put_item :: "('a, 'c) view \<Rightarrow> nat \<Rightarrow> nat \<Rightarrow> 'a \<Rightarrow> 'c mem \<Rightarrow> 'c mem" where
  "put_item v l i x M = M\<lparr>cells := (cells M)(l := v_mk v ((items_at v l M)[i := x]))\<rparr>"

definition slice_items :: "('a, 'c) view \<Rightarrow> slice \<Rightarrow> 'c mem \<Rightarrow> 'a list" where
  "slice_items v s M = take (s_len s) (drop (s_off s) (items_at v (s_arr s) M))"

text \<open>\<open>make([]T, n)\<close>, and the assignments of \<open>new(T)\<close>.\<close>

definition make_slice :: "('a, 'c) view \<Rightarrow> nat \<Rightarrow> 'c mem \<Rightarrow> slice \<times> 'c mem" where
  "make_slice v n M =
     (let (l, M1) = alloc (v_mk v (replicate n (v_zero v))) M
      in (\<lparr>s_arr = l, s_off = 0, s_len = n, s_cap = n\<rparr>, M1))"

definition new_item :: "('a, 'c) view \<Rightarrow> 'c mem \<Rightarrow> pointer \<times> 'c mem" where
  "new_item v M = (let (l, M1) = alloc (v_mk v [v_zero v]) M in ((l, 0), M1))"

definition deref :: "('a, 'c) view \<Rightarrow> pointer \<Rightarrow> 'c mem \<Rightarrow> 'a" where
  "deref v p M = items_at v (fst p) M ! snd p"

definition assign :: "('a, 'c) view \<Rightarrow> pointer \<Rightarrow> 'a \<Rightarrow> 'c mem \<Rightarrow> 'c mem" where
  "assign v p x M = put_item v (fst p) (snd p) x M"

text \<open>A later memory in which nothing that was allocated has changed.\<close>

definition grows :: "'c mem \<Rightarrow> 'c mem \<Rightarrow> bool" where
  "grows M M' \<longleftrightarrow> lim M \<le> lim M' \<and> (\<forall>l<lim M. cells M' l = cells M l)"

text \<open>A memory in which the locations of \<open>L\<close> have not changed.\<close>

definition keeps :: "nat set \<Rightarrow> 'c mem \<Rightarrow> 'c mem \<Rightarrow> bool" where
  "keeps L M M' \<longleftrightarrow> lim M \<le> lim M' \<and> (\<forall>l\<in>L. cells M' l = cells M l)"

lemma grows_refl [simp]: "grows M M"
  by (simp add: grows_def)

lemma grows_trans [trans]: "grows M M1 \<Longrightarrow> grows M1 M2 \<Longrightarrow> grows M M2"
  by (auto simp: grows_def)

lemma grows_keeps: "grows M M' \<Longrightarrow> (\<And>l. l \<in> L \<Longrightarrow> l < lim M) \<Longrightarrow> keeps L M M'"
  by (auto simp: grows_def keeps_def)

lemma keeps_mono: "keeps L M M' \<Longrightarrow> K \<subseteq> L \<Longrightarrow> keeps K M M'"
  by (auto simp: keeps_def)

lemma grows_lim: "grows M M' \<Longrightarrow> lim M \<le> lim M'"
  by (simp add: grows_def)

lemma alloc_grows: "alloc c M = (l, M') \<Longrightarrow> grows M M'"
  by (auto simp: alloc_def grows_def)

lemma put_item_grows: "grows M M' \<Longrightarrow> lim M \<le> l \<Longrightarrow> grows M (put_item v l i x M')"
  by (auto simp: grows_def put_item_def)

lemma put_item_keeps: "l \<notin> L \<Longrightarrow> keeps L M (put_item v l i x M)"
  by (auto simp: keeps_def put_item_def)

lemma put_item_lim [simp]: "lim (put_item v l i x M) = lim M"
  by (simp add: put_item_def)

lemma items_at_keeps: "keeps L M M' \<Longrightarrow> l \<in> L \<Longrightarrow> items_at v l M' = items_at v l M"
  by (simp add: keeps_def items_at_def)

section \<open>The contract of a deep copy\<close>

text \<open>
  \<open>copy a M\<close> is the value that \<open>a.DeepCopyInto(out)\<close> leaves in \<open>*out\<close>, with the memory after it.
  \<open>ok\<close> says that everything reachable from a value is allocated and of its type, \<open>locs\<close> are the
  locations reachable from it, and \<open>val\<close> is what can be read through it.
\<close>

locale deep_copier =
  fixes copy :: "'a \<Rightarrow> 'c mem \<Rightarrow> 'a \<times> 'c mem"
    and ok :: "'a \<Rightarrow> 'c mem \<Rightarrow> bool"
    and locs :: "'a \<Rightarrow> 'c mem \<Rightarrow> nat set"
    and val :: "'a \<Rightarrow> 'c mem \<Rightarrow> 'v"
  assumes allocated: "ok a M \<Longrightarrow> l \<in> locs a M \<Longrightarrow> l < lim M"
    and reads: "ok a M \<Longrightarrow> keeps (locs a M) M M' \<Longrightarrow>
      ok a M' \<and> locs a M' = locs a M \<and> val a M' = val a M"
    and copies: "ok a M \<Longrightarrow> copy a M = (b, M') \<Longrightarrow>
      grows M M' \<and> ok b M' \<and> val b M' = val a M \<and> (\<forall>l\<in>locs b M'. lim M \<le> l)"
begin

lemma grown: "ok a M \<Longrightarrow> grows M M' \<Longrightarrow> ok a M' \<and> locs a M' = locs a M \<and> val a M' = val a M"
  by (rule reads) (auto intro: grows_keeps dest: allocated)

text \<open>A copy shares nothing with anything that existed before it was made.\<close>

lemma copy_apart: "ok a M \<Longrightarrow> copy a M = (b, M') \<Longrightarrow> (\<And>l. l \<in> L \<Longrightarrow> l < lim M) \<Longrightarrow> locs b M' \<inter> L = {}"
proof -
  assume a: "ok a M" "copy a M = (b, M')" and L: "\<And>l. l \<in> L \<Longrightarrow> l < lim M"
  have "\<forall>l\<in>locs b M'. lim M \<le> l" using copies [OF a] by blast
  then show ?thesis using L by (meson disjoint_iff not_less)
qed

text \<open>Changes that spare the locations of the original keep the original, and likewise for the copy.\<close>

lemma original_kept:
  assumes "ok a M" "copy a M = (b, M')" "keeps (- locs b M') M' M''"
  shows "ok a M''" "val a M'' = val a M"
proof -
  have *: "ok a M'" "locs a M' = locs a M" "val a M' = val a M"
    using grown [OF assms(1)] copies [OF assms(1,2)] by blast+
  have "locs b M' \<inter> locs a M = {}"
    using copy_apart [OF assms(1,2)] allocated [OF assms(1)] by blast
  then have "keeps (locs a M') M' M''"
    using assms(3) *(2) by (auto intro!: keeps_mono [OF assms(3)])
  from reads [OF *(1) this] show "ok a M''" "val a M'' = val a M"
    using *(3) by simp_all
qed

lemma copy_kept:
  assumes "ok a M" "copy a M = (b, M')" "keeps (locs b M') M' M''"
  shows "ok b M''" "val b M'' = val a M"
proof -
  have *: "ok b M'" "val b M' = val a M" using copies [OF assms(1,2)] by blast+
  from reads [OF *(1) assms(3)] show "ok b M''" "val b M'' = val a M" using *(2) by simp_all
qed

end

section \<open>Values without pointers, nil and pairs\<close>

definition copy_plain :: "'a \<Rightarrow> 'c mem \<Rightarrow> 'a \<times> 'c mem" where
  "copy_plain x M = (x, M)"

interpretation plain: deep_copier copy_plain "\<lambda>x M. True" "\<lambda>x M. {}" "\<lambda>x M. x"
  by unfold_locales (auto simp: copy_plain_def)

definition copy_opt :: "('a \<Rightarrow> 'c mem \<Rightarrow> 'a \<times> 'c mem) \<Rightarrow> 'a option \<Rightarrow> 'c mem \<Rightarrow> 'a option \<times> 'c mem" where
  "copy_opt cp x M = (case x of None \<Rightarrow> (None, M) | Some a \<Rightarrow> (let (b, M1) = cp a M in (Some b, M1)))"

definition opt_ok :: "('a \<Rightarrow> 'c mem \<Rightarrow> bool) \<Rightarrow> 'a option \<Rightarrow> 'c mem \<Rightarrow> bool" where
  "opt_ok ok x M \<longleftrightarrow> (case x of None \<Rightarrow> True | Some a \<Rightarrow> ok a M)"

definition opt_locs :: "('a \<Rightarrow> 'c mem \<Rightarrow> nat set) \<Rightarrow> 'a option \<Rightarrow> 'c mem \<Rightarrow> nat set" where
  "opt_locs locs x M = (case x of None \<Rightarrow> {} | Some a \<Rightarrow> locs a M)"

definition opt_val :: "('a \<Rightarrow> 'c mem \<Rightarrow> 'v) \<Rightarrow> 'a option \<Rightarrow> 'c mem \<Rightarrow> 'v option" where
  "opt_val val x M = map_option (\<lambda>a. val a M) x"

lemmas opt_defs = copy_opt_def opt_ok_def opt_locs_def opt_val_def

lemma opt_copier:
  assumes "deep_copier cp ok locs val"
  shows "deep_copier (copy_opt cp) (opt_ok ok) (opt_locs locs) (opt_val val)"
proof (unfold_locales, goal_cases)
  case (1 x M l)
  then show ?case using deep_copier.allocated [OF assms] by (cases x) (auto simp: opt_defs)
next
  case (2 x M M')
  then show ?case
    using deep_copier.reads [OF assms, of "the x" M M'] by (cases x) (simp_all add: opt_defs)
next
  case (3 x M y M')
  then show ?case
    using deep_copier.copies [OF assms, of "the x" M "the y" M']
    by (cases x) (auto simp: opt_defs split: prod.splits)
qed

definition copy_pair :: "('a \<Rightarrow> 'c mem \<Rightarrow> 'a \<times> 'c mem) \<Rightarrow> ('b \<Rightarrow> 'c mem \<Rightarrow> 'b \<times> 'c mem)
    \<Rightarrow> 'a \<times> 'b \<Rightarrow> 'c mem \<Rightarrow> ('a \<times> 'b) \<times> 'c mem" where
  "copy_pair cp1 cp2 x M =
     (let (a, M1) = cp1 (fst x) M; (b, M2) = cp2 (snd x) M1 in ((a, b), M2))"

definition pair_ok :: "('a \<Rightarrow> 'c mem \<Rightarrow> bool) \<Rightarrow> ('b \<Rightarrow> 'c mem \<Rightarrow> bool) \<Rightarrow> 'a \<times> 'b \<Rightarrow> 'c mem \<Rightarrow> bool" where
  "pair_ok ok1 ok2 x M \<longleftrightarrow> ok1 (fst x) M \<and> ok2 (snd x) M"

definition pair_locs :: "('a \<Rightarrow> 'c mem \<Rightarrow> nat set) \<Rightarrow> ('b \<Rightarrow> 'c mem \<Rightarrow> nat set) \<Rightarrow> 'a \<times> 'b \<Rightarrow> 'c mem \<Rightarrow> nat set" where
  "pair_locs locs1 locs2 x M = locs1 (fst x) M \<union> locs2 (snd x) M"

definition pair_val :: "('a \<Rightarrow> 'c mem \<Rightarrow> 'v) \<Rightarrow> ('b \<Rightarrow> 'c mem \<Rightarrow> 'w) \<Rightarrow> 'a \<times> 'b \<Rightarrow> 'c mem \<Rightarrow> 'v \<times> 'w" where
  "pair_val val1 val2 x M = (val1 (fst x) M, val2 (snd x) M)"

lemmas pair_defs = copy_pair_def pair_ok_def pair_locs_def pair_val_def

lemma pair_copier:
  assumes c1: "deep_copier cp1 ok1 locs1 val1" and c2: "deep_copier cp2 ok2 locs2 val2"
  shows "deep_copier (copy_pair cp1 cp2) (pair_ok ok1 ok2) (pair_locs locs1 locs2) (pair_val val1 val2)"
proof (unfold_locales, goal_cases)
  case (1 x M l)
  then show ?case
    using deep_copier.allocated [OF c1] deep_copier.allocated [OF c2] by (auto simp: pair_defs)
next
  case (2 x M M')
  then have "keeps (locs1 (fst x) M) M M'" "keeps (locs2 (snd x) M) M M'"
    by (auto simp: pair_defs intro: keeps_mono)
  then show ?case
    using 2 deep_copier.reads [OF c1, of "fst x" M M'] deep_copier.reads [OF c2, of "snd x" M M']
    by (simp add: pair_defs)
next
  case (3 x M y M')
  obtain b1 M1 where b1: "cp1 (fst x) M = (b1, M1)" by force
  obtain b2 where b2: "cp2 (snd x) M1 = (b2, M')" and y: "y = (b1, b2)"
    using 3 b1 by (auto simp: pair_defs split: prod.splits)
  have 1: "grows M M1" "ok1 b1 M1" "val1 b1 M1 = val1 (fst x) M" "\<forall>l\<in>locs1 b1 M1. lim M \<le> l"
    using deep_copier.copies [OF c1 _ b1] 3 by (auto simp: pair_defs)
  have ok2: "ok2 (snd x) M1" "val2 (snd x) M1 = val2 (snd x) M"
    using deep_copier.grown [OF c2 _ 1(1)] 3 by (auto simp: pair_defs)
  have 2: "grows M1 M'" "ok2 b2 M'" "val2 b2 M' = val2 (snd x) M" "\<forall>l\<in>locs2 b2 M'. lim M1 \<le> l"
    using deep_copier.copies [OF c2 ok2(1) b2] ok2 by auto
  have "ok1 b1 M'" "val1 b1 M' = val1 (fst x) M" "locs1 b1 M' = locs1 b1 M1"
    using deep_copier.grown [OF c1 1(2) 2(1)] 1 by auto
  moreover have "grows M M'" using 1(1) 2(1) by (rule grows_trans)
  moreover have "\<forall>l\<in>locs2 b2 M'. lim M \<le> l" using 2(4) grows_lim [OF 1(1)] le_trans by blast
  ultimately show ?case using 1(4) 2(2,3) by (auto simp: y pair_defs)
qed

text \<open>A struct whose fields with pointers are \<open>get\<close>, copied in the order of the code.\<close>

lemma struct_copier:
  assumes c: "deep_copier cp ok locs val"
    and copy: "\<And>s M. copy s M = (let (b, M1) = cp (get s) M in (upd b s, M1))"
    and get: "\<And>b s. get (upd b s) = b"
    and rest: "\<And>v b s. build v (upd b s) = build v s"
  shows "deep_copier copy (\<lambda>s M. ok (get s) M) (\<lambda>s M. locs (get s) M) (\<lambda>s M. build (val (get s) M) s)"
proof (unfold_locales, goal_cases)
  case (1 s M l)
  then show ?case using deep_copier.allocated [OF c] by auto
next
  case (2 s M M')
  then show ?case using deep_copier.reads [OF c 2] by simp
next
  case (3 s M t M')
  then obtain b where "cp (get s) M = (b, M')" "t = upd b s"
    by (auto simp: copy split: prod.splits)
  then show ?case using deep_copier.copies [OF c 3(1)] by (auto simp: get rest)
qed

end
