(* ===== verification/Obj_Slices.thy ===== *)
theory Obj_Slices
  imports Obj_Memory
begin

text \<open>
  Deep copies of pointers and of slices, as the generated code makes them: \<open>new\<close> or \<open>make\<close>, then
  \<open>DeepCopyInto\<close> for each element, or the built-in \<open>copy\<close> for strings. Both meet the contract
  \<open>deep_copier\<close> when the elements do. The interface \<open>cell_view\<close> is what the copies need of the way
  arrays are kept in cells.
\<close>

section \<open>Operations\<close>

text \<open>\<open>*out = new(T); (*in).DeepCopyInto(*out)\<close>.\<close>

definition copy_ptr :: "('a, 'c) view \<Rightarrow> ('a \<Rightarrow> 'c mem \<Rightarrow> 'a \<times> 'c mem) \<Rightarrow> pointer \<Rightarrow> 'c mem \<Rightarrow> pointer \<times> 'c mem" where
  "copy_ptr v cp p M =
     (let (q, M1) = new_item v M; (y, M2) = cp (deref v p M1) M1
      in (q, assign v q y M2))"

text \<open>\<open>for i := range *in { (*in)[i].DeepCopyInto(&(*out)[i]) }\<close>, the first \<open>n\<close> rounds.\<close>

primrec copy_loop :: "('a, 'c) view \<Rightarrow> ('a \<Rightarrow> 'c mem \<Rightarrow> 'a \<times> 'c mem) \<Rightarrow> slice \<Rightarrow> slice \<Rightarrow> nat \<Rightarrow> 'c mem \<Rightarrow> 'c mem" where
  "copy_loop v cp src out 0 M = M"
| "copy_loop v cp src out (Suc i) M =
     (let M1 = copy_loop v cp src out i M; (y, M2) = cp (slice_items v src M1 ! i) M1
      in put_item v (s_arr out) (s_off out + i) y M2)"

definition copy_slice :: "('a, 'c) view \<Rightarrow> ('a \<Rightarrow> 'c mem \<Rightarrow> 'a \<times> 'c mem) \<Rightarrow> slice \<Rightarrow> 'c mem \<Rightarrow> slice \<times> 'c mem" where
  "copy_slice v cp s M =
     (let (out, M1) = make_slice v (s_len s) M in (out, copy_loop v cp s out (s_len s) M1))"

text \<open>The built-in \<open>copy(out, in)\<close>.\<close>

definition go_copy :: "('a, 'c) view \<Rightarrow> slice \<Rightarrow> slice \<Rightarrow> 'c mem \<Rightarrow> 'c mem" where
  "go_copy v out src M =
     (let xs = take (s_len out) (slice_items v src M); arr = items_at v (s_arr out) M
      in M\<lparr>cells := (cells M)(s_arr out :=
           v_mk v (take (s_off out) arr @ xs @ drop (s_off out + length xs) arr))\<rparr>)"

definition copy_values :: "('a, 'c) view \<Rightarrow> slice \<Rightarrow> 'c mem \<Rightarrow> slice \<times> 'c mem" where
  "copy_values v s M = (let (out, M1) = make_slice v (s_len s) M in (out, go_copy v out s M1))"

section \<open>Well-formed pointers and slices\<close>

definition array_ok :: "('a, 'c) view \<Rightarrow> nat \<Rightarrow> 'c mem \<Rightarrow> bool" where
  "array_ok v l M \<longleftrightarrow> l < lim M \<and> v_un v (cells M l) \<noteq> None"

definition ptr_ok :: "('a, 'c) view \<Rightarrow> ('a \<Rightarrow> 'c mem \<Rightarrow> bool) \<Rightarrow> pointer \<Rightarrow> 'c mem \<Rightarrow> bool" where
  "ptr_ok v ok p M \<longleftrightarrow>
     array_ok v (fst p) M \<and> snd p < length (items_at v (fst p) M) \<and> ok (deref v p M) M"

definition ptr_locs :: "('a, 'c) view \<Rightarrow> ('a \<Rightarrow> 'c mem \<Rightarrow> nat set) \<Rightarrow> pointer \<Rightarrow> 'c mem \<Rightarrow> nat set" where
  "ptr_locs v locs p M = insert (fst p) (locs (deref v p M) M)"

definition ptr_val :: "('a, 'c) view \<Rightarrow> ('a \<Rightarrow> 'c mem \<Rightarrow> 'v) \<Rightarrow> pointer \<Rightarrow> 'c mem \<Rightarrow> 'v" where
  "ptr_val v val p M = val (deref v p M) M"

definition slice_ok :: "('a, 'c) view \<Rightarrow> ('a \<Rightarrow> 'c mem \<Rightarrow> bool) \<Rightarrow> slice \<Rightarrow> 'c mem \<Rightarrow> bool" where
  "slice_ok v ok s M \<longleftrightarrow>
     array_ok v (s_arr s) M \<and> s_len s \<le> s_cap s \<and> s_off s + s_cap s \<le> length (items_at v (s_arr s) M) \<and>
     list_all (\<lambda>x. ok x M) (slice_items v s M)"

definition slice_locs :: "('a, 'c) view \<Rightarrow> ('a \<Rightarrow> 'c mem \<Rightarrow> nat set) \<Rightarrow> slice \<Rightarrow> 'c mem \<Rightarrow> nat set" where
  "slice_locs v locs s M = insert (s_arr s) (\<Union>x\<in>set (slice_items v s M). locs x M)"

definition slice_val :: "('a, 'c) view \<Rightarrow> ('a \<Rightarrow> 'c mem \<Rightarrow> 'v) \<Rightarrow> slice \<Rightarrow> 'c mem \<Rightarrow> 'v list" where
  "slice_val v val s M = map (\<lambda>x. val x M) (slice_items v s M)"

lemmas ptr_defs = ptr_ok_def ptr_locs_def ptr_val_def
lemmas slice_defs = slice_ok_def slice_locs_def slice_val_def

lemma slice_items_length: "slice_ok v ok s M \<Longrightarrow> length (slice_items v s M) = s_len s"
  by (auto simp: slice_ok_def slice_items_def min_def)

lemma slice_items_keeps: "keeps L M M' \<Longrightarrow> s_arr s \<in> L \<Longrightarrow> slice_items v s M' = slice_items v s M"
  by (simp add: slice_items_def items_at_keeps)

lemma deref_keeps: "keeps L M M' \<Longrightarrow> fst p \<in> L \<Longrightarrow> deref v p M' = deref v p M"
  by (simp add: deref_def items_at_keeps)

lemma array_ok_keeps: "array_ok v l M \<Longrightarrow> keeps L M M' \<Longrightarrow> l \<in> L \<Longrightarrow> array_ok v l M'"
  by (auto simp: array_ok_def keeps_def)

lemma array_grown:
  assumes "array_ok v l M" "grows M M'"
  shows "array_ok v l M'" "items_at v l M' = items_at v l M"
  using assms by (auto simp: array_ok_def grows_def items_at_def)

lemma slice_items_grown: "slice_ok v ok s M \<Longrightarrow> grows M M' \<Longrightarrow> slice_items v s M' = slice_items v s M"
  by (auto simp: slice_ok_def slice_items_def dest: array_grown(2))

text \<open>What the loop over the elements of a slice has made of one of them.\<close>

definition copied :: "('a \<Rightarrow> 'c mem \<Rightarrow> bool) \<Rightarrow> ('a \<Rightarrow> 'c mem \<Rightarrow> nat set) \<Rightarrow> ('a \<Rightarrow> 'c mem \<Rightarrow> 'v)
    \<Rightarrow> 'c mem \<Rightarrow> 'a \<Rightarrow> 'c mem \<Rightarrow> 'a \<Rightarrow> bool" where
  "copied ok locs val M x M' y \<longleftrightarrow> ok y M' \<and> val y M' = val x M \<and> (\<forall>l\<in>locs y M'. lim M < l)"

context deep_copier
begin

lemma copied_put:
  assumes "copied ok locs val M x M1 y" "grows M1 M2"
  shows "copied ok locs val M x (put_item v (lim M) i z M2) y"
proof -
  have y: "ok y M2" "locs y M2 = locs y M1" "val y M2 = val y M1"
    using assms grown [of y M1 M2] by (auto simp: copied_def)
  have "keeps (locs y M2) M2 (put_item v (lim M) i z M2)"
    using assms(1) y(2) by (intro put_item_keeps) (auto simp: copied_def)
  from reads [OF y(1) this] show ?thesis using assms(1) y by (simp add: copied_def)
qed

end

section \<open>The laws\<close>

locale cell_view =
  fixes v :: "('a, 'c) view"
  assumes un_mk: "v_un v (v_mk v xs) = Some xs"
begin

lemma items_at_put: "items_at v l (put_item v l i x M) = (items_at v l M)[i := x]"
  by (simp add: items_at_def put_item_def un_mk split: option.splits)

lemma array_ok_put: "array_ok v l M \<Longrightarrow> array_ok v l (put_item v l i x M)"
  by (simp add: array_ok_def put_item_def un_mk)

lemma new_item_spec:
  assumes "new_item v M = (q, M1)"
  shows "grows M M1" "q = (lim M, 0)" "lim M1 = lim M + 1"
    "array_ok v (lim M) M1" "items_at v (lim M) M1 = [v_zero v]"
  using assms
  by (auto simp: new_item_def alloc_def grows_def array_ok_def items_at_def un_mk)

lemma make_slice_spec:
  assumes "make_slice v n M = (s, M1)"
  shows "grows M M1" "s = \<lparr>s_arr = lim M, s_off = 0, s_len = n, s_cap = n\<rparr>" "lim M1 = lim M + 1"
    "array_ok v (lim M) M1" "items_at v (lim M) M1 = replicate n (v_zero v)"
  using assms
  by (auto simp: make_slice_def alloc_def grows_def array_ok_def items_at_def un_mk)

text \<open>The variable that \<open>new\<close> made holds a copy, and is not among the locations of the copy itself.\<close>

lemma copy_ptr_spec:
  assumes c: "deep_copier cp ok locs val" and p: "ptr_ok v ok p M" and q: "copy_ptr v cp p M = (q, M')"
  shows "q = (lim M, 0)" "grows M M'" "array_ok v (lim M) M'" "items_at v (lim M) M' = [deref v q M']"
    "copied ok locs val M (deref v p M) M' (deref v q M')"
proof -
  obtain q1 M1 where n: "new_item v M = (q1, M1)" by (cases "new_item v M")
  note ns = new_item_spec [OF n]
  have p: "array_ok v (fst p) M" "ok (deref v p M) M" using p by (auto simp: ptr_defs)
  have d: "deref v p M1 = deref v p M" by (simp add: deref_def array_grown [OF p(1) ns(1)])
  obtain y M2 where y: "cp (deref v p M) M1 = (y, M2)" by (cases "cp (deref v p M) M1")
  show q1: "q = (lim M, 0)" using q by (simp add: copy_ptr_def n d y ns(2))
  have M': "M' = put_item v (lim M) 0 y M2" using q by (simp add: copy_ptr_def n d y ns(2) assign_def)
  have o: "ok (deref v p M) M1" "val (deref v p M) M1 = val (deref v p M) M"
    using deep_copier.grown [OF c p(2) ns(1)] by auto
  note cy = deep_copier.copies [OF c o(1) y]
  have g: "grows M1 M2" using cy by blast
  have i: "items_at v (lim M) M' = [y]" by (simp add: M' items_at_put array_grown(2) [OF ns(4) g] ns(5))
  then show "items_at v (lim M) M' = [deref v q M']" by (simp add: deref_def q1)
  show "array_ok v (lim M) M'" unfolding M' by (rule array_ok_put [OF array_grown(1) [OF ns(4) g]])
  show "grows M M'" unfolding M' by (rule put_item_grows [OF grows_trans [OF ns(1) g] le_refl])
  have "copied ok locs val M (deref v p M) M' y"
    unfolding M' by (rule deep_copier.copied_put [OF c _ grows_refl]) (use cy o ns(3) in \<open>auto simp: copied_def\<close>)
  then show "copied ok locs val M (deref v p M) M' (deref v q M')" using i by (simp add: deref_def q1)
qed

lemma ptr_copier:
  assumes c: "deep_copier cp ok locs val"
  shows "deep_copier (copy_ptr v cp) (ptr_ok v ok) (ptr_locs v locs) (ptr_val v val)"
proof (unfold_locales, goal_cases)
  case (1 p M l)
  then show ?case using deep_copier.allocated [OF c] by (auto simp: ptr_defs array_ok_def)
next
  case (2 p M M')
  then have k: "keeps {fst p} M M'" "keeps (locs (deref v p M) M) M M'"
    by (auto simp: ptr_defs intro: keeps_mono)
  then show ?case
    using 2 deep_copier.reads [OF c _ k(2)]
    by (simp add: ptr_defs deref_keeps [OF k(1)] items_at_keeps [OF k(1)] array_ok_keeps [OF _ k(1)])
next
  case (3 p M q M')
  from copy_ptr_spec [OF c 3] show ?case by (auto simp: ptr_defs copied_def)
qed

lemma copy_loop_inv:
  assumes c: "deep_copier cp ok locs val" and s: "slice_ok v ok s M"
    and m: "make_slice v (s_len s) M = (out, M1)"
  shows "i \<le> s_len s \<Longrightarrow> Mi = copy_loop v cp s out i M1 \<Longrightarrow>
    grows M Mi \<and> lim M < lim Mi \<and> array_ok v (lim M) Mi \<and> length (items_at v (lim M) Mi) = s_len s \<and>
    (\<forall>j<i. copied ok locs val M (slice_items v s M ! j) Mi (items_at v (lim M) Mi ! j))"
proof (induction i arbitrary: Mi)
  case 0
  then show ?case using make_slice_spec [OF m] by simp
next
  case (Suc i)
  define M2 where "M2 = copy_loop v cp s out i M1"
  note IH = Suc.IH [OF Suc_leD [OF Suc.prems(1)] M2_def]
  let ?x = "slice_items v s M ! i"
  have x: "slice_items v s M2 = slice_items v s M"
    using slice_items_grown [OF s] IH by blast
  obtain y M3 where y: "cp ?x M2 = (y, M3)" by (cases "cp ?x M2")
  have Mi: "Mi = put_item v (lim M) i y M3"
    using Suc.prems by (simp add: M2_def [symmetric] x y Let_def) (simp add: make_slice_spec(2) [OF m])
  have "ok ?x M"
    using s Suc.prems(1) slice_items_length [OF s] by (auto simp: slice_ok_def list_all_length)
  then have ox: "ok ?x M2" "val ?x M2 = val ?x M" using deep_copier.grown [OF c, of ?x M M2] IH by auto
  note cy = deep_copier.copies [OF c ox(1) y]
  have a: "array_ok v (lim M) M3" "items_at v (lim M) M3 = items_at v (lim M) M2"
    using array_grown [of v "lim M" M2 M3] IH cy by blast+
  have new: "copied ok locs val M ?x Mi y"
    unfolding Mi by (rule deep_copier.copied_put [OF c, of _ _ M3]) (use cy ox IH in \<open>force simp: copied_def\<close>)+
  have old: "copied ok locs val M (slice_items v s M ! j) Mi (items_at v (lim M) M2 ! j)" if "j < i" for j
    unfolding Mi by (rule deep_copier.copied_put [OF c, of _ _ M2]) (use IH cy that in auto)
  have g: "grows M M3" using IH cy by (blast intro: grows_trans)
  show ?case
    using IH Suc.prems(1) new old a(2) grows_lim [of M2 M3] cy put_item_grows [OF g le_refl] array_ok_put [OF a(1)]
    by (auto simp: Mi items_at_put less_Suc_eq nth_list_update)
qed

lemma slice_copier:
  assumes c: "deep_copier cp ok locs val"
  shows "deep_copier (copy_slice v cp) (slice_ok v ok) (slice_locs v locs) (slice_val v val)"
proof (unfold_locales, goal_cases)
  case (1 s M l)
  then show ?case using deep_copier.allocated [OF c] by (auto simp: slice_defs array_ok_def list_all_iff)
next
  case (2 s M M')
  then have k: "keeps {s_arr s} M M'" by (auto simp: slice_defs intro: keeps_mono)
  have e: "ok x M' \<and> locs x M' = locs x M \<and> val x M' = val x M" if "x \<in> set (slice_items v s M)" for x
    by (rule deep_copier.reads [OF c])
      (use 2 that in \<open>auto simp: slice_defs list_all_iff intro: keeps_mono\<close>)
  show ?case
    using 2(1) e
    by (simp add: slice_defs list_all_iff slice_items_keeps [OF k] items_at_keeps [OF k] array_ok_keeps [OF _ k])
next
  case (3 s M t M')
  obtain out M1 where m: "make_slice v (s_len s) M = (out, M1)" by (cases "make_slice v (s_len s) M")
  have t: "t = out" "M' = copy_loop v cp s out (s_len s) M1"
    using 3(2) by (auto simp: copy_slice_def m)
  note inv = copy_loop_inv [OF c 3(1) m le_refl t(2)]
  have items: "slice_items v t M' = items_at v (lim M) M'"
    using inv make_slice_spec(2) [OF m] by (simp add: t(1) slice_items_def)
  have "list_all2 (\<lambda>x y. copied ok locs val M x M' y) (slice_items v s M) (slice_items v t M')"
    using inv slice_items_length [OF 3(1)] by (auto simp: items list_all2_conv_all_nth)
  then have "list_all (\<lambda>y. ok y M' \<and> (\<forall>l\<in>locs y M'. lim M \<le> l)) (slice_items v t M')"
    "map (\<lambda>y. val y M') (slice_items v t M') = map (\<lambda>x. val x M) (slice_items v s M)"
    by (induction rule: list_all2_induct) (auto simp: copied_def)
  then show ?case
    using inv make_slice_spec(2) [OF m] by (auto simp: slice_defs t(1) list_all_iff items)
qed

text \<open>For values without pointers the built-in \<open>copy\<close> does what the loop would do.\<close>

lemma copy_values_copier:
  "deep_copier (copy_values v) (slice_ok v (\<lambda>x M. True)) (slice_locs v (\<lambda>x M. {})) (slice_val v (\<lambda>x M. x))"
proof (unfold_locales, goal_cases)
  case (1 s M l)
  then show ?case by (auto simp: slice_defs array_ok_def)
next
  case (2 s M M')
  then have k: "keeps {s_arr s} M M'" by (auto simp: slice_defs intro: keeps_mono)
  show ?case
    using 2(1) by (simp add: slice_defs slice_items_keeps [OF k] items_at_keeps [OF k] array_ok_keeps [OF _ k])
next
  case (3 s M t M')
  obtain out M1 where m: "make_slice v (s_len s) M = (out, M1)" by (cases "make_slice v (s_len s) M")
  note ms = make_slice_spec [OF m]
  have x: "slice_items v s M1 = slice_items v s M"
    by (rule slice_items_grown [OF 3(1) ms(1)])
  have M': "M' = M1\<lparr>cells := (cells M1)(lim M := v_mk v (slice_items v s M))\<rparr>" and t: "t = out"
    using 3(2) slice_items_length [OF 3(1)] by (auto simp: copy_values_def m go_copy_def x ms(2,5))
  have "items_at v (lim M) M' = slice_items v s M" by (simp add: items_at_def M' un_mk)
  moreover have "grows M M'" using ms(1) by (auto simp: grows_def M')
  ultimately show ?case
    using slice_items_length [OF 3(1)] ms(3)
    by (auto simp: slice_defs t ms(2) slice_items_def array_ok_def M' un_mk list_all_iff)
qed

end

end
