(* ===== verification/Obj_Types.thy ===== *)
theory Obj_Types
  imports Obj_Slices Net_API
begin

text \<open>
  The structs of \<open>pkg/apis/network/v1alpha1/types.go\<close> as they lie in memory, and the cells that
  hold arrays of them. A struct has a type parameter for its slices of strings and one for its
  pointers to reports: with \<open>slice\<close> and \<open>pointer\<close> it is the struct in memory, with string lists
  and reports it is what can be read through the struct. The metadata of an object comes from a
  library, so its type is a parameter, and so are the cells that only the library uses.
\<close>

section \<open>Structs\<close>

record TypeMeta =
  tm_Kind :: string
  tm_APIVersion :: string

record ListMeta =
  lm_SelfLink :: string
  lm_ResourceVersion :: string
  lm_Continue :: string

record 's go_Errors =
  go_IPAM :: "'s option"
  go_Host :: "'s option"

record 's go_Spec =
  go_Node :: string
  go_Subnet :: string
  go_PostCreateExec :: "'s option"
  go_PostDeleteExec :: "'s option"

record ('s, 'p) go_Status =
  go_Errors :: "'s go_Errors"
  go_LockUID :: string
  go_AddressVNI :: uint32
  go_IPv4 :: string
  go_MACAddress :: string
  go_IfcName :: string
  go_HostIP :: string
  go_PostCreateExecReport :: "'p option"

record ('m, 's, 'p) go_NetworkAttachment =
  na_TypeMeta :: TypeMeta
  na_ObjectMeta :: 'm
  na_Spec :: "'s go_Spec"
  na_Status :: "('s, 'p) go_Status"

record 's go_SubnetStatus =
  go_SubnetErrors :: "'s option"

record ('m, 's) go_Subnet =
  su_TypeMeta :: TypeMeta
  su_ObjectMeta :: 'm
  su_Spec :: SubnetSpec
  su_Status :: "'s go_SubnetStatus"

record IPLockSpec =
  ls_SubnetName :: string

record 'm go_IPLock =
  lo_TypeMeta :: TypeMeta
  lo_ObjectMeta :: 'm
  lo_Spec :: IPLockSpec

text \<open>\<open>NetworkAttachmentList\<close>, \<open>SubnetList\<close> and \<open>IPLockList\<close>: they differ in their items.\<close>

record 'i go_List =
  li_TypeMeta :: TypeMeta
  li_ListMeta :: ListMeta
  li_Items :: "'i option"

type_synonym 'm mem_Attachment = "('m, slice, pointer) go_NetworkAttachment"
type_synonym 'm mem_Subnet = "('m, slice) go_Subnet"
type_synonym 'm val_Attachment = "('m, string list, ExecReport) go_NetworkAttachment"
type_synonym 'm val_Subnet = "('m, string list) go_Subnet"

section \<open>Cells\<close>

datatype ('m, 'y) cell =
    Strings "string list"
  | Reports "ExecReport list"
  | Attachments "'m mem_Attachment list"
  | Subnets "'m mem_Subnet list"
  | Locks "'m go_IPLock list"
  | AttachmentLists "slice go_List list"
  | SubnetLists "slice go_List list"
  | LockLists "slice go_List list"
  | Foreign 'y

type_synonym ('m, 'y) memory = "('m, 'y) cell mem"

text \<open>\<open>ObjectMeta.DeepCopyInto\<close> of the library, and the zero value of \<open>ObjectMeta\<close>.\<close>

record ('m, 'y) meta_ops =
  meta_zero :: 'm
  meta_DeepCopyInto :: "'m \<Rightarrow> ('m, 'y) memory \<Rightarrow> 'm \<times> ('m, 'y) memory"

definition zero_TypeMeta :: TypeMeta where
  "zero_TypeMeta = \<lparr>tm_Kind = [], tm_APIVersion = []\<rparr>"

definition zero_ExecReport :: ExecReport where
  "zero_ExecReport = \<lparr>ExitStatus = 0, StartTime = 0, StopTime = 0, StdOut = [], StdErr = []\<rparr>"

definition zero_Attachment :: "'m \<Rightarrow> ('m, 's, 'p) go_NetworkAttachment" where
  "zero_Attachment z =
     \<lparr>na_TypeMeta = zero_TypeMeta, na_ObjectMeta = z,
      na_Spec = \<lparr>go_Node = [], go_Subnet = [], go_PostCreateExec = None, go_PostDeleteExec = None\<rparr>,
      na_Status = \<lparr>go_Errors = \<lparr>go_IPAM = None, go_Host = None\<rparr>, go_LockUID = [], go_AddressVNI = 0,
        go_IPv4 = [], go_MACAddress = [], go_IfcName = [], go_HostIP = [], go_PostCreateExecReport = None\<rparr>\<rparr>"

definition zero_Subnet :: "'m \<Rightarrow> ('m, 's) go_Subnet" where
  "zero_Subnet z =
     \<lparr>su_TypeMeta = zero_TypeMeta, su_ObjectMeta = z, su_Spec = \<lparr>sn_IPv4 = [], sn_VNI = 0\<rparr>,
      su_Status = \<lparr>go_SubnetErrors = None\<rparr>\<rparr>"

definition zero_IPLock :: "'m \<Rightarrow> 'm go_IPLock" where
  "zero_IPLock z = \<lparr>lo_TypeMeta = zero_TypeMeta, lo_ObjectMeta = z, lo_Spec = \<lparr>ls_SubnetName = []\<rparr>\<rparr>"

definition zero_List :: "'i go_List" where
  "zero_List =
     \<lparr>li_TypeMeta = zero_TypeMeta,
      li_ListMeta = \<lparr>lm_SelfLink = [], lm_ResourceVersion = [], lm_Continue = []\<rparr>, li_Items = None\<rparr>"

section \<open>Views of the cells\<close>

definition strings_view :: "(string, ('m, 'y) cell) view" where
  "strings_view = \<lparr>v_mk = Strings, v_un = (\<lambda>c. case c of Strings xs \<Rightarrow> Some xs | _ \<Rightarrow> None), v_zero = []\<rparr>"

definition reports_view :: "(ExecReport, ('m, 'y) cell) view" where
  "reports_view = \<lparr>v_mk = Reports, v_un = (\<lambda>c. case c of Reports xs \<Rightarrow> Some xs | _ \<Rightarrow> None),
     v_zero = zero_ExecReport\<rparr>"

definition atts_view :: "'m \<Rightarrow> ('m mem_Attachment, ('m, 'y) cell) view" where
  "atts_view z = \<lparr>v_mk = Attachments, v_un = (\<lambda>c. case c of Attachments xs \<Rightarrow> Some xs | _ \<Rightarrow> None),
     v_zero = zero_Attachment z\<rparr>"

definition subnets_view :: "'m \<Rightarrow> ('m mem_Subnet, ('m, 'y) cell) view" where
  "subnets_view z = \<lparr>v_mk = Subnets, v_un = (\<lambda>c. case c of Subnets xs \<Rightarrow> Some xs | _ \<Rightarrow> None),
     v_zero = zero_Subnet z\<rparr>"

definition locks_view :: "'m \<Rightarrow> ('m go_IPLock, ('m, 'y) cell) view" where
  "locks_view z = \<lparr>v_mk = Locks, v_un = (\<lambda>c. case c of Locks xs \<Rightarrow> Some xs | _ \<Rightarrow> None),
     v_zero = zero_IPLock z\<rparr>"

definition att_lists_view :: "(slice go_List, ('m, 'y) cell) view" where
  "att_lists_view = \<lparr>v_mk = AttachmentLists,
     v_un = (\<lambda>c. case c of AttachmentLists xs \<Rightarrow> Some xs | _ \<Rightarrow> None), v_zero = zero_List\<rparr>"

definition subnet_lists_view :: "(slice go_List, ('m, 'y) cell) view" where
  "subnet_lists_view = \<lparr>v_mk = SubnetLists,
     v_un = (\<lambda>c. case c of SubnetLists xs \<Rightarrow> Some xs | _ \<Rightarrow> None), v_zero = zero_List\<rparr>"

definition lock_lists_view :: "(slice go_List, ('m, 'y) cell) view" where
  "lock_lists_view = \<lparr>v_mk = LockLists,
     v_un = (\<lambda>c. case c of LockLists xs \<Rightarrow> Some xs | _ \<Rightarrow> None), v_zero = zero_List\<rparr>"

interpretation strings: cell_view strings_view
  by unfold_locales (simp add: strings_view_def)

interpretation reports: cell_view reports_view
  by unfold_locales (simp add: reports_view_def)

interpretation atts: cell_view "atts_view z" for z
  by unfold_locales (simp add: atts_view_def)

interpretation subnets: cell_view "subnets_view z" for z
  by unfold_locales (simp add: subnets_view_def)

interpretation locks: cell_view "locks_view z" for z
  by unfold_locales (simp add: locks_view_def)

interpretation att_lists: cell_view att_lists_view
  by unfold_locales (simp add: att_lists_view_def)

interpretation subnet_lists: cell_view subnet_lists_view
  by unfold_locales (simp add: subnet_lists_view_def)

interpretation lock_lists: cell_view lock_lists_view
  by unfold_locales (simp add: lock_lists_view_def)

end
