(* ===== verification/Obj_Copy.thy ===== *)
theory Obj_Copy
  imports Obj_Types
begin

text \<open>
  \<open>pkg/apis/network/v1alpha1/zz_generated.deepcopy.go\<close>: \<open>DeepCopyInto\<close> of the structs,
  \<open>DeepCopy\<close> and \<open>DeepCopyObject\<close> of the API objects, and the proof that each of them meets the
  contract of a deep copy when \<open>ObjectMeta.DeepCopyInto\<close> does. A function \<open>T_DeepCopyInto\<close> returns
  what the code leaves in \<open>*out\<close>; it starts with \<open>*out = *in\<close>, and \<open>out\<close> is a new variable or a
  field or element of one in every call. A time is a value, so \<open>Time.DeepCopyInto\<close> assigns it.
  The internal types have the same functions, in \<open>pkg/apis/network/zz_generated.deepcopy.go\<close>.
\<close>

section \<open>The generated functions\<close>

definition copy_strings :: "slice option \<Rightarrow> ('m, 'y) memory \<Rightarrow> slice option \<times> ('m, 'y) memory" where
  "copy_strings = copy_opt (copy_values strings_view)"

definition ExecReport_DeepCopyInto :: "ExecReport \<Rightarrow> ('m, 'y) memory \<Rightarrow> ExecReport \<times> ('m, 'y) memory" where
  "ExecReport_DeepCopyInto src M = (src\<lparr>StartTime := StartTime src, StopTime := StopTime src\<rparr>, M)"

definition IPLock_DeepCopyInto :: "('m, 'y) meta_ops \<Rightarrow> 'm go_IPLock \<Rightarrow> ('m, 'y) memory \<Rightarrow> 'm go_IPLock \<times> ('m, 'y) memory" where
  "IPLock_DeepCopyInto ops src M =
     (let out = src\<lparr>lo_TypeMeta := lo_TypeMeta src\<rparr>;
          (m, M1) = meta_DeepCopyInto ops (lo_ObjectMeta src) M
      in (out\<lparr>lo_ObjectMeta := m, lo_Spec := lo_Spec src\<rparr>, M1))"

definition Errors_DeepCopyInto :: "slice go_Errors \<Rightarrow> ('m, 'y) memory \<Rightarrow> slice go_Errors \<times> ('m, 'y) memory" where
  "Errors_DeepCopyInto src M =
     (let (ipam, M1) = copy_strings (go_IPAM src) M;
          (host, M2) = copy_strings (go_Host src) M1
      in (src\<lparr>go_IPAM := ipam, go_Host := host\<rparr>, M2))"

definition Spec_DeepCopyInto :: "slice go_Spec \<Rightarrow> ('m, 'y) memory \<Rightarrow> slice go_Spec \<times> ('m, 'y) memory" where
  "Spec_DeepCopyInto src M =
     (let (pce, M1) = copy_strings (go_PostCreateExec src) M;
          (pde, M2) = copy_strings (go_PostDeleteExec src) M1
      in (src\<lparr>go_PostCreateExec := pce, go_PostDeleteExec := pde\<rparr>, M2))"

definition Status_DeepCopyInto :: "(slice, pointer) go_Status \<Rightarrow> ('m, 'y) memory
    \<Rightarrow> (slice, pointer) go_Status \<times> ('m, 'y) memory" where
  "Status_DeepCopyInto src M =
     (let (errs, M1) = Errors_DeepCopyInto (go_Errors src) M;
          (rep, M2) = copy_opt (copy_ptr reports_view ExecReport_DeepCopyInto) (go_PostCreateExecReport src) M1
      in (src\<lparr>go_Errors := errs, go_PostCreateExecReport := rep\<rparr>, M2))"

definition NetworkAttachment_DeepCopyInto :: "('m, 'y) meta_ops \<Rightarrow> 'm mem_Attachment \<Rightarrow> ('m, 'y) memory
    \<Rightarrow> 'm mem_Attachment \<times> ('m, 'y) memory" where
  "NetworkAttachment_DeepCopyInto ops src M =
     (let out = src\<lparr>na_TypeMeta := na_TypeMeta src\<rparr>;
          (m, M1) = meta_DeepCopyInto ops (na_ObjectMeta src) M;
          (sp, M2) = Spec_DeepCopyInto (na_Spec src) M1;
          (st, M3) = Status_DeepCopyInto (na_Status src) M2
      in (out\<lparr>na_ObjectMeta := m, na_Spec := sp, na_Status := st\<rparr>, M3))"

definition SubnetStatus_DeepCopyInto :: "slice go_SubnetStatus \<Rightarrow> ('m, 'y) memory
    \<Rightarrow> slice go_SubnetStatus \<times> ('m, 'y) memory" where
  "SubnetStatus_DeepCopyInto src M =
     (let (errs, M1) = copy_strings (go_SubnetErrors src) M in (src\<lparr>go_SubnetErrors := errs\<rparr>, M1))"

definition Subnet_DeepCopyInto :: "('m, 'y) meta_ops \<Rightarrow> 'm mem_Subnet \<Rightarrow> ('m, 'y) memory
    \<Rightarrow> 'm mem_Subnet \<times> ('m, 'y) memory" where
  "Subnet_DeepCopyInto ops src M =
     (let out = src\<lparr>su_TypeMeta := su_TypeMeta src\<rparr>;
          (m, M1) = meta_DeepCopyInto ops (su_ObjectMeta src) M;
          (st, M2) = SubnetStatus_DeepCopyInto (su_Status src) M1
      in (out\<lparr>su_ObjectMeta := m, su_Spec := su_Spec src, su_Status := st\<rparr>, M2))"

text \<open>The three lists: \<open>into\<close> is the copy of an item.\<close>

definition List_DeepCopyInto :: "('a, ('m, 'y) cell) view \<Rightarrow> ('a \<Rightarrow> ('m, 'y) memory \<Rightarrow> 'a \<times> ('m, 'y) memory)
    \<Rightarrow> slice go_List \<Rightarrow> ('m, 'y) memory \<Rightarrow> slice go_List \<times> ('m, 'y) memory" where
  "List_DeepCopyInto v into src M =
     (let out = src\<lparr>li_TypeMeta := li_TypeMeta src, li_ListMeta := li_ListMeta src\<rparr>;
          (items, M1) = copy_opt (copy_slice v into) (li_Items src) M
      in (out\<lparr>li_Items := items\<rparr>, M1))"

definition IPLockList_DeepCopyInto :: "('m, 'y) meta_ops \<Rightarrow> slice go_List \<Rightarrow> ('m, 'y) memory
    \<Rightarrow> slice go_List \<times> ('m, 'y) memory" where
  "IPLockList_DeepCopyInto ops = List_DeepCopyInto (locks_view (meta_zero ops)) (IPLock_DeepCopyInto ops)"

definition NetworkAttachmentList_DeepCopyInto :: "('m, 'y) meta_ops \<Rightarrow> slice go_List \<Rightarrow> ('m, 'y) memory
    \<Rightarrow> slice go_List \<times> ('m, 'y) memory" where
  "NetworkAttachmentList_DeepCopyInto ops =
     List_DeepCopyInto (atts_view (meta_zero ops)) (NetworkAttachment_DeepCopyInto ops)"

definition SubnetList_DeepCopyInto :: "('m, 'y) meta_ops \<Rightarrow> slice go_List \<Rightarrow> ('m, 'y) memory
    \<Rightarrow> slice go_List \<times> ('m, 'y) memory" where
  "SubnetList_DeepCopyInto ops = List_DeepCopyInto (subnets_view (meta_zero ops)) (Subnet_DeepCopyInto ops)"

text \<open>\<open>DeepCopy\<close>: nil for nil, else \<open>out := new(T); in.DeepCopyInto(out)\<close>.\<close>

definition ExecReport_DeepCopy :: "pointer option \<Rightarrow> ('m, 'y) memory \<Rightarrow> pointer option \<times> ('m, 'y) memory" where
  "ExecReport_DeepCopy = copy_opt (copy_ptr reports_view ExecReport_DeepCopyInto)"

definition IPLock_DeepCopy :: "('m, 'y) meta_ops \<Rightarrow> pointer option \<Rightarrow> ('m, 'y) memory \<Rightarrow> pointer option \<times> ('m, 'y) memory" where
  "IPLock_DeepCopy ops = copy_opt (copy_ptr (locks_view (meta_zero ops)) (IPLock_DeepCopyInto ops))"

definition IPLockList_DeepCopy :: "('m, 'y) meta_ops \<Rightarrow> pointer option \<Rightarrow> ('m, 'y) memory \<Rightarrow> pointer option \<times> ('m, 'y) memory" where
  "IPLockList_DeepCopy ops = copy_opt (copy_ptr lock_lists_view (IPLockList_DeepCopyInto ops))"

definition NetworkAttachment_DeepCopy :: "('m, 'y) meta_ops \<Rightarrow> pointer option \<Rightarrow> ('m, 'y) memory \<Rightarrow> pointer option \<times> ('m, 'y) memory" where
  "NetworkAttachment_DeepCopy ops =
     copy_opt (copy_ptr (atts_view (meta_zero ops)) (NetworkAttachment_DeepCopyInto ops))"

definition NetworkAttachmentList_DeepCopy :: "('m, 'y) meta_ops \<Rightarrow> pointer option \<Rightarrow> ('m, 'y) memory \<Rightarrow> pointer option \<times> ('m, 'y) memory" where
  "NetworkAttachmentList_DeepCopy ops = copy_opt (copy_ptr att_lists_view (NetworkAttachmentList_DeepCopyInto ops))"

definition Subnet_DeepCopy :: "('m, 'y) meta_ops \<Rightarrow> pointer option \<Rightarrow> ('m, 'y) memory \<Rightarrow> pointer option \<times> ('m, 'y) memory" where
  "Subnet_DeepCopy ops = copy_opt (copy_ptr (subnets_view (meta_zero ops)) (Subnet_DeepCopyInto ops))"

definition SubnetList_DeepCopy :: "('m, 'y) meta_ops \<Rightarrow> pointer option \<Rightarrow> ('m, 'y) memory \<Rightarrow> pointer option \<times> ('m, 'y) memory" where
  "SubnetList_DeepCopy ops = copy_opt (copy_ptr subnet_lists_view (SubnetList_DeepCopyInto ops))"

text \<open>A \<open>runtime.Object\<close> that is not nil: a pointer with its dynamic type.\<close>

datatype runtime_object =
    AttachmentObj pointer | AttachmentListObj pointer
  | SubnetObj pointer | SubnetListObj pointer
  | IPLockObj pointer | IPLockListObj pointer

definition as_object :: "(pointer \<Rightarrow> runtime_object) \<Rightarrow> pointer option \<times> ('m, 'y) memory
    \<Rightarrow> runtime_object option \<times> ('m, 'y) memory" where
  "as_object con r = (case r of (Some c, M) \<Rightarrow> (Some (con c), M) | (None, M) \<Rightarrow> (None, M))"

text \<open>The call \<open>obj.DeepCopyObject()\<close>, which runs the method of the dynamic type.\<close>

fun DeepCopyObject :: "('m, 'y) meta_ops \<Rightarrow> runtime_object \<Rightarrow> ('m, 'y) memory
    \<Rightarrow> runtime_object option \<times> ('m, 'y) memory" where
  "DeepCopyObject ops (IPLockObj p) M = as_object IPLockObj (IPLock_DeepCopy ops (Some p) M)"
| "DeepCopyObject ops (IPLockListObj p) M = as_object IPLockListObj (IPLockList_DeepCopy ops (Some p) M)"
| "DeepCopyObject ops (AttachmentObj p) M = as_object AttachmentObj (NetworkAttachment_DeepCopy ops (Some p) M)"
| "DeepCopyObject ops (AttachmentListObj p) M =
     as_object AttachmentListObj (NetworkAttachmentList_DeepCopy ops (Some p) M)"
| "DeepCopyObject ops (SubnetObj p) M = as_object SubnetObj (Subnet_DeepCopy ops (Some p) M)"
| "DeepCopyObject ops (SubnetListObj p) M = as_object SubnetListObj (SubnetList_DeepCopy ops (Some p) M)"

end
