(* ===== verification/Obj_Sound.thy ===== *)
theory Obj_Sound
  imports Obj_Copy
begin

text \<open>
  What is reachable from the structs of the API and what is read through them, and the proof
  that the generated copies meet the contract \<open>deep_copier\<close>: the structs without metadata as
  interpretations, the objects under the contract of \<open>ObjectMeta.DeepCopyInto\<close>.
\<close>

section \<open>Slices of strings, reports, errors and specifications\<close>

abbreviation "strings_ok \<equiv> opt_ok (slice_ok strings_view (\<lambda>x M. True))"
abbreviation "strings_locs \<equiv> opt_locs (slice_locs strings_view (\<lambda>x M. {}))"
abbreviation "strings_val \<equiv> opt_val (slice_val strings_view (\<lambda>x M. x))"

interpretation strs: deep_copier copy_strings strings_ok strings_locs strings_val
  unfolding copy_strings_def by (rule opt_copier [OF strings.copy_values_copier])

lemma ExecReport_DeepCopyInto_plain: "ExecReport_DeepCopyInto = copy_plain"
  by (simp add: fun_eq_iff ExecReport_DeepCopyInto_def copy_plain_def)

abbreviation "report_ok \<equiv> opt_ok (ptr_ok reports_view (\<lambda>x M. True))"
abbreviation "report_locs \<equiv> opt_locs (ptr_locs reports_view (\<lambda>x M. {}))"
abbreviation "report_val \<equiv> opt_val (ptr_val reports_view (\<lambda>x M. x))"

interpretation report: deep_copier ExecReport_DeepCopy report_ok report_locs report_val
  unfolding ExecReport_DeepCopy_def ExecReport_DeepCopyInto_plain
  by (rule opt_copier [OF reports.ptr_copier [OF plain.deep_copier_axioms]])

definition errors_ok :: "slice go_Errors \<Rightarrow> ('m, 'y) memory \<Rightarrow> bool" where
  "errors_ok e M \<longleftrightarrow> strings_ok (go_IPAM e) M \<and> strings_ok (go_Host e) M"

definition errors_locs :: "slice go_Errors \<Rightarrow> ('m, 'y) memory \<Rightarrow> nat set" where
  "errors_locs e M = strings_locs (go_IPAM e) M \<union> strings_locs (go_Host e) M"

definition errors_val :: "slice go_Errors \<Rightarrow> ('m, 'y) memory \<Rightarrow> string list go_Errors" where
  "errors_val e M = \<lparr>go_IPAM = strings_val (go_IPAM e) M, go_Host = strings_val (go_Host e) M\<rparr>"

lemmas errors_defs = errors_ok_def [abs_def] errors_locs_def [abs_def] errors_val_def [abs_def]

interpretation errors: deep_copier Errors_DeepCopyInto errors_ok errors_locs errors_val
  using struct_copier [OF pair_copier [OF strs.deep_copier_axioms strs.deep_copier_axioms],
      where copy = Errors_DeepCopyInto and get = "\<lambda>e. (go_IPAM e, go_Host e)"
        and upd = "\<lambda>b e. e\<lparr>go_IPAM := fst b, go_Host := snd b\<rparr>"
        and build = "\<lambda>v e. \<lparr>go_IPAM = fst v, go_Host = snd v\<rparr>"]
  by (simp add: errors_defs pair_defs Errors_DeepCopyInto_def case_prod_beta Let_def)

definition spec_ok :: "slice go_Spec \<Rightarrow> ('m, 'y) memory \<Rightarrow> bool" where
  "spec_ok s M \<longleftrightarrow> strings_ok (go_PostCreateExec s) M \<and> strings_ok (go_PostDeleteExec s) M"

definition spec_locs :: "slice go_Spec \<Rightarrow> ('m, 'y) memory \<Rightarrow> nat set" where
  "spec_locs s M = strings_locs (go_PostCreateExec s) M \<union> strings_locs (go_PostDeleteExec s) M"

definition spec_val :: "slice go_Spec \<Rightarrow> ('m, 'y) memory \<Rightarrow> string list go_Spec" where
  "spec_val s M = \<lparr>go_Node = go_Node s, go_Subnet = go_Subnet s,
     go_PostCreateExec = strings_val (go_PostCreateExec s) M,
     go_PostDeleteExec = strings_val (go_PostDeleteExec s) M\<rparr>"

lemmas spec_defs = spec_ok_def [abs_def] spec_locs_def [abs_def] spec_val_def [abs_def]

interpretation spec: deep_copier Spec_DeepCopyInto spec_ok spec_locs spec_val
  using struct_copier [OF pair_copier [OF strs.deep_copier_axioms strs.deep_copier_axioms],
      where copy = Spec_DeepCopyInto and get = "\<lambda>s. (go_PostCreateExec s, go_PostDeleteExec s)"
        and upd = "\<lambda>b s. s\<lparr>go_PostCreateExec := fst b, go_PostDeleteExec := snd b\<rparr>"
        and build = "\<lambda>v s. \<lparr>go_Node = go_Node s, go_Subnet = go_Subnet s,
           go_PostCreateExec = fst v, go_PostDeleteExec = snd v\<rparr>"]
  by (simp add: spec_defs pair_defs Spec_DeepCopyInto_def case_prod_beta Let_def)

section \<open>Status\<close>

definition status_ok :: "(slice, pointer) go_Status \<Rightarrow> ('m, 'y) memory \<Rightarrow> bool" where
  "status_ok s M \<longleftrightarrow> errors_ok (go_Errors s) M \<and> report_ok (go_PostCreateExecReport s) M"

definition status_locs :: "(slice, pointer) go_Status \<Rightarrow> ('m, 'y) memory \<Rightarrow> nat set" where
  "status_locs s M = errors_locs (go_Errors s) M \<union> report_locs (go_PostCreateExecReport s) M"

definition read_status :: "string list go_Errors \<Rightarrow> ExecReport option \<Rightarrow> ('s, 'p) go_Status
    \<Rightarrow> (string list, ExecReport) go_Status" where
  "read_status e r s =
     \<lparr>go_Errors = e, go_LockUID = go_LockUID s, go_AddressVNI = go_AddressVNI s, go_IPv4 = go_IPv4 s,
      go_MACAddress = go_MACAddress s, go_IfcName = go_IfcName s, go_HostIP = go_HostIP s,
      go_PostCreateExecReport = r\<rparr>"

definition status_val :: "(slice, pointer) go_Status \<Rightarrow> ('m, 'y) memory \<Rightarrow> (string list, ExecReport) go_Status" where
  "status_val s M = read_status (errors_val (go_Errors s) M) (report_val (go_PostCreateExecReport s) M) s"

lemmas status_defs = status_ok_def [abs_def] status_locs_def [abs_def] status_val_def [abs_def]

interpretation status: deep_copier Status_DeepCopyInto status_ok status_locs status_val
  using struct_copier [OF pair_copier [OF errors.deep_copier_axioms report.deep_copier_axioms],
      where copy = Status_DeepCopyInto and get = "\<lambda>s. (go_Errors s, go_PostCreateExecReport s)"
        and upd = "\<lambda>b s. s\<lparr>go_Errors := fst b, go_PostCreateExecReport := snd b\<rparr>"
        and build = "\<lambda>v s. read_status (fst v) (snd v) s"]
  by (simp add: status_defs pair_defs Status_DeepCopyInto_def ExecReport_DeepCopy_def read_status_def
      case_prod_beta Let_def)

definition subnet_status_val :: "slice go_SubnetStatus \<Rightarrow> ('m, 'y) memory \<Rightarrow> string list go_SubnetStatus" where
  "subnet_status_val s M = \<lparr>go_SubnetErrors = strings_val (go_SubnetErrors s) M\<rparr>"

interpretation subnet_status: deep_copier SubnetStatus_DeepCopyInto
    "\<lambda>s. strings_ok (go_SubnetErrors s)" "\<lambda>s. strings_locs (go_SubnetErrors s)" subnet_status_val
  using struct_copier [OF strs.deep_copier_axioms,
      where copy = SubnetStatus_DeepCopyInto and get = go_SubnetErrors
        and upd = "\<lambda>b s. s\<lparr>go_SubnetErrors := b\<rparr>" and build = "\<lambda>v s. \<lparr>go_SubnetErrors = v\<rparr>"]
  by (simp add: subnet_status_val_def [abs_def] SubnetStatus_DeepCopyInto_def)

section \<open>Objects\<close>

text \<open>
  The contract of \<open>ObjectMeta.DeepCopyInto\<close>: \<open>mok\<close>, \<open>mlocs\<close> and \<open>mval\<close> say for the metadata what
  \<open>ok\<close>, \<open>locs\<close> and \<open>val\<close> say for the structs of the API.
\<close>

record ('m, 'y, 'w) meta_view =
  mv_ok :: "'m \<Rightarrow> ('m, 'y) memory \<Rightarrow> bool"
  mv_locs :: "'m \<Rightarrow> ('m, 'y) memory \<Rightarrow> nat set"
  mv_val :: "'m \<Rightarrow> ('m, 'y) memory \<Rightarrow> 'w"

definition meta_copies :: "('m, 'y) meta_ops \<Rightarrow> ('m, 'y, 'w) meta_view \<Rightarrow> bool" where
  "meta_copies ops mv \<longleftrightarrow> deep_copier (meta_DeepCopyInto ops) (mv_ok mv) (mv_locs mv) (mv_val mv)"

definition att_ok :: "('m, 'y, 'w) meta_view \<Rightarrow> 'm mem_Attachment \<Rightarrow> ('m, 'y) memory \<Rightarrow> bool" where
  "att_ok mv a M \<longleftrightarrow> mv_ok mv (na_ObjectMeta a) M \<and> spec_ok (na_Spec a) M \<and> status_ok (na_Status a) M"

definition att_locs :: "('m, 'y, 'w) meta_view \<Rightarrow> 'm mem_Attachment \<Rightarrow> ('m, 'y) memory \<Rightarrow> nat set" where
  "att_locs mv a M = mv_locs mv (na_ObjectMeta a) M \<union> (spec_locs (na_Spec a) M \<union> status_locs (na_Status a) M)"

definition att_val :: "('m, 'y, 'w) meta_view \<Rightarrow> 'm mem_Attachment \<Rightarrow> ('m, 'y) memory \<Rightarrow> 'w val_Attachment" where
  "att_val mv a M =
     \<lparr>na_TypeMeta = na_TypeMeta a, na_ObjectMeta = mv_val mv (na_ObjectMeta a) M,
      na_Spec = spec_val (na_Spec a) M, na_Status = status_val (na_Status a) M\<rparr>"

lemmas att_defs = att_ok_def [abs_def] att_locs_def [abs_def] att_val_def [abs_def]

lemma att_copier:
  assumes "meta_copies ops mv"
  shows "deep_copier (NetworkAttachment_DeepCopyInto ops) (att_ok mv) (att_locs mv) (att_val mv)"
  using struct_copier [OF pair_copier [OF assms [unfolded meta_copies_def]
        pair_copier [OF spec.deep_copier_axioms status.deep_copier_axioms]],
      where copy = "NetworkAttachment_DeepCopyInto ops"
        and get = "\<lambda>a. (na_ObjectMeta a, na_Spec a, na_Status a)"
        and upd = "\<lambda>b a. a\<lparr>na_ObjectMeta := fst b, na_Spec := fst (snd b), na_Status := snd (snd b)\<rparr>"
        and build = "\<lambda>v a. \<lparr>na_TypeMeta = na_TypeMeta a, na_ObjectMeta = fst v,
           na_Spec = fst (snd v), na_Status = snd (snd v)\<rparr>"]
  by (simp add: att_defs pair_defs NetworkAttachment_DeepCopyInto_def case_prod_beta Let_def)

definition subnet_ok :: "('m, 'y, 'w) meta_view \<Rightarrow> 'm mem_Subnet \<Rightarrow> ('m, 'y) memory \<Rightarrow> bool" where
  "subnet_ok mv s M \<longleftrightarrow> mv_ok mv (su_ObjectMeta s) M \<and> strings_ok (go_SubnetErrors (su_Status s)) M"

definition subnet_locs :: "('m, 'y, 'w) meta_view \<Rightarrow> 'm mem_Subnet \<Rightarrow> ('m, 'y) memory \<Rightarrow> nat set" where
  "subnet_locs mv s M = mv_locs mv (su_ObjectMeta s) M \<union> strings_locs (go_SubnetErrors (su_Status s)) M"

definition subnet_val :: "('m, 'y, 'w) meta_view \<Rightarrow> 'm mem_Subnet \<Rightarrow> ('m, 'y) memory \<Rightarrow> 'w val_Subnet" where
  "subnet_val mv s M =
     \<lparr>su_TypeMeta = su_TypeMeta s, su_ObjectMeta = mv_val mv (su_ObjectMeta s) M, su_Spec = su_Spec s,
      su_Status = subnet_status_val (su_Status s) M\<rparr>"

lemmas subnet_defs = subnet_ok_def [abs_def] subnet_locs_def [abs_def] subnet_val_def [abs_def]

lemma subnet_copier:
  assumes "meta_copies ops mv"
  shows "deep_copier (Subnet_DeepCopyInto ops) (subnet_ok mv) (subnet_locs mv) (subnet_val mv)"
  using struct_copier [OF pair_copier [OF assms [unfolded meta_copies_def] subnet_status.deep_copier_axioms],
      where copy = "Subnet_DeepCopyInto ops" and get = "\<lambda>s. (su_ObjectMeta s, su_Status s)"
        and upd = "\<lambda>b s. s\<lparr>su_ObjectMeta := fst b, su_Status := snd b\<rparr>"
        and build = "\<lambda>v s. \<lparr>su_TypeMeta = su_TypeMeta s, su_ObjectMeta = fst v, su_Spec = su_Spec s,
           su_Status = snd v\<rparr>"]
  by (simp add: subnet_defs pair_defs Subnet_DeepCopyInto_def case_prod_beta Let_def)

definition lock_val :: "('m, 'y, 'w) meta_view \<Rightarrow> 'm go_IPLock \<Rightarrow> ('m, 'y) memory \<Rightarrow> 'w go_IPLock" where
  "lock_val mv s M =
     \<lparr>lo_TypeMeta = lo_TypeMeta s, lo_ObjectMeta = mv_val mv (lo_ObjectMeta s) M, lo_Spec = lo_Spec s\<rparr>"

abbreviation "lock_ok mv s \<equiv> mv_ok mv (lo_ObjectMeta s)"
abbreviation "lock_locs mv s \<equiv> mv_locs mv (lo_ObjectMeta s)"

lemma lock_copier:
  assumes "meta_copies ops mv"
  shows "deep_copier (IPLock_DeepCopyInto ops) (lock_ok mv) (lock_locs mv) (lock_val mv)"
  using struct_copier [OF assms [unfolded meta_copies_def],
      where copy = "IPLock_DeepCopyInto ops" and get = lo_ObjectMeta
        and upd = "\<lambda>b s. s\<lparr>lo_ObjectMeta := b\<rparr>"
        and build = "\<lambda>v s. \<lparr>lo_TypeMeta = lo_TypeMeta s, lo_ObjectMeta = v, lo_Spec = lo_Spec s\<rparr>"]
  by (simp add: lock_val_def [abs_def] IPLock_DeepCopyInto_def case_prod_beta Let_def)

section \<open>Lists\<close>

definition list_val :: "('a, ('m, 'y) cell) view \<Rightarrow> ('a \<Rightarrow> ('m, 'y) memory \<Rightarrow> 'v)
    \<Rightarrow> slice go_List \<Rightarrow> ('m, 'y) memory \<Rightarrow> 'v list go_List" where
  "list_val v val s M =
     \<lparr>li_TypeMeta = li_TypeMeta s, li_ListMeta = li_ListMeta s,
      li_Items = opt_val (slice_val v val) (li_Items s) M\<rparr>"

abbreviation "list_ok v ok s \<equiv> opt_ok (slice_ok v ok) (li_Items s)"
abbreviation "list_locs v locs s \<equiv> opt_locs (slice_locs v locs) (li_Items s)"

context cell_view
begin

lemma list_copier:
  assumes "deep_copier into ok locs val"
  shows "deep_copier (\<lambda>s M. let (items, M1) = copy_opt (copy_slice v into) (li_Items s) M
      in (s\<lparr>li_Items := items\<rparr>, M1)) (\<lambda>s. opt_ok (slice_ok v ok) (li_Items s)) (\<lambda>s. opt_locs (slice_locs v locs) (li_Items s))
    (\<lambda>s M. \<lparr>li_TypeMeta = li_TypeMeta s, li_ListMeta = li_ListMeta s, li_Items = opt_val (slice_val v val) (li_Items s) M\<rparr>)"
  by (rule struct_copier [OF opt_copier [OF slice_copier [OF assms]], where get = li_Items
        and upd = "\<lambda>b s. s\<lparr>li_Items := b\<rparr>"
        and build = "\<lambda>v s. \<lparr>li_TypeMeta = li_TypeMeta s, li_ListMeta = li_ListMeta s, li_Items = v\<rparr>"]) simp_all

end

lemma List_DeepCopyInto_eq:
  "List_DeepCopyInto v into = (\<lambda>s M. let (items, M1) = copy_opt (copy_slice v into) (li_Items s) M
     in (s\<lparr>li_Items := items\<rparr>, M1))"
  by (simp add: fun_eq_iff List_DeepCopyInto_def)

lemmas list_eqs = List_DeepCopyInto_eq list_val_def [abs_def]

end
