(* ===== verification/Obj_Props.thy ===== *)
theory Obj_Props
  imports Obj_Sound IPAM Agent_Process
begin

text \<open>
  What the deep copies are used for. A copy of an API object shares no memory with anything that
  existed before, so the objects of the informers' caches are not changed through it; and the
  objects that the two controllers hand to the client for an update are, read as values, the ones
  that the value-level models \<open>status_update\<close> and \<open>host_status\<close> compute.
\<close>

section \<open>API objects behind a runtime.Object\<close>

datatype 'w obj_value =
    AttachmentV "'w val_Attachment" | AttachmentListV "'w val_Attachment list go_List"
  | SubnetV "'w val_Subnet" | SubnetListV "'w val_Subnet list go_List"
  | IPLockV "'w go_IPLock" | IPLockListV "'w go_IPLock list go_List"

fun object_ok :: "('m, 'y) meta_ops \<Rightarrow> ('m, 'y, 'w) meta_view \<Rightarrow> runtime_object \<Rightarrow> ('m, 'y) memory \<Rightarrow> bool" where
  "object_ok ops mv (AttachmentObj p) M = ptr_ok (atts_view (meta_zero ops)) (att_ok mv) p M"
| "object_ok ops mv (AttachmentListObj p) M =
     ptr_ok att_lists_view (list_ok (atts_view (meta_zero ops)) (att_ok mv)) p M"
| "object_ok ops mv (SubnetObj p) M = ptr_ok (subnets_view (meta_zero ops)) (subnet_ok mv) p M"
| "object_ok ops mv (SubnetListObj p) M =
     ptr_ok subnet_lists_view (list_ok (subnets_view (meta_zero ops)) (subnet_ok mv)) p M"
| "object_ok ops mv (IPLockObj p) M = ptr_ok (locks_view (meta_zero ops)) (lock_ok mv) p M"
| "object_ok ops mv (IPLockListObj p) M =
     ptr_ok lock_lists_view (list_ok (locks_view (meta_zero ops)) (lock_ok mv)) p M"

fun object_locs :: "('m, 'y) meta_ops \<Rightarrow> ('m, 'y, 'w) meta_view \<Rightarrow> runtime_object \<Rightarrow> ('m, 'y) memory \<Rightarrow> nat set" where
  "object_locs ops mv (AttachmentObj p) M = ptr_locs (atts_view (meta_zero ops)) (att_locs mv) p M"
| "object_locs ops mv (AttachmentListObj p) M =
     ptr_locs att_lists_view (list_locs (atts_view (meta_zero ops)) (att_locs mv)) p M"
| "object_locs ops mv (SubnetObj p) M = ptr_locs (subnets_view (meta_zero ops)) (subnet_locs mv) p M"
| "object_locs ops mv (SubnetListObj p) M =
     ptr_locs subnet_lists_view (list_locs (subnets_view (meta_zero ops)) (subnet_locs mv)) p M"
| "object_locs ops mv (IPLockObj p) M = ptr_locs (locks_view (meta_zero ops)) (lock_locs mv) p M"
| "object_locs ops mv (IPLockListObj p) M =
     ptr_locs lock_lists_view (list_locs (locks_view (meta_zero ops)) (lock_locs mv)) p M"

fun object_val :: "('m, 'y) meta_ops \<Rightarrow> ('m, 'y, 'w) meta_view \<Rightarrow> runtime_object \<Rightarrow> ('m, 'y) memory \<Rightarrow> 'w obj_value" where
  "object_val ops mv (AttachmentObj p) M = AttachmentV (ptr_val (atts_view (meta_zero ops)) (att_val mv) p M)"
| "object_val ops mv (AttachmentListObj p) M =
     AttachmentListV (ptr_val att_lists_view (list_val (atts_view (meta_zero ops)) (att_val mv)) p M)"
| "object_val ops mv (SubnetObj p) M = SubnetV (ptr_val (subnets_view (meta_zero ops)) (subnet_val mv) p M)"
| "object_val ops mv (SubnetListObj p) M =
     SubnetListV (ptr_val subnet_lists_view (list_val (subnets_view (meta_zero ops)) (subnet_val mv)) p M)"
| "object_val ops mv (IPLockObj p) M = IPLockV (ptr_val (locks_view (meta_zero ops)) (lock_val mv) p M)"
| "object_val ops mv (IPLockListObj p) M =
     IPLockListV (ptr_val lock_lists_view (list_val (locks_view (meta_zero ops)) (lock_val mv)) p M)"

lemma object_copiers:
  assumes "meta_copies ops mv"
  shows "deep_copier (copy_ptr (atts_view (meta_zero ops)) (NetworkAttachment_DeepCopyInto ops))
      (ptr_ok (atts_view (meta_zero ops)) (att_ok mv)) (ptr_locs (atts_view (meta_zero ops)) (att_locs mv))
      (ptr_val (atts_view (meta_zero ops)) (att_val mv))"
    and "deep_copier (copy_ptr (subnets_view (meta_zero ops)) (Subnet_DeepCopyInto ops))
      (ptr_ok (subnets_view (meta_zero ops)) (subnet_ok mv)) (ptr_locs (subnets_view (meta_zero ops)) (subnet_locs mv))
      (ptr_val (subnets_view (meta_zero ops)) (subnet_val mv))"
    and "deep_copier (copy_ptr (locks_view (meta_zero ops)) (IPLock_DeepCopyInto ops))
      (ptr_ok (locks_view (meta_zero ops)) (lock_ok mv)) (ptr_locs (locks_view (meta_zero ops)) (lock_locs mv))
      (ptr_val (locks_view (meta_zero ops)) (lock_val mv))"
  by (rule atts.ptr_copier att_copier subnets.ptr_copier subnet_copier locks.ptr_copier lock_copier assms)+

lemma list_copiers:
  assumes "meta_copies ops mv"
  shows "deep_copier (copy_ptr att_lists_view (NetworkAttachmentList_DeepCopyInto ops))
      (ptr_ok att_lists_view (list_ok (atts_view (meta_zero ops)) (att_ok mv)))
      (ptr_locs att_lists_view (list_locs (atts_view (meta_zero ops)) (att_locs mv)))
      (ptr_val att_lists_view (list_val (atts_view (meta_zero ops)) (att_val mv)))"
    and "deep_copier (copy_ptr subnet_lists_view (SubnetList_DeepCopyInto ops))
      (ptr_ok subnet_lists_view (list_ok (subnets_view (meta_zero ops)) (subnet_ok mv)))
      (ptr_locs subnet_lists_view (list_locs (subnets_view (meta_zero ops)) (subnet_locs mv)))
      (ptr_val subnet_lists_view (list_val (subnets_view (meta_zero ops)) (subnet_val mv)))"
    and "deep_copier (copy_ptr lock_lists_view (IPLockList_DeepCopyInto ops))
      (ptr_ok lock_lists_view (list_ok (locks_view (meta_zero ops)) (lock_ok mv)))
      (ptr_locs lock_lists_view (list_locs (locks_view (meta_zero ops)) (lock_locs mv)))
      (ptr_val lock_lists_view (list_val (locks_view (meta_zero ops)) (lock_val mv)))"
  unfolding NetworkAttachmentList_DeepCopyInto_def SubnetList_DeepCopyInto_def IPLockList_DeepCopyInto_def list_eqs
  by (rule att_lists.ptr_copier subnet_lists.ptr_copier lock_lists.ptr_copier atts.list_copier att_copier
      subnets.list_copier subnet_copier locks.list_copier lock_copier assms)+

text \<open>The method call on a non-nil object, as a copy in the sense of the contract.\<close>

definition copy_object :: "('m, 'y) meta_ops \<Rightarrow> runtime_object \<Rightarrow> ('m, 'y) memory \<Rightarrow> runtime_object \<times> ('m, 'y) memory" where
  "copy_object ops ob M = (case DeepCopyObject ops ob M of (r, M') \<Rightarrow> (case r of None \<Rightarrow> ob | Some ob' \<Rightarrow> ob', M'))"

lemmas object_DeepCopy_defs = NetworkAttachment_DeepCopy_def NetworkAttachmentList_DeepCopy_def Subnet_DeepCopy_def
  SubnetList_DeepCopy_def IPLock_DeepCopy_def IPLockList_DeepCopy_def

lemma DeepCopyObject_not_nil: "DeepCopyObject ops ob M = (Some (fst (copy_object ops ob M)), snd (copy_object ops ob M))"
  by (cases ob) (simp_all add: copy_object_def as_object_def object_DeepCopy_defs copy_opt_def case_prod_beta)

lemma object_copier:
  assumes "meta_copies ops mv"
  shows "deep_copier (copy_object ops) (object_ok ops mv) (object_locs ops mv) (object_val ops mv)"
proof -
  note cs = object_copiers [OF assms] list_copiers [OF assms]
  show ?thesis
  proof (unfold_locales, goal_cases)
    case (1 ob M l)
    then show ?case by (cases ob) (auto dest: cs [THEN deep_copier.allocated])
  next
    case (2 ob M M')
    then show ?case by (cases ob) (auto dest: cs [THEN deep_copier.reads])
  next
    case (3 ob M ob' M')
    then show ?case
      by (cases ob)
        (clarsimp simp: copy_object_def as_object_def object_DeepCopy_defs copy_opt_def split: prod.splits,
          drule (1) cs [THEN deep_copier.copies], simp)+
  qed
qed

section \<open>Updates of the status of an attachment\<close>

text \<open>
  The first lines of \<open>updateNAStatus\<close> and of \<open>setAttStatus\<close>: the attachment of the cache, at \<open>p\<close>,
  is copied and the fields of the copy are assigned. The slice of errors and the pointer to the
  report are stored in the copy as they are, so these two stay shared with the controller.
\<close>

definition write_status :: "('m, 'y) meta_ops \<Rightarrow> ((slice, pointer) go_Status \<Rightarrow> (slice, pointer) go_Status)
    \<Rightarrow> pointer option \<Rightarrow> ('m, 'y) memory \<Rightarrow> (go_panic, pointer \<times> ('m, 'y) memory) result" where
  "write_status ops upd p M =
     (case NetworkAttachment_DeepCopy ops p M of
        (None, M1) \<Rightarrow> Inl NilPointer
      | (Some q, M1) \<Rightarrow>
          (let v = atts_view (meta_zero ops); att2 = deref v q M1
           in Inr (q, assign v q (att2\<lparr>na_Status := upd (na_Status att2)\<rparr>) M1)))"

definition ipam_fields :: "slice option \<Rightarrow> ParsedLock \<Rightarrow> IP \<Rightarrow> (slice, 'p) go_Status \<Rightarrow> (slice, 'p) go_Status" where
  "ipam_fields statusErrs lockForStatus ipForStatus st =
     st\<lparr>go_Errors := (go_Errors st)\<lparr>go_IPAM := statusErrs\<rparr>,
       go_LockUID := pl_UID lockForStatus,
       go_AddressVNI := pl_VNI lockForStatus,
       go_IPv4 := (if ipForStatus = [] then [] else ip_String ipForStatus)\<rparr>"

definition agent_fields :: "IP \<Rightarrow> string \<Rightarrow> string \<Rightarrow> slice option \<Rightarrow> pointer option
    \<Rightarrow> (slice, pointer) go_Status \<Rightarrow> (slice, pointer) go_Status" where
  "agent_fields host macAddrS ifcName statusErrs pcer st =
     st\<lparr>go_Errors := (go_Errors st)\<lparr>go_Host := statusErrs\<rparr>,
       go_MACAddress := macAddrS,
       go_HostIP := ip_String host,
       go_IfcName := ifcName,
       go_PostCreateExecReport := pcer\<rparr>"

definition ipam_att2 :: "('m, 'y) meta_ops \<Rightarrow> pointer option \<Rightarrow> slice option \<Rightarrow> ParsedLock \<Rightarrow> IP
    \<Rightarrow> ('m, 'y) memory \<Rightarrow> (go_panic, pointer \<times> ('m, 'y) memory) result" where
  "ipam_att2 ops p statusErrs lockForStatus ipForStatus M =
     write_status ops (ipam_fields statusErrs lockForStatus ipForStatus) p M"

definition agent_att2 :: "('m, 'y) meta_ops \<Rightarrow> pointer option \<Rightarrow> IP \<Rightarrow> string \<Rightarrow> string \<Rightarrow> slice option
    \<Rightarrow> pointer option \<Rightarrow> ('m, 'y) memory \<Rightarrow> (go_panic, pointer \<times> ('m, 'y) memory) result" where
  "agent_att2 ops p host macAddrS ifcName statusErrs pcer M =
     write_status ops (agent_fields host macAddrS ifcName statusErrs pcer) p M"

text \<open>The attachment of the value-level models that is read through a pointer.\<close>

definition unnil :: "'a list option \<Rightarrow> 'a list" where
  "unnil x = (case x of None \<Rightarrow> [] | Some xs \<Rightarrow> xs)"

definition attachment_of :: "ObjectMeta val_Attachment \<Rightarrow> NetworkAttachment" where
  "attachment_of a =
     \<lparr>att_meta = na_ObjectMeta a,
      att_Spec = \<lparr>Node = go_Node (na_Spec a), Subnet_name = go_Subnet (na_Spec a),
        PostCreateExec = unnil (go_PostCreateExec (na_Spec a)),
        PostDeleteExec = unnil (go_PostDeleteExec (na_Spec a))\<rparr>,
      att_Status = \<lparr>Errors = \<lparr>IPAM_errs = unnil (go_IPAM (go_Errors (na_Status a))),
          Host_errs = unnil (go_Host (go_Errors (na_Status a)))\<rparr>,
        LockUID = go_LockUID (na_Status a), AddressVNI = go_AddressVNI (na_Status a),
        Status_IPv4 = go_IPv4 (na_Status a), MACAddress = go_MACAddress (na_Status a),
        IfcName = go_IfcName (na_Status a), HostIP = go_HostIP (na_Status a),
        PostCreateExecReport = go_PostCreateExecReport (na_Status a)\<rparr>\<rparr>"

definition read_att :: "('m, 'y) meta_ops \<Rightarrow> ('m, 'y, ObjectMeta) meta_view \<Rightarrow> pointer \<Rightarrow> ('m, 'y) memory \<Rightarrow> NetworkAttachment" where
  "read_att ops mv p M = attachment_of (ptr_val (atts_view (meta_zero ops)) (att_val mv) p M)"

text \<open>Assigning fields of the copy leaves the memory that existed before, and the rest of the copy.\<close>

lemma write_status_spec:
  assumes m: "meta_copies ops mv" and p: "object_ok ops mv (AttachmentObj p) M"
  obtains q M' a s where "write_status ops upd (Some p) M = Inr (q, M')" "grows M M'" "lim M \<le> fst q"
    "ptr_val (atts_view (meta_zero ops)) (att_val mv) q M' =
       (ptr_val (atts_view (meta_zero ops)) (att_val mv) p M)\<lparr>na_Status := status_val (upd s) M'\<rparr>"
    "status_val s M' = na_Status (ptr_val (atts_view (meta_zero ops)) (att_val mv) p M)"
proof -
  let ?v = "atts_view (meta_zero ops)"
  note c = att_copier [OF m]
  obtain q M1 where q: "copy_ptr ?v (NetworkAttachment_DeepCopyInto ops) p M = (q, M1)"
    by (cases "copy_ptr ?v (NetworkAttachment_DeepCopyInto ops) p M")
  have p': "ptr_ok ?v (att_ok mv) p M" using p by simp
  note sp = atts.copy_ptr_spec [OF c p' q]
  define a where "a = deref ?v q M1"
  define M' where "M' = assign ?v q (a\<lparr>na_Status := upd (na_Status a)\<rparr>) M1"
  have M': "M' = put_item ?v (lim M) 0 (a\<lparr>na_Status := upd (na_Status a)\<rparr>) M1"
    by (simp add: M'_def assign_def sp(1))
  have "copied (att_ok mv) (att_locs mv) (att_val mv) M (deref ?v p M) M' a"
    unfolding M' by (rule deep_copier.copied_put [OF c _ grows_refl]) (use sp(5) in \<open>simp add: a_def\<close>)
  then have v: "att_val mv a M' = ptr_val ?v (att_val mv) p M" by (simp add: copied_def ptr_val_def)
  have "items_at ?v (lim M) M' = [a\<lparr>na_Status := upd (na_Status a)\<rparr>]"
    by (simp add: M' atts.items_at_put sp(4))
  then have "ptr_val ?v (att_val mv) q M' = (att_val mv a M')\<lparr>na_Status := status_val (upd (na_Status a)) M'\<rparr>"
    by (simp add: ptr_val_def deref_def sp(1) att_val_def)
  moreover have "status_val (na_Status a) M' = na_Status (ptr_val ?v (att_val mv) p M)"
    using v [symmetric] by (simp add: att_val_def)
  moreover have "write_status ops upd (Some p) M = Inr (q, M')"
    by (simp add: write_status_def NetworkAttachment_DeepCopy_def copy_opt_def q M'_def a_def Let_def)
  moreover have "grows M M'" unfolding M' by (rule put_item_grows [OF sp(2) le_refl])
  ultimately show thesis using that v sp(1) by simp
qed

lemma write_status_nil: "write_status ops upd None M = Inl NilPointer"
  by (simp add: write_status_def NetworkAttachment_DeepCopy_def copy_opt_def)

lemma others_kept:
  "meta_copies ops mv \<Longrightarrow> grows M M' \<Longrightarrow> object_ok ops mv ob M \<Longrightarrow> object_val ops mv ob M' = object_val ops mv ob M"
  using deep_copier.grown [OF object_copier] by blast

lemma ipam_value:
  assumes "status_val s M = na_Status v"
  shows "attachment_of (v\<lparr>na_Status := status_val (ipam_fields errs lock ip s) M\<rparr>) =
    status_update (attachment_of v) (unnil (strings_val errs M)) lock ip"
  by (simp add: attachment_of_def status_update_def assms [symmetric])
    (simp add: ipam_fields_def status_val_def read_status_def errors_val_def)

lemma agent_value:
  assumes "status_val s M = na_Status v"
  shows "attachment_of (v\<lparr>na_Status := status_val (agent_fields (hostIP ca) mac ifc errs pcer s) M\<rparr>) =
    host_status ca (attachment_of v)
      \<lparr>res_MAC = mac, res_Name = ifc, res_statusErrs = unnil (strings_val errs M), res_pcer = report_val pcer M\<rparr>"
  by (simp add: attachment_of_def host_status_def assms [symmetric])
    (simp add: agent_fields_def status_val_def read_status_def errors_val_def)

section \<open>A concrete library and memory\<close>

text \<open>
  Metadata with a name and a slice of owner references, which a copy of the metadata copies; and a
  memory with an attachment that has an IPAM error and a report, and a list of two subnets.
\<close>

record demo_meta =
  dm_Name :: string
  dm_Owners :: "slice option"

definition owners_view :: "(OwnerReference, (demo_meta, OwnerReference list) cell) view" where
  "owners_view = \<lparr>v_mk = Foreign, v_un = (\<lambda>c. case c of Foreign xs \<Rightarrow> Some xs | _ \<Rightarrow> None),
     v_zero = \<lparr>or_APIVersion = [], or_Kind = [], or_Name = [], or_UID = [], or_Controller = None\<rparr>\<rparr>"

interpretation owners: cell_view owners_view
  by unfold_locales (simp add: owners_view_def)

definition demo_ops :: "(demo_meta, OwnerReference list) meta_ops" where
  "demo_ops = \<lparr>meta_zero = \<lparr>dm_Name = [], dm_Owners = None\<rparr>,
     meta_DeepCopyInto = (\<lambda>m M. let (o1, M1) = copy_opt (copy_values owners_view) (dm_Owners m) M
       in (m\<lparr>dm_Owners := o1\<rparr>, M1))\<rparr>"

definition demo_read :: "OwnerReference list option \<Rightarrow> demo_meta \<Rightarrow> ObjectMeta" where
  "demo_read os m = \<lparr>meta_Name = dm_Name m, meta_Namespace = ''ns'', meta_UID = ''u'', meta_ResourceVersion = ''1'',
     meta_CreationTimestamp = 0, meta_OwnerReferences = unnil os\<rparr>"

definition demo_view :: "(demo_meta, OwnerReference list, ObjectMeta) meta_view" where
  "demo_view = \<lparr>mv_ok = (\<lambda>m. opt_ok (slice_ok owners_view (\<lambda>x M. True)) (dm_Owners m)),
     mv_locs = (\<lambda>m. opt_locs (slice_locs owners_view (\<lambda>x M. {})) (dm_Owners m)),
     mv_val = (\<lambda>m M. demo_read (opt_val (slice_val owners_view (\<lambda>x M. x)) (dm_Owners m) M) m)\<rparr>"

lemma demo_copies: "meta_copies demo_ops demo_view"
  using struct_copier [OF opt_copier [OF owners.copy_values_copier], where get = dm_Owners
      and upd = "\<lambda>b m. m\<lparr>dm_Owners := b\<rparr>" and build = demo_read and copy = "meta_DeepCopyInto demo_ops"]
  by (simp add: meta_copies_def demo_view_def demo_ops_def demo_read_def)

definition demo_mem :: "(demo_meta, OwnerReference list) memory" where
  "demo_mem = \<lparr>lim = 4, cells = (\<lambda>l.
     if l = 0 then Foreign [\<lparr>or_APIVersion = [], or_Kind = ''Pod'', or_Name = ''p'', or_UID = ''v'', or_Controller = None\<rparr>]
     else if l = 1 then Strings [''no subnet'', ''launch failed'']
     else if l = 2 then Reports [zero_ExecReport\<lparr>StdOut := ''ok''\<rparr>]
     else Attachments [zero_Attachment \<lparr>dm_Name = ''b'', dm_Owners = None\<rparr>,
       (zero_Attachment \<lparr>dm_Name = ''a'', dm_Owners = Some \<lparr>s_arr = 0, s_off = 0, s_len = 1, s_cap = 1\<rparr>\<rparr>)
       \<lparr>na_Status := \<lparr>go_Errors = \<lparr>go_IPAM = Some \<lparr>s_arr = 1, s_off = 0, s_len = 1, s_cap = 2\<rparr>, go_Host = None\<rparr>,
          go_LockUID = [], go_AddressVNI = 0, go_IPv4 = [], go_MACAddress = [], go_IfcName = [], go_HostIP = [],
          go_PostCreateExecReport = Some (2, 0)\<rparr>\<rparr>])\<rparr>"

lemmas demo_defs = demo_mem_def demo_ops_def demo_view_def demo_read_def ptr_defs slice_defs array_ok_def items_at_def deref_def
  slice_items_def opt_defs strings_view_def reports_view_def atts_view_def owners_view_def att_defs spec_defs
  status_defs errors_defs zero_Attachment_def read_status_def

lemma demo_ok: "object_ok demo_ops demo_view (AttachmentObj (3, Suc 0)) demo_mem"
  by (simp add: demo_defs)

section \<open>Properties\<close>

text \<open>
  C26: A deep copy of an API object that is not nil reads like the object and has no memory in common
  with anything that existed before: whatever is written through the copy, every earlier object
  keeps its value, and whatever is written elsewhere, the copy keeps its value.
\<close>

theorem object_copies_separate:
  assumes "meta_copies ops mv" "object_ok ops mv ob M"
  shows "\<exists>ob' M'. DeepCopyObject ops ob M = (Some ob', M') \<and>
    object_val ops mv ob' M' = object_val ops mv ob M \<and>
    (\<forall>l\<in>object_locs ops mv ob' M'. lim M \<le> l) \<and>
    (\<forall>M'' ob2. keeps (- object_locs ops mv ob' M') M' M'' \<longrightarrow> object_ok ops mv ob2 M \<longrightarrow>
       object_val ops mv ob2 M'' = object_val ops mv ob2 M) \<and>
    (\<forall>M''. keeps (object_locs ops mv ob' M') M' M'' \<longrightarrow> object_val ops mv ob' M'' = object_val ops mv ob M)"
proof -
  note c = object_copier [OF assms(1)]
  obtain ob' M' where eq: "copy_object ops ob M = (ob', M')" by (cases "copy_object ops ob M")
  note cp = deep_copier.copies [OF c assms(2) eq]
  have earlier: "object_val ops mv ob2 M'' = object_val ops mv ob2 M"
    if k: "keeps (- object_locs ops mv ob' M') M' M''" and ok: "object_ok ops mv ob2 M" for M'' ob2
  proof -
    have g: "object_ok ops mv ob2 M'" "object_locs ops mv ob2 M' = object_locs ops mv ob2 M"
      "object_val ops mv ob2 M' = object_val ops mv ob2 M"
      using deep_copier.grown [OF c ok] cp by blast+
    have "object_locs ops mv ob' M' \<inter> object_locs ops mv ob2 M = {}"
      using deep_copier.copy_apart [OF c assms(2) eq] deep_copier.allocated [OF c ok] by blast
    then have "keeps (object_locs ops mv ob2 M') M' M''" using k g(2) by (auto intro!: keeps_mono [OF k])
    from deep_copier.reads [OF c g(1) this] show ?thesis using g(3) by simp
  qed
  have "DeepCopyObject ops ob M = (Some ob', M')" using DeepCopyObject_not_nil [of ops ob M] by (simp add: eq)
  then show ?thesis
    using cp earlier deep_copier.copy_kept(2) [OF c assms(2) eq] by blast
qed

text \<open>
  C25: The attachment that the IPAM controller and the connection agent hand to the client for an
  update is, read as a value, the one that \<open>status_update\<close> and \<open>host_status\<close> compute from the value
  of the attachment in the cache, and making it changes no object that existed before.
\<close>

theorem status_writes_refine:
  assumes "meta_copies ops mv" "object_ok ops mv (AttachmentObj p) M"
    "strings_ok errs M" "report_ok pcer M"
  shows "(\<exists>q M'. ipam_att2 ops (Some p) errs lock ip M = Inr (q, M') \<and>
      read_att ops mv q M' = status_update (read_att ops mv p M) (unnil (strings_val errs M)) lock ip \<and>
      (\<forall>ob. object_ok ops mv ob M \<longrightarrow> object_val ops mv ob M' = object_val ops mv ob M)) \<and>
    (\<exists>q M'. agent_att2 ops (Some p) (hostIP ca) mac ifc errs pcer M = Inr (q, M') \<and>
      read_att ops mv q M' = host_status ca (read_att ops mv p M)
        \<lparr>res_MAC = mac, res_Name = ifc, res_statusErrs = unnil (strings_val errs M), res_pcer = report_val pcer M\<rparr> \<and>
      (\<forall>ob. object_ok ops mv ob M \<longrightarrow> object_val ops mv ob M' = object_val ops mv ob M))"
proof -
  let ?v = "ptr_val (atts_view (meta_zero ops)) (att_val mv)"
  have kept: "strings_val errs M' = strings_val errs M" "report_val pcer M' = report_val pcer M"
    if "grows M M'" for M' :: "('a, 'b) memory"
    using strs.grown [OF assms(3) that] report.grown [OF assms(4) that] by blast+
  obtain q M' s where w: "write_status ops (ipam_fields errs lock ip) (Some p) M = Inr (q, M')" "grows M M'"
    "?v q M' = (?v p M)\<lparr>na_Status := status_val (ipam_fields errs lock ip s) M'\<rparr>"
    "status_val s M' = na_Status (?v p M)"
    by (rule write_status_spec [OF assms(1,2)])
  obtain q2 M2 s2 where w2:
    "write_status ops (agent_fields (hostIP ca) mac ifc errs pcer) (Some p) M = Inr (q2, M2)" "grows M M2"
    "?v q2 M2 = (?v p M)\<lparr>na_Status := status_val (agent_fields (hostIP ca) mac ifc errs pcer s2) M2\<rparr>"
    "status_val s2 M2 = na_Status (?v p M)"
    by (rule write_status_spec [OF assms(1,2)])
  show ?thesis
    using w(1) w2(1) ipam_value [OF w(4)] agent_value [OF w2(4), of ca] others_kept [OF assms(1) w(2)]
      others_kept [OF assms(1) w2(2)]
    by (simp add: ipam_att2_def agent_att2_def read_att_def w(3) w2(3) kept(1) [OF w(2)] kept [OF w2(2)])
qed

theorem object_copies_separate_witness:
  "object_ok demo_ops demo_view (AttachmentObj (3, Suc 0)) demo_mem \<and>
   (\<exists>ob' M'. DeepCopyObject demo_ops (AttachmentObj (3, Suc 0)) demo_mem = (Some ob', M') \<and>
      object_val demo_ops demo_view ob' M' = object_val demo_ops demo_view (AttachmentObj (3, Suc 0)) demo_mem)"
  using object_copies_separate [OF demo_copies demo_ok] demo_ok by blast

theorem status_writes_refine_witness:
  "strings_val (Some \<lparr>s_arr = 1, s_off = 1, s_len = 1, s_cap = 1\<rparr>) demo_mem = Some [''launch failed''] \<and>
   (\<exists>q M'. ipam_att2 demo_ops (Some (3, Suc 0)) (Some \<lparr>s_arr = 1, s_off = 1, s_len = 1, s_cap = 1\<rparr>)
        zeroParsedLock [] demo_mem = Inr (q, M') \<and>
      read_att demo_ops demo_view q M' =
        status_update (read_att demo_ops demo_view (3, Suc 0) demo_mem) [''launch failed''] zeroParsedLock [])"
proof -
  let ?s = "Some \<lparr>s_arr = 1, s_off = 1, s_len = 1, s_cap = 1\<rparr>"
  have s: "strings_ok ?s demo_mem" "strings_val ?s demo_mem = Some [''launch failed'']"
    "report_ok (Some (2, 0)) demo_mem"
    by (simp_all add: demo_defs)
  show ?thesis
    using status_writes_refine [OF demo_copies demo_ok s(1,3), of zeroParsedLock "[]", THEN conjunct1] s(2)
    unfolding s(2) by (simp add: unnil_def) blast
qed

end
