(* ===== verification/Obj_Convert.thy ===== *)
theory Obj_Convert
  imports Obj_Props
begin

text \<open>
  \<open>pkg/apis/network/v1alpha1/zz_generated.conversion.go\<close>: the conversions between the internal and
  the v1alpha1 version of the API. The two versions have the same structs, so one type of the model
  serves for both. The code assigns the fields of the target one by one, and slices and pointers
  through \<open>unsafe.Pointer\<close>, that is, as they are. A conversion returns the target or an error; it
  leaves the memory alone, as a target is never an object that the source shares a field with.
\<close>

section \<open>From v1alpha1 to the internal types\<close>

definition Convert_ExecReport_network :: "ExecReport \<Rightarrow> ExecReport \<Rightarrow> (string, ExecReport) result" where
  "Convert_ExecReport_network src dst =
     Inr (dst\<lparr>ExitStatus := ExitStatus src, StartTime := StartTime src, StopTime := StopTime src, StdOut := StdOut src, StdErr := StdErr src\<rparr>)"

definition Convert_IPLockSpec_network :: "IPLockSpec \<Rightarrow> IPLockSpec \<Rightarrow> (string, IPLockSpec) result" where
  "Convert_IPLockSpec_network src dst =
     Inr (dst\<lparr>ls_SubnetName := ls_SubnetName src\<rparr>)"

definition Convert_IPLock_network :: "'m go_IPLock \<Rightarrow> 'm go_IPLock \<Rightarrow> (string, 'm go_IPLock) result" where
  "Convert_IPLock_network src dst =
     (let out = dst\<lparr>lo_ObjectMeta := lo_ObjectMeta src\<rparr> in
      case Convert_IPLockSpec_network (lo_Spec src) (lo_Spec out) of Inl err \<Rightarrow> Inl err
      | Inr sp \<Rightarrow> Inr (out\<lparr>lo_Spec := sp\<rparr>))"

definition Convert_IPLockList_network :: "slice go_List \<Rightarrow> slice go_List \<Rightarrow> (string, slice go_List) result" where
  "Convert_IPLockList_network src dst =
     Inr (dst\<lparr>li_ListMeta := li_ListMeta src, li_Items := li_Items src\<rparr>)"

definition Convert_Errors_network :: "slice go_Errors \<Rightarrow> slice go_Errors \<Rightarrow> (string, slice go_Errors) result" where
  "Convert_Errors_network src dst =
     Inr (dst\<lparr>go_IPAM := go_IPAM src, go_Host := go_Host src\<rparr>)"

definition Convert_Spec_network :: "slice go_Spec \<Rightarrow> slice go_Spec \<Rightarrow> (string, slice go_Spec) result" where
  "Convert_Spec_network src dst =
     Inr (dst\<lparr>go_Node := go_Node src, go_Subnet := go_Subnet src, go_PostCreateExec := go_PostCreateExec src, go_PostDeleteExec := go_PostDeleteExec src\<rparr>)"

definition Convert_Status_network :: "(slice, pointer) go_Status \<Rightarrow> (slice, pointer) go_Status \<Rightarrow> (string, (slice, pointer) go_Status) result" where
  "Convert_Status_network src dst =
     (case Convert_Errors_network (go_Errors src) (go_Errors dst) of Inl err \<Rightarrow> Inl err
     | Inr e \<Rightarrow> Inr (dst\<lparr>go_Errors := e, go_LockUID := go_LockUID src, go_AddressVNI := go_AddressVNI src,
         go_IPv4 := go_IPv4 src, go_MACAddress := go_MACAddress src, go_IfcName := go_IfcName src,
         go_HostIP := go_HostIP src, go_PostCreateExecReport := go_PostCreateExecReport src\<rparr>))"

definition Convert_NetworkAttachment_network :: "'m mem_Attachment \<Rightarrow> 'm mem_Attachment \<Rightarrow> (string, 'm mem_Attachment) result" where
  "Convert_NetworkAttachment_network src dst =
     (let out = dst\<lparr>na_ObjectMeta := na_ObjectMeta src\<rparr> in
      case Convert_Spec_network (na_Spec src) (na_Spec out) of Inl err \<Rightarrow> Inl err
      | Inr sp \<Rightarrow>
          (let out1 = out\<lparr>na_Spec := sp\<rparr> in
           case Convert_Status_network (na_Status src) (na_Status out1) of Inl err \<Rightarrow> Inl err
           | Inr st \<Rightarrow> Inr (out1\<lparr>na_Status := st\<rparr>)))"

definition Convert_NetworkAttachmentList_network :: "slice go_List \<Rightarrow> slice go_List \<Rightarrow> (string, slice go_List) result" where
  "Convert_NetworkAttachmentList_network src dst =
     Inr (dst\<lparr>li_ListMeta := li_ListMeta src, li_Items := li_Items src\<rparr>)"

definition Convert_SubnetSpec_network :: "SubnetSpec \<Rightarrow> SubnetSpec \<Rightarrow> (string, SubnetSpec) result" where
  "Convert_SubnetSpec_network src dst =
     Inr (dst\<lparr>sn_IPv4 := sn_IPv4 src, sn_VNI := sn_VNI src\<rparr>)"

definition Convert_SubnetStatus_network :: "slice go_SubnetStatus \<Rightarrow> slice go_SubnetStatus \<Rightarrow> (string, slice go_SubnetStatus) result" where
  "Convert_SubnetStatus_network src dst =
     Inr (dst\<lparr>go_SubnetErrors := go_SubnetErrors src\<rparr>)"

definition Convert_Subnet_network :: "'m mem_Subnet \<Rightarrow> 'm mem_Subnet \<Rightarrow> (string, 'm mem_Subnet) result" where
  "Convert_Subnet_network src dst =
     (let out = dst\<lparr>su_ObjectMeta := su_ObjectMeta src\<rparr> in
      case Convert_SubnetSpec_network (su_Spec src) (su_Spec out) of Inl err \<Rightarrow> Inl err
      | Inr sp \<Rightarrow>
          (let out1 = out\<lparr>su_Spec := sp\<rparr> in
           case Convert_SubnetStatus_network (su_Status src) (su_Status out1) of Inl err \<Rightarrow> Inl err
           | Inr st \<Rightarrow> Inr (out1\<lparr>su_Status := st\<rparr>)))"

definition Convert_SubnetList_network :: "slice go_List \<Rightarrow> slice go_List \<Rightarrow> (string, slice go_List) result" where
  "Convert_SubnetList_network src dst =
     Inr (dst\<lparr>li_ListMeta := li_ListMeta src, li_Items := li_Items src\<rparr>)"

section \<open>From the internal types to v1alpha1\<close>

definition Convert_ExecReport_v1alpha1 :: "ExecReport \<Rightarrow> ExecReport \<Rightarrow> (string, ExecReport) result" where
  "Convert_ExecReport_v1alpha1 src dst =
     Inr (dst\<lparr>ExitStatus := ExitStatus src, StartTime := StartTime src, StopTime := StopTime src, StdOut := StdOut src, StdErr := StdErr src\<rparr>)"

definition Convert_IPLockSpec_v1alpha1 :: "IPLockSpec \<Rightarrow> IPLockSpec \<Rightarrow> (string, IPLockSpec) result" where
  "Convert_IPLockSpec_v1alpha1 src dst =
     Inr (dst\<lparr>ls_SubnetName := ls_SubnetName src\<rparr>)"

definition Convert_IPLock_v1alpha1 :: "'m go_IPLock \<Rightarrow> 'm go_IPLock \<Rightarrow> (string, 'm go_IPLock) result" where
  "Convert_IPLock_v1alpha1 src dst =
     (let out = dst\<lparr>lo_ObjectMeta := lo_ObjectMeta src\<rparr> in
      case Convert_IPLockSpec_v1alpha1 (lo_Spec src) (lo_Spec out) of Inl err \<Rightarrow> Inl err
      | Inr sp \<Rightarrow> Inr (out\<lparr>lo_Spec := sp\<rparr>))"

definition Convert_IPLockList_v1alpha1 :: "slice go_List \<Rightarrow> slice go_List \<Rightarrow> (string, slice go_List) result" where
  "Convert_IPLockList_v1alpha1 src dst =
     Inr (dst\<lparr>li_ListMeta := li_ListMeta src, li_Items := li_Items src\<rparr>)"

definition Convert_Errors_v1alpha1 :: "slice go_Errors \<Rightarrow> slice go_Errors \<Rightarrow> (string, slice go_Errors) result" where
  "Convert_Errors_v1alpha1 src dst =
     Inr (dst\<lparr>go_IPAM := go_IPAM src, go_Host := go_Host src\<rparr>)"

definition Convert_Spec_v1alpha1 :: "slice go_Spec \<Rightarrow> slice go_Spec \<Rightarrow> (string, slice go_Spec) result" where
  "Convert_Spec_v1alpha1 src dst =
     Inr (dst\<lparr>go_Node := go_Node src, go_Subnet := go_Subnet src, go_PostCreateExec := go_PostCreateExec src, go_PostDeleteExec := go_PostDeleteExec src\<rparr>)"

definition Convert_Status_v1alpha1 :: "(slice, pointer) go_Status \<Rightarrow> (slice, pointer) go_Status \<Rightarrow> (string, (slice, pointer) go_Status) result" where
  "Convert_Status_v1alpha1 src dst =
     (case Convert_Errors_v1alpha1 (go_Errors src) (go_Errors dst) of Inl err \<Rightarrow> Inl err
     | Inr e \<Rightarrow> Inr (dst\<lparr>go_Errors := e, go_LockUID := go_LockUID src, go_AddressVNI := go_AddressVNI src,
         go_IPv4 := go_IPv4 src, go_MACAddress := go_MACAddress src, go_IfcName := go_IfcName src,
         go_HostIP := go_HostIP src, go_PostCreateExecReport := go_PostCreateExecReport src\<rparr>))"

definition Convert_NetworkAttachment_v1alpha1 :: "'m mem_Attachment \<Rightarrow> 'm mem_Attachment \<Rightarrow> (string, 'm mem_Attachment) result" where
  "Convert_NetworkAttachment_v1alpha1 src dst =
     (let out = dst\<lparr>na_ObjectMeta := na_ObjectMeta src\<rparr> in
      case Convert_Spec_v1alpha1 (na_Spec src) (na_Spec out) of Inl err \<Rightarrow> Inl err
      | Inr sp \<Rightarrow>
          (let out1 = out\<lparr>na_Spec := sp\<rparr> in
           case Convert_Status_v1alpha1 (na_Status src) (na_Status out1) of Inl err \<Rightarrow> Inl err
           | Inr st \<Rightarrow> Inr (out1\<lparr>na_Status := st\<rparr>)))"

definition Convert_NetworkAttachmentList_v1alpha1 :: "slice go_List \<Rightarrow> slice go_List \<Rightarrow> (string, slice go_List) result" where
  "Convert_NetworkAttachmentList_v1alpha1 src dst =
     Inr (dst\<lparr>li_ListMeta := li_ListMeta src, li_Items := li_Items src\<rparr>)"

definition Convert_SubnetSpec_v1alpha1 :: "SubnetSpec \<Rightarrow> SubnetSpec \<Rightarrow> (string, SubnetSpec) result" where
  "Convert_SubnetSpec_v1alpha1 src dst =
     Inr (dst\<lparr>sn_IPv4 := sn_IPv4 src, sn_VNI := sn_VNI src\<rparr>)"

definition Convert_SubnetStatus_v1alpha1 :: "slice go_SubnetStatus \<Rightarrow> slice go_SubnetStatus \<Rightarrow> (string, slice go_SubnetStatus) result" where
  "Convert_SubnetStatus_v1alpha1 src dst =
     Inr (dst\<lparr>go_SubnetErrors := go_SubnetErrors src\<rparr>)"

definition Convert_Subnet_v1alpha1 :: "'m mem_Subnet \<Rightarrow> 'm mem_Subnet \<Rightarrow> (string, 'm mem_Subnet) result" where
  "Convert_Subnet_v1alpha1 src dst =
     (let out = dst\<lparr>su_ObjectMeta := su_ObjectMeta src\<rparr> in
      case Convert_SubnetSpec_v1alpha1 (su_Spec src) (su_Spec out) of Inl err \<Rightarrow> Inl err
      | Inr sp \<Rightarrow>
          (let out1 = out\<lparr>su_Spec := sp\<rparr> in
           case Convert_SubnetStatus_v1alpha1 (su_Status src) (su_Status out1) of Inl err \<Rightarrow> Inl err
           | Inr st \<Rightarrow> Inr (out1\<lparr>su_Status := st\<rparr>)))"

definition Convert_SubnetList_v1alpha1 :: "slice go_List \<Rightarrow> slice go_List \<Rightarrow> (string, slice go_List) result" where
  "Convert_SubnetList_v1alpha1 src dst =
     Inr (dst\<lparr>li_ListMeta := li_ListMeta src, li_Items := li_Items src\<rparr>)"

section \<open>Conversions share, copies do not\<close>

lemmas convert_defs = Convert_ExecReport_network_def Convert_ExecReport_v1alpha1_def
  Convert_IPLockSpec_network_def Convert_IPLockSpec_v1alpha1_def Convert_IPLock_network_def Convert_IPLock_v1alpha1_def
  Convert_IPLockList_network_def Convert_IPLockList_v1alpha1_def Convert_Errors_network_def Convert_Errors_v1alpha1_def
  Convert_Spec_network_def Convert_Spec_v1alpha1_def Convert_Status_network_def Convert_Status_v1alpha1_def
  Convert_NetworkAttachment_network_def Convert_NetworkAttachment_v1alpha1_def
  Convert_NetworkAttachmentList_network_def Convert_NetworkAttachmentList_v1alpha1_def
  Convert_SubnetSpec_network_def Convert_SubnetSpec_v1alpha1_def Convert_SubnetStatus_network_def
  Convert_SubnetStatus_v1alpha1_def Convert_Subnet_network_def Convert_Subnet_v1alpha1_def
  Convert_SubnetList_network_def Convert_SubnetList_v1alpha1_def

text \<open>A conversion succeeds and assigns everything but the type metadata of the target.\<close>

lemma convert_attachment:
  "Convert_NetworkAttachment_network a b = Inr (a\<lparr>na_TypeMeta := na_TypeMeta b\<rparr>)"
  "Convert_NetworkAttachment_v1alpha1 a b = Inr (a\<lparr>na_TypeMeta := na_TypeMeta b\<rparr>)"
  by (simp_all add: convert_defs)

lemma convert_subnet:
  "Convert_Subnet_network s t = Inr (s\<lparr>su_TypeMeta := su_TypeMeta t\<rparr>)"
  "Convert_Subnet_v1alpha1 s t = Inr (s\<lparr>su_TypeMeta := su_TypeMeta t\<rparr>)"
  by (simp_all add: convert_defs)

lemma convert_lock:
  "Convert_IPLock_network l k = Inr (l\<lparr>lo_TypeMeta := lo_TypeMeta k\<rparr>)"
  "Convert_IPLock_v1alpha1 l k = Inr (l\<lparr>lo_TypeMeta := lo_TypeMeta k\<rparr>)"
  by (simp_all add: convert_defs)

lemma convert_lists:
  "Convert_NetworkAttachmentList_network x y = Inr (x\<lparr>li_TypeMeta := li_TypeMeta y\<rparr>)"
  "Convert_NetworkAttachmentList_v1alpha1 x y = Inr (x\<lparr>li_TypeMeta := li_TypeMeta y\<rparr>)"
  "Convert_SubnetList_network x y = Inr (x\<lparr>li_TypeMeta := li_TypeMeta y\<rparr>)"
  "Convert_SubnetList_v1alpha1 x y = Inr (x\<lparr>li_TypeMeta := li_TypeMeta y\<rparr>)"
  "Convert_IPLockList_network x y = Inr (x\<lparr>li_TypeMeta := li_TypeMeta y\<rparr>)"
  "Convert_IPLockList_v1alpha1 x y = Inr (x\<lparr>li_TypeMeta := li_TypeMeta y\<rparr>)"
  by (simp_all add: convert_defs)

lemmas converts = convert_attachment convert_subnet convert_lock convert_lists

text \<open>A converted object shares memory with its source, but not with a deep copy of the source.\<close>

lemma converted_copy_apart:
  assumes "deep_copier copy ok locs val" "ok a M" "copy a M = (a2, M2)"
  shows "val a2 M2 = val a M" "locs a2 M2 \<inter> locs a M2 = {}"
proof -
  note c = deep_copier.copies [OF assms] and alloc = deep_copier.allocated [OF assms(1,2)]
  show "val a2 M2 = val a M" using c by blast
  have "locs a M2 = locs a M" using deep_copier.grown [OF assms(1,2)] c by blast
  then show "locs a2 M2 \<inter> locs a M2 = {}" using deep_copier.copy_apart [OF assms, of "locs a M"] alloc by simp
qed

lemma retyped_attachment:
  "att_locs mv (a\<lparr>na_TypeMeta := t\<rparr>) M = att_locs mv a M" "att_val mv (a\<lparr>na_TypeMeta := t\<rparr>) M = (att_val mv a M)\<lparr>na_TypeMeta := t\<rparr>"
  by (simp_all add: att_locs_def att_val_def)

lemma retyped_subnet:
  "subnet_locs mv (s\<lparr>su_TypeMeta := t\<rparr>) M = subnet_locs mv s M"
  "subnet_val mv (s\<lparr>su_TypeMeta := t\<rparr>) M = (subnet_val mv s M)\<lparr>su_TypeMeta := t\<rparr>"
  by (simp_all add: subnet_locs_def subnet_val_def)

lemma retyped_lock: "lock_val mv (l\<lparr>lo_TypeMeta := t\<rparr>) M = (lock_val mv l M)\<lparr>lo_TypeMeta := t\<rparr>"
  by (simp add: lock_val_def)

text \<open>
  C40: Converting an API object to the other version succeeds, whatever the target holds before; and
  converting the result back, again into any target, gives the object again but for the type
  metadata, which stays that of the target. In every state of the memory the converted object
  reads like the source and reaches exactly the memory of the source: what is written through one
  of them, the other one shows. An object that is converted from a deep copy instead reads the same
  and has no memory in common with it.
\<close>

theorem conversions_share:
  assumes "meta_copies ops mv" "att_ok mv a M" "subnet_ok mv s M" "lock_ok mv l M"
  shows "(\<exists>b'. Convert_NetworkAttachment_network a b = Inr b' \<and> Convert_NetworkAttachment_v1alpha1 a b = Inr b' \<and>
      (\<forall>c. Convert_NetworkAttachment_v1alpha1 b' c = Inr (a\<lparr>na_TypeMeta := na_TypeMeta c\<rparr>) \<and>
         Convert_NetworkAttachment_network b' c = Inr (a\<lparr>na_TypeMeta := na_TypeMeta c\<rparr>)) \<and>
      (\<forall>N. att_locs mv b' N = att_locs mv a N \<and> att_val mv b' N = (att_val mv a N)\<lparr>na_TypeMeta := na_TypeMeta b\<rparr>) \<and>
      (\<forall>a2 M2. NetworkAttachment_DeepCopyInto ops a M = (a2, M2) \<longrightarrow>
         (\<exists>b2. Convert_NetworkAttachment_network a2 b = Inr b2 \<and> att_val mv b2 M2 = att_val mv b' M \<and>
            att_locs mv b2 M2 \<inter> att_locs mv b' M2 = {}))) \<and>
   (\<exists>t'. Convert_Subnet_network s t = Inr t' \<and> Convert_Subnet_v1alpha1 s t = Inr t' \<and>
      (\<forall>c. Convert_Subnet_v1alpha1 t' c = Inr (s\<lparr>su_TypeMeta := su_TypeMeta c\<rparr>) \<and>
         Convert_Subnet_network t' c = Inr (s\<lparr>su_TypeMeta := su_TypeMeta c\<rparr>)) \<and>
      (\<forall>N. subnet_locs mv t' N = subnet_locs mv s N \<and> subnet_val mv t' N = (subnet_val mv s N)\<lparr>su_TypeMeta := su_TypeMeta t\<rparr>) \<and>
      (\<forall>s2 M2. Subnet_DeepCopyInto ops s M = (s2, M2) \<longrightarrow>
         (\<exists>t2. Convert_Subnet_network s2 t = Inr t2 \<and> subnet_val mv t2 M2 = subnet_val mv t' M \<and>
            subnet_locs mv t2 M2 \<inter> subnet_locs mv t' M2 = {}))) \<and>
   (\<exists>k'. Convert_IPLock_network l k = Inr k' \<and> Convert_IPLock_v1alpha1 l k = Inr k' \<and>
      (\<forall>c. Convert_IPLock_v1alpha1 k' c = Inr (l\<lparr>lo_TypeMeta := lo_TypeMeta c\<rparr>) \<and>
         Convert_IPLock_network k' c = Inr (l\<lparr>lo_TypeMeta := lo_TypeMeta c\<rparr>)) \<and>
      (\<forall>N. lock_locs mv k' N = lock_locs mv l N \<and> lock_val mv k' N = (lock_val mv l N)\<lparr>lo_TypeMeta := lo_TypeMeta k\<rparr>) \<and>
      (\<forall>l2 M2. IPLock_DeepCopyInto ops l M = (l2, M2) \<longrightarrow>
         (\<exists>k2. Convert_IPLock_network l2 k = Inr k2 \<and> lock_val mv k2 M2 = lock_val mv k' M \<and>
            lock_locs mv k2 M2 \<inter> lock_locs mv k' M2 = {}))) \<and>
   list_all (\<lambda>(conv, back). \<exists>y'. conv x y = Inr y' \<and> (\<forall>z. back y' z = Inr (x\<lparr>li_TypeMeta := li_TypeMeta z\<rparr>)) \<and>
       li_Items y' = li_Items x \<and> li_ListMeta y' = li_ListMeta x)
     [(Convert_NetworkAttachmentList_network, Convert_NetworkAttachmentList_v1alpha1),
      (Convert_NetworkAttachmentList_v1alpha1, Convert_NetworkAttachmentList_network),
      (Convert_SubnetList_network, Convert_SubnetList_v1alpha1), (Convert_SubnetList_v1alpha1, Convert_SubnetList_network),
      (Convert_IPLockList_network, Convert_IPLockList_v1alpha1), (Convert_IPLockList_v1alpha1, Convert_IPLockList_network)]"
proof -
  note att = converted_copy_apart [OF att_copier [OF assms(1)] assms(2)]
    and sub = converted_copy_apart [OF subnet_copier [OF assms(1)] assms(3)]
    and lock = converted_copy_apart [OF lock_copier [OF assms(1)] assms(4)]
  show ?thesis
    by (intro conjI) (simp_all add: converts retyped_attachment retyped_subnet retyped_lock att sub lock)
qed

definition demo_meta0 :: demo_meta where
  "demo_meta0 = \<lparr>dm_Name = ''a'', dm_Owners = Some \<lparr>s_arr = 0, s_off = 0, s_len = 1, s_cap = 1\<rparr>\<rparr>"

definition demo_att :: "demo_meta mem_Attachment" where
  "demo_att = (zero_Attachment demo_meta0)\<lparr>na_Status := \<lparr>go_Errors = \<lparr>go_IPAM = Some \<lparr>s_arr = 1, s_off = 0, s_len = 1, s_cap = 2\<rparr>,
     go_Host = None\<rparr>, go_LockUID = [], go_AddressVNI = 0, go_IPv4 = [], go_MACAddress = [], go_IfcName = [], go_HostIP = [],
     go_PostCreateExecReport = Some (2, 0)\<rparr>\<rparr>"

theorem conversions_share_witness:
  "\<exists>b' a2 M2 b2. Convert_NetworkAttachment_network demo_att (zero_Attachment demo_meta0) = Inr b' \<and>
     att_locs demo_view b' demo_mem = {0, 1, 2} \<and>
     NetworkAttachment_DeepCopyInto demo_ops demo_att demo_mem = (a2, M2) \<and>
     Convert_NetworkAttachment_network a2 (zero_Attachment demo_meta0) = Inr b2 \<and>
     att_val demo_view b2 M2 = att_val demo_view b' demo_mem \<and> att_locs demo_view b2 M2 \<inter> att_locs demo_view b' M2 = {}"
proof -
  have ok: "att_ok demo_view demo_att demo_mem" "subnet_ok demo_view (zero_Subnet demo_meta0) demo_mem"
    "lock_ok demo_view (zero_IPLock demo_meta0) demo_mem"
    by (simp_all add: demo_att_def demo_meta0_def demo_defs subnet_ok_def zero_Subnet_def zero_IPLock_def)
  obtain a2 M2 where c: "NetworkAttachment_DeepCopyInto demo_ops demo_att demo_mem = (a2, M2)" by fastforce
  have locs: "att_locs demo_view demo_att demo_mem = {0, 1, 2}" by (auto simp: demo_att_def demo_meta0_def demo_defs)
  from conversions_share [OF demo_copies ok, THEN conjunct1, of "zero_Attachment demo_meta0"] c locs
  show ?thesis by auto
qed

end
