(* ===== verification/Spec2Isabelle.thy ===== *)
theory Spec2Isabelle
  imports Uint32_Props Subnet_Props IPAM_Findings Agent_Sync OVS_Props Driver_Flaws Obj_Convert
begin

text \<open>
  Verification of KOS, the network control plane in \<open>src/staging/kos\<close>.

  \<^bold>\<open>The program.\<close> KOS gives pods virtual network interfaces. Users write \<open>Subnet\<close> and
  \<open>NetworkAttachment\<close> objects to an API server, which validates subnets
  (\<open>pkg/registry/network/subnet/strategy.go\<close>). The IPAM controller (\<open>pkg/controllers/ipam/ipam.go\<close>)
  watches attachments, picks an address of the subnet from its cache of taken addresses
  (\<open>pkg/uint32set\<close>), makes it its own by creating an \<open>IPLock\<close> object whose name encodes the VNI and
  the address, and writes the address to the status of the attachment. On every node a connection
  agent (\<open>pkg/controllers/connectionagent\<close>) watches the attachments of the node and, for every
  virtual network with such an attachment, the attachments of other nodes, and keeps a network
  fabric (\<open>pkg/networkfabric\<close>: an interface, a logger and an Open vSwitch implementation) in step
  with them.

  \<^bold>\<open>Shared theories.\<close> \<open>Kos_Prelude\<close> names the types of machine integers, the result type
  \<open>'e + 'a\<close> (\<open>Inl\<close> an error or a panic) and the collections of simplification rules.
  \<open>Go_Strings\<close>, \<open>Go_Net\<close> and \<open>Go_Regexp\<close> model what the sources use of \<open>fmt\<close>, \<open>strconv\<close>, \<open>strings\<close>,
  \<open>net\<close>, \<open>regexp\<close> and \<open>encoding/binary\<close>, with round trips of printing and parsing. \<open>Net_Blocks\<close> has
  the arithmetic of address blocks, \<open>Net_API\<close> the objects of \<open>pkg/apis/network/types.go\<close> and the
  helpers of \<open>pkg/util/data.go\<close>, \<open>Kube_Client\<close> the errors, queues, tombstones and field selectors
  that both controllers use.

  \<^bold>\<open>Sets of addresses\<close> (\<open>pkg/uint32set\<close>). \<open>Sorted_Set\<close> states the contract of the third-party
  sorted set as a locale; \<open>Uint32_Sorted\<close> models \<open>SortedUInt32Set\<close> on top of it and \<open>Uint32_Hash\<close> the
  reference implementation \<open>HashUInt32Set\<close>, with every panic of the code as a value.
  \<open>Uint32_Runs\<close>, \<open>Uint32_Correct\<close>, \<open>Uint32_Choose\<close> and \<open>Uint32_Export\<close> prove each operation against a
  mathematical set; \<open>Uint32_Interface\<close> states the interface \<open>UInt32Set\<close> as a locale that both
  implementations interpret; \<open>Uint32_Props\<close> has the properties (both sets answer alike, no panic,
  the choice of a free number, the printed runs).

  \<^bold>\<open>Subnets.\<close> \<open>Subnet_Strategy\<close> models the strategy; \<open>Subnet_Props\<close> the step relation of the store of
  subnets under creations, updates and deletions. The strategy compares a subnet with those in an
  informer cache, which may lag behind the store, so each step validates against any subset of the
  store; an entry of the store keeps what the cache had when the subnet was accepted, and only the
  statements use that. Two subnets with one VNI, of which one was in the cache when the other was
  accepted, stay in one namespace and disjoint (\<open>subnets_disjoint\<close>). Subnets that were validated
  concurrently may overlap, as the comments of the strategy say (\<open>concurrent_creations_overlap\<close>).

  \<^bold>\<open>IPAM controller.\<close> \<open>IPAM_Locks\<close> models lock names and lists of parsed locks, \<open>IPAM\<close> the state, the
  notification handlers and the processing of one attachment. The API server is a record of
  operations on a state of type \<open>'w\<close>, the informer caches are a record of functions, random numbers
  are functions. \<open>IPAM_Correct\<close> and \<open>IPAM_Server\<close> state what is needed of the server as locales and prove
  picking and locking; \<open>IPAM_Store\<close> is an executable server that interprets them; \<open>IPAM_Status\<close> proves
  what statuses and deletions processing may write, \<open>IPAM_Total\<close> that it returns. The retry loop
  around the creation of a lock object (\<open>create_loop\<close>) has fuel: it repeats only when the server says
  that the lock exists and then that it does not. For a server that does not do so \<open>k\<close> times in a row
  (\<open>settles k\<close>), \<open>k\<close> units are enough; for one that always does, no fuel is (\<open>create_loop_None\<close>).
  \<open>IPAM_Props\<close> and \<open>IPAM_Findings\<close> have the properties.

  \<^bold>\<open>Fabrics.\<close> \<open>Fabric\<close> models the interface as a record of operations, its contract as the locale
  \<open>network_fabric\<close>, the registry of factories, and the logger fabric, which interprets the contract.
  \<open>OVS\<close> and \<open>OVS_Listing\<close> model every function of \<open>ovs.go\<close>; the command line tools of the switch are an
  argument. \<open>OVS_Text\<close> and \<open>OVS_Flows\<close> prove that the regular expressions find and parse what flows
  contain, \<open>OVS_Pairs\<close> and \<open>OVS_List\<close> that listings recover interfaces from the text that the tools
  print, \<open>OVS_Locks\<close> the exclusion of addresses as a locale that the fabric interprets. \<open>OVS_Props\<close> has
  the properties, also where the fabric does not keep the contract of the interface.

  \<^bold>\<open>Connection agent.\<close> \<open>Agent\<close> models the state and its accessors, selectors, hardware addresses,
  commands and the states of virtual networks; \<open>Agent_Process\<close> the handlers, the processing of an
  attachment and the synchronisation at start-up, over any fabric. The loops that retry a deletion
  at start-up have fuel; \<open>k\<close> units are enough when the fabric does not fail \<open>k\<close> times in a row
  (\<open>deletes_within k\<close>), none is when it fails for ever (\<open>delete_local_retry_None\<close>). \<open>Agent_VN\<close> and
  \<open>Agent_Reach\<close> prove the invariant of the states of virtual networks for every reachable state,
  \<open>Agent_Ifc\<close> what processing does to interfaces for every fabric that satisfies \<open>network_fabric\<close>,
  \<open>Agent_Sync\<close> the start-up. \<open>Agent_Props\<close> has the other properties.

  \<^bold>\<open>Throughput driver\<close> (\<open>cmd/attachment-tput-driver/main.go\<close>), a load generator that creates virtual
  networks and then creates and deletes attachments in their slots with many threads, while it
  follows notifications. \<open>Driver_Work\<close> models the shuffle and the dealing of slots, \<open>Driver\<close> the shared
  state (histograms, connectivity domains, slots, two indices of addresses) and the handlers,
  \<open>Driver_Thread\<close> the pieces of work of \<open>RunThread\<close> between the points where it blocks and the step
  relation \<open>drv_step\<close> that interleaves them with replies and notifications in every order,
  \<open>Driver_Layout\<close> what \<open>main\<close> does before the threads start and after they return. \<open>Driver_Frame\<close> and
  \<open>Driver_Names\<close> prove that no name is requested twice, by a simulation with a smaller machine;
  \<open>Driver_Blocks\<close> and \<open>Driver_Nets\<close> that the validation of \<open>Subnet_Strategy\<close> accepts every subnet of the
  driver; \<open>Driver_Safe\<close> and \<open>Driver_Start\<close> that the threads start in a well-formed state, do not panic
  and have a rank that falls; \<open>Driver_Addrs\<close> and \<open>Driver_Calm\<close> that the index of addresses is exact in
  runs in which no notification of an address overtakes the reply to a creation; \<open>Driver_Main\<close> puts
  the invariants together for runs from the start of \<open>main\<close>. \<open>Driver_Props\<close> and \<open>Driver_Flaws\<close> have the
  properties. Arguments are the values of \<open>math.Pow\<close> (a positive function that does not fall, and
  sizes are exact rational numbers where the code rounds), \<open>rand.Intn\<close> (below its argument), the
  clock, the replies to calls and, in the layout, the API server, for which \<open>subnet_api\<close> is a store
  behind the modelled validation, which sees any part of the store. \<open>start_ok\<close> has the conditions on
  the flags and the store under which \<open>main\<close> gets to its threads. Log lines are events; the labels of subnets are left out.

  \<^bold>\<open>Objects in memory.\<close> The controllers share the objects of the informer caches and copy an object
  before they change it. The other theories have API objects as values; these have them as structs in
  memory. \<open>Obj_Memory\<close> has locations, pointers and slices, and the contract of a deep copy as the
  locale \<open>deep_copier\<close> (the copy reads the same, everything it reaches is new, what existed is
  unchanged); \<open>Obj_Slices\<close> shows it for pointers and slices over any way of keeping arrays in cells
  (the locale \<open>cell_view\<close>). \<open>Obj_Types\<close> has the structs of \<open>pkg/apis/network/v1alpha1/types.go\<close>,
  \<open>Obj_Copy\<close> the functions of \<open>zz_generated.deepcopy.go\<close>, \<open>Obj_Sound\<close> interprets the contract for each
  struct. The metadata of objects and their copy belong to a library and are arguments
  (\<open>meta_copies\<close> is what is assumed of them). \<open>Obj_Props\<close> proves that copies are separate and that
  the objects the controllers write are, read as values, those of \<open>status_update\<close> and \<open>host_status\<close>,
  while every object of a cache keeps its value: so it is sound to model API objects as values.
  \<open>Obj_Convert\<close> has \<open>zz_generated.conversion.go\<close>, whose conversions write into a target that may hold
  anything and share memory with their source.

  \<^bold>\<open>This theory\<close> has the properties that span components: addresses of attachments of different
  subnets (validation and IPAM), and the remote interfaces of an agent on the Open vSwitch fabric.

  \<^bold>\<open>Concurrency.\<close> Workers of a controller process different attachments in parallel under mutexes
  that the code takes around each access to shared maps; the model processes one item at a time.
  What other controllers do between two calls to the server is covered by statements about an
  arbitrary state of the server (\<open>two_controllers_exclude\<close>) and by step relations.

  \<^bold>\<open>Not modelled.\<close> Generated code apart from copies and conversions (clients, informers, listers, OpenAPI),
  the wiring of the API server and of the commands, metrics, logging (except arguments of log calls
  that may panic), of the throughput driver the flags, the connection to the API server, the pacing
  of the threads, the metrics server and the files, and the examples outside \<open>src/staging/kos\<close>.
\<close>

section \<open>Addresses of different subnets\<close>

text \<open>The informer caches of a controller hold subnets of the store, under their namespaces and names.\<close>

definition serves :: "Subnet list \<Rightarrow> ipam_listers \<Rightarrow> bool" where
  "serves db lsts \<longleftrightarrow> (\<forall>ns n sn. subnet_Lister lsts ns n = Inr sn \<longrightarrow>
     sn \<in> set db \<and> valid_v4_subnet sn \<and> sn_Namespace sn = ns \<and> meta_Name (sn_meta sn) = n)"

lemma ip_String_inj: "ip_String (Uint32ToIPv4 u) = ip_String (Uint32ToIPv4 v) \<longleftrightarrow> u = v"
proof
  assume same: "ip_String (Uint32ToIPv4 u) = ip_String (Uint32ToIPv4 v)"
  have "ParseIP (ip_String (Uint32ToIPv4 x)) = Uint32ToIPv4 x" for x
    by (subst ParseIP_String) (simp_all add: Uint32ToIPv4_def IPv4_def [symmetric])
  then have "Uint32ToIPv4 u = Uint32ToIPv4 v" using same by metis
  then show "u = v" using IPv4ToUint32_Uint32ToIPv4 [of u] by simp
qed simp

lemma written_status_supported:
  assumes "ipam_server api locks evlog" "env_api env = api" "no_permanent_errors api" "env_ok nodes invar env" "cache_ok nodes invar st"
    and "serves db (env_listers env)" "att_Lister (env_listers env) ns name = Inr att"
    and "processNetworkAttachment fuel env ns name st = Some (Inr (e, st'))"
    and "evlog (world st') = evlog (world st) @ evs" "EvUpdate u \<in> set evs"
  shows "\<exists>lk. status_supported lk (env_listers env) ns att (att_Status u)"
proof -
  have "process_found fuel env ns name (Some att) st = Some (Inr (e, st'))" using assms(7,8) by (simp add: processNetworkAttachment_def)
  from ipam_server.process_found_log [OF assms(1,2,4,5,3) _ this] assms(6) obtain ds us where
    "evlog (world st') = evlog (world st) @ map del_event ds @ map EvUpdate us"
    "\<forall>u\<in>set us. supported_update env locks ns name att (world st) (world st') u" by (auto simp: serves_def)
  then show ?thesis using assms(9,10) by (auto simp: supported_update_def)
qed

lemma written_address:
  assumes "status_supported lk lsts ns att s" "serves db lsts" "Status_IPv4 s \<noteq> []"
  obtains sn u where "sn \<in> set db" "sn_Namespace sn = ns" "sn_Name sn = Subnet_name (att_Spec att)"
    "AddressVNI s = spec_VNI sn" "Status_IPv4 s = ip_String (Uint32ToIPv4 u)" "u \<in> subnet_range sn"
proof -
  from assms(1,3) obtain sn ipl u where "subnet_Lister lsts ns (Subnet_name (att_Spec att)) = Inr sn"
    "supports ipl sn att u" "AddressVNI s = spec_VNI sn" "Status_IPv4 s = ip_String (Uint32ToIPv4 u)"
    by (auto simp: status_supported_def)
  moreover from this assms(2) have "sn \<in> set db" "sn_Namespace sn = ns" "sn_Name sn = Subnet_name (att_Spec att)"
    unfolding serves_def by blast+
  ultimately show thesis by (intro that) (auto simp: supports_def)
qed

text \<open>
  C5: the addresses that controllers write for attachments of two different subnets are never
  the same address of one virtual network, whichever controllers process the attachments and in
  whatever states with a well-formed address cache: validation keeps the blocks of subnets with one
  VNI apart, and a controller writes only addresses of the subnet of the attachment. This holds under
  three conditions: the informer caches of the controllers have valid IPv4 subnets of one and the
  same state of the store (a block may be used again after its subnet is deleted); no two subnets of
  one VNI in that state were validated concurrently, that is, one of them was in the informer cache by
  which the other was accepted (C3); and the server never refuses a lock object as invalid (C34).
\<close>

theorem subnets_keep_addresses_apart:
  assumes "(subnet_step sees)\<^sup>*\<^sup>* [] db" "none_concurrent db" "ipam_server api locks evlog" "no_permanent_errors api"
    and "env_api envA = api" "env_ok nodes1 invar1 envA" "cache_ok nodes1 invar1 st1" "serves (map fst db) (env_listers envA)"
    and "att_Lister (env_listers envA) ns1 name1 = Inr att1"
    and "processNetworkAttachment fuel1 envA ns1 name1 st1 = Some (Inr (e1, st1'))"
    and "evlog (world st1') = evlog (world st1) @ evs1" "EvUpdate u1 \<in> set evs1"
    and "env_api envB = api" "env_ok nodes2 invar2 envB" "cache_ok nodes2 invar2 st2" "serves (map fst db) (env_listers envB)"
    and "att_Lister (env_listers envB) ns2 name2 = Inr att2"
    and "processNetworkAttachment fuel2 envB ns2 name2 st2 = Some (Inr (e2, st2'))"
    and "evlog (world st2') = evlog (world st2) @ evs2" "EvUpdate u2 \<in> set evs2"
    and "(ns1, Subnet_name (att_Spec att1)) \<noteq> (ns2, Subnet_name (att_Spec att2))"
    and "Status_IPv4 (att_Status u1) \<noteq> []" "AddressVNI (att_Status u1) = AddressVNI (att_Status u2)"
  shows "Status_IPv4 (att_Status u1) \<noteq> Status_IPv4 (att_Status u2)"
proof
  assume same: "Status_IPv4 (att_Status u1) = Status_IPv4 (att_Status u2)"
  from written_status_supported [OF assms(3,5,4,6-12)] obtain lk1 where
    "status_supported lk1 (env_listers envA) ns1 att1 (att_Status u1)" by blast
  from written_address [OF this assms(8,22)] obtain sn1 v1 where 1:
    "sn1 \<in> set (map fst db)" "sn_Namespace sn1 = ns1" "sn_Name sn1 = Subnet_name (att_Spec att1)"
    "AddressVNI (att_Status u1) = spec_VNI sn1" "Status_IPv4 (att_Status u1) = ip_String (Uint32ToIPv4 v1)"
    "v1 \<in> subnet_range sn1" .
  from written_status_supported [OF assms(3,13,4,14-20)] obtain lk2 where
    "status_supported lk2 (env_listers envB) ns2 att2 (att_Status u2)" by blast
  from written_address [OF this assms(16) assms(22) [unfolded same]] obtain sn2 v2 where 2:
    "sn2 \<in> set (map fst db)" "sn_Namespace sn2 = ns2" "sn_Name sn2 = Subnet_name (att_Spec att2)"
    "AddressVNI (att_Status u2) = spec_VNI sn2" "Status_IPv4 (att_Status u2) = ip_String (Uint32ToIPv4 v2)"
    "v2 \<in> subnet_range sn2" .
  have "sn1 \<noteq> sn2" using 1(2,3) 2(2,3) assms(21) by auto
  moreover have "v1 = v2" using same 1(5) 2(5) by (simp add: ip_String_inj)
  ultimately show False
    using none_concurrent_pair(2) [OF assms(1,2), of sn1 sn2] assms(23) 1(1,4,6) 2(1,4,6) by auto
qed

definition two_listers :: ipam_listers where
  "two_listers = (sample_listers
       (\<lambda>ns name. if ns = ''ns'' \<and> name = ''x'' then Some (sample_att ''ns'' ''x'' ''uid-x'' ''a'')
          else if ns = ''ns'' \<and> name = ''y'' then Some (sample_att ''ns'' ''y'' ''uid-y'' ''b'') else None) sn0 [])
     \<lparr>subnet_Lister := (\<lambda>ns name. if ns = ''ns'' \<and> name = ''a'' then Inr (sample_subnet ''a'' ''u1'' ''10.0.0.0/24'' 7)
        else if ns = ''ns'' \<and> name = ''b'' then Inr (sample_subnet ''b'' ''u2'' ''10.0.1.0/24'' 7)
        else Inl (api_err ReasonNotFound ''not found''))\<rparr>"

lemma two_listers_serve: "serves (map fst sample_store) two_listers"
proof -
  have "spec_IPv4 (sample_subnet ''a'' ''u1'' ''10.0.0.0/24'' 7) = v4_String [10, 0, 0, 0] @ ''/'' @ format_uint 10 24"
    "spec_IPv4 (sample_subnet ''b'' ''u2'' ''10.0.1.0/24'' 7) = v4_String [10, 0, 1, 0] @ ''/'' @ format_uint 10 24" by code_simp+
  then have "valid_v4_subnet (sample_subnet ''a'' ''u1'' ''10.0.0.0/24'' 7)" "valid_v4_subnet (sample_subnet ''b'' ''u2'' ''10.0.1.0/24'' 7)"
    unfolding valid_v4_subnet_def
    by (intro conjI exI [of _ 10] exI [of _ 0] exI [of _ 1] exI [of _ 24]; simp add: sample_subnet_def maxVNI_def; fail)+
  then show ?thesis by (auto simp: serves_def two_listers_def sample_store_def sample_subnet_def)
qed

fun one_address :: "uint32 \<Rightarrow> api_event list \<Rightarrow> bool" where
  "one_address vni [EvUpdate u] \<longleftrightarrow> Status_IPv4 (att_Status u) \<noteq> [] \<and> AddressVNI (att_Status u) = vni"
| "one_address vni _ \<longleftrightarrow> False"

fun wrote_address :: "uint32 \<Rightarrow> (ipam_panic, string option \<times> (store_world, ss_node list) IPAMController) result option \<Rightarrow> bool" where
  "wrote_address vni (Some (Inr (None, st))) \<longleftrightarrow> one_address vni (sw_log (world st))"
| "wrote_address vni _ \<longleftrightarrow> False"

lemma wrote_addressD: "wrote_address vni r \<Longrightarrow> \<exists>st u. r = Some (Inr (None, st)) \<and> sw_log (world st) = [EvUpdate u] \<and>
    Status_IPv4 (att_Status u) \<noteq> [] \<and> AddressVNI (att_Status u) = vni"
  by (elim wrote_address.elims(2) one_address.elims(2)) simp

theorem subnets_keep_addresses_apart_witness:
  "\<exists>st1 u1 st2 u2. processNetworkAttachment 1 (sample_env store_api two_listers) ''ns'' ''x'' (NewIPAMController store0) = Some (Inr (None, st1)) \<and>
     sw_log (world st1) = [EvUpdate u1] \<and>
     processNetworkAttachment 1 (sample_env store_api two_listers) ''ns'' ''y'' (NewIPAMController store0) = Some (Inr (None, st2)) \<and>
     sw_log (world st2) = [EvUpdate u2] \<and> Status_IPv4 (att_Status u1) \<noteq> Status_IPv4 (att_Status u2)"
proof -
  let ?env = "sample_env store_api two_listers"
  let ?run = "\<lambda>name. processNetworkAttachment 1 ?env ''ns'' name (NewIPAMController store0)"
  have "wrote_address 7 (?run ''x'')" "wrote_address 7 (?run ''y'')" by code_simp+
  then obtain st1 u1 st2 u2 where 1: "?run ''x'' = Some (Inr (None, st1))" "sw_log (world st1) = [EvUpdate u1]"
      "Status_IPv4 (att_Status u1) \<noteq> []" "AddressVNI (att_Status u1) = 7"
    and 2: "?run ''y'' = Some (Inr (None, st2))" "sw_log (world st2) = [EvUpdate u2]" "AddressVNI (att_Status u2) = 7"
    by (meson wrote_addressD)
  have env: "env_api ?env = store_api" "env_listers ?env = two_listers" by (simp_all add: sample_env_def)
  have att: "att_Lister (env_listers ?env) ''ns'' ''x'' = Inr (sample_att ''ns'' ''x'' ''uid-x'' ''a'')"
    "att_Lister (env_listers ?env) ''ns'' ''y'' = Inr (sample_att ''ns'' ''y'' ''uid-y'' ''b'')"
    by (simp_all add: env(2)) (simp_all add: two_listers_def sample_listers_def)
  have log0: "sw_log (world (NewIPAMController store0 :: (store_world, ss_node list) IPAMController)) = []"
    by (simp add: NewIPAMController_def store0_def)
  have log: "sw_log (world st1) = sw_log (world (NewIPAMController store0 :: (store_world, ss_node list) IPAMController)) @ [EvUpdate u1]"
    "EvUpdate u1 \<in> set [EvUpdate u1]"
    "sw_log (world st2) = sw_log (world (NewIPAMController store0 :: (store_world, ss_node list) IPAMController)) @ [EvUpdate u2]"
    "EvUpdate u2 \<in> set [EvUpdate u2]"
    using 1(2) 2(2) log0 by simp_all
  have srv: "serves (map fst sample_store) (env_listers ?env)" using two_listers_serve env(2) by simp
  have none: "none_concurrent sample_store" by (simp add: none_concurrent_def sample_store_def acquainted_def)
  have "Status_IPv4 (att_Status u1) \<noteq> Status_IPv4 (att_Status u2)"
    by (rule subnets_keep_addresses_apart [OF sample_subnets_reachable none store.ipam_server_axioms store_no_permanent
          env(1) sample_env_ok cache_ok_New srv att(1) 1(1) log(1,2) env(1) sample_env_ok cache_ok_New srv att(2) 2(1) log(3,4)])
      (use 1 2 in \<open>simp_all add: sample_att_def\<close>)
  with 1 2 show ?thesis by blast
qed

section \<open>The agent on the Open vSwitch fabric\<close>

lemma bit_div: "bit (x :: 'a::len word) n \<longleftrightarrow> odd (unat x div 2 ^ n)"
  by (simp add: bit_iff_odd [symmetric] bit_unsigned_iff)

lemma agent_cookie:
  assumes "vni < 2 ^ 20" "generateMACAddr vni (IPv4 a b c d) = Inr mac"
  shows "flowCookie mac = ucast (((ucast (drop_bit 13 vni) AND 0xF8) OR push_bit 1 (a AND 2)) OR 2 :: uint8)"
proof -
  let ?h = "((ucast (drop_bit 13 vni) AND 0xF8) OR push_bit 1 (a AND 2)) OR 2 :: uint8"
  have mac: "mac = [?h, b, c, d, ucast (drop_bit 8 vni), ucast vni]" using assms(2) by (simp add: generateMACAddr_four)
  have "unat vni < 2 ^ 20" using assms(1) by (simp add: word_less_nat_alt)
  then have "\<not> bit vni 20" by (simp add: bit_div)
  then have "\<not> bit ?h 7" unfolding mac_octet_bits by simp
  then have "even (unat ?h div 128)" by (simp add: bit_div)
  moreover have "unat ?h div 128 < 2" using unat_lt8 [of ?h] by linarith
  ultimately have "unat ?h div 128 = 0" using less_2_cases [of "unat ?h div 128"] by auto
  then have "?h < 128" by (simp add: word_less_nat_alt)
  then show ?thesis unfolding mac by (simp add: flowCookie_def Uvarint_def)
qed

lemma agent_cookies_few:
  assumes "vni < 2 ^ 20" "\<forall>m\<in>M. \<exists>a b c d. generateMACAddr vni (IPv4 a b c d) = Inr m"
  shows "card (flowCookie ` M) \<le> 2"
proof -
  let ?c = "\<lambda>v. ucast (((ucast (drop_bit 13 vni) AND 0xF8) OR push_bit 1 v) OR 2 :: uint8) :: 64 word"
  have "flowCookie m \<in> {?c 0, ?c 2}" if "m \<in> M" for m
  proof -
    obtain a b c d where m: "generateMACAddr vni (IPv4 a b c d) = Inr m" using assms(2) \<open>m \<in> M\<close> by blast
    have "a AND 2 = 0 \<or> a AND 2 = (2 :: uint8)"
    proof (cases "bit a 1")
      case True
      then have "a AND 2 = 2" by (intro bit_eqI) (auto simp: bit_and_iff bit_2_iff)
      then show ?thesis ..
    next
      case False
      then have "a AND 2 = 0" by (intro bit_eqI) (auto simp: bit_and_iff bit_2_iff)
      then show ?thesis ..
    qed
    then show ?thesis unfolding agent_cookie [OF assms(1) m] by (elim disjE) (erule ssubst, blast)+
  qed
  then have "flowCookie ` M \<subseteq> {?c 0, ?c 2}" by blast
  then have "card (flowCookie ` M) \<le> card {?c 0, ?c 2}" by (intro card_mono) simp_all
  then show ?thesis using card_insert_le_m1 [of 2 "{?c 2}" "?c 0"] by simp
qed

text \<open>
  C33: in a virtual network with a VNI below 1048576, the Open vSwitch fabric lists at most two
  remote interfaces, however many the connection agent created there: the cookie of the flows of an
  interface is the first octet of the hardware address that the agent computed, of which only one
  bit comes from the guest address.
\<close>

theorem agent_remotes_merged:
  assumes "flowParsingKit f = kit" "permutes (cookie_order env)" "remote_flows_shown f st ls ris" "\<forall>i\<in>set ris. remote_ok i"
    and "CombinedOutput env s (newGetFlowsCmd f) = ((flows_text ls, None), s1)"
    and "vni < 2 ^ 20" "\<forall>i\<in>set ris. ri_VNI i = vni \<and> generateMACAddr vni (ri_GuestIP i) = Inr (ri_GuestMAC i)"
  shows "\<exists>lis f'. ovs_ListRemoteIfcs env (f, s) = Inr (Inr lis, f', s1) \<and> length lis \<le> 2"
proof (rule list_remote_shown [OF assms(1-5)])
  fix lis
  assume "lis = map (\<lambda>(c, q). read_remote f q) (in_order (cookie_order env) (remote_groups f ls))"
  then have "length lis = card (flowCookie ` ri_GuestMAC ` set ris)"
    using remote_listing_length [OF assms(1-3)] by (simp add: image_image)
  also have "\<dots> \<le> 2"
  proof (rule agent_cookies_few [OF assms(6)])
    show "\<forall>m\<in>ri_GuestMAC ` set ris. \<exists>a b c d. generateMACAddr vni (IPv4 a b c d) = Inr m"
      using assms(4,7) by (fastforce simp: remote_ok_def)
  qed
  finally have "length lis \<le> 2" .
  moreover assume "ovs_ListRemoteIfcs env (f, s) =
      Inr (Inr lis, f\<lparr>lockedVNIIPPairs := lockedVNIIPPairs f \<union> (\<lambda>i. pair_of (ri_VNI i) (ri_GuestIP i)) ` set lis\<rparr>, s1)"
  ultimately show ?thesis by blast
qed

definition agent_remote :: "uint8 \<Rightarrow> RemoteNetIfc" where
  "agent_remote d = \<lparr>ri_VNI = 5, ri_GuestMAC = [6, 0, 0, d, 0, 5], ri_GuestIP = IPv4 10 0 0 d, ri_HostIP = IPv4 192 168 0 2\<rparr>"

theorem agent_remotes_merged_witness:
  "\<exists>lis f'. ovs_ListRemoteIfcs (remote_env (map agent_remote [1, 2, 3])) (fabric0, ()) = Inr (Inr lis, f', ()) \<and>
     length lis \<le> 2 \<and> distinct (map agent_remote [1, 2, 3])"
proof -
  let ?ris = "map agent_remote [1, 2, 3]"
  have ok: "\<forall>i\<in>set ?ris. remote_ok i" by (simp add: remote_ok_def agent_remote_def)
  have "lines_ok (remote_dump ?ris)" by code_simp
  then have sh: "remote_flows_shown fabric0 (\<lambda>_. sample_stats) (remote_dump ?ris) ?ris" by (rule remote_dump_shown [OF ok])
  have "\<forall>i\<in>set ?ris. ri_VNI i = 5 \<and> generateMACAddr 5 (ri_GuestIP i) = Inr (ri_GuestMAC i)" by code_simp
  from agent_remotes_merged [OF remote_env_facts(1,2) sh ok remote_env_facts(3) _ this] show ?thesis
    by (simp add: agent_remote_def)
qed

end
